(* ===== verification/Prelude.thy ===== *)
theory Prelude
  imports Main "HOL-Library.Sublist"
begin

text \<open>
  Shared ground of the development: the Go string and number primitives the backend uses
  (byte strings, \<^verbatim>\<open>strings.*\<close>, \<^verbatim>\<open>strconv.Atoi\<close>), the Gin request context with its
  dynamically typed keys, the outcome of a middleware, and the generic lemmas and named
  collections the component theories use.

  A Go \<open>string\<close> is a byte string, here a HOL \<open>string\<close> (a list of 8-bit characters).
  A Go \<open>error\<close> result is a sum with the error on the left; \<open>nil\<close> pointers are \<open>None\<close>.
  Times are integers counting nanoseconds, as \<^verbatim>\<open>time.Duration\<close> does.
\<close>

named_theorems gin_simps \<open>reading and writing the request context\<close>
named_theorems go_strings \<open>unfolding of the Go string primitives\<close>

section \<open>Go string primitives\<close>

definition hasPrefix :: "string \<Rightarrow> string \<Rightarrow> bool" where
  "hasPrefix s p = (take (length p) s = p)"

definition trimPrefix :: "string \<Rightarrow> string \<Rightarrow> string" where
  "trimPrefix s p = (if hasPrefix s p then drop (length p) s else s)"

definition hasSuffix :: "string \<Rightarrow> string \<Rightarrow> bool" where
  "hasSuffix s p = hasPrefix (rev s) (rev p)"

definition trimSuffix :: "string \<Rightarrow> string \<Rightarrow> string" where
  "trimSuffix s p = (if hasSuffix s p then take (length s - length p) s else s)"

fun contains :: "string \<Rightarrow> string \<Rightarrow> bool" where
  "contains [] p = (p = [])"
| "contains (c # s) p = (hasPrefix (c # s) p \<or> contains s p)"

text \<open>\<^verbatim>\<open>strings.Split\<close> on a one-byte separator; the result is never empty.\<close>

fun splitOn :: "char \<Rightarrow> string \<Rightarrow> string list" where
  "splitOn d [] = [[]]"
| "splitOn d (c # s) =
     (if c = d then [] # splitOn d s
      else (case splitOn d s of [] \<Rightarrow> [[c]] | p # ps \<Rightarrow> (c # p) # ps))"

text \<open>The part of a string before the first occurrence of a byte, if it occurs at all.\<close>

fun indexByte :: "char \<Rightarrow> string \<Rightarrow> nat option" where
  "indexByte d [] = None"
| "indexByte d (c # s) = (if c = d then Some 0 else map_option Suc (indexByte d s))"

text \<open>
  \<^verbatim>\<open>strings.TrimSpace\<close> removes the UTF-8 encodings of the Unicode white-space runes
  from both ends; these are those encodings.
\<close>

definition spaceRunes :: "string list" where
  "spaceRunes =
     [[CHR 0x09], [CHR 0x0A], [CHR 0x0B], [CHR 0x0C], [CHR 0x0D], [CHR 0x20],
      [CHR 0xC2, CHR 0x85], [CHR 0xC2, CHR 0xA0], [CHR 0xE1, CHR 0x9A, CHR 0x80]] @
     map (\<lambda>b. [CHR 0xE2, CHR 0x80, b])
       [CHR 0x80, CHR 0x81, CHR 0x82, CHR 0x83, CHR 0x84, CHR 0x85, CHR 0x86, CHR 0x87,
        CHR 0x88, CHR 0x89, CHR 0x8A, CHR 0xA8, CHR 0xA9, CHR 0xAF] @
     [[CHR 0xE2, CHR 0x81, CHR 0x9F], [CHR 0xE3, CHR 0x80, CHR 0x80]]"

fun stripAny :: "string list \<Rightarrow> nat \<Rightarrow> string \<Rightarrow> string" where
  "stripAny ps 0 s = s"
| "stripAny ps (Suc n) s =
     (case find (\<lambda>p. hasPrefix s p) ps of
        None \<Rightarrow> s
      | Some p \<Rightarrow> stripAny ps n (drop (length p) s))"

definition trimLeftSpace :: "string \<Rightarrow> string" where
  "trimLeftSpace s = stripAny spaceRunes (length s) s"

definition trimRightSpace :: "string \<Rightarrow> string" where
  "trimRightSpace s = rev (stripAny (map rev spaceRunes) (length s) (rev s))"

definition trimSpace :: "string \<Rightarrow> string" where
  "trimSpace s = trimRightSpace (trimLeftSpace s)"

lemmas trim_defs [go_strings] = hasPrefix_def trimPrefix_def hasSuffix_def trimSuffix_def

lemma hasPrefix_iff_prefix: "hasPrefix s p \<longleftrightarrow> prefix p s"
  by (metis append_take_drop_id hasPrefix_def prefix_def append_eq_conv_conj)

lemma hasPrefix_append [simp]: "hasPrefix (p @ s) p"
  by (simp add: hasPrefix_def)

lemma hasPrefix_Nil [simp]: "hasPrefix s []"
  by (simp add: hasPrefix_def)

lemma hasPrefix_self [simp]: "hasPrefix s s"
  by (simp add: hasPrefix_def)

lemma trimPrefix_append [simp]: "trimPrefix (p @ s) p = s"
  by (simp add: trimPrefix_def)

lemma hasPrefix_decompose: "hasPrefix s p \<Longrightarrow> s = p @ trimPrefix s p"
  by (metis append_take_drop_id hasPrefix_def trimPrefix_def)

lemma splitOn_not_Nil [simp]: "splitOn d s \<noteq> []"
  by (induction s) (auto split: list.splits)

lemma splitOn_no_sep: "d \<notin> set s \<Longrightarrow> splitOn d s = [s]"
  by (induction s) auto

lemma splitOn_pieces: "p \<in> set (splitOn d s) \<Longrightarrow> d \<notin> set p"
proof (induction s arbitrary: p)
  case (Cons c s)
  then show ?case by (cases "splitOn d s") (auto split: if_splits)
qed simp

lemma splitOn_sep: "d \<notin> set x \<Longrightarrow> splitOn d (x @ d # s) = x # splitOn d s"
  by (induction x) (auto split: list.splits)

lemma indexByte_None: "indexByte d s = None \<longleftrightarrow> d \<notin> set s"
  by (induction s) auto

lemma indexByte_take: "indexByte d s = Some i \<Longrightarrow> d \<notin> set (take i s) \<and> i < length s \<and> s ! i = d"
  by (induction s arbitrary: i) (auto split: if_splits simp: take_Cons')

section \<open>strconv.Atoi\<close>

text \<open>
  \<^verbatim>\<open>Atoi\<close> on a 64-bit platform: the value and whether an error came with it. A syntax
  error yields 0, a value out of range the nearest 64-bit bound; callers that drop the
  error see that value.
\<close>

definition digitVal :: "char \<Rightarrow> nat option" where
  "digitVal c = (let n = (of_char c :: nat) in if 48 \<le> n \<and> n \<le> 57 then Some (n - 48) else None)"

definition hexVal :: "char \<Rightarrow> nat option" where
  "hexVal c = (let n = (of_char c :: nat) in
     if 48 \<le> n \<and> n \<le> 57 then Some (n - 48)
     else if 97 \<le> n \<and> n \<le> 102 then Some (n - 87)
     else if 65 \<le> n \<and> n \<le> 70 then Some (n - 55) else None)"

datatype uparse = USyntax | URange | UOk nat

fun parseUintGo :: "nat \<Rightarrow> string \<Rightarrow> uparse" where
  "parseUintGo n [] = UOk n"
| "parseUintGo n (c # cs) =
     (case digitVal c of
        None \<Rightarrow> USyntax
      | Some d \<Rightarrow> (if n * 10 + d > 2 ^ 64 - 1 then URange else parseUintGo (n * 10 + d) cs))"

definition parseUint :: "string \<Rightarrow> uparse" where
  "parseUint s = (if s = [] then USyntax else parseUintGo 0 s)"

definition atoi :: "string \<Rightarrow> int \<times> bool" where
  "atoi s =
     (let neg = (hasPrefix s ''-'');
          body = (if hasPrefix s ''-'' \<or> hasPrefix s ''+'' then drop 1 s else s)
      in case parseUint body of
           USyntax \<Rightarrow> (0, False)
         | URange \<Rightarrow> (if neg then - (2 ^ 63) else 2 ^ 63 - 1, False)
         | UOk n \<Rightarrow>
             (if \<not> neg \<and> n \<ge> 2 ^ 63 then (2 ^ 63 - 1, False)
              else if neg \<and> n > 2 ^ 63 then (- (2 ^ 63), False)
              else (if neg then - int n else int n, True)))"

lemma atoi_bounds: "- (2 ^ 63) \<le> fst (atoi s) \<and> fst (atoi s) < 2 ^ 63"
  by (auto simp: atoi_def Let_def split: uparse.splits)

text \<open>\<^verbatim>\<open>strconv.Itoa\<close>.\<close>

fun natDigits :: "nat \<Rightarrow> string" where
  "natDigits n = (if n < 10 then [char_of (48 + n)] else natDigits (n div 10) @ [char_of (48 + n mod 10)])"

declare natDigits.simps [simp del]

definition itoa :: "int \<Rightarrow> string" where
  "itoa z = (if z < 0 then ''-'' @ natDigits (nat (- z)) else natDigits (nat z))"

section \<open>The Gin request context\<close>

text \<open>
  \<open>api_key\<close> has the fields of the identity module's \<^verbatim>\<open>models.APIKey\<close> that the source
  reads, \<open>jwt_claims\<close> those of its claims type. \<open>gval\<close> is the dynamic type of a context
  value: a type assertion succeeds only on the constructor it names, so a wrongly typed
  value is representable.
\<close>

record api_key =
  keyID :: string
  keyHash :: string
  keyOrganizationID :: string
  keyUserID :: "string option"
  keyScopes :: "string list"
  keyExpiresAt :: "int option"

record jwt_claims =
  claimUserID :: string
  claimJTI :: string
  claimIssuedAt :: "int option"
  claimScopes :: "string list option"

datatype gval =
    GStr string
  | GStrs "string list"
  | GAPIKey api_key
  | GUser string
  | GClaims jwt_claims
  | GOptStr "string option"
  | GBool bool

record request =
  reqMethod :: string
  reqHeader :: "string \<Rightarrow> string"
  reqCookie :: "string \<Rightarrow> string option"
  reqParam :: "string \<Rightarrow> string"
  reqFullPath :: string
  reqClientIP :: string
  reqRemoteAddr :: string

datatype jval = JStr string | JInt int

record gin =
  ginReq :: request
  ginKeys :: "string \<rightharpoonup> gval"
  ginHeaders :: "(string \<times> string) list"

type_synonym jbody = "(string \<times> jval) list"

datatype outcome = Next gin | Abort nat jbody gin

definition cGet :: "gin \<Rightarrow> string \<Rightarrow> gval option" where
  "cGet c k = ginKeys c k"

definition cSet :: "gin \<Rightarrow> string \<Rightarrow> gval \<Rightarrow> gin" where
  "cSet c k v = c\<lparr>ginKeys := (ginKeys c)(k \<mapsto> v)\<rparr>"

definition cGetString :: "gin \<Rightarrow> string \<Rightarrow> string" where
  "cGetString c k = (case ginKeys c k of Some (GStr s) \<Rightarrow> s | _ \<Rightarrow> '''')"

definition cHeader :: "gin \<Rightarrow> string \<Rightarrow> string \<Rightarrow> gin" where
  "cHeader c k v =
     c\<lparr>ginHeaders := filter (\<lambda>h. fst h \<noteq> k) (ginHeaders c) @ (if v = [] then [] else [(k, v)])\<rparr>"

definition abortErr :: "nat \<Rightarrow> string \<Rightarrow> gin \<Rightarrow> outcome" where
  "abortErr st msg c = Abort st [(''error'', JStr msg)] c"

abbreviation StatusBadRequest :: nat where "StatusBadRequest \<equiv> 400"
abbreviation StatusUnauthorized :: nat where "StatusUnauthorized \<equiv> 401"
abbreviation StatusForbidden :: nat where "StatusForbidden \<equiv> 403"
abbreviation StatusTooManyRequests :: nat where "StatusTooManyRequests \<equiv> 429"
abbreviation StatusInternalServerError :: nat where "StatusInternalServerError \<equiv> 500"

fun passes :: "outcome \<Rightarrow> bool" where
  "passes (Next c) = True"
| "passes (Abort st b c) = False"

fun outStatus :: "outcome \<Rightarrow> nat" where
  "outStatus (Next c) = 200"
| "outStatus (Abort st b c) = st"

lemma passes_abortErr [simp]: "\<not> passes (abortErr st m c)"
  by (simp add: abortErr_def)

lemma outStatus_abortErr [simp]: "outStatus (abortErr st m c) = st"
  by (simp add: abortErr_def)

lemma abortErr_neq_Next [simp]: "abortErr st m c \<noteq> Next c'" "Next c' \<noteq> abortErr st m c"
  by (simp_all add: abortErr_def)

lemma passes_iff: "passes r \<longleftrightarrow> (\<exists>c. r = Next c)"
  by (cases r) auto

lemma cGet_cSet [gin_simps, simp]: "cGet (cSet c k v) k' = (if k = k' then Some v else cGet c k')"
  by (simp add: cGet_def cSet_def)

lemma cGet_cHeader [gin_simps, simp]: "cGet (cHeader c h v) k = cGet c k"
  by (simp add: cGet_def cHeader_def)

lemma ginReq_cSet [gin_simps, simp]: "ginReq (cSet c k v) = ginReq c"
  by (simp add: cSet_def)

lemma ginReq_cHeader [gin_simps, simp]: "ginReq (cHeader c k v) = ginReq c"
  by (simp add: cHeader_def)

lemma cGetString_cSet [gin_simps, simp]:
  "cGetString (cSet c k v) k' = (if k = k' then (case v of GStr s \<Rightarrow> s | _ \<Rightarrow> '''') else cGetString c k')"
  by (auto simp: cGetString_def cSet_def split: gval.splits)

section \<open>Generic lemmas\<close>

text \<open>A transition system and an invariant every step keeps: it holds in every state reached.\<close>

locale inductive_invariant =
  fixes start :: "'s \<Rightarrow> bool"
    and step :: "'s \<Rightarrow> 's \<Rightarrow> bool"
    and inv :: "'s \<Rightarrow> bool"
  assumes start_inv: "start s \<Longrightarrow> inv s"
    and step_inv: "inv s \<Longrightarrow> step s t \<Longrightarrow> inv t"
begin

lemma run_inv: "step\<^sup>*\<^sup>* s t \<Longrightarrow> inv s \<Longrightarrow> inv t"
  by (induction rule: rtranclp_induct) (auto intro: step_inv)

lemma reachable_inv: "start s \<Longrightarrow> step\<^sup>*\<^sup>* s t \<Longrightarrow> inv t"
  using run_inv start_inv by blast

end

lemma find_Some_member: "find P xs = Some x \<Longrightarrow> x \<in> set xs \<and> P x"
  by (auto simp: find_Some_iff)

text \<open>
  Single-use keys: an event may try to use a key, and a successful use holds the key until a
  deadline. While the key is held no event can use it again, unless one released it.
\<close>

fun trace :: "('e \<Rightarrow> 's \<Rightarrow> bool \<times> 's) \<Rightarrow> 'e list \<Rightarrow> 's \<Rightarrow> ('e \<times> bool) list" where
  "trace step [] s = []"
| "trace step (e # es) s = (e, fst (step e s)) # trace step es (snd (step e s))"

locale single_use =
  fixes step :: "'e \<Rightarrow> 's \<Rightarrow> bool \<times> 's"
    and uses :: "'e \<Rightarrow> 'k option"
    and at :: "'e \<Rightarrow> int"
    and releases :: "'e \<Rightarrow> 'k \<Rightarrow> bool"
    and held :: "'s \<Rightarrow> 'k \<Rightarrow> int \<Rightarrow> bool"
  assumes held_refuses: "uses e = Some k \<Longrightarrow> held s k t \<Longrightarrow> at e < t \<Longrightarrow> \<not> releases e k \<Longrightarrow> \<not> fst (step e s)"
    and held_keeps: "held s k t \<Longrightarrow> at e < t \<Longrightarrow> \<not> releases e k \<Longrightarrow> held (snd (step e s)) k t"
begin

lemma held_trace:
  assumes "held s k t" "\<forall>e \<in> set es. at e < t \<and> \<not> releases e k" "(e, ok) \<in> set (trace step es s)"
    "uses e = Some k"
  shows "\<not> ok"
  using assms
proof (induction es arbitrary: s)
  case (Cons e' es)
  then have "held (snd (step e' s)) k t" by (simp add: held_keeps)
  with Cons show ?case by (auto dest: held_refuses)
qed simp

end

text \<open>A lookup by a key that is unique in the list finds the element it looks for.\<close>

lemma find_distinct_key:
  assumes "x \<in> set xs" "P x" "\<And>y. y \<in> set xs \<Longrightarrow> P y \<Longrightarrow> f y = f x" "distinct (map f xs)"
  shows "find P xs = Some x"
  using assms
proof (induction xs)
  case (Cons a xs)
  show ?case
  proof (cases "P a")
    case True
    then have "f a = f x" using Cons.prems(3)[of a] by simp
    moreover have "f a \<notin> f ` set xs" using Cons.prems(4) by simp
    ultimately have "x \<notin> set xs" using imageI[of x "set xs" f] by metis
    then have "a = x" using Cons.prems(1) by simp
    with True show ?thesis by simp
  next
    case False
    then have "x \<in> set xs" using Cons.prems(1,2) by auto
    from Cons.IH[OF this Cons.prems(2)] Cons.prems(3,4) False show ?thesis by simp
  qed
qed simp

end
