(* ===== verification/Scopes.thy ===== *)
theory Scopes
  imports Prelude
begin

text \<open>
  Permission scopes (\<^verbatim>\<open>internal/auth/scopes.go\<close>), the role-assignment ceiling
  (\<^verbatim>\<open>internal/api/admin/role_ceiling.go\<close>) and the guard on roles granted by an identity
  provider (\<^verbatim>\<open>internal/api/admin/group_mapping_guard.go\<close>).

  The generic scope logic lives in the external module \<^verbatim>\<open>terraform-suite-identity\<close>,
  which the repository only imports. It is the record \<open>identity\<close> here, a parameter of
  every definition that calls it. \<open>identity_contract\<close> states what the comments of
  \<^verbatim>\<open>scopes.go\<close> document about it. The organization store of the same module is the
  record \<open>orgstore\<close>.
\<close>

section \<open>The identity module, a parameter\<close>

record identity =
  idScopeUsersRead :: string
  idScopeUsersWrite :: string
  idScopeOrganizationsRead :: string
  idScopeOrganizationsWrite :: string
  idScopeOrganizationsCreate :: string
  idScopeAPIKeysManage :: string
  idScopeAuditRead :: string
  idScopeAdmin :: string
  idHasScope :: "string list \<Rightarrow> string \<Rightarrow> (string \<rightharpoonup> string) \<Rightarrow> bool"
  idHasAnyScope :: "string list \<Rightarrow> string list \<Rightarrow> (string \<rightharpoonup> string) \<Rightarrow> bool"
  idHasAllScopes :: "string list \<Rightarrow> string list \<Rightarrow> (string \<rightharpoonup> string) \<Rightarrow> bool"
  idRoleScopesPermittedBy :: "string list \<Rightarrow> string list \<Rightarrow> (string \<rightharpoonup> string) \<Rightarrow> bool"
  idValidateProvisionableScopes :: "string list \<Rightarrow> string option"

record member_with_role =
  memberRoleTemplateID :: "string option"
  memberRoleTemplateName :: "string option"
  memberRoleTemplateScopes :: "string list"

record orgstore =
  osGetMember :: "string \<Rightarrow> string \<Rightarrow> string + string option option"
  osGetMemberWithRole :: "string \<Rightarrow> string \<Rightarrow> string + member_with_role option"
  osGetUserScopesForOrg :: "string \<Rightarrow> string \<Rightarrow> string + string list"
  osGetUserMemberships :: "string \<Rightarrow> string + string list"

section \<open>scopes.go\<close>

abbreviation ScopeModulesRead :: string where "ScopeModulesRead \<equiv> ''modules:read''"
abbreviation ScopeModulesWrite :: string where "ScopeModulesWrite \<equiv> ''modules:write''"
abbreviation ScopeProvidersRead :: string where "ScopeProvidersRead \<equiv> ''providers:read''"
abbreviation ScopeProvidersWrite :: string where "ScopeProvidersWrite \<equiv> ''providers:write''"
abbreviation ScopeMirrorsRead :: string where "ScopeMirrorsRead \<equiv> ''mirrors:read''"
abbreviation ScopeMirrorsManage :: string where "ScopeMirrorsManage \<equiv> ''mirrors:manage''"
abbreviation ScopeSCMRead :: string where "ScopeSCMRead \<equiv> ''scm:read''"
abbreviation ScopeSCMManage :: string where "ScopeSCMManage \<equiv> ''scm:manage''"
abbreviation ScopeScanningRead :: string where "ScopeScanningRead \<equiv> ''scanning:read''"
abbreviation ScopeSCIMProvision :: string where "ScopeSCIMProvision \<equiv> ''scim:provision''"

definition readWritePairs :: "identity \<Rightarrow> string \<rightharpoonup> string" where
  "readWritePairs I =
     [ScopeModulesRead \<mapsto> ScopeModulesWrite,
      ScopeProvidersRead \<mapsto> ScopeProvidersWrite,
      idScopeUsersRead I \<mapsto> idScopeUsersWrite I,
      ScopeMirrorsRead \<mapsto> ScopeMirrorsManage,
      idScopeOrganizationsRead I \<mapsto> idScopeOrganizationsWrite I,
      ScopeSCMRead \<mapsto> ScopeSCMManage]"

definition AllScopes :: "identity \<Rightarrow> string list" where
  "AllScopes I =
     [ScopeModulesRead, ScopeModulesWrite, ScopeProvidersRead, ScopeProvidersWrite,
      ScopeMirrorsRead, ScopeMirrorsManage, idScopeUsersRead I, idScopeUsersWrite I,
      idScopeOrganizationsRead I, idScopeOrganizationsWrite I, idScopeOrganizationsCreate I,
      ScopeSCMRead, ScopeSCMManage, idScopeAPIKeysManage I, idScopeAuditRead I,
      ScopeScanningRead, ScopeSCIMProvision, idScopeAdmin I]"

text \<open>The Go map from scope strings to \<open>true\<close>; a missing key reads as \<open>false\<close>.\<close>

definition ValidScopes :: "identity \<Rightarrow> string \<Rightarrow> bool" where
  "ValidScopes I = fold (\<lambda>s m. m(s := True)) (AllScopes I) (\<lambda>_. False)"

fun ValidateScopesLoop :: "(string \<Rightarrow> bool) \<Rightarrow> string list \<Rightarrow> string + unit" where
  "ValidateScopesLoop valid [] = Inr ()"
| "ValidateScopesLoop valid (s # ss) =
     (if \<not> valid s then Inl (''invalid scope: '' @ s) else ValidateScopesLoop valid ss)"

definition ValidateScopes :: "identity \<Rightarrow> string list \<Rightarrow> string + unit" where
  "ValidateScopes I scopes = ValidateScopesLoop (ValidScopes I) scopes"

definition HasScope :: "identity \<Rightarrow> string list \<Rightarrow> string \<Rightarrow> bool" where
  "HasScope I userScopes required = idHasScope I userScopes required (readWritePairs I)"

definition HasAnyScope :: "identity \<Rightarrow> string list \<Rightarrow> string list \<Rightarrow> bool" where
  "HasAnyScope I userScopes requiredScopes =
     idHasAnyScope I userScopes requiredScopes (readWritePairs I)"

definition HasAllScopes :: "identity \<Rightarrow> string list \<Rightarrow> string list \<Rightarrow> bool" where
  "HasAllScopes I userScopes requiredScopes =
     (if length requiredScopes = 0 then True
      else idHasAllScopes I userScopes requiredScopes (readWritePairs I))"

definition RoleScopesPermittedBy :: "identity \<Rightarrow> string list \<Rightarrow> string list \<Rightarrow> bool" where
  "RoleScopesPermittedBy I callerScopes roleScopes =
     idRoleScopesPermittedBy I callerScopes roleScopes (readWritePairs I)"

definition GetDefaultScopes :: "string list" where
  "GetDefaultScopes = [ScopeModulesRead, ScopeProvidersRead]"

definition GetAdminScopes :: "identity \<Rightarrow> string list" where
  "GetAdminScopes I = foldl (\<lambda>acc s. acc @ [s]) [] (AllScopes I)"

definition ValidateScopeString :: "identity \<Rightarrow> string \<Rightarrow> string + unit" where
  "ValidateScopeString I scope =
     (if \<not> ValidScopes I scope then Inl ''invalid scope'' else Inr ())"

definition ValidateProvisionableScopes :: "identity \<Rightarrow> string list \<Rightarrow> string + unit" where
  "ValidateProvisionableScopes I scopes =
     (case idValidateProvisionableScopes I scopes of None \<Rightarrow> Inr () | Some e \<Rightarrow> Inl e)"

section \<open>role\_ceiling.go and group\_mapping\_guard.go\<close>

text \<open>
  A role-template query ends in a database error, in no row, or in a row whose \<open>scopes\<close>
  column is either a JSON list of strings or does not decode (\<open>None\<close>).
\<close>

datatype 'a rowres = RowErr string | NoRow | Row 'a

record role_check =
  rcAllowed :: bool
  rcStatus :: nat

definition rcDeny :: "nat \<Rightarrow> role_check" where
  "rcDeny st = \<lparr>rcAllowed = False, rcStatus = st\<rparr>"

definition rcAllow :: role_check where
  "rcAllow = \<lparr>rcAllowed = True, rcStatus = 0\<rparr>"

definition ctxStrings :: "gin \<Rightarrow> string \<Rightarrow> string list" where
  "ctxStrings c k = (case cGet c k of Some (GStrs ss) \<Rightarrow> ss | _ \<Rightarrow> [])"

definition checkRoleAssignment ::
  "identity \<Rightarrow> orgstore \<Rightarrow> (string \<Rightarrow> string option) \<Rightarrow>
   (string \<Rightarrow> string list option rowres) \<Rightarrow> gin \<Rightarrow> string option \<Rightarrow> role_check" where
  "checkRoleAssignment I os uuidParse roleRow c roleTemplateID =
     (case roleTemplateID of
        None \<Rightarrow> rcAllow
      | Some rid \<Rightarrow>
          if rid = '''' then rcAllow
          else (case uuidParse rid of
            None \<Rightarrow> rcDeny StatusBadRequest
          | Some u \<Rightarrow>
              (case roleRow u of
                 NoRow \<Rightarrow> rcDeny StatusBadRequest
               | RowErr e \<Rightarrow> rcDeny StatusInternalServerError
               | Row None \<Rightarrow> rcDeny StatusInternalServerError
               | Row (Some roleScopes) \<Rightarrow>
                   if length roleScopes = 0 then rcAllow
                   else
                     let globalScopes = ctxStrings c ''scopes'' in
                     let callerScopes =
                       (if \<not> HasScope I globalScopes (idScopeAdmin I)
                        then osGetUserScopesForOrg os (cGetString c ''user_id'') (reqParam (ginReq c) ''id'')
                        else Inr globalScopes) in
                     (case callerScopes of
                        Inl e \<Rightarrow> rcDeny StatusInternalServerError
                      | Inr cs \<Rightarrow>
                          if \<not> RoleScopesPermittedBy I cs roleScopes then rcDeny StatusForbidden
                          else rcAllow))))"

definition guardProvisionableRole ::
  "identity \<Rightarrow> (string \<Rightarrow> string list option rowres) \<Rightarrow> string \<Rightarrow> string + unit" where
  "guardProvisionableRole I roleRowByName name =
     (case roleRowByName name of
        NoRow \<Rightarrow> Inr ()
      | RowErr e \<Rightarrow> Inl (''look up role template scopes: '' @ e)
      | Row None \<Rightarrow> Inl ''parse role template scopes''
      | Row (Some scopes) \<Rightarrow> ValidateProvisionableScopes I scopes)"

section \<open>What the comments document about the identity module\<close>

definition identity_contract :: "identity \<Rightarrow> bool" where
  "identity_contract I \<longleftrightarrow>
     (\<forall>us r ps. idHasScope I us r ps =
        (idScopeAdmin I \<in> set us \<or> r \<in> set us \<or> (\<exists>w. ps r = Some w \<and> w \<in> set us))) \<and>
     (\<forall>us rs ps. idHasAnyScope I us rs ps = (\<exists>r \<in> set rs. idHasScope I us r ps)) \<and>
     (\<forall>us rs ps. idHasAllScopes I us rs ps = (rs \<noteq> [] \<and> (\<forall>r \<in> set rs. idHasScope I us r ps))) \<and>
     (\<forall>cs rs ps. idRoleScopesPermittedBy I cs rs ps =
        (rs = [] \<or> idScopeAdmin I \<in> set cs \<or>
         (idScopeAdmin I \<notin> set rs \<and> (\<forall>r \<in> set rs. idHasScope I cs r ps)))) \<and>
     (\<forall>ss. (idValidateProvisionableScopes I ss = None) = (idScopeAdmin I \<notin> set ss)) \<and>
     distinct (AllScopes I)"

text \<open>An instance of the contract, for concrete runs.\<close>

definition docHasScope :: "string list \<Rightarrow> string \<Rightarrow> (string \<rightharpoonup> string) \<Rightarrow> bool" where
  "docHasScope us r ps =
     (''admin'' \<in> set us \<or> r \<in> set us \<or> (case ps r of None \<Rightarrow> False | Some w \<Rightarrow> w \<in> set us))"

definition docIdentity :: identity where
  "docIdentity =
     \<lparr>idScopeUsersRead = ''users:read'', idScopeUsersWrite = ''users:write'',
      idScopeOrganizationsRead = ''organizations:read'',
      idScopeOrganizationsWrite = ''organizations:write'',
      idScopeOrganizationsCreate = ''organizations:create'',
      idScopeAPIKeysManage = ''api_keys:manage'', idScopeAuditRead = ''audit:read'',
      idScopeAdmin = ''admin'',
      idHasScope = docHasScope,
      idHasAnyScope = (\<lambda>us rs ps. list_ex (\<lambda>r. docHasScope us r ps) rs),
      idHasAllScopes = (\<lambda>us rs ps. rs \<noteq> [] \<and> list_all (\<lambda>r. docHasScope us r ps) rs),
      idRoleScopesPermittedBy = (\<lambda>cs rs ps. rs = [] \<or> ''admin'' \<in> set cs \<or>
         (''admin'' \<notin> set rs \<and> list_all (\<lambda>r. docHasScope cs r ps) rs)),
      idValidateProvisionableScopes =
        (\<lambda>ss. if ''admin'' \<in> set ss then Some ''admin'' else None)\<rparr>"

section \<open>Lemmas\<close>

named_theorems scope_laws \<open>consequences of the identity contract\<close>

lemma docIdentity_contract: "identity_contract docIdentity"
  unfolding identity_contract_def
proof (intro conjI)
  show "distinct (AllScopes docIdentity)"
    by (simp add: AllScopes_def docIdentity_def)
qed (auto simp: docIdentity_def docHasScope_def list_ex_iff list_all_iff split: option.splits)

lemma contract_HasScope [scope_laws]:
  assumes "identity_contract I"
  shows "HasScope I us r \<longleftrightarrow>
    idScopeAdmin I \<in> set us \<or> r \<in> set us \<or> (\<exists>w. readWritePairs I r = Some w \<and> w \<in> set us)"
  using assms by (simp add: identity_contract_def HasScope_def)

lemma HasScope_admin [scope_laws]:
  assumes "identity_contract I" and "idScopeAdmin I \<in> set us"
  shows "HasScope I us r"
  using assms by (simp add: contract_HasScope)

lemma contract_distinct: "identity_contract I \<Longrightarrow> distinct (AllScopes I)"
  by (simp add: identity_contract_def)

text \<open>The scopes a read scope may be implied by: the keys of the map, as a list.\<close>

lemma readWritePairs_dom:
  "dom (readWritePairs I) \<subseteq>
   {ScopeModulesRead, ScopeProvidersRead, idScopeUsersRead I, ScopeMirrorsRead,
    idScopeOrganizationsRead I, ScopeSCMRead}"
  unfolding readWritePairs_def by (simp only: dom_fun_upd option.simps if_False dom_empty) blast

lemma distinct_not_nth: "distinct xs \<Longrightarrow> i < length xs \<Longrightarrow> j < length xs \<Longrightarrow> i \<noteq> j \<Longrightarrow> xs ! i \<noteq> xs ! j"
  by (simp add: nth_eq_iff_index_eq)

lemma AllScopes_read_scopes:
  "{ScopeModulesRead, ScopeProvidersRead, idScopeUsersRead I, ScopeMirrorsRead,
    idScopeOrganizationsRead I, ScopeSCMRead} = (\<lambda>i. AllScopes I ! i) ` {0, 2, 6, 4, 8, 11}"
  unfolding AllScopes_def by simp

lemma readWritePairs_None:
  assumes "identity_contract I" and "AllScopes I ! j = s" and "j < 18" and "j \<notin> {0, 2, 6, 4, 8, 11}"
  shows "readWritePairs I s = None"
proof (rule ccontr)
  assume "readWritePairs I s \<noteq> None"
  then have "s \<in> dom (readWritePairs I)" by (simp only: domIff not_False_eq_True)
  from subsetD [OF readWritePairs_dom this]
  have "s \<in> (\<lambda>i. AllScopes I ! i) ` {0, 2, 6, 4, 8, 11}"
    by (simp only: AllScopes_read_scopes)
  then obtain i where i: "i \<in> {0, 2, 6, 4, 8, 11}" "s = AllScopes I ! i"
    by (rule imageE)
  have len: "length (AllScopes I) = 18" by (simp add: AllScopes_def)
  from i(1) have "i < 18" by auto
  moreover from i(1) assms(4) have "i \<noteq> j" by blast
  ultimately show False
    using distinct_not_nth [OF contract_distinct [OF assms(1)], of i j] assms(3)
    unfolding len assms(2) i(2) [symmetric] by simp
qed

lemma readWritePairs_admin: "identity_contract I \<Longrightarrow> readWritePairs I (idScopeAdmin I) = None"
  by (rule readWritePairs_None [of I 17]) (simp_all add: AllScopes_def)

lemma readWritePairs_create:
  "identity_contract I \<Longrightarrow> readWritePairs I (idScopeOrganizationsCreate I) = None"
  by (rule readWritePairs_None [of I 10]) (simp_all add: AllScopes_def)

lemma HasScope_admin_iff [scope_laws]:
  assumes "identity_contract I"
  shows "HasScope I us (idScopeAdmin I) \<longleftrightarrow> idScopeAdmin I \<in> set us"
  using assms by (simp add: contract_HasScope readWritePairs_admin)

lemma HasScope_Nil [scope_laws]: "identity_contract I \<Longrightarrow> \<not> HasScope I [] r"
  by (simp add: contract_HasScope)

lemma HasScope_mono:
  "identity_contract I \<Longrightarrow> set us \<subseteq> set vs \<Longrightarrow> HasScope I us r \<Longrightarrow> HasScope I vs r"
  by (auto simp: contract_HasScope)

lemma fold_set_True: "fold (\<lambda>s m. m(s := True)) xs m x \<longleftrightarrow> x \<in> set xs \<or> m x"
  by (induction xs arbitrary: m) auto

lemma ValidScopes_iff: "ValidScopes I s \<longleftrightarrow> s \<in> set (AllScopes I)"
  by (simp add: ValidScopes_def fold_set_True)

lemma ValidateScopesLoop_ok: "ValidateScopesLoop valid ss = Inr () \<longleftrightarrow> (\<forall>s \<in> set ss. valid s)"
  by (induction ss) auto

lemma ValidateScopesLoop_err:
  "ValidateScopesLoop valid ss = Inl e \<Longrightarrow>
   \<exists>pre s post. ss = pre @ s # post \<and> (\<forall>x \<in> set pre. valid x) \<and> \<not> valid s \<and> e = ''invalid scope: '' @ s"
proof (induction ss)
  case (Cons a ss)
  show ?case
  proof (cases "valid a")
    case True
    with Cons obtain pre s post where
      "ss = pre @ s # post" "\<forall>x \<in> set pre. valid x" "\<not> valid s" "e = ''invalid scope: '' @ s"
      by auto
    with True show ?thesis by (intro exI[of _ "a # pre"] exI[of _ s] exI[of _ post]) auto
  next
    case False
    with Cons.prems show ?thesis by (intro exI[of _ "[]"] exI[of _ a] exI[of _ ss]) auto
  qed
qed simp

lemma foldl_snoc: "foldl (\<lambda>acc s. acc @ [s]) ys xs = ys @ xs"
  by (induction xs arbitrary: ys) auto

lemma GetAdminScopes_eq: "GetAdminScopes I = AllScopes I"
  by (simp add: GetAdminScopes_def foldl_snoc)

lemma HasAllScopes_iff:
  assumes "identity_contract I"
  shows "HasAllScopes I us rs \<longleftrightarrow> (\<forall>r \<in> set rs. HasScope I us r)"
  using assms by (auto simp: HasAllScopes_def identity_contract_def HasScope_def)

lemma HasAnyScope_iff:
  assumes "identity_contract I"
  shows "HasAnyScope I us rs \<longleftrightarrow> (\<exists>r \<in> set rs. HasScope I us r)"
  using assms by (auto simp: HasAnyScope_def identity_contract_def HasScope_def)

lemma RoleScopesPermittedBy_iff:
  assumes "identity_contract I"
  shows "RoleScopesPermittedBy I cs rs \<longleftrightarrow>
    rs = [] \<or> idScopeAdmin I \<in> set cs \<or>
    (idScopeAdmin I \<notin> set rs \<and> (\<forall>r \<in> set rs. HasScope I cs r))"
  using assms by (simp add: RoleScopesPermittedBy_def identity_contract_def HasScope_def)

lemma rc_simps [simp]:
  "rcAllowed (rcDeny st)  \<longleftrightarrow> False" "rcStatus (rcDeny st) = st" "rcAllowed rcAllow" "rcStatus rcAllow = 0"
  by (simp_all add: rcDeny_def rcAllow_def)

section \<open>Properties\<close>

text \<open>
  Claim C12. Role-assignment ceiling. A caller without the global admin scope is allowed to
  assign an existing, decodable, non-empty role exactly when the organization store
  returns the caller's scopes in the target organization (the path parameter) and those
  scopes either contain admin or cover every scope of the role while the role itself does
  not carry admin. The caller's global scopes play no part.
\<close>

theorem checkRoleAssignment_nonadmin:
  assumes "identity_contract I" and "rid \<noteq> ''''" and "up rid = Some u"
    and "rr u = Row (Some rs)" and "rs \<noteq> []"
    and "\<not> HasScope I (ctxStrings c ''scopes'') (idScopeAdmin I)"
  shows "rcAllowed (checkRoleAssignment I os up rr c (Some rid)) \<longleftrightarrow>
    (\<exists>cs. osGetUserScopesForOrg os (cGetString c ''user_id'') (reqParam (ginReq c) ''id'') = Inr cs \<and>
      (idScopeAdmin I \<in> set cs \<or>
       (idScopeAdmin I \<notin> set rs \<and> (\<forall>r \<in> set rs. HasScope I cs r))))"
  using assms
  by (auto simp: checkRoleAssignment_def RoleScopesPermittedBy_iff split: sum.splits)

definition exGin :: gin where
  "exGin =
     \<lparr>ginReq = \<lparr>reqMethod = ''POST'', reqHeader = (\<lambda>_. ''''), reqCookie = (\<lambda>_. None),
        reqParam = (\<lambda>_. ''org1''), reqFullPath = ''/'', reqClientIP = ''10.0.0.1'',
        reqRemoteAddr = ''10.0.0.1:1''\<rparr>,
      ginKeys = [''scopes'' \<mapsto> GStrs [''organizations:write''], ''user_id'' \<mapsto> GStr ''u1''],
      ginHeaders = []\<rparr>"

definition exOrgstore :: orgstore where
  "exOrgstore =
     \<lparr>osGetMember = (\<lambda>org u. if org = ''org1'' \<and> u = ''u1'' then Inr (Some (Some ''rt1'')) else Inr None),
      osGetMemberWithRole = (\<lambda>org u. if org = ''org1'' \<and> u = ''u1''
         then Inr (Some \<lparr>memberRoleTemplateID = Some ''rt1'', memberRoleTemplateName = Some ''writer'', memberRoleTemplateScopes = [''modules:write'']\<rparr>)
         else Inr None),
      osGetUserScopesForOrg = (\<lambda>u org. if org = ''org1'' \<and> u = ''u1'' then Inr [''modules:write''] else Inr []),
      osGetUserMemberships = (\<lambda>u. if u = ''u1'' then Inr [''org1''] else Inr [])\<rparr>"

theorem checkRoleAssignment_nonadmin_witness:
  "rcAllowed (checkRoleAssignment docIdentity exOrgstore Some (\<lambda>_. Row (Some [''modules:read'']))
     exGin (Some ''r1''))"
proof -
  have scopes: "ctxStrings exGin ''scopes'' = [''organizations:write'']"
    by (simp add: ctxStrings_def cGet_def exGin_def)
  have nonadmin: "\<not> HasScope docIdentity (ctxStrings exGin ''scopes'') (idScopeAdmin docIdentity)"
    unfolding scopes HasScope_admin_iff [OF docIdentity_contract] by (simp add: docIdentity_def)
  have org: "osGetUserScopesForOrg exOrgstore (cGetString exGin ''user_id'') (reqParam (ginReq exGin) ''id'')
      = Inr [''modules:write'']"
    by (simp add: exOrgstore_def exGin_def cGetString_def)
  have "HasScope docIdentity [''modules:write''] ''modules:read''"
    by (simp add: HasScope_def docIdentity_def docHasScope_def readWritePairs_def)
  moreover have "idScopeAdmin docIdentity \<notin> set [''modules:read'']" by (simp add: docIdentity_def)
  ultimately show ?thesis
    using checkRoleAssignment_nonadmin [OF docIdentity_contract, of "''r1''" Some "''r1''"
        "\<lambda>_. Row (Some [''modules:read''])" "[''modules:read'']" exGin exOrgstore] nonadmin org
    by auto
qed

text \<open>
  Creating organizations is never implied. Whatever other scopes a caller holds, the
  organizations-create scope is granted only by itself or by the admin wildcard, although
  the write scope on organizations does imply their read scope.
\<close>

theorem organizations_create_explicit:
  assumes "identity_contract I"
  shows "(HasScope I us (idScopeOrganizationsCreate I) \<longleftrightarrow>
      idScopeOrganizationsCreate I \<in> set us \<or> idScopeAdmin I \<in> set us) \<and>
    (idScopeOrganizationsWrite I \<in> set us \<longrightarrow> HasScope I us (idScopeOrganizationsRead I))"
proof -
  have "idScopeOrganizationsRead I \<noteq> ScopeSCMRead"
    using distinct_not_nth [OF contract_distinct [OF assms], of 8 11] by (simp add: AllScopes_def)
  then have "readWritePairs I (idScopeOrganizationsRead I) = Some (idScopeOrganizationsWrite I)"
    by (simp add: readWritePairs_def)
  with assms show ?thesis by (auto simp: contract_HasScope readWritePairs_create)
qed

theorem organizations_create_explicit_witness:
  "\<not> HasScope docIdentity [''organizations:write''] ''organizations:create'' \<and>
   HasScope docIdentity [''organizations:write''] ''organizations:read''"
  using organizations_create_explicit [OF docIdentity_contract, of "[''organizations:write'']"]
  by (simp add: docIdentity_def)

text \<open>
  Scope validation. \<^verbatim>\<open>ValidateScopes\<close> accepts exactly the lists drawn from the
  declared scopes, its error names the first scope outside them, and the default and
  administrator scope lists are valid.
\<close>

theorem ValidateScopes_correct:
  "(ValidateScopes I ss = Inr () \<longleftrightarrow> set ss \<subseteq> set (AllScopes I)) \<and>
   (\<forall>e. ValidateScopes I ss = Inl e \<longrightarrow>
      (\<exists>pre s post. ss = pre @ s # post \<and> set pre \<subseteq> set (AllScopes I) \<and>
        s \<notin> set (AllScopes I) \<and> e = ''invalid scope: '' @ s)) \<and>
   ValidateScopes I GetDefaultScopes = Inr () \<and>
   ValidateScopes I (GetAdminScopes I) = Inr ()"
proof (intro conjI allI impI)
  show ok: "ValidateScopes I ss = Inr () \<longleftrightarrow> set ss \<subseteq> set (AllScopes I)" for ss
    by (auto simp: ValidateScopes_def ValidateScopesLoop_ok ValidScopes_iff)
  show "ValidateScopes I (GetAdminScopes I) = Inr ()" "ValidateScopes I GetDefaultScopes = Inr ()"
    unfolding ok by (simp_all add: GetAdminScopes_eq GetDefaultScopes_def AllScopes_def)
  fix e assume "ValidateScopes I ss = Inl e"
  from ValidateScopesLoop_err [OF this [unfolded ValidateScopes_def]]
  show "\<exists>pre s post. ss = pre @ s # post \<and> set pre \<subseteq> set (AllScopes I) \<and>
        s \<notin> set (AllScopes I) \<and> e = ''invalid scope: '' @ s"
    unfolding ValidScopes_iff by blast
qed

theorem ValidateScopes_correct_witness:
  "\<exists>pre s post. [''modules:read'', ''root''] = pre @ s # post \<and> set pre \<subseteq> set (AllScopes docIdentity) \<and>
     s \<notin> set (AllScopes docIdentity) \<and> ''invalid scope: root'' = ''invalid scope: '' @ s"
proof -
  have "ValidateScopes docIdentity [''modules:read'', ''root''] = Inl ''invalid scope: root''"
    by (simp add: ValidateScopes_def ValidScopes_iff AllScopes_def docIdentity_def)
  then show ?thesis using ValidateScopes_correct by blast
qed

text \<open>
  Roles granted through an identity provider. The guard passes a role exactly when no
  template of that name exists or its scopes decode and do not contain admin; a database
  error or an undecodable column is an error (it fails closed).
\<close>

theorem guardProvisionableRole_correct:
  assumes "identity_contract I"
  shows "guardProvisionableRole I rows nm = Inr () \<longleftrightarrow>
    rows nm = NoRow \<or> (\<exists>ss. rows nm = Row (Some ss) \<and> idScopeAdmin I \<notin> set ss)"
proof -
  have law: "idValidateProvisionableScopes I ss = None \<longleftrightarrow> idScopeAdmin I \<notin> set ss" for ss
    using assms unfolding identity_contract_def by blast
  show ?thesis
    by (auto simp: guardProvisionableRole_def ValidateProvisionableScopes_def law [symmetric]
        split: rowres.splits option.splits)
qed

theorem guardProvisionableRole_correct_witness:
  "guardProvisionableRole docIdentity (\<lambda>_. Row (Some [''admin''])) ''ops'' \<noteq> Inr () \<and>
   guardProvisionableRole docIdentity (\<lambda>_. Row (Some [''modules:read''])) ''dev'' = Inr ()"
  using guardProvisionableRole_correct [OF docIdentity_contract, of "\<lambda>_. Row (Some [''admin''])"]
    guardProvisionableRole_correct [OF docIdentity_contract, of "\<lambda>_. Row (Some [''modules:read''])"]
  by (auto simp: docIdentity_def)

end
