(* ===== verification/RBAC.thy ===== *)
theory RBAC
  imports Scopes
begin

text \<open>
  The scope-checking middleware (\<^verbatim>\<open>internal/middleware/rbac.go\<close>). Each handler is a
  function from the request context to an outcome: \<open>Next\<close> with the context handed on, or
  \<open>Abort\<close> with the status and JSON body. The organization store is the identity module's,
  a parameter.
\<close>

section \<open>rbac.go\<close>

definition RequireScope :: "identity \<Rightarrow> string \<Rightarrow> gin \<Rightarrow> outcome" where
  "RequireScope I scope c =
     (case cGet c ''scopes'' of
        None \<Rightarrow> abortErr StatusForbidden ''Insufficient permissions'' c
      | Some (GStrs userScopes) \<Rightarrow>
          if \<not> HasScope I userScopes scope
          then Abort StatusForbidden
                 [(''error'', JStr ''Missing required scope''),
                  (''details'', JStr (''Required scope: '' @ scope))] c
          else Next c
      | Some _ \<Rightarrow> abortErr StatusForbidden ''Invalid scopes format'' c)"

definition RequireAnyScope :: "identity \<Rightarrow> string list \<Rightarrow> gin \<Rightarrow> outcome" where
  "RequireAnyScope I scopes c =
     (case cGet c ''scopes'' of
        None \<Rightarrow> abortErr StatusForbidden ''Insufficient permissions'' c
      | Some (GStrs userScopes) \<Rightarrow>
          if \<not> HasAnyScope I userScopes scopes
          then abortErr StatusForbidden ''Missing required scope'' c
          else Next c
      | Some _ \<Rightarrow> abortErr StatusForbidden ''Invalid scopes format'' c)"

definition RequireAllScopes :: "identity \<Rightarrow> string list \<Rightarrow> gin \<Rightarrow> outcome" where
  "RequireAllScopes I scopes c =
     (case cGet c ''scopes'' of
        None \<Rightarrow> abortErr StatusForbidden ''Insufficient permissions'' c
      | Some (GStrs userScopes) \<Rightarrow>
          if \<not> HasAllScopes I userScopes scopes
          then abortErr StatusForbidden ''Missing one or more required scopes'' c
          else Next c
      | Some _ \<Rightarrow> abortErr StatusForbidden ''Invalid scopes format'' c)"

definition RequireOrgScopeForPathOrg :: "identity \<Rightarrow> orgstore \<Rightarrow> string \<Rightarrow> gin \<Rightarrow> outcome" where
  "RequireOrgScopeForPathOrg I os scope c =
     (case cGet c ''scopes'' of
        None \<Rightarrow> abortErr StatusForbidden ''Insufficient permissions'' c
      | Some (GStrs callerScopes) \<Rightarrow>
          if HasScope I callerScopes (idScopeAdmin I) then Next c
          else (case cGet c ''user_id'' of
                  None \<Rightarrow> abortErr StatusForbidden ''User not authenticated'' c
                | Some (GStr userID) \<Rightarrow>
                    if userID = '''' then abortErr StatusForbidden ''Invalid user ID format'' c
                    else
                      let orgID = reqParam (ginReq c) ''id'' in
                      if orgID = '''' then abortErr StatusBadRequest ''Organization ID is required'' c
                      else (case osGetUserScopesForOrg os userID orgID of
                              Inl e \<Rightarrow> abortErr StatusInternalServerError
                                        ''Failed to verify organization membership'' c
                            | Inr orgScopes \<Rightarrow>
                                if \<not> HasScope I orgScopes scope
                                then Abort StatusForbidden
                                       [(''error'', JStr ''Missing required scope for this organization''),
                                        (''details'', JStr (''Required scope: '' @ scope))] c
                                else Next c)
                | Some _ \<Rightarrow> abortErr StatusForbidden ''Invalid user ID format'' c)
      | Some _ \<Rightarrow> abortErr StatusForbidden ''Invalid scopes format'' c)"

definition RequireOrgMembership :: "orgstore \<Rightarrow> gin \<Rightarrow> outcome" where
  "RequireOrgMembership os c =
     (case cGet c ''user_id'' of
        None \<Rightarrow> abortErr StatusForbidden ''User not authenticated'' c
      | Some (GStr userID) \<Rightarrow>
          (case cGet c ''organization_id'' of
             None \<Rightarrow> abortErr StatusForbidden ''Organization context not found'' c
           | Some (GStr orgID) \<Rightarrow>
               (case osGetMember os orgID userID of
                  Inl e \<Rightarrow> abortErr StatusInternalServerError ''Failed to check organization membership'' c
                | Inr None \<Rightarrow> abortErr StatusForbidden ''Not a member of organization'' c
                | Inr (Some roleTemplateID) \<Rightarrow>
                    Next (cSet c ''org_role_template_id'' (GOptStr roleTemplateID)))
           | Some _ \<Rightarrow> abortErr StatusForbidden ''Invalid organization ID format'' c)
      | Some _ \<Rightarrow> abortErr StatusForbidden ''Invalid user ID format'' c)"

definition RequireOrgScope :: "identity \<Rightarrow> orgstore \<Rightarrow> string \<Rightarrow> gin \<Rightarrow> outcome" where
  "RequireOrgScope I os scope c =
     (case cGet c ''user_id'' of
        None \<Rightarrow> abortErr StatusForbidden ''User not authenticated'' c
      | Some (GStr userID) \<Rightarrow>
          (case cGet c ''organization_id'' of
             None \<Rightarrow> abortErr StatusForbidden ''Organization context not found'' c
           | Some (GStr orgID) \<Rightarrow>
               (case osGetMemberWithRole os orgID userID of
                  Inl e \<Rightarrow> abortErr StatusInternalServerError ''Failed to check organization membership'' c
                | Inr None \<Rightarrow> abortErr StatusForbidden ''Not a member of organization'' c
                | Inr (Some m) \<Rightarrow>
                    if \<not> HasScope I (memberRoleTemplateScopes m) scope
                    then Abort StatusForbidden
                           [(''error'', JStr ''Missing required scope for organization''),
                            (''details'', JStr (''Required scope: '' @ scope))] c
                    else Next (cSet (cSet c ''org_role_template_id'' (GOptStr (memberRoleTemplateID m)))
                                 ''org_role_template_scopes'' (GStrs (memberRoleTemplateScopes m))))
           | Some _ \<Rightarrow> abortErr StatusForbidden ''Invalid organization ID format'' c)
      | Some _ \<Rightarrow> abortErr StatusForbidden ''Invalid user ID format'' c)"

section \<open>Lemmas\<close>

lemmas rbac_splits = option.splits gval.splits sum.splits if_splits

lemma RequireScope_passes:
  "passes (RequireScope I scope c) \<longleftrightarrow> (\<exists>us. cGet c ''scopes'' = Some (GStrs us) \<and> HasScope I us scope)"
  by (auto simp: RequireScope_def split: rbac_splits)

lemma RequireAllScopes_passes:
  "passes (RequireAllScopes I scopes c) \<longleftrightarrow>
   (\<exists>us. cGet c ''scopes'' = Some (GStrs us) \<and> HasAllScopes I us scopes)"
  by (auto simp: RequireAllScopes_def split: rbac_splits)

lemma RequireAnyScope_passes:
  "passes (RequireAnyScope I scopes c) \<longleftrightarrow>
   (\<exists>us. cGet c ''scopes'' = Some (GStrs us) \<and> HasAnyScope I us scopes)"
  by (auto simp: RequireAnyScope_def split: rbac_splits)

lemma RequireScope_Next: "RequireScope I scope c = Next c' \<Longrightarrow> c' = c"
  by (auto simp: RequireScope_def split: rbac_splits)

lemma RequireOrgScopeForPathOrg_Next: "RequireOrgScopeForPathOrg I os scope c = Next c' \<Longrightarrow> c' = c"
  by (auto simp: RequireOrgScopeForPathOrg_def Let_def split: rbac_splits)

section \<open>Properties\<close>

text \<open>
  Claim C4. No cross-organization use of a scope. For a caller without the global admin scope,
  the path-organization check lets the request on exactly when the caller is an identified
  user, the path names an organization, and the caller's scopes in that very organization
  grant the required scope; the caller's combined global scopes are irrelevant beyond being
  present.
\<close>

theorem RequireOrgScopeForPathOrg_isolated:
  assumes "cGet c ''scopes'' = Some (GStrs gs)" and "\<not> HasScope I gs (idScopeAdmin I)"
  shows "passes (RequireOrgScopeForPathOrg I os scope c) \<longleftrightarrow>
    (\<exists>u orgScopes. cGet c ''user_id'' = Some (GStr u) \<and> u \<noteq> '''' \<and> reqParam (ginReq c) ''id'' \<noteq> '''' \<and>
       osGetUserScopesForOrg os u (reqParam (ginReq c) ''id'') = Inr orgScopes \<and>
       HasScope I orgScopes scope)"
  using assms by (auto simp: RequireOrgScopeForPathOrg_def Let_def split: rbac_splits)

theorem RequireOrgScopeForPathOrg_isolated_witness:
  "\<not> passes (RequireOrgScopeForPathOrg docIdentity exOrgstore ''organizations:write'' exGin) \<and>
   passes (RequireScope docIdentity ''organizations:write'' exGin)"
proof -
  have g: "cGet exGin ''scopes'' = Some (GStrs [''organizations:write''])"
    by (simp add: cGet_def exGin_def)
  have n: "\<not> HasScope docIdentity [''organizations:write''] (idScopeAdmin docIdentity)"
    unfolding HasScope_admin_iff [OF docIdentity_contract] by (simp add: docIdentity_def)
  have s: "osGetUserScopesForOrg exOrgstore ''u1'' (reqParam (ginReq exGin) ''id'') = Inr [''modules:write'']"
    by (simp add: exOrgstore_def exGin_def)
  have u: "cGet exGin ''user_id'' = Some (GStr ''u1'')" by (simp add: cGet_def exGin_def)
  have h: "\<not> HasScope docIdentity [''modules:write''] ''organizations:write''"
    by (simp add: HasScope_def docIdentity_def docHasScope_def readWritePairs_def)
  have "HasScope docIdentity [''organizations:write''] ''organizations:write''"
    by (simp add: HasScope_def docIdentity_def docHasScope_def)
  then have "passes (RequireScope docIdentity ''organizations:write'' exGin)"
    using g by (auto simp: RequireScope_passes)
  moreover have "\<not> passes (RequireOrgScopeForPathOrg docIdentity exOrgstore ''organizations:write'' exGin)"
    using RequireOrgScopeForPathOrg_isolated [OF g n, of exOrgstore "''organizations:write''"] s u h
    by simp
  ultimately show ?thesis by simp
qed

text \<open>
  Organization scope check. \<^verbatim>\<open>RequireOrgScope\<close> passes exactly when the context names a
  user and an organization, the store returns a membership there, and the membership's role
  template grants the scope; it then records that template and its scopes in the context
  and changes nothing else. Store errors answer 500, every other refusal 403.
\<close>

theorem RequireOrgScope_correct:
  "(RequireOrgScope I os scope c = Next c' \<longleftrightarrow>
     (\<exists>u org m. cGet c ''user_id'' = Some (GStr u) \<and> cGet c ''organization_id'' = Some (GStr org) \<and>
        osGetMemberWithRole os org u = Inr (Some m) \<and> HasScope I (memberRoleTemplateScopes m) scope \<and>
        c' = cSet (cSet c ''org_role_template_id'' (GOptStr (memberRoleTemplateID m)))
               ''org_role_template_scopes'' (GStrs (memberRoleTemplateScopes m)))) \<and>
   (\<forall>st b c''. RequireOrgScope I os scope c = Abort st b c'' \<longrightarrow>
      c'' = c \<and> (st = StatusForbidden \<or> st = StatusInternalServerError) \<and>
      (st = StatusInternalServerError \<longleftrightarrow>
        (\<exists>u org e. cGet c ''user_id'' = Some (GStr u) \<and> cGet c ''organization_id'' = Some (GStr org) \<and>
           osGetMemberWithRole os org u = Inl e)))"
  unfolding RequireOrgScope_def abortErr_def by (auto split: rbac_splits)

theorem RequireOrgScope_correct_witness:
  "\<forall>st b c''. RequireOrgScope docIdentity exOrgstore ''modules:write'' exGin = Abort st b c'' \<longrightarrow>
     c'' = exGin \<and> st \<noteq> StatusInternalServerError"
  using RequireOrgScope_correct [of docIdentity exOrgstore "''modules:write''" exGin]
  by (auto simp: cGet_def exGin_def)

text \<open>
  Required scopes compose. The conjunctive check passes exactly when the single-scope
  check passes for every scope asked for (an empty list asks nothing of a context that
  carries scopes), the disjunctive one when some single check passes.
\<close>

theorem RequireAll_Any_decompose:
  assumes "identity_contract I" and "cGet c ''scopes'' = Some (GStrs us)"
  shows "(passes (RequireAllScopes I ss c) \<longleftrightarrow> (\<forall>s \<in> set ss. passes (RequireScope I s c))) \<and>
    (passes (RequireAnyScope I ss c) \<longleftrightarrow> (\<exists>s \<in> set ss. passes (RequireScope I s c)))"
  using assms
  by (simp add: RequireAllScopes_passes RequireAnyScope_passes RequireScope_passes
      HasAllScopes_iff HasAnyScope_iff)

theorem RequireAll_Any_decompose_witness:
  "passes (RequireAllScopes docIdentity [] exGin) \<and> \<not> passes (RequireAnyScope docIdentity [] exGin)"
proof -
  have "cGet exGin ''scopes'' = Some (GStrs [''organizations:write''])"
    by (simp add: cGet_def exGin_def)
  from RequireAll_Any_decompose [OF docIdentity_contract this, of "[]"] show ?thesis by simp
qed

end
