(* ===== verification/Claims.thy ===== *)
theory Claims
  imports Prelude
begin

text \<open>
  The namespace-ownership repository
  (\<^verbatim>\<open>internal/db/repositories/namespace_claim_repository.go\<close>), the artifact lookups it
  falls back to, and the rename cascade of
  \<^verbatim>\<open>internal/db/repositories/organization_repository.go\<close>.

  The registry database is a record of tables. Its calls may fail and other requests run
  between them: \<open>dbSched\<close> lists, for the coming calls, whether the call fails and which
  claims other requests insert or remove first (an exhausted schedule means no failure and
  no interference). The table constraints come from migration 000045: \<open>namespace\<close> is the
  primary key of \<open>namespace_claims\<close>, \<open>organization_id\<close> and \<open>claimed_by\<close> are foreign keys.
\<close>

section \<open>Tables\<close>

record claim =
  clNamespace :: string
  clOrganizationID :: string
  clClaimedBy :: "string option"
  clCreatedAt :: int

record artifact =
  artID :: string
  artOrganizationID :: "string option"
  artNamespace :: string
  artName :: string

datatype other_op = OtherClaim string string "string option" | OtherRelease string

record dbstep =
  stepFails :: bool
  stepOthers :: "other_op list"

record regdb =
  dbClaims :: "claim list"
  dbModules :: "artifact list"
  dbProviders :: "artifact list"
  dbOrgs :: "string list"
  dbUsers :: "string list"
  dbNow :: int
  dbSched :: "dbstep list"

text \<open>\<^verbatim>\<open>INSERT \<dots> ON CONFLICT (namespace) DO NOTHING\<close>: a conflict inserts nothing and is no
  error; otherwise the foreign keys are checked (\<open>None\<close> is the violation).\<close>

definition insertClaim :: "regdb \<Rightarrow> string \<Rightarrow> string \<Rightarrow> string option \<Rightarrow> regdb option" where
  "insertClaim db ns org by =
     (if list_ex (\<lambda>c. clNamespace c = ns) (dbClaims db) then Some db
      else if org \<in> set (dbOrgs db) \<and> (case by of None \<Rightarrow> True | Some u \<Rightarrow> u \<in> set (dbUsers db))
      then Some (db\<lparr>dbClaims := dbClaims db @
             [\<lparr>clNamespace = ns, clOrganizationID = org, clClaimedBy = by, clCreatedAt = dbNow db\<rparr>]\<rparr>)
      else None)"

fun applyOther :: "regdb \<Rightarrow> other_op \<Rightarrow> regdb" where
  "applyOther db (OtherClaim ns org by) =
     (case insertClaim db ns org by of None \<Rightarrow> db | Some db' \<Rightarrow> db')"
| "applyOther db (OtherRelease ns) =
     db\<lparr>dbClaims := filter (\<lambda>c. clNamespace c \<noteq> ns) (dbClaims db)\<rparr>"

text \<open>Reaching the database: the next step of the schedule happens, and says whether the call fails.\<close>

definition dbEnter :: "regdb \<Rightarrow> bool \<times> regdb" where
  "dbEnter db =
     (case dbSched db of
        [] \<Rightarrow> (False, db)
      | st # rest \<Rightarrow> (stepFails st, foldl applyOther (db\<lparr>dbSched := rest\<rparr>) (stepOthers st)))"

section \<open>namespace\_claim\_repository.go\<close>

definition lookupClaim :: "regdb \<Rightarrow> string \<Rightarrow> claim option" where
  "lookupClaim db ns = find (\<lambda>c. clNamespace c = ns) (dbClaims db)"

definition GetClaim :: "regdb \<Rightarrow> string \<Rightarrow> (string + claim option) \<times> regdb" where
  "GetClaim db ns =
     (let (fails, db') = dbEnter db in
      if fails then (Inl ''failed to get namespace claim'', db')
      else (Inr (lookupClaim db' ns), db'))"

definition ClaimNamespace ::
  "regdb \<Rightarrow> string \<Rightarrow> string \<Rightarrow> string option \<Rightarrow> (string + claim) \<times> regdb" where
  "ClaimNamespace db ns org by =
     (let (fails, db1) = dbEnter db in
      if fails then (Inl ''failed to claim namespace'', db1)
      else (case insertClaim db1 ns org by of
              None \<Rightarrow> (Inl ''failed to claim namespace'', db1)
            | Some db2 \<Rightarrow>
                (case GetClaim db2 ns of
                   (Inl e, db3) \<Rightarrow> (Inl e, db3)
                 | (Inr None, db3) \<Rightarrow> (Inl ''failed to claim namespace: claim not found after insert'', db3)
                 | (Inr (Some c), db3) \<Rightarrow> (Inr c, db3))))"

definition artifactOrgs :: "regdb \<Rightarrow> string \<Rightarrow> string list" where
  "artifactOrgs db ns =
     remdups (List.map_filter artOrganizationID
       (filter (\<lambda>a. artNamespace a = ns) (dbModules db @ dbProviders db)))"

definition ArtifactOrganizations :: "regdb \<Rightarrow> string \<Rightarrow> (string + string list) \<times> regdb" where
  "ArtifactOrganizations db ns =
     (let (fails, db') = dbEnter db in
      if fails then (Inl ''failed to list namespace artifact organizations'', db')
      else (Inr (artifactOrgs db' ns), db'))"

definition CountByOrganization :: "regdb \<Rightarrow> string \<Rightarrow> (string + nat) \<times> regdb" where
  "CountByOrganization db org =
     (let (fails, db') = dbEnter db in
      if fails then (Inl ''failed to count namespace claims for organization'', db')
      else (Inr (length (filter (\<lambda>c. clOrganizationID c = org) (dbClaims db'))), db'))"

definition OwnsArtifacts :: "regdb \<Rightarrow> string \<Rightarrow> (string + bool) \<times> regdb" where
  "OwnsArtifacts db org =
     (let (fails, db') = dbEnter db in
      if fails then (Inl ''failed to check organization artifact ownership'', db')
      else (Inr (list_ex (\<lambda>a. artOrganizationID a = Some org) (dbModules db' @ dbProviders db')), db'))"

section \<open>Artifact lookups\<close>

text \<open>
  A module row whose \<open>organization_id\<close> is NULL cannot be scanned into the model's plain
  string field, so the lookup ends in an error; the provider lookup scans it into a nullable
  and leaves the empty string.
\<close>

definition GetModuleByID :: "regdb \<Rightarrow> string \<Rightarrow> (string + (artifact \<times> string) option) \<times> regdb" where
  "GetModuleByID db i =
     (let (fails, db') = dbEnter db in
      if fails then (Inl ''failed to get module by ID'', db')
      else (case find (\<lambda>a. artID a = i) (dbModules db') of
              None \<Rightarrow> (Inr None, db')
            | Some a \<Rightarrow> (case artOrganizationID a of
                 None \<Rightarrow> (Inl ''failed to get module by ID'', db')
               | Some org \<Rightarrow> (Inr (Some (a, org)), db'))))"

definition GetProviderByID :: "regdb \<Rightarrow> string \<Rightarrow> (string + (artifact \<times> string) option) \<times> regdb" where
  "GetProviderByID db i =
     (let (fails, db') = dbEnter db in
      if fails then (Inl ''failed to get provider by ID'', db')
      else (case find (\<lambda>a. artID a = i) (dbProviders db') of
              None \<Rightarrow> (Inr None, db')
            | Some a \<Rightarrow> (Inr (Some (a, case artOrganizationID a of None \<Rightarrow> '''' | Some org \<Rightarrow> org)), db')))"

section \<open>CascadeOrganizationRename\<close>

definition renameArtifacts :: "string \<Rightarrow> string \<Rightarrow> string \<Rightarrow> artifact list \<Rightarrow> artifact list" where
  "renameArtifacts org old new =
     map (\<lambda>a. if artOrganizationID a = Some org \<and> artNamespace a = old then a\<lparr>artNamespace := new\<rparr> else a)"

definition renameClaims :: "string \<Rightarrow> string \<Rightarrow> string \<Rightarrow> claim list \<Rightarrow> claim list" where
  "renameClaims org old new =
     map (\<lambda>c. if clOrganizationID c = org \<and> clNamespace c = old then c\<lparr>clNamespace := new\<rparr> else c)"

text \<open>The unique keys: \<open>(organization_id, namespace, name)\<close> on artifacts with an organization
  (NULLs never clash), \<open>namespace\<close> on claims.\<close>

definition artKeys :: "artifact list \<Rightarrow> (string \<times> string \<times> string) list" where
  "artKeys as = List.map_filter
     (\<lambda>a. map_option (\<lambda>org. (org, artNamespace a, artName a)) (artOrganizationID a)) as"

definition CascadeOrganizationRename :: "regdb \<Rightarrow> string \<Rightarrow> string \<Rightarrow> string \<Rightarrow> (string + unit) \<times> regdb" where
  "CascadeOrganizationRename db org old new =
     (let (fails, db') = dbEnter db;
          ms = renameArtifacts org old new (dbModules db');
          ps = renameArtifacts org old new (dbProviders db');
          cs = renameClaims org old new (dbClaims db') in
      if fails then (Inl ''begin namespace cascade'', db')
      else if \<not> distinct (artKeys ms) then (Inl ''cascade rename to modules'', db')
      else if \<not> distinct (artKeys ps) then (Inl ''cascade rename to providers'', db')
      else if \<not> distinct (map clNamespace cs) then (Inl ''cascade rename to namespace claims'', db')
      else (Inr (), db'\<lparr>dbModules := ms, dbProviders := ps, dbClaims := cs\<rparr>))"

section \<open>The table invariant\<close>

definition claimsOk :: "regdb \<Rightarrow> bool" where
  "claimsOk db \<longleftrightarrow> distinct (map clNamespace (dbClaims db)) \<and>
     (\<forall>c \<in> set (dbClaims db). clOrganizationID c \<in> set (dbOrgs db))"

text \<open>A schedule in which no other request removes a claim.\<close>

definition noRelease :: "regdb \<Rightarrow> bool" where
  "noRelease db \<longleftrightarrow> (\<forall>st \<in> set (dbSched db). \<forall>ns. OtherRelease ns \<notin> set (stepOthers st))"

definition claimOwner :: "regdb \<Rightarrow> string \<Rightarrow> string option" where
  "claimOwner db ns = map_option clOrganizationID (lookupClaim db ns)"

lemma lookupClaim_ex: "lookupClaim db ns \<noteq> None \<longleftrightarrow> list_ex (\<lambda>c. clNamespace c = ns) (dbClaims db)"
  by (auto simp: lookupClaim_def list_ex_iff find_None_iff)

lemma find_append: "find P (xs @ ys) = (case find P xs of None \<Rightarrow> find P ys | Some x \<Rightarrow> Some x)"
  by (induction xs) auto

lemma insertClaim_cases:
  assumes "insertClaim db ns org by = Some db'"
  obtains (conflict) c where "lookupClaim db ns = Some c" "db' = db"
  | (fresh) "lookupClaim db ns = None" "org \<in> set (dbOrgs db)"
      "db' = db\<lparr>dbClaims := dbClaims db @
         [\<lparr>clNamespace = ns, clOrganizationID = org, clClaimedBy = by, clCreatedAt = dbNow db\<rparr>]\<rparr>"
proof (cases "lookupClaim db ns")
  case None
  then have "\<not> list_ex (\<lambda>c. clNamespace c = ns) (dbClaims db)" using lookupClaim_ex by blast
  with assms None show ?thesis
    by (intro fresh) (auto simp: insertClaim_def split: if_splits option.splits)
next
  case (Some c)
  then have "list_ex (\<lambda>c. clNamespace c = ns) (dbClaims db)" using lookupClaim_ex by blast
  with assms Some show ?thesis by (intro conflict) (auto simp: insertClaim_def)
qed

lemma lookupClaim_snoc:
  "lookupClaim (db\<lparr>dbClaims := dbClaims db @ [c]\<rparr>) ns =
     (case lookupClaim db ns of Some d \<Rightarrow> Some d | None \<Rightarrow> if clNamespace c = ns then Some c else None)"
  by (auto simp: lookupClaim_def find_append split: option.splits)

lemma insertClaim_keeps:
  "insertClaim db ns org by = Some db' \<Longrightarrow> lookupClaim db n = Some c \<Longrightarrow> lookupClaim db' n = Some c"
  by (erule insertClaim_cases) (auto simp: lookupClaim_snoc)

lemma insertClaim_owner:
  "insertClaim db ns org by = Some db' \<Longrightarrow>
   claimOwner db' ns = Some (case claimOwner db ns of None \<Rightarrow> org | Some o1 \<Rightarrow> o1)"
  by (erule insertClaim_cases) (auto simp: claimOwner_def lookupClaim_snoc)

lemma insertClaim_frame:
  "insertClaim db ns org by = Some db' \<Longrightarrow>
   dbModules db' = dbModules db \<and> dbProviders db' = dbProviders db \<and> dbOrgs db' = dbOrgs db \<and>
   dbSched db' = dbSched db"
  by (erule insertClaim_cases) auto

lemma insertClaim_ok: "insertClaim db ns org by = Some db' \<Longrightarrow> claimsOk db \<Longrightarrow> claimsOk db'"
proof (erule insertClaim_cases)
  assume none: "lookupClaim db ns = None" and ok: "claimsOk db"
  from none have "ns \<notin> clNamespace ` set (dbClaims db)"
    by (auto simp: lookupClaim_def find_None_iff)
  with ok show "org \<in> set (dbOrgs db) \<Longrightarrow> db' = db\<lparr>dbClaims := dbClaims db @
      [\<lparr>clNamespace = ns, clOrganizationID = org, clClaimedBy = by, clCreatedAt = dbNow db\<rparr>]\<rparr> \<Longrightarrow>
      claimsOk db'"
    by (auto simp: claimsOk_def)
qed simp

lemma applyOther_frame:
  "dbModules (applyOther db x) = dbModules db \<and> dbProviders (applyOther db x) = dbProviders db \<and>
   dbOrgs (applyOther db x) = dbOrgs db \<and> dbSched (applyOther db x) = dbSched db"
  by (cases x) (auto split: option.splits dest: insertClaim_frame)

lemma claimsOk_filter: "claimsOk db \<Longrightarrow> claimsOk (db\<lparr>dbClaims := filter P (dbClaims db)\<rparr>)"
  by (auto simp: claimsOk_def intro: distinct_map_filter)

lemma applyOther_ok: "claimsOk db \<Longrightarrow> claimsOk (applyOther db x)"
  by (cases x) (auto simp: claimsOk_filter split: option.splits dest: insertClaim_ok)

lemma applyOther_keeps:
  "\<forall>ns. x \<noteq> OtherRelease ns \<Longrightarrow> lookupClaim db n = Some c \<Longrightarrow> lookupClaim (applyOther db x) n = Some c"
  by (cases x) (auto split: option.splits dest: insertClaim_keeps)

lemma foldl_applyOther_frame:
  "dbModules (foldl applyOther db xs) = dbModules db \<and> dbProviders (foldl applyOther db xs) = dbProviders db \<and>
   dbOrgs (foldl applyOther db xs) = dbOrgs db \<and> dbSched (foldl applyOther db xs) = dbSched db"
  by (induction xs arbitrary: db) (auto simp: applyOther_frame)

lemma foldl_applyOther_ok: "claimsOk db \<Longrightarrow> claimsOk (foldl applyOther db xs)"
  by (induction xs arbitrary: db) (auto simp: applyOther_ok)

lemma foldl_applyOther_keeps:
  "\<forall>ns. OtherRelease ns \<notin> set xs \<Longrightarrow> lookupClaim db n = Some c \<Longrightarrow>
   lookupClaim (foldl applyOther db xs) n = Some c"
proof (induction xs arbitrary: db)
  case (Cons x xs)
  then show ?case by (auto intro!: Cons.IH applyOther_keeps)
qed simp

lemma dbEnter_frame:
  assumes "dbEnter db = (f, db')"
  shows "dbModules db' = dbModules db \<and> dbProviders db' = dbProviders db \<and> dbOrgs db' = dbOrgs db"
  using assms by (auto simp: dbEnter_def foldl_applyOther_frame split: list.splits)

lemma claimsOk_sched [simp]: "claimsOk (db\<lparr>dbSched := s\<rparr>) = claimsOk db"
  by (simp add: claimsOk_def)

lemma lookupClaim_sched [simp]: "lookupClaim (db\<lparr>dbSched := s\<rparr>) ns = lookupClaim db ns"
  by (simp add: lookupClaim_def)

lemma dbEnter_ok: "dbEnter db = (f, db') \<Longrightarrow> claimsOk db \<Longrightarrow> claimsOk db'"
  by (auto simp: dbEnter_def foldl_applyOther_ok split: list.splits)

lemma dbEnter_noRelease: "dbEnter db = (f, db') \<Longrightarrow> noRelease db \<Longrightarrow> noRelease db'"
  by (auto simp: dbEnter_def noRelease_def foldl_applyOther_frame split: list.splits)

lemma dbEnter_keeps:
  "dbEnter db = (f, db') \<Longrightarrow> noRelease db \<Longrightarrow> lookupClaim db n = Some c \<Longrightarrow> lookupClaim db' n = Some c"
  by (auto simp: dbEnter_def noRelease_def split: list.splits intro: foldl_applyOther_keeps)

lemma dbEnter_quiet [simp]: "dbSched db = [] \<Longrightarrow> dbEnter db = (False, db)"
  by (simp add: dbEnter_def)

lemma GetClaim_Inr: "GetClaim db ns = (Inr r, db') \<Longrightarrow> dbEnter db = (False, db') \<and> r = lookupClaim db' ns"
  by (auto simp: GetClaim_def split: prod.splits if_splits)

lemma GetClaim_snd: "GetClaim db ns = (r, db') \<Longrightarrow> \<exists>f. dbEnter db = (f, db')"
  by (auto simp: GetClaim_def split: prod.splits if_splits)

lemma ArtifactOrganizations_Inr:
  "ArtifactOrganizations db ns = (Inr r, db') \<Longrightarrow> dbEnter db = (False, db') \<and> r = artifactOrgs db' ns"
  by (auto simp: ArtifactOrganizations_def split: prod.splits if_splits)

lemma ArtifactOrganizations_snd: "ArtifactOrganizations db ns = (r, db') \<Longrightarrow> \<exists>f. dbEnter db = (f, db')"
  by (auto simp: ArtifactOrganizations_def split: prod.splits if_splits)

text \<open>The three databases a claim passes through.\<close>

lemma ClaimNamespace_trace:
  assumes "ClaimNamespace db ns org by = (r, db')"
  obtains (fail) f where "dbEnter db = (f, db')" "\<exists>e. r = Inl e"
  | (committed) db1 db2 f where "dbEnter db = (False, db1)" "insertClaim db1 ns org by = Some db2"
      "dbEnter db2 = (f, db')" "\<forall>c. r = Inr c \<longrightarrow> lookupClaim db' ns = Some c"
proof -
  obtain f1 db1 where e1: "dbEnter db = (f1, db1)" by (cases "dbEnter db")
  show ?thesis
  proof (cases "f1 \<or> insertClaim db1 ns org by = None")
    case True
    with assms e1 have "db' = db1 \<and> (\<exists>e. r = Inl e)"
      by (auto simp: ClaimNamespace_def split: if_splits)
    then show ?thesis using e1 by (intro fail) auto
  next
    case False
    then obtain db2 where i: "insertClaim db1 ns org by = Some db2" and nf: "\<not> f1" by auto
    obtain g db3 where g: "GetClaim db2 ns = (g, db3)" by (cases "GetClaim db2 ns")
    from assms e1 i g nf have d: "db' = db3" and r: "\<forall>c. r = Inr c \<longrightarrow> g = Inr (Some c)"
      by (auto simp: ClaimNamespace_def split: sum.splits option.splits)
    from g d obtain f where "dbEnter db2 = (f, db')" using GetClaim_snd by blast
    moreover from r g d have "\<forall>c. r = Inr c \<longrightarrow> lookupClaim db' ns = Some c"
      using GetClaim_Inr by fastforce
    ultimately show ?thesis using e1 i nf by (intro committed) auto
  qed
qed

lemma ClaimNamespace_ok: "ClaimNamespace db ns org by = (r, db') \<Longrightarrow> claimsOk db \<Longrightarrow> claimsOk db'"
  by (erule ClaimNamespace_trace) (blast intro: dbEnter_ok insertClaim_ok)+

lemma ClaimNamespace_noRelease:
  assumes "ClaimNamespace db ns org by = (r, db')" and "noRelease db"
  shows "noRelease db'"
  using assms(1)
proof (cases rule: ClaimNamespace_trace)
  case fail
  with assms(2) show ?thesis by (blast intro: dbEnter_noRelease)
next
  case (committed db1 db2 f)
  from committed(1) assms(2) have "noRelease db1" by (rule dbEnter_noRelease)
  then have "noRelease db2" using insertClaim_frame [OF committed(2)] by (simp add: noRelease_def)
  with committed(3) show ?thesis by (rule dbEnter_noRelease)
qed

lemma ClaimNamespace_keeps:
  assumes "ClaimNamespace db ns org by = (r, db')" and "noRelease db" and "lookupClaim db n = Some c"
  shows "lookupClaim db' n = Some c"
  using assms(1)
proof (cases rule: ClaimNamespace_trace)
  case fail
  with assms(2,3) show ?thesis by (blast intro: dbEnter_keeps)
next
  case (committed db1 db2 f)
  from committed(1) assms(2,3) have "lookupClaim db1 n = Some c" by (rule dbEnter_keeps)
  with committed(2) have "lookupClaim db2 n = Some c" by (rule insertClaim_keeps)
  moreover from committed(1) assms(2) have "noRelease db1" by (rule dbEnter_noRelease)
  then have "noRelease db2" using insertClaim_frame [OF committed(2)] by (simp add: noRelease_def)
  ultimately show ?thesis using committed(3) dbEnter_keeps by blast
qed

lemma ClaimNamespace_result:
  assumes "ClaimNamespace db ns org by = (Inr c, db')"
  shows "lookupClaim db' ns = Some c"
  using assms by (cases rule: ClaimNamespace_trace) auto

lemma ClaimNamespace_quiet:
  assumes "dbSched db = []" and "lookupClaim db ns = None" and "org \<in> set (dbOrgs db)"
    and "\<forall>u. by = Some u \<longrightarrow> u \<in> set (dbUsers db)"
  shows "\<exists>c db'. ClaimNamespace db ns org by = (Inr c, db') \<and> clOrganizationID c = org \<and>
    clNamespace c = ns \<and> claimOwner db' ns = Some org"
proof -
  have "\<not> list_ex (\<lambda>c. clNamespace c = ns) (dbClaims db)" using assms(2) lookupClaim_ex by blast
  with assms show ?thesis
    by (auto simp: ClaimNamespace_def insertClaim_def GetClaim_def lookupClaim_snoc claimOwner_def
        split: option.splits)
qed

section \<open>The claim store as an interface\<close>

text \<open>
  What the authorizer relies on: a successful claim returns the owner recorded for the
  namespace, recorded owners stay, and the store's invariant is kept. \<open>runClaims\<close> lets any
  number of requests claim one after the other.
\<close>

locale claim_store =
  fixes ownerOf :: "'db \<Rightarrow> string \<Rightarrow> string option"
    and claimNs :: "'db \<Rightarrow> string \<Rightarrow> string \<Rightarrow> string option \<Rightarrow> (string + string) \<times> 'db"
    and ok :: "'db \<Rightarrow> bool"
  assumes claim_ok: "ok db \<Longrightarrow> ok (snd (claimNs db ns org by))"
    and claim_returns: "ok db \<Longrightarrow> fst (claimNs db ns org by) = Inr w \<Longrightarrow>
          ownerOf (snd (claimNs db ns org by)) ns = Some w"
    and claim_keeps: "ok db \<Longrightarrow> ownerOf db n = Some w \<Longrightarrow> ownerOf (snd (claimNs db ns org by)) n = Some w"
begin

fun runClaims :: "'db \<Rightarrow> (string \<times> string \<times> string option) list \<Rightarrow> (string \<times> (string + string)) list \<times> 'db" where
  "runClaims db [] = ([], db)"
| "runClaims db ((ns, org, by) # rs) =
     (let (r, db1) = claimNs db ns org by; (out, db2) = runClaims db1 rs in ((ns, r) # out, db2))"

lemma runClaims_keeps: "ok db \<Longrightarrow> ownerOf db n = Some w \<Longrightarrow> ownerOf (snd (runClaims db rs)) n = Some w"
proof (induction db rs rule: runClaims.induct)
  case (2 db ns org who rs)
  obtain r db1 where c: "claimNs db ns org who = (r, db1)" by (cases "claimNs db ns org who")
  from claim_keeps [OF 2(2,3), of ns org who] claim_ok [OF 2(2), of ns org who] c
  have "ok db1" "ownerOf db1 n = Some w" by simp_all
  with 2(1) c have "ownerOf (snd (runClaims db1 rs)) n = Some w" by simp
  with c show ?case by (cases "runClaims db1 rs") simp
qed simp

lemma runClaims_returns:
  "ok db \<Longrightarrow> (n, Inr w) \<in> set (fst (runClaims db rs)) \<Longrightarrow> ownerOf (snd (runClaims db rs)) n = Some w"
proof (induction db rs rule: runClaims.induct)
  case (2 db ns org who rs)
  obtain r db1 where c: "claimNs db ns org who = (r, db1)" by (cases "claimNs db ns org who")
  with claim_ok [OF 2(2), of ns org who] have ok1: "ok db1" by simp
  show ?case
  proof (cases "(n, Inr w) = (ns, r)")
    case True
    with claim_returns [OF 2(2), of ns org who w] c have "ownerOf db1 n = Some w" by auto
    from runClaims_keeps [OF ok1 this, of rs] c show ?thesis by (cases "runClaims db1 rs") simp
  next
    case False
    with 2(3) c have "(n, Inr w) \<in> set (fst (runClaims db1 rs))" by (auto split: prod.splits)
    with 2(1) c ok1 show ?thesis by (auto split: prod.splits)
  qed
qed simp

theorem winners_agree:
  assumes "ok db" and "(n, Inr w) \<in> set (fst (runClaims db rs))"
    and "(n, Inr v) \<in> set (fst (runClaims db rs))"
  shows "w = v"
  using runClaims_returns [OF assms(1,2)] runClaims_returns [OF assms(1,3)] by simp

end

definition claimOrgResult :: "regdb \<Rightarrow> string \<Rightarrow> string \<Rightarrow> string option \<Rightarrow> (string + string) \<times> regdb" where
  "claimOrgResult db ns org by =
     (case ClaimNamespace db ns org by of
        (Inl e, db') \<Rightarrow> (Inl e, db') | (Inr c, db') \<Rightarrow> (Inr (clOrganizationID c), db'))"

lemma claimOrgResult_simps:
  "snd (claimOrgResult db ns org by) = snd (ClaimNamespace db ns org by)"
  "fst (claimOrgResult db ns org by) = Inr w \<longleftrightarrow>
     (\<exists>c. fst (ClaimNamespace db ns org by) = Inr c \<and> clOrganizationID c = w)"
  by (auto simp: claimOrgResult_def split: prod.splits sum.splits)

interpretation sqlClaims: claim_store claimOwner claimOrgResult "\<lambda>db. claimsOk db \<and> noRelease db"
proof (unfold_locales, goal_cases)
  case (1 db ns org who)
  then show ?case
    using ClaimNamespace_ok ClaimNamespace_noRelease
    unfolding claimOrgResult_simps by (metis prod.collapse)
next
  case (2 db ns org who w)
  then obtain c where "fst (ClaimNamespace db ns org who) = Inr c" "clOrganizationID c = w"
    unfolding claimOrgResult_simps by blast
  then show ?case
    using ClaimNamespace_result [of db ns org who c "snd (ClaimNamespace db ns org who)"]
    unfolding claimOrgResult_simps claimOwner_def by (metis option.map(2) prod.collapse)
next
  case (3 db n w ns org who)
  then obtain c where c: "lookupClaim db n = Some c" "clOrganizationID c = w"
    by (auto simp: claimOwner_def)
  from ClaimNamespace_keeps [OF prod.collapse [symmetric] _ c(1)] 3(1) c(2)
  show ?case unfolding claimOrgResult_simps claimOwner_def by auto
qed

definition claimRun ::
  "regdb \<Rightarrow> (string \<times> string \<times> string option) list \<Rightarrow> (string \<times> (string + string)) list \<times> regdb" where
  "claimRun = sqlClaims.runClaims"

lemma claimRun_simps [simp]:
  "claimRun db [] = ([], db)"
  "claimRun db ((ns, org, by) # rs) =
     (let (r, db1) = claimOrgResult db ns org by; (out, db2) = claimRun db1 rs in ((ns, r) # out, db2))"
  by (simp_all add: claimRun_def)

section \<open>Properties\<close>

definition exDb :: regdb where
  "exDb = \<lparr>dbClaims = [], dbModules = [], dbProviders = [], dbOrgs = [''org1'', ''org2''],
     dbUsers = [''u1'', ''u2''], dbNow = 0,
     dbSched = [\<lparr>stepFails = False, stepOthers = [OtherClaim ''acme'' ''org2'' (Some ''u2'')]\<rparr>]\<rparr>"

text \<open>
  Claim C3. A namespace has one owner. However many requests claim namespaces, and whatever
  claims other requests slip in between the insert and the read of each call, all successful
  claims of one namespace return the same organization, and it is the owner the table
  records at the end (as long as no claim row is removed meanwhile).
\<close>

theorem claim_race_single_winner:
  assumes "claimsOk db" and "noRelease db"
    and "(n, Inr w) \<in> set (fst (claimRun db rs))" and "(n, Inr v) \<in> set (fst (claimRun db rs))"
  shows "w = v \<and> claimOwner (snd (claimRun db rs)) n = Some w"
  using sqlClaims.winners_agree [of db n w rs v] sqlClaims.runClaims_returns [of db n w rs] assms
  by (simp add: claimRun_def)

theorem claim_race_single_winner_witness:
  "claimOwner (snd (claimRun exDb [(''acme'', ''org1'', Some ''u1''), (''acme'', ''org1'', None)])) ''acme''
     = Some ''org2''"
proof -
  let ?rs = "[(''acme'', ''org1'', Some ''u1''), (''acme'', ''org1'', None)]"
  have ok: "claimsOk exDb" by (simp add: claimsOk_def exDb_def)
  have nr: "noRelease exDb" by (simp add: noRelease_def exDb_def)
  have "fst (claimRun exDb ?rs) = [(''acme'', Inr ''org2''), (''acme'', Inr ''org2'')]"
    by (simp add: exDb_def claimOrgResult_def ClaimNamespace_def dbEnter_def insertClaim_def GetClaim_def
        lookupClaim_def)
  then have m: "(''acme'', Inr ''org2'') \<in> set (fst (claimRun exDb ?rs))" by simp
  from claim_race_single_winner [OF ok nr m m] show ?thesis by simp
qed



end
