(* ===== verification/Validation.thy ===== *)
theory Validation
  imports Prelude
begin

text \<open>
  Input validation (\<^verbatim>\<open>internal/validation\<close>): registry identifier segments, storage file
  names and provider platforms. Error texts keep the fixed part of the source's message.
\<close>

section \<open>segment.go\<close>

definition segStart :: "char \<Rightarrow> bool" where
  "segStart c = (let n = (of_char c :: nat) in (97 \<le> n \<and> n \<le> 122) \<or> (48 \<le> n \<and> n \<le> 57))"

definition segChar :: "char \<Rightarrow> bool" where
  "segChar c = (segStart c \<or> c = CHR ''_'' \<or> c = CHR ''-'')"

text \<open>The regular expression \<^verbatim>\<open>^[a-z0-9][a-z0-9_-]{0,63}$\<close>.\<close>

fun reRegistrySegment :: "string \<Rightarrow> bool" where
  "reRegistrySegment [] = False"
| "reRegistrySegment (c # cs) = (segStart c \<and> list_all segChar cs \<and> length cs \<le> 63)"

definition ValidateRegistrySegment :: "string \<Rightarrow> string + unit" where
  "ValidateRegistrySegment s =
     (if \<not> reRegistrySegment s then Inl ''not a valid registry identifier'' else Inr ())"

section \<open>filename.go\<close>

definition containsAny :: "string \<Rightarrow> string \<Rightarrow> bool" where
  "containsAny s chars = list_ex (\<lambda>c. c \<in> set chars) s"

definition ValidateStorageFilename :: "string \<Rightarrow> string + unit" where
  "ValidateStorageFilename name =
     (if name = '''' then Inl ''filename cannot be empty''
      else if containsAny name [CHR ''/'', CHR 0x5C] then Inl ''must not contain path separators''
      else if contains name ''..'' then Inl ''must not contain ..''
      else Inr ())"

section \<open>platform.go\<close>

definition SupportedOS :: "string list" where
  "SupportedOS = [''darwin'', ''freebsd'', ''linux'', ''openbsd'', ''solaris'', ''windows'']"

definition SupportedArch :: "string list" where
  "SupportedArch = [''386'', ''amd64'', ''arm'', ''arm64'']"

fun isListed :: "string list \<Rightarrow> string \<Rightarrow> bool" where
  "isListed [] x = False"
| "isListed (s # ss) x = (if x = s then True else isListed ss x)"

definition isValidOS :: "string \<Rightarrow> bool" where
  "isValidOS os = isListed SupportedOS os"

definition isValidArch :: "string \<Rightarrow> bool" where
  "isValidArch arch = isListed SupportedArch arch"

definition validateOSArchCombination :: "string \<Rightarrow> string \<Rightarrow> string + unit" where
  "validateOSArchCombination os arch = Inr ()"

definition ValidatePlatform :: "string \<Rightarrow> string \<Rightarrow> string + unit" where
  "ValidatePlatform os arch =
     (if os = '''' then Inl ''operating system cannot be empty''
      else if arch = '''' then Inl ''architecture cannot be empty''
      else if \<not> isValidOS os then Inl (''unsupported operating system: '' @ os)
      else if \<not> isValidArch arch then Inl (''unsupported architecture: '' @ arch)
      else validateOSArchCombination os arch)"

definition FormatPlatformKey :: "string \<Rightarrow> string \<Rightarrow> string" where
  "FormatPlatformKey os arch = os @ ''_'' @ arch"

definition osNames :: "string \<rightharpoonup> string" where
  "osNames = [''darwin'' \<mapsto> ''macOS'', ''freebsd'' \<mapsto> ''FreeBSD'', ''linux'' \<mapsto> ''Linux'',
     ''openbsd'' \<mapsto> ''OpenBSD'', ''solaris'' \<mapsto> ''Solaris'', ''windows'' \<mapsto> ''Windows'']"

definition archNames :: "string \<rightharpoonup> string" where
  "archNames = [''386'' \<mapsto> ''32-bit'', ''amd64'' \<mapsto> ''64-bit'', ''arm'' \<mapsto> ''ARM'', ''arm64'' \<mapsto> ''ARM64'']"

definition GetPlatformDisplayName :: "string \<Rightarrow> string \<Rightarrow> string" where
  "GetPlatformDisplayName os arch =
     (case osNames os of None \<Rightarrow> os | Some n \<Rightarrow> n) @ '' '' @
     (case archNames arch of None \<Rightarrow> arch | Some n \<Rightarrow> n)"

section \<open>Lemmas\<close>

lemma isListed_iff: "isListed ss x \<longleftrightarrow> x \<in> set ss"
  by (induction ss) auto

lemma segment_chars: "reRegistrySegment s \<Longrightarrow> c \<in> set s \<Longrightarrow> segChar c"
  by (cases s) (auto simp: segChar_def list_all_iff)

lemma segChar_not_path: "segChar c \<Longrightarrow> c \<noteq> CHR ''/'' \<and> c \<noteq> CHR ''.'' \<and> c \<noteq> CHR 0x5C"
  by (auto simp: segChar_def segStart_def)

lemma containsAny_iff: "containsAny s cs \<longleftrightarrow> set s \<inter> set cs \<noteq> {}"
  by (auto simp: containsAny_def list_ex_iff)

lemma contains_in: "contains s (a # as) \<Longrightarrow> a \<in> set s"
proof (induction s)
  case (Cons c s)
  then show ?case by (auto simp: hasPrefix_def)
qed simp

section \<open>Properties\<close>

text \<open>
  Identifier segments. A segment is accepted exactly when it has 1 to 64 bytes, starts
  with a lowercase letter or digit and uses only lowercase letters, digits, hyphen and
  underscore; an accepted segment is therefore also accepted as a storage file name, with no
  separator and no dot in it.
\<close>

theorem ValidateRegistrySegment_correct:
  "(ValidateRegistrySegment s = Inr () \<longleftrightarrow>
     1 \<le> length s \<and> length s \<le> 64 \<and> segStart (hd s) \<and> (\<forall>c \<in> set s. segChar c)) \<and>
   (ValidateRegistrySegment s = Inr () \<longrightarrow>
     ValidateStorageFilename s = Inr () \<and> CHR ''/'' \<notin> set s \<and> CHR ''.'' \<notin> set s)"
proof (intro conjI impI)
  show "ValidateRegistrySegment s = Inr () \<longleftrightarrow>
     1 \<le> length s \<and> length s \<le> 64 \<and> segStart (hd s) \<and> (\<forall>c \<in> set s. segChar c)"
    by (cases s) (auto simp: ValidateRegistrySegment_def segChar_def list_all_iff)
  assume "ValidateRegistrySegment s = Inr ()"
  then have re: "reRegistrySegment s" by (simp add: ValidateRegistrySegment_def split: if_splits)
  then have ne: "s \<noteq> []" by (cases s) auto
  have path: "c \<in> set s \<Longrightarrow> c \<noteq> CHR ''/'' \<and> c \<noteq> CHR ''.'' \<and> c \<noteq> CHR 0x5C" for c
    using segment_chars [OF re] segChar_not_path by blast
  then show "CHR ''/'' \<notin> set s" and dot: "CHR ''.'' \<notin> set s" by blast+
  have "\<not> contains s ''..''" using dot contains_in by blast
  moreover have "\<not> containsAny s [CHR ''/'', CHR 0x5C]" using path by (auto simp: containsAny_iff)
  ultimately show "ValidateStorageFilename s = Inr ()" using ne by (simp add: ValidateStorageFilename_def)
qed

theorem ValidateRegistrySegment_correct_witness:
  "ValidateRegistrySegment ''my-ns_1'' = Inr () \<and> ValidateStorageFilename ''my-ns_1'' = Inr ()"
proof -
  have "ValidateRegistrySegment ''my-ns_1'' = Inr ()"
    by (simp add: ValidateRegistrySegment_def segChar_def segStart_def)
  then show ?thesis using ValidateRegistrySegment_correct by blast
qed

text \<open>
  Upstream file names add no path component. Appending an accepted file name to a storage
  prefix yields a key whose slash-separated components are those of the prefix followed by the
  file name itself, which is not the parent-directory component.
\<close>

theorem ValidateStorageFilename_one_component:
  assumes "ValidateStorageFilename name = Inr ()"
  shows "splitOn (CHR ''/'') (pre @ ''/'' @ name) = splitOn (CHR ''/'') pre @ [name] \<and> name \<noteq> ''..''"
proof -
  from assms have sep: "CHR ''/'' \<notin> set name" and dots: "\<not> contains name ''..''"
    by (auto simp: ValidateStorageFilename_def containsAny_iff split: if_splits)
  have "splitOn (CHR ''/'') (pre @ ''/'' @ name) = splitOn (CHR ''/'') pre @ [name]"
  proof (induction pre)
    case Nil
    show ?case by (simp add: splitOn_no_sep [OF sep])
  next
    case (Cons c pre)
    then show ?case by (cases "splitOn (CHR ''/'') pre") auto
  qed
  with dots show ?thesis by (auto simp: hasPrefix_def)
qed

theorem ValidateStorageFilename_one_component_witness:
  "splitOn (CHR ''/'') (''a/b'' @ ''/'' @ ''p.zip'') = [''a'', ''b'', ''p.zip'']"
proof -
  have "ValidateStorageFilename ''p.zip'' = Inr ()"
    by (simp add: ValidateStorageFilename_def containsAny_def hasPrefix_def)
  from ValidateStorageFilename_one_component [OF this, of "''a/b''"] show ?thesis by simp
qed

text \<open>
  Platforms. The accepted pairs are exactly the listed operating systems and
  architectures, and the platform key of an accepted pair splits back into that pair, so no
  two accepted platforms share a key.
\<close>

theorem ValidatePlatform_roundtrip:
  "(ValidatePlatform os arch = Inr () \<longleftrightarrow> os \<in> set SupportedOS \<and> arch \<in> set SupportedArch) \<and>
   (ValidatePlatform os arch = Inr () \<longrightarrow>
      splitOn (CHR ''_'') (FormatPlatformKey os arch) = [os, arch])"
proof -
  have ok: "ValidatePlatform os arch = Inr () \<longleftrightarrow> os \<in> set SupportedOS \<and> arch \<in> set SupportedArch"
    by (auto simp: ValidatePlatform_def isValidOS_def isValidArch_def isListed_iff
        validateOSArchCombination_def SupportedOS_def SupportedArch_def)
  moreover have "os \<in> set SupportedOS \<Longrightarrow> CHR ''_'' \<notin> set os"
    by (auto simp: SupportedOS_def)
  moreover have "arch \<in> set SupportedArch \<Longrightarrow> CHR ''_'' \<notin> set arch"
    by (auto simp: SupportedArch_def)
  ultimately show ?thesis
    by (auto simp: FormatPlatformKey_def splitOn_sep splitOn_no_sep)
qed

theorem ValidatePlatform_roundtrip_witness:
  "splitOn (CHR ''_'') (FormatPlatformKey ''linux'' ''amd64'') = [''linux'', ''amd64'']"
  using ValidatePlatform_roundtrip [of "''linux''" "''amd64''"]
  by (simp add: SupportedOS_def SupportedArch_def)

end
