(* ===== verification/NamespaceAuthz.thy ===== *)
theory NamespaceAuthz
  imports RBAC Claims Validation
begin

text \<open>
  Object-level authorization of module and provider mutations
  (\<^verbatim>\<open>internal/middleware/namespace_authz.go\<close>). Every handler takes the request context and
  the registry database and returns the outcome with the database it leaves. Multipart forms
  and JSON bodies enter as the result of their decoding; \<^verbatim>\<open>uuid.Parse\<close> (a third-party
  function) is the parameter \<open>uuidOk\<close>.
\<close>

section \<open>The caller\<close>

definition callerIsAdmin :: "identity \<Rightarrow> gin \<Rightarrow> bool" where
  "callerIsAdmin I c =
     (case cGet c ''scopes'' of Some (GStrs us) \<Rightarrow> HasScope I us (idScopeAdmin I) | _ \<Rightarrow> False)"

definition callerUserID :: "gin \<Rightarrow> string option" where
  "callerUserID c =
     (case cGet c ''user_id'' of Some (GStr uid) \<Rightarrow> if uid \<noteq> '''' then Some uid else None | _ \<Rightarrow> None)"

definition memberAccess :: "identity \<Rightarrow> orgstore \<Rightarrow> gin \<Rightarrow> string \<Rightarrow> string \<Rightarrow> nat \<times> string" where
  "memberAccess I os c ownerOrgID scope =
     (case cGet c ''user_id'' of
        None \<Rightarrow> (StatusForbidden, ''Organization context required'')
      | Some (GStr userID) \<Rightarrow>
          if userID = [] then (StatusForbidden, ''Invalid user ID format'')
          else (case osGetMemberWithRole os ownerOrgID userID of
                  Inl e \<Rightarrow> (StatusInternalServerError, ''Failed to check organization membership'')
                | Inr None \<Rightarrow> (StatusForbidden, ''Namespace is owned by another organization'')
                | Inr (Some m) \<Rightarrow>
                    if \<not> HasScope I (memberRoleTemplateScopes m) scope
                    then (StatusForbidden, ''Missing required scope in the owning organization'')
                    else (0, []))
      | Some _ \<Rightarrow> (StatusForbidden, ''Invalid user ID format''))"

definition authorizeOrgAccess :: "identity \<Rightarrow> orgstore \<Rightarrow> gin \<Rightarrow> string \<Rightarrow> string \<Rightarrow> nat \<times> string" where
  "authorizeOrgAccess I os c ownerOrgID scope =
     (case cGet c ''scopes'' of
        None \<Rightarrow> (StatusForbidden, ''Insufficient permissions'')
      | Some (GStrs userScopes) \<Rightarrow>
          if HasScope I userScopes (idScopeAdmin I) then (0, [])
          else (case cGet c ''api_key'' of
                  None \<Rightarrow> memberAccess I os c ownerOrgID scope
                | Some (GAPIKey k) \<Rightarrow>
                    if keyOrganizationID k \<noteq> []
                    then (if keyOrganizationID k = ownerOrgID then (0, [])
                          else (StatusForbidden, ''Namespace is owned by another organization''))
                    else memberAccess I os c ownerOrgID scope
                | Some _ \<Rightarrow> (StatusForbidden, ''Invalid API key context''))
      | Some _ \<Rightarrow> (StatusForbidden, ''Invalid scopes format''))"

definition resolveByMembership :: "identity \<Rightarrow> orgstore \<Rightarrow> gin \<Rightarrow> string \<times> nat \<times> string" where
  "resolveByMembership I os c =
     (let requestedOrg = trimSpace (cGetString c ''requested_org_id'') in
      if requestedOrg \<noteq> [] then
        (if callerIsAdmin I c then (requestedOrg, 0, [])
         else (case callerUserID c of
                 None \<Rightarrow> ([], StatusForbidden, ''You are not a member of the requested organization'')
               | Some u \<Rightarrow>
                   (case osGetUserMemberships os u of
                      Inl e \<Rightarrow> ([], StatusInternalServerError, ''Failed to resolve organization memberships'')
                    | Inr ms \<Rightarrow>
                        if requestedOrg \<in> set ms then (requestedOrg, 0, [])
                        else ([], StatusForbidden, ''You are not a member of the requested organization''))))
      else
        (case callerUserID c of
           None \<Rightarrow> ([], StatusForbidden, ''No organization context'')
         | Some u \<Rightarrow>
             (case osGetUserMemberships os u of
                Inl e \<Rightarrow> ([], StatusInternalServerError, ''Failed to resolve organization memberships'')
              | Inr ms \<Rightarrow>
                  if length ms = 1 then (hd ms, 0, [])
                  else if length ms > 1 then ([], StatusForbidden, ''Ambiguous organization'')
                  else ([], StatusForbidden, ''No organization context''))))"

definition resolveCallerOrg :: "identity \<Rightarrow> orgstore \<Rightarrow> gin \<Rightarrow> string \<times> nat \<times> string" where
  "resolveCallerOrg I os c =
     (case cGet c ''api_key'' of
        Some (GAPIKey k) \<Rightarrow>
          if keyOrganizationID k \<noteq> [] then (keyOrganizationID k, 0, []) else resolveByMembership I os c
      | _ \<Rightarrow> resolveByMembership I os c)"

section \<open>Ownership\<close>

datatype own_err = AmbiguousOwnership | OwnershipDbError string

definition resolveOwnerOrg :: "regdb \<Rightarrow> string \<Rightarrow> (own_err + string) \<times> regdb" where
  "resolveOwnerOrg db ns =
     (case GetClaim db ns of
        (Inl e, db1) \<Rightarrow> (Inl (OwnershipDbError e), db1)
      | (Inr (Some cl), db1) \<Rightarrow> (Inr (clOrganizationID cl), db1)
      | (Inr None, db1) \<Rightarrow>
          (case ArtifactOrganizations db1 ns of
             (Inl e, db2) \<Rightarrow> (Inl (OwnershipDbError e), db2)
           | (Inr [], db2) \<Rightarrow> (Inr '''', db2)
           | (Inr [org], db2) \<Rightarrow> (Inr org, db2)
           | (Inr (_ # _ # _), db2) \<Rightarrow> (Inl AmbiguousOwnership, db2)))"

definition ownerOrgForArtifact :: "regdb \<Rightarrow> string \<Rightarrow> string \<Rightarrow> (string + string) \<times> regdb" where
  "ownerOrgForArtifact db ns artifactOrgID =
     (case GetClaim db ns of
        (Inl e, db1) \<Rightarrow> (Inl e, db1)
      | (Inr (Some cl), db1) \<Rightarrow> (Inr (clOrganizationID cl), db1)
      | (Inr None, db1) \<Rightarrow> (Inr artifactOrgID, db1))"

definition firstPublish ::
  "identity \<Rightarrow> orgstore \<Rightarrow> gin \<Rightarrow> string \<Rightarrow> string \<Rightarrow> regdb \<Rightarrow> outcome \<times> regdb" where
  "firstPublish I os c ns scope db =
     (case ValidateRegistrySegment ns of
        Inl e \<Rightarrow> (abortErr StatusBadRequest (''Invalid namespace: '' @ e) c, db)
      | Inr _ \<Rightarrow>
          (case resolveCallerOrg I os c of (callerOrgID, status, msg) \<Rightarrow>
             if status \<noteq> 0 then (abortErr status msg c, db)
             else (case ClaimNamespace db ns callerOrgID (callerUserID c) of
                     (Inl e, db1) \<Rightarrow> (abortErr StatusInternalServerError ''Failed to claim namespace'' c, db1)
                   | (Inr cl, db1) \<Rightarrow>
                       if clOrganizationID cl \<noteq> callerOrgID \<and>
                          fst (authorizeOrgAccess I os c (clOrganizationID cl) scope) \<noteq> 0
                       then (abortErr (fst (authorizeOrgAccess I os c (clOrganizationID cl) scope))
                               (snd (authorizeOrgAccess I os c (clOrganizationID cl) scope)) c, db1)
                       else (Next (cSet c ''owner_org_id'' (GStr (clOrganizationID cl))), db1))))"

definition authorizeNamespaceMutation ::
  "identity \<Rightarrow> orgstore \<Rightarrow> gin \<Rightarrow> string \<Rightarrow> string \<Rightarrow> bool \<Rightarrow> regdb \<Rightarrow> outcome \<times> regdb" where
  "authorizeNamespaceMutation I os c ns scope allowClaim db =
     (case resolveOwnerOrg db ns of
        (Inl AmbiguousOwnership, db1) \<Rightarrow>
          if callerIsAdmin I c then (Next c, db1)
          else (abortErr StatusForbidden ''Namespace ownership is ambiguous; contact an administrator'' c, db1)
      | (Inl (OwnershipDbError e), db1) \<Rightarrow>
          (abortErr StatusInternalServerError ''Failed to resolve namespace ownership'' c, db1)
      | (Inr owner, db1) \<Rightarrow>
          if owner \<noteq> '''' then
            (case authorizeOrgAccess I os c owner scope of (status, msg) \<Rightarrow>
               if status \<noteq> 0 then (abortErr status msg c, db1)
               else (Next (cSet c ''owner_org_id'' (GStr owner)), db1))
          else if \<not> allowClaim then (Next c, db1)
          else firstPublish I os c ns scope db1)"

section \<open>The route guards\<close>

definition RequireNamespaceAccessFromPath ::
  "identity \<Rightarrow> orgstore \<Rightarrow> string \<Rightarrow> gin \<Rightarrow> regdb \<Rightarrow> outcome \<times> regdb" where
  "RequireNamespaceAccessFromPath I os scope c db =
     (let ns = reqParam (ginReq c) ''namespace'' in
      if ns = '''' then (abortErr StatusForbidden ''Namespace not present in request path'' c, db)
      else authorizeNamespaceMutation I os c ns scope False db)"

text \<open>The parsed multipart body: \<open>None\<close> when parsing fails, otherwise the value of each field
  (empty when absent), from the body only.\<close>

definition RequirePublishAccessFromForm ::
  "identity \<Rightarrow> orgstore \<Rightarrow> string \<Rightarrow> (string \<Rightarrow> string) option \<Rightarrow> gin \<Rightarrow> regdb \<Rightarrow> outcome \<times> regdb" where
  "RequirePublishAccessFromForm I os scope form c db =
     (case form of
        None \<Rightarrow> (abortErr StatusBadRequest ''Failed to parse multipart form'' c, db)
      | Some field \<Rightarrow>
          if field ''namespace'' = '''' then (Next c, db)
          else authorizeNamespaceMutation I os
                 (cSet c ''requested_org_id'' (GStr (field ''organization_id'')))
                 (field ''namespace'') scope True db)"

datatype 'a body = BodyUnreadable | BodyMalformed | BodyJSON 'a

definition RequirePublishAccessFromJSON ::
  "identity \<Rightarrow> orgstore \<Rightarrow> string \<Rightarrow> (string \<times> string) body \<Rightarrow> gin \<Rightarrow> regdb \<Rightarrow> outcome \<times> regdb" where
  "RequirePublishAccessFromJSON I os scope b c db =
     (case b of
        BodyUnreadable \<Rightarrow> (abortErr StatusBadRequest ''Failed to read request body'' c, db)
      | BodyMalformed \<Rightarrow> (Next c, db)
      | BodyJSON (ns, orgID) \<Rightarrow>
          if ns = '''' then (Next c, db)
          else (case authorizeNamespaceMutation I os (cSet c ''requested_org_id'' (GStr orgID)) ns scope True db of
                  (Abort st j c1, db1) \<Rightarrow> (Abort st j c1, db1)
                | (Next c1, db1) \<Rightarrow>
                    if orgID \<noteq> '''' \<and> \<not> callerIsAdmin I c1 then
                      (case resolveOwnerOrg db1 ns of
                         (Inr owner, db2) \<Rightarrow>
                           if owner = '''' \<or> orgID \<noteq> owner
                           then (abortErr StatusForbidden
                                   ''organization_id does not match the owning organization of the namespace'' c1, db2)
                           else (Next c1, db2)
                       | (Inl e, db2) \<Rightarrow>
                           (abortErr StatusForbidden
                              ''organization_id does not match the owning organization of the namespace'' c1, db2))
                    else (Next c1, db1)))"

datatype module_access = ModuleAborted outcome | ModulePass gin | ModuleOwned artifact string gin

definition moduleAccessByID ::
  "identity \<Rightarrow> orgstore \<Rightarrow> (string \<Rightarrow> bool) \<Rightarrow> string \<Rightarrow> gin \<Rightarrow> regdb \<Rightarrow> module_access \<times> regdb" where
  "moduleAccessByID I os uuidOk scope c db =
     (let i = reqParam (ginReq c) ''id'' in
      if \<not> uuidOk i then (ModulePass c, db)
      else (case GetModuleByID db i of
              (Inl e, db1) \<Rightarrow> (ModuleAborted (abortErr StatusInternalServerError ''Failed to get module'' c), db1)
            | (Inr None, db1) \<Rightarrow> (ModulePass c, db1)
            | (Inr (Some (m, org)), db1) \<Rightarrow>
                (case ownerOrgForArtifact db1 (artNamespace m) org of
                   (Inl e, db2) \<Rightarrow>
                     (ModuleAborted (abortErr StatusInternalServerError ''Failed to resolve namespace ownership'' c), db2)
                 | (Inr owner, db2) \<Rightarrow>
                     (case authorizeOrgAccess I os c owner scope of (status, msg) \<Rightarrow>
                        if status \<noteq> 0 then (ModuleAborted (abortErr status msg c), db2)
                        else (ModuleOwned m owner (cSet c ''owner_org_id'' (GStr owner)), db2)))))"

definition RequireModuleAccessByID ::
  "identity \<Rightarrow> orgstore \<Rightarrow> (string \<Rightarrow> bool) \<Rightarrow> string \<Rightarrow> gin \<Rightarrow> regdb \<Rightarrow> outcome \<times> regdb" where
  "RequireModuleAccessByID I os uuidOk scope c db =
     (case moduleAccessByID I os uuidOk scope c db of
        (ModuleAborted r, db1) \<Rightarrow> (r, db1)
      | (ModulePass c1, db1) \<Rightarrow> (Next c1, db1)
      | (ModuleOwned m owner c1, db1) \<Rightarrow> (Next c1, db1))"

definition moveModule ::
  "identity \<Rightarrow> gin \<Rightarrow> string \<Rightarrow> string \<Rightarrow> regdb \<Rightarrow> outcome \<times> regdb" where
  "moveModule I c target currentOwner db =
     (case resolveOwnerOrg db target of
        (Inl AmbiguousOwnership, db1) \<Rightarrow>
          if callerIsAdmin I c then (Next c, db1)
          else (abortErr StatusForbidden ''Namespace ownership is ambiguous; contact an administrator'' c, db1)
      | (Inl (OwnershipDbError e), db1) \<Rightarrow>
          (abortErr StatusInternalServerError ''Failed to resolve namespace ownership'' c, db1)
      | (Inr targetOwner, db1) \<Rightarrow>
          if targetOwner = '''' then
            (case ValidateRegistrySegment target of
               Inl e \<Rightarrow> (abortErr StatusBadRequest (''Invalid namespace: '' @ e) c, db1)
             | Inr _ \<Rightarrow>
                 (case ClaimNamespace db1 target currentOwner (callerUserID c) of
                    (Inl e, db2) \<Rightarrow> (abortErr StatusInternalServerError ''Failed to claim namespace'' c, db2)
                  | (Inr cl, db2) \<Rightarrow>
                      if clOrganizationID cl \<noteq> currentOwner \<and> \<not> callerIsAdmin I c
                      then (abortErr StatusForbidden ''Namespace is owned by another organization'' c, db2)
                      else (Next c, db2)))
          else if targetOwner \<noteq> currentOwner then
            (if \<not> callerIsAdmin I c
             then (abortErr StatusForbidden ''Namespace is owned by another organization'' c, db1)
             else (Next c, db1))
          else (Next c, db1))"

definition RequireModuleUpdateAccess ::
  "identity \<Rightarrow> orgstore \<Rightarrow> (string \<Rightarrow> bool) \<Rightarrow> string \<Rightarrow> string option body \<Rightarrow> gin \<Rightarrow> regdb \<Rightarrow> outcome \<times> regdb" where
  "RequireModuleUpdateAccess I os uuidOk scope b c db =
     (case moduleAccessByID I os uuidOk scope c db of
        (ModuleAborted r, db1) \<Rightarrow> (r, db1)
      | (ModulePass c1, db1) \<Rightarrow> (Next c1, db1)
      | (ModuleOwned m currentOwner c1, db1) \<Rightarrow>
          (case b of
             BodyUnreadable \<Rightarrow> (abortErr StatusBadRequest ''Failed to read request body'' c1, db1)
           | BodyMalformed \<Rightarrow> (Next c1, db1)
           | BodyJSON None \<Rightarrow> (Next c1, db1)
           | BodyJSON (Some target) \<Rightarrow>
               if target = '''' \<or> target = artNamespace m then (Next c1, db1)
               else moveModule I c1 target currentOwner db1))"

definition RequireProviderAccessByID ::
  "identity \<Rightarrow> orgstore \<Rightarrow> (string \<Rightarrow> bool) \<Rightarrow> string \<Rightarrow> gin \<Rightarrow> regdb \<Rightarrow> outcome \<times> regdb" where
  "RequireProviderAccessByID I os uuidOk scope c db =
     (let i = reqParam (ginReq c) ''id'' in
      if \<not> uuidOk i then (Next c, db)
      else (case GetProviderByID db i of
              (Inl e, db1) \<Rightarrow> (abortErr StatusInternalServerError ''Failed to get provider'' c, db1)
            | (Inr None, db1) \<Rightarrow> (Next c, db1)
            | (Inr (Some (p, org)), db1) \<Rightarrow>
                (case ownerOrgForArtifact db1 (artNamespace p) org of
                   (Inl e, db2) \<Rightarrow>
                     (abortErr StatusInternalServerError ''Failed to resolve namespace ownership'' c, db2)
                 | (Inr owner, db2) \<Rightarrow>
                     (case authorizeOrgAccess I os c owner scope of (status, msg) \<Rightarrow>
                        if status \<noteq> 0 then (abortErr status msg c, db2) else (Next c, db2)))))"

section \<open>The authority a caller has over an organization\<close>

text \<open>
  The contract of the file's header, as a predicate: the admin wildcard, or an API key bound
  to the owning organization, or (without a bound key) a membership in it whose role grants
  the scope.
\<close>

definition keyBinding :: "gin \<Rightarrow> string option" where
  "keyBinding c =
     (case cGet c ''api_key'' of
        Some (GAPIKey k) \<Rightarrow> if keyOrganizationID k \<noteq> '''' then Some (keyOrganizationID k) else None
      | _ \<Rightarrow> None)"

definition keyWellTyped :: "gin \<Rightarrow> bool" where
  "keyWellTyped c = (case cGet c ''api_key'' of None \<Rightarrow> True | Some (GAPIKey k) \<Rightarrow> True | Some _ \<Rightarrow> False)"

definition memberGrants :: "identity \<Rightarrow> orgstore \<Rightarrow> gin \<Rightarrow> string \<Rightarrow> string \<Rightarrow> bool" where
  "memberGrants I os c org scope \<longleftrightarrow>
     (\<exists>u m. callerUserID c = Some u \<and> osGetMemberWithRole os org u = Inr (Some m) \<and>
        HasScope I (memberRoleTemplateScopes m) scope)"

definition qualifies :: "identity \<Rightarrow> orgstore \<Rightarrow> gin \<Rightarrow> string \<Rightarrow> string \<Rightarrow> bool" where
  "qualifies I os c org scope \<longleftrightarrow>
     callerIsAdmin I c \<or>
     (\<exists>us. cGet c ''scopes'' = Some (GStrs us)) \<and> keyWellTyped c \<and>
     (case keyBinding c of Some o1 \<Rightarrow> o1 = org | None \<Rightarrow> memberGrants I os c org scope)"

lemmas authz_splits = option.splits gval.splits sum.splits if_splits prod.splits

lemma memberAccess_iff:
  "fst (memberAccess I os c owner scope) = 0 \<longleftrightarrow> memberGrants I os c owner scope"
proof (cases "cGet c ''user_id''")
  case (Some v)
  then show ?thesis
    by (cases v) (auto simp: memberAccess_def memberGrants_def callerUserID_def split: sum.splits option.splits)
qed (simp add: memberAccess_def memberGrants_def callerUserID_def)

lemma memberAccess_status:
  "fst (memberAccess I os c owner scope) \<in> {0, StatusForbidden, StatusInternalServerError}"
  by (simp add: memberAccess_def split: option.splits gval.splits sum.splits)

lemma authorizeOrgAccess_iff:
  "fst (authorizeOrgAccess I os c owner scope) = 0 \<longleftrightarrow> qualifies I os c owner scope"
proof (cases "\<exists>us. cGet c ''scopes'' = Some (GStrs us)")
  case False
  then show ?thesis
    by (simp add: authorizeOrgAccess_def qualifies_def callerIsAdmin_def split: option.splits gval.splits)
next
  case True
  then obtain us where us: "cGet c ''scopes'' = Some (GStrs us)" by blast
  show ?thesis
  proof (cases "cGet c ''api_key''")
    case None
    with us show ?thesis
      by (simp add: authorizeOrgAccess_def qualifies_def callerIsAdmin_def keyWellTyped_def keyBinding_def
          memberAccess_iff)
  next
    case (Some v)
    with us show ?thesis
      by (cases v) (simp_all add: authorizeOrgAccess_def qualifies_def callerIsAdmin_def keyWellTyped_def
          keyBinding_def memberAccess_iff)
  qed
qed

lemma keyBinding_cSet: "k \<noteq> ''api_key'' \<Longrightarrow> keyBinding (cSet c k v) = keyBinding c"
  by (simp add: keyBinding_def)

lemma authz_cSet:
  assumes "k \<notin> {''scopes'', ''api_key'', ''user_id''}"
  shows "callerIsAdmin I (cSet c k v) = callerIsAdmin I c"
    and "callerUserID (cSet c k v) = callerUserID c"
    and "qualifies I os (cSet c k v) org scope = qualifies I os c org scope"
proof -
  show a: "callerIsAdmin I (cSet c k v) = callerIsAdmin I c" using assms by (simp add: callerIsAdmin_def)
  show u: "callerUserID (cSet c k v) = callerUserID c" using assms by (simp add: callerUserID_def)
  have "memberGrants I os (cSet c k v) = memberGrants I os c"
    by (intro ext) (simp add: memberGrants_def u)
  with assms a show "qualifies I os (cSet c k v) org scope = qualifies I os c org scope"
    by (cases "keyBinding c") (simp_all add: qualifies_def keyBinding_cSet keyWellTyped_def)
qed

text \<open>Which organization a first publish may bind a namespace to.\<close>

definition mayBind :: "identity \<Rightarrow> orgstore \<Rightarrow> gin \<Rightarrow> string \<Rightarrow> bool" where
  "mayBind I os c org \<longleftrightarrow>
     keyBinding c = Some org \<or>
     keyBinding c = None \<and>
       (callerIsAdmin I c \<and> org = trimSpace (cGetString c ''requested_org_id'') \<or>
        (\<exists>u ms. callerUserID c = Some u \<and> osGetUserMemberships os u = Inr ms \<and> org \<in> set ms))"

lemma resolveByMembership_ok:
  "resolveByMembership I os c = (org, 0, msg) \<Longrightarrow>
   callerIsAdmin I c \<and> org = trimSpace (cGetString c ''requested_org_id'') \<or>
   (\<exists>u ms. callerUserID c = Some u \<and> osGetUserMemberships os u = Inr ms \<and> org \<in> set ms)"
  by (auto simp: resolveByMembership_def Let_def length_Suc_conv split: if_splits option.splits sum.splits)

lemma resolveCallerOrg_mayBind:
  "resolveCallerOrg I os c = (org, 0, msg) \<Longrightarrow> mayBind I os c org"
  by (auto simp: resolveCallerOrg_def mayBind_def keyBinding_def
      split: option.splits gval.splits if_splits dest: resolveByMembership_ok)

lemma resolveOwnerOrg_claim:
  assumes "resolveOwnerOrg db ns = (r, db')" and "noRelease db" and "lookupClaim db ns = Some cl"
  shows "(r = Inr (clOrganizationID cl) \<or> (\<exists>e. r = Inl (OwnershipDbError e))) \<and>
    lookupClaim db' ns = Some cl \<and> noRelease db'"
proof -
  obtain g db1 where g: "GetClaim db ns = (g, db1)" by (cases "GetClaim db ns")
  then obtain f where e: "dbEnter db = (f, db1)" using GetClaim_snd by blast
  from dbEnter_keeps [OF e assms(2,3)] have l: "lookupClaim db1 ns = Some cl" .
  from dbEnter_noRelease [OF e assms(2)] have n: "noRelease db1" .
  have "g = Inr (Some cl) \<or> (\<exists>e. g = Inl e)" using GetClaim_Inr [of db ns _ db1] g l by (cases g) auto
  with assms(1) g l n show ?thesis by (auto simp: resolveOwnerOrg_def)
qed

lemma resolveOwnerOrg_noRelease:
  assumes "resolveOwnerOrg db ns = (r, db')" and "noRelease db"
  shows "noRelease db'"
proof -
  obtain g db1 where g: "GetClaim db ns = (g, db1)" by (cases "GetClaim db ns")
  then obtain f where e: "dbEnter db = (f, db1)" using GetClaim_snd by blast
  from dbEnter_noRelease [OF e assms(2)] have n: "noRelease db1" .
  obtain a db2 where a: "ArtifactOrganizations db1 ns = (a, db2)" by (cases "ArtifactOrganizations db1 ns")
  then obtain f2 where "dbEnter db1 = (f2, db2)" using ArtifactOrganizations_snd by blast
  from dbEnter_noRelease [OF this n] have "noRelease db2" .
  with assms(1) g a n show ?thesis
    by (auto simp: resolveOwnerOrg_def split: sum.splits option.splits list.splits)
qed

lemma firstPublish_Next:
  assumes "firstPublish I os c ns scope db = (Next c', db')"
  shows "\<exists>w. claimOwner db' ns = Some w \<and> (mayBind I os c w \<or> qualifies I os c w scope) \<and>
    c' = cSet c ''owner_org_id'' (GStr w) \<and> ValidateRegistrySegment ns = Inr ()"
proof -
  obtain org st msg where r: "resolveCallerOrg I os c = (org, st, msg)" by (cases "resolveCallerOrg I os c")
  from assms r have v: "ValidateRegistrySegment ns = Inr ()" and st: "st = 0"
    by (auto simp: firstPublish_def split: sum.splits if_splits)
  from assms r v st obtain cl where cl: "ClaimNamespace db ns org (callerUserID c) = (Inr cl, db')"
    and q: "clOrganizationID cl = org \<or> fst (authorizeOrgAccess I os c (clOrganizationID cl) scope) = 0"
    and c': "c' = cSet c ''owner_org_id'' (GStr (clOrganizationID cl))"
    by (auto simp: firstPublish_def split: prod.splits sum.splits if_splits)
  from r st have "mayBind I os c org" by (auto intro: resolveCallerOrg_mayBind)
  with q have "mayBind I os c (clOrganizationID cl) \<or> qualifies I os c (clOrganizationID cl) scope"
    unfolding authorizeOrgAccess_iff by blast
  moreover from ClaimNamespace_result [OF cl] have "claimOwner db' ns = Some (clOrganizationID cl)"
    by (simp add: claimOwner_def)
  ultimately show ?thesis using c' v by blast
qed

lemma authorizeOrgAccess_pass:
  "(case authorizeOrgAccess I os c owner scope of (status, msg) \<Rightarrow> if 0 < status then x status msg else y) =
   (if qualifies I os c owner scope then y
    else x (fst (authorizeOrgAccess I os c owner scope)) (snd (authorizeOrgAccess I os c owner scope)))"
  using authorizeOrgAccess_iff [of I os c owner scope] by (auto split: prod.splits)

lemma authorizeNamespaceMutation_Next:
  assumes "authorizeNamespaceMutation I os c ns scope allowClaim db = (Next c', db')"
  shows "callerIsAdmin I c \<or>
    (\<exists>w. cGet c' ''owner_org_id'' = Some (GStr w) \<and> qualifies I os c w scope) \<or>
    (allowClaim \<and> (\<exists>w. claimOwner db' ns = Some w \<and> mayBind I os c w \<and>
       cGet c' ''owner_org_id'' = Some (GStr w))) \<or>
    (\<not> allowClaim \<and> resolveOwnerOrg db ns = (Inr [], db') \<and> c' = c)"
proof -
  obtain r db1 where r: "resolveOwnerOrg db ns = (r, db1)" by (cases "resolveOwnerOrg db ns")
  show ?thesis
  proof (cases r)
    case (Inl e)
    with assms r show ?thesis
      by (cases e) (auto simp: authorizeNamespaceMutation_def split: if_splits)
  next
    case (Inr owner)
    show ?thesis
    proof (cases "owner = []")
      case False
      with assms r Inr show ?thesis
        by (auto simp: authorizeNamespaceMutation_def authorizeOrgAccess_pass split: if_splits)
    next
      case True
      with assms r Inr have n: "\<not> allowClaim \<Longrightarrow> c' = c \<and> db' = db1"
        and f: "allowClaim \<Longrightarrow> firstPublish I os c ns scope db1 = (Next c', db')"
        by (auto simp: authorizeNamespaceMutation_def)
      show ?thesis
      proof (cases allowClaim)
        case True
        from firstPublish_Next [OF f [OF True]] True show ?thesis by auto
      qed (use n r Inr True in auto)
    qed
  qed
qed

section \<open>Properties\<close>

text \<open>
  Claim C8. The per-organization check implements the documented contract. Access is granted (status 0)
  exactly when the caller holds the admin wildcard, or carries an API key bound to the owning
  organization, or has no bound key and is a member of the owning organization with a role
  granting the scope; otherwise the answer is 403, or 500 on a store failure.
\<close>

theorem authorizeOrgAccess_refines:
  "(fst (authorizeOrgAccess I os c owner scope) = 0 \<longleftrightarrow> qualifies I os c owner scope) \<and>
   fst (authorizeOrgAccess I os c owner scope) \<in> {0, StatusForbidden, StatusInternalServerError}"
proof
  show "fst (authorizeOrgAccess I os c owner scope) = 0 \<longleftrightarrow> qualifies I os c owner scope"
    by (rule authorizeOrgAccess_iff)
  show "fst (authorizeOrgAccess I os c owner scope) \<in> {0, StatusForbidden, StatusInternalServerError}"
    using memberAccess_status [of I os c owner scope]
    by (auto simp: authorizeOrgAccess_def split: option.splits gval.splits)
qed

lemma claimed_guard:
  assumes "lookupClaim db ns = Some cl" and "noRelease db" and "clOrganizationID cl \<noteq> []"
    and "authorizeNamespaceMutation I os c ns scope allowClaim db = (Next c', db')"
  shows "qualifies I os c (clOrganizationID cl) scope \<and>
    cGet c' ''owner_org_id'' = Some (GStr (clOrganizationID cl)) \<and> lookupClaim db' ns = Some cl"
proof -
  obtain r db1 where r: "resolveOwnerOrg db ns = (r, db1)" by (cases "resolveOwnerOrg db ns")
  from resolveOwnerOrg_claim [OF r assms(2,1)]
  have "r = Inr (clOrganizationID cl) \<or> (\<exists>e. r = Inl (OwnershipDbError e))" and "lookupClaim db1 ns = Some cl"
    by blast+
  with assms(3,4) r show ?thesis
    by (auto simp: authorizeNamespaceMutation_def authorizeOrgAccess_pass split: if_splits)
qed

text \<open>
  Claim C1. No mutation of another organization's namespace. While a claim for the namespace exists, a
  request passes the guard, with or without the first-publish permission, only if the caller
  qualifies for the claiming organization; that organization is what the guard hands to the
  handler, and the claim is still there afterwards, whatever other requests claimed in between.
\<close>

theorem claimed_namespace_protected:
  assumes "lookupClaim db ns = Some cl" and "noRelease db" and "clOrganizationID cl \<noteq> []"
    and "authorizeNamespaceMutation I os c ns scope allowClaim db = (Next c', db')"
  shows "qualifies I os c (clOrganizationID cl) scope \<and>
    cGet c' ''owner_org_id'' = Some (GStr (clOrganizationID cl)) \<and> lookupClaim db' ns = Some cl"
  using claimed_guard [OF assms] .

definition ownedDb :: regdb where
  "ownedDb = exDb\<lparr>dbClaims := [\<lparr>clNamespace = ''acme'', clOrganizationID = ''org1'', clClaimedBy = None,
     clCreatedAt = 0\<rparr>], dbSched := []\<rparr>"

lemma ownedDb_simps [simp]:
  "dbSched ownedDb = []"
  "lookupClaim ownedDb ''acme'' = Some \<lparr>clNamespace = ''acme'', clOrganizationID = ''org1'',
     clClaimedBy = None, clCreatedAt = 0\<rparr>"
  by (simp_all add: ownedDb_def exDb_def lookupClaim_def)

theorem claimed_namespace_protected_witness:
  "qualifies docIdentity exOrgstore exGin ''org1'' ''modules:write''"
proof -
  have s: "HasScope docIdentity [''modules:write''] ''modules:write''"
    by (simp add: HasScope_def docIdentity_def docHasScope_def)
  have n: "\<not> HasScope docIdentity [''organizations:write''] (idScopeAdmin docIdentity)"
    unfolding HasScope_admin_iff [OF docIdentity_contract] by (simp add: docIdentity_def)
  have a: "authorizeOrgAccess docIdentity exOrgstore exGin ''org1'' ''modules:write'' = (0, [])"
    using s n by (simp add: authorizeOrgAccess_def memberAccess_def exGin_def cGet_def exOrgstore_def)
  have g: "GetClaim ownedDb ''acme'' = (Inr (lookupClaim ownedDb ''acme''), ownedDb)"
    by (simp add: GetClaim_def)
  have "authorizeNamespaceMutation docIdentity exOrgstore exGin ''acme'' ''modules:write'' True ownedDb
      = (Next (cSet exGin ''owner_org_id'' (GStr ''org1'')), ownedDb)"
    using a g by (simp add: authorizeNamespaceMutation_def resolveOwnerOrg_def)
  from claimed_namespace_protected [OF ownedDb_simps(2) _ _ this]
  show ?thesis by (simp add: noRelease_def)
qed


definition freshDb :: regdb where
  "freshDb = exDb\<lparr>dbSched := []\<rparr>"

text \<open>A caller holding a global write scope from elsewhere, a mere reader in \<open>org1\<close>, its only membership.\<close>

definition viewerGin :: gin where
  "viewerGin = exGin\<lparr>ginKeys := [''scopes'' \<mapsto> GStrs [''modules:write''], ''user_id'' \<mapsto> GStr ''u1'']\<rparr>"

definition viewerStore :: orgstore where
  "viewerStore = exOrgstore\<lparr>osGetMemberWithRole := (\<lambda>org u.
     Inr (Some \<lparr>memberRoleTemplateID = Some ''viewer'', memberRoleTemplateName = Some ''viewer'', memberRoleTemplateScopes = [''modules:read'']\<rparr>))\<rparr>"

lemma viewer_first_publish:
  "\<exists>db'. authorizeNamespaceMutation docIdentity viewerStore viewerGin ''newns'' ''modules:write'' True freshDb
     = (Next (cSet viewerGin ''owner_org_id'' (GStr ''org1'')), db') \<and> claimOwner db' ''newns'' = Some ''org1''"
proof -
  have lk: "lookupClaim freshDb ''newns'' = None" "dbSched freshDb = []"
    by (simp_all add: lookupClaim_def freshDb_def exDb_def)
  have own: "resolveOwnerOrg freshDb ''newns'' = (Inr [], freshDb)"
    using lk by (simp add: resolveOwnerOrg_def GetClaim_def ArtifactOrganizations_def artifactOrgs_def
        freshDb_def exDb_def List.map_filter_def)
  have uid: "callerUserID viewerGin = Some ''u1''"
    by (simp add: callerUserID_def viewerGin_def cGet_def)
  have "trimSpace [] = []" by (simp add: trimSpace_def trimLeftSpace_def trimRightSpace_def)
  then have caller: "resolveCallerOrg docIdentity viewerStore viewerGin = (''org1'', 0, [])"
    using uid by (simp add: resolveCallerOrg_def resolveByMembership_def viewerGin_def cGet_def cGetString_def
        viewerStore_def exOrgstore_def)
  obtain cl db' where cl: "ClaimNamespace freshDb ''newns'' ''org1'' (Some ''u1'') = (Inr cl, db')"
    "clOrganizationID cl = ''org1''" "claimOwner db' ''newns'' = Some ''org1''"
    using ClaimNamespace_quiet [OF lk(2,1), of "''org1''" "Some ''u1''"]
    by (auto simp: freshDb_def exDb_def)
  have "ValidateRegistrySegment ''newns'' = Inr ()"
    by (simp add: ValidateRegistrySegment_def segChar_def segStart_def)
  with own caller cl uid show ?thesis
    by (simp add: authorizeNamespaceMutation_def firstPublish_def)
qed


text \<open>
  A first publish does not ask for the write scope in the organization it binds. There is a
  caller without admin whose only membership is as a reader, and who does not qualify for that
  organization with the write scope, whose first publish nevertheless passes the guard and claims
  the namespace for it: on this path membership alone is checked.
\<close>

theorem first_publish_skips_org_scope:
  "\<exists>I os c ns db c' db' w. identity_contract I \<and> claimsOk db \<and> noRelease db \<and> \<not> callerIsAdmin I c \<and>
     \<not> qualifies I os c w ScopeModulesWrite \<and>
     authorizeNamespaceMutation I os c ns ScopeModulesWrite True db = (Next c', db') \<and>
     claimOwner db' ns = Some w"
proof -
  obtain db' where r: "authorizeNamespaceMutation docIdentity viewerStore viewerGin ''newns''
      ''modules:write'' True freshDb = (Next (cSet viewerGin ''owner_org_id'' (GStr ''org1'')), db')"
    and o1: "claimOwner db' ''newns'' = Some ''org1''"
    using viewer_first_publish by blast
  have na: "\<not> callerIsAdmin docIdentity viewerGin"
    by (simp add: callerIsAdmin_def viewerGin_def cGet_def HasScope_admin_iff [OF docIdentity_contract])
      (simp add: docIdentity_def)
  have "keyBinding viewerGin = None" "callerUserID viewerGin = Some ''u1''"
    by (simp_all add: keyBinding_def callerUserID_def viewerGin_def cGet_def)
  moreover have "\<not> HasScope docIdentity [''modules:read''] ''modules:write''"
    by (simp add: HasScope_def docIdentity_def docHasScope_def readWritePairs_def)
  ultimately have nq: "\<not> qualifies docIdentity viewerStore viewerGin ''org1'' ''modules:write''"
    using na by (simp add: qualifies_def memberGrants_def viewerStore_def)
  have "claimsOk freshDb" "noRelease freshDb"
    by (simp_all add: claimsOk_def noRelease_def freshDb_def exDb_def)
  with r o1 na nq docIdentity_contract show ?thesis by blast
qed

lemma resolveOwnerOrg_Inr:
  assumes "resolveOwnerOrg db ns = (Inr w, db')" and "w \<noteq> []"
  shows "claimOwner db' ns = Some w \<or> artifactOrgs db' ns = [w]"
proof -
  obtain g db1 where g: "GetClaim db ns = (g, db1)" by (cases "GetClaim db ns")
  show ?thesis
  proof (cases "\<exists>cl. g = Inr (Some cl)")
    case True
    then obtain cl where cl: "g = Inr (Some cl)" by blast
    with GetClaim_Inr g have "lookupClaim db1 ns = Some cl" by metis
    with assms g cl show ?thesis by (simp add: resolveOwnerOrg_def claimOwner_def)
  next
    case False
    obtain a db2 where a: "ArtifactOrganizations db1 ns = (a, db2)" by (cases "ArtifactOrganizations db1 ns")
    from assms g a False have "a = Inr [w] \<and> db' = db2"
      by (auto simp: resolveOwnerOrg_def split: sum.splits option.splits list.splits)
    with ArtifactOrganizations_Inr [of db1 ns "[w]" db2] a show ?thesis by simp
  qed
qed



end
