(* ===== verification/Authn.thy ===== *)
theory Authn
  imports Prelude
begin

text \<open>
  Authentication: the bearer/cookie middleware (\<^verbatim>\<open>internal/middleware/auth.go\<close>), the revoke-all
  watermarks (\<^verbatim>\<open>internal/db/repositories/user_token_revocation_repository.go\<close>).

  The signature check of a token (\<^verbatim>\<open>auth.ValidateJWT\<close>), the token blocklist, the user and API
  key stores and the bcrypt comparison belong to the external identity module; they are fields
  of the record \<open>authenv\<close>, a parameter. A \<open>nil\<close> repository is \<open>None\<close>. The watermark table is
  the registry's own and is modelled as a map from users to the time before which their tokens
  are revoked, with a flag for a failing query.
\<close>

section \<open>user\_token\_revocation\_repository.go\<close>

record revdb =
  rvWatermark :: "string \<rightharpoonup> int"
  rvFails :: bool

definition RevokeAllUserTokens :: "revdb \<Rightarrow> int \<Rightarrow> string \<Rightarrow> (string + unit) \<times> revdb" where
  "RevokeAllUserTokens db now u =
     (if rvFails db then (Inl ''db'', db)
      else (Inr (), db\<lparr>rvWatermark := (rvWatermark db)(u \<mapsto> now)\<rparr>))"

text \<open>The value and the error are both returned, as in Go: on an error the value is \<open>False\<close>.\<close>

definition TokensRevokedSince :: "revdb \<Rightarrow> string \<Rightarrow> int \<Rightarrow> bool \<times> bool" where
  "TokensRevokedSince db u issuedAt =
     (if rvFails db then (False, True)
      else ((case rvWatermark db u of None \<Rightarrow> False | Some w \<Rightarrow> w > issuedAt), False))"

definition CleanupExpiredWatermarks :: "revdb \<Rightarrow> int \<Rightarrow> int \<Rightarrow> (string + unit) \<times> revdb" where
  "CleanupExpiredWatermarks db now maxTokenTTL =
     (if rvFails db then (Inl ''db'', db)
      else (Inr (), db\<lparr>rvWatermark := (\<lambda>u. case rvWatermark db u of
              None \<Rightarrow> None
            | Some w \<Rightarrow> if w < now - maxTokenTTL then None else Some w)\<rparr>))"

section \<open>The environment\<close>

record authenv =
  aeValidateJWT :: "string \<Rightarrow> string + jwt_claims"
  aeIsTokenRevoked :: "(string \<Rightarrow> bool \<times> bool) option"
  aeUserRevocations :: "revdb option"
  aeGetUserByID :: "string \<Rightarrow> string + string option"
  aeGetAPIKeysByPrefix :: "string \<Rightarrow> string + api_key list"
  aeValidateAPIKey :: "string \<Rightarrow> string \<Rightarrow> bool"
  aeNow :: int

section \<open>auth.go\<close>

fun firstValidKey :: "(string \<Rightarrow> string \<Rightarrow> bool) \<Rightarrow> string \<Rightarrow> api_key list \<Rightarrow> api_key option" where
  "firstValidKey valid provided [] = None"
| "firstValidKey valid provided (k # ks) =
     (if valid provided (keyHash k) then Some k else firstValidKey valid provided ks)"

definition authenticateAPIKey :: "authenv \<Rightarrow> string \<Rightarrow> string \<Rightarrow> string + api_key option" where
  "authenticateAPIKey A provided keyPrefix =
     (case aeGetAPIKeysByPrefix A keyPrefix of
        Inl e \<Rightarrow> Inl e
      | Inr keys \<Rightarrow> Inr (firstValidKey (aeValidateAPIKey A) provided keys))"

definition cookieToken :: "gin \<Rightarrow> string \<Rightarrow> string \<times> bool" where
  "cookieToken c token =
     (if token = [] then
        (case reqCookie (ginReq c) ''tfr_auth_token'' of
           Some v \<Rightarrow> if v \<noteq> [] then (v, True) else ([], False)
         | None \<Rightarrow> ([], False))
      else (token, False))"

definition bearerToken :: "string \<Rightarrow> string" where
  "bearerToken h = trimSpace (trimPrefix h ''Bearer '')"

definition keyPrefixOf :: "string \<Rightarrow> string" where
  "keyPrefixOf token = (if length token > 10 then take 10 token else token)"

definition setUser :: "authenv \<Rightarrow> api_key \<Rightarrow> gin \<Rightarrow> gin" where
  "setUser A k c =
     (case keyUserID k of
        None \<Rightarrow> c
      | Some uid \<Rightarrow>
          (case aeGetUserByID A uid of
             Inr (Some u) \<Rightarrow> cSet (cSet c ''user'' (GUser u)) ''user_id'' (GStr u)
           | _ \<Rightarrow> c))"

definition setKeyContext :: "api_key \<Rightarrow> gin \<Rightarrow> gin" where
  "setKeyContext k c =
     cSet (cSet (cSet (cSet (cSet c ''api_key'' (GAPIKey k)) ''api_key_id'' (GStr (keyID k)))
       ''auth_method'' (GStr ''api_key'')) ''organization_id'' (GStr (keyOrganizationID k)))
       ''scopes'' (GStrs (keyScopes k))"

definition jwtScopes :: "jwt_claims \<Rightarrow> string list" where
  "jwtScopes cl = (case claimScopes cl of None \<Rightarrow> [] | Some s \<Rightarrow> s)"

definition setJWTUser :: "bool \<Rightarrow> string \<Rightarrow> gin \<Rightarrow> gin" where
  "setJWTUser fromCookie u c =
     cSet (cSet (cSet c ''user'' (GUser u)) ''user_id'' (GStr u))
       ''auth_method'' (GStr (if fromCookie then ''jwt_cookie'' else ''jwt''))"

text \<open>The blocklist and watermark checks: the value and error of each, skipped (no revocation,
  no error) when the claim or the repository is absent.\<close>

definition jtiCheck :: "authenv \<Rightarrow> jwt_claims \<Rightarrow> bool \<times> bool" where
  "jtiCheck A cl =
     (case aeIsTokenRevoked A of
        Some f \<Rightarrow> if claimJTI cl \<noteq> [] then f (claimJTI cl) else (False, False)
      | None \<Rightarrow> (False, False))"

definition watermarkCheck :: "authenv \<Rightarrow> jwt_claims \<Rightarrow> bool \<times> bool" where
  "watermarkCheck A cl =
     (case (claimIssuedAt cl, aeUserRevocations A) of
        (Some iat, Some db) \<Rightarrow> TokensRevokedSince db (claimUserID cl) iat
      | _ \<Rightarrow> (False, False))"

definition authJWT :: "authenv \<Rightarrow> bool \<Rightarrow> jwt_claims \<Rightarrow> gin \<Rightarrow> outcome" where
  "authJWT A fromCookie cl c =
     (if snd (jtiCheck A cl) then abortErr StatusInternalServerError ''Auth check failed'' c
      else if fst (jtiCheck A cl) then abortErr StatusUnauthorized ''Token has been revoked'' c
      else if snd (watermarkCheck A cl) then abortErr StatusInternalServerError ''Auth check failed'' c
      else if fst (watermarkCheck A cl) then abortErr StatusUnauthorized ''Token has been revoked'' c
      else (case aeGetUserByID A (claimUserID cl) of
              Inl e \<Rightarrow> abortErr StatusInternalServerError ''Failed to load user'' c
            | Inr None \<Rightarrow> abortErr StatusUnauthorized ''User not found'' c
            | Inr (Some u) \<Rightarrow>
                Next (cSet (cSet (setJWTUser fromCookie u c) ''jwt_claims'' (GClaims cl))
                  ''scopes'' (GStrs (jwtScopes cl)))))"

definition authAPIKey :: "authenv \<Rightarrow> string \<Rightarrow> gin \<Rightarrow> outcome" where
  "authAPIKey A token c =
     (case authenticateAPIKey A token (keyPrefixOf token) of
        Inl e \<Rightarrow> abortErr StatusInternalServerError ''Authentication failed'' c
      | Inr None \<Rightarrow> abortErr StatusUnauthorized ''Invalid credentials'' c
      | Inr (Some k) \<Rightarrow>
          if (case keyExpiresAt k of None \<Rightarrow> False | Some x \<Rightarrow> aeNow A > x)
          then abortErr StatusUnauthorized ''API key expired'' c
          else Next (setUser A k (setKeyContext k c)))"

definition AuthMiddleware :: "authenv \<Rightarrow> gin \<Rightarrow> outcome" where
  "AuthMiddleware A c =
     (let h = reqHeader (ginReq c) ''Authorization'' in
      if h \<noteq> [] \<and> \<not> hasPrefix h ''Bearer ''
      then abortErr StatusUnauthorized (''Authorization header must start with '' @ [CHR 0x27] @ ''Bearer '' @ [CHR 0x27]) c
      else
        let (token, fromCookie) = cookieToken c (if h \<noteq> [] then bearerToken h else []) in
        if token = [] then
          (if cGetString c ''auth_method'' = ''mtls'' then Next c
           else abortErr StatusUnauthorized ''Missing authorization credentials'' c)
        else (case aeValidateJWT A token of
                Inr cl \<Rightarrow> authJWT A fromCookie cl c
              | Inl e \<Rightarrow>
                  if fromCookie then abortErr StatusUnauthorized ''Invalid authentication cookie'' c
                  else authAPIKey A token c))"

definition optionalJWT :: "authenv \<Rightarrow> bool \<Rightarrow> jwt_claims \<Rightarrow> gin \<Rightarrow> gin" where
  "optionalJWT A fromCookie cl c =
     (let revoked = fst (jtiCheck A cl);
          revoked2 = (if \<not> revoked then fst (watermarkCheck A cl) else revoked) in
      if \<not> revoked2 then
        (case aeGetUserByID A (claimUserID cl) of
           Inr (Some u) \<Rightarrow> cSet (setJWTUser fromCookie u c) ''scopes'' (GStrs (jwtScopes cl))
         | _ \<Rightarrow> c)
      else c)"

definition optionalAPIKey :: "authenv \<Rightarrow> string \<Rightarrow> gin \<Rightarrow> gin" where
  "optionalAPIKey A token c =
     (case authenticateAPIKey A token (keyPrefixOf token) of
        Inr (Some k) \<Rightarrow>
          if (case keyExpiresAt k of None \<Rightarrow> True | Some x \<Rightarrow> aeNow A < x)
          then setUser A k (setKeyContext k c) else c
      | _ \<Rightarrow> c)"

definition OptionalAuthMiddleware :: "authenv \<Rightarrow> gin \<Rightarrow> outcome" where
  "OptionalAuthMiddleware A c =
     (let h = reqHeader (ginReq c) ''Authorization'';
          (token, fromCookie) =
            cookieToken c (if h \<noteq> [] \<and> hasPrefix h ''Bearer '' then bearerToken h else []) in
      if token = [] then Next c
      else (case aeValidateJWT A token of
              Inr cl \<Rightarrow> Next (optionalJWT A fromCookie cl c)
            | Inl e \<Rightarrow> if fromCookie then Next c else Next (optionalAPIKey A token c)))"

section \<open>Lemmas\<close>

lemmas authn_defs = authJWT_def authAPIKey_def AuthMiddleware_def cookieToken_def

lemma firstValidKey_Some:
  "firstValidKey v p ks = Some k \<Longrightarrow> k \<in> set ks \<and> v p (keyHash k)"
  by (induction ks) (auto split: if_splits)

lemma firstValidKey_None: "firstValidKey v p ks = None \<longleftrightarrow> (\<forall>k \<in> set ks. \<not> v p (keyHash k))"
  by (induction ks) auto

lemma authJWT_Next:
  "authJWT A fc cl c = Next c' \<Longrightarrow>
   \<not> fst (jtiCheck A cl) \<and> \<not> fst (watermarkCheck A cl) \<and> \<not> snd (jtiCheck A cl) \<and> \<not> snd (watermarkCheck A cl) \<and>
   (\<exists>u. aeGetUserByID A (claimUserID cl) = Inr (Some u) \<and> cGet c' ''user_id'' = Some (GStr u)) \<and>
   cGet c' ''scopes'' = Some (GStrs (jwtScopes cl)) \<and>
   cGet c' ''auth_method'' = Some (GStr (if fc then ''jwt_cookie'' else ''jwt''))"
  by (auto simp: authJWT_def setJWTUser_def split: if_splits sum.splits option.splits)

lemma setUser_scopes [simp]: "cGet (setUser A k c) ''scopes'' = cGet c ''scopes''"
  by (simp add: setUser_def split: option.splits sum.splits)

lemma setUser_method [simp]: "cGet (setUser A k c) ''auth_method'' = cGet c ''auth_method''"
  by (simp add: setUser_def split: option.splits sum.splits)

lemma setUser_org [simp]: "cGet (setUser A k c) ''organization_id'' = cGet c ''organization_id''"
  by (simp add: setUser_def split: option.splits sum.splits)

lemma setUser_key [simp]: "cGet (setUser A k c) ''api_key'' = cGet c ''api_key''"
  by (simp add: setUser_def split: option.splits sum.splits)

lemma setKeyContext_keys [simp]:
  "cGet (setKeyContext k c) ''scopes'' = Some (GStrs (keyScopes k))"
  "cGet (setKeyContext k c) ''auth_method'' = Some (GStr ''api_key'')"
  "cGet (setKeyContext k c) ''organization_id'' = Some (GStr (keyOrganizationID k))"
  "cGet (setKeyContext k c) ''api_key'' = Some (GAPIKey k)"
  by (simp_all add: setKeyContext_def)

lemma authAPIKey_Next:
  assumes "authAPIKey A token c = Next c'"
  shows "\<exists>k keys. aeGetAPIKeysByPrefix A (keyPrefixOf token) = Inr keys \<and> k \<in> set keys \<and>
    aeValidateAPIKey A token (keyHash k) \<and> (\<forall>x. keyExpiresAt k = Some x \<longrightarrow> aeNow A \<le> x) \<and>
    cGet c' ''scopes'' = Some (GStrs (keyScopes k)) \<and> cGet c' ''api_key'' = Some (GAPIKey k) \<and>
    cGet c' ''auth_method'' = Some (GStr ''api_key'') \<and>
    cGet c' ''organization_id'' = Some (GStr (keyOrganizationID k))"
proof -
  from assms obtain k where k: "authenticateAPIKey A token (keyPrefixOf token) = Inr (Some k)"
    "\<not> (case keyExpiresAt k of None \<Rightarrow> False | Some x \<Rightarrow> aeNow A > x)"
    "c' = setUser A k (setKeyContext k c)"
    by (auto simp: authAPIKey_def split: sum.splits option.splits if_splits)
  from k(1) obtain keys where "aeGetAPIKeysByPrefix A (keyPrefixOf token) = Inr keys"
    "k \<in> set keys" "aeValidateAPIKey A token (keyHash k)"
    by (auto simp: authenticateAPIKey_def split: sum.splits dest: firstValidKey_Some)
  moreover from k(2) have "\<forall>x. keyExpiresAt k = Some x \<longrightarrow> aeNow A \<le> x" by (auto split: option.splits)
  ultimately show ?thesis using k(3) by auto
qed

text \<open>The credential a request presents: the bearer token when there is one, else the cookie.\<close>

definition presented :: "gin \<Rightarrow> string \<times> bool" where
  "presented c = (let h = reqHeader (ginReq c) ''Authorization'' in
     cookieToken c (if h \<noteq> [] then bearerToken h else []))"

lemma AuthMiddleware_Next:
  assumes "AuthMiddleware A c = Next c'"
  shows "fst (presented c) = [] \<and> c' = c \<and> cGetString c ''auth_method'' = ''mtls'' \<or>
    (\<exists>cl. aeValidateJWT A (fst (presented c)) = Inr cl \<and> authJWT A (snd (presented c)) cl c = Next c') \<or>
    \<not> snd (presented c) \<and> (\<exists>e. aeValidateJWT A (fst (presented c)) = Inl e) \<and>
      authAPIKey A (fst (presented c)) c = Next c'"
proof -
  obtain token fc where t: "presented c = (token, fc)" by (cases "presented c")
  show ?thesis
  proof (cases "token = []")
    case True
    with assms t show ?thesis by (simp add: AuthMiddleware_def presented_def Let_def split: if_splits)
  next
    case False
    with assms t show ?thesis
      by (cases "aeValidateJWT A token") (auto simp: AuthMiddleware_def presented_def Let_def split: if_splits)
  qed
qed

lemma ginReq_setUser [simp]: "ginReq (setUser A k c) = ginReq c"
  by (simp add: setUser_def split: option.splits sum.splits)

lemma authJWT_request:
  "authJWT A fc cl c = Next c' \<Longrightarrow> ginReq c' = ginReq c \<and> cGetString c' ''auth_method'' = (if fc then ''jwt_cookie'' else ''jwt'')"
  by (auto simp: authJWT_def setJWTUser_def split: if_splits sum.splits option.splits)

section \<open>Properties\<close>

text \<open>
  Claim C5. The middleware lets a request through in three ways only: it carries no credential
  and was already authenticated by its client certificate; or its credential is a valid token,
  neither on the blocklist nor older than its user's revoke-all watermark (both queries having
  succeeded), whose user exists, and the handler then sees that user and exactly the token's
  scopes; or its credential is a bearer token (never a cookie) that is the secret of an API key
  listed under the token's prefix and not past its expiry, and the handler then sees exactly
  that key, its organization and its scopes.
\<close>

theorem AuthMiddleware_sound:
  assumes "AuthMiddleware A c = Next c'"
  shows "fst (presented c) = [] \<and> c' = c \<and> cGetString c ''auth_method'' = ''mtls'' \<or>
    (\<exists>cl u. aeValidateJWT A (fst (presented c)) = Inr cl \<and>
       jtiCheck A cl = (False, False) \<and> watermarkCheck A cl = (False, False) \<and>
       aeGetUserByID A (claimUserID cl) = Inr (Some u) \<and> cGet c' ''user_id'' = Some (GStr u) \<and>
       cGet c' ''scopes'' = Some (GStrs (jwtScopes cl))) \<or>
    (\<exists>k keys. \<not> snd (presented c) \<and>
       aeGetAPIKeysByPrefix A (keyPrefixOf (fst (presented c))) = Inr keys \<and> k \<in> set keys \<and>
       aeValidateAPIKey A (fst (presented c)) (keyHash k) \<and>
       (\<forall>x. keyExpiresAt k = Some x \<longrightarrow> aeNow A \<le> x) \<and>
       cGet c' ''api_key'' = Some (GAPIKey k) \<and> cGet c' ''scopes'' = Some (GStrs (keyScopes k)) \<and>
       cGet c' ''organization_id'' = Some (GStr (keyOrganizationID k)))"
  using AuthMiddleware_Next[OF assms]
proof (elim disjE conjE exE)
  fix cl assume v: "aeValidateJWT A (fst (presented c)) = Inr cl"
    and n: "authJWT A (snd (presented c)) cl c = Next c'"
  from authJWT_Next[OF n] have "jtiCheck A cl = (False, False)" "watermarkCheck A cl = (False, False)"
    by (simp_all add: prod_eq_iff)
  with v authJWT_Next[OF n] show ?thesis by blast
next
  assume b: "\<not> snd (presented c)" and k: "authAPIKey A (fst (presented c)) c = Next c'"
  show ?thesis using authAPIKey_Next[OF k] b by blast
qed blast

definition exKey :: api_key where
  "exKey = \<lparr>keyID = ''k1'', keyHash = ''hash'', keyOrganizationID = ''o1'', keyUserID = None,
     keyScopes = [''modules:read''], keyExpiresAt = Some 100\<rparr>"

definition exReq :: "string \<Rightarrow> string option \<Rightarrow> gin" where
  "exReq auth cookie = \<lparr>ginReq = \<lparr>reqMethod = ''GET'',
       reqHeader = (\<lambda>h. if h = ''Authorization'' then auth else []),
       reqCookie = (\<lambda>n. if n = ''tfr_auth_token'' then cookie else None),
       reqParam = (\<lambda>_. []), reqFullPath = ''/x'', reqClientIP = ''1.2.3.4'', reqRemoteAddr = []\<rparr>,
     ginKeys = Map.empty, ginHeaders = []\<rparr>"

definition exClaims :: jwt_claims where
  "exClaims = \<lparr>claimUserID = ''u1'', claimJTI = ''j1'', claimIssuedAt = Some 1000000000,
     claimScopes = Some [''modules:read'']\<rparr>"

text \<open>One key whose secret is \<^verbatim>\<open>sec\<close>, one token \<^verbatim>\<open>jwt\<close>, one user.\<close>

definition exEnv :: "(string \<Rightarrow> bool \<times> bool) option \<Rightarrow> revdb option \<Rightarrow> int \<Rightarrow> authenv" where
  "exEnv block wm now = \<lparr>aeValidateJWT = (\<lambda>t. if t = ''jwt'' then Inr exClaims else Inl ''bad''),
     aeIsTokenRevoked = block, aeUserRevocations = wm,
     aeGetUserByID = (\<lambda>u. Inr (if u = ''u1'' then Some u else None)),
     aeGetAPIKeysByPrefix = (\<lambda>p. Inr (if p = ''sec'' then [exKey] else [])),
     aeValidateAPIKey = (\<lambda>s h. s = ''sec'' \<and> h = ''hash''), aeNow = now\<rparr>"

lemma bearerToken_ex [simp]: "bearerToken ''Bearer sec'' = ''sec''" "bearerToken ''Bearer jwt'' = ''jwt''"
  by code_simp+

lemma presented_ex [simp]:
  "presented (exReq ''Bearer sec'' None) = (''sec'', False)"
  "presented (exReq ''Bearer jwt'' None) = (''jwt'', False)"
  "presented (exReq [] (Some ''sec'')) = (''sec'', True)"
  by (simp_all add: presented_def exReq_def cookieToken_def)

lemma AuthMiddleware_ex:
  "AuthMiddleware (exEnv None None 50) (exReq ''Bearer sec'' None) =
   Next (setUser (exEnv None None 50) exKey (setKeyContext exKey (exReq ''Bearer sec'' None)))"
  by (simp add: AuthMiddleware_def authAPIKey_def authenticateAPIKey_def exEnv_def exReq_def hasPrefix_def
      cookieToken_def keyPrefixOf_def exKey_def)

theorem AuthMiddleware_sound_witness:
  "\<exists>k keys. aeGetAPIKeysByPrefix (exEnv None None 50) ''sec'' = Inr keys \<and> k \<in> set keys \<and>
     (\<forall>x. keyExpiresAt k = Some x \<longrightarrow> 50 \<le> x)"
  using AuthMiddleware_sound[OF AuthMiddleware_ex]
  by (auto simp: keyPrefixOf_def) (auto simp: exEnv_def)

section \<open>Revoking all tokens of a user\<close>

text \<open>The writes to the watermark table, with the time of each, and a run of them.\<close>

datatype revop = RevokeAll int string | Cleanup int int

fun revStep :: "revop \<Rightarrow> revdb \<Rightarrow> revdb" where
  "revStep (RevokeAll now u) db = snd (RevokeAllUserTokens db now u)"
| "revStep (Cleanup now ttl) db = snd (CleanupExpiredWatermarks db now ttl)"

definition revRun :: "revop list \<Rightarrow> revdb \<Rightarrow> revdb" where
  "revRun ops db = fold revStep ops db"

text \<open>The writes that follow a revocation at \<open>t\<close> while a token issued at \<open>iat\<close> can still be
  structurally valid: later revocations, and clean-ups whose horizon has not passed \<open>iat\<close>.\<close>

fun followsWithin :: "int \<Rightarrow> int \<Rightarrow> revop \<Rightarrow> bool" where
  "followsWithin t iat (RevokeAll now u) = (t \<le> now)"
| "followsWithin t iat (Cleanup now ttl) = (now \<le> iat + ttl)"

lemma revStep_keeps:
  assumes "rvWatermark db u = Some w" "iat < w" "t \<le> w" "iat < t" "followsWithin t iat op"
  shows "\<exists>w'. rvWatermark (revStep op db) u = Some w' \<and> iat < w' \<and> t \<le> w'"
  using assms by (cases op) (auto simp: RevokeAllUserTokens_def CleanupExpiredWatermarks_def)

lemma revRun_keeps:
  assumes "rvWatermark db u = Some w" "t \<le> w" "iat < t" "\<forall>op \<in> set ops. followsWithin t iat op"
  shows "\<exists>w'. rvWatermark (revRun ops db) u = Some w' \<and> iat < w'"
  using assms
proof (induction ops arbitrary: db w)
  case Nil
  then show ?case by (simp add: revRun_def)
next
  case (Cons op ops)
  from Cons.prems have "iat < w" "followsWithin t iat op" by auto
  from revStep_keeps[OF Cons.prems(1) this(1) Cons.prems(2,3) this(2)] obtain w' where
    "rvWatermark (revStep op db) u = Some w'" "t \<le> w'" by blast
  with Cons.IH[of "revStep op db" w'] Cons.prems show ?case by (simp add: revRun_def)
qed

lemma rvFails_revRun [simp]: "rvFails (revRun ops db) = rvFails db"
proof (induction ops arbitrary: db)
  case (Cons op ops)
  have "rvFails (revStep op db) = rvFails db"
    by (cases op) (simp_all add: RevokeAllUserTokens_def CleanupExpiredWatermarks_def)
  with Cons show ?case by (simp add: revRun_def)
qed (simp add: revRun_def)

text \<open>
  Claim C13. Revoking all tokens of a user works: a token minted at any instant before the
  revocation (its issued-at claim being that instant floored to whole seconds) is refused by the
  authentication middleware, with 401 or, if the blocklist query fails, 500, after any sequence
  of later revocations and of clean-ups run while a token of that age can still be unexpired
  under the clean-up's lifetime bound.
\<close>

theorem RevokeAllUserTokens_effective:
  assumes revoke: "RevokeAllUserTokens db now u = (Inr (), db')"
    and minted: "minted < now" "claimIssuedAt cl = Some ((minted div 1000000000) * 1000000000)"
    and user: "claimUserID cl = u"
    and later: "\<forall>op \<in> set ops. followsWithin now ((minted div 1000000000) * 1000000000) op"
    and env: "aeUserRevocations A = Some (revRun ops db')" "aeValidateJWT A (fst (presented c)) = Inr cl"
      "fst (presented c) \<noteq> []"
  shows "\<not> passes (AuthMiddleware A c) \<and> outStatus (AuthMiddleware A c) \<in> {401, 500}"
proof -
  let ?iat = "(minted div 1000000000) * 1000000000"
  have "?iat \<le> minted" by (simp add: minus_mod_eq_div_mult [symmetric])
  with minted have lt: "?iat < now" by simp
  have ok: "\<not> rvFails db'" "rvWatermark db' u = Some now"
    using revoke by (auto simp: RevokeAllUserTokens_def split: if_splits)
  from revRun_keeps[OF ok(2) order_refl lt later] obtain w' where
    w': "rvWatermark (revRun ops db') u = Some w'" "?iat < w'" by blast
  have wc: "watermarkCheck A cl = (True, False)"
    using ok w' minted user env by (simp add: watermarkCheck_def TokensRevokedSince_def)
  have "AuthMiddleware A c = authJWT A (snd (presented c)) cl c \<or>
    AuthMiddleware A c = abortErr StatusUnauthorized (''Authorization header must start with '' @ [CHR 0x27] @ ''Bearer '' @ [CHR 0x27]) c"
    using env by (auto simp: AuthMiddleware_def presented_def Let_def split: prod.splits if_splits)
  moreover have "\<not> passes (authJWT A (snd (presented c)) cl c) \<and>
      outStatus (authJWT A (snd (presented c)) cl c) \<in> {401, 500}"
    by (simp add: authJWT_def wc)
  ultimately show ?thesis by auto
qed

theorem RevokeAllUserTokens_effective_witness:
  "\<not> passes (AuthMiddleware (exEnv None (Some (revRun [Cleanup 90001000000000 90000000000000]
       (snd (RevokeAllUserTokens \<lparr>rvWatermark = Map.empty, rvFails = False\<rparr> 1500000000 ''u1'')))) 0)
     (exReq ''Bearer jwt'' None))"
  using RevokeAllUserTokens_effective[of "\<lparr>rvWatermark = Map.empty, rvFails = False\<rparr>" 1500000000 "''u1''"
      "snd (RevokeAllUserTokens \<lparr>rvWatermark = Map.empty, rvFails = False\<rparr> 1500000000 ''u1'')"
      1499999999 exClaims "[Cleanup 90001000000000 90000000000000]"]
  by (simp add: exClaims_def[symmetric] RevokeAllUserTokens_def exEnv_def) (simp add: exClaims_def exEnv_def)

section \<open>Optional authentication\<close>

text \<open>
  The optional variant never stops a request, and it is at most as generous as the
  mandatory one as long as the revocation queries succeed: whenever it attaches a user or a key to an unauthenticated request, the mandatory
  middleware lets the same request through with the same scopes.
\<close>

theorem OptionalAuthMiddleware_safe:
  assumes ok: "\<And>cl. \<not> snd (jtiCheck A cl) \<and> \<not> snd (watermarkCheck A cl)"
    and opt: "OptionalAuthMiddleware A c = r" and fresh: "cGet c ''scopes'' = None"
    and hdr: "reqHeader (ginReq c) ''Authorization'' = [] \<or>
      hasPrefix (reqHeader (ginReq c) ''Authorization'') ''Bearer ''"
  shows "\<exists>c'. r = Next c' \<and>
    (\<forall>s. cGet c' ''scopes'' = Some s \<longrightarrow>
       (\<exists>c''. AuthMiddleware A c = Next c'' \<and> cGet c'' ''scopes'' = Some s))"
proof -
  let ?h = "reqHeader (ginReq c) ''Authorization''"
  obtain token fc where t: "presented c = (token, fc)" by (cases "presented c")
  have t': "cookieToken c (if ?h \<noteq> [] \<and> hasPrefix ?h ''Bearer '' then bearerToken ?h else []) = (token, fc)"
    using t hdr by (auto simp: presented_def Let_def)
  have am: "token \<noteq> [] \<Longrightarrow> AuthMiddleware A c = (case aeValidateJWT A token of
      Inr cl \<Rightarrow> authJWT A fc cl c
    | Inl e \<Rightarrow> if fc then abortErr StatusUnauthorized ''Invalid authentication cookie'' c
             else authAPIKey A token c)"
    using t hdr by (auto simp: AuthMiddleware_def presented_def Let_def split: sum.splits)
  have jwt: "cGet (optionalJWT A fc cl c) ''scopes'' = Some s \<Longrightarrow>
      \<exists>c''. authJWT A fc cl c = Next c'' \<and> cGet c'' ''scopes'' = Some s" for cl s
    using ok[of cl] fresh
    by (auto simp: optionalJWT_def authJWT_def Let_def split: if_splits sum.splits option.splits)
  have key: "cGet (optionalAPIKey A token c) ''scopes'' = Some s \<Longrightarrow>
      \<exists>c''. authAPIKey A token c = Next c'' \<and> cGet c'' ''scopes'' = Some s" for s
    using fresh
    by (auto simp: optionalAPIKey_def authAPIKey_def split: if_splits sum.splits option.splits)
  show ?thesis
  proof (cases "token = []")
    case True
    with opt t' fresh show ?thesis by (auto simp: OptionalAuthMiddleware_def Let_def)
  next
    case False
    with opt t' fresh am jwt key show ?thesis
      by (cases "aeValidateJWT A token") (auto simp: OptionalAuthMiddleware_def Let_def)
  qed
qed

theorem OptionalAuthMiddleware_safe_witness:
  "\<exists>c'. OptionalAuthMiddleware (exEnv None None 50) (exReq ''Bearer sec'' None) = Next c' \<and>
     cGet c' ''scopes'' = Some (GStrs [''modules:read''])"
proof -
  have "\<exists>c'. OptionalAuthMiddleware (exEnv None None 50) (exReq ''Bearer sec'' None) = Next c' \<and>
    (\<forall>s. cGet c' ''scopes'' = Some s \<longrightarrow>
       (\<exists>c''. AuthMiddleware (exEnv None None 50) (exReq ''Bearer sec'' None) = Next c'' \<and>
          cGet c'' ''scopes'' = Some s))"
    by (rule OptionalAuthMiddleware_safe)
      (auto simp: exEnv_def jtiCheck_def watermarkCheck_def exReq_def cGet_def hasPrefix_def split: option.splits)
  then show ?thesis
    by (simp add: OptionalAuthMiddleware_def exEnv_def exReq_def hasPrefix_def cookieToken_def
        optionalAPIKey_def authenticateAPIKey_def keyPrefixOf_def exKey_def)
qed

text \<open>
  Optional authentication fails open: when the revocation query fails, a token whose
  user has revoked all tokens still authenticates an optionally-authenticated request with its
  full scopes, although the mandatory middleware answers the same request with 500.
\<close>

theorem optional_auth_fails_open:
  "\<exists>A c c'. OptionalAuthMiddleware A c = Next c' \<and> cGet c' ''scopes'' = Some (GStrs [''modules:read'']) \<and>
     (\<exists>db. aeUserRevocations A = Some db \<and> rvWatermark db ''u1'' = Some 2000000000 \<and>
        aeValidateJWT A (fst (presented c)) = Inr exClaims) \<and>
     outStatus (AuthMiddleware A c) = 500"
proof -
  let ?db = "\<lparr>rvWatermark = [''u1'' \<mapsto> 2000000000], rvFails = True\<rparr>"
  let ?A = "exEnv None (Some ?db) 0" and ?c = "exReq ''Bearer jwt'' None"
  have p: "cookieToken ?c ''jwt'' = (''jwt'', False)" "reqHeader (ginReq ?c) ''Authorization'' = ''Bearer jwt''"
    by (simp_all add: exReq_def cookieToken_def)
  have w: "watermarkCheck ?A exClaims = (False, True)" "jtiCheck ?A exClaims = (False, False)"
    by (simp_all add: watermarkCheck_def jtiCheck_def TokensRevokedSince_def exEnv_def exClaims_def)
  have v: "aeValidateJWT ?A ''jwt'' = Inr exClaims" "aeUserRevocations ?A = Some ?db"
    "aeGetUserByID ?A (claimUserID exClaims) = Inr (Some ''u1'')"
    by (simp_all add: exEnv_def exClaims_def)
  have o: "OptionalAuthMiddleware ?A ?c = Next (optionalJWT ?A False exClaims ?c)"
    by (simp add: OptionalAuthMiddleware_def p v hasPrefix_def)
  have s: "cGet (optionalJWT ?A False exClaims ?c) ''scopes'' = Some (GStrs [''modules:read''])"
    by (simp add: optionalJWT_def w v Let_def jwtScopes_def) (simp add: exClaims_def)
  have a: "outStatus (AuthMiddleware ?A ?c) = 500"
    by (simp add: AuthMiddleware_def p v hasPrefix_def authJWT_def w)
  show ?thesis using o s a v by (intro exI[of _ ?A] exI[of _ ?c] exI[of _ "optionalJWT ?A False exClaims ?c"]) simp
qed

end
