(* ===== verification/StateStore.thy ===== *)
theory StateStore
  imports Prelude
begin

text \<open>
  The login state store and the two browser callbacks that consume it:
  \<^verbatim>\<open>internal/auth/statestore.go\<close>, \<^verbatim>\<open>internal/auth/statestore_memory.go\<close>, and from
  \<^verbatim>\<open>internal/api/admin/auth.go\<close> the state validation of \<^verbatim>\<open>CallbackHandler\<close> and the
  assertion handling of \<^verbatim>\<open>SAMLACSHandler\<close>.

  The in-process store is a map from keys to entries with an expiry. Every reading of the
  clock is an argument: \<^verbatim>\<open>Reserve\<close> reads it three times. The handlers call the store through
  the \<^verbatim>\<open>StateStore\<close> interface, here a record of operations. The SAML library's check of a
  response is a parameter.
\<close>

section \<open>statestore.go\<close>

record session =
  ssState :: string
  ssCreatedAt :: int
  ssRedirectURL :: string
  ssProviderType :: string
  ssNonce :: string
  ssCodeVerifier :: string
  ssSAMLRequestID :: string

type_synonym clock3 = "int \<times> int \<times> int"

record 's state_store_ops =
  opSave :: "string \<Rightarrow> session \<Rightarrow> int \<Rightarrow> int \<Rightarrow> 's \<Rightarrow> (string + unit) \<times> 's"
  opLoad :: "string \<Rightarrow> int \<Rightarrow> 's \<Rightarrow> (string + session option) \<times> 's"
  opDelete :: "string \<Rightarrow> 's \<Rightarrow> (string + unit) \<times> 's"
  opReserve :: "string \<Rightarrow> int \<Rightarrow> clock3 \<Rightarrow> 's \<Rightarrow> (string + bool) \<times> 's"

section \<open>statestore\_memory.go\<close>

record memoryEntry =
  meData :: session
  meExpiresAt :: int

type_synonym memstore = "string \<rightharpoonup> memoryEntry"

definition NewMemoryStateStore :: memstore where
  "NewMemoryStateStore = Map.empty"

text \<open>One tick of the clean-up goroutine.\<close>

definition cleanup :: "int \<Rightarrow> memstore \<Rightarrow> memstore" where
  "cleanup now s = (\<lambda>k. case s k of None \<Rightarrow> None
     | Some e \<Rightarrow> if now > meExpiresAt e then None else Some e)"

definition Save :: "string \<Rightarrow> session \<Rightarrow> int \<Rightarrow> int \<Rightarrow> memstore \<Rightarrow> (string + unit) \<times> memstore" where
  "Save state data ttl now s = (Inr (), s(state \<mapsto> \<lparr>meData = data, meExpiresAt = now + ttl\<rparr>))"

definition Load :: "string \<Rightarrow> int \<Rightarrow> memstore \<Rightarrow> (string + session option) \<times> memstore" where
  "Load state now s =
     (case s state of
        None \<Rightarrow> (Inr None, s)
      | Some e \<Rightarrow>
          if now > meExpiresAt e then (Inr None, s(state := None))
          else (Inr (Some (meData e)), s))"

definition Delete :: "string \<Rightarrow> memstore \<Rightarrow> (string + unit) \<times> memstore" where
  "Delete state s = (Inr (), s(state := None))"

definition Reserve :: "string \<Rightarrow> int \<Rightarrow> clock3 \<Rightarrow> memstore \<Rightarrow> (string + bool) \<times> memstore" where
  "Reserve key ttl clk s =
     (let (now1, now2, now3) = clk in
      if (case s key of None \<Rightarrow> False | Some e \<Rightarrow> now1 < meExpiresAt e) then (Inr False, s)
      else (Inr True, s(key \<mapsto>
        \<lparr>meData = \<lparr>ssState = key, ssCreatedAt = now2, ssRedirectURL = [], ssProviderType = [],
           ssNonce = [], ssCodeVerifier = [], ssSAMLRequestID = []\<rparr>,
         meExpiresAt = now3 + ttl\<rparr>)))"

definition MemoryStateStore :: "memstore state_store_ops" where
  "MemoryStateStore = \<lparr>opSave = Save, opLoad = Load, opDelete = Delete, opReserve = Reserve\<rparr>"

lemma MemoryStateStore_sel [simp]:
  "opSave MemoryStateStore = Save" "opLoad MemoryStateStore = Load"
  "opDelete MemoryStateStore = Delete" "opReserve MemoryStateStore = Reserve"
  by (simp_all add: MemoryStateStore_def)

section \<open>auth.go: CallbackHandler, the login state\<close>

abbreviation second :: int where "second \<equiv> 1000000000"
abbreviation minute :: int where "minute \<equiv> 60 * second"

text \<open>The error code of the redirect, or the login session that continues.\<close>

definition callbackLoad :: "'s state_store_ops \<Rightarrow> string \<Rightarrow> int \<Rightarrow> int \<Rightarrow> 's \<Rightarrow> (string + session) \<times> 's" where
  "callbackLoad S state now1 now2 st =
     (case opLoad S state now1 st of
        (Inl e, st') \<Rightarrow> (Inl ''state_error'', st')
      | (Inr None, st') \<Rightarrow> (Inl ''invalid_state'', st')
      | (Inr (Some sess), st') \<Rightarrow>
          if now2 - ssCreatedAt sess > 5 * minute then (Inl ''state_expired'', st') else (Inr sess, st'))"

definition callbackState :: "'s state_store_ops \<Rightarrow> string \<Rightarrow> int \<Rightarrow> int \<Rightarrow> 's \<Rightarrow> (string + session) \<times> 's" where
  "callbackState S state now1 now2 st =
     (case callbackLoad S state now1 now2 st of
        (Inl e, st') \<Rightarrow> (Inl e, st')
      | (Inr sess, st') \<Rightarrow> (Inr sess, snd (opDelete S state st')))"

section \<open>auth.go: SAMLACSHandler\<close>

record saml_user =
  suEmail :: string
  suNameID :: string

record assertion_meta =
  amID :: string
  amNotOnOrAfter :: int

text \<open>
  A configured identity provider: whether unsolicited responses are allowed, and the library's
  verdict on a posted response given the request IDs it may answer.
\<close>

record saml_provider =
  spAllowIDPInitiated :: bool
  spValidateResponse :: "string \<Rightarrow> string list \<Rightarrow> string + saml_user \<times> assertion_meta option"

text \<open>The provider and request IDs a relay state selects; the state is consumed.\<close>

definition relaySelect ::
  "'s state_store_ops \<Rightarrow> (string \<times> saml_provider) list \<Rightarrow> string \<Rightarrow> int \<Rightarrow> 's \<Rightarrow>
   ((string \<times> saml_provider) option \<times> string list) \<times> 's" where
  "relaySelect S providers relayState now st =
     (if relayState = [] then ((None, []), st)
      else (case opLoad S relayState now st of
              (Inr (Some sess), st') \<Rightarrow>
                ((if hasPrefix (ssProviderType sess) ''saml:'' then
                    (let idp = trimPrefix (ssProviderType sess) ''saml:''
                     in map_option (Pair idp) (map_of providers idp))
                  else None,
                  if ssSAMLRequestID sess \<noteq> [] then [ssSAMLRequestID sess] else []),
                 snd (opDelete S relayState st'))
            | (_, st') \<Rightarrow> ((None, []), st')))"

definition assertionKey :: "string \<Rightarrow> string" where
  "assertionKey aid = ''saml_assertion:'' @ aid"

definition replayTTL :: "int \<Rightarrow> int \<Rightarrow> int" where
  "replayTTL notOnOrAfter now =
     (let ttl = notOnOrAfter - now in if ttl \<le> 0 \<or> ttl > 15 * minute then 15 * minute else ttl)"

text \<open>The replay check: an error code, or nothing when the login may go on.\<close>

definition replayCheck ::
  "'s state_store_ops \<Rightarrow> saml_provider \<Rightarrow> assertion_meta option \<Rightarrow> int \<Rightarrow> clock3 \<Rightarrow> 's \<Rightarrow>
   string option \<times> 's" where
  "replayCheck S p meta now clk st =
     (case meta of
        Some mt \<Rightarrow>
          if spAllowIDPInitiated p \<and> amID mt \<noteq> [] then
            (case opReserve S (assertionKey (amID mt)) (replayTTL (amNotOnOrAfter mt) now) clk st of
               (Inl e, st') \<Rightarrow> (Some ''assertion_invalid'', st')
             | (Inr False, st') \<Rightarrow> (Some ''assertion_replayed'', st')
             | (Inr True, st') \<Rightarrow> (None, st'))
          else (None, st)
      | None \<Rightarrow> (None, st))"

record acs_request =
  acsRelayState :: string
  acsResponse :: string
  acsLoadAt :: int
  acsTTLAt :: int
  acsReserveAt :: clock3

text \<open>
  The handler up to the point where the asserted identity is accepted: the subject, or the
  error code of the redirect. With no provider selected the first one of the map's iteration
  is used; the list of providers has that order.
\<close>

definition SAMLACSHandler ::
  "'s state_store_ops \<Rightarrow> (string \<times> saml_provider) list \<Rightarrow> acs_request \<Rightarrow> 's \<Rightarrow> (string + string) \<times> 's" where
  "SAMLACSHandler S providers rq st =
     (let ((sel, ids), st1) = relaySelect S providers (acsRelayState rq) (acsLoadAt rq) st in
      case (case sel of Some ip \<Rightarrow> Some ip
                      | None \<Rightarrow> (case providers of [] \<Rightarrow> None | ip # _ \<Rightarrow> Some ip)) of
        None \<Rightarrow> (Inl ''provider_not_configured'', st1)
      | Some (idpName, p) \<Rightarrow>
          if ids = [] \<and> \<not> spAllowIDPInitiated p then (Inl ''idp_initiated_disabled'', st1)
          else (case spValidateResponse p (acsResponse rq) ids of
                  Inl e \<Rightarrow> (Inl ''assertion_invalid'', st1)
                | Inr (user, meta) \<Rightarrow>
                    (case replayCheck S p meta (acsTTLAt rq) (acsReserveAt rq) st1 of
                       (Some e, st2) \<Rightarrow> (Inl e, st2)
                     | (None, st2) \<Rightarrow>
                         if suEmail user = [] \<and> suNameID user = [] then (Inl ''user_info_failed'', st2)
                         else (Inr (''saml:'' @ idpName @ '':'' @ suNameID user), st2))))"

section \<open>The memory store keeps single-use keys\<close>

text \<open>The operations on the store as events, with the time each one reads.\<close>

datatype store_event =
    ESave string session int int
  | ELoad string int
  | EDelete string int
  | EReserve string int clock3
  | ETick int

fun storeStep :: "store_event \<Rightarrow> memstore \<Rightarrow> bool \<times> memstore" where
  "storeStep (ESave k d ttl now) s = (False, snd (Save k d ttl now s))"
| "storeStep (ELoad k now) s = (False, snd (Load k now s))"
| "storeStep (EDelete k now) s = (False, snd (Delete k s))"
| "storeStep (EReserve k ttl clk) s = (case Reserve k ttl clk s of (r, s') \<Rightarrow> (r = Inr True, s'))"
| "storeStep (ETick now) s = (False, cleanup now s)"

fun storeUses :: "store_event \<Rightarrow> string option" where
  "storeUses (EReserve k ttl clk) = Some k"
| "storeUses _ = None"

fun storeAt :: "store_event \<Rightarrow> int" where
  "storeAt (ESave k d ttl now) = now"
| "storeAt (ELoad k now) = now"
| "storeAt (EDelete k now) = now"
| "storeAt (EReserve k ttl clk) = fst clk"
| "storeAt (ETick now) = now"

fun storeReleases :: "store_event \<Rightarrow> string \<Rightarrow> bool" where
  "storeReleases (ESave k' d ttl now) k = (k' = k)"
| "storeReleases (EDelete k' now) k = (k' = k)"
| "storeReleases _ k = False"

definition heldUntil :: "memstore \<Rightarrow> string \<Rightarrow> int \<Rightarrow> bool" where
  "heldUntil s k t = (case s k of None \<Rightarrow> False | Some e \<Rightarrow> t \<le> meExpiresAt e)"

lemmas store_defs = Save_def Load_def Delete_def Reserve_def cleanup_def heldUntil_def

lemma Reserve_held:
  "Reserve k ttl (n1, n2, n3) s = (Inr True, s') \<Longrightarrow> heldUntil s' k (n3 + ttl)"
  by (auto simp: store_defs split: if_splits)

lemma Reserve_refuses: "heldUntil s k t \<Longrightarrow> fst clk < t \<Longrightarrow> Reserve k ttl clk s = (Inr False, s)"
  by (auto simp: store_defs split: option.splits prod.splits)

lemma Reserve_keeps: "heldUntil s k t \<Longrightarrow> fst clk < t \<Longrightarrow> heldUntil (snd (Reserve k' ttl clk s)) k t"
  by (cases "k = k'") (auto simp: store_defs split: option.splits prod.splits)

lemma Load_keeps: "heldUntil s k t \<Longrightarrow> k \<noteq> k' \<or> now < t \<Longrightarrow> heldUntil (snd (Load k' now s)) k t"
  by (auto simp: store_defs split: option.splits)

lemma Save_keeps: "heldUntil s k t \<Longrightarrow> k \<noteq> k' \<Longrightarrow> heldUntil (snd (Save k' d ttl now s)) k t"
  by (auto simp: store_defs)

lemma Delete_keeps: "heldUntil s k t \<Longrightarrow> k \<noteq> k' \<Longrightarrow> heldUntil (snd (Delete k' s)) k t"
  by (auto simp: store_defs)

interpretation mem: single_use storeStep storeUses storeAt storeReleases heldUntil
proof
  fix e k s t
  assume "storeUses e = Some k" "heldUntil s k t" "storeAt e < t"
  then show "\<not> fst (storeStep e s)"
    by (cases e) (auto simp: Reserve_refuses)
next
  fix s k t e
  assume h: "heldUntil s k t" "storeAt e < t" "\<not> storeReleases e k"
  show "heldUntil (snd (storeStep e s)) k t"
  proof (cases e)
    case (EReserve k' ttl clk)
    with h show ?thesis using Reserve_keeps[of s k t clk k' ttl]
      by (cases "Reserve k' ttl clk s") simp
  next
    case (ETick now)
    with h show ?thesis by (auto simp: store_defs split: option.splits)
  qed (use h in \<open>auto simp: Load_keeps Delete_keeps Save_keeps\<close>)
qed

text \<open>
  Claim C24. A reservation is single-use: once \<^verbatim>\<open>Reserve\<close> has returned true for a key, then for
  the whole lifetime asked for, counted from the last clock reading of that call, and through
  any interleaving of saves, loads, clean-ups and reservations by others, no further
  reservation of that key returns true, provided nobody saves or deletes that very key.
\<close>

theorem Reserve_single_use:
  assumes "Reserve k ttl (n1, n2, n3) s = (Inr True, s')"
    and "\<forall>e \<in> set es. storeAt e < n3 + ttl \<and> \<not> storeReleases e k"
    and "(EReserve k ttl2 clk2, ok) \<in> set (trace storeStep es s')"
  shows "\<not> ok"
  using mem.held_trace[OF Reserve_held[OF assms(1)] assms(2) assms(3)] by simp

theorem Reserve_single_use_witness:
  "(EReserve ''a'' 5 (14, 14, 14), True) \<notin> set (trace storeStep
     [ETick 12, EReserve ''b'' 5 (13, 13, 13), EReserve ''a'' 5 (14, 14, 14)]
     (snd (Reserve ''a'' 10 (5, 5, 5) Map.empty)))"
proof
  assume "(EReserve ''a'' 5 (14, 14, 14), True) \<in> set (trace storeStep
     [ETick 12, EReserve ''b'' 5 (13, 13, 13), EReserve ''a'' 5 (14, 14, 14)]
     (snd (Reserve ''a'' 10 (5, 5, 5) Map.empty)))"
  from Reserve_single_use[OF _ _ this, of 10 5 5 5 Map.empty] show False
    by (simp add: Reserve_def)
qed

section \<open>Login states\<close>

text \<open>
  A login state is good for one login: a saved state passes the callback once, within
  five minutes of its creation, handing back exactly the saved session (nonce and code verifier
  included), and a callback that runs after it with the same state is refused as invalid unless
  the state was saved again.
\<close>

theorem callbackState_once:
  assumes "now1 \<le> saved + ttl" "now2 - ssCreatedAt d \<le> 5 * minute"
  shows "\<exists>st'. callbackState MemoryStateStore k now1 now2 (snd (Save k d ttl saved st)) = (Inr d, st') \<and>
    fst (callbackState MemoryStateStore k t1 t2 st') = Inl ''invalid_state''"
  using assms by (simp add: callbackState_def callbackLoad_def store_defs)

theorem callbackState_once_witness:
  "fst (callbackState MemoryStateStore ''s'' 100 100 (snd (Save ''s'' \<lparr>ssState = ''s'', ssCreatedAt = 10,
     ssRedirectURL = [], ssProviderType = ''oidc'', ssNonce = ''n'', ssCodeVerifier = ''v'',
     ssSAMLRequestID = []\<rparr> (10 * minute) 10 Map.empty))) =
   Inr \<lparr>ssState = ''s'', ssCreatedAt = 10, ssRedirectURL = [], ssProviderType = ''oidc'', ssNonce = ''n'',
     ssCodeVerifier = ''v'', ssSAMLRequestID = []\<rparr>"
  using callbackState_once[of 100 10 "10 * minute" 100 "\<lparr>ssState = ''s'', ssCreatedAt = 10,
     ssRedirectURL = [], ssProviderType = ''oidc'', ssNonce = ''n'', ssCodeVerifier = ''v'',
     ssSAMLRequestID = []\<rparr>" "''s''" Map.empty 0 0]
  by auto

text \<open>
  With the memory store a login state can be used twice by concurrent callbacks: the
  handler loads and deletes in two separate critical sections, so when a second callback loads
  between the two, both continue with the same session.
\<close>

theorem callback_state_race:
  "\<exists>st d st1 st2. callbackLoad MemoryStateStore ''s'' 1 1 st = (Inr d, st1) \<and>
     callbackLoad MemoryStateStore ''s'' 1 1 st1 = (Inr d, st2) \<and>
     fst (callbackState MemoryStateStore ''s'' 1 1 (snd (opDelete MemoryStateStore ''s''
       (snd (opDelete MemoryStateStore ''s'' st2))))) = Inl ''invalid_state''"
proof -
  let ?d = "\<lparr>ssState = ''s'', ssCreatedAt = 0, ssRedirectURL = [], ssProviderType = ''oidc'',
    ssNonce = ''n'', ssCodeVerifier = ''v'', ssSAMLRequestID = []\<rparr>"
  show ?thesis
    by (intro exI[of _ "snd (Save ''s'' ?d (10 * minute) 0 Map.empty)"] exI[of _ ?d]
        exI[of _ "snd (Save ''s'' ?d (10 * minute) 0 Map.empty)"])
      (simp add: callbackState_def callbackLoad_def store_defs)
qed

section \<open>SAML assertions\<close>

definition acsStep :: "(string \<times> saml_provider) list \<Rightarrow> acs_request \<Rightarrow> memstore \<Rightarrow> bool \<times> memstore" where
  "acsStep providers rq st =
     (case SAMLACSHandler MemoryStateStore providers rq st of (r, st') \<Rightarrow> (\<not> isl r, st'))"

text \<open>The posted response carries the assertion \<open>aid\<close>, whichever provider checks it, and every
  provider accepts unsolicited responses.\<close>

definition assertsID :: "(string \<times> saml_provider) list \<Rightarrow> string \<Rightarrow> acs_request \<Rightarrow> bool" where
  "assertsID providers aid rq \<longleftrightarrow> aid \<noteq> [] \<and> (\<forall>ip \<in> set providers. spAllowIDPInitiated (snd ip) \<and>
     (\<forall>ids u m. spValidateResponse (snd ip) (acsResponse rq) ids = Inr (u, m) \<longrightarrow>
        (\<exists>mt. m = Some mt \<and> amID mt = aid)))"

definition acsUses :: "(string \<times> saml_provider) list \<Rightarrow> string \<Rightarrow> acs_request \<Rightarrow> string option" where
  "acsUses providers aid rq = (if assertsID providers aid rq then Some (assertionKey aid) else None)"

abbreviation acsAt :: "acs_request \<Rightarrow> int" where
  "acsAt rq \<equiv> fst (acsReserveAt rq)"

abbreviation acsReleases :: "acs_request \<Rightarrow> string \<Rightarrow> bool" where
  "acsReleases rq k \<equiv> acsRelayState rq = k"

lemma relaySelect_keeps:
  "heldUntil st k t \<Longrightarrow> relayState \<noteq> k \<Longrightarrow>
   heldUntil (snd (relaySelect MemoryStateStore providers relayState now st)) k t"
  using Load_keeps[of st k t relayState now]
  by (auto simp: relaySelect_def Delete_keeps split: prod.splits sum.splits option.splits)

lemma relaySelect_member:
  "relaySelect S providers relayState now st = ((Some ip, ids), st') \<Longrightarrow> ip \<in> set providers"
  by (auto simp: relaySelect_def Let_def dest: map_of_SomeD split: if_splits prod.splits sum.splits option.splits)

lemma replayCheck_keeps:
  "heldUntil st k t \<Longrightarrow> fst clk < t \<Longrightarrow> heldUntil (snd (replayCheck MemoryStateStore p m now clk st)) k t"
  using Reserve_keeps[of st k t clk]
  by (auto simp: replayCheck_def split: option.splits prod.splits sum.splits bool.splits)
    (metis snd_conv)+

text \<open>What the handler does once a provider is chosen, and where the choice comes from.\<close>

lemma SAMLACSHandler_cases:
  fixes S :: "'s state_store_ops"
  obtains (early) e where "SAMLACSHandler S providers rq st =
      (Inl e, snd (relaySelect S providers (acsRelayState rq) (acsLoadAt rq) st))"
  | (checked) idp p ids u m where "(idp, p) \<in> set providers"
      "spValidateResponse p (acsResponse rq) ids = Inr (u, m)"
      "snd (SAMLACSHandler S providers rq st) = snd (replayCheck S p m (acsTTLAt rq) (acsReserveAt rq)
         (snd (relaySelect S providers (acsRelayState rq) (acsLoadAt rq) st)))"
      "\<not> isl (fst (SAMLACSHandler S providers rq st)) \<longleftrightarrow>
         fst (replayCheck S p m (acsTTLAt rq) (acsReserveAt rq)
           (snd (relaySelect S providers (acsRelayState rq) (acsLoadAt rq) st))) = None \<and>
         \<not> (suEmail u = [] \<and> suNameID u = [])"
proof -
  obtain sel ids st1 where rs: "relaySelect S providers (acsRelayState rq) (acsLoadAt rq) st = ((sel, ids), st1)"
    by (metis prod.collapse)
  let ?sel = "case sel of Some ip \<Rightarrow> Some ip | None \<Rightarrow> (case providers of [] \<Rightarrow> None | ip # _ \<Rightarrow> Some ip)"
  show thesis
  proof (cases ?sel)
    case None
    then show thesis using early[of "''provider_not_configured''"] rs by (simp add: SAMLACSHandler_def)
  next
    case (Some ip)
    obtain idp p where ip: "ip = (idp, p)" by (cases ip)
    have mem: "(idp, p) \<in> set providers"
      using Some rs ip by (auto split: option.splits list.splits dest: relaySelect_member)
    show thesis
    proof (cases "ids = [] \<and> \<not> spAllowIDPInitiated p")
      case True
      then show thesis using early[of "''idp_initiated_disabled''"] rs Some ip by (simp add: SAMLACSHandler_def)
    next
      case False
      show thesis
      proof (cases "spValidateResponse p (acsResponse rq) ids")
        case (Inl e)
        then show thesis using early[of "''assertion_invalid''"] rs Some ip False
          by (simp add: SAMLACSHandler_def)
      next
        case (Inr um)
        obtain u m where um: "um = (u, m)" by (cases um)
        obtain rc st2 where rc: "replayCheck S p m (acsTTLAt rq) (acsReserveAt rq) st1 = (rc, st2)"
          by (metis prod.collapse)
        have h: "SAMLACSHandler S providers rq st = (case rc of Some e \<Rightarrow> (Inl e, st2) | None \<Rightarrow>
            if suEmail u = [] \<and> suNameID u = [] then (Inl ''user_info_failed'', st2)
            else (Inr (''saml:'' @ idp @ '':'' @ suNameID u), st2))"
          using rs Some ip False Inr um rc by (cases rc) (auto simp: SAMLACSHandler_def)
        show thesis
          by (rule checked[OF mem Inr[unfolded um]]) (auto simp: h rs rc split: option.splits)
      qed
    qed
  qed
qed

interpretation acs: single_use "acsStep providers" "acsUses providers aid" acsAt acsReleases heldUntil
  for providers aid
proof
  fix e k s t
  assume u: "acsUses providers aid e = Some k" and h: "heldUntil s k t" "acsAt e < t" "\<not> acsReleases e k"
  then have a: "assertsID providers aid e" "k = assertionKey aid" by (auto simp: acsUses_def split: if_splits)
  let ?st = "snd (relaySelect MemoryStateStore providers (acsRelayState e) (acsLoadAt e) s)"
  have held: "heldUntil ?st k t" using relaySelect_keeps h by blast
  show "\<not> fst (acsStep providers e s)"
  proof (cases rule: SAMLACSHandler_cases[of MemoryStateStore providers e s])
    case (early err)
    then show ?thesis by (simp add: acsStep_def)
  next
    case (checked idp p ids u m)
    from a checked(1,2) obtain mt where "m = Some mt" "amID mt = aid" "spAllowIDPInitiated p" "aid \<noteq> []"
      by (fastforce simp: assertsID_def)
    then have "fst (replayCheck MemoryStateStore p m (acsTTLAt e) (acsReserveAt e) ?st) \<noteq> None"
      using Reserve_refuses[OF held h(2)] a(2) by (simp add: replayCheck_def)
    with checked(4) show ?thesis by (simp add: acsStep_def case_prod_beta)
  qed
next
  fix s k t e
  assume h: "heldUntil s k t" "acsAt e < t" "\<not> acsReleases e k"
  then have held: "heldUntil (snd (relaySelect MemoryStateStore providers (acsRelayState e) (acsLoadAt e) s)) k t"
    using relaySelect_keeps by blast
  show "heldUntil (snd (acsStep providers e s)) k t"
  proof (cases rule: SAMLACSHandler_cases[of MemoryStateStore providers e s])
    case (early err)
    with held show ?thesis by (simp add: acsStep_def)
  next
    case (checked idp p ids u m)
    with replayCheck_keeps[OF held h(2)] show ?thesis by (simp add: acsStep_def case_prod_beta)
  qed
qed

lemma replayCheck_holds:
  assumes "replayCheck MemoryStateStore p (Some mt) now clk st = (None, st')"
    "spAllowIDPInitiated p" "amID mt \<noteq> []"
  shows "heldUntil st' (assertionKey (amID mt)) (snd (snd clk) + replayTTL (amNotOnOrAfter mt) now)"
proof -
  obtain n1 n2 n3 where clk: "clk = (n1, n2, n3)" by (cases clk)
  have "Reserve (assertionKey (amID mt)) (replayTTL (amNotOnOrAfter mt) now) (n1, n2, n3) st = (Inr True, st')"
    using assms clk by (auto simp: replayCheck_def split: prod.splits sum.splits bool.splits)
  from Reserve_held[OF this] show ?thesis using clk by simp
qed

text \<open>The handler that accepted a response of known expiry holds the assertion's key.\<close>

lemma SAMLACSHandler_holds:
  assumes a: "assertsID providers aid rq"
    and exp: "\<forall>ip \<in> set providers. \<forall>ids u mt. spValidateResponse (snd ip) (acsResponse rq) ids = Inr (u, Some mt)
      \<longrightarrow> amNotOnOrAfter mt = deadline"
    and acc: "SAMLACSHandler MemoryStateStore providers rq st = (Inr sub, st')"
  shows "heldUntil st' (assertionKey aid) (snd (snd (acsReserveAt rq)) + replayTTL deadline (acsTTLAt rq))"
proof (cases rule: SAMLACSHandler_cases[of MemoryStateStore providers rq st])
  case (early err)
  with acc show ?thesis by simp
next
  case (checked idp p ids u m)
  let ?st = "snd (relaySelect MemoryStateStore providers (acsRelayState rq) (acsLoadAt rq) st)"
  from a checked(1,2) obtain mt where mt: "m = Some mt" "amID mt = aid" "spAllowIDPInitiated p" "aid \<noteq> []"
    by (fastforce simp: assertsID_def)
  with exp checked(1,2) have d: "amNotOnOrAfter mt = deadline" by fastforce
  have "replayCheck MemoryStateStore p (Some mt) (acsTTLAt rq) (acsReserveAt rq) ?st = (None, st')"
    using checked(3,4) acc mt(1) by (simp add: prod_eq_iff)
  from replayCheck_holds[OF this mt(3)] mt d show ?thesis by simp
qed


definition exIdP :: "int \<Rightarrow> saml_provider" where
  "exIdP deadline = \<lparr>spAllowIDPInitiated = True,
     spValidateResponse = (\<lambda>r ids. if r = ''R'' \<and> ids = [] then
        Inr (\<lparr>suEmail = ''a@b'', suNameID = ''alice''\<rparr>, Some \<lparr>amID = ''_1'', amNotOnOrAfter = deadline\<rparr>)
      else Inl ''invalid'')\<rparr>"

definition exAcs :: "string \<Rightarrow> int \<Rightarrow> acs_request" where
  "exAcs relay now = \<lparr>acsRelayState = relay, acsResponse = ''R'', acsLoadAt = now, acsTTLAt = now,
     acsReserveAt = (now, now, now)\<rparr>"

lemmas acs_eval = SAMLACSHandler_def relaySelect_def replayCheck_def replayTTL_def exIdP_def exAcs_def
  assertionKey_def store_defs Let_def hasPrefix_def

lemma exAcs_asserts: "assertsID [(''idp'', exIdP d)] ''_1'' (exAcs relay now)"
  by (simp add: assertsID_def exIdP_def exAcs_def)



text \<open>
  An assertion valid for more than fifteen minutes is remembered for fifteen minutes
  only: one with an hour to live, accepted once, is accepted again sixteen minutes later.
\<close>

theorem saml_replay_after_cap:
  "fst (SAMLACSHandler MemoryStateStore [(''idp'', exIdP (60 * minute))] (exAcs [] 0) Map.empty) =
     Inr ''saml:idp:alice'' \<and>
   fst (SAMLACSHandler MemoryStateStore [(''idp'', exIdP (60 * minute))] (exAcs [] (16 * minute))
     (snd (SAMLACSHandler MemoryStateStore [(''idp'', exIdP (60 * minute))] (exAcs [] 0) Map.empty))) =
     Inr ''saml:idp:alice''"
  by (simp add: acs_eval)

end
