(* ===== verification/GroupSync.thy ===== *)
theory GroupSync
  imports Scopes
begin

text \<open>
  Group-driven provisioning at login: \<^verbatim>\<open>reconcileGroupMemberships\<close> of
  \<^verbatim>\<open>internal/api/admin/auth.go\<close>, the functions that resolve its configuration and the OIDC
  and SAML entry points.

  The organization repository is part of the external identity module: its operations are the
  fields of \<open>orgrepo\<close> over an abstract state, and \<open>orgrepo_contract\<close> states what they do to the
  membership table, the map from an organization and a user to a role name.
\<close>

record groupMapping =
  gmGroup :: string
  gmOrganization :: string
  gmRole :: string

record 's orgrepo =
  orGetByName :: "string \<Rightarrow> string + string option"
  orGetDefaultOrganization :: "string + string option"
  orCheckMembership :: "string \<Rightarrow> string \<Rightarrow> 's \<Rightarrow> string + bool"
  orUpdateMemberRole :: "string \<Rightarrow> string \<Rightarrow> string \<Rightarrow> 's \<Rightarrow> (string + unit) \<times> 's"
  orAddMemberWithParams :: "string \<Rightarrow> string \<Rightarrow> string \<Rightarrow> 's \<Rightarrow> (string + unit) \<times> 's"
  orRemoveMember :: "string \<Rightarrow> string \<Rightarrow> 's \<Rightarrow> (string + unit) \<times> 's"

section \<open>auth.go: the effective mapping configuration\<close>

type_synonym mapping_config = "string \<times> groupMapping list \<times> string"

text \<open>The stored configuration is absent (\<open>None\<close>) when there is no repository, the query fails
  or there is no active row.\<close>

definition resolveGroupClaimName :: "mapping_config option \<Rightarrow> string \<Rightarrow> string" where
  "resolveGroupClaimName dbCfg cfgClaim =
     (case dbCfg of Some (cn, _, _) \<Rightarrow> if cn \<noteq> [] then cn else cfgClaim | None \<Rightarrow> cfgClaim)"

definition resolveGroupMappingConfig :: "mapping_config option \<Rightarrow> mapping_config \<Rightarrow> mapping_config" where
  "resolveGroupMappingConfig dbCfg cfg =
     (case dbCfg of
        Some (cn, dbMappings, dr) \<Rightarrow> if cn \<noteq> [] \<or> dbMappings \<noteq> [] \<or> dr \<noteq> [] then (cn, dbMappings, dr) else cfg
      | None \<Rightarrow> cfg)"

section \<open>auth.go: reconcileGroupMemberships\<close>

text \<open>The first pass: managed organizations in configuration order without repetition, and the
  role of the first mapping per organization whose group the user has.\<close>

fun desiredRoles ::
  "string list \<Rightarrow> groupMapping list \<Rightarrow> string list \<Rightarrow> (string \<rightharpoonup> string) \<Rightarrow> string list \<times> (string \<rightharpoonup> string)" where
  "desiredRoles groups [] managedOrgs desired = (managedOrgs, desired)"
| "desiredRoles groups (m # ms) managedOrgs desired =
     desiredRoles groups ms
       (if gmOrganization m \<in> set managedOrgs then managedOrgs else managedOrgs @ [gmOrganization m])
       (if gmGroup m \<notin> set groups then desired
        else (case desired (gmOrganization m) of
                Some _ \<Rightarrow> desired
              | None \<Rightarrow> desired(gmOrganization m \<mapsto> gmRole m)))"

text \<open>One managed organization whose ID is known.\<close>

definition reconcileOrg ::
  "'s orgrepo \<Rightarrow> (string \<Rightarrow> string + unit) \<Rightarrow> string \<Rightarrow> string option \<Rightarrow> string \<Rightarrow> 's \<Rightarrow> (string + unit) \<times> 's" where
  "reconcileOrg R guard userID wanted orgID s =
     (case orCheckMembership R orgID userID s of
        Inl e \<Rightarrow> (Inl (''check membership: '' @ e), s)
      | Inr isMember \<Rightarrow>
          (case wanted of
             Some role \<Rightarrow>
               if isl (guard role) then (Inr (), s)
               else if isMember then
                 (case orUpdateMemberRole R orgID userID role s of
                    (Inl e, s') \<Rightarrow> (Inl (''update member role: '' @ e), s')
                  | (Inr _, s') \<Rightarrow> (Inr (), s'))
               else
                 (case orAddMemberWithParams R orgID userID role s of
                    (Inl e, s') \<Rightarrow> (Inl (''add member: '' @ e), s')
                  | (Inr _, s') \<Rightarrow> (Inr (), s'))
           | None \<Rightarrow>
               if isMember then
                 (case orRemoveMember R orgID userID s of
                    (Inl e, s') \<Rightarrow> (Inl (''revoke member: '' @ e), s')
                  | (Inr _, s') \<Rightarrow> (Inr (), s'))
               else (Inr (), s)))"

fun reconcileLoop ::
  "'s orgrepo \<Rightarrow> (string \<Rightarrow> string + unit) \<Rightarrow> string \<Rightarrow> (string \<rightharpoonup> string) \<Rightarrow> string list \<Rightarrow> string list \<Rightarrow> 's \<Rightarrow>
   (string + string list) \<times> 's" where
  "reconcileLoop R guard userID desired [] ids s = (Inr ids, s)"
| "reconcileLoop R guard userID desired (orgName # rest) ids s =
     (case orGetByName R orgName of
        Inr (Some orgID) \<Rightarrow>
          (case reconcileOrg R guard userID (desired orgName) orgID s of
             (Inl e, s') \<Rightarrow> (Inl e, s')
           | (Inr _, s') \<Rightarrow> reconcileLoop R guard userID desired rest (orgID # ids) s')
      | _ \<Rightarrow> reconcileLoop R guard userID desired rest ids s)"

definition defaultRoleFallback ::
  "'s orgrepo \<Rightarrow> string \<Rightarrow> string \<Rightarrow> string list \<Rightarrow> 's \<Rightarrow> (string + unit) \<times> 's" where
  "defaultRoleFallback R userID defaultRole managedIDs s =
     (if defaultRole = [] then (Inr (), s)
      else (case orGetDefaultOrganization R of
              Inr (Some orgID) \<Rightarrow>
                if orgID \<in> set managedIDs then (Inr (), s)
                else (case orCheckMembership R orgID userID s of
                        Inl e \<Rightarrow> (Inl (''check membership default org: '' @ e), s)
                      | Inr True \<Rightarrow> (Inr (), s)
                      | Inr False \<Rightarrow>
                          (case orAddMemberWithParams R orgID userID defaultRole s of
                             (Inl e, s') \<Rightarrow> (Inl (''add default member: '' @ e), s')
                           | (Inr _, s') \<Rightarrow> (Inr (), s')))
            | _ \<Rightarrow> (Inl ''default organization not found for default_role fallback'', s)))"

definition reconcileGroupMemberships ::
  "'s orgrepo \<Rightarrow> (string \<Rightarrow> string + unit) \<Rightarrow> string \<Rightarrow> string list \<Rightarrow> groupMapping list \<Rightarrow> string \<Rightarrow> 's \<Rightarrow>
   (string + unit) \<times> 's" where
  "reconcileGroupMemberships R guard userID groups mappings defaultRole s =
     (if mappings = [] \<and> defaultRole = [] then (Inr (), s)
      else
        let (managedOrgs, desired) = desiredRoles groups mappings [] Map.empty in
        (case reconcileLoop R guard userID desired managedOrgs [] s of
           (Inl e, s') \<Rightarrow> (Inl e, s')
         | (Inr ids, s') \<Rightarrow> defaultRoleFallback R userID defaultRole ids s'))"

definition applyGroupMappings ::
  "'s orgrepo \<Rightarrow> (string \<Rightarrow> string + unit) \<Rightarrow> mapping_config option \<Rightarrow> mapping_config \<Rightarrow> string \<Rightarrow> string list \<Rightarrow> 's \<Rightarrow>
   (string + unit) \<times> 's" where
  "applyGroupMappings R guard dbCfg cfg userID groups s =
     (let (_, mappings, defaultRole) = resolveGroupMappingConfig dbCfg cfg
      in reconcileGroupMemberships R guard userID groups mappings defaultRole s)"

definition applySAMLGroupMappings ::
  "'s orgrepo \<Rightarrow> (string \<Rightarrow> string + unit) \<Rightarrow> groupMapping list \<Rightarrow> string \<Rightarrow> string \<Rightarrow> string list \<Rightarrow> 's \<Rightarrow>
   (string + unit) \<times> 's" where
  "applySAMLGroupMappings R guard samlMappings samlDefaultRole userID groups s =
     reconcileGroupMemberships R guard userID groups samlMappings samlDefaultRole s"

section \<open>What the identity module's repository promises\<close>

definition orgrepo_contract :: "'s orgrepo \<Rightarrow> ('s \<Rightarrow> (string \<times> string) \<rightharpoonup> string) \<Rightarrow> bool" where
  "orgrepo_contract R mem \<longleftrightarrow>
     (\<forall>o1 u s b. orCheckMembership R o1 u s = Inr b \<longrightarrow> b = (mem s (o1, u) \<noteq> None)) \<and>
     (\<forall>o1 u r s x s'. orUpdateMemberRole R o1 u r s = (Inr x, s') \<longrightarrow> mem s' = (mem s)((o1, u) \<mapsto> r)) \<and>
     (\<forall>o1 u r s x s'. orAddMemberWithParams R o1 u r s = (Inr x, s') \<longrightarrow> mem s' = (mem s)((o1, u) \<mapsto> r)) \<and>
     (\<forall>o1 u s x s'. orRemoveMember R o1 u s = (Inr x, s') \<longrightarrow> mem s' = (mem s)((o1, u) := None)) \<and>
     (\<forall>n n' o1. orGetByName R n = Inr (Some o1) \<longrightarrow> orGetByName R n' = Inr (Some o1) \<longrightarrow> n = n')"

text \<open>A repository over the membership table itself.\<close>

definition tableRepo :: "(string \<rightharpoonup> string) \<Rightarrow> string \<Rightarrow> ((string \<times> string) \<rightharpoonup> string) orgrepo" where
  "tableRepo names dflt =
     \<lparr>orGetByName = (\<lambda>n. Inr (names n)), orGetDefaultOrganization = Inr (Some dflt),
      orCheckMembership = (\<lambda>o1 u M. Inr (M (o1, u) \<noteq> None)),
      orUpdateMemberRole = (\<lambda>o1 u r M. (Inr (), M((o1, u) \<mapsto> r))),
      orAddMemberWithParams = (\<lambda>o1 u r M. (Inr (), M((o1, u) \<mapsto> r))),
      orRemoveMember = (\<lambda>o1 u M. (Inr (), M((o1, u) := None)))\<rparr>"

lemma tableRepo_contract:
  "(\<And>n n' o1. names n = Some o1 \<Longrightarrow> names n' = Some o1 \<Longrightarrow> n = n') \<Longrightarrow> orgrepo_contract (tableRepo names dflt) id"
  by (auto simp: orgrepo_contract_def tableRepo_def)

section \<open>Reference semantics\<close>

definition wantedRole :: "string list \<Rightarrow> groupMapping list \<Rightarrow> string \<Rightarrow> string option" where
  "wantedRole groups mappings org =
     map_option gmRole (find (\<lambda>m. gmOrganization m = org \<and> gmGroup m \<in> set groups) mappings)"

definition syncOrg ::
  "(string \<Rightarrow> string + unit) \<Rightarrow> string \<Rightarrow> string option \<Rightarrow> string \<Rightarrow> ((string \<times> string) \<rightharpoonup> string) \<Rightarrow> (string \<times> string) \<rightharpoonup> string" where
  "syncOrg guard u wanted o1 M =
     (case wanted of
        None \<Rightarrow> M((o1, u) := None)
      | Some r \<Rightarrow> if isl (guard r) then M else M((o1, u) \<mapsto> r))"

lemma desiredRoles_gen:
  "desiredRoles groups ms orgs d = (orgs', d') \<Longrightarrow>
   set orgs' = set orgs \<union> gmOrganization ` set ms \<and>
   d' = (\<lambda>n. case d n of Some r \<Rightarrow> Some r | None \<Rightarrow> wantedRole groups ms n)"
proof (induction groups ms orgs d arbitrary: orgs' d' rule: desiredRoles.induct)
  case (1 groups orgs d)
  then show ?case by (auto simp: wantedRole_def split: option.splits)
next
  case (2 groups m ms orgs d)
  from "2.IH"[OF "2.prems"[unfolded desiredRoles.simps]] show ?case
    by (auto simp: wantedRole_def fun_eq_iff split: option.splits if_splits)
qed

lemma desiredRoles_spec:
  "desiredRoles groups ms [] Map.empty = (orgs, d) \<Longrightarrow>
   set orgs = gmOrganization ` set ms \<and> d = wantedRole groups ms"
  using desiredRoles_gen by fastforce

lemma reconcileOrg_abs:
  assumes "orgrepo_contract R mem" "reconcileOrg R guard u w o1 s = (Inr x, s')"
  shows "mem s' = syncOrg guard u w o1 (mem s)"
proof -
  obtain b where b: "orCheckMembership R o1 u s = Inr b"
    using assms(2) by (auto simp: reconcileOrg_def split: sum.splits)
  with assms(1) have mb: "b = (mem s (o1, u) \<noteq> None)" by (auto simp: orgrepo_contract_def)
  show ?thesis
  proof (cases w)
    case None
    show ?thesis
    proof (cases b)
      case True
      with assms None b obtain y where "orRemoveMember R o1 u s = (Inr y, s')"
        by (auto simp: reconcileOrg_def split: prod.splits sum.splits)
      with assms(1) None show ?thesis by (simp add: orgrepo_contract_def syncOrg_def)
    next
      case False
      with assms None b mb show ?thesis by (auto simp: reconcileOrg_def syncOrg_def)
    qed
  next
    case (Some r)
    show ?thesis
    proof (cases "isl (guard r)")
      case True
      with assms(2) Some b show ?thesis by (simp add: reconcileOrg_def syncOrg_def)
    next
      case False
      with assms(2) Some b have "\<exists>y. orUpdateMemberRole R o1 u r s = (Inr y, s') \<or>
          orAddMemberWithParams R o1 u r s = (Inr y, s')"
        by (auto simp: reconcileOrg_def split: prod.splits sum.splits if_splits)
      with assms(1) have "mem s' = (mem s)((o1, u) \<mapsto> r)"
        unfolding orgrepo_contract_def by blast
      with False Some show ?thesis by (simp add: syncOrg_def)
    qed
  qed
qed

text \<open>The loop applies the reference step to each resolvable organization, and reports those.\<close>

lemma reconcileLoop_abs:
  assumes c: "orgrepo_contract R mem"
  shows "reconcileLoop R guard u d orgs ids s = (Inr ids', s') \<Longrightarrow>
    set ids' = set ids \<union> {o1. \<exists>n \<in> set orgs. orGetByName R n = Inr (Some o1)} \<and>
    (\<forall>o1 v. mem s' (o1, v) =
       (if v = u \<and> (\<exists>n \<in> set orgs. orGetByName R n = Inr (Some o1)) then
          (case d (THE n. orGetByName R n = Inr (Some o1)) of
             None \<Rightarrow> None
           | Some r \<Rightarrow> if isl (guard r) then mem s (o1, v) else Some r)
        else mem s (o1, v)))"
proof (induction orgs arbitrary: ids s)
  case Nil
  then show ?case by simp
next
  case (Cons n orgs)
  show ?case
  proof (cases "\<exists>o1. orGetByName R n = Inr (Some o1)")
    case False
    with Cons.prems have "reconcileLoop R guard u d orgs ids s = (Inr ids', s')"
      by (auto split: sum.splits option.splits)
    from Cons.IH[OF this] False show ?thesis by auto
  next
    case True
    then obtain o1 where o1: "orGetByName R n = Inr (Some o1)" by blast
    with c have the: "(THE n. orGetByName R n = Inr (Some o1)) = n"
      unfolding orgrepo_contract_def by (intro the_equality) auto
    from Cons.prems o1 obtain x s1 where r: "reconcileOrg R guard u (d n) o1 s = (Inr x, s1)"
      "reconcileLoop R guard u d orgs (o1 # ids) s1 = (Inr ids', s')"
      by (auto split: prod.splits sum.splits)
    have a: "mem s1 = syncOrg guard u (d n) o1 (mem s)" using reconcileOrg_abs[OF c r(1)] .
    from Cons.IH[OF r(2)] show ?thesis
      using o1 the by (auto simp: a syncOrg_def split: option.splits)
  qed
qed

lemma defaultRoleFallback_mem:
  assumes c: "orgrepo_contract R mem" and r: "defaultRoleFallback R u dr ids s = (Inr x, s')"
  shows "mem s' (o1, v) =
    (if v = u \<and> dr \<noteq> [] \<and> orGetDefaultOrganization R = Inr (Some o1) \<and> o1 \<notin> set ids \<and> mem s (o1, v) = None
     then Some dr else mem s (o1, v))"
proof (cases "dr = [] \<or> (\<exists>d. orGetDefaultOrganization R = Inr (Some d) \<and> d \<in> set ids)")
  case True
  with r have "s' = s" by (cases "dr = []") (auto simp: defaultRoleFallback_def)
  with True show ?thesis by auto
next
  case False
  with r obtain d b where d: "orGetDefaultOrganization R = Inr (Some d)" "d \<notin> set ids"
    "orCheckMembership R d u s = Inr b" "dr \<noteq> []"
    by (auto simp: defaultRoleFallback_def split: sum.splits option.splits)
  with c have b: "b = (mem s (d, u) \<noteq> None)" by (auto simp: orgrepo_contract_def)
  show ?thesis
  proof (cases b)
    case True
    with r d b show ?thesis by (auto simp: defaultRoleFallback_def)
  next
    case False
    with r d obtain y where "orAddMemberWithParams R d u dr s = (Inr y, s')"
      by (auto simp: defaultRoleFallback_def split: prod.splits sum.splits)
    with c have "mem s' = (mem s)((d, u) \<mapsto> dr)" unfolding orgrepo_contract_def by blast
    with False b d show ?thesis by auto
  qed
qed

section \<open>Properties\<close>

text \<open>
  Claim C14. A login reconciles memberships exactly as documented. When it succeeds: no other
  user's membership changes; in every organization named by a mapping the user ends with the
  role of the first mapping (in configuration order) whose group the user has, or with no
  membership if there is none, except that a role the guard rejects leaves the membership as
  it was; in an organization no mapping names nothing changes, except that the default role
  is given in the default organization to a user who was not a member there.
\<close>

theorem reconcileGroupMemberships_correct:
  assumes c: "orgrepo_contract R mem"
    and ok: "reconcileGroupMemberships R guard u groups mappings dr s = (Inr (), s')"
  shows "(\<forall>o1 v. v \<noteq> u \<longrightarrow> mem s' (o1, v) = mem s (o1, v)) \<and>
    (\<forall>n \<in> gmOrganization ` set mappings. \<forall>o1. orGetByName R n = Inr (Some o1) \<longrightarrow>
       mem s' (o1, u) = (case wantedRole groups mappings n of
          None \<Rightarrow> None
        | Some r \<Rightarrow> if isl (guard r) then mem s (o1, u) else Some r)) \<and>
    (\<forall>o1. (\<forall>n \<in> gmOrganization ` set mappings. orGetByName R n \<noteq> Inr (Some o1)) \<longrightarrow>
       mem s' (o1, u) =
         (if dr \<noteq> [] \<and> orGetDefaultOrganization R = Inr (Some o1) \<and> mem s (o1, u) = None
          then Some dr else mem s (o1, u)))"
proof (cases "mappings = [] \<and> dr = []")
  case True
  with ok show ?thesis by (auto simp: reconcileGroupMemberships_def)
next
  case False
  obtain orgs d where od: "desiredRoles groups mappings [] Map.empty = (orgs, d)" by fastforce
  from ok False od obtain ids s1 where l: "reconcileLoop R guard u d orgs [] s = (Inr ids, s1)"
    and f: "defaultRoleFallback R u dr ids s1 = (Inr (), s')"
    by (auto simp: reconcileGroupMemberships_def split: prod.splits sum.splits)
  from desiredRoles_spec[OF od] have orgs: "set orgs = gmOrganization ` set mappings"
    and d: "d = wantedRole groups mappings" by auto
  note loop = reconcileLoop_abs[OF c l]
  have the: "orGetByName R n = Inr (Some o1) \<Longrightarrow> (THE n. orGetByName R n = Inr (Some o1)) = n" for n o1
    using c unfolding orgrepo_contract_def by (intro the_equality) auto
  show ?thesis
    using loop orgs d the by (auto simp: defaultRoleFallback_mem[OF c f] split: option.splits)
qed

definition exNames :: "string \<rightharpoonup> string" where
  "exNames = [''acme'' \<mapsto> ''o1'', ''beta'' \<mapsto> ''o2'', ''default'' \<mapsto> ''o0'']"

definition exMappings :: "groupMapping list" where
  "exMappings = [\<lparr>gmGroup = ''devs'', gmOrganization = ''acme'', gmRole = ''publisher''\<rparr>,
     \<lparr>gmGroup = ''ops'', gmOrganization = ''beta'', gmRole = ''viewer''\<rparr>]"

lemma exNames_contract: "orgrepo_contract (tableRepo exNames ''o0'') id"
  by (rule tableRepo_contract) (auto simp: exNames_def split: if_splits)

theorem reconcileGroupMemberships_correct_witness:
  "snd (reconcileGroupMemberships (tableRepo exNames ''o0'') (\<lambda>_. Inr ()) ''u'' [''devs''] exMappings ''guest''
     [(''o2'', ''u'') \<mapsto> ''viewer'']) (''o2'', ''u'') = None \<and>
   snd (reconcileGroupMemberships (tableRepo exNames ''o0'') (\<lambda>_. Inr ()) ''u'' [''devs''] exMappings ''guest''
     [(''o2'', ''u'') \<mapsto> ''viewer'']) (''o1'', ''u'') = Some ''publisher''"
proof -
  let ?r = "reconcileGroupMemberships (tableRepo exNames ''o0'') (\<lambda>_. Inr ()) ''u'' [''devs''] exMappings ''guest''
     [(''o2'', ''u'') \<mapsto> ''viewer'']"
  have ok: "?r = (Inr (), snd ?r)"
    by (simp add: reconcileGroupMemberships_def exMappings_def exNames_def tableRepo_def reconcileOrg_def
        defaultRoleFallback_def)
  have names: "orGetByName (tableRepo exNames ''o0'') ''acme'' = Inr (Some ''o1'')"
    "orGetByName (tableRepo exNames ''o0'') ''beta'' = Inr (Some ''o2'')"
    by (simp_all add: tableRepo_def exNames_def)
  have mem: "''acme'' \<in> gmOrganization ` set exMappings" "''beta'' \<in> gmOrganization ` set exMappings"
    by (simp_all add: exMappings_def)
  have w: "wantedRole [''devs''] exMappings ''acme'' = Some ''publisher''"
    "wantedRole [''devs''] exMappings ''beta'' = None"
    by (simp_all add: wantedRole_def exMappings_def)
  note t = reconcileGroupMemberships_correct[OF exNames_contract ok, THEN conjunct2, THEN conjunct1]
  show ?thesis
    using bspec[OF t mem(1)] bspec[OF t mem(2)] names w by simp
qed

text \<open>
  The guard that keeps automatic provisioning from granting admin does not cover the
  default role: with a guard that rejects every role carrying the admin scope, a login still
  makes the user a member of the default organization with a default role that carries it.
\<close>

theorem default_role_unguarded:
  "let guard = guardProvisionableRole docIdentity (\<lambda>r. if r = ''root'' then Row (Some [''admin'']) else NoRow);
       r = reconcileGroupMemberships (tableRepo exNames ''o0'') guard ''u'' [] exMappings ''root'' Map.empty
   in isl (guard ''root'') \<and> fst r = Inr () \<and> snd r (''o0'', ''u'') = Some ''root''"
  by (simp add: reconcileGroupMemberships_def exMappings_def exNames_def tableRepo_def reconcileOrg_def
      defaultRoleFallback_def guardProvisionableRole_def ValidateProvisionableScopes_def docIdentity_def)

end
