(* ===== verification/RateLimit.thy ===== *)
theory RateLimit
  imports Prelude Complex_Main
begin

text \<open>
  The token-bucket rate limiter and its middlewares (\<^verbatim>\<open>internal/middleware/ratelimit.go\<close>).

  Token counts are \<^verbatim>\<open>float64\<close> in the code. They are rationals here, and every floating-point
  operation is followed by the rounding function \<open>rnd\<close>, an argument of the definitions. What is
  used of it is the law \<open>float64_like\<close>: it is monotone, exact on integers up to \<open>2 ^ 53\<close>, and errs
  upwards by at most the relative error \<open>eps\<close>. The clock is an argument; readings under the
  limiter's mutex never decrease (Go's monotonic clock).
\<close>

section \<open>Configuration and state\<close>

record RateLimitConfig =
  RequestsPerMinute :: int
  BurstSize :: int
  CleanupInterval :: int

abbreviation nsSecond :: int where "nsSecond \<equiv> 1000000000"
abbreviation nsMinute :: int where "nsMinute \<equiv> 60 * nsSecond"

definition DefaultRateLimitConfig :: RateLimitConfig where
  "DefaultRateLimitConfig = \<lparr>RequestsPerMinute = 200, BurstSize = 50, CleanupInterval = 5 * nsMinute\<rparr>"

definition AuthRateLimitConfig :: RateLimitConfig where
  "AuthRateLimitConfig = \<lparr>RequestsPerMinute = 20, BurstSize = 15, CleanupInterval = 5 * nsMinute\<rparr>"

definition UploadRateLimitConfig :: RateLimitConfig where
  "UploadRateLimitConfig = \<lparr>RequestsPerMinute = 30, BurstSize = 5, CleanupInterval = 5 * nsMinute\<rparr>"

record rateLimitEntry =
  tokens :: rat
  lastUpdate :: int

record MemoryRateLimiter =
  rlConfig :: RateLimitConfig
  rlEntries :: "string \<rightharpoonup> rateLimitEntry"

definition NewRateLimiter :: "RateLimitConfig \<Rightarrow> MemoryRateLimiter" where
  "NewRateLimiter cfg = \<lparr>rlConfig = cfg, rlEntries = Map.empty\<rparr>"

text \<open>One tick of the clean-up goroutine.\<close>

definition cleanupTick :: "int \<Rightarrow> MemoryRateLimiter \<Rightarrow> MemoryRateLimiter" where
  "cleanupTick now rl = rl\<lparr>rlEntries := (\<lambda>k. case rlEntries rl k of
     None \<Rightarrow> None
   | Some e \<Rightarrow> if now - lastUpdate e > 10 * nsMinute then None else Some e)\<rparr>"

section \<open>Allow and RemainingTokens\<close>

text \<open>\<^verbatim>\<open>int(f)\<close> truncates toward zero. \<^verbatim>\<open>Duration.Seconds\<close> divides whole seconds and the
  nanosecond rest separately.\<close>

definition truncInt :: "rat \<Rightarrow> int" where
  "truncInt r = (if r < 0 then - \<lfloor>- r\<rfloor> else \<lfloor>r\<rfloor>)"

definition durSeconds :: "(rat \<Rightarrow> rat) \<Rightarrow> int \<Rightarrow> rat" where
  "durSeconds rnd d = rnd (rnd (of_int (d div nsSecond)) + rnd (of_int (d mod nsSecond) / of_int nsSecond))"

definition refill :: "(rat \<Rightarrow> rat) \<Rightarrow> RateLimitConfig \<Rightarrow> rateLimitEntry \<Rightarrow> int \<Rightarrow> rat" where
  "refill rnd cfg e now =
     (let elapsed = now - lastUpdate e;
          tokensPerSecond = rnd (rnd (of_int (RequestsPerMinute cfg)) / 60);
          tokensToAdd = rnd (durSeconds rnd elapsed * tokensPerSecond)
      in min (rnd (of_int (BurstSize cfg))) (rnd (tokens e + tokensToAdd)))"

definition Allow :: "(rat \<Rightarrow> rat) \<Rightarrow> string \<Rightarrow> int \<Rightarrow> MemoryRateLimiter \<Rightarrow> (string + bool \<times> int) \<times> MemoryRateLimiter" where
  "Allow rnd key now rl =
     (let put = (\<lambda>t. rl\<lparr>rlEntries := (rlEntries rl)(key \<mapsto> \<lparr>tokens = t, lastUpdate = now\<rparr>)\<rparr>) in
      case rlEntries rl key of
        None \<Rightarrow>
          let t = rnd (rnd (of_int (BurstSize (rlConfig rl))) - 1)
          in (Inr (True, truncInt t), put t)
      | Some e \<Rightarrow>
          let t = refill rnd (rlConfig rl) e now in
          if t \<ge> 1 then (Inr (True, truncInt (rnd (t - 1))), put (rnd (t - 1)))
          else (Inr (False, truncInt t), put t))"

definition RemainingTokens :: "(rat \<Rightarrow> rat) \<Rightarrow> string \<Rightarrow> int \<Rightarrow> MemoryRateLimiter \<Rightarrow> int" where
  "RemainingTokens rnd key now rl =
     (case rlEntries rl key of
        None \<Rightarrow> BurstSize (rlConfig rl)
      | Some e \<Rightarrow> truncInt (refill rnd (rlConfig rl) e now))"

section \<open>Principals\<close>

text \<open>A key that is absent or not a string reads as the empty string, which the code skips.\<close>

definition getRateLimitPrincipal :: "gin \<Rightarrow> string" where
  "getRateLimitPrincipal c =
     (if cGetString c ''user_id'' \<noteq> [] then ''user:'' @ cGetString c ''user_id''
      else if cGetString c ''api_key_id'' \<noteq> [] then ''apikey:'' @ cGetString c ''api_key_id''
      else ''ip:'' @ (if reqClientIP (ginReq c) = [] then reqRemoteAddr (ginReq c) else reqClientIP (ginReq c)))"

definition tierFromPrincipal :: "string \<Rightarrow> string" where
  "tierFromPrincipal p = (if length p > 4 \<and> take 4 p = ''org:'' then ''organization'' else ''individual'')"

definition keyTypeFromPrincipal :: "string \<Rightarrow> string" where
  "keyTypeFromPrincipal p = (case indexByte (CHR '':'') p of Some i \<Rightarrow> take i p | None \<Rightarrow> ''unknown'')"

section \<open>The middlewares\<close>

text \<open>
  A \<^verbatim>\<open>RateLimiterBackend\<close> is its state and an \<open>allow\<close> function, which answers with an error or
  with whether the request may pass and what remains; \<open>None\<close> is a \<open>nil\<close> backend. The
  telemetry counters are not modelled.
\<close>

type_synonym 'b allow_fn = "string \<Rightarrow> 'b \<Rightarrow> (string + bool \<times> int) \<times> 'b"

definition rejectLimit :: "string \<Rightarrow> int \<Rightarrow> gin \<Rightarrow> outcome" where
  "rejectLimit msg remaining c =
     Abort StatusTooManyRequests [(''error'', JStr msg), (''retry_after'', JInt 60)]
       (cHeader (cHeader c ''X-RateLimit-Remaining'' (itoa remaining)) ''Retry-After'' ''60'')"

definition RateLimitMiddleware :: "'b allow_fn \<Rightarrow> gin \<Rightarrow> 'b option \<Rightarrow> outcome \<times> 'b option" where
  "RateLimitMiddleware allow c backend =
     (case backend of
        None \<Rightarrow> (Next c, None)
      | Some b \<Rightarrow>
          (case allow (getRateLimitPrincipal c) b of
             (Inl e, b') \<Rightarrow> (Next c, Some b')
           | (Inr (allowed, remaining), b') \<Rightarrow>
               if \<not> allowed then (rejectLimit ''Rate limit exceeded'' remaining c, Some b')
               else (Next (cHeader c ''X-RateLimit-Remaining'' (itoa remaining)), Some b')))"

definition OrgRateLimitMiddleware ::
  "'b allow_fn \<Rightarrow> gin \<Rightarrow> 'b option \<Rightarrow> 'b option \<Rightarrow> outcome \<times> 'b option \<times> 'b option" where
  "OrgRateLimitMiddleware allow c individual orgBackend =
     (case individual of
        None \<Rightarrow> (Next c, individual, orgBackend)
      | Some b \<Rightarrow>
          (case allow (getRateLimitPrincipal c) b of
             (Inl e, b') \<Rightarrow> (Next c, Some b', orgBackend)
           | (Inr (allowed, remaining), b') \<Rightarrow>
               if \<not> allowed then (rejectLimit ''Rate limit exceeded'' remaining c, Some b', orgBackend)
               else
                 let pass = Next (cHeader c ''X-RateLimit-Remaining'' (itoa remaining)) in
                 (case orgBackend of
                    None \<Rightarrow> (pass, Some b', None)
                  | Some ob \<Rightarrow>
                      if cGetString c ''organization_id'' = [] then (pass, Some b', Some ob)
                      else (case allow (''org:'' @ cGetString c ''organization_id'') ob of
                              (Inl e, ob') \<Rightarrow> (pass, Some b', Some ob')
                            | (Inr (orgAllowed, orgRemaining), ob') \<Rightarrow>
                                if \<not> orgAllowed
                                then (rejectLimit ''Organization rate limit exceeded'' orgRemaining c, Some b', Some ob')
                                else (pass, Some b', Some ob')))))"

definition overrideConfig :: "int \<Rightarrow> int \<Rightarrow> RateLimitConfig" where
  "overrideConfig requestsPerMinute burst =
     \<lparr>RequestsPerMinute = requestsPerMinute,
      BurstSize = (if burst = 0 then
          (let b = (if requestsPerMinute < 0 then - ((- requestsPerMinute) div 4) else requestsPerMinute div 4)
           in if b < 1 then 1 else b)
        else burst),
      CleanupInterval = 5 * nsMinute\<rparr>"

definition NewPrincipalOverrideLimiters :: "(string \<rightharpoonup> int \<times> int) \<Rightarrow> string \<rightharpoonup> MemoryRateLimiter" where
  "NewPrincipalOverrideLimiters overrides =
     (\<lambda>k. map_option (\<lambda>(rpm, burst). NewRateLimiter (overrideConfig rpm burst)) (overrides k))"

definition PrincipalRateLimitMiddleware ::
  "'b allow_fn \<Rightarrow> gin \<Rightarrow> 'b option \<Rightarrow> (string \<rightharpoonup> 'b) \<Rightarrow> outcome \<times> 'b option \<times> (string \<rightharpoonup> 'b)" where
  "PrincipalRateLimitMiddleware allow c defaultBackend overrides =
     (case defaultBackend of
        None \<Rightarrow> (Next c, None, overrides)
      | Some d \<Rightarrow>
          let principal = getRateLimitPrincipal c;
              backend = (case overrides principal of Some ov \<Rightarrow> ov | None \<Rightarrow> d);
              (r, b') = allow principal backend;
              (d', overrides') = (case overrides principal of
                 Some ov \<Rightarrow> (Some d, overrides(principal \<mapsto> b')) | None \<Rightarrow> (Some b', overrides))
          in (case r of
                Inl e \<Rightarrow> Next c
              | Inr (allowed, remaining) \<Rightarrow>
                  if \<not> allowed then rejectLimit ''Rate limit exceeded'' remaining c
                  else Next (cHeader c ''X-RateLimit-Remaining'' (itoa remaining)),
              d', overrides'))"

section \<open>What is used of floating-point rounding\<close>

definition float64_like :: "rat \<Rightarrow> (rat \<Rightarrow> rat) \<Rightarrow> bool" where
  "float64_like eps rnd \<longleftrightarrow> mono rnd \<and> (\<forall>n. \<bar>n\<bar> \<le> 2 ^ 53 \<longrightarrow> rnd (of_int n) = of_int n) \<and> 0 \<le> eps \<and>
     (\<forall>x \<ge> 0. rnd x \<le> x * (1 + eps))"

definition validLimit :: "RateLimitConfig \<Rightarrow> bool" where
  "validLimit cfg \<longleftrightarrow> 1 \<le> BurstSize cfg \<and> BurstSize cfg \<le> 2 ^ 53 \<and>
     0 \<le> RequestsPerMinute cfg \<and> RequestsPerMinute cfg \<le> 2 ^ 53"

lemma rnd_int: "float64_like eps rnd \<Longrightarrow> \<bar>n\<bar> \<le> 2 ^ 53 \<Longrightarrow> rnd (of_int n) = of_int n"
  by (simp add: float64_like_def)

lemma rnd_0: "float64_like eps rnd \<Longrightarrow> rnd 0 = 0"
  using rnd_int[of eps rnd 0] by simp

lemma rnd_mono: "float64_like eps rnd \<Longrightarrow> x \<le> y \<Longrightarrow> rnd x \<le> rnd y"
  by (auto simp: float64_like_def dest: monoD)

lemma rnd_nonneg: "float64_like eps rnd \<Longrightarrow> 0 \<le> x \<Longrightarrow> 0 \<le> rnd x"
  using rnd_mono[of eps rnd 0 x] rnd_0[of eps rnd] by simp

lemma rnd_upper: "float64_like eps rnd \<Longrightarrow> 0 \<le> x \<Longrightarrow> rnd x \<le> x * (1 + eps)"
  by (simp add: float64_like_def)

lemma eps_nonneg: "float64_like eps rnd \<Longrightarrow> 0 \<le> eps"
  by (simp add: float64_like_def)

lemma rnd_burst: "float64_like eps rnd \<Longrightarrow> validLimit cfg \<Longrightarrow> rnd (of_int (BurstSize cfg)) = of_int (BurstSize cfg)"
  by (rule rnd_int) (auto simp: validLimit_def)

lemma rnd_rpm:
  "float64_like eps rnd \<Longrightarrow> validLimit cfg \<Longrightarrow> rnd (of_int (RequestsPerMinute cfg)) = of_int (RequestsPerMinute cfg)"
  by (rule rnd_int) (auto simp: validLimit_def)

text \<open>The rate in tokens per nanosecond, with the error of the four roundings on the way.\<close>

definition rate :: "rat \<Rightarrow> RateLimitConfig \<Rightarrow> rat" where
  "rate eps cfg = (1 + eps) ^ 4 * of_int (RequestsPerMinute cfg) / 60 / of_int nsSecond"

lemma rate_nonneg: "float64_like eps rnd \<Longrightarrow> validLimit cfg \<Longrightarrow> 0 \<le> rate eps cfg"
  by (auto simp: rate_def validLimit_def dest!: eps_nonneg)

lemma durSeconds_bounds:
  assumes f: "float64_like eps rnd" and d: "0 \<le> d"
  shows "0 \<le> durSeconds rnd d \<and> durSeconds rnd d \<le> of_int d / of_int nsSecond * (1 + eps) ^ 2"
proof -
  let ?q = "of_int (d div nsSecond) :: rat" and ?r = "of_int (d mod nsSecond) / of_int nsSecond :: rat"
  have q: "0 \<le> ?q" using d by (simp add: pos_imp_zdiv_nonneg_iff)
  have r: "0 \<le> ?r" by simp
  have e: "0 \<le> eps" using f by (rule eps_nonneg)
  have "?q + ?r = of_int (d div nsSecond * nsSecond + d mod nsSecond) / of_int nsSecond"
    by (simp only: of_int_add of_int_mult) (simp add: field_simps)
  then have s: "?q + ?r = of_int d / of_int nsSecond" by simp
  have "rnd ?q + rnd ?r \<le> ?q * (1 + eps) + ?r * (1 + eps)"
    using rnd_upper[OF f q] rnd_upper[OF f r] by simp
  then have a: "rnd ?q + rnd ?r \<le> of_int d / of_int nsSecond * (1 + eps)"
    by (simp only: s[symmetric] distrib_right)
  have b: "0 \<le> rnd ?q + rnd ?r" using rnd_nonneg[OF f q] rnd_nonneg[OF f r] by simp
  have "rnd (rnd ?q + rnd ?r) \<le> (rnd ?q + rnd ?r) * (1 + eps)" by (rule rnd_upper[OF f b])
  also have "\<dots> \<le> of_int d / of_int nsSecond * (1 + eps) * (1 + eps)"
    using a e by (intro mult_right_mono) auto
  finally show ?thesis using rnd_nonneg[OF f b]
    by (simp add: durSeconds_def power2_eq_square mult.assoc)
qed

lemma tokensToAdd_bounds:
  assumes f: "float64_like eps rnd" and v: "validLimit cfg" and d: "0 \<le> d"
  defines "add \<equiv> rnd (durSeconds rnd d * rnd (rnd (of_int (RequestsPerMinute cfg)) / 60))"
  shows "0 \<le> add \<and> add \<le> rate eps cfg * of_int d"
proof -
  let ?rpm = "of_int (RequestsPerMinute cfg) :: rat" and ?s = "durSeconds rnd d"
  have rpm: "0 \<le> ?rpm / 60" "rnd ?rpm = ?rpm" using v f by (auto simp: validLimit_def rnd_rpm)
  have e: "0 \<le> eps" using f by (rule eps_nonneg)
  note s = durSeconds_bounds[OF f d]
  have p: "0 \<le> rnd (?rpm / 60)" "rnd (?rpm / 60) \<le> ?rpm / 60 * (1 + eps)"
    using rnd_nonneg[OF f rpm(1)] rnd_upper[OF f rpm(1)] by auto
  have m: "0 \<le> ?s * rnd (?rpm / 60)" using s p by simp
  have "?s * rnd (?rpm / 60) \<le> (of_int d / of_int nsSecond * (1 + eps) ^ 2) * (?rpm / 60 * (1 + eps))"
    using s p e d by (intro mult_mono) auto
  then have "?s * rnd (?rpm / 60) * (1 + eps) \<le>
      (of_int d / of_int nsSecond * (1 + eps) ^ 2) * (?rpm / 60 * (1 + eps)) * (1 + eps)"
    using e by (intro mult_right_mono) auto
  also have "\<dots> = rate eps cfg * of_int d"
    by (simp add: rate_def power2_eq_square power4_eq_xxxx)
  finally show ?thesis using rnd_upper[OF f m] rnd_nonneg[OF f m] rpm(2) by (simp add: add_def)
qed

section \<open>The bucket invariant\<close>

definition bucketOk :: "int \<Rightarrow> MemoryRateLimiter \<Rightarrow> bool" where
  "bucketOk now rl \<longleftrightarrow> validLimit (rlConfig rl) \<and> (\<forall>k e. rlEntries rl k = Some e \<longrightarrow>
     0 \<le> tokens e \<and> tokens e \<le> of_int (BurstSize (rlConfig rl)) \<and> lastUpdate e \<le> now)"

lemma refill_bounds:
  assumes f: "float64_like eps rnd" and v: "validLimit cfg" and t: "0 \<le> tokens e" "lastUpdate e \<le> now"
  shows "0 \<le> refill rnd cfg e now \<and> refill rnd cfg e now \<le> of_int (BurstSize cfg)"
proof -
  have a: "0 \<le> rnd (durSeconds rnd (now - lastUpdate e) * rnd (rnd (of_int (RequestsPerMinute cfg)) / 60))"
    using tokensToAdd_bounds[OF f v] t(2) by simp
  have "0 \<le> (of_int (BurstSize cfg) :: rat)" using v by (simp add: validLimit_def)
  with a t(1) show ?thesis
    by (auto simp: refill_def Let_def rnd_burst[OF f v] min_def intro: rnd_nonneg[OF f])
qed

lemma rnd_pred:
  assumes f: "float64_like eps rnd" and v: "validLimit cfg" and t: "1 \<le> t" "t \<le> of_int (BurstSize cfg)"
  shows "0 \<le> rnd (t - 1) \<and> rnd (t - 1) \<le> of_int (BurstSize cfg)"
proof -
  have "rnd (t - 1) \<le> rnd (of_int (BurstSize cfg))" using t by (intro rnd_mono[OF f]) simp
  with t show ?thesis by (simp add: rnd_nonneg[OF f] rnd_burst[OF f v])
qed

lemma bucketOk_new: "validLimit cfg \<Longrightarrow> bucketOk now (NewRateLimiter cfg)"
  by (simp add: bucketOk_def NewRateLimiter_def)

lemma bucketOk_cleanup: "bucketOk now rl \<Longrightarrow> now \<le> now' \<Longrightarrow> bucketOk now' (cleanupTick now' rl)"
  by (fastforce simp: bucketOk_def cleanupTick_def split: option.splits if_splits)

lemma rlConfig_Allow [simp]: "rlConfig (snd (Allow rnd k now rl)) = rlConfig rl"
  by (simp add: Allow_def Let_def split: option.splits)

lemma rlConfig_cleanup [simp]: "rlConfig (cleanupTick now rl) = rlConfig rl"
  by (simp add: cleanupTick_def)

lemma bucketOk_Allow:
  assumes f: "float64_like eps rnd" and ok: "bucketOk now rl" and le: "now \<le> now'"
  shows "bucketOk now' (snd (Allow rnd k now' rl))"
proof -
  have v: "validLimit (rlConfig rl)" using ok by (simp add: bucketOk_def)
  then have B: "1 \<le> (of_int (BurstSize (rlConfig rl)) :: rat)" by (simp add: validLimit_def)
  have old: "0 \<le> tokens e \<and> tokens e \<le> of_int (BurstSize (rlConfig rl)) \<and> lastUpdate e \<le> now'"
    if "rlEntries rl k' = Some e" for k' e using that ok le by (fastforce simp: bucketOk_def)
  show ?thesis
  proof (cases "rlEntries rl k")
    case None
    then show ?thesis
      using rnd_pred[OF f v B order_refl] v old
      by (auto simp: bucketOk_def Allow_def Let_def rnd_burst[OF f v])
  next
    case (Some e)
    have r: "0 \<le> refill rnd (rlConfig rl) e now' \<and> refill rnd (rlConfig rl) e now' \<le> of_int (BurstSize (rlConfig rl))"
      using refill_bounds[OF f v] old[OF Some] by simp
    show ?thesis
      using Some r v old rnd_pred[OF f v, of "refill rnd (rlConfig rl) e now'"]
      by (auto simp: bucketOk_def Allow_def Let_def split: if_splits)
  qed
qed

text \<open>The limiter as a transition system: requests and clean-up ticks at non-decreasing times.\<close>

inductive limStep :: "(rat \<Rightarrow> rat) \<Rightarrow> int \<times> MemoryRateLimiter \<Rightarrow> int \<times> MemoryRateLimiter \<Rightarrow> bool"
  for rnd where
  request: "t \<le> t' \<Longrightarrow> limStep rnd (t, rl) (t', snd (Allow rnd k t' rl))"
| tick: "t \<le> t' \<Longrightarrow> limStep rnd (t, rl) (t', cleanupTick t' rl)"

inductive_cases limStepE: "limStep rnd s s'"

definition limStart :: "rat \<Rightarrow> (rat \<Rightarrow> rat) \<Rightarrow> int \<times> MemoryRateLimiter \<Rightarrow> bool" where
  "limStart eps rnd s \<longleftrightarrow> float64_like eps rnd \<and> (\<exists>cfg. validLimit cfg \<and> snd s = NewRateLimiter cfg)"

definition limInv :: "rat \<Rightarrow> (rat \<Rightarrow> rat) \<Rightarrow> int \<times> MemoryRateLimiter \<Rightarrow> bool" where
  "limInv eps rnd s \<longleftrightarrow> float64_like eps rnd \<and> bucketOk (fst s) (snd s)"

interpretation bucket: inductive_invariant "limStart eps rnd" "limStep rnd" "limInv eps rnd" for eps rnd
proof
  fix s assume "limStart eps rnd s"
  then show "limInv eps rnd s" by (auto simp: limStart_def limInv_def bucketOk_new)
next
  fix s t assume "limInv eps rnd s" "limStep rnd s t"
  then show "limInv eps rnd t"
    by (auto simp: limInv_def elim!: limStepE intro: bucketOk_Allow bucketOk_cleanup)
qed

text \<open>
  Claim C36. In every reachable state of the limiter each client's token count lies between zero
  and the burst size, whatever the rounding of the floating-point operations, and the remaining
  count reported for the response header lies there too.
\<close>

theorem bucket_invariant:
  assumes "float64_like eps rnd" "validLimit cfg" "(limStep rnd)\<^sup>*\<^sup>* (t0, NewRateLimiter cfg) (t, rl)" "t \<le> now"
  shows "(\<forall>k e. rlEntries rl k = Some e \<longrightarrow> 0 \<le> tokens e \<and> tokens e \<le> of_int (BurstSize (rlConfig rl))) \<and>
    0 \<le> RemainingTokens rnd k now rl \<and> RemainingTokens rnd k now rl \<le> BurstSize (rlConfig rl)"
proof -
  have "limInv eps rnd (t, rl)"
    using bucket.reachable_inv[of eps rnd "(t0, NewRateLimiter cfg)"] assms by (auto simp: limStart_def)
  then have ok: "bucketOk t rl" by (simp add: limInv_def)
  then have v: "validLimit (rlConfig rl)" by (simp add: bucketOk_def)
  have "0 \<le> RemainingTokens rnd k now rl \<and> RemainingTokens rnd k now rl \<le> BurstSize (rlConfig rl)"
  proof (cases "rlEntries rl k")
    case None
    with v show ?thesis by (simp add: RemainingTokens_def validLimit_def)
  next
    case (Some e)
    with ok assms(4) have "0 \<le> tokens e" "lastUpdate e \<le> now" by (fastforce simp: bucketOk_def)+
    from refill_bounds[OF assms(1) v this] Some show ?thesis
      by (simp add: RemainingTokens_def truncInt_def floor_le_iff)
  qed
  with ok show ?thesis by (auto simp: bucketOk_def)
qed

lemma float64_like_id: "float64_like 0 (\<lambda>x. x)"
  by (simp add: float64_like_def mono_def)

theorem bucket_invariant_witness:
  "RemainingTokens (\<lambda>x. x) ''k'' 5 (snd (Allow (\<lambda>x. x) ''k'' 3 (NewRateLimiter AuthRateLimitConfig))) \<le> 15"
proof -
  have "(limStep (\<lambda>x. x))\<^sup>*\<^sup>* (0, NewRateLimiter AuthRateLimitConfig)
      (3, snd (Allow (\<lambda>x. x) ''k'' 3 (NewRateLimiter AuthRateLimitConfig)))"
    by (intro r_into_rtranclp request) simp
  from bucket_invariant[OF float64_like_id _ this, of 5 "''k''"] show ?thesis
    by (simp add: validLimit_def AuthRateLimitConfig_def NewRateLimiter_def)
qed

section \<open>How many requests pass\<close>

text \<open>What a client could spend at time \<open>now\<close>: the stored tokens and what accrued since, at most
  the burst; a client without entry has the whole burst.\<close>

definition potential :: "rat \<Rightarrow> string \<Rightarrow> int \<Rightarrow> MemoryRateLimiter \<Rightarrow> rat" where
  "potential eps k now rl =
     (let B = of_int (BurstSize (rlConfig rl)) in
      case rlEntries rl k of
        None \<Rightarrow> B
      | Some e \<Rightarrow> min B (tokens e + rate eps (rlConfig rl) * of_int (now - lastUpdate e)))"

datatype lim_event = LRequest string int | LTick int

fun evTime :: "lim_event \<Rightarrow> int" where
  "evTime (LRequest k t) = t"
| "evTime (LTick t) = t"

fun limApply :: "(rat \<Rightarrow> rat) \<Rightarrow> lim_event \<Rightarrow> MemoryRateLimiter \<Rightarrow> MemoryRateLimiter" where
  "limApply rnd (LRequest k t) rl = snd (Allow rnd k t rl)"
| "limApply rnd (LTick t) rl = cleanupTick t rl"

fun passed :: "(rat \<Rightarrow> rat) \<Rightarrow> string \<Rightarrow> lim_event \<Rightarrow> MemoryRateLimiter \<Rightarrow> nat" where
  "passed rnd k (LRequest k' t) rl =
     (if k' = k \<and> (\<exists>n. fst (Allow rnd k' t rl) = Inr (True, n)) then 1 else 0)"
| "passed rnd k (LTick t) rl = 0"

fun countPassed :: "(rat \<Rightarrow> rat) \<Rightarrow> string \<Rightarrow> lim_event list \<Rightarrow> MemoryRateLimiter \<Rightarrow> nat" where
  "countPassed rnd k [] rl = 0"
| "countPassed rnd k (ev # evs) rl = passed rnd k ev rl + countPassed rnd k evs (limApply rnd ev rl)"

lemma potential_later:
  assumes f: "float64_like eps rnd" and v: "validLimit (rlConfig rl)" and "now \<le> now'"
  shows "potential eps k now' rl \<le> potential eps k now rl + rate eps (rlConfig rl) * of_int (now' - now)"
proof -
  have r: "0 \<le> rate eps (rlConfig rl)" by (rule rate_nonneg[OF f v])
  have d: "0 \<le> rate eps (rlConfig rl) * of_int (now' - now)" using r assms(3) by simp
  show ?thesis
  proof (cases "rlEntries rl k")
    case None
    with d show ?thesis by (simp add: potential_def)
  next
    case (Some e)
    have "rate eps (rlConfig rl) * of_int (now' - lastUpdate e) =
        rate eps (rlConfig rl) * of_int (now - lastUpdate e) + rate eps (rlConfig rl) * of_int (now' - now)"
      by (simp add: algebra_simps)
    with d Some show ?thesis by (simp add: potential_def Let_def min_def)
  qed
qed

lemma refill_potential:
  assumes f: "float64_like eps rnd" and v: "validLimit cfg" and t: "0 \<le> tokens e" "lastUpdate e \<le> now"
  defines "B \<equiv> of_int (BurstSize cfg) :: rat"
  shows "refill rnd cfg e now \<le> min B (tokens e + rate eps cfg * of_int (now - lastUpdate e)) + eps * B"
proof -
  let ?add = "rnd (durSeconds rnd (now - lastUpdate e) * rnd (rnd (of_int (RequestsPerMinute cfg)) / 60))"
  let ?y = "tokens e + ?add"
  have a: "0 \<le> ?add" "?add \<le> rate eps cfg * of_int (now - lastUpdate e)"
    using tokensToAdd_bounds[OF f v, of "now - lastUpdate e"] t(2) by auto
  have e: "0 \<le> eps" by (rule eps_nonneg[OF f])
  have B: "0 \<le> eps * B" using v e by (simp add: B_def validLimit_def)
  have ref: "refill rnd cfg e now = min B (rnd ?y)"
    by (simp add: refill_def Let_def rnd_burst[OF f v] B_def)
  have "min B (rnd ?y) \<le> min B ?y + eps * B"
  proof (cases "?y \<le> B")
    case True
    have "rnd ?y \<le> ?y * (1 + eps)" using a t(1) by (intro rnd_upper[OF f]) simp
    also have "\<dots> = ?y + eps * ?y" by (simp add: algebra_simps)
    also have "\<dots> \<le> ?y + eps * B" using True e by (simp add: mult_left_mono)
    finally show ?thesis using True by simp
  next
    case False
    with B show ?thesis by simp
  qed
  also have "min B ?y \<le> min B (tokens e + rate eps cfg * of_int (now - lastUpdate e))"
    using a by simp
  finally show ?thesis using ref by simp
qed

text \<open>A passed request costs one token, up to the rounding of two operations.\<close>

lemma potential_request:
  assumes f: "float64_like eps rnd" and ok: "bucketOk now rl"
  defines "B \<equiv> of_int (BurstSize (rlConfig rl)) :: rat"
  shows "potential eps k now (snd (Allow rnd k' now rl)) + of_nat (passed rnd k (LRequest k' now) rl)
    \<le> potential eps k now rl + 2 * eps * B"
proof -
  have v: "validLimit (rlConfig rl)" using ok by (simp add: bucketOk_def)
  then have B1: "1 \<le> B" by (simp add: B_def validLimit_def)
  have e: "0 \<le> eps" by (rule eps_nonneg[OF f])
  have slack: "0 \<le> eps * B" using e B1 by simp
  have m1: "rnd (B - 1) = B - 1"
    using rnd_int[OF f, of "BurstSize (rlConfig rl) - 1"] v by (simp add: B_def validLimit_def)
  consider (other) "k' \<noteq> k" | (new) "k' = k" "rlEntries rl k = None" | (old) en where "k' = k" "rlEntries rl k = Some en"
    by (cases "rlEntries rl k") auto
  then show ?thesis
  proof cases
    case other
    with slack show ?thesis by (simp add: potential_def Allow_def Let_def mult.commute split: option.splits)
  next
    case new
    with m1 slack show ?thesis
      by (simp add: potential_def Allow_def Let_def rnd_burst[OF f v] B_def)
  next
    case old
    let ?t = "refill rnd (rlConfig rl) en now"
    from ok old have en: "0 \<le> tokens en" "lastUpdate en \<le> now" by (fastforce simp: bucketOk_def)+
    have t: "?t \<le> potential eps k now rl + eps * B"
      using refill_potential[OF f v en] old by (simp add: potential_def B_def Let_def)
    have tB: "?t \<le> B" using refill_bounds[OF f v en] by (simp add: B_def)
    show ?thesis
    proof (cases "1 \<le> ?t")
      case True
      have "rnd (?t - 1) \<le> (?t - 1) * (1 + eps)" using True by (intro rnd_upper[OF f]) simp
      also have "\<dots> = ?t - 1 + eps * (?t - 1)" by (simp add: algebra_simps)
      also have "\<dots> \<le> ?t - 1 + eps * B" using tB e B1 by (simp add: mult_left_mono)
      finally have "min B (rnd (?t - 1)) + 1 \<le> potential eps k now rl + 2 * (eps * B)" using t by linarith
      with True old show ?thesis by (simp add: potential_def Allow_def Let_def B_def)
    next
      case False
      have "min B ?t \<le> potential eps k now rl + 2 * (eps * B)" using t slack by linarith
      with False old show ?thesis by (simp add: potential_def Allow_def Let_def B_def)
    qed
  qed
qed

text \<open>A clean-up gives a client the whole burst back, but only after ten idle minutes, in which
  it accrued as much if the burst is at most ten minutes' worth.\<close>

lemma potential_tick:
  assumes f: "float64_like eps rnd" and ok: "bucketOk now rl"
    and burst: "BurstSize (rlConfig rl) \<le> 10 * RequestsPerMinute (rlConfig rl)"
  shows "potential eps k now (cleanupTick now rl) \<le> potential eps k now rl"
proof (cases "rlEntries rl k")
  case None
  then show ?thesis by (simp add: potential_def cleanupTick_def)
next
  case (Some en)
  let ?rpm = "of_int (RequestsPerMinute (rlConfig rl)) :: rat" and ?B = "of_int (BurstSize (rlConfig rl)) :: rat"
  show ?thesis
  proof (cases "now - lastUpdate en > 10 * nsMinute")
    case False
    with Some show ?thesis by (simp add: potential_def cleanupTick_def)
  next
    case True
    have v: "validLimit (rlConfig rl)" using ok by (simp add: bucketOk_def)
    have e: "0 \<le> eps" by (rule eps_nonneg[OF f])
    have rpm: "0 \<le> ?rpm" using v by (simp add: validLimit_def)
    have tok: "0 \<le> tokens en" using ok Some by (auto simp: bucketOk_def)
    have b: "?B \<le> 10 * ?rpm" using burst by (metis of_int_le_iff of_int_mult of_int_numeral)
    have p: "1 \<le> (1 + eps) ^ 4" using e by (intro one_le_power) simp
    have "10 * ?rpm \<le> (1 + eps) ^ 4 * (10 * ?rpm)" using p rpm by (simp add: mult_le_cancel_right1)
    also have "\<dots> = rate eps (rlConfig rl) * of_int (10 * nsMinute)" by (simp add: rate_def)
    also have "\<dots> \<le> rate eps (rlConfig rl) * of_int (now - lastUpdate en)"
      using True rate_nonneg[OF f v] by (intro mult_left_mono) linarith+
    finally have "?B \<le> tokens en + rate eps (rlConfig rl) * of_int (now - lastUpdate en)"
      using b tok by linarith
    with True Some show ?thesis by (simp add: potential_def cleanupTick_def Let_def)
  qed
qed

lemma potential_event:
  assumes f: "float64_like eps rnd" and ok: "bucketOk now rl"
    and burst: "BurstSize (rlConfig rl) \<le> 10 * RequestsPerMinute (rlConfig rl)" and le: "now \<le> evTime ev"
  shows "potential eps k (evTime ev) (limApply rnd ev rl) + of_nat (passed rnd k ev rl)
    \<le> potential eps k now rl + rate eps (rlConfig rl) * of_int (evTime ev - now) +
      2 * eps * of_int (BurstSize (rlConfig rl))"
proof -
  have v: "validLimit (rlConfig rl)" using ok by (simp add: bucketOk_def)
  have ok': "bucketOk (evTime ev) rl" using ok le by (fastforce simp: bucketOk_def)
  have e: "0 \<le> 2 * eps * of_int (BurstSize (rlConfig rl))"
    using v eps_nonneg[OF f] by (simp add: validLimit_def)
  note later = potential_later[OF f v le, of k]
  show ?thesis
  proof (cases ev)
    case (LRequest k' t)
    with potential_request[OF f ok', of k k'] later show ?thesis by simp
  next
    case (LTick t)
    with potential_tick[OF f ok' burst, of k] later e show ?thesis by simp
  qed
qed

lemma bucketOk_limApply:
  "float64_like eps rnd \<Longrightarrow> bucketOk now rl \<Longrightarrow> now \<le> evTime ev \<Longrightarrow> bucketOk (evTime ev) (limApply rnd ev rl)"
  by (cases ev) (auto intro: bucketOk_Allow bucketOk_cleanup)

lemma rlConfig_limApply [simp]: "rlConfig (limApply rnd ev rl) = rlConfig rl"
  by (cases ev) auto

fun inOrder :: "int \<Rightarrow> lim_event list \<Rightarrow> bool" where
  "inOrder t [] = True"
| "inOrder t (ev # evs) = (t \<le> evTime ev \<and> inOrder (evTime ev) evs)"

fun endTime :: "int \<Rightarrow> lim_event list \<Rightarrow> int" where
  "endTime t [] = t"
| "endTime t (ev # evs) = endTime (evTime ev) evs"

lemma potential_run:
  assumes f: "float64_like eps rnd"
  shows "bucketOk now rl \<Longrightarrow> BurstSize (rlConfig rl) \<le> 10 * RequestsPerMinute (rlConfig rl) \<Longrightarrow> inOrder now evs \<Longrightarrow>
    0 \<le> potential eps k (endTime now evs) (fold (limApply rnd) evs rl) \<and>
    potential eps k (endTime now evs) (fold (limApply rnd) evs rl) + of_nat (countPassed rnd k evs rl)
    \<le> potential eps k now rl + rate eps (rlConfig rl) * of_int (endTime now evs - now) +
      2 * eps * of_int (BurstSize (rlConfig rl)) * of_nat (length evs)"
proof (induction evs arbitrary: now rl)
  case Nil
  then have "validLimit (rlConfig rl)" by (simp add: bucketOk_def)
  then have B: "0 \<le> (of_int (BurstSize (rlConfig rl)) :: rat)" and r: "0 \<le> rate eps (rlConfig rl)"
    using rate_nonneg[OF f] by (auto simp: validLimit_def)
  have "0 \<le> potential eps k now rl"
  proof (cases "rlEntries rl k")
    case None
    with B show ?thesis by (simp add: potential_def)
  next
    case (Some e)
    with Nil have "0 \<le> tokens e" "lastUpdate e \<le> now" by (fastforce simp: bucketOk_def)+
    with Some B r show ?thesis by (simp add: potential_def)
  qed
  then show ?case by simp
next
  case (Cons ev evs)
  then have le: "now \<le> evTime ev" and ok: "bucketOk (evTime ev) (limApply rnd ev rl)"
    by (auto intro: bucketOk_limApply[OF f])
  have ih: "0 \<le> potential eps k (endTime (evTime ev) evs) (fold (limApply rnd) evs (limApply rnd ev rl)) \<and>
    potential eps k (endTime (evTime ev) evs) (fold (limApply rnd) evs (limApply rnd ev rl)) +
      of_nat (countPassed rnd k evs (limApply rnd ev rl))
    \<le> potential eps k (evTime ev) (limApply rnd ev rl) + rate eps (rlConfig rl) * of_int (endTime (evTime ev) evs - evTime ev) +
      2 * eps * of_int (BurstSize (rlConfig rl)) * of_nat (length evs)"
    using Cons.IH[OF ok] Cons.prems by simp
  have split: "rate eps (rlConfig rl) * of_int (endTime (evTime ev) evs - now) =
     rate eps (rlConfig rl) * of_int (endTime (evTime ev) evs - evTime ev) +
     rate eps (rlConfig rl) * of_int (evTime ev - now)" by (simp add: algebra_simps)
  have len: "2 * eps * of_int (BurstSize (rlConfig rl)) * of_nat (length (ev # evs)) =
     2 * eps * of_int (BurstSize (rlConfig rl)) * of_nat (length evs) + 2 * eps * of_int (BurstSize (rlConfig rl))"
    by (simp add: algebra_simps)
  show ?case
    unfolding endTime.simps split len countPassed.simps of_nat_add fold.simps comp_apply
    using ih potential_event[OF f Cons.prems(1,2) le, of k] by linarith
qed

text \<open>
  Claim C22. The limiter limits: over any sequence of requests by any clients and of clean-ups,
  the requests of one client that pass number at most the burst size plus the configured rate
  times the elapsed time, up to the rounding of the floating-point operations: a factor
  \<open>(1 + eps) ^ 4\<close> on the rate and \<open>2 * eps * burst\<close> per event, where \<open>eps\<close> is \<open>2 ^ (-53)\<close> for
  \<^verbatim>\<open>float64\<close>. The burst must not exceed ten minutes' worth of requests, as in all built-in
  configurations: otherwise the clean-up refills a bucket early.
\<close>

theorem rate_limit_bound:
  assumes "float64_like eps rnd" "validLimit cfg" "BurstSize cfg \<le> 10 * RequestsPerMinute cfg" "inOrder t0 evs"
  shows "of_nat (countPassed rnd k evs (NewRateLimiter cfg)) \<le>
    (of_int (BurstSize cfg) :: rat) +
    (1 + eps) ^ 4 * of_int (RequestsPerMinute cfg) * (of_int (endTime t0 evs - t0) / of_int nsMinute) +
    2 * eps * of_int (BurstSize cfg) * of_nat (length evs)"
proof -
  have c: "rlConfig (NewRateLimiter cfg) = cfg" by (simp add: NewRateLimiter_def)
  have r: "rate eps cfg * of_int d =
     (1 + eps) ^ 4 * of_int (RequestsPerMinute cfg) * (of_int d / of_int nsMinute)" for d
    by (simp add: rate_def)
  have "potential eps k t0 (NewRateLimiter cfg) = of_int (BurstSize cfg)"
    by (simp add: potential_def NewRateLimiter_def)
  with potential_run[OF assms(1) bucketOk_new[OF assms(2)] _ assms(4), of k, unfolded c, OF assms(3)]
  show ?thesis unfolding r by linarith
qed

theorem rate_limit_bound_witness:
  "countPassed (\<lambda>x. x) ''k'' (replicate 40 (LRequest ''k'' nsMinute)) (NewRateLimiter AuthRateLimitConfig) \<le> 35"
proof -
  have o: "inOrder t (replicate n (LRequest ''k'' nsMinute))" if "t \<le> nsMinute" for t n
    using that by (induction n arbitrary: t) auto
  have e: "endTime 0 (replicate 40 (LRequest ''k'' nsMinute)) = nsMinute"
    by (simp add: numeral_eq_Suc)
  have "of_nat (countPassed (\<lambda>x. x) ''k'' (replicate 40 (LRequest ''k'' nsMinute)) (NewRateLimiter AuthRateLimitConfig))
     \<le> (35 :: rat)"
    using rate_limit_bound[OF float64_like_id _ _ o, of AuthRateLimitConfig 0 "''k''" 40] e
    by (simp add: validLimit_def AuthRateLimitConfig_def)
  then show ?thesis by (metis of_nat_le_iff of_nat_numeral)
qed

section \<open>Principals and the middleware\<close>

text \<open>
  Clients do not share buckets: two requests are charged to the same key of the
  individual limiter exactly when they have the same kind of identity (user, else API key, else
  address) and the same value of it; and an organization's key is never that of a client.
\<close>

theorem principals_separate:
  "(getRateLimitPrincipal c = getRateLimitPrincipal d \<longleftrightarrow>
     (let ident = (\<lambda>x. if cGetString x ''user_id'' \<noteq> [] then (''user'', cGetString x ''user_id'')
         else if cGetString x ''api_key_id'' \<noteq> [] then (''apikey'', cGetString x ''api_key_id'')
         else (''ip'', if reqClientIP (ginReq x) = [] then reqRemoteAddr (ginReq x) else reqClientIP (ginReq x)))
      in ident c = ident d)) \<and>
   getRateLimitPrincipal c \<noteq> ''org:'' @ orgID \<and> tierFromPrincipal (getRateLimitPrincipal c) = ''individual''"
  by (auto simp: getRateLimitPrincipal_def tierFromPrincipal_def Let_def)

text \<open>
  The organization-aware middleware answers 429 exactly when the individual backend
  refuses the caller, or allows it and the organization's backend refuses the caller's
  organization; an individual refusal never charges the organization; and a backend that fails
  lets the request through.
\<close>

theorem OrgRateLimitMiddleware_correct:
  fixes allow :: "'b allow_fn"
  assumes r: "OrgRateLimitMiddleware allow c (Some b) orgb = (out, b', orgb')"
  shows "(\<not> passes out \<longleftrightarrow>
      (\<exists>n. fst (allow (getRateLimitPrincipal c) b) = Inr (False, n)) \<or>
      (\<exists>n ob m. fst (allow (getRateLimitPrincipal c) b) = Inr (True, n) \<and> orgb = Some ob \<and>
         cGetString c ''organization_id'' \<noteq> [] \<and>
         fst (allow (''org:'' @ cGetString c ''organization_id'') ob) = Inr (False, m))) \<and>
    (\<not> passes out \<longrightarrow> outStatus out = 429) \<and>
    ((\<exists>n. fst (allow (getRateLimitPrincipal c) b) = Inr (False, n)) \<longrightarrow> orgb' = orgb)"
proof -
  obtain ri bi where i: "allow (getRateLimitPrincipal c) b = (ri, bi)" by fastforce
  show ?thesis
  proof (cases ri)
    case (Inl e)
    with r i show ?thesis by (auto simp: OrgRateLimitMiddleware_def)
  next
    case (Inr an)
    obtain al n where an: "an = (al, n)" by fastforce
    show ?thesis
    proof (cases "\<not> al \<or> orgb = None \<or> cGetString c ''organization_id'' = []")
      case True
      with r i Inr an show ?thesis
        by (cases al; cases orgb; cases "cGetString c ''organization_id'' = []")
          (auto simp: OrgRateLimitMiddleware_def rejectLimit_def Let_def)
    next
      case False
      then obtain ob where ob: "orgb = Some ob" by auto
      obtain ro bo where o: "allow (''org:'' @ cGetString c ''organization_id'') ob = (ro, bo)" by fastforce
      from r i Inr an False ob o show ?thesis
        by (cases ro) (auto simp: OrgRateLimitMiddleware_def rejectLimit_def Let_def split: if_splits)
    qed
  qed
qed

theorem OrgRateLimitMiddleware_correct_witness:
  "\<not> passes (fst (OrgRateLimitMiddleware (\<lambda>k n. (Inr (n > (0::nat), int n - 1), n - 1))
      (cSet \<lparr>ginReq = \<lparr>reqMethod = ''GET'', reqHeader = (\<lambda>_. []), reqCookie = (\<lambda>_. None), reqParam = (\<lambda>_. []),
         reqFullPath = [], reqClientIP = ''1.1.1.1'', reqRemoteAddr = []\<rparr>, ginKeys = Map.empty, ginHeaders = []\<rparr>
         ''organization_id'' (GStr ''o1'')) (Some 3) (Some 0)))"
proof -
  let ?allow = "\<lambda>k n. (Inr (n > (0::nat), int n - 1), n - 1)"
  let ?c = "cSet \<lparr>ginReq = \<lparr>reqMethod = ''GET'', reqHeader = (\<lambda>_. []), reqCookie = (\<lambda>_. None), reqParam = (\<lambda>_. []),
         reqFullPath = [], reqClientIP = ''1.1.1.1'', reqRemoteAddr = []\<rparr>, ginKeys = Map.empty, ginHeaders = []\<rparr>
         ''organization_id'' (GStr ''o1'')"
  obtain out b' o' where r: "OrgRateLimitMiddleware ?allow ?c (Some 3) (Some 0) = (out, b', o')"
    by (cases "OrgRateLimitMiddleware ?allow ?c (Some 3) (Some 0)") auto
  from OrgRateLimitMiddleware_correct[OF r] r show ?thesis by simp
qed

section \<open>The limits of authenticated routes\<close>

text \<open>
  The authenticated route group applies the principal limits and then the organization limits,
  both over the same general limiter (\<^verbatim>\<open>internal/api/router_routes.go\<close>).
\<close>

definition authenticatedLimits ::
  "'b allow_fn \<Rightarrow> gin \<Rightarrow> 'b option \<Rightarrow> (string \<rightharpoonup> 'b) \<Rightarrow> 'b option \<Rightarrow> outcome \<times> 'b option \<times> (string \<rightharpoonup> 'b) \<times> 'b option" where
  "authenticatedLimits allow c general overrides orgLimiter =
     (case PrincipalRateLimitMiddleware allow c general overrides of
        (Abort st b c1, general', overrides') \<Rightarrow> (Abort st b c1, general', overrides', orgLimiter)
      | (Next c1, general', overrides') \<Rightarrow>
          (case OrgRateLimitMiddleware allow c1 general' orgLimiter of
             (out, general'', orgLimiter') \<Rightarrow> (out, general'', overrides', orgLimiter')))"

lemma getRateLimitPrincipal_cHeader [simp]: "getRateLimitPrincipal (cHeader c h v) = getRateLimitPrincipal c"
  by (simp add: getRateLimitPrincipal_def cGetString_def cHeader_def)

lemma refill_same_instant:
  assumes f: "float64_like eps rnd" and v: "validLimit cfg" and n: "0 \<le> n" "n \<le> BurstSize cfg"
  shows "refill rnd cfg \<lparr>tokens = of_int n, lastUpdate = now\<rparr> now = of_int n"
proof -
  have "rnd (of_int n) = of_int n" using n v by (intro rnd_int[OF f]) (auto simp: validLimit_def)
  then show ?thesis
    using n by (simp add: refill_def durSeconds_def rnd_0[OF f] rnd_burst[OF f v] min_def)
qed

lemma Allow_fresh:
  assumes f: "float64_like eps rnd" and v: "validLimit cfg"
  shows "Allow rnd k now (NewRateLimiter cfg) = (Inr (True, BurstSize cfg - 1),
    \<lparr>rlConfig = cfg, rlEntries = [k \<mapsto> \<lparr>tokens = of_int (BurstSize cfg - 1), lastUpdate = now\<rparr>]\<rparr>)"
proof -
  have "rnd (of_int (BurstSize cfg - 1)) = of_int (BurstSize cfg - 1)"
    using v by (intro rnd_int[OF f]) (auto simp: validLimit_def)
  then have "rnd (of_int (BurstSize cfg) - 1) = of_int (BurstSize cfg - 1)" by simp
  then show ?thesis using v
    by (simp add: Allow_def NewRateLimiter_def rnd_burst[OF f v] truncInt_def validLimit_def Let_def)
qed

lemma Allow_same_instant:
  assumes f: "float64_like eps rnd" and v: "validLimit (rlConfig rl)"
    and e: "rlEntries rl k = Some \<lparr>tokens = of_int n, lastUpdate = now\<rparr>" and n: "1 \<le> n" "n \<le> BurstSize (rlConfig rl)"
  shows "Allow rnd k now rl = (Inr (True, n - 1),
    rl\<lparr>rlEntries := (rlEntries rl)(k \<mapsto> \<lparr>tokens = of_int (n - 1), lastUpdate = now\<rparr>)\<rparr>)"
proof -
  have "rnd (of_int (n - 1)) = of_int (n - 1)" using n v by (intro rnd_int[OF f]) (auto simp: validLimit_def)
  then have "rnd (of_int n - 1) = of_int (n - 1)" by simp
  then show ?thesis using e n refill_same_instant[OF f v, of n now]
    by (simp add: Allow_def Let_def truncInt_def)
qed

text \<open>
  On authenticated routes every request is charged twice: the first request of a client
  without override, on an otherwise idle limiter, passes and leaves the client two tokens short
  of the burst, so the documented limits are effectively halved.
\<close>

theorem authenticated_request_charged_twice:
  assumes f: "float64_like eps rnd" and v: "validLimit cfg" and b: "2 \<le> BurstSize cfg"
    and ov: "overrides (getRateLimitPrincipal c) = None"
  shows "\<exists>out rl. authenticatedLimits (\<lambda>k. Allow rnd k now) c (Some (NewRateLimiter cfg)) overrides None =
      (out, Some rl, overrides, None) \<and> passes out \<and>
      RemainingTokens rnd (getRateLimitPrincipal c) now rl = BurstSize cfg - 2"
proof -
  let ?p = "getRateLimitPrincipal c"
  let ?rl = "\<lparr>rlConfig = cfg, rlEntries = [?p \<mapsto> \<lparr>tokens = of_int (BurstSize cfg - 1), lastUpdate = now\<rparr>]\<rparr>"
  have a2: "Allow rnd ?p now ?rl = (Inr (True, BurstSize cfg - 1 - 1),
      ?rl\<lparr>rlEntries := (rlEntries ?rl)(?p \<mapsto> \<lparr>tokens = of_int (BurstSize cfg - 1 - 1), lastUpdate = now\<rparr>)\<rparr>)"
    by (rule Allow_same_instant[OF f]) (use v b in auto)
  have rem: "refill rnd cfg \<lparr>tokens = of_int (BurstSize cfg - 1 - 1), lastUpdate = now\<rparr> now = of_int (BurstSize cfg - 1 - 1)"
    by (rule refill_same_instant[OF f v]) (use b in auto)
  have "authenticatedLimits (\<lambda>k. Allow rnd k now) c (Some (NewRateLimiter cfg)) overrides None =
      (Next (cHeader (cHeader c ''X-RateLimit-Remaining'' (itoa (BurstSize cfg - 1)))
         ''X-RateLimit-Remaining'' (itoa (BurstSize cfg - 1 - 1))),
       Some (?rl\<lparr>rlEntries := (rlEntries ?rl)(?p \<mapsto> \<lparr>tokens = of_int (BurstSize cfg - 1 - 1), lastUpdate = now\<rparr>)\<rparr>),
       overrides, None)"
    unfolding authenticatedLimits_def PrincipalRateLimitMiddleware_def OrgRateLimitMiddleware_def
    by (simp add: ov Allow_fresh[OF f v] a2[simplified] Let_def)
  moreover have "RemainingTokens rnd ?p now
      (?rl\<lparr>rlEntries := (rlEntries ?rl)(?p \<mapsto> \<lparr>tokens = of_int (BurstSize cfg - 1 - 1), lastUpdate = now\<rparr>)\<rparr>) =
      BurstSize cfg - 2"
    using b rem by (simp add: RemainingTokens_def truncInt_def)
  ultimately show ?thesis by auto
qed

theorem authenticated_request_charged_twice_witness:
  "\<exists>out rl. authenticatedLimits (\<lambda>k. Allow (\<lambda>x. x) k 5)
      \<lparr>ginReq = undefined, ginKeys = [''user_id'' \<mapsto> GStr ''u''], ginHeaders = []\<rparr>
      (Some (NewRateLimiter DefaultRateLimitConfig)) Map.empty None = (out, Some rl, Map.empty, None) \<and>
    RemainingTokens (\<lambda>x. x) ''user:u'' 5 rl = 48"
  using authenticated_request_charged_twice[OF float64_like_id, of DefaultRateLimitConfig Map.empty
      "\<lparr>ginReq = undefined, ginKeys = [''user_id'' \<mapsto> GStr ''u''], ginHeaders = []\<rparr>" 5]
  by (auto simp: validLimit_def DefaultRateLimitConfig_def getRateLimitPrincipal_def cGetString_def)

end
