(* ===== verification/Quota.thy ===== *)
theory Quota
  imports RateLimit
begin

text \<open>
  Per-organization quotas: the enforcement middleware and the counters
  (\<^verbatim>\<open>internal/middleware/quota.go\<close>), the status model (\<^verbatim>\<open>internal/db/models/org_quota.go\<close>)
  and the dashboard query (\<^verbatim>\<open>internal/db/repositories/org_quota_repository.go\<close>).

  The tables are maps: limits per organization, usage per organization and date. The database's
  current date is an argument (a day number), as are the clock readings and the RFC 3339
  formatting of a time. A failing query is the flag \<open>qFails\<close>.
\<close>

section \<open>The tables\<close>

record OrgQuota =
  StorageBytesLimit :: int
  PublishesPerDay :: int
  DownloadsPerDay :: int

record OrgQuotaUsage =
  StorageBytesUsed :: int
  PublishesToday :: int
  DownloadsToday :: int

record quotadb =
  qOrgs :: "string list"
  qLimits :: "string \<rightharpoonup> OrgQuota"
  qUsage :: "(string \<times> int) \<rightharpoonup> OrgQuotaUsage"
  qFails :: bool

definition noUsage :: OrgQuotaUsage where
  "noUsage = \<lparr>StorageBytesUsed = 0, PublishesToday = 0, DownloadsToday = 0\<rparr>"

definition usageOn :: "quotadb \<Rightarrow> string \<Rightarrow> int \<Rightarrow> OrgQuotaUsage" where
  "usageOn db org date = (case qUsage db (org, date) of None \<Rightarrow> noUsage | Some u \<Rightarrow> u)"

text \<open>A sum in an \<^verbatim>\<open>INT\<close> or \<^verbatim>\<open>BIGINT\<close> column; outside the range the statement fails.\<close>

definition columnAdd :: "nat \<Rightarrow> int \<Rightarrow> int \<Rightarrow> int option" where
  "columnAdd w a b = (if - (2 ^ (w - 1)) \<le> a + b \<and> a + b < 2 ^ (w - 1) then Some (a + b) else None)"

text \<open>The upsert shared by the three counters: insert a row of defaults if there is none, then update.\<close>

definition upsertUsage ::
  "(OrgQuotaUsage \<Rightarrow> OrgQuotaUsage option) \<Rightarrow> quotadb \<Rightarrow> string \<Rightarrow> int \<Rightarrow> (string + unit) \<times> quotadb" where
  "upsertUsage f db org date =
     (if qFails db then (Inl ''db'', db)
      else (case f (usageOn db org date) of
              None \<Rightarrow> (Inl ''out of range'', db)
            | Some u \<Rightarrow> (Inr (), db\<lparr>qUsage := (qUsage db)((org, date) \<mapsto> u)\<rparr>)))"

section \<open>quota.go\<close>

definition IncrementPublishCount :: "quotadb \<Rightarrow> string \<Rightarrow> int \<Rightarrow> (string + unit) \<times> quotadb" where
  "IncrementPublishCount db org date =
     upsertUsage (\<lambda>u. map_option (\<lambda>n. u\<lparr>PublishesToday := n\<rparr>) (columnAdd 32 (PublishesToday u) 1)) db org date"

definition IncrementDownloadCount :: "quotadb \<Rightarrow> string \<Rightarrow> int \<Rightarrow> (string + unit) \<times> quotadb" where
  "IncrementDownloadCount db org date =
     upsertUsage (\<lambda>u. map_option (\<lambda>n. u\<lparr>DownloadsToday := n\<rparr>) (columnAdd 32 (DownloadsToday u) 1)) db org date"

definition UpdateStorageUsage :: "quotadb \<Rightarrow> string \<Rightarrow> int \<Rightarrow> int \<Rightarrow> (string + unit) \<times> quotadb" where
  "UpdateStorageUsage db org deltaBytes date =
     upsertUsage (\<lambda>u. map_option (\<lambda>n. u\<lparr>StorageBytesUsed := n\<rparr>) (columnAdd 64 (StorageBytesUsed u) deltaBytes)) db org date"

abbreviation nsDay :: int where "nsDay \<equiv> 24 * 60 * nsMinute"

definition nextMidnightUTC :: "int \<Rightarrow> int" where
  "nextMidnightUTC now = (now div nsDay + 1) * nsDay"

text \<open>Error, or whether the quota is exceeded and the reset time (0 stands for the zero time).\<close>

definition isPublishQuotaExceeded :: "quotadb \<Rightarrow> string \<Rightarrow> int \<Rightarrow> int \<Rightarrow> string + bool \<times> int" where
  "isPublishQuotaExceeded db org date now =
     (if qFails db then Inl ''db''
      else (case qLimits db org of
              None \<Rightarrow> Inl ''no rows''
            | Some q \<Rightarrow>
                if PublishesPerDay q = 0 then Inr (False, 0)
                else Inr (PublishesToday (usageOn db org date) \<ge> PublishesPerDay q, nextMidnightUTC now)))"

definition isDownloadQuotaExceeded :: "quotadb \<Rightarrow> string \<Rightarrow> int \<Rightarrow> int \<Rightarrow> string + bool \<times> int" where
  "isDownloadQuotaExceeded db org date now =
     (if qFails db then Inl ''db''
      else (case qLimits db org of
              None \<Rightarrow> Inl ''no rows''
            | Some q \<Rightarrow>
                if DownloadsPerDay q = 0 then Inr (False, 0)
                else Inr (DownloadsToday (usageOn db org date) \<ge> DownloadsPerDay q, nextMidnightUTC now)))"

text \<open>\<^verbatim>\<open>int(time.Until(t).Seconds())\<close>: whole seconds, truncated toward zero.\<close>

definition untilSeconds :: "int \<Rightarrow> int \<Rightarrow> int" where
  "untilSeconds t now = (if t < now then - ((now - t) div nsSecond) else (t - now) div nsSecond)"

definition quotaVerdict :: "(int \<Rightarrow> string) \<Rightarrow> string \<Rightarrow> (string + bool \<times> int) \<Rightarrow> int \<Rightarrow> gin \<Rightarrow> outcome" where
  "quotaVerdict rfc3339 msg verdict now2 c =
     (case verdict of
        Inl e \<Rightarrow> Next c
      | Inr (exceeded, resetTime) \<Rightarrow>
          if exceeded then
            Abort StatusTooManyRequests [(''error'', JStr msg), (''quota_reset'', JStr (rfc3339 resetTime))]
              (cHeader (cHeader c ''X-Quota-Reset'' (rfc3339 resetTime)) ''Retry-After'' (itoa (untilSeconds resetTime now2)))
          else Next c)"

definition CheckPublishQuota :: "(int \<Rightarrow> string) \<Rightarrow> quotadb \<Rightarrow> int \<Rightarrow> int \<Rightarrow> int \<Rightarrow> gin \<Rightarrow> outcome" where
  "CheckPublishQuota rfc3339 db date now1 now2 c =
     (let org = cGetString c ''organization_id'' in
      if org = [] then Next c
      else quotaVerdict rfc3339 ''Daily publish quota exceeded'' (isPublishQuotaExceeded db org date now1) now2 c)"

definition CheckDownloadQuota :: "(int \<Rightarrow> string) \<Rightarrow> quotadb \<Rightarrow> int \<Rightarrow> int \<Rightarrow> int \<Rightarrow> gin \<Rightarrow> outcome" where
  "CheckDownloadQuota rfc3339 db date now1 now2 c =
     (let org = cGetString c ''organization_id'' in
      if org = [] then Next c
      else quotaVerdict rfc3339 ''Daily download quota exceeded'' (isDownloadQuotaExceeded db org date now1) now2 c)"

section \<open>org\_quota.go and org\_quota\_repository.go\<close>

definition ratio :: "(rat \<Rightarrow> rat) \<Rightarrow> int \<Rightarrow> int \<Rightarrow> rat" where
  "ratio rnd used limit = (if limit \<le> 0 then 0 else rnd (rnd (of_int used) / rnd (of_int limit)))"

record QuotaStatus =
  qsOrganizationID :: string
  qsStorageBytesLimit :: int
  qsStorageBytesUsed :: int
  qsStorageRatio :: rat
  qsPublishesPerDay :: int
  qsPublishesToday :: int
  qsPublishRatio :: rat
  qsDownloadsPerDay :: int
  qsDownloadsToday :: int
  qsDownloadRatio :: rat

definition IsStorageExceeded :: "QuotaStatus \<Rightarrow> bool" where
  "IsStorageExceeded q = (qsStorageBytesLimit q > 0 \<and> qsStorageBytesUsed q \<ge> qsStorageBytesLimit q)"

definition IsPublishExceeded :: "QuotaStatus \<Rightarrow> bool" where
  "IsPublishExceeded q = (qsPublishesPerDay q > 0 \<and> qsPublishesToday q \<ge> qsPublishesPerDay q)"

definition IsDownloadExceeded :: "QuotaStatus \<Rightarrow> bool" where
  "IsDownloadExceeded q = (qsDownloadsPerDay q > 0 \<and> qsDownloadsToday q \<ge> qsDownloadsPerDay q)"

definition quotaStatusOf :: "(rat \<Rightarrow> rat) \<Rightarrow> quotadb \<Rightarrow> int \<Rightarrow> string \<Rightarrow> QuotaStatus" where
  "quotaStatusOf rnd db date org =
     (let q = (case qLimits db org of
                 None \<Rightarrow> \<lparr>StorageBytesLimit = 0, PublishesPerDay = 0, DownloadsPerDay = 0\<rparr> | Some q \<Rightarrow> q);
          u = usageOn db org date
      in \<lparr>qsOrganizationID = org,
          qsStorageBytesLimit = StorageBytesLimit q, qsStorageBytesUsed = StorageBytesUsed u,
          qsStorageRatio = ratio rnd (StorageBytesUsed u) (StorageBytesLimit q),
          qsPublishesPerDay = PublishesPerDay q, qsPublishesToday = PublishesToday u,
          qsPublishRatio = ratio rnd (PublishesToday u) (PublishesPerDay q),
          qsDownloadsPerDay = DownloadsPerDay q, qsDownloadsToday = DownloadsToday u,
          qsDownloadRatio = ratio rnd (DownloadsToday u) (DownloadsPerDay q)\<rparr>)"

text \<open>The organizations are listed in the order of their IDs; \<open>qOrgs\<close> has that order.\<close>

definition ListQuotaStatuses :: "(rat \<Rightarrow> rat) \<Rightarrow> quotadb \<Rightarrow> int \<Rightarrow> string \<Rightarrow> string + QuotaStatus list" where
  "ListQuotaStatuses rnd db date orgID =
     (if qFails db then Inl ''list quota statuses''
      else Inr (map (quotaStatusOf rnd db date) (filter (\<lambda>org. orgID = [] \<or> org = orgID) (qOrgs db))))"

section \<open>Properties\<close>

text \<open>A publisher's day: each publish is checked, then counted.\<close>

fun publishDay :: "(int \<Rightarrow> string) \<Rightarrow> int \<Rightarrow> (int \<times> int) list \<Rightarrow> gin \<Rightarrow> quotadb \<Rightarrow> nat" where
  "publishDay fmt date [] c db = 0"
| "publishDay fmt date ((n1, n2) # ts) c db =
     (if passes (CheckPublishQuota fmt db date n1 n2 c)
      then Suc (publishDay fmt date ts c (snd (IncrementPublishCount db (cGetString c ''organization_id'') date)))
      else publishDay fmt date ts c db)"

lemma CheckPublishQuota_passes:
  assumes "cGetString c ''organization_id'' = org" "org \<noteq> []" "qLimits db org = Some q" "\<not> qFails db"
    "0 < PublishesPerDay q"
  shows "passes (CheckPublishQuota fmt db date n1 n2 c) \<longleftrightarrow> PublishesToday (usageOn db org date) < PublishesPerDay q"
  using assms by (auto simp: CheckPublishQuota_def quotaVerdict_def isPublishQuotaExceeded_def Let_def)

text \<open>
  A positive daily publish limit is kept: of any number of publishes an organization
  tries one after the other on one day, each checked and then counted, exactly those fitting into
  what is left of the limit are let through, and the rest are refused.
\<close>

theorem publish_quota_exact:
  assumes "cGetString c ''organization_id'' = org" "org \<noteq> []" "qLimits db org = Some q" "\<not> qFails db"
    "0 < PublishesPerDay q" "PublishesPerDay q < 2 ^ 31" "0 \<le> PublishesToday (usageOn db org date)"
  shows "publishDay fmt date ts c db =
    min (length ts) (nat (PublishesPerDay q - PublishesToday (usageOn db org date)))"
  using assms
proof (induction ts arbitrary: db)
  case (Cons t ts)
  obtain n1 n2 where t: "t = (n1, n2)" by (cases t)
  let ?db' = "snd (IncrementPublishCount db org date)"
  note chk = CheckPublishQuota_passes[OF Cons.prems(1-5), of fmt date n1 n2]
  show ?case
  proof (cases "PublishesToday (usageOn db org date) < PublishesPerDay q")
    case True
    have inc: "usageOn ?db' org date = (usageOn db org date)\<lparr>PublishesToday := PublishesToday (usageOn db org date) + 1\<rparr>"
      "qLimits ?db' = qLimits db" "\<not> qFails ?db'"
      using Cons.prems True by (auto simp: IncrementPublishCount_def upsertUsage_def usageOn_def columnAdd_def)
    have "publishDay fmt date ts c ?db' =
        min (length ts) (nat (PublishesPerDay q - PublishesToday (usageOn ?db' org date)))"
      using Cons.prems inc by (intro Cons.IH) auto
    with True chk inc(1) Cons.prems(1) t show ?thesis by auto
  next
    case False
    with chk Cons t show ?thesis by simp
  qed
qed simp

theorem publish_quota_exact_witness:
  "publishDay (\<lambda>_. []) 7 [(0, 0), (0, 0), (0, 0)]
     \<lparr>ginReq = undefined, ginKeys = [''organization_id'' \<mapsto> GStr ''o1''], ginHeaders = []\<rparr>
     \<lparr>qOrgs = [''o1''], qLimits = [''o1'' \<mapsto> \<lparr>StorageBytesLimit = 0, PublishesPerDay = 2, DownloadsPerDay = 0\<rparr>],
      qUsage = Map.empty, qFails = False\<rparr> = 2"
  by (subst publish_quota_exact[where org = "''o1''" and q = "\<lparr>StorageBytesLimit = 0, PublishesPerDay = 2, DownloadsPerDay = 0\<rparr>"])
    (simp_all add: cGetString_def usageOn_def noUsage_def)

text \<open>
  The dashboard and the middleware agree: for an organization with non-negative limits,
  the middleware refuses publishes (downloads) exactly when its dashboard row says the quota is
  exceeded.
\<close>

theorem dashboard_agrees:
  assumes "\<not> qFails db" "cGetString c ''organization_id'' = org" "org \<noteq> []" "org \<in> set (qOrgs db)"
    and "\<forall>q. qLimits db org = Some q \<longrightarrow> 0 \<le> PublishesPerDay q \<and> 0 \<le> DownloadsPerDay q"
  shows "\<exists>rows row. ListQuotaStatuses rnd db date org = Inr rows \<and> row \<in> set rows \<and> qsOrganizationID row = org \<and>
    (passes (CheckPublishQuota fmt db date n1 n2 c) \<longleftrightarrow> \<not> IsPublishExceeded row) \<and>
    (passes (CheckDownloadQuota fmt db date n1 n2 c) \<longleftrightarrow> \<not> IsDownloadExceeded row)"
proof -
  let ?row = "quotaStatusOf rnd db date org"
  have "qsOrganizationID ?row = org \<and>
    (passes (CheckPublishQuota fmt db date n1 n2 c) \<longleftrightarrow> \<not> IsPublishExceeded ?row) \<and>
    (passes (CheckDownloadQuota fmt db date n1 n2 c) \<longleftrightarrow> \<not> IsDownloadExceeded ?row)"
    using assms
    by (cases "qLimits db org") (auto simp: CheckPublishQuota_def CheckDownloadQuota_def quotaVerdict_def Let_def
        isPublishQuotaExceeded_def isDownloadQuotaExceeded_def quotaStatusOf_def IsPublishExceeded_def IsDownloadExceeded_def)
  with assms(1,4) show ?thesis by (auto simp: ListQuotaStatuses_def)
qed

theorem dashboard_agrees_witness:
  "passes (CheckPublishQuota (\<lambda>_. [])
     \<lparr>qOrgs = [''o1''], qLimits = [''o1'' \<mapsto> \<lparr>StorageBytesLimit = 0, PublishesPerDay = 2, DownloadsPerDay = 0\<rparr>],
      qUsage = Map.empty, qFails = False\<rparr> 0 0 0
     \<lparr>ginReq = undefined, ginKeys = [''organization_id'' \<mapsto> GStr ''o1''], ginHeaders = []\<rparr>)"
  using dashboard_agrees[of "\<lparr>qOrgs = [''o1''], qLimits = [''o1'' \<mapsto> \<lparr>StorageBytesLimit = 0, PublishesPerDay = 2, DownloadsPerDay = 0\<rparr>],
      qUsage = Map.empty, qFails = False\<rparr>" "\<lparr>ginReq = undefined, ginKeys = [''organization_id'' \<mapsto> GStr ''o1''], ginHeaders = []\<rparr>"
      "''o1''" "\<lambda>x. x" 0 "\<lambda>_. []" 0 0]
  by (auto simp: cGetString_def ListQuotaStatuses_def quotaStatusOf_def IsPublishExceeded_def usageOn_def noUsage_def)

text \<open>
  Storage usage is forgotten every midnight: bytes recorded on one day do not appear in
  the dashboard row of the next, so an organization far above its storage limit is not reported
  as exceeding it.
\<close>

theorem storage_usage_resets_daily:
  "\<exists>db db'. UpdateStorageUsage db ''o1'' 1000 7 = (Inr (), db') \<and>
     IsStorageExceeded (quotaStatusOf rnd db' 7 ''o1'') \<and> \<not> IsStorageExceeded (quotaStatusOf rnd db' 8 ''o1'')"
  by (rule exI[of _ "\<lparr>qOrgs = [''o1''], qLimits = [''o1'' \<mapsto> \<lparr>StorageBytesLimit = 100, PublishesPerDay = 0, DownloadsPerDay = 0\<rparr>],
      qUsage = Map.empty, qFails = False\<rparr>"])
    (simp add: UpdateStorageUsage_def upsertUsage_def quotaStatusOf_def IsStorageExceeded_def usageOn_def noUsage_def columnAdd_def Let_def)

end
