(* ===== verification/Setup.thy ===== *)
theory Setup
  imports Scopes
begin

text \<open>
  The first-run setup surface: \<^verbatim>\<open>internal/middleware/setup.go\<close> and the reads and writes of
  \<^verbatim>\<open>system_settings\<close> it relies on (\<^verbatim>\<open>internal/db/repositories/oidc_config_repository.go\<close>).

  The middleware issues up to three queries; each sees its own snapshot of the row, so the
  result of each query is an argument. The bcrypt comparison is a parameter.
\<close>

section \<open>oidc\_config\_repository.go: the settings row\<close>

record system_settings =
  setup_completed :: bool
  setup_token_hash :: "string option"
  oidc_configured :: bool
  scanning_configured :: bool

text \<open>The value and whether an error came with it.\<close>

definition IsSetupCompleted :: "system_settings rowres \<Rightarrow> bool \<times> bool" where
  "IsSetupCompleted q = (case q of NoRow \<Rightarrow> (False, False) | Row r \<Rightarrow> (setup_completed r, False) | RowErr e \<Rightarrow> (False, True))"

definition HasPendingFeatureSetup :: "system_settings rowres \<Rightarrow> bool \<times> bool" where
  "HasPendingFeatureSetup q =
     (case q of NoRow \<Rightarrow> (False, False) | Row r \<Rightarrow> (setup_completed r \<and> \<not> scanning_configured r, False)
              | RowErr e \<Rightarrow> (False, True))"

definition GetSetupTokenHash :: "system_settings rowres \<Rightarrow> string \<times> bool" where
  "GetSetupTokenHash q =
     (case q of NoRow \<Rightarrow> ([], True) | RowErr e \<Rightarrow> ([], True)
              | Row r \<Rightarrow> ((case setup_token_hash r of None \<Rightarrow> [] | Some h \<Rightarrow> h), False))"

definition SetSetupCompleted :: "system_settings \<Rightarrow> system_settings" where
  "SetSetupCompleted r = r\<lparr>setup_completed := True, setup_token_hash := None\<rparr>"

definition SetSetupTokenHash :: "string \<Rightarrow> system_settings \<Rightarrow> system_settings" where
  "SetSetupTokenHash h r = r\<lparr>setup_token_hash := Some h\<rparr>"

definition SetOIDCConfigured :: "system_settings \<Rightarrow> system_settings" where
  "SetOIDCConfigured r = r\<lparr>oidc_configured := True\<rparr>"

definition SetScanningConfig :: "system_settings \<Rightarrow> system_settings" where
  "SetScanningConfig r = r\<lparr>scanning_configured := True\<rparr>"

section \<open>setup.go: the attempt limiter\<close>

abbreviation setupMaxAttempts :: nat where "setupMaxAttempts \<equiv> 5"
abbreviation setupRateWindow :: int where "setupRateWindow \<equiv> 60 * 1000000000"

text \<open>The attempts per address; a missing entry of the Go map is the empty list.\<close>

type_synonym setup_limiter = "string \<Rightarrow> int list"

definition newSetupRateLimiter :: setup_limiter where
  "newSetupRateLimiter = (\<lambda>_. [])"

definition allow :: "string \<Rightarrow> int \<Rightarrow> setup_limiter \<Rightarrow> bool \<times> setup_limiter" where
  "allow ip now rl =
     (let cutoff = now - setupRateWindow;
          recent = filter (\<lambda>t. t > cutoff) (rl ip)
      in if length recent \<ge> setupMaxAttempts then (False, rl(ip := recent))
         else (True, rl(ip := recent @ [now])))"

section \<open>setup.go: SetupTokenMiddleware\<close>

definition featureSetupAllowedPaths :: "string \<Rightarrow> bool" where
  "featureSetupAllowedPaths p = (p \<in> set [''/api/v1/setup/validate-token'', ''/api/v1/setup/scanning/test'',
     ''/api/v1/setup/scanning'', ''/api/v1/setup/scanning/install'', ''/api/v1/setup/complete''])"

text \<open>
  \<^verbatim>\<open>strings.EqualFold\<close> against an ASCII letter: the letter in either case and, for k and s, the
  UTF-8 encodings of the Kelvin sign and the long s, the only other runes that fold to one.
\<close>

definition foldRunes :: "char \<Rightarrow> string list" where
  "foldRunes c =
     (let n = of_char c :: nat;
          upper = (if 97 \<le> n \<and> n \<le> 122 then n - 32 else n);
          lower = (if 65 \<le> n \<and> n \<le> 90 then n + 32 else n)
      in [[char_of upper], [char_of lower]] @
         (if lower = 107 then [[CHR 0xE2, CHR 0x84, CHR 0xAA]] else []) @
         (if lower = 115 then [[CHR 0xC5, CHR 0xBF]] else []))"

fun equalFold :: "string \<Rightarrow> string \<Rightarrow> bool" where
  "equalFold s [] = (s = [])"
| "equalFold s (c # cs) =
     (case find (hasPrefix s) (foldRunes c) of None \<Rightarrow> False | Some r \<Rightarrow> equalFold (drop (length r) s) cs)"

text \<open>\<^verbatim>\<open>strings.SplitN(h, " ", 2)\<close>: the parts around the first space, if there is one.\<close>

definition splitSpace :: "string \<Rightarrow> (string \<times> string) option" where
  "splitSpace h = map_option (\<lambda>i. (take i h, drop (Suc i) h)) (indexByte (CHR '' '') h)"

definition checkSetupToken ::
  "(string \<Rightarrow> string \<Rightarrow> bool) \<Rightarrow> system_settings rowres \<Rightarrow> gin \<Rightarrow> outcome" where
  "checkSetupToken bcryptOk q3 c =
     (let h = reqHeader (ginReq c) ''Authorization'' in
      if h = [] then abortErr StatusUnauthorized
        ''Authorization header required. Use: Authorization: SetupToken <token>'' c
      else (case splitSpace h of
              None \<Rightarrow> abortErr StatusUnauthorized
                ''Invalid authorization scheme. Use: Authorization: SetupToken <token>'' c
            | Some (scheme, rest) \<Rightarrow>
                if \<not> equalFold scheme ''SetupToken'' then abortErr StatusUnauthorized
                  ''Invalid authorization scheme. Use: Authorization: SetupToken <token>'' c
                else
                  let rawToken = trimSpace rest;
                      (storedHash, err) = GetSetupTokenHash q3 in
                  if err then abortErr StatusInternalServerError ''Failed to validate setup token'' c
                  else if storedHash = [] then abortErr StatusForbidden
                    ''No setup token has been generated. Restart the server to generate one.'' c
                  else if \<not> bcryptOk storedHash rawToken then abortErr StatusUnauthorized ''Invalid setup token'' c
                  else Next (cSet c ''is_setup_request'' (GBool True))))"

definition SetupTokenMiddleware ::
  "(string \<Rightarrow> string \<Rightarrow> bool) \<Rightarrow> system_settings rowres \<Rightarrow> system_settings rowres \<Rightarrow> system_settings rowres \<Rightarrow>
   int \<Rightarrow> gin \<Rightarrow> setup_limiter \<Rightarrow> outcome \<times> setup_limiter" where
  "SetupTokenMiddleware bcryptOk q1 q2 q3 now c rl =
     (let (completed, err) = IsSetupCompleted q1;
          (hasPending, pendingErr) = HasPendingFeatureSetup q2 in
      if err then (abortErr StatusInternalServerError ''Failed to check setup status'' c, rl)
      else if completed \<and> pendingErr then (abortErr StatusInternalServerError ''Failed to check setup status'' c, rl)
      else if completed \<and> (\<not> hasPending \<or> \<not> featureSetupAllowedPaths (reqFullPath (ginReq c))) then
        (abortErr StatusForbidden ''Setup has already been completed. These endpoints are permanently disabled.'' c, rl)
      else (case allow (reqClientIP (ginReq c)) now rl of
              (False, rl') \<Rightarrow> (abortErr StatusTooManyRequests
                 ''Too many setup token attempts. Try again in one minute.'' c, rl')
            | (True, rl') \<Rightarrow> (checkSetupToken bcryptOk q3 c, rl')))"

section \<open>Properties\<close>

text \<open>
  Claim C32. Once setup is completed, no setup route outside the allow-list of a pending optional
  feature is ever reachable, whatever token is presented, and such a request neither compares a
  token nor counts as an attempt; and completing setup clears the token, so that with no token
  generated later every setup request is refused.
\<close>

theorem setup_locked_after_completion:
  assumes "setup_completed r1" "\<not> featureSetupAllowedPaths (reqFullPath (ginReq c))"
  shows "\<not> passes (fst (SetupTokenMiddleware bcryptOk (Row r1) q2 q3 now c rl)) \<and>
    snd (SetupTokenMiddleware bcryptOk (Row r1) q2 q3 now c rl) = rl \<and>
    outStatus (fst (SetupTokenMiddleware bcryptOk (Row r1) q2 q3 now c rl)) \<in> {403, 500} \<and>
    \<not> passes (fst (SetupTokenMiddleware bcryptOk q1 q2 (Row (SetSetupCompleted r3)) now d rl))"
proof -
  have "\<not> passes (checkSetupToken bcryptOk (Row (SetSetupCompleted r3)) d)"
    by (auto simp: checkSetupToken_def GetSetupTokenHash_def SetSetupCompleted_def Let_def split: option.splits)
  then show ?thesis
    using assms by (auto simp: SetupTokenMiddleware_def IsSetupCompleted_def HasPendingFeatureSetup_def
        split: rowres.splits prod.splits bool.splits)
qed

theorem setup_locked_after_completion_witness:
  "\<not> passes (fst (SetupTokenMiddleware (\<lambda>_ _. True)
      (Row \<lparr>setup_completed = True, setup_token_hash = Some ''h'', oidc_configured = True, scanning_configured = False\<rparr>)
      (Row \<lparr>setup_completed = True, setup_token_hash = Some ''h'', oidc_configured = True, scanning_configured = False\<rparr>)
      (Row \<lparr>setup_completed = True, setup_token_hash = Some ''h'', oidc_configured = True, scanning_configured = False\<rparr>)
      0 (exGin\<lparr>ginReq := (ginReq exGin)\<lparr>reqFullPath := ''/api/v1/setup/oidc''\<rparr>\<rparr>) newSetupRateLimiter))"
  using setup_locked_after_completion[of
      "\<lparr>setup_completed = True, setup_token_hash = Some ''h'', oidc_configured = True, scanning_configured = False\<rparr>"
      "exGin\<lparr>ginReq := (ginReq exGin)\<lparr>reqFullPath := ''/api/v1/setup/oidc''\<rparr>\<rparr>"]
  by (simp add: featureSetupAllowedPaths_def)

section \<open>The attempt limit\<close>

text \<open>The times at which attempts of an address are let through, in a run of attempts.\<close>

fun admitted :: "string \<Rightarrow> (string \<times> int) list \<Rightarrow> setup_limiter \<Rightarrow> int list" where
  "admitted ip [] rl = []"
| "admitted ip ((i, t) # es) rl =
     (if i = ip \<and> fst (allow i t rl) then [t] else []) @ admitted ip es (snd (allow i t rl))"

fun timesFrom :: "int \<Rightarrow> (string \<times> int) list \<Rightarrow> bool" where
  "timesFrom t0 [] = True"
| "timesFrom t0 ((i, t) # es) = (t0 \<le> t \<and> timesFrom t es)"

abbreviation inWindow :: "int \<Rightarrow> int list \<Rightarrow> int list" where
  "inWindow w xs \<equiv> filter (\<lambda>t. w < t \<and> t \<le> w + setupRateWindow) xs"

text \<open>The limiter's list and the history agree on everything a later attempt can look at.\<close>

definition tracks :: "string \<Rightarrow> int list \<Rightarrow> int \<Rightarrow> setup_limiter \<Rightarrow> bool" where
  "tracks ip hist now rl \<longleftrightarrow> (\<forall>t \<in> set hist. t \<le> now) \<and>
     (\<forall>c \<ge> now - setupRateWindow. filter (\<lambda>t. t > c) hist = filter (\<lambda>t. t > c) (rl ip)) \<and>
     (\<forall>w. length (inWindow w hist) \<le> setupMaxAttempts)"

lemma tracks_later: "tracks ip hist t0 rl \<Longrightarrow> t0 \<le> t \<Longrightarrow> tracks ip hist t rl"
  by (force simp: tracks_def)

lemma filter_filter_gt: "c' \<le> c \<Longrightarrow> filter (\<lambda>t. c < t) (filter (\<lambda>t. c' < t) xs) = filter (\<lambda>t. c < (t :: int)) xs"
  by (induction xs) auto

lemma length_filter_le_filter:
  "(\<And>x. x \<in> set xs \<Longrightarrow> P x \<Longrightarrow> Q x) \<Longrightarrow> length (filter P xs) \<le> length (filter Q xs)"
  by (induction xs) auto

lemma tracks_allow:
  assumes tr: "tracks ip hist now rl"
  shows "tracks ip (hist @ (if i = ip \<and> fst (allow i now rl) then [now] else [])) now (snd (allow i now rl))"
proof (cases "i = ip")
  case False
  with tr show ?thesis by (simp add: tracks_def allow_def Let_def)
next
  case True
  let ?c = "now - setupRateWindow" and ?recent = "filter (\<lambda>t. t > now - setupRateWindow) (rl ip)"
  have rec: "filter (\<lambda>t. t > ?c) hist = ?recent" using tr by (simp add: tracks_def)
  have keep: "filter (\<lambda>t. t > c) hist = filter (\<lambda>t. t > c) ?recent" if "?c \<le> c" for c
    using tr that filter_filter_gt[OF that, of "rl ip"] by (simp add: tracks_def)
  show ?thesis
  proof (cases "length ?recent \<ge> setupMaxAttempts")
    case full: True
    with True tr keep show ?thesis by (simp add: tracks_def allow_def Let_def)
  next
    case room: False
    have win: "length (inWindow w (hist @ [now])) \<le> setupMaxAttempts" for w
    proof (cases "w < now \<and> now \<le> w + setupRateWindow")
      case True
      have "length (inWindow w hist) \<le> length (filter (\<lambda>t. t > ?c) hist)"
        by (rule length_filter_le_filter) (use True in auto)
      with rec room True show ?thesis by simp
    next
      case False
      with tr show ?thesis by (auto simp: tracks_def)
    qed
    from room True tr keep win show ?thesis by (auto simp: tracks_def allow_def Let_def)
  qed
qed

lemma tracks_run:
  "tracks ip hist t0 rl \<Longrightarrow> timesFrom t0 es \<Longrightarrow>
   length (inWindow w (hist @ admitted ip es rl)) \<le> setupMaxAttempts"
proof (induction es arbitrary: hist t0 rl)
  case Nil
  then show ?case by (simp add: tracks_def)
next
  case (Cons e es)
  obtain i t where e: "e = (i, t)" by (cases e)
  from Cons.prems e have le: "t0 \<le> t" "timesFrom t es" by auto
  from Cons.IH[OF tracks_allow[OF tracks_later[OF Cons.prems(1) le(1)], of i] le(2)] show ?case
    by (simp add: e)
qed

text \<open>
  Setup tokens cannot be guessed faster than five attempts a minute per address: in any
  run of attempts from any addresses at non-decreasing times, and for any window of one minute,
  at most five attempts of one address are let through to the token comparison.
\<close>

theorem setup_attempts_bounded:
  assumes "timesFrom t0 es"
  shows "length (inWindow w (admitted ip es newSetupRateLimiter)) \<le> setupMaxAttempts"
proof -
  have "tracks ip [] t0 newSetupRateLimiter" by (simp add: tracks_def newSetupRateLimiter_def)
  from tracks_run[OF this assms, of w] show ?thesis by simp
qed

theorem setup_attempts_bounded_witness:
  "length (inWindow 0 (admitted ''a'' (map (\<lambda>t. (''a'', t)) [1, 2, 3, 4, 5, 6, 7]) newSetupRateLimiter)) \<le> 5"
  by (rule setup_attempts_bounded[of 0]) simp

end
