(* ===== verification/Transport.thy ===== *)
theory Transport
  imports Prelude
begin

text \<open>
  Guards at the edge: client certificates (\<^verbatim>\<open>internal/auth/mtls/provider.go\<close> and
  \<^verbatim>\<open>middleware.go\<close>), the binary mirror's access check
  (\<^verbatim>\<open>internal/middleware/binary_mirror_auth.go\<close>) and the cross-site request forgery
  protection (\<^verbatim>\<open>internal/middleware/csrf.go\<close>).

  Unicode lower-casing, \<^verbatim>\<open>url.Parse\<close> (its scheme and host) and the CIDR and address
  functions of \<^verbatim>\<open>net\<close> are arguments; no theorem depends on a property of them.
\<close>

section \<open>mtls/provider.go\<close>

record certificate =
  certCommonName :: string
  certSubject :: string

record mtls_config =
  mtlsEnabled :: bool
  mtlsClientCAFile :: string
  mtlsMappings :: "(string \<times> string list) list"

type_synonym mtls_provider = "string \<rightharpoonup> string list"

definition normalizeSubject :: "(string \<Rightarrow> string) \<Rightarrow> string \<Rightarrow> string" where
  "normalizeSubject lower s = trimSpace (lower s)"

definition NewProvider :: "(string \<Rightarrow> string) \<Rightarrow> mtls_config \<Rightarrow> string + mtls_provider" where
  "NewProvider lower cfg =
     (if \<not> mtlsEnabled cfg then Inl ''mTLS is not enabled''
      else if mtlsClientCAFile cfg = [] then Inl ''mtls.client_ca_file is required''
      else Inr (fold (\<lambda>(subject, scopes) m. m(normalizeSubject lower subject \<mapsto> scopes)) (mtlsMappings cfg) Map.empty))"

definition Authenticate ::
  "(string \<Rightarrow> string) \<Rightarrow> mtls_provider \<Rightarrow> certificate option \<Rightarrow> string + string \<times> string list" where
  "Authenticate lower p cert =
     (case cert of
        None \<Rightarrow> Inl ''no client certificate provided''
      | Some ct \<Rightarrow>
          (case p (normalizeSubject lower (''CN='' @ certCommonName ct)) of
             Some scopes \<Rightarrow> Inr (''CN='' @ certCommonName ct, scopes)
           | None \<Rightarrow>
               (case p (normalizeSubject lower (certSubject ct)) of
                  Some scopes \<Rightarrow> Inr (certSubject ct, scopes)
                | None \<Rightarrow> Inl ''no mTLS mapping for subject'')))"

section \<open>mtls/middleware.go\<close>

text \<open>The connection's verified chains; \<open>None\<close> is a connection without TLS.\<close>

type_synonym tls_state = "certificate list list option"

definition mtlsAuthMiddleware :: "(string \<Rightarrow> string) \<Rightarrow> mtls_provider option \<Rightarrow> tls_state \<Rightarrow> gin \<Rightarrow> outcome" where
  "mtlsAuthMiddleware lower prov tls c =
     (case (prov, tls) of
        (Some p, Some ((cert # _) # _)) \<Rightarrow>
          (case Authenticate lower p (Some cert) of
             Inl e \<Rightarrow> Next c
           | Inr (subject, scopes) \<Rightarrow>
               Next (cSet (cSet (cSet c ''auth_method'' (GStr ''mtls'')) ''mtls_subject'' (GStr subject))
                 ''scopes'' (GStrs scopes)))
      | _ \<Rightarrow> Next c)"

definition RequireMTLS :: "gin \<Rightarrow> outcome" where
  "RequireMTLS c = (case cGet c ''mtls_subject'' of
     None \<Rightarrow> abortErr StatusUnauthorized ''mTLS client certificate required'' c | Some _ \<Rightarrow> Next c)"

section \<open>binary\_mirror\_auth.go\<close>

definition binaryMirrorAllowlistMiddleware ::
  "(string \<Rightarrow> 'n option) \<Rightarrow> (string \<Rightarrow> 'a option) \<Rightarrow> ('n \<Rightarrow> 'a \<Rightarrow> bool) \<Rightarrow> string list \<Rightarrow> gin \<Rightarrow> outcome" where
  "binaryMirrorAllowlistMiddleware parseCIDR parseIP netContains cidrs c =
     (case parseIP (reqClientIP (ginReq c)) of
        None \<Rightarrow> abortErr StatusForbidden ''forbidden'' c
      | Some ip \<Rightarrow>
          if list_ex (\<lambda>n. netContains n ip) (List.map_filter parseCIDR cidrs) then Next c
          else abortErr StatusForbidden ''forbidden'' c)"

definition binaryMirrorMTLSMiddleware :: "tls_state \<Rightarrow> gin \<Rightarrow> outcome" where
  "binaryMirrorMTLSMiddleware tls c =
     (if tls = None \<or> tls = Some [] then abortErr StatusForbidden ''client certificate required'' c else Next c)"

definition BinaryMirrorAuthMiddleware ::
  "(string \<Rightarrow> 'n option) \<Rightarrow> (string \<Rightarrow> 'a option) \<Rightarrow> ('n \<Rightarrow> 'a \<Rightarrow> bool) \<Rightarrow> string \<Rightarrow> string list \<Rightarrow> tls_state \<Rightarrow> gin \<Rightarrow> outcome" where
  "BinaryMirrorAuthMiddleware parseCIDR parseIP netContains auth cidrs tls c =
     (if auth = ''allowlist'' then binaryMirrorAllowlistMiddleware parseCIDR parseIP netContains cidrs c
      else if auth = ''mtls'' then binaryMirrorMTLSMiddleware tls c
      else Next c)"

section \<open>csrf.go\<close>

record csrf_config =
  csrfPublicURL :: string
  csrfBaseURL :: string
  csrfAllowedOrigins :: "string list"

definition GetPublicURL :: "csrf_config \<Rightarrow> string" where
  "GetPublicURL cfg = (if csrfPublicURL cfg \<noteq> [] then csrfPublicURL cfg else csrfBaseURL cfg)"

type_synonym url_parse = "string \<Rightarrow> (string \<times> string) option"

definition canonicalOrigin :: "(string \<Rightarrow> string) \<Rightarrow> url_parse \<Rightarrow> string \<Rightarrow> string" where
  "canonicalOrigin lower urlParse raw =
     (case urlParse (trimSpace raw) of
        None \<Rightarrow> []
      | Some (sch, hst) \<Rightarrow>
          if sch = [] \<or> hst = [] then []
          else
            let scheme = lower sch;
                host = (if scheme = ''http'' then trimSuffix (lower hst) '':80''
                        else if scheme = ''https'' then trimSuffix (lower hst) '':443''
                        else lower hst)
            in scheme @ ''://'' @ host)"

definition csrfOriginAllowlist :: "(string \<Rightarrow> string) \<Rightarrow> url_parse \<Rightarrow> csrf_config option \<Rightarrow> string set" where
  "csrfOriginAllowlist lower urlParse cfg =
     (case cfg of
        None \<Rightarrow> {}
      | Some cf \<Rightarrow>
          set (filter (\<lambda>og. og \<noteq> []) (map (canonicalOrigin lower urlParse)
            (filter (\<lambda>cand. cand \<noteq> ''*'') ([GetPublicURL cf, csrfBaseURL cf] @ csrfAllowedOrigins cf)))))"

definition requestOrigin :: "(string \<Rightarrow> string) \<Rightarrow> url_parse \<Rightarrow> gin \<Rightarrow> string" where
  "requestOrigin lower urlParse c =
     (let hdr = reqHeader (ginReq c) in
      if hdr ''Origin'' \<noteq> [] then
        (if canonicalOrigin lower urlParse (hdr ''Origin'') \<noteq> [] then canonicalOrigin lower urlParse (hdr ''Origin'') else ''null'')
      else if hdr ''Referer'' \<noteq> [] then
        (if canonicalOrigin lower urlParse (hdr ''Referer'') \<noteq> [] then canonicalOrigin lower urlParse (hdr ''Referer'') else ''null'')
      else [])"

text \<open>\<^verbatim>\<open>strings.ToUpper\<close> on a request method, which the HTTP server has checked to be an ASCII token.\<close>

definition toUpperASCII :: "string \<Rightarrow> string" where
  "toUpperASCII s = map (\<lambda>ch. let n = of_char ch :: nat in if 97 \<le> n \<and> n \<le> 122 then char_of (n - 32) else ch) s"

definition safeMethod :: "gin \<Rightarrow> bool" where
  "safeMethod c = (toUpperASCII (reqMethod (ginReq c)) \<in> set [''GET'', ''HEAD'', ''OPTIONS''])"

definition doubleSubmit :: "gin \<Rightarrow> outcome" where
  "doubleSubmit c =
     (case reqCookie (ginReq c) ''tfr_csrf'' of
        None \<Rightarrow> abortErr StatusForbidden ''CSRF cookie missing'' c
      | Some tok \<Rightarrow>
          if tok = [] then abortErr StatusForbidden ''CSRF cookie missing'' c
          else if reqHeader (ginReq c) ''X-CSRF-Token'' = [] then abortErr StatusForbidden ''CSRF token header missing'' c
          else if tok \<noteq> reqHeader (ginReq c) ''X-CSRF-Token'' then abortErr StatusForbidden ''CSRF token mismatch'' c
          else Next c)"

definition CSRFMiddleware :: "(string \<Rightarrow> string) \<Rightarrow> url_parse \<Rightarrow> csrf_config option \<Rightarrow> gin \<Rightarrow> outcome" where
  "CSRFMiddleware lower urlParse cfg c =
     (if safeMethod c then Next c
      else if cGetString c ''auth_method'' = ''api_key'' then Next c
      else if cGetString c ''auth_method'' = ''jwt'' then
        (let origin = requestOrigin lower urlParse c in
         if origin = [] then Next c
         else if origin \<notin> csrfOriginAllowlist lower urlParse cfg
         then abortErr StatusForbidden ''request origin not allowed'' c
         else Next c)
      else doubleSubmit c)"

section \<open>Lemmas\<close>

lemma canonicalOrigin_sep: "canonicalOrigin lower up raw \<noteq> [] \<Longrightarrow> contains (canonicalOrigin lower up raw) ''://''"
proof -
  have c: "contains (x @ ''://'' @ y) ''://''" for x y
    by (induction x) (auto simp: hasPrefix_def)
  assume "canonicalOrigin lower up raw \<noteq> []"
  then show ?thesis
    using c by (auto simp: canonicalOrigin_def Let_def split: option.splits if_splits)
qed

lemma null_not_allowed: "''null'' \<notin> csrfOriginAllowlist lower up cfg"
proof
  assume "''null'' \<in> csrfOriginAllowlist lower up cfg"
  then obtain cand where "canonicalOrigin lower up cand = ''null''"
    by (fastforce simp: csrfOriginAllowlist_def split: option.splits if_splits)
  with canonicalOrigin_sep[of lower up cand] show False by (simp add: hasPrefix_def)
qed

lemma doubleSubmit_passes:
  "passes (doubleSubmit c) \<longleftrightarrow>
   (\<exists>tok. tok \<noteq> [] \<and> reqCookie (ginReq c) ''tfr_csrf'' = Some tok \<and> reqHeader (ginReq c) ''X-CSRF-Token'' = tok)"
  by (auto simp: doubleSubmit_def split: option.splits)

section \<open>Properties\<close>

text \<open>
  Claim C31. The enforcement matrix of the forgery protection: a mutating request passes exactly
  when it was authenticated by an API key; or by a bearer token and it either carries neither an
  Origin nor a Referer, or its origin is the canonical form of one of the deployment's own URLs
  or configured origins (never of the wildcard, and never an opaque origin); or else it carries a
  non-empty forgery cookie and repeats it in the header. Every refusal is a 403.
\<close>

theorem CSRFMiddleware_correct:
  assumes "\<not> safeMethod c"
  shows "(passes (CSRFMiddleware lower up cfg c) \<longleftrightarrow>
     (let am = cGetString c ''auth_method''; hdr = reqHeader (ginReq c);
          sent = (if hdr ''Origin'' \<noteq> [] then hdr ''Origin'' else hdr ''Referer'') in
      am = ''api_key'' \<or>
      (am = ''jwt'' \<and> (sent = [] \<or>
         (\<exists>cf own. cfg = Some cf \<and> own \<in> {GetPublicURL cf, csrfBaseURL cf} \<union> set (csrfAllowedOrigins cf) \<and>
            own \<noteq> ''*'' \<and> canonicalOrigin lower up own \<noteq> [] \<and>
            canonicalOrigin lower up sent = canonicalOrigin lower up own))) \<or>
      (am \<noteq> ''api_key'' \<and> am \<noteq> ''jwt'' \<and>
         (\<exists>tok. tok \<noteq> [] \<and> reqCookie (ginReq c) ''tfr_csrf'' = Some tok \<and> hdr ''X-CSRF-Token'' = tok)))) \<and>
    (\<not> passes (CSRFMiddleware lower up cfg c) \<longrightarrow> outStatus (CSRFMiddleware lower up cfg c) = 403)"
proof -
  let ?am = "cGetString c ''auth_method''" and ?hdr = "reqHeader (ginReq c)"
  let ?sent = "if ?hdr ''Origin'' \<noteq> [] then ?hdr ''Origin'' else ?hdr ''Referer''"
  have empty: "requestOrigin lower up c = [] \<longleftrightarrow> ?sent = []"
    by (simp add: requestOrigin_def Let_def)
  have allowed: "requestOrigin lower up c \<in> csrfOriginAllowlist lower up cfg \<longleftrightarrow>
      (\<exists>cf own. cfg = Some cf \<and> own \<in> {GetPublicURL cf, csrfBaseURL cf} \<union> set (csrfAllowedOrigins cf) \<and>
         own \<noteq> ''*'' \<and> canonicalOrigin lower up own \<noteq> [] \<and>
         canonicalOrigin lower up ?sent = canonicalOrigin lower up own)" if "?sent \<noteq> []"
  proof -
    have inlist: "og \<in> csrfOriginAllowlist lower up cfg \<longleftrightarrow>
        (\<exists>cf own. cfg = Some cf \<and> own \<in> {GetPublicURL cf, csrfBaseURL cf} \<union> set (csrfAllowedOrigins cf) \<and>
           own \<noteq> ''*'' \<and> canonicalOrigin lower up own \<noteq> [] \<and> og = canonicalOrigin lower up own)" for og
      by (cases cfg) (auto simp: csrfOriginAllowlist_def)
    have ro: "requestOrigin lower up c =
        (if canonicalOrigin lower up ?sent \<noteq> [] then canonicalOrigin lower up ?sent else ''null'')"
      using that by (auto simp: requestOrigin_def Let_def split: if_splits)
    show ?thesis
    proof (cases "canonicalOrigin lower up ?sent = []")
      case True
      then have "requestOrigin lower up c = ''null''" using ro by simp
      with True null_not_allowed show ?thesis by auto
    next
      case False
      then show ?thesis using ro inlist by simp
    qed
  qed
  have pass: "passes (CSRFMiddleware lower up cfg c) \<longleftrightarrow>
      ?am = ''api_key'' \<or>
      (?am = ''jwt'' \<and> (requestOrigin lower up c = [] \<or> requestOrigin lower up c \<in> csrfOriginAllowlist lower up cfg)) \<or>
      (?am \<noteq> ''api_key'' \<and> ?am \<noteq> ''jwt'' \<and> passes (doubleSubmit c))"
    using assms by (simp add: CSRFMiddleware_def Let_def)
  have st: "\<not> passes (CSRFMiddleware lower up cfg c) \<longrightarrow> outStatus (CSRFMiddleware lower up cfg c) = 403"
    by (simp add: CSRFMiddleware_def doubleSubmit_def Let_def split: option.splits)
  have either: "requestOrigin lower up c = [] \<or> requestOrigin lower up c \<in> csrfOriginAllowlist lower up cfg \<longleftrightarrow>
      ?sent = [] \<or> (\<exists>cf own. cfg = Some cf \<and> own \<in> {GetPublicURL cf, csrfBaseURL cf} \<union> set (csrfAllowedOrigins cf) \<and>
         own \<noteq> ''*'' \<and> canonicalOrigin lower up own \<noteq> [] \<and>
         canonicalOrigin lower up ?sent = canonicalOrigin lower up own)"
    using empty allowed by blast
  show ?thesis
    using st unfolding Let_def pass[unfolded doubleSubmit_passes either] by blast
qed


theorem CSRFMiddleware_correct_witness:
  "passes (CSRFMiddleware (\<lambda>s. s) (\<lambda>s. if s = ''https://a.b'' then Some (''https'', ''a.b'') else None)
     (Some \<lparr>csrfPublicURL = ''https://a.b'', csrfBaseURL = [], csrfAllowedOrigins = [''*'']\<rparr>)
     \<lparr>ginReq = \<lparr>reqMethod = ''POST'', reqHeader = (\<lambda>h. if h = ''Origin'' then ''https://a.b'' else []),
        reqCookie = (\<lambda>_. None), reqParam = (\<lambda>_. []), reqFullPath = [], reqClientIP = [], reqRemoteAddr = []\<rparr>,
      ginKeys = [''auth_method'' \<mapsto> GStr ''jwt''], ginHeaders = []\<rparr>)"
proof -
  let ?c = "\<lparr>ginReq = \<lparr>reqMethod = ''POST'', reqHeader = (\<lambda>h. if h = ''Origin'' then ''https://a.b'' else []),
        reqCookie = (\<lambda>_. None), reqParam = (\<lambda>_. []), reqFullPath = [], reqClientIP = [], reqRemoteAddr = []\<rparr>,
      ginKeys = [''auth_method'' \<mapsto> GStr ''jwt''], ginHeaders = []\<rparr> :: gin"
  let ?up = "\<lambda>s. if s = ''https://a.b'' then Some (''https'', ''a.b'') else None"
  have m: "\<not> safeMethod ?c" by code_simp
  have t: "trimSpace ''https://a.b'' = ''https://a.b''" by code_simp
  then have c: "canonicalOrigin (\<lambda>s. s) ?up ''https://a.b'' \<noteq> []" by (simp add: canonicalOrigin_def Let_def)
  show ?thesis
    using CSRFMiddleware_correct[OF m, of "\<lambda>s. s" ?up
        "Some \<lparr>csrfPublicURL = ''https://a.b'', csrfBaseURL = [], csrfAllowedOrigins = [''*'']\<rparr>"] c
    by (simp add: cGetString_def GetPublicURL_def Let_def) (use c in force)
qed

end
