(* ===== verification/VersionFilter.thy ===== *)
theory VersionFilter
  imports Prelude "HOL-Library.Multiset"
begin

text \<open>
  Version ordering and the filters of the mirrors: \<^verbatim>\<open>internal/mirror/filter.go\<close> (provider
  mirror and pull-through cache), \<^verbatim>\<open>filterTerraformVersions\<close> and its helpers in
  \<^verbatim>\<open>internal/jobs/terraform_mirror_sync.go\<close> (binary mirror), and the module repository's
  own comparison.

  The filters look at nothing but the version string of an entry, so entries are of any type
  with an accessor \<open>ver\<close>. \<^verbatim>\<open>sort.Slice\<close> is not stable: the sorting function is an argument,
  of which only its documented contract \<open>sliceSort\<close> is used.
\<close>

section \<open>Comparing versions\<close>

type_synonym parts3 = "int \<times> int \<times> int"

definition partAt :: "string list \<Rightarrow> nat \<Rightarrow> int" where
  "partAt ps i = (if i < length ps then fst (atoi (ps ! i)) else 0)"

definition parseSemverParts :: "string \<Rightarrow> parts3" where
  "parseSemverParts version =
     (let v1 = trimPrefix version ''v'';
          v2 = (case indexByte (CHR ''-'') v1 of Some i \<Rightarrow> take i v1 | None \<Rightarrow> v1);
          ps = splitOn (CHR ''.'') v2
      in (partAt ps 0, partAt ps 1, partAt ps 2))"

definition comparePart :: "int \<Rightarrow> int \<Rightarrow> int \<Rightarrow> int" where
  "comparePart a b rest = (if a < b then -1 else if a > b then 1 else rest)"

definition CompareSemver :: "string \<Rightarrow> string \<Rightarrow> int" where
  "CompareSemver a b =
     (let (a0, a1, a2) = parseSemverParts a; (b0, b1, b2) = parseSemverParts b
      in comparePart a0 b0 (comparePart a1 b1 (comparePart a2 b2 0)))"

definition moduleParseSemverParts :: "string \<Rightarrow> parts3" where
  "moduleParseSemverParts version =
     (let v1 = trimPrefix version ''v'';
          v2 = (case indexByte (CHR ''-'') v1 of Some i \<Rightarrow> take i v1 | None \<Rightarrow> v1);
          ps = splitOn (CHR ''.'') v2
      in (partAt ps 0, partAt ps 1, partAt ps 2))"

definition moduleCompareSemver :: "string \<Rightarrow> string \<Rightarrow> int" where
  "moduleCompareSemver a b =
     (let (a0, a1, a2) = moduleParseSemverParts a; (b0, b1, b2) = moduleParseSemverParts b;
          step = (\<lambda>x y rest. if x > y then 1 else if x < y then -1 else rest)
      in step a0 b0 (step a1 b1 (step a2 b2 0)))"

section \<open>filter.go\<close>

definition filterVersionsByPrefix :: "('v \<Rightarrow> string) \<Rightarrow> 'v list \<Rightarrow> string \<Rightarrow> 'v list" where
  "filterVersionsByPrefix ver versions pre = filter (\<lambda>v. hasPrefix (ver v) pre) versions"

definition filterVersionsByList :: "('v \<Rightarrow> string) \<Rightarrow> 'v list \<Rightarrow> string \<Rightarrow> 'v list" where
  "filterVersionsByList ver versions l =
     (let wanted = map trimSpace (splitOn (CHR '','') l) in filter (\<lambda>v. ver v \<in> set wanted) versions)"

definition filterLatestVersions :: "('v list \<Rightarrow> 'v list) \<Rightarrow> 'v list \<Rightarrow> int \<Rightarrow> 'v list" where
  "filterLatestVersions srt versions cnt =
     (if int (length versions) \<le> cnt then versions else take (nat cnt) (srt versions))"

datatype cop = Ge | Le | Gt | Lt

definition splitConstraint :: "string \<Rightarrow> (cop \<times> string) option" where
  "splitConstraint con =
     (if hasPrefix con ''>='' then Some (Ge, trimPrefix con ''>='')
      else if hasPrefix con ''<='' then Some (Le, trimPrefix con ''<='')
      else if hasPrefix con ''>'' then Some (Gt, trimPrefix con ''>'')
      else if hasPrefix con ''<'' then Some (Lt, trimPrefix con ''<'')
      else None)"

fun copHolds :: "cop \<Rightarrow> int \<Rightarrow> bool" where
  "copHolds Ge cmp = (cmp \<ge> 0)"
| "copHolds Gt cmp = (cmp > 0)"
| "copHolds Le cmp = (cmp \<le> 0)"
| "copHolds Lt cmp = (cmp < 0)"

definition filterVersionsBySemverConstraint :: "('v \<Rightarrow> string) \<Rightarrow> 'v list \<Rightarrow> string \<Rightarrow> 'v list" where
  "filterVersionsBySemverConstraint ver versions con =
     (case splitConstraint con of
        None \<Rightarrow> versions
      | Some (op, target) \<Rightarrow>
          filter (\<lambda>v. copHolds op (CompareSemver (ver v) (trimSpace target))) versions)"

definition FilterVersions :: "('v \<Rightarrow> string) \<Rightarrow> ('v list \<Rightarrow> 'v list) \<Rightarrow> 'v list \<Rightarrow> string option \<Rightarrow> 'v list" where
  "FilterVersions ver srt versions flt =
     (case flt of
        None \<Rightarrow> versions
      | Some raw \<Rightarrow>
          if raw = [] then versions
          else
            let fs = trimSpace raw in
            if hasPrefix fs ''latest:'' then
              (let (cnt, ok) = atoi (trimPrefix fs ''latest:'') in
               if \<not> ok \<or> cnt \<le> 0 then versions else filterLatestVersions srt versions cnt)
            else if hasSuffix fs ''.'' \<or> hasSuffix fs ''.x'' then
              filterVersionsByPrefix ver versions (trimSuffix fs ''x'')
            else if hasPrefix fs ''>='' \<or> hasPrefix fs ''>'' \<or> hasPrefix fs ''<='' \<or> hasPrefix fs ''<'' then
              filterVersionsBySemverConstraint ver versions fs
            else if contains fs '','' then filterVersionsByList ver versions fs
            else
              (let filtered = filterVersionsByPrefix ver versions (fs @ ''.'')
               in if filtered \<noteq> [] then filtered else filterVersionsByList ver versions fs))"

section \<open>terraform\_mirror\_sync.go\<close>

definition filterTFLatest :: "('v list \<Rightarrow> 'v list) \<Rightarrow> 'v list \<Rightarrow> int \<Rightarrow> 'v list" where
  "filterTFLatest srt versions cnt =
     (if int (length versions) \<le> cnt then versions else take (nat cnt) (srt versions))"

definition filterTFByPrefix :: "('v \<Rightarrow> string) \<Rightarrow> 'v list \<Rightarrow> string \<Rightarrow> 'v list" where
  "filterTFByPrefix ver versions pre = filter (\<lambda>v. hasPrefix (ver v) pre) versions"

definition filterTFByList :: "('v \<Rightarrow> string) \<Rightarrow> 'v list \<Rightarrow> string \<Rightarrow> 'v list" where
  "filterTFByList ver versions l =
     (let wanted = map trimSpace (splitOn (CHR '','') l) in filter (\<lambda>v. ver v \<in> set wanted) versions)"

definition tokenMatches :: "('v \<Rightarrow> string) \<Rightarrow> 'v list \<Rightarrow> string \<Rightarrow> 'v list" where
  "tokenMatches ver versions t =
     (if hasSuffix t ''.'' \<or> hasSuffix t ''.x'' then filterTFByPrefix ver versions (trimSuffix t ''x'')
      else let filtered = filterTFByPrefix ver versions (t @ ''.'')
           in if filtered \<noteq> [] then filtered else filterTFByList ver versions t)"

fun appendUnseen :: "('v \<Rightarrow> string) \<Rightarrow> 'v list \<Rightarrow> 'v list \<Rightarrow> 'v list" where
  "appendUnseen ver out [] = out"
| "appendUnseen ver out (v # vs) =
     appendUnseen ver (if ver v \<in> set (map ver out) then out else out @ [v]) vs"

fun tokenListLoop :: "('v \<Rightarrow> string) \<Rightarrow> 'v list \<Rightarrow> string list \<Rightarrow> 'v list \<Rightarrow> 'v list" where
  "tokenListLoop ver versions [] out = out"
| "tokenListLoop ver versions (token # tokens) out =
     (let t = trimSpace token in
      if t = [] then tokenListLoop ver versions tokens out
      else tokenListLoop ver versions tokens (appendUnseen ver out (tokenMatches ver versions t)))"

definition filterTFByTokenList :: "('v \<Rightarrow> string) \<Rightarrow> 'v list \<Rightarrow> string \<Rightarrow> 'v list" where
  "filterTFByTokenList ver versions l = tokenListLoop ver versions (splitOn (CHR '','') l) []"

definition filterTFBySemver :: "('v \<Rightarrow> string) \<Rightarrow> 'v list \<Rightarrow> string \<Rightarrow> 'v list" where
  "filterTFBySemver ver versions con =
     (case splitConstraint con of
        None \<Rightarrow> versions
      | Some (op, target) \<Rightarrow>
          filter (\<lambda>v. copHolds op (CompareSemver (ver v) (trimSpace target))) versions)"

definition filterTerraformVersions :: "('v \<Rightarrow> string) \<Rightarrow> ('v list \<Rightarrow> 'v list) \<Rightarrow> 'v list \<Rightarrow> string option \<Rightarrow> 'v list" where
  "filterTerraformVersions ver srt versions flt =
     (case flt of
        None \<Rightarrow> versions
      | Some raw \<Rightarrow>
          if trimSpace raw = [] then versions
          else
            let fs = trimSpace raw in
            if hasPrefix fs ''latest:'' then
              (let (cnt, ok) = atoi (trimPrefix fs ''latest:'') in
               if \<not> ok \<or> cnt \<le> 0 then versions else filterTFLatest srt versions cnt)
            else if hasSuffix fs ''.'' \<or> hasSuffix fs ''.x'' then
              filterTFByPrefix ver versions (trimSuffix fs ''x'')
            else if hasPrefix fs ''>='' \<or> hasPrefix fs ''>'' \<or> hasPrefix fs ''<='' \<or> hasPrefix fs ''<'' then
              filterTFBySemver ver versions fs
            else if contains fs '','' then filterTFByTokenList ver versions fs
            else
              (let filtered = filterTFByPrefix ver versions (fs @ ''.'')
               in if filtered \<noteq> [] then filtered else filterTFByList ver versions fs))"

section \<open>Version order\<close>

text \<open>What the selection of the newest entries needs of a comparison: it is antisymmetric in
  sign and transitive. Equal is not identical: pre-release suffixes are ignored.\<close>

locale version_order =
  fixes cmp :: "'a \<Rightarrow> 'a \<Rightarrow> int"
  assumes cmp_swap: "cmp a b = - cmp b a"
    and cmp_trans: "0 \<le> cmp a b \<Longrightarrow> 0 \<le> cmp b d \<Longrightarrow> 0 \<le> cmp a d"
begin

lemma cmp_refl: "cmp a a = 0"
  using cmp_swap[of a a] by simp

lemma cmp_total: "0 \<le> cmp a b \<or> 0 \<le> cmp b a"
  using cmp_swap[of a b] by linarith

lemma take_drop_ordered:
  assumes "sorted_wrt (\<lambda>a b. 0 \<le> cmp (f a) (f b)) xs" "x \<in> set (take n xs)" "y \<in> set (drop n xs)"
  shows "0 \<le> cmp (f x) (f y)"
  using assms by (metis append_take_drop_id sorted_wrt_append)

end

lemma comparePart_swap: "comparePart a b r = - comparePart b a (- r)"
  by (simp add: comparePart_def)

lemma CompareSemver_nonneg:
  "0 \<le> CompareSemver a b \<longleftrightarrow>
   (case parseSemverParts a of (a0, a1, a2) \<Rightarrow> case parseSemverParts b of (b0, b1, b2) \<Rightarrow>
      b0 < a0 \<or> b0 = a0 \<and> (b1 < a1 \<or> b1 = a1 \<and> b2 \<le> a2))"
  by (auto simp: CompareSemver_def comparePart_def split: prod.splits)

lemma CompareSemver_swap: "CompareSemver a b = - CompareSemver b a"
  by (auto simp: CompareSemver_def comparePart_def split: prod.splits)

interpretation semver: version_order CompareSemver
proof
  show "CompareSemver a b = - CompareSemver b a" for a b by (rule CompareSemver_swap)
  show "0 \<le> CompareSemver a d" if "0 \<le> CompareSemver a b" "0 \<le> CompareSemver b d" for a b d
    using that by (auto simp: CompareSemver_nonneg split: prod.splits)
qed

lemma moduleCompareSemver_eq: "moduleCompareSemver = CompareSemver"
  by (auto simp: fun_eq_iff moduleCompareSemver_def CompareSemver_def comparePart_def
      moduleParseSemverParts_def parseSemverParts_def Let_def)

interpretation module_semver: version_order moduleCompareSemver
  unfolding moduleCompareSemver_eq by unfold_locales

text \<open>The documented result of sorting a slice with the code's comparison: a permutation in
  which no entry is followed by a newer one.\<close>

definition sliceSort :: "('v \<Rightarrow> string) \<Rightarrow> ('v list \<Rightarrow> 'v list) \<Rightarrow> bool" where
  "sliceSort ver srt \<longleftrightarrow> (\<forall>xs. mset (srt xs) = mset xs \<and>
     sorted_wrt (\<lambda>a b. \<not> CompareSemver (ver b) (ver a) > 0) (srt xs))"

fun insertVersion :: "('v \<Rightarrow> string) \<Rightarrow> 'v \<Rightarrow> 'v list \<Rightarrow> 'v list" where
  "insertVersion ver x [] = [x]"
| "insertVersion ver x (y # ys) =
     (if CompareSemver (ver x) (ver y) \<ge> 0 then x # y # ys else y # insertVersion ver x ys)"

definition insertionSort :: "('v \<Rightarrow> string) \<Rightarrow> 'v list \<Rightarrow> 'v list" where
  "insertionSort ver xs = foldr (insertVersion ver) xs []"

lemma mset_insertVersion: "mset (insertVersion ver x ys) = add_mset x (mset ys)"
  by (induction ys) auto

lemma sorted_insertVersion:
  "sorted_wrt (\<lambda>a b. 0 \<le> CompareSemver (ver a) (ver b)) ys \<Longrightarrow>
   sorted_wrt (\<lambda>a b. 0 \<le> CompareSemver (ver a) (ver b)) (insertVersion ver x ys)"
proof (induction ys)
  case (Cons y ys)
  have "set (insertVersion ver x ys) = insert x (set ys)"
    using mset_insertVersion[of ver x ys] by (metis set_mset_add_mset_insert set_mset_mset)
  with Cons show ?case
    using semver.cmp_total[of "ver x" "ver y"] by (auto intro: semver.cmp_trans)
qed simp

lemma sliceSort_insertionSort: "sliceSort ver (insertionSort ver)"
proof -
  have neg: "(\<not> CompareSemver (ver b) (ver a) > 0) = (0 \<le> CompareSemver (ver a) (ver b))" for a b
    using semver.cmp_swap[of "ver a" "ver b"] by auto
  have "mset (insertionSort ver xs) = mset xs \<and>
      sorted_wrt (\<lambda>a b. 0 \<le> CompareSemver (ver a) (ver b)) (insertionSort ver xs)" for xs
    by (induction xs) (auto simp: insertionSort_def mset_insertVersion sorted_insertVersion)
  then show ?thesis unfolding sliceSort_def neg by blast
qed

section \<open>Properties\<close>


lemma atoi_digit2 [simp]: "atoi ''2'' = (2, True)"
  by (simp add: atoi_def parseUint_def digitVal_def hasPrefix_def)


text \<open>
  No filter invents or repeats a version: whatever the filter string, the provider
  mirror's result is contained in the offered versions with multiplicity, and a constraint filter
  keeps, in order, exactly those whose numeric triple stands in the asked relation to that of the
  target.
\<close>

theorem FilterVersions_sound:
  assumes "sliceSort ver srt"
  shows "mset (FilterVersions ver srt versions flt) \<subseteq># mset versions \<and>
    (\<forall>fs op target. flt = Some fs \<and> fs \<noteq> [] \<and> splitConstraint (trimSpace fs) = Some (op, target) \<and>
       \<not> hasSuffix (trimSpace fs) ''.'' \<and> \<not> hasSuffix (trimSpace fs) ''.x'' \<longrightarrow>
       FilterVersions ver srt versions flt =
         filter (\<lambda>v. case parseSemverParts (ver v) of (a0, a1, a2) \<Rightarrow>
             case parseSemverParts (trimSpace target) of (b0, b1, b2) \<Rightarrow>
               (let newer = b0 < a0 \<or> b0 = a0 \<and> (b1 < a1 \<or> b1 = a1 \<and> b2 < a2);
                    same = (a0 = b0 \<and> a1 = b1 \<and> a2 = b2)
                in case op of Ge \<Rightarrow> newer \<or> same | Gt \<Rightarrow> newer | Le \<Rightarrow> \<not> newer | Lt \<Rightarrow> \<not> newer \<and> \<not> same))
           versions)"
proof -
  have take: "mset (take n (srt versions)) \<subseteq># mset versions" for n
    using assms by (metis append_take_drop_id mset_append mset_subset_eq_add_left sliceSort_def)
  have sub: "mset (FilterVersions ver srt versions flt) \<subseteq># mset versions"
    by (cases flt) (simp_all add: FilterVersions_def filterLatestVersions_def filterVersionsByPrefix_def
        filterVersionsBySemverConstraint_def filterVersionsByList_def Let_def take split: prod.splits option.splits)
  have rel: "copHolds op (CompareSemver a b) =
      (case parseSemverParts a of (a0, a1, a2) \<Rightarrow> case parseSemverParts b of (b0, b1, b2) \<Rightarrow>
         (let newer = b0 < a0 \<or> b0 = a0 \<and> (b1 < a1 \<or> b1 = a1 \<and> b2 < a2);
              same = (a0 = b0 \<and> a1 = b1 \<and> a2 = b2)
          in case op of Ge \<Rightarrow> newer \<or> same | Gt \<Rightarrow> newer | Le \<Rightarrow> \<not> newer | Lt \<Rightarrow> \<not> newer \<and> \<not> same))" for op a b
    by (cases op) (auto simp: CompareSemver_def comparePart_def Let_def split: prod.splits)
  have noLatest: "splitConstraint s \<noteq> None \<Longrightarrow> \<not> hasPrefix s ''latest:''" for s
    by (cases s) (auto simp: splitConstraint_def hasPrefix_def split: if_splits)
  have ops: "splitConstraint s \<noteq> None \<longleftrightarrow> hasPrefix s ''>='' \<or> hasPrefix s ''>'' \<or> hasPrefix s ''<='' \<or> hasPrefix s ''<''" for s
    by (auto simp: splitConstraint_def)
  have con: "FilterVersions ver srt versions (Some fs) =
      filter (\<lambda>v. copHolds op (CompareSemver (ver v) (trimSpace target))) versions"
    if h: "fs \<noteq> []" "splitConstraint (trimSpace fs) = Some (op, target)"
      "\<not> hasSuffix (trimSpace fs) ''.''" "\<not> hasSuffix (trimSpace fs) ''.x''" for fs op target
    using h noLatest[of "trimSpace fs"] ops[of "trimSpace fs"]
    by (auto simp: FilterVersions_def filterVersionsBySemverConstraint_def Let_def)
  show ?thesis using sub con unfolding rel by blast
qed

theorem FilterVersions_sound_witness:
  "FilterVersions (\<lambda>v. v) (insertionSort (\<lambda>v. v)) [''2''] (Some ''>=2'') = [''2'']"
proof -
  have "trimSpace ''>=2'' = ''>=2''" "trimSpace ''2'' = ''2''" by code_simp+
  with FilterVersions_sound[OF sliceSort_insertionSort, of "\<lambda>v. v" "[''2'']" "Some ''>=2''"]
  show ?thesis
    by (simp add: splitConstraint_def hasPrefix_def trimPrefix_def hasSuffix_def split: prod.splits)
qed

text \<open>
  Only the first bound of a compound constraint counts: the filter
  \<^verbatim>\<open>>=2,<2\<close> keeps a version that violates its second bound, because everything after the
  first operator is read as one version string.
\<close>

theorem compound_constraint_ignored:
  "FilterVersions (\<lambda>v. v) srt [''2.2''] (Some ''>=2.2,<2.2'') = [''2.2''] \<and>
   CompareSemver ''2.2'' ''2.2'' \<ge> 0"
proof -
  have t: "trimSpace ''>=2.2,<2.2'' = ''>=2.2,<2.2''" "trimSpace ''2.2,<2.2'' = ''2.2,<2.2''" by code_simp+
  have p: "parseSemverParts ''2.2'' = (2, 2, 0)"
    by (simp add: parseSemverParts_def trimPrefix_def hasPrefix_def partAt_def)
  have q: "parseSemverParts ''2.2,<2.2'' = (2, 0, 2)"
    by (simp add: parseSemverParts_def trimPrefix_def hasPrefix_def partAt_def)
      (simp add: atoi_def parseUint_def digitVal_def hasPrefix_def)
  show ?thesis
    by (simp add: FilterVersions_def t hasPrefix_def trimPrefix_def hasSuffix_def
        filterVersionsBySemverConstraint_def splitConstraint_def CompareSemver_def comparePart_def p q)
qed

lemma helper_filters_agree:
  "filterTFLatest = filterLatestVersions" "filterTFByPrefix = filterVersionsByPrefix"
  "filterTFBySemver = filterVersionsBySemverConstraint" "filterTFByList = filterVersionsByList"
  by (simp_all add: fun_eq_iff filterTFLatest_def filterLatestVersions_def filterTFByPrefix_def
      filterVersionsByPrefix_def filterTFBySemver_def filterVersionsBySemverConstraint_def
      filterTFByList_def filterVersionsByList_def)

text \<open>Without a comma, and unless the filter is blank, the two mirrors agree.\<close>

lemma filters_agree:
  assumes "trimSpace raw \<noteq> []" "\<not> contains (trimSpace raw) '',''"
  shows "filterTerraformVersions ver srt versions (Some raw) = FilterVersions ver srt versions (Some raw)"
proof -
  have "trimSpace [] = []" by code_simp
  then have "raw \<noteq> []" using assms by auto
  with assms show ?thesis
    unfolding filterTerraformVersions_def FilterVersions_def helper_filters_agree by (simp add: Let_def)
qed

text \<open>
  The two mirrors read a comma-separated filter differently although the binary mirror's
  comment says its syntax is the provider mirror's: for the filter \<^verbatim>\<open>2,3\<close> the binary mirror
  keeps version 2.2, the provider mirror keeps nothing.
\<close>

theorem mirror_filters_differ:
  "FilterVersions (\<lambda>v. v) srt [''2.2''] (Some ''2,3'') = [] \<and>
   filterTerraformVersions (\<lambda>v. v) srt [''2.2''] (Some ''2,3'') = [''2.2'']"
proof -
  have t: "trimSpace ''2,3'' = ''2,3''" "trimSpace ''2'' = ''2''" "trimSpace ''3'' = ''3''"
    by code_simp+
  show ?thesis
    by (simp add: FilterVersions_def filterTerraformVersions_def t hasPrefix_def hasSuffix_def
        filterVersionsByList_def filterTFByTokenList_def tokenMatches_def filterTFByPrefix_def filterTFByList_def)
qed

end
