(* ===== verification/AutoApprove.thy ===== *)
theory AutoApprove
  imports Prelude
begin

text \<open>
  Automatic approval of mirrored versions: the rule evaluator
  (\<^verbatim>\<open>internal/mirror/auto_approve.go\<close>) and its three callers in the sync jobs
  (\<^verbatim>\<open>internal/jobs/mirror_sync.go\<close>, \<^verbatim>\<open>terraform_mirror_sync.go\<close>, \<^verbatim>\<open>scanner_update_job.go\<close>).

  The version library \<^verbatim>\<open>hashicorp/go-version\<close> is a parameter: parsing, segments, comparison
  and constraint checks of an abstract type of versions. So is the JSON decoding of the rules.
\<close>

text \<open>The wrap-around of a 64-bit signed integer.\<close>

definition wrap64 :: "int \<Rightarrow> int" where
  "wrap64 x = (x + 2 ^ 63) mod 2 ^ 64 - 2 ^ 63"

lemma wrap64_id: "- (2 ^ 63) \<le> x \<Longrightarrow> x < 2 ^ 63 \<Longrightarrow> wrap64 x = x"
  by (simp add: wrap64_def)

lemma wrap64_range: "- (2 ^ 63) \<le> wrap64 x \<and> wrap64 x < 2 ^ 63"
proof -
  have "0 \<le> (x + 2 ^ 63) mod 2 ^ 64" "(x + 2 ^ 63) mod 2 ^ 64 < 2 ^ 64" by auto
  then show ?thesis by (simp add: wrap64_def)
qed

section \<open>The rules\<close>

record AutoApproveRule =
  ruleType :: string
  ruleHours :: "int option"
  ruleConstraint :: string

record AutoApproveRules =
  rules :: "AutoApproveRule list"
  rulesMode :: string

record AutoApproveInput =
  inVersion :: string
  inGPGVerified :: bool
  inExistingVersions :: "string list"
  inVersionAge :: int

text \<open>What the code uses of \<^verbatim>\<open>go-version\<close>; a version has at least a major and a minor segment.\<close>

record 'g goversion =
  gvNewVersion :: "string \<Rightarrow> 'g option"
  gvSegments :: "'g \<Rightarrow> int \<times> int \<times> int list"
  gvEqual :: "'g \<Rightarrow> 'g \<Rightarrow> bool"
  gvGreaterThan :: "'g \<Rightarrow> 'g \<Rightarrow> bool"
  gvNewConstraint :: "string \<Rightarrow> ('g \<Rightarrow> bool) option"

section \<open>auto\_approve.go\<close>

text \<open>The decoder yields \<open>None\<close> for malformed JSON.\<close>

definition ParseAutoApproveRules ::
  "(string \<Rightarrow> AutoApproveRules option) \<Rightarrow> string option \<Rightarrow> string + AutoApproveRules option" where
  "ParseAutoApproveRules decode raw =
     (case raw of
        None \<Rightarrow> Inr None
      | Some s \<Rightarrow>
          if s = [] \<or> s = ''null'' then Inr None
          else (case decode s of None \<Rightarrow> Inl ''invalid JSON'' | Some r \<Rightarrow> Inr (Some r)))"

fun highestLoop :: "'g goversion \<Rightarrow> 'g \<Rightarrow> string list \<Rightarrow> 'g option \<Rightarrow> 'g option" where
  "highestLoop G cand [] highest = highest"
| "highestLoop G cand (e # es) highest =
     (case gvNewVersion G e of
        None \<Rightarrow> highestLoop G cand es highest
      | Some ev \<Rightarrow>
          if gvEqual G ev cand then highestLoop G cand es highest
          else highestLoop G cand es
            (case highest of None \<Rightarrow> Some ev
             | Some h \<Rightarrow> if gvGreaterThan G ev h then Some ev else Some h))"

definition isPatchBump :: "'g goversion \<Rightarrow> string \<Rightarrow> string list \<Rightarrow> bool" where
  "isPatchBump G version existing =
     (case gvNewVersion G version of
        None \<Rightarrow> False
      | Some cand \<Rightarrow>
          (case highestLoop G cand existing None of
             None \<Rightarrow> False
           | Some highest \<Rightarrow>
               (let (c0, c1, _) = gvSegments G cand; (h0, h1, _) = gvSegments G highest
                in c0 = h0 \<and> c1 = h1 \<and> gvGreaterThan G cand highest)))"

definition matchesConstraint :: "'g goversion \<Rightarrow> string \<Rightarrow> string \<Rightarrow> bool" where
  "matchesConstraint G version con =
     (if con = [] then False
      else (case gvNewVersion G version of
              None \<Rightarrow> False
            | Some v \<Rightarrow> (case gvNewConstraint G con of None \<Rightarrow> False | Some chk \<Rightarrow> chk v)))"

abbreviation nsHour :: int where "nsHour \<equiv> 3600 * 1000000000"

definition evalRule :: "'g goversion \<Rightarrow> AutoApproveRule \<Rightarrow> AutoApproveInput \<Rightarrow> bool" where
  "evalRule G r inp =
     (if ruleType r = ''gpg_verified'' then inGPGVerified inp
      else if ruleType r = ''patch_only'' then isPatchBump G (inVersion inp) (inExistingVersions inp)
      else if ruleType r = ''semver_constraint'' then matchesConstraint G (inVersion inp) (ruleConstraint r)
      else if ruleType r = ''delay_hours'' then
        (case ruleHours r of
           None \<Rightarrow> False
         | Some h \<Rightarrow> if h \<le> 0 then False else inVersionAge inp \<ge> wrap64 (h * nsHour))
      else False)"

fun evalLoop :: "'g goversion \<Rightarrow> string \<Rightarrow> AutoApproveInput \<Rightarrow> AutoApproveRule list \<Rightarrow> bool \<times> string" where
  "evalLoop G mode inp [] = (if mode = ''all'' then (True, ''all'') else (False, []))"
| "evalLoop G mode inp (r # rs) =
     (if mode = ''all'' then
        (if \<not> evalRule G r inp then (False, []) else evalLoop G mode inp rs)
      else if evalRule G r inp then (True, ruleType r) else evalLoop G mode inp rs)"

definition EvaluateAutoApprove :: "'g goversion \<Rightarrow> AutoApproveRules option \<Rightarrow> AutoApproveInput \<Rightarrow> bool \<times> string" where
  "EvaluateAutoApprove G rs inp =
     (case rs of
        None \<Rightarrow> (False, [])
      | Some ar \<Rightarrow>
          if rules ar = [] then (False, [])
          else evalLoop G (if rulesMode ar = [] then ''any'' else rulesMode ar) inp (rules ar))"

section \<open>The callers\<close>

abbreviation statusPending :: string where "statusPending \<equiv> ''pending_approval''"
abbreviation statusApproved :: string where "statusApproved \<equiv> ''approved''"

text \<open>A gated version is born pending unless a rule matches; no status means not gated. The list
  of existing versions is \<open>None\<close> when the query fails.\<close>

definition resolveProviderApproval ::
  "'g goversion \<Rightarrow> (string \<Rightarrow> AutoApproveRules option) \<Rightarrow> bool \<Rightarrow> string option \<Rightarrow> string \<Rightarrow> bool \<Rightarrow> string list option \<Rightarrow>
   string option \<times> string" where
  "resolveProviderApproval G decode requiresApproval rawRules version gpgVerified existing =
     (if \<not> requiresApproval then (None, [])
      else (case ParseAutoApproveRules decode rawRules of
              Inl e \<Rightarrow> (Some statusPending, [])
            | Inr None \<Rightarrow> (Some statusPending, [])
            | Inr (Some rs) \<Rightarrow>
                (case EvaluateAutoApprove G (Some rs) \<lparr>inVersion = version, inGPGVerified = gpgVerified,
                    inExistingVersions = (case existing of None \<Rightarrow> [] | Some es \<Rightarrow> es), inVersionAge = 0\<rparr> of
                   (True, rule) \<Rightarrow> (Some statusApproved, rule)
                 | (False, _) \<Rightarrow> (Some statusPending, []))))"

definition resolveTerraformApproval ::
  "'g goversion \<Rightarrow> (string \<Rightarrow> AutoApproveRules option) \<Rightarrow> bool \<Rightarrow> string option \<Rightarrow> string \<Rightarrow> string list option \<Rightarrow> string option" where
  "resolveTerraformApproval G decode requiresApproval rawRules version existing =
     (if \<not> requiresApproval then None
      else (case ParseAutoApproveRules decode rawRules of
              Inr (Some rs) \<Rightarrow>
                if fst (EvaluateAutoApprove G (Some rs) \<lparr>inVersion = version, inGPGVerified = False,
                    inExistingVersions = (case existing of None \<Rightarrow> [] | Some es \<Rightarrow> es), inVersionAge = 0\<rparr>)
                then Some statusApproved else Some statusPending
            | _ \<Rightarrow> Some statusPending))"

definition resolveScannerApproval ::
  "'g goversion \<Rightarrow> (string \<Rightarrow> AutoApproveRules option) \<Rightarrow> bool \<Rightarrow> string \<Rightarrow> string \<Rightarrow> bool \<Rightarrow> string list \<Rightarrow> string \<times> string" where
  "resolveScannerApproval G decode requiresApproval rawRules version signatureVerified existing =
     (if \<not> requiresApproval then (statusApproved, [])
      else (case ParseAutoApproveRules decode (Some rawRules) of
              Inr (Some rs) \<Rightarrow>
                (case EvaluateAutoApprove G (Some rs) \<lparr>inVersion = version, inGPGVerified = signatureVerified,
                    inExistingVersions = existing, inVersionAge = 0\<rparr> of
                   (True, rule) \<Rightarrow> (statusApproved, rule)
                 | (False, _) \<Rightarrow> (statusPending, []))
            | _ \<Rightarrow> (statusPending, [])))"

section \<open>Properties\<close>

lemma evalLoop_any: "mode \<noteq> ''all'' \<Longrightarrow> evalLoop G mode inp rs =
    (case find (\<lambda>r. evalRule G r inp) rs of None \<Rightarrow> (False, []) | Some r \<Rightarrow> (True, ruleType r))"
  by (induction rs) auto

lemma evalLoop_all: "evalLoop G ''all'' inp rs =
    (if list_all (\<lambda>r. evalRule G r inp) rs then (True, ''all'') else (False, []))"
  by (induction rs) auto

text \<open>
  Rule evaluation means what the configuration says: with no rules nothing is approved;
  in mode \<^verbatim>\<open>all\<close> a version is approved exactly when every rule holds; in every other mode exactly
  when some rule holds, and the decision names the first such rule.
\<close>

theorem EvaluateAutoApprove_correct:
  "EvaluateAutoApprove G rs inp =
     (case rs of
        None \<Rightarrow> (False, [])
      | Some ar \<Rightarrow>
          if rules ar = [] then (False, [])
          else if rulesMode ar = ''all'' then
            (if list_all (\<lambda>r. evalRule G r inp) (rules ar) then (True, ''all'') else (False, []))
          else (case find (\<lambda>r. evalRule G r inp) (rules ar) of
                  None \<Rightarrow> (False, []) | Some r \<Rightarrow> (True, ruleType r)))"
  by (cases rs) (simp_all add: EvaluateAutoApprove_def evalLoop_any evalLoop_all)

lemma EvaluateAutoApprove_some:
  assumes "EvaluateAutoApprove G (Some ar) inp = (True, rule)"
  shows "\<exists>r \<in> set (rules ar). evalRule G r inp"
proof (cases "rulesMode ar = ''all''")
  case True
  with assms show ?thesis
    by (cases "rules ar") (auto simp: EvaluateAutoApprove_def evalLoop_all split: if_splits)
next
  case False
  then have "(if rulesMode ar = [] then ''any'' else rulesMode ar) \<noteq> ''all''" by simp
  with assms show ?thesis
    by (auto simp: EvaluateAutoApprove_def evalLoop_any dest: find_Some_member split: if_splits option.splits)
qed

lemma delay_not_at_sync:
  assumes "ruleType r = ''delay_hours''" "\<forall>h. ruleHours r = Some h \<longrightarrow> h \<le> 2562047" "inVersionAge inp = 0"
  shows "\<not> evalRule G r inp"
proof (cases "ruleHours r")
  case (Some h)
  show ?thesis
  proof (cases "h \<le> 0")
    case False
    then have "wrap64 (h * nsHour) = h * nsHour" using assms(2) Some by (intro wrap64_id) auto
    with False assms Some show ?thesis by (simp add: evalRule_def)
  qed (use assms Some in \<open>simp add: evalRule_def\<close>)
qed (use assms in \<open>simp add: evalRule_def\<close>)

text \<open>
  Claim C33. A gated mirror publishes a freshly synced version without review only on evidence: if
  the provider mirror requires approval and yet marks the version approved, then its configured
  rules contain one that names the signature check and the signature was verified, or the patch
  rule and the version is a patch bump of the mirrored ones, or a constraint the version
  satisfies. Delays (below the 64-bit limit of 2562047 hours), unknown rule types, malformed
  rules and failing queries never approve.
\<close>

theorem auto_approval_needs_evidence:
  assumes "resolveProviderApproval G decode True raw version gpg existing = (Some statusApproved, rule)"
    and "\<And>s ar r h. raw = Some s \<Longrightarrow> decode s = Some ar \<Longrightarrow> r \<in> set (rules ar) \<Longrightarrow> ruleHours r = Some h \<Longrightarrow> h \<le> 2562047"
  shows "\<exists>s ar. raw = Some s \<and> decode s = Some ar \<and> (\<exists>r \<in> set (rules ar).
    (ruleType r = ''gpg_verified'' \<and> gpg) \<or>
    (ruleType r = ''patch_only'' \<and> (\<exists>es. existing = Some es \<and> isPatchBump G version es)) \<or>
    (ruleType r = ''semver_constraint'' \<and> matchesConstraint G version (ruleConstraint r)))"
proof -
  let ?es = "case existing of None \<Rightarrow> [] | Some es \<Rightarrow> es"
  let ?inp = "\<lparr>inVersion = version, inGPGVerified = gpg, inExistingVersions = ?es, inVersionAge = 0\<rparr>"
  from assms(1) obtain ar rule' where p: "ParseAutoApproveRules decode raw = Inr (Some ar)"
    and e: "EvaluateAutoApprove G (Some ar) ?inp = (True, rule')"
    by (auto simp: resolveProviderApproval_def split: sum.splits option.splits prod.splits bool.splits)
  from p obtain s where s: "raw = Some s" "decode s = Some ar"
    by (auto simp: ParseAutoApproveRules_def split: option.splits if_splits)
  from EvaluateAutoApprove_some[OF e] obtain r where r: "r \<in> set (rules ar)" "evalRule G r ?inp" by blast
  have nd: "ruleType r \<noteq> ''delay_hours''"
    using delay_not_at_sync[of r ?inp G] assms(2)[OF s r(1)] r(2) by auto
  have none: "\<not> isPatchBump G version []"
    by (auto simp: isPatchBump_def split: option.splits)
  from r(2) nd none have "(ruleType r = ''gpg_verified'' \<and> gpg) \<or>
    (ruleType r = ''patch_only'' \<and> (\<exists>es. existing = Some es \<and> isPatchBump G version es)) \<or>
    (ruleType r = ''semver_constraint'' \<and> matchesConstraint G version (ruleConstraint r))"
    by (cases existing) (auto simp: evalRule_def split: if_splits)
  with s r(1) show ?thesis by blast
qed

text \<open>A table of versions, for concrete runs.\<close>

definition exVersions :: "(int \<times> int \<times> int list) goversion" where
  "exVersions = \<lparr>gvNewVersion = map_of [(''5.30.1'', (5, 30, [1])), (''5.30.2'', (5, 30, [2])), (''6.0.0'', (6, 0, [0]))],
     gvSegments = (\<lambda>v. v), gvEqual = (=),
     gvGreaterThan = (\<lambda>(a, b, c) (d, e, f). a > d \<or> a = d \<and> (b > e \<or> b = e \<and> hd c > hd f)),
     gvNewConstraint = (\<lambda>_. None)\<rparr>"

definition exRules :: "string \<Rightarrow> int option \<Rightarrow> AutoApproveRules" where
  "exRules ty h = \<lparr>rules = [\<lparr>ruleType = ty, ruleHours = h, ruleConstraint = []\<rparr>], rulesMode = ''any''\<rparr>"

theorem auto_approval_needs_evidence_witness:
  "isPatchBump exVersions ''5.30.2'' [''5.30.1'']"
  using auto_approval_needs_evidence[of exVersions "\<lambda>_. Some (exRules ''patch_only'' None)" "Some ''{}''" "''5.30.2''" False
      "Some [''5.30.1'']" "''patch_only''"]
  by (simp add: resolveProviderApproval_def ParseAutoApproveRules_def EvaluateAutoApprove_def exRules_def evalRule_def)
    (simp add: isPatchBump_def exVersions_def)

text \<open>
  A very long delay approves at once: a delay rule of 2562048 hours overflows the 64-bit
  duration and becomes negative, so a version that must wait for almost three centuries is
  approved the moment it is synced.
\<close>

theorem delay_hours_overflow:
  "resolveProviderApproval G (\<lambda>_. Some (exRules ''delay_hours'' (Some 2562048))) True (Some ''{}'') version False None =
     (Some statusApproved, ''delay_hours'') \<and>
   resolveProviderApproval G (\<lambda>_. Some (exRules ''delay_hours'' (Some 2562047))) True (Some ''{}'') version False None =
     (Some statusPending, [])"
  by (simp add: resolveProviderApproval_def ParseAutoApproveRules_def EvaluateAutoApprove_def exRules_def evalRule_def
      wrap64_def)

text \<open>
  The patch rule looks at the newest mirrored version of all lines, not of the
  candidate's own: once 6.0.0 is mirrored, 5.30.2 is no longer taken for a patch of 5.30.1.
\<close>

theorem patch_bump_ignores_line:
  "isPatchBump exVersions ''5.30.2'' [''5.30.1''] \<and> \<not> isPatchBump exVersions ''5.30.2'' [''5.30.1'', ''6.0.0'']"
  by (simp add: isPatchBump_def exVersions_def)

end
