(* ===== verification/Approvals.thy ===== *)
theory Approvals
  imports AutoApprove "HOL-Library.Multiset"
begin

text \<open>
  The approval queue of mirrored versions
  (\<^verbatim>\<open>internal/db/repositories/version_approval_repository.go\<close>), and mirror policies and
  single-use approval links (\<^verbatim>\<open>internal/db/models/mirror_policy.go\<close> and
  \<^verbatim>\<open>internal/db/repositories/rbac_repository.go\<close>).

  Tables are lists of rows (policies, terraform versions, events) or maps. The result of
  \<^verbatim>\<open>ORDER BY\<close> on rows with equal keys is not specified, so the ordering function is an argument
  with the contract \<open>orderedBy\<close>. PostgreSQL's cast of text to integer is an argument: \<open>None\<close> is
  the error that aborts the statement. A failed statement rolls the transaction back.
\<close>

section \<open>Ordered queries\<close>

definition orderedBy :: "('r \<Rightarrow> 'r \<Rightarrow> bool) \<Rightarrow> ('r list \<Rightarrow> 'r list) \<Rightarrow> bool" where
  "orderedBy le ord \<longleftrightarrow> (\<forall>xs. mset (ord xs) = mset xs \<and> sorted_wrt le (ord xs))"

lemma orderedBy_set: "orderedBy le ord \<Longrightarrow> set (ord xs) = set xs"
  by (metis mset_eq_setD orderedBy_def)

lemma orderedBy_first:
  assumes o: "orderedBy le ord" and f: "find P (ord xs) = Some x" and y: "y \<in> set xs" "P y" and r: "le x x"
  shows "le x y"
proof -
  from f obtain i where i: "i < length (ord xs)" "ord xs ! i = x" "P x" "\<forall>j < i. \<not> P (ord xs ! j)"
    by (auto simp: find_Some_iff)
  from y(1) obtain j where j: "j < length (ord xs)" "ord xs ! j = y"
    using orderedBy_set[OF o, of xs] by (metis in_set_conv_nth)
  have "i \<le> j" using i(4) j y(2) by (meson not_le_imp_less)
  show ?thesis
  proof (cases "i = j")
    case True
    with i j r show ?thesis by simp
  next
    case False
    with \<open>i \<le> j\<close> j i o show ?thesis
      by (metis le_neq_implies_less orderedBy_def sorted_wrt_iff_nth_less)
  qed
qed

text \<open>An ordering that meets the contract, for any total preorder.\<close>

fun insertBy :: "('r \<Rightarrow> 'r \<Rightarrow> bool) \<Rightarrow> 'r \<Rightarrow> 'r list \<Rightarrow> 'r list" where
  "insertBy le x [] = [x]"
| "insertBy le x (y # ys) = (if le x y then x # y # ys else y # insertBy le x ys)"

definition insertSortBy :: "('r \<Rightarrow> 'r \<Rightarrow> bool) \<Rightarrow> 'r list \<Rightarrow> 'r list" where
  "insertSortBy le xs = foldr (insertBy le) xs []"

lemma mset_insertBy: "mset (insertBy le x ys) = add_mset x (mset ys)"
  by (induction ys) auto

lemma set_insertBy: "set (insertBy le x ys) = insert x (set ys)"
  by (induction ys) auto

lemma orderedBy_insertSortBy:
  assumes tr: "\<And>x y z. le x y \<Longrightarrow> le y z \<Longrightarrow> le x z" and tot: "\<And>x y. le x y \<or> le y x"
  shows "orderedBy le (insertSortBy le)"
proof -
  have srt: "sorted_wrt le ys \<Longrightarrow> sorted_wrt le (insertBy le x ys)" for x ys
  proof (induction ys)
    case (Cons y ys)
    then show ?case using tot[of x y] by (auto simp: set_insertBy intro: tr)
  qed simp
  have "mset (insertSortBy le xs) = mset xs \<and> sorted_wrt le (insertSortBy le xs)" for xs
    by (induction xs) (auto simp: insertSortBy_def mset_insertBy srt)
  then show ?thesis by (simp add: orderedBy_def)
qed

section \<open>mirror\_policy.go\<close>

record MirrorPolicy =
  mpID :: string
  mpOrganizationID :: "string option"
  mpName :: string
  mpPolicyType :: string
  mpUpstreamRegistry :: "string option"
  mpNamespacePattern :: "string option"
  mpProviderPattern :: "string option"
  mpPriority :: int
  mpIsActive :: bool
  mpRequiresApproval :: bool
  mpCreatedAt :: int

text \<open>\<^verbatim>\<open>filepath.Match\<close> is an argument; its error is dropped by the code.\<close>

definition patternOk :: "(string \<Rightarrow> string \<Rightarrow> bool) \<Rightarrow> string option \<Rightarrow> string \<Rightarrow> bool" where
  "patternOk fmatch pat s =
     (case pat of
        None \<Rightarrow> True
      | Some p \<Rightarrow> if p = [] then True else fmatch p s \<or> p = ''*'')"

definition Matches :: "(string \<Rightarrow> string \<Rightarrow> bool) \<Rightarrow> MirrorPolicy \<Rightarrow> string \<Rightarrow> string \<Rightarrow> string \<Rightarrow> bool" where
  "Matches fmatch p registry namespace provider =
     ((case mpUpstreamRegistry p of None \<Rightarrow> True | Some r \<Rightarrow> r = [] \<or> r = registry) \<and>
      patternOk fmatch (mpNamespacePattern p) namespace \<and>
      patternOk fmatch (mpProviderPattern p) provider)"

section \<open>rbac\_repository.go: policies\<close>

definition CreateMirrorPolicy :: "MirrorPolicy \<Rightarrow> MirrorPolicy list \<Rightarrow> (string + unit) \<times> MirrorPolicy list" where
  "CreateMirrorPolicy p tbl =
     (if mpID p \<in> set (map mpID tbl) then (Inl ''duplicate key'', tbl) else (Inr (), tbl @ [p]))"

definition GetMirrorPolicy :: "string \<Rightarrow> MirrorPolicy list \<Rightarrow> MirrorPolicy option" where
  "GetMirrorPolicy pid tbl = find (\<lambda>p. mpID p = pid) tbl"

definition UpdateMirrorPolicy :: "MirrorPolicy \<Rightarrow> MirrorPolicy list \<Rightarrow> MirrorPolicy list" where
  "UpdateMirrorPolicy p tbl = map (\<lambda>q. if mpID q = mpID p
     then p\<lparr>mpOrganizationID := mpOrganizationID q, mpCreatedAt := mpCreatedAt q\<rparr> else q) tbl"

definition DeleteMirrorPolicy :: "string \<Rightarrow> MirrorPolicy list \<Rightarrow> MirrorPolicy list" where
  "DeleteMirrorPolicy pid tbl = filter (\<lambda>q. mpID q \<noteq> pid) tbl"

definition policyVisible :: "string option \<Rightarrow> MirrorPolicy \<Rightarrow> bool" where
  "policyVisible orgID p = (mpOrganizationID p = None \<or> (orgID \<noteq> None \<and> mpOrganizationID p = orgID))"

definition policyBefore :: "MirrorPolicy \<Rightarrow> MirrorPolicy \<Rightarrow> bool" where
  "policyBefore p q = (mpPriority p > mpPriority q \<or> mpPriority p = mpPriority q \<and> mpCreatedAt p \<le> mpCreatedAt q)"

definition ListMirrorPolicies ::
  "(MirrorPolicy list \<Rightarrow> MirrorPolicy list) \<Rightarrow> string option \<Rightarrow> MirrorPolicy list \<Rightarrow> MirrorPolicy list" where
  "ListMirrorPolicies ord orgID tbl = ord (filter (policyVisible orgID) tbl)"

record PolicyEvaluationResult =
  peAllowed :: bool
  peRequiresApproval :: bool
  peMatchedPolicy :: "MirrorPolicy option"
  peReason :: string

fun evalPolicies :: "(string \<Rightarrow> string \<Rightarrow> bool) \<Rightarrow> string \<Rightarrow> string \<Rightarrow> string \<Rightarrow> MirrorPolicy list \<Rightarrow> PolicyEvaluationResult" where
  "evalPolicies fmatch registry namespace provider [] =
     \<lparr>peAllowed = False, peRequiresApproval = False, peMatchedPolicy = None, peReason = ''No matching policy found''\<rparr>"
| "evalPolicies fmatch registry namespace provider (p # ps) =
     (if \<not> mpIsActive p then evalPolicies fmatch registry namespace provider ps
      else if Matches fmatch p registry namespace provider then
        \<lparr>peAllowed = (mpPolicyType p = ''allow''), peRequiresApproval = mpRequiresApproval p,
         peMatchedPolicy = Some p,
         peReason = (if mpPolicyType p = ''allow'' then ''Allowed by policy: '' @ mpName p
                     else ''Denied by policy: '' @ mpName p)\<rparr>
      else evalPolicies fmatch registry namespace provider ps)"

definition EvaluatePolicies ::
  "(string \<Rightarrow> string \<Rightarrow> bool) \<Rightarrow> (MirrorPolicy list \<Rightarrow> MirrorPolicy list) \<Rightarrow> string option \<Rightarrow> string \<Rightarrow> string \<Rightarrow> string \<Rightarrow>
   MirrorPolicy list \<Rightarrow> PolicyEvaluationResult" where
  "EvaluatePolicies fmatch ord orgID registry namespace provider tbl =
     evalPolicies fmatch registry namespace provider (ListMirrorPolicies ord orgID tbl)"

section \<open>rbac\_repository.go: approval links\<close>

record approval_token =
  atApprovalRequestID :: string
  atExpiresAt :: int
  atUsedAt :: "int option"

type_synonym token_table = "string \<rightharpoonup> approval_token"

definition CreateApprovalToken :: "string \<Rightarrow> string \<Rightarrow> int \<Rightarrow> token_table \<Rightarrow> (string + unit) \<times> token_table" where
  "CreateApprovalToken h req expires tbl =
     (if tbl h \<noteq> None then (Inl ''duplicate key'', tbl)
      else (Inr (), tbl(h \<mapsto> \<lparr>atApprovalRequestID = req, atExpiresAt = expires, atUsedAt = None\<rparr>)))"

text \<open>Redemption is two statements: the lookup, and the conditional update. Other sessions may
  write in between.\<close>

definition redeemSelect :: "string \<Rightarrow> int \<Rightarrow> token_table \<Rightarrow> string option" where
  "redeemSelect h now tbl =
     (case tbl h of
        None \<Rightarrow> None
      | Some t \<Rightarrow> if atUsedAt t \<noteq> None then None else if now > atExpiresAt t then None else Some (atApprovalRequestID t))"

definition redeemUpdate :: "string \<Rightarrow> int \<Rightarrow> token_table \<Rightarrow> bool \<times> token_table" where
  "redeemUpdate h now tbl =
     (case tbl h of
        Some t \<Rightarrow> if atUsedAt t = None then (True, tbl(h \<mapsto> t\<lparr>atUsedAt := Some now\<rparr>)) else (False, tbl)
      | None \<Rightarrow> (False, tbl))"

definition RedeemApprovalToken ::
  "string \<Rightarrow> int \<Rightarrow> (token_table \<Rightarrow> token_table) \<Rightarrow> int \<Rightarrow> token_table \<Rightarrow> (string + string) \<times> token_table" where
  "RedeemApprovalToken h now1 others now2 tbl =
     (case redeemSelect h now1 tbl of
        None \<Rightarrow> (Inl ''no rows'', tbl)
      | Some req \<Rightarrow>
          (case redeemUpdate h now2 (others tbl) of
             (True, tbl') \<Rightarrow> (Inr req, tbl')
           | (False, tbl') \<Rightarrow> (Inl ''no rows'', tbl')))"

section \<open>Properties of policies\<close>

lemma evalPolicies_find:
  "evalPolicies fmatch registry namespace provider ps =
     (case find (\<lambda>p. mpIsActive p \<and> Matches fmatch p registry namespace provider) ps of
        None \<Rightarrow> \<lparr>peAllowed = False, peRequiresApproval = False, peMatchedPolicy = None, peReason = ''No matching policy found''\<rparr>
      | Some p \<Rightarrow> \<lparr>peAllowed = (mpPolicyType p = ''allow''), peRequiresApproval = mpRequiresApproval p,
          peMatchedPolicy = Some p,
          peReason = (if mpPolicyType p = ''allow'' then ''Allowed by policy: '' @ mpName p
                      else ''Denied by policy: '' @ mpName p)\<rparr>)"
  by (induction ps) auto

text \<open>
  Claim C27. Mirror policies are decided by priority and default to denial: if no active policy,
  global or of the organization, matches the provider, mirroring is denied; otherwise one such
  policy decides, and every other matching one has a lower priority, or the same and was created
  no earlier. Policies of other organizations never take part.
\<close>

theorem EvaluatePolicies_correct:
  assumes "orderedBy policyBefore ord"
  shows "case peMatchedPolicy (EvaluatePolicies fmatch ord orgID registry namespace provider tbl) of
      None \<Rightarrow> \<not> peAllowed (EvaluatePolicies fmatch ord orgID registry namespace provider tbl) \<and>
        (\<forall>q \<in> set tbl. \<not> (policyVisible orgID q \<and> mpIsActive q \<and> Matches fmatch q registry namespace provider))
    | Some p \<Rightarrow> p \<in> set tbl \<and> policyVisible orgID p \<and> mpIsActive p \<and> Matches fmatch p registry namespace provider \<and>
        (peAllowed (EvaluatePolicies fmatch ord orgID registry namespace provider tbl) \<longleftrightarrow> mpPolicyType p = ''allow'') \<and>
        (\<forall>q \<in> set tbl. policyVisible orgID q \<and> mpIsActive q \<and> Matches fmatch q registry namespace provider \<longrightarrow> policyBefore p q)"
proof -
  let ?vis = "filter (policyVisible orgID) tbl" and ?P = "\<lambda>p. mpIsActive p \<and> Matches fmatch p registry namespace provider"
  have set: "set (ord ?vis) = set ?vis" by (rule orderedBy_set[OF assms])
  have refl: "policyBefore p p" for p by (simp add: policyBefore_def)
  note ev = EvaluatePolicies_def[of fmatch ord orgID registry namespace provider tbl,
      unfolded ListMirrorPolicies_def evalPolicies_find]
  show ?thesis
  proof (cases "find ?P (ord ?vis)")
    case None
    then have "\<forall>q \<in> set ?vis. \<not> ?P q" using set by (metis find_None_iff)
    with None show ?thesis unfolding ev None by auto
  next
    case (Some p)
    have p: "p \<in> set ?vis" "?P p" using find_Some_member[OF Some] set by auto
    have "policyBefore p q" if "q \<in> set ?vis" "?P q" for q
      using orderedBy_first[OF assms Some that refl] .
    with p show ?thesis unfolding ev Some by auto
  qed
qed

lemma orderedBy_policies: "orderedBy policyBefore (insertSortBy policyBefore)"
  by (rule orderedBy_insertSortBy) (auto simp: policyBefore_def)

definition exPolicy :: "string \<Rightarrow> string \<Rightarrow> int \<Rightarrow> MirrorPolicy" where
  "exPolicy pid ty prio = \<lparr>mpID = pid, mpOrganizationID = None, mpName = pid, mpPolicyType = ty, mpUpstreamRegistry = None,
     mpNamespacePattern = Some ''*'', mpProviderPattern = None, mpPriority = prio, mpIsActive = True,
     mpRequiresApproval = False, mpCreatedAt = 0\<rparr>"

theorem EvaluatePolicies_correct_witness:
  "\<exists>p. peMatchedPolicy (EvaluatePolicies (\<lambda>_ _. False) (insertSortBy policyBefore) None ''r'' ''n'' ''p''
     [exPolicy ''a'' ''allow'' 1, exPolicy ''d'' ''deny'' 5]) = Some p \<and> policyBefore p (exPolicy ''d'' ''deny'' 5)"
  using EvaluatePolicies_correct[OF orderedBy_policies, of "\<lambda>_ _. False" None "''r''" "''n''" "''p''"
      "[exPolicy ''a'' ''allow'' 1, exPolicy ''d'' ''deny'' 5]"]
  by (auto simp: exPolicy_def policyVisible_def Matches_def patternOk_def split: option.splits)

section \<open>Properties of approval links\<close>

text \<open>The statements that write the token table, one atomic step each.\<close>

datatype token_event = TCreate string string int | TUpdate string int

fun tokenStep :: "token_event \<Rightarrow> token_table \<Rightarrow> bool \<times> token_table" where
  "tokenStep (TCreate h req expires) tbl = (False, snd (CreateApprovalToken h req expires tbl))"
| "tokenStep (TUpdate h now) tbl = redeemUpdate h now tbl"

fun tokenUses :: "token_event \<Rightarrow> string option" where
  "tokenUses (TCreate h req expires) = None"
| "tokenUses (TUpdate h now) = Some h"

definition tokenUsed :: "token_table \<Rightarrow> string \<Rightarrow> int \<Rightarrow> bool" where
  "tokenUsed tbl h t = (case tbl h of None \<Rightarrow> False | Some r \<Rightarrow> atUsedAt r \<noteq> None)"

interpretation tok: single_use tokenStep tokenUses "\<lambda>_. 0" "\<lambda>_ _. False" tokenUsed
proof
  fix e k s t
  assume "tokenUses e = Some k" "tokenUsed s k t"
  then show "\<not> fst (tokenStep e s)"
    by (cases e) (auto simp: tokenUsed_def redeemUpdate_def split: option.splits)
next
  fix s k t e
  assume "tokenUsed s k t"
  then show "tokenUsed (snd (tokenStep e s)) k t"
    by (cases e) (auto simp: tokenUsed_def redeemUpdate_def CreateApprovalToken_def split: option.splits)
qed

text \<open>
  Claim C26. An approval link works once: a redemption succeeds only for a token that was unused
  and not expired when looked up, it yields that token's request, and from then on no statement of
  any other session, however the sessions interleave, redeems the same token again.
\<close>

theorem approval_token_single_use:
  assumes "RedeemApprovalToken h n1 others n2 tbl = (Inr req, tbl')"
  shows "(\<exists>t. tbl h = Some t \<and> atUsedAt t = None \<and> n1 \<le> atExpiresAt t \<and> atApprovalRequestID t = req) \<and>
    ((TUpdate h n3, ok) \<in> set (trace tokenStep es tbl') \<longrightarrow> \<not> ok)"
proof -
  from assms have sel: "redeemSelect h n1 tbl = Some req"
    and upd: "redeemUpdate h n2 (others tbl) = (True, tbl')"
    by (auto simp: RedeemApprovalToken_def split: option.splits prod.splits bool.splits)
  from sel have "\<exists>t. tbl h = Some t \<and> atUsedAt t = None \<and> n1 \<le> atExpiresAt t \<and> atApprovalRequestID t = req"
    by (auto simp: redeemSelect_def split: option.splits if_splits)
  moreover from upd have "tokenUsed tbl' h 1"
    by (auto simp: redeemUpdate_def tokenUsed_def split: option.splits if_splits)
  ultimately show ?thesis
    using tok.held_trace[of tbl' h 1 es "TUpdate h n3" ok] by auto
qed

theorem approval_token_single_use_witness:
  "(TUpdate ''t'' 9, True) \<notin> set (trace tokenStep [TCreate ''u'' ''r2'' 50, TUpdate ''t'' 9]
     (snd (RedeemApprovalToken ''t'' 5 (\<lambda>x. x) 6
       [''t'' \<mapsto> \<lparr>atApprovalRequestID = ''r1'', atExpiresAt = 10, atUsedAt = None\<rparr>])))"
proof -
  let ?tbl = "[''t'' \<mapsto> \<lparr>atApprovalRequestID = ''r1'', atExpiresAt = 10, atUsedAt = None\<rparr>]"
  have "RedeemApprovalToken ''t'' 5 (\<lambda>x. x) 6 ?tbl = (Inr ''r1'', snd (RedeemApprovalToken ''t'' 5 (\<lambda>x. x) 6 ?tbl))"
    by (simp add: RedeemApprovalToken_def redeemSelect_def redeemUpdate_def)
  from approval_token_single_use[OF this, of 9 True] show ?thesis by blast
qed

section \<open>version\_approval\_repository.go\<close>

record tf_version =
  tvID :: string
  tvConfigID :: string
  tvVersion :: string
  tvSyncStatus :: string
  tvDeprecated :: bool
  tvApprovalStatus :: "string option"
  tvIsLatest :: bool

record approval_event =
  evProviderVersion :: "string option"
  evTerraformVersion :: "string option"
  evScannerVersion :: "string option"
  evAction :: string
  evPerformedBy :: "string option"
  evNotes :: "string option"
  evRule :: "string option"

text \<open>The three version tables and the audit trail. Provider and scanner versions are maps from
  their ID to the approval status.\<close>

record approvaldb =
  adProvider :: "string \<rightharpoonup> string option"
  adTerraform :: "tf_version list"
  adScanner :: "string \<rightharpoonup> string option"
  adEvents :: "approval_event list"

definition insertEvent ::
  "string option \<Rightarrow> string option \<Rightarrow> string option \<Rightarrow> string \<Rightarrow> string option \<Rightarrow> string option \<Rightarrow> string option \<Rightarrow> approvaldb \<Rightarrow> approvaldb" where
  "insertEvent mpv tfv sbv action by_user notes rule db =
     db\<lparr>adEvents := adEvents db @ [\<lparr>evProviderVersion = mpv, evTerraformVersion = tfv, evScannerVersion = sbv,
        evAction = action, evPerformedBy = by_user, evNotes = notes, evRule = rule\<rparr>]\<rparr>"

text \<open>The sort key of a version column: numeric parts after the prefix and before the suffix.\<close>

definition cutSuffix :: "string \<Rightarrow> string" where
  "cutSuffix s = takeWhile (\<lambda>c. c \<noteq> CHR ''-'' \<and> c \<noteq> CHR ''+'') s"

definition sqlPart :: "(string \<Rightarrow> int option) \<Rightarrow> string list \<Rightarrow> nat \<Rightarrow> int option" where
  "sqlPart castInt ps i = (let p = (if i < length ps then ps ! i else []) in if p = [] then Some 0 else castInt p)"

definition semverKey :: "(string \<Rightarrow> int option) \<Rightarrow> string \<Rightarrow> (int \<times> int \<times> int) option" where
  "semverKey castInt version =
     (let ps = splitOn (CHR ''.'') (cutSuffix (trimPrefix version ''v'')) in
      case (sqlPart castInt ps 0, sqlPart castInt ps 1, sqlPart castInt ps 2) of
        (Some a, Some b, Some c) \<Rightarrow> Some (a, b, c)
      | _ \<Rightarrow> None)"

definition keyGe :: "int \<times> int \<times> int \<Rightarrow> int \<times> int \<times> int \<Rightarrow> bool" where
  "keyGe x y = (case x of (a, b, c) \<Rightarrow> case y of (d, e, f) \<Rightarrow> d < a \<or> d = a \<and> (e < b \<or> e = b \<and> f \<le> c))"

definition latestCandidate :: "string \<Rightarrow> tf_version \<Rightarrow> bool" where
  "latestCandidate cfg v = (tvConfigID v = cfg \<and> tvSyncStatus v = ''synced'' \<and> \<not> tvDeprecated v \<and>
     (tvApprovalStatus v = None \<or> tvApprovalStatus v = Some ''approved''))"

definition clearLatest :: "string \<Rightarrow> tf_version \<Rightarrow> tf_version" where
  "clearLatest cfg v = (if tvConfigID v = cfg \<and> tvIsLatest v then v\<lparr>tvIsLatest := False\<rparr> else v)"

definition markLatest :: "string \<Rightarrow> tf_version \<Rightarrow> tf_version" where
  "markLatest vid v = (if tvID v = vid then v\<lparr>tvIsLatest := True\<rparr> else v)"

definition recalcTerraformLatest ::
  "(string \<Rightarrow> int option) \<Rightarrow> (tf_version list \<Rightarrow> tf_version list) \<Rightarrow> string \<Rightarrow> tf_version list \<Rightarrow> tf_version list option" where
  "recalcTerraformLatest castInt ord cfg tbl =
     (let cleared = map (clearLatest cfg) tbl;
          cands = filter (latestCandidate cfg) cleared in
      if list_ex (\<lambda>v. semverKey castInt (tvVersion v) = None) cands then None
      else (case ord cands of
              [] \<Rightarrow> Some cleared
            | best # _ \<Rightarrow> Some (map (markLatest (tvID best)) cleared)))"

text \<open>Only rows with a status are subject to approval.\<close>

definition gated :: "(string \<rightharpoonup> string option) \<Rightarrow> string \<Rightarrow> bool" where
  "gated tbl i = (case tbl i of Some (Some _) \<Rightarrow> True | _ \<Rightarrow> False)"

definition approvalAction :: "string \<Rightarrow> string" where
  "approvalAction newStatus = (if newStatus = ''rejected'' then ''rejected'' else ''approved'')"

text \<open>One transaction: either it commits, or its error leaves the database as it was.\<close>

definition SetStatus ::
  "(string \<Rightarrow> int option) \<Rightarrow> (tf_version list \<Rightarrow> tf_version list) \<Rightarrow> string \<Rightarrow> string \<Rightarrow> string option \<Rightarrow> string option \<Rightarrow> approvaldb \<Rightarrow>
   (string + unit) \<times> approvaldb" where
  "SetStatus castInt ord vid newStatus by_user notes db =
     (let action = approvalAction newStatus in
      if gated (adProvider db) vid then
        (Inr (), insertEvent (Some vid) None None action by_user notes None
           (db\<lparr>adProvider := (adProvider db)(vid \<mapsto> Some newStatus)\<rparr>))
      else (case find (\<lambda>v. tvID v = vid \<and> tvApprovalStatus v \<noteq> None) (adTerraform db) of
              Some v0 \<Rightarrow>
                (let tbl = map (\<lambda>v. if tvID v = vid \<and> tvApprovalStatus v \<noteq> None
                       then v\<lparr>tvApprovalStatus := Some newStatus\<rparr> else v) (adTerraform db) in
                 case recalcTerraformLatest castInt ord (tvConfigID v0) tbl of
                   None \<Rightarrow> (Inl ''failed to set is_latest'', db)
                 | Some tbl' \<Rightarrow> (Inr (), insertEvent None (Some vid) None action by_user notes None (db\<lparr>adTerraform := tbl'\<rparr>)))
            | None \<Rightarrow>
                if gated (adScanner db) vid then
                  (Inr (), insertEvent None None (Some vid) action by_user notes None
                     (db\<lparr>adScanner := (adScanner db)(vid \<mapsto> Some newStatus)\<rparr>))
                else (Inl ''no rows'', db)))"

definition PendingCount :: "string list \<Rightarrow> string list \<Rightarrow> approvaldb \<Rightarrow> nat" where
  "PendingCount providerIDs scannerIDs db =
     length (filter (\<lambda>i. adProvider db i = Some (Some statusPending)) providerIDs) +
     length (filter (\<lambda>v. tvApprovalStatus v = Some statusPending) (adTerraform db)) +
     length (filter (\<lambda>i. adScanner db i = Some (Some statusPending)) scannerIDs)"

text \<open>Newest first; events are appended in time order.\<close>

definition Events :: "string \<Rightarrow> approvaldb \<Rightarrow> approval_event list" where
  "Events vid db = rev (filter (\<lambda>e. evProviderVersion e = Some vid \<or> evTerraformVersion e = Some vid \<or>
     evScannerVersion e = Some vid) (adEvents db))"

section \<open>Properties of the approval queue\<close>

definition keyOf :: "(string \<Rightarrow> int option) \<Rightarrow> tf_version \<Rightarrow> int \<times> int \<times> int" where
  "keyOf castInt v = (case semverKey castInt (tvVersion v) of Some k \<Rightarrow> k | None \<Rightarrow> (0, 0, 0))"

text \<open>At most one version of a configuration is marked latest; it is visible, and no visible one
  is higher; and if there is a visible version, one is marked.\<close>

definition latestOk :: "(string \<Rightarrow> int option) \<Rightarrow> string \<Rightarrow> tf_version list \<Rightarrow> bool" where
  "latestOk castInt cfg tbl \<longleftrightarrow>
    (\<forall>v \<in> set tbl. tvConfigID v = cfg \<and> tvIsLatest v \<longrightarrow> latestCandidate cfg v \<and>
       (\<forall>w \<in> set tbl. latestCandidate cfg w \<longrightarrow> keyGe (keyOf castInt v) (keyOf castInt w) \<and>
          (tvIsLatest w \<longrightarrow> w = v))) \<and>
    ((\<exists>w \<in> set tbl. latestCandidate cfg w) \<longrightarrow> (\<exists>v \<in> set tbl. tvConfigID v = cfg \<and> tvIsLatest v))"

lemma clearLatest_sel [simp]:
  "tvID (clearLatest cfg v) = tvID v" "tvConfigID (clearLatest cfg v) = tvConfigID v"
  "tvIsLatest (clearLatest cfg v) \<longleftrightarrow> tvIsLatest v \<and> tvConfigID v \<noteq> cfg"
  by (auto simp: clearLatest_def)

lemma markLatest_sel [simp]:
  "tvID (markLatest i v) = tvID v" "tvConfigID (markLatest i v) = tvConfigID v"
  "tvIsLatest (markLatest i v) \<longleftrightarrow> tvIsLatest v \<or> tvID v = i"
  "keyOf castInt (markLatest i v) = keyOf castInt v" "latestCandidate cfg (markLatest i v) = latestCandidate cfg v"
  by (simp_all add: markLatest_def keyOf_def latestCandidate_def)

lemma recalcTerraformLatest_spec:
  assumes o: "orderedBy (\<lambda>v w. keyGe (keyOf castInt v) (keyOf castInt w)) ord"
    and d: "distinct (map tvID tbl)"
    and r: "recalcTerraformLatest castInt ord cfg tbl = Some tbl'"
  shows "map tvID tbl' = map tvID tbl \<and> latestOk castInt cfg tbl'"
proof -
  let ?cl = "map (clearLatest cfg) tbl" and ?cands = "filter (latestCandidate cfg) (map (clearLatest cfg) tbl)"
  have ids: "map tvID ?cl = map tvID tbl" by simp
  have none: "\<not> tvIsLatest v" if "v \<in> set ?cl" "tvConfigID v = cfg" for v
  proof -
    from that(1) obtain x where "v = clearLatest cfg x" by auto
    with that(2) show ?thesis by simp
  qed
  have set: "set (ord ?cands) = set ?cands" by (rule orderedBy_set[OF o])
  show ?thesis
  proof (cases "ord ?cands")
    case Nil
    then have t: "tbl' = ?cl" using r by (auto simp: recalcTerraformLatest_def Let_def split: if_splits)
    from Nil set have "?cands = []" by simp
    then have "\<forall>w \<in> set ?cl. \<not> latestCandidate cfg w" by (simp add: filter_empty_conv)
    with none ids show ?thesis unfolding t latestOk_def by blast
  next
    case (Cons b bs)
    have t: "tbl' = map (markLatest (tvID b)) ?cl"
      using r Cons by (auto simp: recalcTerraformLatest_def Let_def split: if_splits)
    have "b \<in> set ?cands" using Cons set by (metis list.set_intros(1))
    then have b: "b \<in> set ?cl" "latestCandidate cfg b" unfolding set_filter by blast+
    have srt: "sorted_wrt (\<lambda>v w. keyGe (keyOf castInt v) (keyOf castInt w)) (b # bs)"
      using o Cons by (metis orderedBy_def)
    have rf: "keyGe (keyOf castInt b) (keyOf castInt b)" by (simp add: keyGe_def split: prod.splits)
    have best: "keyGe (keyOf castInt b) (keyOf castInt w)" if "w \<in> set ?cl" "latestCandidate cfg w" for w
    proof -
      have "w \<in> set ?cands" using that unfolding set_filter by blast
      then have "w \<in> set (b # bs)" using set Cons by metis
      with srt rf show ?thesis by auto
    qed
    have uniq: "v = b" if "v \<in> set ?cl" "tvID v = tvID b" for v
      using d ids that b(1) by (metis distinct_map inj_onD)
    have cfgb: "tvConfigID b = cfg" using b(2) by (simp add: latestCandidate_def)
    let ?b = "markLatest (tvID b) b"
    have lat: "v' = ?b" if "v' \<in> set tbl'" "tvConfigID v' = cfg" "tvIsLatest v'" for v'
    proof -
      from that(1) t obtain v where v: "v \<in> set ?cl" "v' = markLatest (tvID b) v" by auto
      have "tvID v = tvID b" using none[OF v(1)] that v(2) by simp
      with uniq v show ?thesis by blast
    qed
    have inb: "?b \<in> set tbl'" using imageI[OF b(1), of "markLatest (tvID b)"] unfolding t by (simp only: set_map)
    have ge: "keyGe (keyOf castInt ?b) (keyOf castInt w')" if "w' \<in> set tbl'" "latestCandidate cfg w'" for w'
    proof -
      from that(1) t obtain w where w: "w \<in> set ?cl" "w' = markLatest (tvID b) w" by auto
      with that(2) best[OF w(1)] show ?thesis by simp
    qed
    have ids': "map tvID tbl' = map tvID tbl" unfolding t by simp
    have bb: "latestCandidate cfg ?b" "tvConfigID ?b = cfg" "tvIsLatest ?b" using b(2) cfgb by simp_all
    have cand: "tvConfigID w = cfg" if "latestCandidate cfg w" for w using that by (simp add: latestCandidate_def)
    show ?thesis unfolding latestOk_def using lat inb ge ids' bb cand by metis
  qed
qed

lemma recalc_keeps:
  assumes "recalcTerraformLatest castInt ord cfg tbl = Some tbl'" "v \<in> set tbl"
  shows "\<exists>v' \<in> set tbl'. tvID v' = tvID v \<and> tvConfigID v' = tvConfigID v \<and> tvApprovalStatus v' = tvApprovalStatus v"
proof -
  have c: "tvApprovalStatus (clearLatest cfg x) = tvApprovalStatus x" "tvApprovalStatus (markLatest i x) = tvApprovalStatus x" for i x
    by (simp_all add: clearLatest_def markLatest_def)
  have "tbl' = map (clearLatest cfg) tbl \<or> (\<exists>i. tbl' = map (markLatest i) (map (clearLatest cfg) tbl))"
    using assms(1) by (auto simp: recalcTerraformLatest_def Let_def split: if_splits list.splits)
  with assms(2) c show ?thesis by fastforce
qed

text \<open>
  Claim C25. An approval decision is atomic and audited: if it fails, nothing changes; if it
  succeeds, exactly one event with the right action is recorded, naming the version in exactly
  one of the three columns; and for a terraform version the row has the new status and its
  configuration's latest mark is right again: on at most one version, a visible one, none of the
  visible ones being higher, and on some version if any is visible.
\<close>

theorem SetStatus_correct:
  assumes o: "orderedBy (\<lambda>v w. keyGe (keyOf castInt v) (keyOf castInt w)) ord"
    and d: "distinct (map tvID (adTerraform db))"
    and r: "SetStatus castInt ord vid newStatus who notes db = (res, db')"
  shows "case res of
      Inl e \<Rightarrow> db' = db
    | Inr _ \<Rightarrow> \<exists>ev. adEvents db' = adEvents db @ [ev] \<and> evAction ev = approvalAction newStatus \<and> evPerformedBy ev = who \<and>
        (evProviderVersion ev, evTerraformVersion ev, evScannerVersion ev) \<in>
          {(Some vid, None, None), (None, Some vid, None), (None, None, Some vid)} \<and>
        (evTerraformVersion ev = Some vid \<longrightarrow> (\<exists>v \<in> set (adTerraform db'). tvID v = vid \<and>
           tvApprovalStatus v = Some newStatus \<and> latestOk castInt (tvConfigID v) (adTerraform db')))"
proof -
  let ?upd = "\<lambda>v. if tvID v = vid \<and> tvApprovalStatus v \<noteq> None then v\<lparr>tvApprovalStatus := Some newStatus\<rparr> else v"
  consider (prov) "gated (adProvider db) vid"
    | (tf) v0 where "\<not> gated (adProvider db) vid"
        "find (\<lambda>v. tvID v = vid \<and> tvApprovalStatus v \<noteq> None) (adTerraform db) = Some v0"
    | (rest) "\<not> gated (adProvider db) vid"
        "find (\<lambda>v. tvID v = vid \<and> tvApprovalStatus v \<noteq> None) (adTerraform db) = None"
    by fastforce
  then show ?thesis
  proof cases
    case prov
    with r show ?thesis by (auto simp: SetStatus_def Let_def insertEvent_def)
  next
    case rest
    with r show ?thesis by (cases "gated (adScanner db) vid") (auto simp: SetStatus_def Let_def insertEvent_def)
  next
    case tf
    let ?tbl = "map ?upd (adTerraform db)"
    show ?thesis
    proof (cases "recalcTerraformLatest castInt ord (tvConfigID v0) ?tbl")
      case None
      with tf r show ?thesis by (auto simp: SetStatus_def Let_def)
    next
      case (Some tbl')
      have v0: "v0 \<in> set (adTerraform db)" "tvID v0 = vid" "tvApprovalStatus v0 \<noteq> None"
        using find_Some_member[OF tf(2)] by auto
      have ids: "map tvID ?tbl = map tvID (adTerraform db)" by (simp add: comp_def if_distrib)
      have dt: "distinct (map tvID ?tbl)" unfolding ids by (rule d)
      note spec = recalcTerraformLatest_spec[OF o dt Some]
      have "?upd v0 \<in> set ?tbl" using v0(1) by (simp only: set_map) (rule imageI)
      from recalc_keeps[OF Some this] v0 obtain v' where
        "v' \<in> set tbl'" "tvID v' = vid" "tvConfigID v' = tvConfigID v0" "tvApprovalStatus v' = Some newStatus" by auto
      with tf r Some spec show ?thesis
        by (auto simp: SetStatus_def Let_def insertEvent_def intro!: bexI[of _ v'])
    qed
  qed
qed


lemma orderedBy_keys:
  "orderedBy (\<lambda>v w. keyGe (keyOf castInt v) (keyOf castInt w)) (insertSortBy (\<lambda>v w. keyGe (keyOf castInt v) (keyOf castInt w)))"
  by (rule orderedBy_insertSortBy) (auto simp: keyGe_def split: prod.splits)

theorem SetStatus_correct_witness:
  "latestOk (\<lambda>_. Some 1) ''c'' (adTerraform (snd (SetStatus (\<lambda>_. Some 1)
      (insertSortBy (\<lambda>v w. keyGe (keyOf (\<lambda>_. Some 1) v) (keyOf (\<lambda>_. Some 1) w))) ''t'' ''approved'' None None
      \<lparr>adProvider = Map.empty, adTerraform = [\<lparr>tvID = ''t'', tvConfigID = ''c'', tvVersion = ''1'',
        tvSyncStatus = ''synced'', tvDeprecated = False, tvApprovalStatus = Some ''pending_approval'', tvIsLatest = False\<rparr>],
       adScanner = Map.empty, adEvents = []\<rparr>)))"
proof -
  let ?ord = "insertSortBy (\<lambda>v w. keyGe (keyOf (\<lambda>_. Some 1) v) (keyOf (\<lambda>_. Some 1) w))"
  let ?db = "\<lparr>adProvider = Map.empty, adTerraform = [\<lparr>tvID = ''t'', tvConfigID = ''c'', tvVersion = ''1'',
      tvSyncStatus = ''synced'', tvDeprecated = False, tvApprovalStatus = Some ''pending_approval'', tvIsLatest = False\<rparr>],
      adScanner = Map.empty, adEvents = []\<rparr>"
  have k: "semverKey (\<lambda>_. Some 1) ''1'' = Some (1, 0, 0)"
    by (simp add: semverKey_def cutSuffix_def trimPrefix_def hasPrefix_def sqlPart_def Let_def)
  have s: "SetStatus (\<lambda>_. Some 1) ?ord ''t'' ''approved'' None None ?db =
      (Inr (), snd (SetStatus (\<lambda>_. Some 1) ?ord ''t'' ''approved'' None None ?db)) \<and>
      adTerraform (snd (SetStatus (\<lambda>_. Some 1) ?ord ''t'' ''approved'' None None ?db)) =
      [\<lparr>tvID = ''t'', tvConfigID = ''c'', tvVersion = ''1'', tvSyncStatus = ''synced'', tvDeprecated = False,
         tvApprovalStatus = Some ''approved'', tvIsLatest = True\<rparr>] \<and>
      adEvents (snd (SetStatus (\<lambda>_. Some 1) ?ord ''t'' ''approved'' None None ?db)) =
      [\<lparr>evProviderVersion = None, evTerraformVersion = Some ''t'', evScannerVersion = None, evAction = ''approved'',
        evPerformedBy = None, evNotes = None, evRule = None\<rparr>]"
    by (simp add: SetStatus_def gated_def recalcTerraformLatest_def clearLatest_def markLatest_def latestCandidate_def
        insertSortBy_def insertEvent_def k approvalAction_def Let_def)
  from SetStatus_correct[OF orderedBy_keys _ s[THEN conjunct1]] s show ?thesis by auto
qed

end
