(* ===== verification/Egress.thy ===== *)
theory Egress
  imports Prelude "HOL-Library.Word"
begin

unbundle bit_operations_syntax

text \<open>
  The outbound request guard (\<^verbatim>\<open>internal/httpsafe/httpsafe.go\<close>) that keeps configured URLs, and
  the URLs upstreams return, from reaching internal addresses. Addresses are byte lists of length 4
  or 16 as in \<^verbatim>\<open>net.IP\<close>; the address parsers and predicates of package \<^verbatim>\<open>net\<close> are written
  out. The resolver, the dialer, URL parsing, Unicode case mapping and the printing of an address are
  the fields of \<open>netenv\<close>.
\<close>

section \<open>Addresses of package net\<close>

type_synonym byte = "8 word"
type_synonym IP = "byte list"

definition v4InV6Prefix :: IP where
  "v4InV6Prefix = [0, 0, 0, 0, 0, 0, 0, 0, 0, 0, 0xff, 0xff]"

definition to4 :: "IP \<Rightarrow> IP option" where
  "to4 ip =
     (if length ip = 4 then Some ip
      else if length ip = 16 \<and> take 12 ip = v4InV6Prefix then Some (drop 12 ip)
      else None)"

definition to16 :: "IP \<Rightarrow> IP" where
  "to16 ip = (if length ip = 4 then v4InV6Prefix @ ip else ip)"

definition ipEqual :: "IP \<Rightarrow> IP \<Rightarrow> bool" where
  "ipEqual ip x =
     (if length ip = length x then ip = x
      else if length ip = 4 \<and> length x = 16 then take 12 x = v4InV6Prefix \<and> ip = drop 12 x
      else if length ip = 16 \<and> length x = 4 then take 12 ip = v4InV6Prefix \<and> drop 12 ip = x
      else False)"

definition IPv6loopback :: IP where "IPv6loopback = replicate 15 0 @ [1]"
definition IPv6unspecified :: IP where "IPv6unspecified = replicate 16 0"
definition IPv4zero :: IP where "IPv4zero = v4InV6Prefix @ [0, 0, 0, 0]"
definition IPv4bcast :: IP where "IPv4bcast = v4InV6Prefix @ [0xff, 0xff, 0xff, 0xff]"

definition IsUnspecified :: "IP \<Rightarrow> bool" where
  "IsUnspecified ip = (ipEqual ip IPv4zero \<or> ipEqual ip IPv6unspecified)"

definition IsLoopback :: "IP \<Rightarrow> bool" where
  "IsLoopback ip = (case to4 ip of Some ip4 \<Rightarrow> ip4 ! 0 = 127 | None \<Rightarrow> ipEqual ip IPv6loopback)"

definition IsPrivate :: "IP \<Rightarrow> bool" where
  "IsPrivate ip =
     (case to4 ip of
        Some ip4 \<Rightarrow> ip4 ! 0 = 10 \<or> (ip4 ! 0 = 172 \<and> ip4 ! 1 AND 0xf0 = 16) \<or> (ip4 ! 0 = 192 \<and> ip4 ! 1 = 168)
      | None \<Rightarrow> length ip = 16 \<and> ip ! 0 AND 0xfe = 0xfc)"

definition IsMulticast :: "IP \<Rightarrow> bool" where
  "IsMulticast ip =
     (case to4 ip of Some ip4 \<Rightarrow> ip4 ! 0 AND 0xf0 = 0xe0 | None \<Rightarrow> length ip = 16 \<and> ip ! 0 = 0xff)"

definition IsLinkLocalMulticast :: "IP \<Rightarrow> bool" where
  "IsLinkLocalMulticast ip =
     (case to4 ip of
        Some ip4 \<Rightarrow> ip4 ! 0 = 224 \<and> ip4 ! 1 = 0 \<and> ip4 ! 2 = 0
      | None \<Rightarrow> length ip = 16 \<and> ip ! 0 = 0xff \<and> ip ! 1 AND 0x0f = 0x02)"

definition IsLinkLocalUnicast :: "IP \<Rightarrow> bool" where
  "IsLinkLocalUnicast ip =
     (case to4 ip of
        Some ip4 \<Rightarrow> ip4 ! 0 = 169 \<and> ip4 ! 1 = 254
      | None \<Rightarrow> length ip = 16 \<and> ip ! 0 = 0xfe \<and> ip ! 1 AND 0xc0 = 0x80)"

text \<open>Dotted-decimal fields: value, number of digits and finished fields so far.\<close>

fun parseIPv4Fields :: "nat \<Rightarrow> nat \<Rightarrow> IP \<Rightarrow> string \<Rightarrow> IP option" where
  "parseIPv4Fields val digLen flds [] =
     (if length flds < 3 \<or> digLen = 0 then None else Some (flds @ [of_nat val]))"
| "parseIPv4Fields val digLen flds (c # s) =
     (case digitVal c of
        Some d \<Rightarrow>
          if digLen = 1 \<and> val = 0 then None
          else if val * 10 + d > 255 then None
          else parseIPv4Fields (val * 10 + d) (Suc digLen) flds s
      | None \<Rightarrow>
          if c = CHR ''.'' then
            (if digLen = 0 \<or> s = [] then None
             else if length flds = 3 then None
             else parseIPv4Fields 0 0 (flds @ [of_nat val]) s)
          else None)"

definition parseIPv4 :: "string \<Rightarrow> IP option" where
  "parseIPv4 s = parseIPv4Fields 0 0 [] s"

text \<open>The hexadecimal digits a string starts with, as digit count and value, and the rest.\<close>

fun hexRun :: "nat \<Rightarrow> nat \<Rightarrow> string \<Rightarrow> nat \<times> nat \<times> string" where
  "hexRun off acc [] = (off, acc, [])"
| "hexRun off acc (c # s) =
     (case hexVal c of None \<Rightarrow> (off, acc, c # s) | Some d \<Rightarrow> hexRun (Suc off) (acc * 16 + d) s)"

lemma hexRun_length: "hexRun off acc s = (off', acc', s') \<Longrightarrow> off' + length s' = off + length s"
  by (induction off acc s rule: hexRun.induct) (auto split: option.splits)

text \<open>
  The loop of \<^verbatim>\<open>parseIPv6\<close>: the bytes parsed so far and the position of the ellipsis; the
  result adds the unparsed rest. A group of more than four digits is refused.
\<close>

function parseIPv6Groups :: "IP \<Rightarrow> nat option \<Rightarrow> string \<Rightarrow> (IP \<times> nat option \<times> string) option" where
  "parseIPv6Groups ip ell s =
     (if length ip \<ge> 16 then Some (ip, ell, s)
      else case hexRun 0 0 s of (off, acc, s') \<Rightarrow>
        if off = 0 \<or> off > 4 then None
        else (case s' of
          [] \<Rightarrow> Some (ip @ [of_nat (acc div 256), of_nat acc], ell, [])
        | c # rest \<Rightarrow>
            if c = CHR ''.'' then
              (if ell = None \<and> length ip \<noteq> 12 then None
               else if length ip + 4 > 16 then None
               else map_option (\<lambda>v4. (ip @ v4, ell, [])) (parseIPv4 s))
            else if c \<noteq> CHR '':'' \<or> rest = [] then None
            else
              let ip' = ip @ [of_nat (acc div 256), of_nat acc] in
              if hd rest = CHR '':'' then
                (if ell \<noteq> None then None
                 else if tl rest = [] then Some (ip', Some (length ip'), [])
                 else parseIPv6Groups ip' (Some (length ip')) (tl rest))
              else parseIPv6Groups ip' ell rest))"
  by pat_completeness auto
termination
  by (relation "measure (\<lambda>(ip, ell, s). length s)") (auto dest!: hexRun_length[OF sym])

declare parseIPv6Groups.simps [simp del]

definition expandEllipsis :: "IP \<Rightarrow> nat option \<Rightarrow> string \<Rightarrow> IP option" where
  "expandEllipsis ip ell s =
     (if s \<noteq> [] then None
      else if length ip < 16 then
        map_option (\<lambda>e. take e ip @ replicate (16 - length ip) 0 @ drop e ip) ell
      else if ell \<noteq> None then None else Some ip)"

definition parseIPv6 :: "string \<Rightarrow> IP option" where
  "parseIPv6 s =
     (if hasPrefix s ''::'' then
        (if length s = 2 then Some IPv6unspecified
         else Option.bind (parseIPv6Groups [] (Some 0) (drop 2 s)) (\<lambda>(ip, ell, r). expandEllipsis ip ell r))
      else Option.bind (parseIPv6Groups [] None s) (\<lambda>(ip, ell, r). expandEllipsis ip ell r))"

text \<open>
  \<^verbatim>\<open>netip.ParseAddr\<close> without zones (which \<^verbatim>\<open>net.ParseIP\<close> refuses): the first of the characters
  dot, colon and percent decides.
\<close>

definition parseAddr :: "string \<Rightarrow> IP option" where
  "parseAddr s =
     (if CHR ''%'' \<in> set s then None
      else case find (\<lambda>c. c = CHR ''.'' \<or> c = CHR '':'') s of
        None \<Rightarrow> None
      | Some c \<Rightarrow> if c = CHR ''.'' then parseIPv4 s else parseIPv6 s)"

definition ParseIP :: "string \<Rightarrow> IP option" where
  "ParseIP s = map_option to16 (parseAddr s)"

text \<open>\<^verbatim>\<open>net.IPNet\<close>, \<^verbatim>\<open>net.CIDRMask\<close> and \<^verbatim>\<open>net.ParseCIDR\<close>.\<close>

record ipnet =
  netIP :: IP
  netMask :: IP

definition cidrByte :: "nat \<Rightarrow> byte" where
  "cidrByte k = (if k \<ge> 8 then 0xff else NOT (drop_bit k 0xff))"

definition cidrMask :: "nat \<Rightarrow> nat \<Rightarrow> IP" where
  "cidrMask ones bits = map (\<lambda>i. cidrByte (ones - 8 * i)) [0..<bits div 8]"

definition maskIP :: "IP \<Rightarrow> IP \<Rightarrow> IP" where
  "maskIP ip m = map2 (\<lambda>a b. a AND b) ip m"

definition ParseCIDR :: "string \<Rightarrow> ipnet option" where
  "ParseCIDR s =
     (case indexByte (CHR ''/'') s of
        None \<Rightarrow> None
      | Some i \<Rightarrow>
          (case parseAddr (take i s) of
             None \<Rightarrow> None
           | Some ip \<Rightarrow>
               (case parseUint (drop (Suc i) s) of
                  UOk n \<Rightarrow> if n > 8 * length ip then None
                           else Some \<lparr>netIP = maskIP ip (cidrMask n (8 * length ip)), netMask = cidrMask n (8 * length ip)\<rparr>
                | _ \<Rightarrow> None)))"

definition networkNumberAndMask :: "ipnet \<Rightarrow> IP \<times> IP" where
  "networkNumberAndMask n =
     (case (case to4 (netIP n) of Some x \<Rightarrow> Some x | None \<Rightarrow> if length (netIP n) = 16 then Some (netIP n) else None) of
        None \<Rightarrow> ([], [])
      | Some ip \<Rightarrow>
          if length (netMask n) = 4 then (if length ip \<noteq> 4 then ([], []) else (ip, netMask n))
          else if length (netMask n) = 16 then (ip, if length ip = 4 then drop 12 (netMask n) else netMask n)
          else ([], []))"

definition Contains :: "ipnet \<Rightarrow> IP \<Rightarrow> bool" where
  "Contains n ip =
     (let (nn, m) = networkNumberAndMask n;
          x = (case to4 ip of Some y \<Rightarrow> y | None \<Rightarrow> ip)
      in length x = length nn \<and> list_all (\<lambda>i. nn ! i AND m ! i = x ! i AND m ! i) [0..<length x])"

text \<open>\<^verbatim>\<open>net.SplitHostPort\<close> and \<^verbatim>\<open>net.JoinHostPort\<close>.\<close>

definition lastIndexByte :: "char \<Rightarrow> string \<Rightarrow> nat option" where
  "lastIndexByte d s = map_option (\<lambda>i. length s - 1 - i) (indexByte d (rev s))"

definition splitHostPort :: "string \<Rightarrow> (string \<times> string) option" where
  "splitHostPort a =
     (case lastIndexByte (CHR '':'') a of
        None \<Rightarrow> None
      | Some i \<Rightarrow>
          if hd a = CHR ''['' then
            (case indexByte (CHR '']'') a of
               None \<Rightarrow> None
             | Some e \<Rightarrow>
                 if e + 1 \<noteq> i then None
                 else if CHR ''['' \<in> set (drop 1 a) \<or> CHR '']'' \<in> set (drop (e + 1) a) then None
                 else Some (take (e - 1) (drop 1 a), drop (i + 1) a))
          else if CHR '':'' \<in> set (take i a) then None
          else if CHR ''['' \<in> set a \<or> CHR '']'' \<in> set a then None
          else Some (take i a, drop (i + 1) a))"

definition joinHostPort :: "string \<Rightarrow> string \<Rightarrow> string" where
  "joinHostPort host port =
     (if CHR '':'' \<in> set host then ''['' @ host @ '']:'' @ port else host @ '':'' @ port)"

section \<open>The guard\<close>

record Guard =
  allowHosts :: "string list"
  allowNets :: "ipnet list"

text \<open>The errors of the package; \<open>Blocked\<close> carries the host, the address and the range.\<close>

datatype egress_error =
    BadEntry string
  | Blocked string IP string
  | BadURL
  | BadScheme string
  | NoHost
  | BadDialAddress
  | ResolveFailed
  | NoAddresses
  | DialFailed string
  | TooManyRedirects
  | RedirectBlocked egress_error
  | CrossOriginBody string

record url =
  urlScheme :: string
  urlHost :: string
  urlHostname :: string

record netenv =
  neLower :: "string \<Rightarrow> string"
  neEqualFold :: "string \<Rightarrow> string \<Rightarrow> bool"
  neParseURL :: "string \<Rightarrow> url option"
  neURLString :: "url \<Rightarrow> string"
  neLookup :: "string \<Rightarrow> string + IP list"
  neDial :: "string \<Rightarrow> string + IP"
  neIPString :: "IP \<Rightarrow> string"

definition addEntry :: "(string \<Rightarrow> string) \<Rightarrow> string \<Rightarrow> Guard \<Rightarrow> egress_error + Guard" where
  "addEntry lower entry g =
     (case ParseCIDR entry of
        Some n \<Rightarrow> Inr (g\<lparr>allowNets := allowNets g @ [n]\<rparr>)
      | None \<Rightarrow>
          (case ParseIP entry of
             Some ip \<Rightarrow>
               (case to4 ip of
                  Some ip4 \<Rightarrow> Inr (g\<lparr>allowNets := allowNets g @ [\<lparr>netIP = ip4, netMask = cidrMask 32 32\<rparr>]\<rparr>)
                | None \<Rightarrow> Inr (g\<lparr>allowNets := allowNets g @ [\<lparr>netIP = ip, netMask = cidrMask 128 128\<rparr>]\<rparr>))
           | None \<Rightarrow>
               if CHR ''/'' \<in> set entry \<or> CHR '' '' \<in> set entry then Inl (BadEntry entry)
               else Inr (g\<lparr>allowHosts := allowHosts g @ [lower entry]\<rparr>)))"

fun addEntries :: "(string \<Rightarrow> string) \<Rightarrow> string list \<Rightarrow> Guard \<Rightarrow> egress_error + Guard" where
  "addEntries lower [] g = Inr g"
| "addEntries lower (raw # rest) g =
     (let entry = trimSpace raw in
      if entry = [] then addEntries lower rest g
      else (case addEntry lower entry g of Inl e \<Rightarrow> Inl e | Inr g' \<Rightarrow> addEntries lower rest g'))"

definition NewGuard :: "(string \<Rightarrow> string) \<Rightarrow> string list \<Rightarrow> egress_error + Guard" where
  "NewGuard lower allowlist = addEntries lower allowlist \<lparr>allowHosts = [], allowNets = []\<rparr>"

definition ipAllowlisted :: "Guard option \<Rightarrow> IP \<Rightarrow> bool" where
  "ipAllowlisted g ip = (case g of None \<Rightarrow> False | Some g \<Rightarrow> list_ex (\<lambda>n. Contains n ip) (allowNets g))"

definition HostExempt :: "(string \<Rightarrow> string) \<Rightarrow> Guard option \<Rightarrow> string \<Rightarrow> bool" where
  "HostExempt lower g host =
     (case g of
        None \<Rightarrow> False
      | Some gd \<Rightarrow>
          if lower host \<in> set (allowHosts gd) then True
          else (case ParseIP host of Some ip \<Rightarrow> ipAllowlisted g ip | None \<Rightarrow> False))"

definition deniedRange :: "IP \<Rightarrow> string" where
  "deniedRange addr =
     (let ip = (case to4 addr of Some x \<Rightarrow> x | None \<Rightarrow> addr) in
      if IsLoopback ip then ''loopback''
      else if IsUnspecified ip then ''unspecified''
      else if IsLinkLocalUnicast ip then ''link-local''
      else if IsLinkLocalMulticast ip \<or> IsMulticast ip then ''multicast''
      else if IsPrivate ip then ''private''
      else (case to4 ip of
              Some ip4 \<Rightarrow>
                if ip4 ! 0 = 0 then ''reserved (0.0.0.0/8)''
                else if ip4 ! 0 = 100 \<and> ip4 ! 1 AND 0xc0 = 64 then ''carrier-grade NAT (100.64.0.0/10)''
                else if ipEqual ip4 IPv4bcast then ''broadcast''
                else []
            | None \<Rightarrow> []))"

definition checkIP :: "Guard option \<Rightarrow> string \<Rightarrow> IP \<Rightarrow> egress_error + unit" where
  "checkIP g host ip =
     (if ipAllowlisted g ip then Inr ()
      else if deniedRange ip \<noteq> [] then Inl (Blocked host ip (deniedRange ip))
      else Inr ())"

fun checkIPs :: "Guard option \<Rightarrow> string \<Rightarrow> IP list \<Rightarrow> egress_error + unit" where
  "checkIPs g host [] = Inr ()"
| "checkIPs g host (ip # ips) = (case checkIP g host ip of Inl e \<Rightarrow> Inl e | Inr _ \<Rightarrow> checkIPs g host ips)"

definition ValidateURL :: "netenv \<Rightarrow> Guard option \<Rightarrow> string \<Rightarrow> egress_error + unit" where
  "ValidateURL E g rawURL =
     (case neParseURL E rawURL of
        None \<Rightarrow> Inl BadURL
      | Some u \<Rightarrow>
          if urlScheme u \<noteq> ''http'' \<and> urlScheme u \<noteq> ''https'' then Inl (BadScheme (urlScheme u))
          else if urlHostname u = [] then Inl NoHost
          else if HostExempt (neLower E) g (urlHostname u) then Inr ()
          else (case ParseIP (urlHostname u) of
                  Some ip \<Rightarrow> checkIP g (urlHostname u) ip
                | None \<Rightarrow>
                    (case neLookup E (urlHostname u) of
                       Inl _ \<Rightarrow> Inr ()
                     | Inr ips \<Rightarrow> checkIPs g (urlHostname u) ips)))"

definition dialTo :: "netenv \<Rightarrow> string \<Rightarrow> egress_error + IP" where
  "dialTo E addr = (case neDial E addr of Inl e \<Rightarrow> Inl (DialFailed e) | Inr c \<Rightarrow> Inr c)"

fun dialFirst :: "netenv \<Rightarrow> string \<Rightarrow> string \<Rightarrow> IP list \<Rightarrow> egress_error + IP" where
  "dialFirst E port err [] = Inl (DialFailed err)"
| "dialFirst E port err (ip # ips) =
     (case neDial E (joinHostPort (neIPString E ip) port) of
        Inr c \<Rightarrow> Inr c
      | Inl e \<Rightarrow> dialFirst E port e ips)"

definition DialContext :: "netenv \<Rightarrow> Guard option \<Rightarrow> string \<Rightarrow> egress_error + IP" where
  "DialContext E g addr =
     (case splitHostPort addr of
        None \<Rightarrow> Inl BadDialAddress
      | Some (host, port) \<Rightarrow>
          (case ParseIP host of
             Some ip \<Rightarrow> (case checkIP g host ip of Inl e \<Rightarrow> Inl e | Inr _ \<Rightarrow> dialTo E addr)
           | None \<Rightarrow>
               if HostExempt (neLower E) g host then dialTo E addr
               else (case neLookup E host of
                       Inl _ \<Rightarrow> Inl ResolveFailed
                     | Inr ips \<Rightarrow>
                         if ips = [] then Inl NoAddresses
                         else (case checkIPs g host ips of
                                 Inl e \<Rightarrow> Inl e
                               | Inr _ \<Rightarrow> dialFirst E port [] ips))))"

definition safeToFollow :: "netenv \<Rightarrow> url \<Rightarrow> url \<Rightarrow> bool" where
  "safeToFollow E from to =
     (if \<not> neEqualFold E (urlHost from) (urlHost to) then False
      else if neEqualFold E (urlScheme from) (urlScheme to) then True
      else neEqualFold E (urlScheme from) ''http'' \<and> neEqualFold E (urlScheme to) ''https'')"

record hop =
  hopURL :: url
  hopGetBody :: bool
  hopContentLength :: int
  hopHeader :: "string \<rightharpoonup> string list"

definition maxRedirects :: nat where "maxRedirects = 10"

definition CheckRedirect :: "netenv \<Rightarrow> Guard option \<Rightarrow> hop \<Rightarrow> hop list \<Rightarrow> (egress_error + unit) \<times> hop" where
  "CheckRedirect E g req via =
     (if length via \<ge> maxRedirects then (Inl TooManyRedirects, req)
      else (case ValidateURL E g (neURLString E (hopURL req)) of
              Inl e \<Rightarrow> (Inl (RedirectBlocked e), req)
            | Inr _ \<Rightarrow>
                if length via > 0 \<and> \<not> safeToFollow E (hopURL (via ! 0)) (hopURL req) then
                  (if hopGetBody req \<or> hopContentLength req \<noteq> 0
                   then (Inl (CrossOriginBody (urlHost (hopURL req))), req)
                   else (Inr (), req\<lparr>hopHeader := (hopHeader req)(''Authorization'' := None,
                           ''Proxy-Authorization'' := None, ''Cookie'' := None, ''Cookie2'' := None)\<rparr>))
                else (Inr (), req)))"

section \<open>Addresses as numbers\<close>

text \<open>
  The reference reading of an address is the number its bytes spell; a block of prefix length
  \<open>n\<close> holds the addresses whose number agrees with the base in the first \<open>n\<close> bits.
\<close>

definition addrVal :: "IP \<Rightarrow> nat" where
  "addrVal ip = foldl (\<lambda>v b. v * 256 + unat b) 0 ip"

definition inBlock :: "IP \<times> nat \<Rightarrow> IP \<Rightarrow> bool" where
  "inBlock blk ip =
     (case blk of (base, n) \<Rightarrow>
        length ip = length base \<and>
        addrVal ip div 2 ^ (8 * length base - n) = addrVal base div 2 ^ (8 * length base - n))"

lemma unat_byte: "unat (b :: byte) < 256"
  using unsigned_less[of b] by simp

lemma addrVal_foldl: "foldl (\<lambda>v b. v * 256 + unat (b :: byte)) a ip = a * 256 ^ length ip + addrVal ip"
proof (induction ip arbitrary: a)
  case (Cons b ip)
  have "addrVal (b # ip) = unat b * 256 ^ length ip + addrVal ip"
    using Cons[of "unat b"] by (simp add: addrVal_def)
  then show ?case using Cons[of "a * 256 + unat b"] by (simp add: algebra_simps)
qed (simp add: addrVal_def)

lemma addrVal_Nil [simp]: "addrVal [] = 0"
  by (simp add: addrVal_def)

lemma addrVal_Cons: "addrVal (b # ip) = unat b * 256 ^ length ip + addrVal ip"
  using addrVal_foldl[of "unat b" ip] by (simp add: addrVal_def)

lemma addrVal_bound: "addrVal ip < 256 ^ length ip"
proof (induction ip)
  case (Cons b ip)
  have "addrVal (b # ip) < (unat b + 1) * 256 ^ length ip" using Cons by (simp add: addrVal_Cons)
  also have "\<dots> \<le> 256 * 256 ^ length ip" using unat_byte[of b] by (intro mult_right_mono) auto
  finally show ?case by simp
qed simp

lemma addrVal_append: "addrVal (p @ q) = addrVal p * 256 ^ length q + addrVal q"
  by (induction p) (simp_all add: addrVal_Cons algebra_simps power_add)

lemma two56: "(256::nat) ^ k = 2 ^ (8 * k)"
  by (simp add: power_mult)

lemma addrVal_div: "addrVal (p @ q) div 2 ^ (8 * length q + r) = addrVal p div 2 ^ r"
proof -
  have "addrVal (p @ q) div 2 ^ (8 * length q) = addrVal p"
    using addrVal_bound[of q] by (simp add: addrVal_append two56[symmetric])
  then show ?thesis by (simp add: power_add div_mult2_eq)
qed

lemma bit_ff: "i < 8 \<Longrightarrow> bit (0xff :: byte) i"
proof -
  have "(0xff :: byte) = mask 8" by (simp add: mask_eq_exp_minus_1)
  then show "i < 8 \<Longrightarrow> bit (0xff :: byte) i" by (simp only: bit_mask_iff) simp
qed

lemma bit_cidrByte:
  assumes "i < 8"
  shows "bit (cidrByte k) i \<longleftrightarrow> 8 - k \<le> i"
proof (cases "k \<ge> 8")
  case True
  then show ?thesis using bit_ff[OF assms] by (simp add: cidrByte_def)
next
  case False
  have "bit (0xff :: byte) (k + i) \<longleftrightarrow> k + i < 8"
    using bit_ff[of "k + i"] bit_imp_le_length[of "0xff :: byte" "k + i"] by auto
  with False assms show ?thesis by (auto simp: cidrByte_def bit_not_iff bit_drop_bit_eq)
qed

lemma unat_drop: "unat (drop_bit m (x :: byte)) = unat x div 2 ^ m"
  unfolding unat_drop_bit_eq by (rule drop_bit_eq_div)

lemma byte_eq_bits: "(x :: byte) = y \<longleftrightarrow> (\<forall>i. bit x i = bit y i)"
  by (auto intro: bit_eqI)

lemma cidrByte_eq:
  "x AND cidrByte k = y AND cidrByte k \<longleftrightarrow> unat x div 2 ^ (8 - k) = unat y div 2 ^ (8 - k)"
proof -
  have b: "bit (x AND cidrByte k) i = bit (y AND cidrByte k) i \<longleftrightarrow> (8 - k \<le> i \<longrightarrow> bit x i = bit y i)" for i
  proof (cases "i < 8")
    case False
    then have "\<not> bit x i" "\<not> bit y i" using bit_imp_le_length[of x i] bit_imp_le_length[of y i] by auto
    then show ?thesis by (simp add: bit_and_iff)
  qed (auto simp: bit_and_iff bit_cidrByte)
  have "x AND cidrByte k = y AND cidrByte k \<longleftrightarrow> (\<forall>i. 8 - k \<le> i \<longrightarrow> bit x i = bit y i)"
    unfolding byte_eq_bits[of "x AND cidrByte k"] b by blast
  also have "\<dots> \<longleftrightarrow> (\<forall>j. bit x (8 - k + j) = bit y (8 - k + j))"
    by (metis le_Suc_ex le_add1)
  also have "\<dots> \<longleftrightarrow> drop_bit (8 - k) x = drop_bit (8 - k) y"
    unfolding byte_eq_bits[of "drop_bit (8 - k) x"] bit_drop_bit_eq comp_def by blast
  also have "\<dots> \<longleftrightarrow> unat (drop_bit (8 - k) x) = unat (drop_bit (8 - k) y)"
    by (simp add: word_unat_eq_iff)
  finally show ?thesis by (simp add: unat_drop)
qed

lemma mask_tests:
  fixes b :: byte
  shows "b AND 0xf0 = 16 \<longleftrightarrow> unat b div 16 = 1"
    "b AND 0xf0 = 0xe0 \<longleftrightarrow> unat b div 16 = 14"
    "b AND 0xc0 = 64 \<longleftrightarrow> unat b div 64 = 1"
    "b AND 0xc0 = 0x80 \<longleftrightarrow> unat b div 64 = 2"
    "b AND 0xfe = 0xfc \<longleftrightarrow> unat b div 2 = 126"
proof -
  have c: "cidrByte 4 = 0xf0" "cidrByte 2 = 0xc0" "cidrByte 7 = 0xfe" by code_simp+
  show "b AND 0xf0 = 16 \<longleftrightarrow> unat b div 16 = 1" using cidrByte_eq[of b 4 16] by (simp add: c)
  show "b AND 0xf0 = 0xe0 \<longleftrightarrow> unat b div 16 = 14" using cidrByte_eq[of b 4 "0xe0"] by (simp add: c)
  show "b AND 0xc0 = 64 \<longleftrightarrow> unat b div 64 = 1" using cidrByte_eq[of b 2 64] by (simp add: c)
  show "b AND 0xc0 = 0x80 \<longleftrightarrow> unat b div 64 = 2" using cidrByte_eq[of b 2 "0x80"] by (simp add: c)
  show "b AND 0xfe = 0xfc \<longleftrightarrow> unat b div 2 = 126" using cidrByte_eq[of b 7 "0xfc"] by (simp add: c)
qed

section \<open>The denied ranges\<close>

definition nonPublic4 :: "(IP \<times> nat) list" where
  "nonPublic4 = [([0, 0, 0, 0], 8), ([10, 0, 0, 0], 8), ([100, 64, 0, 0], 10), ([127, 0, 0, 0], 8), ([169, 254, 0, 0], 16),
     ([172, 16, 0, 0], 12), ([192, 168, 0, 0], 16), ([224, 0, 0, 0], 4), ([255, 255, 255, 255], 32)]"

definition nonPublic6 :: "(IP \<times> nat) list" where
  "nonPublic6 = [(replicate 16 0, 128), (replicate 15 0 @ [1], 128), (0xfc # replicate 15 0, 7),
     (0xfe # 0x80 # replicate 14 0, 10), (0xff # replicate 15 0, 8)]"

definition nonPublic :: "IP \<Rightarrow> bool" where
  "nonPublic ip =
     (case to4 ip of Some v4 \<Rightarrow> list_ex (\<lambda>blk. inBlock blk v4) nonPublic4
                   | None \<Rightarrow> list_ex (\<lambda>blk. inBlock blk ip) nonPublic6)"

lemma digit_unique: "(u::nat) < k \<Longrightarrow> v < k \<Longrightarrow> x * k + u = y * k + v \<longleftrightarrow> x = y \<and> u = v"
  by (metis add_right_cancel div_mult_self3 div_less add_0 less_nat_zero_code gr_implies_not0 add.commute)

lemma inBlock_Cons:
  assumes "n \<le> 8 * Suc (length ys)"
  shows "inBlock (y # ys, n) (x # xs) \<longleftrightarrow>
    (if n \<ge> 8 then x = y \<and> inBlock (ys, n - 8) xs
     else length xs = length ys \<and> unat x div 2 ^ (8 - n) = unat y div 2 ^ (8 - n))"
proof (cases "length xs = length ys")
  case len: True
  let ?m = "length ys"
  show ?thesis
  proof (cases "n \<ge> 8")
    case True
    define s where "s = 8 * ?m - (n - 8)"
    have s: "8 * Suc ?m - n = s" "s \<le> 8 * ?m" using True assms by (simp_all add: s_def)
    have k: "(2::nat) ^ (8 * ?m) = 2 ^ (8 * ?m - s) * 2 ^ s" using s(2) by (simp flip: power_add)
    have D: "addrVal (b # bs) div 2 ^ s = unat b * 2 ^ (8 * ?m - s) + addrVal bs div 2 ^ s" if "length bs = ?m" for b bs
      using that by (simp add: addrVal_Cons two56 k mult.assoc[symmetric] add.commute)
    have B: "addrVal bs div 2 ^ s < 2 ^ (8 * ?m - s)" if "length bs = ?m" for bs
      using addrVal_bound[of bs] that k by (simp add: two56 less_mult_imp_div_less)
    have "addrVal (x # xs) div 2 ^ s = addrVal (y # ys) div 2 ^ s \<longleftrightarrow> unat x = unat y \<and> addrVal xs div 2 ^ s = addrVal ys div 2 ^ s"
      unfolding D[OF len] D[OF refl] by (rule digit_unique[OF B[OF len] B[OF refl]])
    then show ?thesis using True len s by (simp add: inBlock_def s_def word_unat_eq_iff)
  next
    case False
    have "8 * Suc ?m - n = 8 * ?m + (8 - n)" using False by simp
    then show ?thesis using False len addrVal_div[of "[x]" xs "8 - n"] addrVal_div[of "[y]" ys "8 - n"]
      by (simp add: inBlock_def addrVal_Cons)
  qed
qed (simp add: inBlock_def)

lemma inBlock_Nil [simp]: "inBlock ([], n) xs \<longleftrightarrow> xs = []"
  by (auto simp: inBlock_def)

lemma inBlock_0 [simp]: "inBlock (ys, 0) xs \<longleftrightarrow> length xs = length ys"
  using addrVal_bound[of xs] addrVal_bound[of ys] by (auto simp: inBlock_def two56)

lemma inBlock_full: "inBlock (base, 8 * length base) x \<longleftrightarrow> x = base"
proof (induction base arbitrary: x)
  case IH: (Cons b base)
  show ?case
  proof (cases x)
    case Nil
    then show ?thesis by (simp add: inBlock_def)
  next
    case (Cons a y)
    then show ?thesis using IH[of y] inBlock_Cons[of "8 * length (b # base)" base b a y] by simp
  qed
qed simp

lemma length4: "length xs = 4 \<longleftrightarrow> (\<exists>a b c d. xs = [a, b, c, d])"
  by (auto simp: numeral_eq_Suc length_Suc_conv)

lemma length_v4InV6Prefix [simp]: "length v4InV6Prefix = 12"
  by (simp add: v4InV6Prefix_def)

lemma zeros_not_mapped: "replicate 12 (0 :: byte) \<noteq> [0, 0, 0, 0, 0, 0, 0, 0, 0, 0, 255, 255]"
  by code_simp

lemma deniedRange_iff:
  "deniedRange addr \<noteq> [] \<longleftrightarrow>
     (let ip = (case to4 addr of Some x \<Rightarrow> x | None \<Rightarrow> addr) in
      IsLoopback ip \<or> IsUnspecified ip \<or> IsLinkLocalUnicast ip \<or> (IsLinkLocalMulticast ip \<or> IsMulticast ip) \<or> IsPrivate ip \<or>
      (case to4 ip of
         Some v \<Rightarrow> v ! 0 = 0 \<or> (v ! 0 = 100 \<and> v ! 1 AND 0xc0 = 64) \<or> ipEqual v IPv4bcast
       | None \<Rightarrow> False))"
  by (simp add: deniedRange_def Let_def split: option.splits)

lemma denied4:
  fixes a b c d :: byte
  shows "deniedRange [a, b, c, d] \<noteq> [] \<longleftrightarrow> list_ex (\<lambda>blk. inBlock blk [a, b, c, d]) nonPublic4"
proof -
  have B: "inBlock ([a', b', c', d'], 8) [a, b, c, d] \<longleftrightarrow> a = a'"
    "inBlock ([a', b', c', d'], 4) [a, b, c, d] \<longleftrightarrow> unat a div 16 = unat a' div 16"
    "inBlock ([a', b', c', d'], 16) [a, b, c, d] \<longleftrightarrow> a = a' \<and> b = b'"
    "inBlock ([a', b', c', d'], 12) [a, b, c, d] \<longleftrightarrow> a = a' \<and> unat b div 16 = unat b' div 16"
    "inBlock ([a', b', c', d'], 10) [a, b, c, d] \<longleftrightarrow> a = a' \<and> unat b div 64 = unat b' div 64"
    "inBlock ([a', b', c', d'], 32) [a, b, c, d] \<longleftrightarrow> [a, b, c, d] = [a', b', c', d']"
    for a' b' c' d' :: byte
    by (simp_all add: inBlock_Cons)
  have D: "deniedRange [a, b, c, d] \<noteq> [] \<longleftrightarrow> a = 127 \<or> [a, b, c, d] = [0, 0, 0, 0] \<or> (a = 169 \<and> b = 254) \<or>
      (a = 224 \<and> b = 0 \<and> c = 0) \<or> unat a div 16 = 14 \<or>
      (a = 10 \<or> a = 172 \<and> unat b div 16 = 1 \<or> a = 192 \<and> b = 168) \<or>
      a = 0 \<or> (a = 100 \<and> unat b div 64 = 1) \<or> [a, b, c, d] = [255, 255, 255, 255]"
    by (simp add: deniedRange_iff to4_def zeros_not_mapped IsLoopback_def IsUnspecified_def IsLinkLocalUnicast_def
        IsLinkLocalMulticast_def IsMulticast_def IsPrivate_def ipEqual_def mask_tests IPv4zero_def IPv4bcast_def
        IPv6unspecified_def v4InV6Prefix_def)
  have m: "a = 224 \<Longrightarrow> unat a div 16 = 14" by simp
  show ?thesis unfolding D by (simp add: nonPublic4_def B) (use m in blast)
qed

lemma denied6:
  assumes "length ip = 16" "to4 ip = None"
  shows "deniedRange ip \<noteq> [] \<longleftrightarrow> list_ex (\<lambda>blk. inBlock blk ip) nonPublic6"
proof -
  from assms(1) obtain a b q where ip: "ip = a # b # q" "length q = 14"
    by (auto simp: numeral_eq_Suc length_Suc_conv)
  have B: "inBlock (replicate 16 0, 128) ip \<longleftrightarrow> ip = replicate 16 0"
    "inBlock (replicate 15 0 @ [1], 128) ip \<longleftrightarrow> ip = replicate 15 0 @ [1]"
    using inBlock_full[of "replicate 16 0" ip] inBlock_full[of "replicate 15 0 @ [1]" ip] by simp_all
  have four: "ip \<noteq> v4InV6Prefix @ [0, 0, 0, 0]"
    using assms(2) by (auto simp: to4_def v4InV6Prefix_def)
  have C: "inBlock (0xfc # replicate 15 0, 7) ip \<longleftrightarrow> unat a div 2 = 126"
    "inBlock (0xff # replicate 15 0, 8) ip \<longleftrightarrow> a = 0xff"
    "inBlock (0xfe # 0x80 # replicate 14 0, 10) ip \<longleftrightarrow> a = 0xfe \<and> unat b div 64 = 2"
    by (simp_all add: ip inBlock_Cons)
  have D: "deniedRange ip \<noteq> [] \<longleftrightarrow> ip = IPv6loopback \<or> ip = IPv6unspecified \<or> (ip ! 0 = 0xfe \<and> ip ! 1 AND 0xc0 = 0x80) \<or>
      (ip ! 0 = 0xff \<and> ip ! 1 AND 0x0f = 0x02 \<or> ip ! 0 = 0xff) \<or> ip ! 0 AND 0xfe = 0xfc"
    using assms(1) by (simp add: deniedRange_iff assms(2) IsLoopback_def IsUnspecified_def IsLinkLocalUnicast_def
        IsLinkLocalMulticast_def IsMulticast_def IsPrivate_def ipEqual_def four IPv4zero_def)
      (simp add: IPv6loopback_def IPv6unspecified_def)
  have i: "ip ! 0 = a" "ip ! 1 = b" by (simp_all add: ip)
  have "list_ex (\<lambda>blk. inBlock blk ip) nonPublic6 \<longleftrightarrow> ip = replicate 16 0 \<or> ip = replicate 15 0 @ [1] \<or>
      unat a div 2 = 126 \<or> (a = 0xfe \<and> unat b div 64 = 2) \<or> a = 0xff"
    by (simp add: nonPublic6_def B C)
  then show ?thesis unfolding D IPv6loopback_def IPv6unspecified_def i mask_tests by blast
qed

lemma denied_iff_nonPublic:
  assumes "length ip = 4 \<or> length ip = 16"
  shows "deniedRange ip \<noteq> [] \<longleftrightarrow> nonPublic ip"
proof (cases "to4 ip")
  case None
  with assms have "length ip = 16" by (auto simp: to4_def)
  from denied6[OF this None] None show ?thesis by (simp add: nonPublic_def)
next
  case (Some v)
  then have "length v = 4" using assms by (auto simp: to4_def split: if_splits)
  then obtain a b c d where v: "v = [a, b, c, d]" by (auto simp: length4)
  then have "to4 v = Some v" by (simp add: to4_def)
  then have "deniedRange ip = deniedRange v" using Some by (simp add: deniedRange_def)
  with Some v denied4 show ?thesis by (simp add: nonPublic_def)
qed

section \<open>Allow-list entries\<close>

lemma cidrMask_Suc: "cidrMask n (8 * Suc m) = cidrByte n # cidrMask (n - 8) (8 * m)"
  by (simp add: cidrMask_def upt_conv_Cons map_Suc_upt[symmetric] del: upt_Suc) 

lemma cidrMask_length [simp]: "length (cidrMask n (8 * m)) = m"
  by (simp add: cidrMask_def)

text \<open>Agreement under a prefix mask is membership in the block.\<close>

lemma mask_agree:
  assumes "length xs = length ys" "n \<le> 8 * length ys"
  shows "maskIP xs (cidrMask n (8 * length ys)) = maskIP ys (cidrMask n (8 * length ys)) \<longleftrightarrow> inBlock (ys, n) xs"
  using assms
proof (induction ys arbitrary: xs n)
  case (Cons y ys)
  then obtain x zs where xs: "xs = x # zs" "length zs = length ys" by (cases xs) auto
  have e: "cidrMask n (8 * length (y # ys)) = cidrByte n # cidrMask (n - 8) (8 * length ys)"
    using cidrMask_Suc[of n "length ys"] by simp
  have IH: "maskIP zs (cidrMask (n - 8) (8 * length ys)) = maskIP ys (cidrMask (n - 8) (8 * length ys)) \<longleftrightarrow> inBlock (ys, n - 8) zs"
    using Cons.IH[of zs "n - 8"] Cons.prems xs by simp
  have "maskIP xs (cidrMask n (8 * length (y # ys))) = maskIP (y # ys) (cidrMask n (8 * length (y # ys))) \<longleftrightarrow>
      unat x div 2 ^ (8 - n) = unat y div 2 ^ (8 - n) \<and> inBlock (ys, n - 8) zs"
    unfolding e xs IH[symmetric] cidrByte_eq[symmetric] by (simp add: maskIP_def)
  then show ?case using Cons.prems xs by (simp add: inBlock_Cons word_unat_eq_iff)
qed (simp add: maskIP_def inBlock_def)

lemma cidrByte_ff: "b AND cidrByte k = 0xff \<Longrightarrow> k \<ge> 8"
proof -
  assume "b AND cidrByte k = 0xff"
  then have "bit (b AND cidrByte k) 0" using bit_ff[of 0] by simp
  then show ?thesis by (simp add: bit_and_iff bit_cidrByte)
qed

lemma and_ff: "b AND 0xff = (b :: byte)"
  by (rule bit_word_eqI) (use bit_ff in \<open>auto simp: bit_and_iff\<close>)

lemma masked_not_mapped:
  assumes "length base = 16" "to4 base = None" "n \<le> 128"
  shows "to4 (maskIP base (cidrMask n 128)) = None"
proof (rule ccontr)
  let ?m = "maskIP base (cidrMask n 128)"
  have l: "length (cidrMask n 128) = 16" using cidrMask_length[of n 16] by simp
  have nth: "?m ! i = base ! i AND cidrByte (n - 8 * i)" if "i < 16" for i
    using that assms(1) l by (simp add: maskIP_def) (simp add: cidrMask_def)
  assume "to4 ?m \<noteq> None"
  then have p: "take 12 ?m = v4InV6Prefix" using assms(1) l by (auto simp: to4_def maskIP_def split: if_splits)
  have "?m ! 11 = take 12 ?m ! 11" by simp
  also have "\<dots> = 0xff" unfolding p by (simp add: v4InV6Prefix_def)
  finally have "?m ! 11 = 0xff" .
  with nth[of 11] cidrByte_ff have n: "n - 88 \<ge> 8" by simp
  have "take 12 base = take 12 ?m"
  proof (rule nth_equalityI)
    fix i assume "i < length (take 12 base)"
    then have "i < 12" using assms(1) by simp
    moreover from this n have "n - 8 * i \<ge> 8" by simp
    ultimately show "take 12 base ! i = take 12 ?m ! i" using nth[of i] by (simp add: cidrByte_def and_ff)
  qed (simp add: assms(1) l maskIP_def)
  with p assms(1,2) show False by (simp add: to4_def)
qed

lemma mask_pointwise:
  assumes "length x = length base" "length m = length base"
  shows "(\<forall>i<length x. maskIP base m ! i AND m ! i = x ! i AND m ! i) \<longleftrightarrow> maskIP x m = maskIP base m"
proof -
  have "maskIP base m ! i AND m ! i = maskIP base m ! i \<and> maskIP x m ! i = x ! i AND m ! i" if "i < length x" for i
    using that assms by (simp add: maskIP_def and.assoc)
  then show ?thesis using assms by (auto simp: list_eq_iff_nth_eq) (auto simp: maskIP_def)
qed

lemma Contains_iff:
  assumes "length base = 4 \<or> length base = 16 \<and> to4 base = None" "n \<le> 8 * length base"
  shows "Contains \<lparr>netIP = maskIP base (cidrMask n (8 * length base)), netMask = cidrMask n (8 * length base)\<rparr> ip
    \<longleftrightarrow> inBlock (base, n) (case to4 ip of Some v \<Rightarrow> v | None \<Rightarrow> ip)"
proof -
  let ?M = "cidrMask n (8 * length base)" and ?x = "case to4 ip of Some v \<Rightarrow> v | None \<Rightarrow> ip"
  have l: "length (maskIP base ?M) = length base" by (simp add: maskIP_def)
  have nn: "networkNumberAndMask \<lparr>netIP = maskIP base ?M, netMask = ?M\<rparr> = (maskIP base ?M, ?M)"
    using assms(1)
  proof
    assume b: "length base = 4"
    have "to4 (maskIP base ?M) = Some (maskIP base ?M)" using l b by (simp add: to4_def)
    then show ?thesis using cidrMask_length[of n "length base"] l b by (simp add: networkNumberAndMask_def)
  next
    assume b: "length base = 16 \<and> to4 base = None"
    then have "to4 (maskIP base ?M) = None" using masked_not_mapped[of base n] assms(2) by simp
    then show ?thesis using cidrMask_length[of n "length base"] l b by (simp add: networkNumberAndMask_def)
  qed
  have "Contains \<lparr>netIP = maskIP base ?M, netMask = ?M\<rparr> ip \<longleftrightarrow>
      length ?x = length base \<and> (\<forall>i<length ?x. maskIP base ?M ! i AND ?M ! i = ?x ! i AND ?M ! i)"
    unfolding Contains_def nn Let_def prod.case l by (simp add: list_all_iff atLeast0LessThan lessThan_iff Ball_def)
  also have "\<dots> \<longleftrightarrow> length ?x = length base \<and> maskIP ?x ?M = maskIP base ?M"
    using mask_pointwise[of ?x base ?M] by (auto simp del: cidrMask_length simp: cidrMask_length)
  also have "\<dots> \<longleftrightarrow> inBlock (base, n) ?x"
    using mask_agree[of ?x base n] assms(2) by (auto simp: inBlock_def)
  finally show ?thesis .
qed

lemma to4_to16: "to4 (to16 ip) = to4 ip"
  by (auto simp: to4_def to16_def)

lemma deniedRange_to16: "deniedRange (to16 ip) = deniedRange ip"
proof (cases "length ip = 4")
  case True
  then have "to4 (to16 ip) = Some ip" "to4 ip = Some ip" by (simp_all add: to4_to16) (simp_all add: to4_def)
  then show ?thesis by (simp add: deniedRange_def)
qed (simp add: to16_def)

lemma Contains_to16: "Contains n (to16 ip) = Contains n ip"
proof (cases "length ip = 4")
  case True
  then have "to4 (to16 ip) = Some ip" "to4 ip = Some ip" by (simp_all add: to4_to16) (simp_all add: to4_def)
  then show ?thesis by (simp add: Contains_def)
qed (simp add: to16_def)

lemma ipAllowlisted_to16: "ipAllowlisted g (to16 ip) = ipAllowlisted g ip"
  by (simp add: ipAllowlisted_def Contains_to16 split: option.splits)

lemma checkIP_Inr: "checkIP g host ip = Inr u \<longleftrightarrow> ipAllowlisted g ip \<or> deniedRange ip = []"
  by (simp add: checkIP_def)

lemma checkIPs_Inr: "checkIPs g host ips = Inr u \<longleftrightarrow> (\<forall>ip\<in>set ips. ipAllowlisted g ip \<or> deniedRange ip = [])"
  by (induction ips) (auto split: sum.splits simp: checkIP_def)

section \<open>Printed addresses split back\<close>

definition addrChar :: "char \<Rightarrow> bool" where
  "addrChar c = (hexVal c \<noteq> None \<or> c = CHR ''.'' \<or> c = CHR '':'')"

lemma digitVal_hexVal: "digitVal c = Some d \<Longrightarrow> hexVal c = Some d"
  by (auto simp: digitVal_def hexVal_def Let_def split: if_splits)

lemma parseIPv4_chars: "parseIPv4Fields v dl fs s = Some ip \<Longrightarrow> list_all addrChar s"
  by (induction v dl fs s rule: parseIPv4Fields.induct)
    (auto simp: addrChar_def dest: digitVal_hexVal split: option.splits if_splits)

lemma hexRun_chars: "hexRun off acc s = (off', acc', s') \<Longrightarrow> \<exists>p. s = p @ s' \<and> list_all addrChar p"
proof (induction off acc s rule: hexRun.induct)
  case (2 off acc c s)
  show ?case
  proof (cases "hexVal c")
    case (Some d)
    with 2 obtain p where "s = p @ s'" "list_all addrChar p" by auto
    moreover have "addrChar c" by (simp add: addrChar_def Some)
    ultimately show ?thesis by (intro exI[of _ "c # p"]) simp
  qed (use 2 in auto)
qed auto

lemma parseIPv6_chars: "parseIPv6Groups ip ell s = Some (ip', ell', []) \<Longrightarrow> list_all addrChar s"
proof (induction "length s" arbitrary: ip ell s rule: less_induct)
  case less
  obtain off acc s' where h: "hexRun 0 0 s = (off, acc, s')" by (metis prod_cases3)
  from hexRun_chars[OF h] obtain p where p: "s = p @ s'" "list_all addrChar p" by blast
  show ?case
  proof (cases s')
    case Nil
    with p show ?thesis by simp
  next
    case (Cons c rest)
    let ?ip = "ip @ [of_nat (acc div 256), of_nat acc]"
    have e: "parseIPv6Groups ip ell s =
       (if length ip \<ge> 16 then Some (ip, ell, s)
        else if off = 0 \<or> off > 4 then None
        else if c = CHR ''.'' then
              (if ell = None \<and> length ip \<noteq> 12 then None
               else if length ip + 4 > 16 then None
               else map_option (\<lambda>v4. (ip @ v4, ell, [])) (parseIPv4 s))
        else if c \<noteq> CHR '':'' \<or> rest = [] then None
        else if hd rest = CHR '':'' then
                (if ell \<noteq> None then None
                 else if tl rest = [] then Some (?ip, Some (length ?ip), [])
                 else parseIPv6Groups ?ip (Some (length ?ip)) (tl rest))
              else parseIPv6Groups ?ip ell rest)"
      by (subst parseIPv6Groups.simps) (simp add: h Cons Let_def)
    consider "s = []" | v where "parseIPv4 s = Some v" | "c = CHR '':''" "hd rest = CHR '':''" "tl rest = []" "rest \<noteq> []"
      | ip2 e2 where "c = CHR '':''" "hd rest = CHR '':''" "rest \<noteq> []" "parseIPv6Groups ip2 e2 (tl rest) = Some (ip', ell', [])"
      | ip2 e2 where "c = CHR '':''" "parseIPv6Groups ip2 e2 rest = Some (ip', ell', [])"
      using less.prems unfolding e by (auto split: if_splits)
    then show ?thesis
    proof cases
      case 2
      then show ?thesis by (simp add: parseIPv4_def parseIPv4_chars)
    next
      case 3
      then show ?thesis using p Cons by (cases rest) (auto simp: addrChar_def)
    next
      case 4
      then have "list_all addrChar (tl rest)" using less.hyps[of "tl rest"] p Cons by simp
      with 4 p Cons show ?thesis by (cases rest) (auto simp: addrChar_def)
    next
      case 5
      then have "list_all addrChar rest" using less.hyps[of rest] p Cons by simp
      with 5 p Cons show ?thesis by (auto simp: addrChar_def)
    qed simp
  qed
qed

lemma ParseIP_chars:
  assumes "ParseIP s = Some ip"
  shows "list_all addrChar s"
proof -
  from assms obtain v where v: "parseIPv4 s = Some v \<or> parseIPv6 s = Some v"
    by (auto simp: ParseIP_def parseAddr_def split: option.splits if_splits)
  have g: "list_all addrChar t" if "Option.bind (parseIPv6Groups [] e t) (\<lambda>(ip, ell, r). expandEllipsis ip ell r) = Some v" for e t
    using that by (auto simp: bind_eq_Some_conv expandEllipsis_def dest: parseIPv6_chars split: if_splits)
  have p: "hasPrefix s ''::'' \<Longrightarrow> s = ''::'' @ drop 2 s" by (metis append_take_drop_id hasPrefix_def length_Cons list.size(3) numeral_2_eq_2)
  from v show ?thesis
  proof
    assume "parseIPv4 s = Some v"
    then show ?thesis by (simp add: parseIPv4_def parseIPv4_chars)
  next
    assume a: "parseIPv6 s = Some v"
    show ?thesis
    proof (cases "hasPrefix s ''::''")
      case True
      have "list_all addrChar (drop 2 s)"
        using a True g[of "Some 0" "drop 2 s"] by (cases "length s = 2") (auto simp: parseIPv6_def)
      then have "list_all addrChar (''::'' @ drop 2 s)" by (simp add: addrChar_def)
      then show ?thesis using p[OF True] by metis
    next
      case False
      with a g[of None s] show ?thesis by (simp add: parseIPv6_def)
    qed
  qed
qed

lemma addrChar_brackets: "list_all addrChar s \<Longrightarrow> CHR ''['' \<notin> set s \<and> CHR '']'' \<notin> set s"
  by (auto simp: list_all_iff addrChar_def hexVal_def)

lemma indexByte_first: "d \<notin> set x \<Longrightarrow> indexByte d (x @ d # y) = Some (length x)"
  by (induction x) auto

lemma lastIndexByte_last: "d \<notin> set q \<Longrightarrow> lastIndexByte d (p @ d # q) = Some (length p)"
  using indexByte_first[of d "rev q" "rev p"] by (simp add: lastIndexByte_def)

lemma lastIndexByte_tail:
  assumes "lastIndexByte d s = Some i"
  shows "d \<notin> set (drop (i + 1) s)"
proof -
  from assms obtain j where j: "indexByte d (rev s) = Some j" "i = length s - 1 - j" by (auto simp: lastIndexByte_def)
  from indexByte_take[OF j(1)] have "d \<notin> set (take j (rev s))" "j < length s" by auto
  moreover have "i + 1 = length s - j" using j(2) \<open>j < length s\<close> by simp
  ultimately show ?thesis by (simp add: take_rev)
qed

lemma split_join:
  assumes "CHR ''['' \<notin> set h" "CHR '']'' \<notin> set h" "CHR '':'' \<notin> set p" "CHR ''['' \<notin> set p" "CHR '']'' \<notin> set p"
  shows "splitHostPort (joinHostPort h p) = Some (h, p)"
proof (cases "CHR '':'' \<in> set h")
  case True
  let ?a = "CHR ''['' # h @ CHR '']'' # CHR '':'' # p"
  have "lastIndexByte (CHR '':'') ?a = Some (length h + 2)"
    using lastIndexByte_last[OF assms(3), of "CHR ''['' # h @ '']''"] by simp
  moreover have "indexByte (CHR '']'') ?a = Some (length h + 1)"
    using indexByte_first[of "CHR '']''" "CHR ''['' # h" "CHR '':'' # p"] assms(2) by simp
  ultimately have "splitHostPort ?a = Some (h, p)" using assms by (simp add: splitHostPort_def)
  then show ?thesis using True by (simp add: joinHostPort_def)
next
  case False
  let ?a = "h @ CHR '':'' # p"
  have "lastIndexByte (CHR '':'') ?a = Some (length h)" using lastIndexByte_last[OF assms(3)] by simp
  moreover have "hd ?a \<noteq> CHR ''[''" using assms(1) by (cases h) auto
  ultimately have "splitHostPort ?a = Some (h, p)" using assms False by (simp add: splitHostPort_def)
  then show ?thesis using False by (simp add: joinHostPort_def)
qed

lemma splitHostPort_port:
  assumes "splitHostPort a = Some (h, p)"
  shows "CHR '':'' \<notin> set p \<and> CHR ''['' \<notin> set p \<and> CHR '']'' \<notin> set p"
proof -
  from assms obtain i where i: "lastIndexByte (CHR '':'') a = Some i" by (cases "lastIndexByte (CHR '':'') a") (auto simp: splitHostPort_def)
  with assms have p: "p = drop (i + 1) a" by (auto simp: splitHostPort_def split: if_splits option.splits)
  have "CHR ''['' \<notin> set (drop 1 a) \<and> (\<exists>e. CHR '']'' \<notin> set (drop (e + 1) a) \<and> e + 1 = i) \<or> CHR ''['' \<notin> set a \<and> CHR '']'' \<notin> set a"
    using assms i by (auto simp: splitHostPort_def split: if_splits option.splits)
  then have "CHR ''['' \<notin> set p \<and> CHR '']'' \<notin> set p"
  proof
    assume "CHR ''['' \<notin> set (drop 1 a) \<and> (\<exists>e. CHR '']'' \<notin> set (drop (e + 1) a) \<and> e + 1 = i)"
    then show ?thesis using set_drop_subset_set_drop[of 1 "i + 1" a] set_drop_subset_set_drop[of i "i + 1" a] p by auto
  next
    assume "CHR ''['' \<notin> set a \<and> CHR '']'' \<notin> set a"
    then show ?thesis using p in_set_dropD by metis
  qed
  with lastIndexByte_tail[OF i] p show ?thesis by simp
qed

section \<open>Properties\<close>

text \<open>
  What the model asks of the network layer: a connection dialed to an address whose host is an IP
  literal goes to that IP, and a resolved address prints as a literal for itself.
\<close>

definition dialer_contract :: "netenv \<Rightarrow> bool" where
  "dialer_contract E \<longleftrightarrow>
     (\<forall>a h p r ip. splitHostPort a = Some (h, p) \<and> ParseIP h = Some ip \<and> neDial E a = Inr r \<longrightarrow> to16 r = ip) \<and>
     (\<forall>h ips ip. neLookup E h = Inr ips \<and> ip \<in> set ips \<longrightarrow> ParseIP (neIPString E ip) = Some (to16 ip))"

lemma dialFirst_Inr:
  assumes "dialer_contract E" "dialFirst E port err ips = Inr r" "neLookup E h = Inr all" "set ips \<subseteq> set all"
    "splitHostPort addr = Some (host, port)"
  shows "\<exists>ip\<in>set ips. to16 r = to16 ip"
  using assms(2,4)
proof (induction ips arbitrary: err)
  case (Cons ip ips)
  show ?case
  proof (cases "neDial E (joinHostPort (neIPString E ip) port)")
    case (Inr c)
    have q: "ParseIP (neIPString E ip) = Some (to16 ip)" using assms(1,3) Cons.prems by (auto simp: dialer_contract_def)
    have "splitHostPort (joinHostPort (neIPString E ip) port) = Some (neIPString E ip, port)"
      using addrChar_brackets[OF ParseIP_chars[OF q]] splitHostPort_port[OF assms(5)] by (intro split_join) auto
    with q Inr assms(1) have "to16 c = to16 ip" by (auto simp: dialer_contract_def)
    with Inr Cons.prems show ?thesis by auto
  qed (use Cons in auto)
qed simp

lemma DialContext_confined:
  assumes "dialer_contract E" "DialContext E g addr = Inr r"
  shows "\<exists>host port. splitHostPort addr = Some (host, port) \<and>
    (deniedRange r = [] \<or> ipAllowlisted g r \<or>
     ParseIP host = None \<and> (\<exists>gd. g = Some gd \<and> neLower E host \<in> set (allowHosts gd)))"
proof -
  from assms(2) obtain host port where s: "splitHostPort addr = Some (host, port)"
    by (auto simp: DialContext_def split: option.splits)
  have ok: "deniedRange r = [] \<or> ipAllowlisted g r" if "to16 r = to16 ip" "ipAllowlisted g ip \<or> deniedRange ip = []" for ip
    using that by (metis deniedRange_to16 ipAllowlisted_to16)
  show ?thesis
  proof (cases "ParseIP host")
    case (Some ip)
    with assms s have c: "checkIP g host ip = Inr ()" and d: "neDial E addr = Inr r"
      by (auto simp: DialContext_def dialTo_def split: sum.splits)
    from Some obtain v where "ip = to16 v" by (auto simp: ParseIP_def)
    moreover have "to16 (to16 v) = to16 v" by (simp add: to16_def)
    ultimately have "to16 r = to16 ip" using d s Some assms(1) unfolding dialer_contract_def by metis
    with ok c s show ?thesis by (auto simp: checkIP_Inr)
  next
    case None
    show ?thesis
    proof (cases "HostExempt (neLower E) g host")
      case True
      with None s show ?thesis by (auto simp: HostExempt_def split: option.splits if_splits)
    next
      case False
      with assms(2) s None obtain ips where l: "neLookup E host = Inr ips" and c: "checkIPs g host ips = Inr ()"
        and d: "dialFirst E port [] ips = Inr r"
        by (auto simp: DialContext_def split: sum.splits if_splits)
      from dialFirst_Inr[OF assms(1) d l subset_refl s] obtain ip where "ip \<in> set ips" "to16 r = to16 ip" by blast
      with ok c s show ?thesis by (auto simp: checkIPs_Inr)
    qed
  qed
qed

text \<open>
  Claim C9. No connection to internal addresses: whatever name or literal is dialed and whatever the
  resolver answers, an established connection leads to an address outside the internal blocks,
  unless an allow-list block holds the address or the dialed name itself is on the allow-list.
\<close>

theorem egress_confined:
  assumes "dialer_contract E" "DialContext E g addr = Inr r" "length r = 4 \<or> length r = 16"
  shows "\<exists>host port. splitHostPort addr = Some (host, port) \<and>
    (\<not> nonPublic r \<or> ipAllowlisted g r \<or>
     ParseIP host = None \<and> (\<exists>gd. g = Some gd \<and> neLower E host \<in> set (allowHosts gd)))"
  using DialContext_confined[OF assms(1,2)] denied_iff_nonPublic[OF assms(3)] by metis

definition exNet :: netenv where
  "exNet = \<lparr>neLower = (\<lambda>s. s), neEqualFold = (=),
     neParseURL = (\<lambda>s. if s = ''https://a'' then Some \<lparr>urlScheme = ''https'', urlHost = ''a'', urlHostname = ''a''\<rparr>
                       else if s = ''http://b'' then Some \<lparr>urlScheme = ''http'', urlHost = ''b'', urlHostname = ''b''\<rparr> else None),
     neURLString = (\<lambda>u. urlScheme u @ ''://'' @ urlHost u),
     neLookup = (\<lambda>h. if h = ''b'' then Inr [[8, 8, 8, 8]] else Inr [[8, 8, 8, 8], [10, 0, 0, 1]]),
     neDial = (\<lambda>a. case splitHostPort a of None \<Rightarrow> Inl ''addr''
        | Some (h, p) \<Rightarrow> (case ParseIP h of None \<Rightarrow> Inl ''name'' | Some ip \<Rightarrow> Inr ip)),
     neIPString = (\<lambda>ip. if ip = [8, 8, 8, 8] then ''8.8.8.8'' else ''10.0.0.1'')\<rparr>"

lemma exNet_contract: "dialer_contract exNet"
proof -
  have s: "ParseIP ''8.8.8.8'' = Some (to16 [8, 8, 8, 8])" "ParseIP ''10.0.0.1'' = Some (to16 [10, 0, 0, 1])" by code_simp+
  have i: "[10, 0, 0, 1] \<noteq> [8, 8, 8, 8 :: byte]" by simp
  have idem: "to16 (to16 v) = to16 v" for v by (simp add: to16_def)
  have t: "ParseIP h = Some ip \<Longrightarrow> to16 ip = ip" for h ip by (auto simp: ParseIP_def idem)
  show ?thesis unfolding dialer_contract_def
    using t by (auto simp: exNet_def s i split: if_splits option.splits prod.splits)
qed

theorem egress_confined_witness:
  "DialContext exNet None ''b:443'' = Inr (to16 [8, 8, 8, 8]) \<and> \<not> nonPublic (to16 [8, 8, 8, 8]) \<and>
   DialContext exNet None ''a:443'' = Inl (Blocked ''a'' [10, 0, 0, 1] ''private'')"
proof -
  have d: "DialContext exNet None ''b:443'' = Inr (to16 [8, 8, 8, 8])"
    "DialContext exNet None ''a:443'' = Inl (Blocked ''a'' [10, 0, 0, 1] ''private'')" by code_simp+
  have "length (to16 [8, 8, 8, 8 :: byte]) = 16" by (simp add: to16_def)
  with egress_confined[OF exNet_contract d(1)] d show ?thesis by (auto simp: ipAllowlisted_def)
qed

text \<open>
  Claim C30. The address classification of the guard is exact: for every address of four or sixteen bytes
  the byte tests of the code deny it exactly if it is, or maps to, a member of one of the listed
  blocks of non-public addresses, read as numbers.
\<close>

theorem deniedRange_exact:
  assumes "length ip = 4 \<or> length ip = 16"
  shows "deniedRange ip \<noteq> [] \<longleftrightarrow>
    (case to4 ip of Some v4 \<Rightarrow> (\<exists>blk \<in> set nonPublic4. inBlock blk v4) | None \<Rightarrow> (\<exists>blk \<in> set nonPublic6. inBlock blk ip))"
  using denied_iff_nonPublic[OF assms] by (simp add: nonPublic_def list_ex_iff split: option.splits)

theorem deniedRange_exact_witness:
  "deniedRange [172, 31, 255, 255] \<noteq> [] \<and> (\<exists>blk \<in> set nonPublic4. inBlock blk [172, 31, 255, 255])"
proof -
  have "deniedRange [172, 31, 255, 255] \<noteq> []" by code_simp
  with deniedRange_exact[of "[172, 31, 255, 255]"] show ?thesis by (simp add: to4_def)
qed

text \<open>
  An allow-list entry in prefix notation exempts exactly its block: a guard built from the single
  entry \<open>base/n\<close> exempts an address if and only if the address agrees with the base in the first
  \<open>n\<close> bits, IPv4-mapped addresses being read as IPv4, and it exempts no host by name.
\<close>

theorem allowlist_entry_exact:
  assumes "trimSpace entry = entry" "indexByte (CHR ''/'') entry = Some i" "parseAddr (take i entry) = Some base"
    "parseUint (drop (Suc i) entry) = UOk n" "n \<le> 8 * length base"
    "length base = 4 \<or> length base = 16 \<and> to4 base = None"
  shows "\<exists>g. NewGuard lower [entry] = Inr g \<and> allowHosts g = [] \<and>
    (\<forall>ip. ipAllowlisted (Some g) ip \<longleftrightarrow> inBlock (base, n) (case to4 ip of Some v \<Rightarrow> v | None \<Rightarrow> ip))"
proof -
  have "entry \<noteq> []" using assms(2) by auto
  then show ?thesis using assms Contains_iff[OF assms(6,5)]
    by (simp add: NewGuard_def addEntry_def ParseCIDR_def ipAllowlisted_def)
qed

theorem allowlist_entry_exact_witness:
  "\<exists>g. NewGuard (\<lambda>s. s) [''10.20.0.0/16''] = Inr g \<and> ipAllowlisted (Some g) [10, 20, 3, 4] \<and> \<not> ipAllowlisted (Some g) [10, 21, 3, 4]"
proof -
  have a: "trimSpace ''10.20.0.0/16'' = ''10.20.0.0/16''" "indexByte (CHR ''/'') ''10.20.0.0/16'' = Some 9"
    "parseAddr (take 9 ''10.20.0.0/16'') = Some [10, 20, 0, 0]"
    by code_simp+
  have b: "parseUint (drop (Suc 9) ''10.20.0.0/16'') = UOk 16"
    by (simp add: parseUint_def digitVal_def)
  have "to4 [10, 20, 3, 4] = Some [10, 20, 3, 4]" "to4 [10, 21, 3, 4] = Some [10, 21, 3, 4]" by (simp_all add: to4_def)
  moreover have "inBlock ([10, 20, 0, 0], 16) [10, 20, 3, 4]" "\<not> inBlock ([10, 20, 0, 0], 16) [10, 21, 3, 4]"
    by (simp_all add: inBlock_Cons)
  ultimately show ?thesis using allowlist_entry_exact[OF a b, of "\<lambda>s. s"] by fastforce
qed

text \<open>
  Redirects cannot carry credentials elsewhere: a hop that is followed stays within the hop limit
  and passed the egress check of its URL, and if it leaves the origin of the first request, or
  falls back from encryption, then it has no body, its credential headers are gone and its other headers are kept.
\<close>

theorem redirect_credentials:
  assumes "CheckRedirect E g req (first # via) = (Inr u, req')"
  shows "length via < 9 \<and> ValidateURL E g (neURLString E (hopURL req)) = Inr () \<and>
    (if neEqualFold E (urlHost (hopURL first)) (urlHost (hopURL req)) \<and>
        (neEqualFold E (urlScheme (hopURL first)) (urlScheme (hopURL req)) \<or>
         neEqualFold E (urlScheme (hopURL first)) ''http'' \<and> neEqualFold E (urlScheme (hopURL req)) ''https'')
     then req' = req
     else \<not> hopGetBody req \<and> hopContentLength req = 0 \<and>
       hopHeader req' = (hopHeader req) |` (- {''Authorization'', ''Proxy-Authorization'', ''Cookie'', ''Cookie2''}))"
proof -
  have v: "length via < 9" "ValidateURL E g (neURLString E (hopURL req)) = Inr ()"
    using assms by (auto simp: CheckRedirect_def maxRedirects_def split: if_splits sum.splits)
  let ?s = "safeToFollow E (hopURL first) (hopURL req)"
  have s: "?s \<longleftrightarrow> neEqualFold E (urlHost (hopURL first)) (urlHost (hopURL req)) \<and>
        (neEqualFold E (urlScheme (hopURL first)) (urlScheme (hopURL req)) \<or>
         neEqualFold E (urlScheme (hopURL first)) ''http'' \<and> neEqualFold E (urlScheme (hopURL req)) ''https'')"
    by (simp add: safeToFollow_def)
  have "?s \<Longrightarrow> req' = req" "\<not> ?s \<Longrightarrow> \<not> hopGetBody req \<and> hopContentLength req = 0 \<and>
      req' = req\<lparr>hopHeader := (hopHeader req)(''Authorization'' := None, ''Proxy-Authorization'' := None, ''Cookie'' := None, ''Cookie2'' := None)\<rparr>"
    using assms v by (auto simp: CheckRedirect_def maxRedirects_def split: if_splits)
  then show ?thesis unfolding s[symmetric] using v by (auto simp: restrict_map_def fun_eq_iff)
qed

theorem redirect_credentials_witness:
  "\<exists>req'. CheckRedirect exNet None
      \<lparr>hopURL = \<lparr>urlScheme = ''http'', urlHost = ''b'', urlHostname = ''b''\<rparr>, hopGetBody = False, hopContentLength = 0,
       hopHeader = [''Authorization'' \<mapsto> [''t''], ''Accept'' \<mapsto> [''x'']]\<rparr>
      [\<lparr>hopURL = \<lparr>urlScheme = ''https'', urlHost = ''b'', urlHostname = ''b''\<rparr>, hopGetBody = False, hopContentLength = 0,
       hopHeader = Map.empty\<rparr>] = (Inr (), req') \<and>
      hopHeader req' ''Authorization'' = None \<and> hopHeader req' ''Accept'' = Some [''x'']"
proof -
  let ?q = "\<lparr>hopURL = \<lparr>urlScheme = ''http'', urlHost = ''b'', urlHostname = ''b''\<rparr>, hopGetBody = False, hopContentLength = 0,
       hopHeader = [''Authorization'' \<mapsto> [''t''], ''Accept'' \<mapsto> [''x'']]\<rparr>"
  let ?f = "\<lparr>hopURL = \<lparr>urlScheme = ''https'', urlHost = ''b'', urlHostname = ''b''\<rparr>, hopGetBody = False, hopContentLength = 0,
       hopHeader = Map.empty\<rparr>"
  have v: "ValidateURL exNet None ''http://b'' = Inr ()" by code_simp
  have u: "neURLString exNet (hopURL ?q) = ''http://b''" by (simp add: exNet_def)
  have "\<not> safeToFollow exNet (hopURL ?f) (hopURL ?q)" by (simp add: safeToFollow_def exNet_def)
  then obtain req' where r: "CheckRedirect exNet None ?q [?f] = (Inr (), req')"
    using v u by (simp add: CheckRedirect_def maxRedirects_def)
  from redirect_credentials[OF r] have "hopHeader req' = hopHeader ?q |` (- {''Authorization'', ''Proxy-Authorization'', ''Cookie'', ''Cookie2''})"
    by (simp add: exNet_def)
  then have "hopHeader req' ''Authorization'' = None \<and> hopHeader req' ''Accept'' = Some [''x'']" by simp
  with r show ?thesis by blast
qed

end
