(* ===== verification/LocalStorage.thy ===== *)
theory LocalStorage
  imports Prelude
begin

text \<open>
  The file-system storage backend (\<^verbatim>\<open>internal/storage/local/local.go\<close>): path confinement and the
  storage operations, over a model of the operating-system calls they make. A file system maps
  clean paths to nodes and carries the faults the next calls meet, so that every failing
  call is a case of the model. SHA-256 is a parameter.
\<close>

section \<open>Package path/filepath on Unix\<close>

fun joinSlash :: "string list \<Rightarrow> string" where
  "joinSlash [] = []"
| "joinSlash [p] = p"
| "joinSlash (p # q # ps) = p @ ''/'' @ joinSlash (q # ps)"

text \<open>One element of a path, on the stack of the elements kept so far (last first).\<close>

definition cleanStep :: "bool \<Rightarrow> string \<Rightarrow> string list \<Rightarrow> string list" where
  "cleanStep rooted e st =
     (if e = [] \<or> e = ''.'' then st
      else if e = ''..'' then
        (case st of
           [] \<Rightarrow> if rooted then [] else [''..'']
         | x # xs \<Rightarrow> if x = ''..'' then ''..'' # st else xs)
      else e # st)"

definition cleanElems :: "string \<Rightarrow> string list" where
  "cleanElems p = rev (fold (cleanStep (hasPrefix p ''/'')) (splitOn (CHR ''/'') p) [])"

definition Clean :: "string \<Rightarrow> string" where
  "Clean p =
     (if hasPrefix p ''/'' then ''/'' @ joinSlash (cleanElems p)
      else if cleanElems p = [] then ''.'' else joinSlash (cleanElems p))"

definition Join :: "string \<Rightarrow> string \<Rightarrow> string" where
  "Join a b =
     (if a \<noteq> [] then Clean (a @ ''/'' @ b) else if b \<noteq> [] then Clean b else [])"

definition Dir :: "string \<Rightarrow> string" where
  "Dir p = Clean (rev (dropWhile (\<lambda>c. c \<noteq> CHR ''/'') (rev p)))"

section \<open>The file system\<close>

datatype fnode = FFile string int | FDir

datatype fault = FOk | FFail | FShort nat

record fs =
  fsNodes :: "(string \<times> fnode) list"
  fsNow :: int
  fsDirStat :: "string \<Rightarrow> nat \<times> int"
  fsFaults :: "fault list"

definition node :: "fs \<Rightarrow> string \<Rightarrow> fnode option" where
  "node s p = map_of (fsNodes s) p"

definition setNode :: "string \<Rightarrow> fnode \<Rightarrow> fs \<Rightarrow> fs" where
  "setNode p n s = s\<lparr>fsNodes := (p, n) # filter (\<lambda>x. fst x \<noteq> p) (fsNodes s)\<rparr>"

definition rmNode :: "string \<Rightarrow> fs \<Rightarrow> fs" where
  "rmNode p s = s\<lparr>fsNodes := filter (\<lambda>x. fst x \<noteq> p) (fsNodes s)\<rparr>"

lemma map_of_filter_other: "map_of (filter (\<lambda>x. fst x \<noteq> p) xs) q = (if q = p then None else map_of xs q)"
  by (induction xs) auto

lemma node_setNode [simp]: "node (setNode p n s) q = (if q = p then Some n else node s q)"
  by (simp add: node_def setNode_def map_of_filter_other)

lemma node_rmNode [simp]: "node (rmNode p s) q = (if q = p then None else node s q)"
  by (simp add: node_def rmNode_def map_of_filter_other)

lemma fs_fields [simp]:
  "fsNow (setNode p n s) = fsNow s" "fsFaults (setNode p n s) = fsFaults s" "fsDirStat (setNode p n s) = fsDirStat s"
  "fsNow (rmNode p s) = fsNow s" "fsFaults (rmNode p s) = fsFaults s" "fsDirStat (rmNode p s) = fsDirStat s"
  "node (s\<lparr>fsFaults := fl\<rparr>) = node s"
  by (auto simp: setNode_def rmNode_def node_def fun_eq_iff)

definition osCall :: "fs \<Rightarrow> fault \<times> fs" where
  "osCall s = (case fsFaults s of [] \<Rightarrow> (FOk, s) | f # fl \<Rightarrow> (f, s\<lparr>fsFaults := fl\<rparr>))"

datatype oserr = NotExist | OsError

definition isDir :: "fs \<Rightarrow> string \<Rightarrow> bool" where
  "isDir s p = (p = ''/'' \<or> p = ''.'' \<or> node s p = Some FDir)"

text \<open>The directories above a clean path, the path included, outermost first.\<close>

fun prefixesOf :: "string \<Rightarrow> string list \<Rightarrow> string list" where
  "prefixesOf acc [] = []"
| "prefixesOf acc (e # es) =
     (let p = (if acc = [] \<or> acc = ''/'' then acc @ e else acc @ ''/'' @ e) in p # prefixesOf p es)"

definition ancestors :: "string \<Rightarrow> string list" where
  "ancestors p = prefixesOf (if hasPrefix p ''/'' then ''/'' else []) (cleanElems p)"

fun makeDirs :: "string list \<Rightarrow> fs \<Rightarrow> (oserr + unit) \<times> fs" where
  "makeDirs [] s = (Inr (), s)"
| "makeDirs (p # ps) s =
     (case node s p of
        Some (FFile _ _) \<Rightarrow> (Inl OsError, s)
      | Some FDir \<Rightarrow> makeDirs ps s
      | None \<Rightarrow> makeDirs ps (setNode p FDir s))"

definition osMkdirAll :: "string \<Rightarrow> fs \<Rightarrow> (oserr + unit) \<times> fs" where
  "osMkdirAll p s =
     (case osCall s of (f, s1) \<Rightarrow>
        if f \<noteq> FOk then (Inl OsError, s1)
        else makeDirs (ancestors p) s1)"

text \<open>
  \<^verbatim>\<open>os.Create\<close>, an open for writing that truncates, and \<^verbatim>\<open>os.WriteFile\<close>, which creates and writes; a
  short write leaves the bytes written so far.
\<close>

definition osCreate :: "string \<Rightarrow> fs \<Rightarrow> (oserr + unit) \<times> fs" where
  "osCreate p s =
     (case osCall s of (f, s1) \<Rightarrow>
        if f \<noteq> FOk \<or> isDir s1 p \<or> \<not> isDir s1 (Dir p) then (Inl OsError, s1)
        else (Inr (), setNode p (FFile [] (fsNow s1)) s1))"

definition osWriteFile :: "string \<Rightarrow> string \<Rightarrow> fs \<Rightarrow> (oserr + unit) \<times> fs" where
  "osWriteFile p d s =
     (case osCall s of (f, s1) \<Rightarrow>
        if f = FFail \<or> isDir s1 p \<or> \<not> isDir s1 (Dir p) then (Inl OsError, s1)
        else (case f of
                FShort n \<Rightarrow> (Inl OsError, setNode p (FFile (take n d) (fsNow s1)) s1)
              | _ \<Rightarrow> (Inr (), setNode p (FFile d (fsNow s1)) s1)))"

text \<open>A directory is removed only when nothing lies below it.\<close>

definition emptyDir :: "fs \<Rightarrow> string \<Rightarrow> bool" where
  "emptyDir s p = list_all (\<lambda>x. \<not> hasPrefix (fst x) (p @ ''/'')) (fsNodes s)"

definition osRemove :: "string \<Rightarrow> fs \<Rightarrow> (oserr + unit) \<times> fs" where
  "osRemove p s =
     (case osCall s of (f, s1) \<Rightarrow>
        if f \<noteq> FOk \<or> p = ''/'' \<or> p = ''.'' then (Inl OsError, s1)
        else (case node s1 p of
                None \<Rightarrow> (Inl NotExist, s1)
              | Some (FFile _ _) \<Rightarrow> (Inr (), rmNode p s1)
              | Some FDir \<Rightarrow>
                  if emptyDir s1 p then (Inr (), rmNode p s1) else (Inl OsError, s1)))"

definition osStat :: "string \<Rightarrow> fs \<Rightarrow> (oserr + nat \<times> int) \<times> fs" where
  "osStat p s =
     (case osCall s of (f, s1) \<Rightarrow>
        if f \<noteq> FOk then (Inl OsError, s1)
        else (case node s1 p of
                None \<Rightarrow> (Inl NotExist, s1)
              | Some (FFile d t) \<Rightarrow> (Inr (length d, t), s1)
              | Some FDir \<Rightarrow> (Inr (fsDirStat s1 p), s1)))"

definition osOpen :: "string \<Rightarrow> fs \<Rightarrow> (oserr + fnode) \<times> fs" where
  "osOpen p s =
     (case osCall s of (f, s1) \<Rightarrow>
        if f \<noteq> FOk then (Inl OsError, s1)
        else (case node s1 p of None \<Rightarrow> (Inl NotExist, s1) | Some n \<Rightarrow> (Inr n, s1)))"

text \<open>Reading an open file to its end; a directory cannot be read.\<close>

definition readAll :: "fnode \<Rightarrow> fs \<Rightarrow> (oserr + string) \<times> fs" where
  "readAll n s =
     (case osCall s of (f, s1) \<Rightarrow>
        if f \<noteq> FOk then (Inl OsError, s1)
        else (case n of FFile d _ \<Rightarrow> (Inr d, s1) | FDir \<Rightarrow> (Inl OsError, s1)))"

section \<open>The backend\<close>

record LocalStorage =
  basePath :: string
  serveDirectly :: bool
  baseURL :: string

definition safeJoin :: "LocalStorage \<Rightarrow> string \<Rightarrow> string + string" where
  "safeJoin L path =
     (let full = Join (basePath L) path;
          base = Clean (basePath L) @ ''/''
      in if \<not> hasPrefix (Clean full @ ''/'') base then Inl (''path escapes storage root: '' @ path) else Inr full)"

text \<open>The bytes a reader delivers, and whether it fails after them.\<close>

type_synonym reader = "string \<times> bool"

record UploadResult =
  urPath :: string
  urSize :: nat
  urChecksum :: string

text \<open>
  \<^verbatim>\<open>io.Copy\<close> from the reader to the created file: the bytes that arrive in the file and whether all
  of the reader was copied.
\<close>

definition copyTo :: "string \<Rightarrow> reader \<Rightarrow> fs \<Rightarrow> (oserr + string) \<times> fs" where
  "copyTo p r s =
     (case osCall s of (f, s1) \<Rightarrow>
        (case f of
           FFail \<Rightarrow> (Inl OsError, s1)
         | FShort n \<Rightarrow> (Inl OsError, setNode p (FFile (take n (fst r)) (fsNow s1)) s1)
         | FOk \<Rightarrow>
             let s2 = setNode p (FFile (fst r) (fsNow s1)) s1 in
             if snd r then (Inl OsError, s2) else (Inr (fst r), s2)))"

definition Upload :: "(string \<Rightarrow> string) \<Rightarrow> LocalStorage \<Rightarrow> string \<Rightarrow> reader \<Rightarrow> fs \<Rightarrow> (string + UploadResult) \<times> fs" where
  "Upload sha L path r s =
     (case safeJoin L path of
        Inl e \<Rightarrow> (Inl e, s)
      | Inr fullPath \<Rightarrow>
          (case osMkdirAll (Dir fullPath) s of
             (Inl _, s1) \<Rightarrow> (Inl ''failed to create directory'', s1)
           | (Inr _, s1) \<Rightarrow>
               (case osCreate fullPath s1 of
                  (Inl _, s2) \<Rightarrow> (Inl ''failed to create file'', s2)
                | (Inr _, s2) \<Rightarrow>
                    (case copyTo fullPath r s2 of
                       (Inl _, s3) \<Rightarrow> (Inl ''failed to write file'', snd (osRemove fullPath s3))
                     | (Inr d, s3) \<Rightarrow>
                         (Inr \<lparr>urPath = path, urSize = length d, urChecksum = sha d\<rparr>,
                          snd (osWriteFile (fullPath @ ''.sha256'') (sha d) s3))))))"

definition Download :: "LocalStorage \<Rightarrow> string \<Rightarrow> fs \<Rightarrow> (string + fnode) \<times> fs" where
  "Download L path s =
     (case safeJoin L path of
        Inl e \<Rightarrow> (Inl e, s)
      | Inr fullPath \<Rightarrow>
          (case osOpen fullPath s of
             (Inl NotExist, s1) \<Rightarrow> (Inl (''file not found: '' @ path), s1)
           | (Inl OsError, s1) \<Rightarrow> (Inl ''failed to open file'', s1)
           | (Inr n, s1) \<Rightarrow> (Inr n, s1)))"

subsection \<open>The clean-up of parent directories ends\<close>

text \<open>
  The parent of a path is shorter, up to the root or the working directory, which cannot be
  removed. The elements of a path, each with its separator, bound the length of the clean path.
\<close>

definition weight :: "string list \<Rightarrow> nat" where
  "weight es = sum_list (map (\<lambda>e. length e + 1) es)"

lemma weight_simps [simp]: "weight [] = 0" "weight (e # es) = length e + 1 + weight es" "weight (es @ fs) = weight es + weight fs"
  "weight (rev es) = weight es"
  by (simp_all add: weight_def rev_map[symmetric])

lemma weight_splitOn: "weight (splitOn d p) = length p + 1"
  by (induction p) (auto split: list.splits)

lemma length_joinSlash: "es \<noteq> [] \<Longrightarrow> length (joinSlash es) + 1 = weight es"
  by (induction es rule: joinSlash.induct) auto

lemma weight_cleanStep: "weight (cleanStep rooted e st) \<le> weight st + (if e = [] then 0 else length e + 1)"
  by (auto simp: cleanStep_def split: list.splits)

lemma weight_fold: "weight (fold (cleanStep rooted) es st) \<le> weight st + weight (filter (\<lambda>e. e \<noteq> []) es)"
proof (induction es arbitrary: st)
  case (Cons e es)
  from Cons[of "cleanStep rooted e st"] weight_cleanStep[of rooted e st] show ?case by (auto split: if_splits)
qed simp

lemma splitOn_append_sep: "splitOn d (x @ d # y) = splitOn d x @ splitOn d y"
proof (induction x)
  case (Cons c x)
  then show ?case by (cases "splitOn d x") (auto split: list.splits)
qed simp

lemma weight_cleanElems: "weight (cleanElems p) \<le> weight (filter (\<lambda>e. e \<noteq> []) (splitOn (CHR ''/'') p))"
  using weight_fold[of "hasPrefix p ''/''" "splitOn (CHR ''/'') p" "[]"] by (simp add: cleanElems_def)

lemma weight_filter_le: "weight (filter P es) \<le> weight es"
  by (induction es) auto

lemma length_Clean_slash:
  assumes "r \<noteq> []"
  shows "length (Clean (r @ ''/'')) \<le> length r"
proof -
  let ?es = "filter (\<lambda>e. e \<noteq> []) (splitOn (CHR ''/'') r)"
  have w: "weight (cleanElems (r @ ''/'')) \<le> weight ?es"
    using weight_cleanElems[of "r @ ''/''"] by (simp add: splitOn_append_sep)
  have f: "weight ?es \<le> length r + 1 - (if hasPrefix r ''/'' then 1 else 0)"
  proof (cases "hasPrefix r ''/''")
    case True
    then obtain t where "r = CHR ''/'' # t" by (cases r) (auto simp: hasPrefix_def)
    then show ?thesis using weight_splitOn[of "CHR ''/''" t] weight_filter_le[of "\<lambda>e. e \<noteq> []" "splitOn (CHR ''/'') t"] True by simp
  next
    case False
    then show ?thesis using weight_splitOn[of "CHR ''/''" r] weight_filter_le[of "\<lambda>e. e \<noteq> []" "splitOn (CHR ''/'') r"] by simp
  qed
  have h: "hasPrefix (r @ ''/'') ''/'' = hasPrefix r ''/''" using assms by (cases r) (auto simp: hasPrefix_def)
  show ?thesis
    using w f h assms length_joinSlash[of "cleanElems (r @ ''/'')"]
    by (cases "cleanElems (r @ ''/'') = []") (auto simp: Clean_def Suc_le_eq split: if_splits)
qed

definition dirMeasure :: "string \<Rightarrow> nat" where
  "dirMeasure d = (if d = ''/'' \<or> d = ''.'' then 0 else Suc (length d))"

lemma Dir_smaller:
  assumes "d \<noteq> ''/''" "d \<noteq> ''.''"
  shows "dirMeasure (Dir d) < dirMeasure d"
proof -
  let ?q = "rev (dropWhile (\<lambda>c. c \<noteq> CHR ''/'') (rev d))"
  have l: "length ?q \<le> length d" using length_dropWhile_le[of "\<lambda>c. c \<noteq> CHR ''/''" "rev d"] by simp
  consider "?q = []" | "?q = ''/''" | r where "?q = r @ ''/''" "r \<noteq> []"
  proof (cases "dropWhile (\<lambda>c. c \<noteq> CHR ''/'') (rev d)")
    case (Cons x xs)
    then have "x = CHR ''/''" using hd_dropWhile[of "\<lambda>c. c \<noteq> CHR ''/''" "rev d"] by simp
    with Cons that(2) that(3)[of "rev xs"] show ?thesis by (cases "xs = []") auto
  qed (use that(1) in simp)
  then show ?thesis
  proof cases
    case 1
    have "Dir d = ''.''" unfolding Dir_def 1 by code_simp
    with assms show ?thesis unfolding dirMeasure_def by simp
  next
    case 2
    have "Dir d = ''/''" unfolding Dir_def 2 by code_simp
    with assms show ?thesis unfolding dirMeasure_def by simp
  next
    case 3
    have "length (Dir d) < length d" using length_Clean_slash[of r] 3 l by (simp add: Dir_def)
    with assms show ?thesis unfolding dirMeasure_def by simp
  qed
qed

lemma osRemove_Inr: "osRemove p s = (Inr u, s') \<Longrightarrow> p \<noteq> ''/'' \<and> p \<noteq> ''.''"
  by (auto simp: osRemove_def split: prod.splits if_splits)

function pruneDirs :: "string \<Rightarrow> string \<Rightarrow> fs \<Rightarrow> fs" where
  "pruneDirs base dir s =
     (if dir = base then s
      else (case osRemove dir s of
              (Inl _, s1) \<Rightarrow> s1
            | (Inr _, s1) \<Rightarrow> pruneDirs base (Dir dir) s1))"
  by pat_completeness auto
termination
  by (relation "measure (\<lambda>(base, dir, s). dirMeasure dir)") (auto dest!: osRemove_Inr[OF sym] intro: Dir_smaller)

declare pruneDirs.simps [simp del]

definition Delete :: "LocalStorage \<Rightarrow> string \<Rightarrow> fs \<Rightarrow> (string + unit) \<times> fs" where
  "Delete L path s =
     (case safeJoin L path of
        Inl e \<Rightarrow> (Inl e, s)
      | Inr fullPath \<Rightarrow>
          (case osRemove fullPath s of
             (Inl NotExist, s1) \<Rightarrow> (Inr (), s1)
           | (Inl OsError, s1) \<Rightarrow> (Inl ''failed to delete file'', s1)
           | (Inr _, s1) \<Rightarrow>
               let s2 = snd (osRemove (fullPath @ ''.sha256'') s1) in
               (Inr (), pruneDirs (basePath L) (Dir fullPath) s2)))"

definition Exists :: "LocalStorage \<Rightarrow> string \<Rightarrow> fs \<Rightarrow> (string + bool) \<times> fs" where
  "Exists L path s =
     (case safeJoin L path of
        Inl e \<Rightarrow> (Inl e, s)
      | Inr fullPath \<Rightarrow>
          (case osStat fullPath s of
             (Inl NotExist, s1) \<Rightarrow> (Inr False, s1)
           | (Inl OsError, s1) \<Rightarrow> (Inl ''failed to check file existence'', s1)
           | (Inr _, s1) \<Rightarrow> (Inr True, s1)))"

definition GetURL :: "LocalStorage \<Rightarrow> string \<Rightarrow> fs \<Rightarrow> (string + string) \<times> fs" where
  "GetURL L path s =
     (case Exists L path s of
        (Inl e, s1) \<Rightarrow> (Inl e, s1)
      | (Inr ex, s1) \<Rightarrow>
          if \<not> ex then (Inl (''file not found: '' @ path), s1)
          else if serveDirectly L then (Inr (baseURL L @ ''/v1/files/'' @ path), s1)
          else (case safeJoin L path of
                  Inl e \<Rightarrow> (Inl e, s1)
                | Inr fullPath \<Rightarrow> (Inr (''file://'' @ fullPath), s1)))"

record FileMetadata =
  fmPath :: string
  fmSize :: nat
  fmChecksum :: string
  fmLastModified :: int

definition GetMetadata :: "(string \<Rightarrow> string) \<Rightarrow> LocalStorage \<Rightarrow> string \<Rightarrow> fs \<Rightarrow> (string + FileMetadata) \<times> fs" where
  "GetMetadata sha L path s =
     (case safeJoin L path of
        Inl e \<Rightarrow> (Inl e, s)
      | Inr fullPath \<Rightarrow>
          (case osStat fullPath s of
             (Inl NotExist, s1) \<Rightarrow> (Inl (''file not found: '' @ path), s1)
           | (Inl OsError, s1) \<Rightarrow> (Inl ''failed to get file metadata'', s1)
           | (Inr (sz, mtime), s1) \<Rightarrow>
               (case osOpen (fullPath @ ''.sha256'') s1 of
                  (Inr (FFile d t), s2) \<Rightarrow>
                    (Inr \<lparr>fmPath = path, fmSize = sz, fmChecksum = trimSpace d, fmLastModified = mtime\<rparr>, s2)
                | (_, s2) \<Rightarrow>
                    (case osOpen fullPath s2 of
                       (Inl _, s3) \<Rightarrow> (Inl ''failed to open file for checksum'', s3)
                     | (Inr n, s3) \<Rightarrow>
                         (case readAll n s3 of
                            (Inl _, s4) \<Rightarrow> (Inl ''failed to calculate checksum'', s4)
                          | (Inr d, s4) \<Rightarrow>
                              (Inr \<lparr>fmPath = path, fmSize = sz, fmChecksum = sha d, fmLastModified = mtime\<rparr>,
                               snd (osWriteFile (fullPath @ ''.sha256'') (sha d) s4)))))))"

section \<open>Clean paths\<close>

definition normal :: "string \<Rightarrow> bool" where
  "normal e = (e \<noteq> [] \<and> e \<noteq> ''.'' \<and> e \<noteq> ''..'' \<and> CHR ''/'' \<notin> set e)"

text \<open>The elements of a clean relative path: parent references, then proper names.\<close>

fun canon :: "string list \<Rightarrow> bool" where
  "canon [] = True"
| "canon (e # es) = (e = ''..'' \<and> canon es \<or> normal e \<and> list_all normal es)"

lemma normal_not [simp]: "\<not> normal []" "\<not> normal ''.''" "\<not> normal ''..''"
  by (simp_all add: normal_def)

lemma canon_normal: "list_all normal es \<Longrightarrow> canon es"
  by (cases es) auto

lemma canon_snoc: "canon es \<Longrightarrow> normal e \<Longrightarrow> canon (es @ [e])"
  by (induction es) auto

lemma canon_snoc_up: "canon (es @ [''..'']) \<longleftrightarrow> list_all (\<lambda>e. e = ''..'') es"
  by (induction es) auto

lemma canon_butlast: "canon (es @ [e]) \<Longrightarrow> canon es"
  by (induction es) auto

lemma canon_after: "canon (xs @ x # ys) \<Longrightarrow> normal x \<Longrightarrow> list_all normal ys"
  by (induction xs) auto

lemma canon_last: "canon es \<Longrightarrow> es \<noteq> [] \<Longrightarrow> last es \<noteq> ''..'' \<Longrightarrow> normal (last es)"
  by (induction es) (auto simp: list_all_iff)

definition okElems :: "bool \<Rightarrow> string list \<Rightarrow> bool" where
  "okElems rooted es = (canon es \<and> (rooted \<longrightarrow> list_all normal es))"

lemma okElems_step:
  assumes "okElems rooted (rev st)" "CHR ''/'' \<notin> set e"
  shows "okElems rooted (rev (cleanStep rooted e st))"
proof -
  consider "e = [] \<or> e = ''.''" | "e = ''..''" "st = []" | xs where "e = ''..''" "st = ''..'' # xs"
    | x xs where "e = ''..''" "st = x # xs" "x \<noteq> ''..''" | "normal e" "e \<noteq> ''.''" "e \<noteq> ''..''" "e \<noteq> []"
    using assms(2) by (cases st) (auto simp: normal_def)
  then show ?thesis
  proof cases
    case 3
    with assms show ?thesis using canon_snoc_up[of "rev xs @ [''..'']"] by (auto simp: okElems_def cleanStep_def canon_snoc_up)
  next
    case 4
    with assms show ?thesis by (auto simp: okElems_def cleanStep_def intro: canon_butlast)
  next
    case 5
    with assms show ?thesis by (auto simp: okElems_def cleanStep_def intro: canon_snoc)
  qed (use assms in \<open>auto simp: okElems_def cleanStep_def\<close>)
qed

lemma okElems_fold:
  "okElems rooted (rev st) \<Longrightarrow> (\<forall>e\<in>set es. CHR ''/'' \<notin> set e) \<Longrightarrow> okElems rooted (rev (fold (cleanStep rooted) es st))"
  by (induction es arbitrary: st) (auto intro: okElems_step)

lemma okElems_clean: "okElems (hasPrefix p ''/'') (cleanElems p)"
  using okElems_fold[of "hasPrefix p ''/''" "[]" "splitOn (CHR ''/'') p"] splitOn_pieces[of _ "CHR ''/''" p]
  by (simp add: cleanElems_def okElems_def)

lemma splitOn_join: "(\<forall>e\<in>set es. CHR ''/'' \<notin> set e) \<Longrightarrow> es \<noteq> [] \<Longrightarrow> splitOn (CHR ''/'') (joinSlash es) = es"
  by (induction es rule: joinSlash.induct) (auto simp: splitOn_no_sep splitOn_sep)

lemma canon_pieces: "canon es \<Longrightarrow> e \<in> set es \<Longrightarrow> CHR ''/'' \<notin> set e \<and> e \<noteq> [] \<and> e \<noteq> ''.''"
  by (induction es) (auto simp: normal_def list_all_iff)

text \<open>The elements of the printed clean path are those it was printed from.\<close>

lemma splitOn_Clean:
  "splitOn (CHR ''/'') (Clean p) =
     (if hasPrefix p ''/'' then (if cleanElems p = [] then [[], []] else [] # cleanElems p)
      else if cleanElems p = [] then [''.''] else cleanElems p)"
proof -
  have c: "\<forall>e\<in>set (cleanElems p). CHR ''/'' \<notin> set e" using okElems_clean[of p] canon_pieces by (auto simp: okElems_def)
  then show ?thesis by (auto simp: Clean_def splitOn_join)
qed

lemma fold_clean_normal: "list_all normal es \<Longrightarrow> fold (cleanStep rooted) es st = rev es @ st"
  by (induction es arbitrary: st) (auto simp: cleanStep_def normal_def)

lemma fold_clean_canon:
  "canon es \<Longrightarrow> list_all (\<lambda>e. e = ''..'') st \<Longrightarrow> fold (cleanStep False) es st = rev es @ st"
proof (induction es arbitrary: st)
  case (Cons e es)
  show ?case
  proof (cases "e = ''..''")
    case True
    then have "cleanStep False e st = e # st" using Cons.prems(2) by (cases st) (auto simp: cleanStep_def)
    with True Cons.IH[of "e # st"] Cons.prems show ?thesis by simp
  next
    case False
    with Cons.prems fold_clean_normal[of "e # es" False st] show ?thesis by simp
  qed
qed simp

lemma hasPrefix_Clean: "hasPrefix (Clean p) ''/'' = hasPrefix p ''/''"
proof (cases "hasPrefix p ''/'' \<or> cleanElems p = []")
  case False
  then obtain e es where e: "cleanElems p = e # es" by (cases "cleanElems p") auto
  then have "CHR ''/'' \<notin> set e" "e \<noteq> []" using okElems_clean[of p] canon_pieces[of "e # es" e] by (auto simp: okElems_def)
  with False e show ?thesis by (cases es; cases e) (auto simp: Clean_def hasPrefix_def)
qed (auto simp: Clean_def hasPrefix_def)

lemma cleanElems_Clean: "cleanElems (Clean p) = cleanElems p"
proof -
  have o: "okElems (hasPrefix p ''/'') (cleanElems p)" by (rule okElems_clean)
  have f: "fold (cleanStep (hasPrefix p ''/'')) (cleanElems p) [] = rev (cleanElems p)"
    using o fold_clean_normal[of "cleanElems p"] fold_clean_canon[of "cleanElems p" "[]"]
    by (cases "hasPrefix p ''/''") (auto simp: okElems_def)
  have "fold (cleanStep (hasPrefix p ''/'')) (splitOn (CHR ''/'') (Clean p)) [] = rev (cleanElems p)"
    using f by (auto simp: splitOn_Clean cleanStep_def)
  then show ?thesis unfolding cleanElems_def[of "Clean p"] hasPrefix_Clean by simp
qed

lemma Clean_idem [simp]: "Clean (Clean p) = Clean p"
  by (simp add: Clean_def[of "Clean p"] hasPrefix_Clean cleanElems_Clean) (simp add: Clean_def)

lemma Clean_not_Nil: "Clean b \<noteq> []"
proof
  assume "Clean b = []"
  then have "splitOn (CHR ''/'') (Clean b) = [[]]" by simp
  moreover have "[] \<notin> set (cleanElems b)" using okElems_clean[of b] canon_pieces by (auto simp: okElems_def)
  ultimately show False by (auto simp: splitOn_Clean split: if_splits)
qed

lemma below_clean:
  assumes "Clean p = Clean b @ ''/'' @ t" "cleanElems b = [] \<or> last (cleanElems b) \<noteq> ''..''"
  shows "list_all normal (splitOn (CHR ''/'') t)"
proof -
  have s: "splitOn (CHR ''/'') (Clean p) = splitOn (CHR ''/'') (Clean b) @ splitOn (CHR ''/'') t"
    unfolding assms(1) by (simp add: splitOn_append_sep)
  have r: "hasPrefix p ''/'' = hasPrefix b ''/''"
  proof -
    have "hasPrefix (Clean b @ ''/'' @ t) ''/'' = hasPrefix (Clean b) ''/''" using Clean_not_Nil[of b] by (cases "Clean b") (auto simp: hasPrefix_def)
    then show ?thesis using hasPrefix_Clean[of p] hasPrefix_Clean[of b] assms(1) by simp
  qed
  have op: "okElems (hasPrefix p ''/'') (cleanElems p)" and ob: "okElems (hasPrefix b ''/'') (cleanElems b)"
    by (rule okElems_clean)+
  have e: "cleanElems b \<noteq> [] \<and> cleanElems p = cleanElems b @ splitOn (CHR ''/'') t"
  proof -
    have n: "[] \<notin> set (cleanElems p)" "''.'' \<notin> set (cleanElems p)" using op canon_pieces by (auto simp: okElems_def)
    have t: "splitOn (CHR ''/'') t \<noteq> []" by simp
    show ?thesis
    proof (cases "hasPrefix b ''/''")
      case True
      with s r n t show ?thesis
        by (cases "cleanElems p = []"; cases "cleanElems b = []") (auto simp: splitOn_Clean Cons_eq_append_conv)
    next
      case False
      with s r n t show ?thesis
        by (cases "cleanElems p = []"; cases "cleanElems b = []") (auto simp: splitOn_Clean Cons_eq_append_conv)
    qed
  qed
  then obtain xs x where x: "cleanElems b = xs @ [x]" by (cases "cleanElems b" rule: rev_cases) auto
  have "normal x" using canon_last[of "cleanElems b"] ob assms(2) x by (auto simp: okElems_def)
  moreover have "canon (xs @ x # splitOn (CHR ''/'') t)" using op e x by (auto simp: okElems_def)
  ultimately show ?thesis by (metis canon_after)
qed

lemma safeJoin_below:
  assumes "safeJoin L path = Inr full" "basePath L \<noteq> []" "cleanElems (basePath L) = [] \<or> last (cleanElems (basePath L)) \<noteq> ''..''"
  shows "full = Clean (basePath L) \<or>
    (\<exists>rel. full = Clean (basePath L) @ ''/'' @ rel \<and> list_all normal (splitOn (CHR ''/'') rel))"
proof -
  let ?p = "basePath L @ ''/'' @ path" and ?b = "Clean (basePath L)"
  have f: "full = Clean ?p" using assms(1,2) by (auto simp: safeJoin_def Let_def Join_def split: if_splits)
  have "hasPrefix (full @ ''/'') (?b @ ''/'')" using assms(1) f by (auto simp: safeJoin_def Let_def split: if_splits)
  then obtain t where t: "full @ ''/'' = ?b @ ''/'' @ t" by (metis append.assoc hasPrefix_decompose)
  show ?thesis
  proof (cases t rule: rev_cases)
    case Nil
    with t show ?thesis by simp
  next
    case (snoc rel c)
    with t have "(full @ [CHR ''/'']) = (?b @ ''/'' @ rel) @ [c]" by simp
    then have e: "full = ?b @ ''/'' @ rel" using append1_eq_conv by metis
    with below_clean[of ?p "basePath L" rel] f assms(3) show ?thesis by auto
  qed
qed

subsection \<open>What the calls keep\<close>

lemma osCall_eq: "osCall s = (f, s') \<Longrightarrow> node s' = node s \<and> fsNow s' = fsNow s"
  by (auto simp: osCall_def split: list.splits)

lemma makeDirs_file:
  "node s q = Some (FFile d t) \<Longrightarrow> makeDirs ps s = (r, s') \<Longrightarrow> node s' q = Some (FFile d t)"
proof (induction ps arbitrary: s)
  case (Cons p ps)
  have "node s p = None \<Longrightarrow> q \<noteq> p" using Cons.prems by auto
  with Cons.prems Cons.IH[of s] Cons.IH[of "setNode p FDir s"] show ?case by (auto split: option.splits fnode.splits)
qed simp

lemma osMkdirAll_file:
  "node s q = Some (FFile d t) \<Longrightarrow> osMkdirAll p s = (r, s') \<Longrightarrow> node s' q = Some (FFile d t)"
  by (auto simp: osMkdirAll_def dest!: osCall_eq split: prod.splits if_splits) (metis makeDirs_file)

lemma osCreate_keeps: "osCreate p s = (r, s') \<Longrightarrow> q \<noteq> p \<Longrightarrow> node s' q = node s q"
  by (auto simp: osCreate_def dest!: osCall_eq split: prod.splits if_splits)

lemma osWriteFile_keeps: "q \<noteq> p \<Longrightarrow> node (snd (osWriteFile p d s)) q = node s q"
  by (auto simp: osWriteFile_def dest!: osCall_eq split: prod.splits if_splits fault.splits)

lemma osRemove_keeps: "q \<noteq> p \<Longrightarrow> node (snd (osRemove p s)) q = node s q"
  by (auto simp: osRemove_def dest!: osCall_eq split: prod.splits if_splits option.splits fnode.splits)

lemma copyTo_keeps: "copyTo p rd s = (r, s') \<Longrightarrow> q \<noteq> p \<Longrightarrow> node s' q = node s q"
  by (auto simp: copyTo_def Let_def dest!: osCall_eq split: prod.splits if_splits fault.splits)

lemma copyTo_Inr: "copyTo p rd s = (Inr d, s') \<Longrightarrow> d = fst rd \<and> node s' p = Some (FFile d (fsNow s))"
  by (auto simp: copyTo_def Let_def dest!: osCall_eq split: prod.splits if_splits fault.splits)

lemma Upload_Inr:
  assumes "Upload sha L path rd s = (Inr res, s')"
  shows "\<exists>full t. safeJoin L path = Inr full \<and> \<not> snd rd \<and>
    res = \<lparr>urPath = path, urSize = length (fst rd), urChecksum = sha (fst rd)\<rparr> \<and>
    node s' full = Some (FFile (fst rd) t)"
proof -
  from assms obtain full s1 s2 s3 d where j: "safeJoin L path = Inr full"
    and c: "copyTo full rd s2 = (Inr d, s3)" and s': "s' = snd (osWriteFile (full @ ''.sha256'') (sha d) s3)"
    and res: "res = \<lparr>urPath = path, urSize = length d, urChecksum = sha d\<rparr>"
    by (auto simp: Upload_def split: sum.splits prod.splits)
  have "\<not> snd rd" using c by (auto simp: copyTo_def Let_def split: prod.splits fault.splits if_splits)
  with copyTo_Inr[OF c] j res s' osWriteFile_keeps[of full "full @ ''.sha256''"] show ?thesis by auto
qed

lemma Upload_keeps:
  assumes "Upload sha L path rd s = (r, s')" "node s q = Some (FFile d t)"
    "safeJoin L path \<noteq> Inr q" "\<forall>full. safeJoin L path = Inr full \<longrightarrow> q \<noteq> full @ ''.sha256''"
  shows "node s' q = Some (FFile d t)"
proof (cases "safeJoin L path")
  case (Inr full)
  then have q: "q \<noteq> full" "q \<noteq> full @ ''.sha256''" using assms(3,4) by auto
  obtain r1 s1 where m: "osMkdirAll (Dir full) s = (r1, s1)" by (metis surj_pair)
  obtain r2 s2 where c: "osCreate full s1 = (r2, s2)" by (metis surj_pair)
  obtain r3 s3 where y: "copyTo full rd s2 = (r3, s3)" by (metis surj_pair)
  have 1: "node s1 q = Some (FFile d t)" by (rule osMkdirAll_file[OF assms(2) m])
  have 2: "node s2 q = Some (FFile d t)" using osCreate_keeps[OF c q(1)] 1 by simp
  have 3: "node s3 q = Some (FFile d t)" using copyTo_keeps[OF y q(1)] 2 by simp
  show ?thesis using assms(1) Inr m c y 1 2 3 osRemove_keeps[OF q(1)] osWriteFile_keeps[OF q(2)]
    by (auto simp: Upload_def split: sum.splits)
qed (use assms in \<open>auto simp: Upload_def\<close>)

lemma osCall_nofault: "fsFaults s = [] \<Longrightarrow> osCall s = (FOk, s)"
  by (simp add: osCall_def)

text \<open>
  Claim C19. Paths stay below the storage root: whatever path a caller supplies, an accepted one
  names the root itself or a file below it, reached from the clean root by proper names only. The root
  must not itself end in a parent reference.
\<close>

theorem safeJoin_confined:
  assumes "safeJoin L path = Inr full" "basePath L \<noteq> []"
    "cleanElems (basePath L) = [] \<or> last (cleanElems (basePath L)) \<noteq> ''..''"
  shows "full = Clean (basePath L) \<or>
    (\<exists>rel. full = Clean (basePath L) @ ''/'' @ rel \<and>
       list_all (\<lambda>e. e \<noteq> [] \<and> e \<noteq> ''.'' \<and> e \<noteq> ''..'') (splitOn (CHR ''/'') rel))"
  using safeJoin_below[OF assms] by (fastforce simp: normal_def list_all_iff)

definition exLocal :: LocalStorage where
  "exLocal = \<lparr>basePath = ''./storage'', serveDirectly = True, baseURL = []\<rparr>"

theorem safeJoin_confined_witness:
  "safeJoin exLocal ''a/../b'' = Inr ''storage/b'' \<and> safeJoin exLocal ''../etc'' \<noteq> Inr ''etc'' \<and>
   (\<exists>rel. ''storage/b'' = Clean ''./storage'' @ ''/'' @ rel)"
proof -
  have a: "safeJoin exLocal ''a/../b'' = Inr ''storage/b''" "safeJoin exLocal ''../etc'' \<noteq> Inr ''etc''"
    "cleanElems (basePath exLocal) = [''storage'']" "Clean (basePath exLocal) = ''storage''" by code_simp+
  from safeJoin_confined[OF a(1)] a show ?thesis by (auto simp: exLocal_def)
qed


definition exFs :: fs where
  "exFs = \<lparr>fsNodes = [(''storage'', FDir), (''storage/old'', FFile ''o'' 1)], fsNow = 5, fsDirStat = (\<lambda>_. (0, 0)), fsFaults = []\<rparr>"


text \<open>
  Deleting the last file deletes the storage root: with the default root \<^verbatim>\<open>./storage\<close>, which
  is not in clean form, the clean-up of empty parents does not recognise the root and removes it too.
\<close>

theorem delete_removes_root:
  "\<exists>s. isDir s (Clean (basePath exLocal)) \<and> fst (Exists exLocal ''a'' s) = Inr True \<and>
     (\<exists>s'. Delete exLocal ''a'' s = (Inr (), s') \<and> \<not> isDir s' (Clean (basePath exLocal)))"
proof -
  let ?s = "\<lparr>fsNodes = [(''storage'', FDir), (''storage/a'', FFile ''x'' 0)], fsNow = 5, fsDirStat = (\<lambda>_. (0, 0)), fsFaults = []\<rparr>"
  have "isDir ?s (Clean (basePath exLocal))" "fst (Exists exLocal ''a'' ?s) = Inr True"
    "fst (Delete exLocal ''a'' ?s) = Inr ()" "\<not> isDir (snd (Delete exLocal ''a'' ?s)) (Clean (basePath exLocal))"
    by code_simp+
  then show ?thesis by (metis prod.collapse)
qed

text \<open>
  A digest can outlive its file: when the digest file of an overwritten file cannot be
  written, the upload still succeeds, and the metadata then report the digest of the old content.
\<close>

theorem stale_checksum:
  "\<exists>s s1 s2 res m s3. Upload (\<lambda>d. d) exLocal ''a'' (''old'', False) s = (Inr res, s1) \<and>
     Upload (\<lambda>d. d) exLocal ''a'' (''new'', False) (s1\<lparr>fsFaults := [FOk, FOk, FOk, FFail]\<rparr>) =
       (Inr \<lparr>urPath = ''a'', urSize = 3, urChecksum = ''new''\<rparr>, s2) \<and>
     fst (Download exLocal ''a'' s2) = Inr (FFile ''new'' 5) \<and>
     GetMetadata (\<lambda>d. d) exLocal ''a'' s2 = (Inr m, s3) \<and> fmChecksum m = ''old''"
proof -
  let ?u1 = "Upload (\<lambda>d. d) exLocal ''a'' (''old'', False) exFs"
  let ?u2 = "Upload (\<lambda>d. d) exLocal ''a'' (''new'', False) ((snd ?u1)\<lparr>fsFaults := [FOk, FOk, FOk, FFail]\<rparr>)"
  let ?m = "GetMetadata (\<lambda>d. d) exLocal ''a'' (snd ?u2)"
  have "fst ?u1 = Inr \<lparr>urPath = ''a'', urSize = 3, urChecksum = ''old''\<rparr>"
    "fst ?u2 = Inr \<lparr>urPath = ''a'', urSize = 3, urChecksum = ''new''\<rparr>"
    "fst (Download exLocal ''a'' (snd ?u2)) = Inr (FFile ''new'' 5)"
    "fst ?m = Inr \<lparr>fmPath = ''a'', fmSize = 3, fmChecksum = ''old'', fmLastModified = 5\<rparr>" by code_simp+
  then show ?thesis by (metis prod.collapse FileMetadata.select_convs(3))
qed

end
