(* ===== verification/StorageMigration.thy ===== *)
theory StorageMigration
  imports LocalStorage "HOL-Library.Multiset"
begin

text \<open>
  Copying artifacts between storage backends
  (\<^verbatim>\<open>internal/services/storage_migration.go\<close> over
  \<^verbatim>\<open>internal/db/repositories/storage_migration_repository.go\<close>). The backends are reached through the
  operations of the \<^verbatim>\<open>storage.Storage\<close> interface; the locale \<open>object_store\<close> states what the migration
  relies on, and the local backend is an interpretation. Database faults and the cancellation
  of the context are schedules of the world; the order in which the worker pool gets through a
  batch is an argument.
\<close>

section \<open>Tables\<close>

record StorageMigration =
  mgID :: string
  mgSourceConfigID :: string
  mgTargetConfigID :: string
  mgStatus :: string
  mgTotalArtifacts :: nat
  mgMigratedArtifacts :: nat
  mgFailedArtifacts :: nat
  mgSkippedArtifacts :: nat
  mgErrorMessage :: "string option"
  mgStartedAt :: "int option"
  mgCompletedAt :: "int option"
  mgCreatedAt :: int
  mgCreatedBy :: "string option"

record StorageMigrationItem =
  itID :: string
  itMigrationID :: string
  itArtifactType :: string
  itArtifactID :: string
  itSourcePath :: string
  itStatus :: string
  itErrorMessage :: "string option"
  itMigratedAt :: "int option"

record artifact =
  arID :: string
  arStoragePath :: string
  arStorageBackend :: string

record storage_config =
  scID :: string
  scBackendType :: string

text \<open>
  The world of the service: the tables, the clock, the outcomes of the next database calls
  (\<open>True\<close> for a failure) and of the next looks at the context (\<open>True\<close> when it is cancelled); when a
  schedule is used up, calls succeed and the context lives.
\<close>

record smworld =
  wMigrations :: "StorageMigration list"
  wItems :: "StorageMigrationItem list"
  wModuleVersions :: "artifact list"
  wProviderPlatforms :: "artifact list"
  wConfigs :: "storage_config list"
  wNow :: int
  wFaults :: "bool list"
  wDone :: "bool list"

definition dbCall :: "smworld \<Rightarrow> bool \<times> smworld" where
  "dbCall w = (case wFaults w of [] \<Rightarrow> (False, w) | b # bs \<Rightarrow> (b, w\<lparr>wFaults := bs\<rparr>))"

definition ctxDone :: "smworld \<Rightarrow> bool \<times> smworld" where
  "ctxDone w = (case wDone w of [] \<Rightarrow> (False, w) | b # bs \<Rightarrow> (b, w\<lparr>wDone := bs\<rparr>))"

text \<open>A statement that changes the database, and a query.\<close>

definition dbExec :: "(smworld \<Rightarrow> smworld) \<Rightarrow> smworld \<Rightarrow> (string + unit) \<times> smworld" where
  "dbExec f w = (case dbCall w of (b, w1) \<Rightarrow> if b then (Inl ''db'', w1) else (Inr (), f w1))"

definition dbQuery :: "(smworld \<Rightarrow> 'a) \<Rightarrow> smworld \<Rightarrow> (string + 'a) \<times> smworld" where
  "dbQuery f w = (case dbCall w of (b, w1) \<Rightarrow> if b then (Inl ''db'', w1) else (Inr (f w1), w1))"

definition CreateMigration :: "StorageMigration \<Rightarrow> smworld \<Rightarrow> (string + unit) \<times> smworld" where
  "CreateMigration m = dbExec (\<lambda>w. w\<lparr>wMigrations := wMigrations w @ [m]\<rparr>)"

definition GetMigration :: "string \<Rightarrow> smworld \<Rightarrow> (string + StorageMigration option) \<times> smworld" where
  "GetMigration mid = dbQuery (\<lambda>w. find (\<lambda>m. mgID m = mid) (wMigrations w))"

definition updateMigration :: "string \<Rightarrow> (StorageMigration \<Rightarrow> StorageMigration) \<Rightarrow> smworld \<Rightarrow> smworld" where
  "updateMigration mid f w = w\<lparr>wMigrations := map (\<lambda>m. if mgID m = mid then f m else m) (wMigrations w)\<rparr>"

definition UpdateMigrationStatus :: "string \<Rightarrow> string \<Rightarrow> string option \<Rightarrow> smworld \<Rightarrow> (string + unit) \<times> smworld" where
  "UpdateMigrationStatus mid st err = dbExec (updateMigration mid (\<lambda>m. m\<lparr>mgStatus := st, mgErrorMessage := err\<rparr>))"

definition UpdateMigrationProgress :: "string \<Rightarrow> nat \<Rightarrow> nat \<Rightarrow> nat \<Rightarrow> smworld \<Rightarrow> (string + unit) \<times> smworld" where
  "UpdateMigrationProgress mid a b c = dbExec (updateMigration mid
     (\<lambda>m. m\<lparr>mgMigratedArtifacts := a, mgFailedArtifacts := b, mgSkippedArtifacts := c\<rparr>))"

definition SetMigrationStarted :: "string \<Rightarrow> smworld \<Rightarrow> (string + unit) \<times> smworld" where
  "SetMigrationStarted mid = dbExec (\<lambda>w. updateMigration mid (\<lambda>m. m\<lparr>mgStatus := ''running'', mgStartedAt := Some (wNow w)\<rparr>) w)"

definition SetMigrationCompleted :: "string \<Rightarrow> smworld \<Rightarrow> (string + unit) \<times> smworld" where
  "SetMigrationCompleted mid = dbExec (\<lambda>w. updateMigration mid (\<lambda>m. m\<lparr>mgStatus := ''completed'', mgCompletedAt := Some (wNow w)\<rparr>) w)"

definition CreateMigrationItems :: "StorageMigrationItem list \<Rightarrow> smworld \<Rightarrow> (string + unit) \<times> smworld" where
  "CreateMigrationItems items w =
     (if items = [] then (Inr (), w) else dbExec (\<lambda>w. w\<lparr>wItems := wItems w @ items\<rparr>) w)"

text \<open>Pending items come in the order of their ids; \<open>orderById\<close> is the database's string order.\<close>

definition GetPendingItems ::
  "(StorageMigrationItem list \<Rightarrow> StorageMigrationItem list) \<Rightarrow> string \<Rightarrow> nat \<Rightarrow> smworld \<Rightarrow>
   (string + StorageMigrationItem list) \<times> smworld" where
  "GetPendingItems orderById mid limit =
     dbQuery (\<lambda>w. take limit (orderById (filter (\<lambda>i. itMigrationID i = mid \<and> itStatus i = ''pending'') (wItems w))))"

definition UpdateItemStatus :: "string \<Rightarrow> string \<Rightarrow> string option \<Rightarrow> smworld \<Rightarrow> (string + unit) \<times> smworld" where
  "UpdateItemStatus iid st err = dbExec (\<lambda>w. w\<lparr>wItems := map (\<lambda>i. if itID i = iid
     then i\<lparr>itStatus := st, itErrorMessage := err, itMigratedAt := (if st = ''migrated'' then Some (wNow w) else None)\<rparr>
     else i) (wItems w)\<rparr>)"

definition GetModuleArtifacts :: "string \<Rightarrow> smworld \<Rightarrow> (string + artifact list) \<times> smworld" where
  "GetModuleArtifacts backend = dbQuery (\<lambda>w. filter (\<lambda>a. arStorageBackend a = backend) (wModuleVersions w))"

definition GetProviderArtifacts :: "string \<Rightarrow> smworld \<Rightarrow> (string + artifact list) \<times> smworld" where
  "GetProviderArtifacts backend = dbQuery (\<lambda>w. filter (\<lambda>a. arStorageBackend a = backend) (wProviderPlatforms w))"

definition setBackend :: "string \<Rightarrow> string \<Rightarrow> artifact list \<Rightarrow> artifact list" where
  "setBackend aid backend = map (\<lambda>a. if arID a = aid then a\<lparr>arStorageBackend := backend\<rparr> else a)"

definition UpdateModuleVersionBackend :: "string \<Rightarrow> string \<Rightarrow> smworld \<Rightarrow> (string + unit) \<times> smworld" where
  "UpdateModuleVersionBackend aid backend =
     dbExec (\<lambda>w. w\<lparr>wModuleVersions := setBackend aid backend (wModuleVersions w)\<rparr>)"

definition UpdateProviderPlatformBackend :: "string \<Rightarrow> string \<Rightarrow> smworld \<Rightarrow> (string + unit) \<times> smworld" where
  "UpdateProviderPlatformBackend aid backend =
     dbExec (\<lambda>w. w\<lparr>wProviderPlatforms := setBackend aid backend (wProviderPlatforms w)\<rparr>)"

definition GetStorageConfig :: "string \<Rightarrow> smworld \<Rightarrow> (string + storage_config option) \<times> smworld" where
  "GetStorageConfig cid = dbQuery (\<lambda>w. find (\<lambda>c. scID c = cid) (wConfigs w))"

section \<open>The service\<close>

text \<open>The storage operations the service calls; \<open>stSize\<close> is the size part of the metadata.\<close>

record 's store_ops =
  stExists :: "string \<Rightarrow> 's \<Rightarrow> (string + bool) \<times> 's"
  stDownload :: "string \<Rightarrow> 's \<Rightarrow> (string + reader) \<times> 's"
  stSize :: "string \<Rightarrow> 's \<Rightarrow> (string + nat) \<times> 's"
  stUpload :: "string \<Rightarrow> reader \<Rightarrow> nat \<Rightarrow> 's \<Rightarrow> (string + unit) \<times> 's"

record MigrationPlan =
  mpSourceConfigID :: string
  mpTargetConfigID :: string
  mpModuleCount :: nat
  mpProviderCount :: nat
  mpTotalArtifacts :: nat

definition PlanMigration ::
  "(string \<Rightarrow> string option) \<Rightarrow> string \<Rightarrow> string \<Rightarrow> smworld \<Rightarrow> (string + MigrationPlan) \<times> smworld" where
  "PlanMigration uuidParse src tgt w =
     (case uuidParse src of
        None \<Rightarrow> (Inl ''invalid source_config_id'', w)
      | Some srcID \<Rightarrow>
     (case uuidParse tgt of
        None \<Rightarrow> (Inl ''invalid target_config_id'', w)
      | Some tgtID \<Rightarrow>
     (case GetStorageConfig srcID w of
        (Inl e, w1) \<Rightarrow> (Inl ''failed to get source config'', w1)
      | (Inr None, w1) \<Rightarrow> (Inl ''source storage config not found'', w1)
      | (Inr (Some srcCfg), w1) \<Rightarrow>
     (case GetStorageConfig tgtID w1 of
        (Inl e, w2) \<Rightarrow> (Inl ''failed to get target config'', w2)
      | (Inr None, w2) \<Rightarrow> (Inl ''target storage config not found'', w2)
      | (Inr (Some tgtCfg), w2) \<Rightarrow>
     (case GetModuleArtifacts (scBackendType srcCfg) w2 of
        (Inl e, w3) \<Rightarrow> (Inl ''failed to count module artifacts'', w3)
      | (Inr ms, w3) \<Rightarrow>
     (case GetProviderArtifacts (scBackendType srcCfg) w3 of
        (Inl e, w4) \<Rightarrow> (Inl ''failed to count provider artifacts'', w4)
      | (Inr ps, w4) \<Rightarrow>
          (Inr \<lparr>mpSourceConfigID = src, mpTargetConfigID = tgt, mpModuleCount = length ms,
                mpProviderCount = length ps, mpTotalArtifacts = length ms + length ps\<rparr>, w4)))))))"

definition newItem :: "string \<Rightarrow> string \<Rightarrow> string \<Rightarrow> artifact \<Rightarrow> StorageMigrationItem" where
  "newItem iid mid typ a = \<lparr>itID = iid, itMigrationID = mid, itArtifactType = typ, itArtifactID = arID a,
     itSourcePath = arStoragePath a, itStatus = ''pending'', itErrorMessage = None, itMigratedAt = None\<rparr>"

text \<open>The insert loop, in chunks of 500 items.\<close>

function insertBatches :: "StorageMigrationItem list \<Rightarrow> smworld \<Rightarrow> (string + unit) \<times> smworld" where
  "insertBatches items w =
     (if items = [] then (Inr (), w)
      else (case CreateMigrationItems (take 500 items) w of
              (Inl e, w1) \<Rightarrow> (Inl e, w1)
            | (Inr _, w1) \<Rightarrow> insertBatches (drop 500 items) w1))"
  by pat_completeness auto
termination by (relation "measure (\<lambda>(items, w). length items)") auto

declare insertBatches.simps [simp del]

text \<open>
  \<open>newID\<close> supplies the random ids: the migration takes number 0, its items the following ones. The
  result is the migration record; the started background run is \<open>executeMigration\<close>.
\<close>

definition StartMigration ::
  "(string \<Rightarrow> string option) \<Rightarrow> (nat \<Rightarrow> string) \<Rightarrow> string \<Rightarrow> string \<Rightarrow> string \<Rightarrow> smworld \<Rightarrow>
   (string + StorageMigration) \<times> smworld" where
  "StartMigration uuidParse newID src tgt userID w =
     (case uuidParse src of
        None \<Rightarrow> (Inl ''invalid source_config_id'', w)
      | Some srcID \<Rightarrow>
     (case uuidParse tgt of
        None \<Rightarrow> (Inl ''invalid target_config_id'', w)
      | Some tgtID \<Rightarrow>
     (case GetStorageConfig srcID w of
        (Inl e, w1) \<Rightarrow> (Inl ''source storage config not found'', w1)
      | (Inr None, w1) \<Rightarrow> (Inl ''source storage config not found'', w1)
      | (Inr (Some srcCfg), w1) \<Rightarrow>
     (case GetStorageConfig tgtID w1 of
        (Inl e, w2) \<Rightarrow> (Inl ''target storage config not found'', w2)
      | (Inr None, w2) \<Rightarrow> (Inl ''target storage config not found'', w2)
      | (Inr (Some tgtCfg), w2) \<Rightarrow>
     (case GetModuleArtifacts (scBackendType srcCfg) w2 of
        (Inl e, w3) \<Rightarrow> (Inl ''failed to list module artifacts'', w3)
      | (Inr ms, w3) \<Rightarrow>
     (case GetProviderArtifacts (scBackendType srcCfg) w3 of
        (Inl e, w4) \<Rightarrow> (Inl ''failed to list provider artifacts'', w4)
      | (Inr ps, w4) \<Rightarrow>
          let m = \<lparr>mgID = newID 0, mgSourceConfigID = src, mgTargetConfigID = tgt, mgStatus = ''pending'',
                   mgTotalArtifacts = length ms + length ps, mgMigratedArtifacts = 0, mgFailedArtifacts = 0,
                   mgSkippedArtifacts = 0, mgErrorMessage = None, mgStartedAt = None, mgCompletedAt = None,
                   mgCreatedAt = wNow w4, mgCreatedBy = (if userID \<noteq> [] then Some userID else None)\<rparr> in
     (case CreateMigration m w4 of
        (Inl e, w5) \<Rightarrow> (Inl ''failed to create migration'', w5)
      | (Inr _, w5) \<Rightarrow>
          let items = map (\<lambda>(k, a). newItem (newID (Suc k)) (newID 0) ''module'' a) (zip [0..<length ms] ms) @
                      map (\<lambda>(k, a). newItem (newID (Suc k)) (newID 0) ''provider'' a)
                        (zip [length ms..<length ms + length ps] ps) in
     (case insertBatches items w5 of
        (Inl e, w6) \<Rightarrow> (Inl ''failed to create migration items'', w6)
      | (Inr _, w6) \<Rightarrow> (Inr m, w6)))))))))"

definition CancelMigration :: "string \<Rightarrow> smworld \<Rightarrow> (string + unit) \<times> smworld" where
  "CancelMigration mid w =
     (case GetMigration mid w of
        (Inl e, w1) \<Rightarrow> (Inl ''failed to get migration'', w1)
      | (Inr None, w1) \<Rightarrow> (Inl ''migration not found'', w1)
      | (Inr (Some m), w1) \<Rightarrow>
          if mgStatus m \<noteq> ''running'' \<and> mgStatus m \<noteq> ''pending''
          then (Inl (''migration is not in a cancellable state (status: '' @ mgStatus m @ '')''), w1)
          else UpdateMigrationStatus mid ''cancelled'' None w1)"

definition updateBackendRef :: "StorageMigrationItem \<Rightarrow> string \<Rightarrow> smworld \<Rightarrow> (string + unit) \<times> smworld" where
  "updateBackendRef itm backend w =
     (if itArtifactType itm = ''module'' then UpdateModuleVersionBackend (itArtifactID itm) backend w
      else if itArtifactType itm = ''provider'' then UpdateProviderPlatformBackend (itArtifactID itm) backend w
      else (Inl (''unknown artifact type: '' @ itArtifactType itm), w))"

text \<open>
  One artifact. The pipe between the source reader and the upload delivers what the reader delivers; a
  failing reader closes it with an error, and then the copy has failed whatever the upload says.
\<close>

definition migrateItem ::
  "'s store_ops \<Rightarrow> 't store_ops \<Rightarrow> StorageMigrationItem \<Rightarrow> string \<Rightarrow> smworld \<times> 's \<times> 't \<Rightarrow> (string + unit) \<times> smworld \<times> 's \<times> 't" where
  "migrateItem S T itm backend st =
     (case st of (w, ss, ts) \<Rightarrow>
      let w1 = snd (UpdateItemStatus (itID itm) ''migrating'' None w) in
      (case stExists T (itSourcePath itm) ts of (ex, ts1) \<Rightarrow>
       if ex = Inr True then
         (case updateBackendRef itm backend w1 of
            (Inl e, w2) \<Rightarrow> (Inl (''target file exists but failed to update backend ref: '' @ e), w2, ss, ts1)
          | (Inr _, w2) \<Rightarrow> (Inr (), w2, ss, ts1))
       else
         (case stDownload S (itSourcePath itm) ss of
            (Inl e, ss1) \<Rightarrow> (Inl (''download from source failed: '' @ e), w1, ss1, ts1)
          | (Inr rd, ss1) \<Rightarrow>
              (case stSize S (itSourcePath itm) ss1 of (sz, ss2) \<Rightarrow>
               case stUpload T (itSourcePath itm) rd (case sz of Inr n \<Rightarrow> n | Inl _ \<Rightarrow> 0) ts1 of (up, ts2) \<Rightarrow>
                 if snd rd then (Inl ''streaming copy failed'', w1, ss2, ts2)
                 else (case up of
                         Inl e \<Rightarrow> (Inl (''upload to target failed: '' @ e), w1, ss2, ts2)
                       | Inr _ \<Rightarrow>
                           (case updateBackendRef itm backend w1 of
                              (Inl e, w2) \<Rightarrow> (Inl (''failed to update backend reference: '' @ e), w2, ss2, ts2)
                            | (Inr _, w2) \<Rightarrow> (Inr (), w2, ss2, ts2)))))))"

text \<open>The state of a run: the world, both stores, and the atomic counters of migrated and failed items.\<close>

type_synonym ('s, 't) run = "(smworld \<times> 's \<times> 't) \<times> nat \<times> nat"

definition updateProgress :: "string \<Rightarrow> ('s, 't) run \<Rightarrow> ('s, 't) run" where
  "updateProgress mid r = (case r of ((w, ss, ts), a, b) \<Rightarrow> ((snd (UpdateMigrationProgress mid a b 0 w), ss, ts), a, b))"

definition workItem ::
  "'s store_ops \<Rightarrow> 't store_ops \<Rightarrow> string \<Rightarrow> string \<Rightarrow> StorageMigrationItem \<Rightarrow> ('s, 't) run \<Rightarrow> ('s, 't) run" where
  "workItem S T mid backend itm r =
     (case r of (st, a, b) \<Rightarrow>
      let r1 = (case migrateItem S T itm backend st of
                  (Inl e, w, ss, ts) \<Rightarrow> ((snd (UpdateItemStatus (itID itm) ''failed'' (Some e) w), ss, ts), a, Suc b)
                | (Inr _, w, ss, ts) \<Rightarrow> ((snd (UpdateItemStatus (itID itm) ''migrated'' None w), ss, ts), Suc a, b)) in
      if (fst (snd r1) + snd (snd r1)) mod 10 = 0 then updateProgress mid r1 else r1)"

text \<open>The items of a batch started before the context is seen cancelled, and whether it was.\<close>

fun spawn :: "StorageMigrationItem list \<Rightarrow> smworld \<Rightarrow> (StorageMigrationItem list \<times> bool) \<times> smworld" where
  "spawn [] w = (([], False), w)"
| "spawn (i # is) w =
     (case ctxDone w of (d, w1) \<Rightarrow>
      if d then (([], True), w1)
      else (case spawn is w1 of ((started, c), w2) \<Rightarrow> ((i # started, c), w2)))"

definition fetchBatch :: nat where "fetchBatch = 100"

text \<open>
  The fetch loop. \<open>order\<close> is the order in which the workers get through the started items. Each round
  takes one unit of fuel; \<open>None\<close> is a loop that has not ended within it. The flag of the result says
  whether the loop ran to its end, after which the final status is written.
\<close>

fun migrateLoop ::
  "'s store_ops \<Rightarrow> 't store_ops \<Rightarrow> (StorageMigrationItem list \<Rightarrow> StorageMigrationItem list) \<Rightarrow>
   (StorageMigrationItem list \<Rightarrow> StorageMigrationItem list) \<Rightarrow> string \<Rightarrow> string \<Rightarrow> nat \<Rightarrow> ('s, 't) run \<Rightarrow> (bool \<times> ('s, 't) run) option" where
  "migrateLoop S T orderById order mid backend 0 r = None"
| "migrateLoop S T orderById order mid backend (Suc n) r =
     (case r of ((w, ss, ts), a, b) \<Rightarrow>
      case ctxDone w of (d, w1) \<Rightarrow>
      if d then Some (False, updateProgress mid ((w1, ss, ts), a, b))
      else
        (case GetPendingItems orderById mid fetchBatch w1 of
           (Inl e, w2) \<Rightarrow>
             Some (False, (snd (UpdateMigrationStatus mid ''failed'' (Some (''failed to fetch pending items: '' @ e)) w2), ss, ts), a, b)
         | (Inr items, w2) \<Rightarrow>
             if items = [] then Some (True, (w2, ss, ts), a, b)
             else
               (case spawn items w2 of ((started, c), w3) \<Rightarrow>
                let r1 = fold (workItem S T mid backend) (order started) ((w3, ss, ts), a, b) in
                if c then Some (False, updateProgress mid r1)
                else migrateLoop S T orderById order mid backend n (updateProgress mid r1))))"

definition finishMigration :: "string \<Rightarrow> ('s, 't) run \<Rightarrow> smworld \<times> 's \<times> 't" where
  "finishMigration mid r =
     (case r of ((w, ss, ts), a, b) \<Rightarrow>
      if b > 0 then
        (snd (SetMigrationCompleted mid
           (snd (UpdateMigrationStatus mid ''completed'' (Some (natDigits b @ '' artifacts failed to migrate'')) w))), ss, ts)
      else (snd (SetMigrationCompleted mid w), ss, ts))"

definition failMigration :: "string \<Rightarrow> string \<Rightarrow> smworld \<Rightarrow> smworld" where
  "failMigration mid msg w = snd (UpdateMigrationStatus mid ''failed'' (Some msg) w)"

text \<open>
  \<open>build\<close> says whether a backend can be constructed from its configuration; \<open>uuidParse\<close> yields the
  zero id, here the empty string, on malformed input, whose error the code drops.
\<close>

definition executeMigration ::
  "'s store_ops \<Rightarrow> 't store_ops \<Rightarrow> (storage_config \<Rightarrow> string + unit) \<Rightarrow> (string \<Rightarrow> string option) \<Rightarrow>
   (StorageMigrationItem list \<Rightarrow> StorageMigrationItem list) \<Rightarrow> (StorageMigrationItem list \<Rightarrow> StorageMigrationItem list) \<Rightarrow>
   string \<Rightarrow> nat \<Rightarrow> smworld \<times> 's \<times> 't \<Rightarrow> (smworld \<times> 's \<times> 't) option" where
  "executeMigration S T build uuidParse orderById order mid fuel st =
     (case st of (w, ss, ts) \<Rightarrow>
      case SetMigrationStarted mid w of
        (Inl e, w1) \<Rightarrow> Some (failMigration mid e w1, ss, ts)
      | (Inr _, w1) \<Rightarrow>
     (case GetMigration mid w1 of
        (Inl e, w2) \<Rightarrow> Some (w2, ss, ts)
      | (Inr None, w2) \<Rightarrow> Some (w2, ss, ts)
      | (Inr (Some m), w2) \<Rightarrow>
     (case GetStorageConfig (case uuidParse (mgSourceConfigID m) of Some u \<Rightarrow> u | None \<Rightarrow> []) w2 of
        (Inr (Some srcCfg), w3) \<Rightarrow>
     (case GetStorageConfig (case uuidParse (mgTargetConfigID m) of Some u \<Rightarrow> u | None \<Rightarrow> []) w3 of
        (Inr (Some tgtCfg), w4) \<Rightarrow>
     (case build srcCfg of
        Inl e \<Rightarrow> Some (failMigration mid (''failed to build source storage: '' @ e) w4, ss, ts)
      | Inr _ \<Rightarrow>
     (case build tgtCfg of
        Inl e \<Rightarrow> Some (failMigration mid (''failed to build target storage: '' @ e) w4, ss, ts)
      | Inr _ \<Rightarrow>
     (case migrateLoop S T orderById order mid (scBackendType tgtCfg) fuel ((w4, ss, ts), 0, 0) of
        None \<Rightarrow> None
      | Some (ended, r) \<Rightarrow> if ended then Some (finishMigration mid (updateProgress mid r)) else Some (fst r))))
      | (_, w4) \<Rightarrow> Some (failMigration mid ''target storage config not found'' w4, ss, ts))
      | (_, w3) \<Rightarrow> Some (failMigration mid ''source storage config not found'' w3, ss, ts))))"

section \<open>What the migration asks of a backend\<close>

text \<open>
  \<open>present\<close> and \<open>content\<close> read a store; \<open>clob p\<close> are the paths that an operation on \<open>p\<close> may
  change besides what it is asked to do (for the local backend the file itself, its digest file and its parent
  directories).
\<close>

locale object_store =
  fixes ops :: "'s store_ops" and present :: "'s \<Rightarrow> string \<Rightarrow> bool" and content :: "'s \<Rightarrow> string \<Rightarrow> string option"
    and clob :: "string \<Rightarrow> string set"
  assumes exists_keeps: "stExists ops p s = (r, s') \<Longrightarrow> present s' q = present s q \<and> content s' q = content s q"
    and exists_iff: "stExists ops p s = (Inr x, s') \<Longrightarrow> x \<longleftrightarrow> present s p"
    and download_keeps: "stDownload ops p s = (rd1, s') \<Longrightarrow> present s' q = present s q \<and> content s' q = content s q"
    and download_content: "stDownload ops p s = (Inr (d, False), s') \<Longrightarrow> content s p = Some d"
    and size_keeps: "stSize ops p s = (n1, s') \<Longrightarrow> q \<notin> clob p \<Longrightarrow> present s' q = present s q \<and> content s' q = content s q"
    and upload_keeps: "stUpload ops p rd n s = (u1, s') \<Longrightarrow> q \<notin> clob p \<Longrightarrow> present s' q = present s q \<and> content s' q = content s q"
    and upload_content: "stUpload ops p (d, False) n s = (Inr u, s') \<Longrightarrow> content s' p = Some d \<and> present s' p"

section \<open>Runs without database faults\<close>

definition setItem :: "string \<Rightarrow> string \<Rightarrow> string option \<Rightarrow> int \<Rightarrow> StorageMigrationItem list \<Rightarrow> StorageMigrationItem list" where
  "setItem iid st err now = map (\<lambda>i. if itID i = iid
     then i\<lparr>itStatus := st, itErrorMessage := err, itMigratedAt := (if st = ''migrated'' then Some now else None)\<rparr> else i)"

lemma dbExec_ok [simp]: "wFaults w = [] \<Longrightarrow> dbExec f w = (Inr (), f w)"
  by (simp add: dbExec_def dbCall_def)

lemma dbQuery_ok [simp]: "wFaults w = [] \<Longrightarrow> dbQuery f w = (Inr (f w), w)"
  by (simp add: dbQuery_def dbCall_def)

lemma UpdateItemStatus_ok: "wFaults w = [] \<Longrightarrow> UpdateItemStatus iid st err w = (Inr (), w\<lparr>wItems := setItem iid st err (wNow w) (wItems w)\<rparr>)"
  by (simp add: UpdateItemStatus_def setItem_def)

lemma setItem_setItem: "setItem iid st err t (setItem iid st' err' t' is) = setItem iid st err t is"
  by (auto simp: setItem_def)

text \<open>The tables of artifacts after the reference of an item has been moved.\<close>

definition moveRef :: "StorageMigrationItem \<Rightarrow> string \<Rightarrow> smworld \<Rightarrow> smworld" where
  "moveRef itm backend w =
     (if itArtifactType itm = ''module'' then w\<lparr>wModuleVersions := setBackend (itArtifactID itm) backend (wModuleVersions w)\<rparr>
      else w\<lparr>wProviderPlatforms := setBackend (itArtifactID itm) backend (wProviderPlatforms w)\<rparr>)"

definition knownType :: "StorageMigrationItem \<Rightarrow> bool" where
  "knownType itm = (itArtifactType itm = ''module'' \<or> itArtifactType itm = ''provider'')"

lemma updateBackendRef_ok:
  "wFaults w = [] \<Longrightarrow> knownType itm \<Longrightarrow> updateBackendRef itm backend w = (Inr (), moveRef itm backend w)"
  "\<not> knownType itm \<Longrightarrow> updateBackendRef itm backend w = (Inl (''unknown artifact type: '' @ itArtifactType itm), w)"
  by (auto simp: updateBackendRef_def knownType_def moveRef_def UpdateModuleVersionBackend_def UpdateProviderPlatformBackend_def)

text \<open>What an item says about its artifact, and the backends its artifact's rows name.\<close>

definition itemFrame :: "StorageMigrationItem \<Rightarrow> string \<times> string \<times> string \<times> string \<times> string" where
  "itemFrame i = (itID i, itMigrationID i, itArtifactType i, itArtifactID i, itSourcePath i)"

definition artifactKey :: "StorageMigrationItem \<Rightarrow> bool \<times> string" where
  "artifactKey i = (itArtifactType i = ''module'', itArtifactID i)"

definition rowsOf :: "smworld \<Rightarrow> StorageMigrationItem \<Rightarrow> string list" where
  "rowsOf w i = map arStorageBackend (filter (\<lambda>a. arID a = itArtifactID i)
     (if itArtifactType i = ''module'' then wModuleVersions w else wProviderPlatforms w))"

definition migRow :: "string \<Rightarrow> smworld \<Rightarrow> StorageMigration option" where
  "migRow mid w = find (\<lambda>m. mgID m = mid) (wMigrations w)"

text \<open>The items of a migration are independent: other ids, other artifacts, and paths out of each other's way.\<close>

definition itemsOf :: "string \<Rightarrow> smworld \<Rightarrow> StorageMigrationItem list" where
  "itemsOf mid w = filter (\<lambda>i. itMigrationID i = mid) (wItems w)"

definition independent :: "(string \<Rightarrow> string set) \<Rightarrow> (string \<Rightarrow> string set) \<Rightarrow> string \<Rightarrow> smworld \<Rightarrow> bool" where
  "independent sclob tclob mid w =
     (distinct (map itID (wItems w)) \<and>
      (\<forall>i \<in> set (itemsOf mid w). knownType i) \<and>
      (\<forall>i \<in> set (itemsOf mid w). \<forall>j \<in> set (itemsOf mid w). itID i \<noteq> itID j \<longrightarrow>
         artifactKey i \<noteq> artifactKey j \<and> itSourcePath j \<notin> sclob (itSourcePath i) \<and> itSourcePath j \<notin> tclob (itSourcePath i)))"

definition withStatus :: "string \<Rightarrow> string \<Rightarrow> smworld \<Rightarrow> nat" where
  "withStatus mid st w = length (filter (\<lambda>i. itMigrationID i = mid \<and> itStatus i = st) (wItems w))"

lemma rowsOf_moveRef:
  "knownType i \<Longrightarrow> knownType j \<Longrightarrow> rowsOf (moveRef j backend w) i =
     (if artifactKey i = artifactKey j then map (\<lambda>_. backend) (rowsOf w i) else rowsOf w i)"
proof -
  have "map arStorageBackend (filter (\<lambda>a. arID a = x) (setBackend y backend as)) =
     (if x = y then map (\<lambda>_. backend) (filter (\<lambda>a. arID a = x) as) else map arStorageBackend (filter (\<lambda>a. arID a = x) as))" for x y as
    by (induction as) (auto simp: setBackend_def)
  then show "knownType i \<Longrightarrow> knownType j \<Longrightarrow> ?thesis" by (auto simp: rowsOf_def moveRef_def artifactKey_def knownType_def)
qed

lemma rowsOf_frame: "itemFrame i = itemFrame j \<Longrightarrow> rowsOf w i = rowsOf w j"
  by (simp add: rowsOf_def itemFrame_def)

lemma rowsOf_fields [simp]:
  "rowsOf (w\<lparr>wItems := x\<rparr>) = rowsOf w" "rowsOf (w\<lparr>wMigrations := y\<rparr>) = rowsOf w" "rowsOf (w\<lparr>wDone := z\<rparr>) = rowsOf w"
  by (auto simp: rowsOf_def fun_eq_iff)

lemma moveRef_fields [simp]:
  "wItems (moveRef i b w) = wItems w" "wMigrations (moveRef i b w) = wMigrations w" "wFaults (moveRef i b w) = wFaults w"
  "wDone (moveRef i b w) = wDone w" "wNow (moveRef i b w) = wNow w"
  by (auto simp: moveRef_def)

lemma frames_setItem: "map itemFrame (setItem iid st err t is) = map itemFrame is"
  by (induction "is") (auto simp: setItem_def itemFrame_def)

lemma setItem_member:
  "i' \<in> set (setItem iid st err t is) \<longleftrightarrow> (\<exists>i \<in> set is. i' = (if itID i = iid
     then i\<lparr>itStatus := st, itErrorMessage := err, itMigratedAt := (if st = ''migrated'' then Some t else None)\<rparr> else i))"
  by (simp only: setItem_def set_map image_iff)

lemma migRow_update: "(\<And>m. mgID (f m) = mgID m) \<Longrightarrow> migRow mid (updateMigration mid f w) = map_option f (migRow mid w)"
proof -
  assume f: "\<And>m. mgID (f m) = mgID m"
  have "find (\<lambda>m. mgID m = mid) (map (\<lambda>m. if mgID m = mid then f m else m) ms) = map_option f (find (\<lambda>m. mgID m = mid) ms)" for ms
    by (induction ms) (auto simp: f)
  then show ?thesis by (simp add: migRow_def updateMigration_def)
qed

lemma setItem_Nil [simp]: "setItem iid st err t [] = []"
  by (simp add: setItem_def)

lemma setItem_Cons: "setItem iid st err t (y # ys) = (if itID y = iid
     then y\<lparr>itStatus := st, itErrorMessage := err, itMigratedAt := (if st = ''migrated'' then Some t else None)\<rparr> else y) # setItem iid st err t ys"
  by (simp add: setItem_def)

lemma pending_setItem:
  "st \<noteq> ''pending'' \<Longrightarrow> filter (\<lambda>i. itMigrationID i = mid \<and> itStatus i = ''pending'') (setItem iid st err t is) =
     filter (\<lambda>i. (itMigrationID i = mid \<and> itStatus i = ''pending'') \<and> itID i \<noteq> iid) is"
proof (induction "is")
  case (Cons y ys)
  then show ?case by (cases "itID y = iid") (simp_all add: setItem_Cons)
qed simp

lemma independent_frames:
  assumes "map itemFrame (wItems w') = map itemFrame (wItems w)" "independent sclob tclob mid w"
  shows "independent sclob tclob mid w'"
proof -
  have ids: "map itID (wItems v) = map fst (map itemFrame (wItems v))" for v by (simp add: itemFrame_def)
  have m: "\<exists>i \<in> set (itemsOf mid w). itemFrame i = itemFrame i'" if "i' \<in> set (itemsOf mid w')" for i'
  proof -
    have "itemFrame i' \<in> set (map itemFrame (wItems w'))" using that by (auto simp: itemsOf_def)
    then have "itemFrame i' \<in> set (map itemFrame (wItems w))" unfolding assms(1) .
    with that show ?thesis by (auto simp: itemsOf_def itemFrame_def)
  qed
  have c: "knownType i' = knownType i" "artifactKey i' = artifactKey i" "itSourcePath i' = itSourcePath i" "itID i' = itID i"
    if "itemFrame i = itemFrame i'" for i i' using that by (auto simp: itemFrame_def knownType_def artifactKey_def)
  show ?thesis unfolding independent_def
  proof (intro conjI ballI impI)
    have "map itID (wItems w') = map itID (wItems w)" unfolding ids assms(1) ..
    then show "distinct (map itID (wItems w'))" using assms(2) by (simp only: independent_def)
  next
    fix i' assume "i' \<in> set (itemsOf mid w')"
    from m[OF this] obtain i where i: "i \<in> set (itemsOf mid w)" "itemFrame i = itemFrame i'" by blast
    then have "knownType i" using assms(2) unfolding independent_def by blast
    then show "knownType i'" using c(1)[OF i(2)] by simp
  next
    fix i' j' assume m': "i' \<in> set (itemsOf mid w')" "j' \<in> set (itemsOf mid w')" "itID i' \<noteq> itID j'"
    obtain i j where i: "i \<in> set (itemsOf mid w)" "itemFrame i = itemFrame i'" and j: "j \<in> set (itemsOf mid w)" "itemFrame j = itemFrame j'"
      using m[OF m'(1)] m[OF m'(2)] by blast
    have "itID i \<noteq> itID j" using m'(3) c(4)[OF i(2)] c(4)[OF j(2)] by simp
    then have "artifactKey i \<noteq> artifactKey j \<and> itSourcePath j \<notin> sclob (itSourcePath i) \<and> itSourcePath j \<notin> tclob (itSourcePath i)"
      using assms(2) i(1) j(1) unfolding independent_def by blast
    then show "artifactKey i' \<noteq> artifactKey j'" "itSourcePath j' \<notin> sclob (itSourcePath i')" "itSourcePath j' \<notin> tclob (itSourcePath i')"
      using c[OF i(2)] c[OF j(2)] by simp_all
  qed
qed

lemma count_setItem:
  assumes "distinct (map itID is)" "x \<in> set is" "itMigrationID x = mid" "itStatus x \<noteq> st'"
  shows "length (filter (\<lambda>i. itMigrationID i = mid \<and> itStatus i = st') (setItem (itID x) st err t is)) =
    (if st = st' then Suc else id) (length (filter (\<lambda>i. itMigrationID i = mid \<and> itStatus i = st') is))"
  using assms(1,2)
proof (induction "is")
  case (Cons y ys)
  show ?case
  proof (cases "itID y = itID x")
    case True
    with Cons.prems have y: "y = x" "itID x \<notin> itID ` set ys" by (auto simp: rev_image_eqI)
    then have "setItem (itID x) st err t ys = ys" unfolding setItem_def by (intro map_idI) (metis imageI)
    with y assms(3,4) show ?thesis by (simp add: setItem_Cons)
  next
    case False
    with Cons show ?thesis by (auto simp: setItem_Cons)
  qed
qed simp

text \<open>Two stores with the paths of a set of items, none of which an operation on another one touches.\<close>

locale migration_stores =
  src: object_store S spresent scontent sclob + tgt: object_store T tpresent tcontent tclob
  for S :: "'s store_ops" and spresent scontent sclob and T :: "'t store_ops" and tpresent tcontent tclob
begin

lemma migrateItem_ok:
  assumes f: "wFaults w = []" and m: "migrateItem S T itm backend (w, ss, ts) = (r, w', ss', ts')" and k: "knownType itm"
  defines "p \<equiv> itSourcePath itm" and "w1 \<equiv> w\<lparr>wItems := setItem (itID itm) ''migrating'' None (wNow w) (wItems w)\<rparr>"
  shows "w' = (if isl r then w1 else moveRef itm backend w1) \<and>
    (\<forall>q. q \<notin> tclob p \<longrightarrow> tpresent ts' q = tpresent ts q \<and> tcontent ts' q = tcontent ts q) \<and>
    (\<forall>q. q \<notin> sclob p \<longrightarrow> spresent ss' q = spresent ss q \<and> scontent ss' q = scontent ss q) \<and>
    (isl r \<or> tpresent ts' p \<and> (tpresent ts p \<and> tcontent ts' p = tcontent ts p \<or>
        (\<exists>d. scontent ss p = Some d \<and> tcontent ts' p = Some d)))"
proof -
  have w1: "wFaults w1 = []" "snd (UpdateItemStatus (itID itm) ''migrating'' None w) = w1"
    using f by (simp_all add: w1_def UpdateItemStatus_ok)
  note ref = updateBackendRef_ok(1)[OF w1(1) k]
  obtain ex ts1 where e: "stExists T p ts = (ex, ts1)" by (metis surj_pair)
  have e1: "tpresent ts1 q = tpresent ts q \<and> tcontent ts1 q = tcontent ts q" for q by (rule tgt.exists_keeps[OF e])
  show ?thesis
  proof (cases "ex = Inr True")
    case True
    with e have "tpresent ts p" using tgt.exists_iff[of p ts True ts1] by simp
    with m e True ref w1 e1 show ?thesis by (auto simp: migrateItem_def p_def[symmetric])
  next
    case False
    obtain dl ss1 where d: "stDownload S p ss = (dl, ss1)" by (metis surj_pair)
    have d1: "spresent ss1 q = spresent ss q \<and> scontent ss1 q = scontent ss q" for q by (rule src.download_keeps[OF d])
    show ?thesis
    proof (cases dl)
      case (Inl err)
      with m e False d w1 e1 d1 show ?thesis by (auto simp: migrateItem_def p_def[symmetric])
    next
      case (Inr rd)
      obtain sz ss2 where z: "stSize S p ss1 = (sz, ss2)" by (metis surj_pair)
      let ?n = "case sz of Inr n \<Rightarrow> n | Inl _ \<Rightarrow> 0"
      obtain up ts2 where u: "stUpload T p rd ?n ts1 = (up, ts2)" by (metis surj_pair)
      have keep: "q \<notin> tclob p \<longrightarrow> tpresent ts2 q = tpresent ts q \<and> tcontent ts2 q = tcontent ts q"
        "q \<notin> sclob p \<longrightarrow> spresent ss2 q = spresent ss q \<and> scontent ss2 q = scontent ss q" for q
        using tgt.upload_keeps[OF u] src.size_keeps[OF z] e1 d1 by auto
      show ?thesis
      proof (cases "snd rd \<or> isl up")
        case True
        then obtain err where "r = Inl err" "w' = w1" "ss' = ss2" "ts' = ts2"
          using m e False d Inr z u w1 by (cases up) (auto simp: migrateItem_def p_def[symmetric] split: if_splits)
        with keep show ?thesis by simp
      next
        case ok: False
        obtain b where rd: "rd = (b, False)" using ok by (cases rd) auto
        obtain x where up: "up = Inr x" using ok by (cases up) auto
        have "scontent ss p = Some b" using src.download_content[of p ss b ss1] d Inr rd by simp
        moreover have "tcontent ts2 p = Some b \<and> tpresent ts2 p" using tgt.upload_content[of p b ?n ts1 x ts2] u rd up by simp
        moreover have "r = Inr ()" "w' = moveRef itm backend w1" "ss' = ss2" "ts' = ts2"
          using m e False d Inr z u w1 rd up ref by (auto simp: migrateItem_def p_def[symmetric])
        ultimately show ?thesis using keep by auto
      qed
    qed
  qed
qed


text \<open>Where an item stands, relative to the start of the run.\<close>

definition delivered where
  "delivered ss0 ts0 ts p =
     (tpresent ts p \<and> (tpresent ts0 p \<and> tcontent ts p = tcontent ts0 p \<or> (\<exists>d. scontent ss0 p = Some d \<and> tcontent ts p = Some d)))"

definition itemState where
  "itemState backend w0 ss0 ts0 w ss ts i =
     (let p = itSourcePath i in
      if itStatus i = ''pending'' then
        rowsOf w i = rowsOf w0 i \<and> tpresent ts p = tpresent ts0 p \<and> tcontent ts p = tcontent ts0 p \<and> scontent ss p = scontent ss0 p
      else if itStatus i = ''failed'' then rowsOf w i = rowsOf w0 i
      else itStatus i = ''migrated'' \<and> rowsOf w i = map (\<lambda>_. backend) (rowsOf w0 i) \<and> delivered ss0 ts0 ts p)"

definition migInv where
  "migInv mid backend w0 ss0 ts0 r =
     (case r of ((w, ss, ts), a, b) \<Rightarrow>
        wFaults w = [] \<and> map itemFrame (wItems w) = map itemFrame (wItems w0) \<and>
        a = withStatus mid ''migrated'' w \<and> b = withStatus mid ''failed'' w \<and>
        map_option mgErrorMessage (migRow mid w) = map_option mgErrorMessage (migRow mid w0) \<and>
        (\<forall>i \<in> set (itemsOf mid w). itemState backend w0 ss0 ts0 w ss ts i))"

lemma migInv_setItem:
  assumes inv: "migInv mid backend w0 ss0 ts0 ((w, ss, ts), a, b)" and ind: "independent sclob tclob mid w"
    and x: "x \<in> set (itemsOf mid w)" "itStatus x = ''pending''"
    and m: "migrateItem S T x backend (w, ss, ts) = (r, w1, ss1, ts1)"
  defines "st \<equiv> if isl r then ''failed'' else ''migrated''"
  shows "migInv mid backend w0 ss0 ts0 ((w1\<lparr>wItems := setItem (itID x) st err t (wItems w1)\<rparr>, ss1, ts1),
      if isl r then a else Suc a, if isl r then Suc b else b)" (is "migInv _ _ _ _ _ ((?w, _, _), _, _)")
    and "wItems w1 = setItem (itID x) ''migrating'' None (wNow w) (wItems w)" and "wDone w1 = wDone w" and "wNow w1 = wNow w"
    and "wMigrations w1 = wMigrations w"
proof -
  have k: "knownType x" and f: "wFaults w = []" using ind x inv by (auto simp: independent_def migInv_def)
  note M = migrateItem_ok[OF f m k]
  let ?wm = "w\<lparr>wItems := setItem (itID x) ''migrating'' None (wNow w) (wItems w)\<rparr>"
  have w1: "w1 = (if isl r then ?wm else moveRef x backend ?wm)" using M by blast
  show W: "wItems w1 = setItem (itID x) ''migrating'' None (wNow w) (wItems w)" "wDone w1 = wDone w" "wNow w1 = wNow w"
    "wMigrations w1 = wMigrations w"
    using w1 by simp_all
  have items: "wItems ?w = setItem (itID x) st err t (wItems w)" using W by (simp add: setItem_setItem)
  have d: "distinct (map itID (wItems w))" using ind by (simp add: independent_def)
  have xm: "x \<in> set (wItems w)" "itMigrationID x = mid" using x by (auto simp: itemsOf_def)
  have cnt: "withStatus mid s ?w = (if st = s then Suc else id) (withStatus mid s w)" if "s \<noteq> ''pending''" for s
    using count_setItem[OF d xm(1,2), of s st err t] that x(2) items by (simp add: withStatus_def)
  have frames: "map itemFrame (wItems ?w) = map itemFrame (wItems w)" unfolding items by (rule frames_setItem)
  have IS: "itemState backend w0 ss0 ts0 ?w ss1 ts1 i'" if i': "i' \<in> set (itemsOf mid ?w)" for i'
  proof -
    from i' obtain i where i: "i \<in> set (wItems w)" and e: "i' = (if itID i = itID x
        then i\<lparr>itStatus := st, itErrorMessage := err, itMigratedAt := (if st = ''migrated'' then Some t else None)\<rparr> else i)"
      and im: "itMigrationID i' = mid"
      unfolding itemsOf_def items set_filter mem_Collect_eq setItem_member by blast
    have iw: "i \<in> set (itemsOf mid w)" using i im e by (auto simp: itemsOf_def split: if_splits)
    have ik: "knownType i" using ind iw by (auto simp: independent_def)
    have st_i: "itemState backend w0 ss0 ts0 w ss ts i" using inv iw by (auto simp: migInv_def)
    show ?thesis
    proof (cases "itID i = itID x")
      case True
      then have "i = x" using d i xm(1) by (metis inj_on_def distinct_map)
      with st_i x(2) have pend: "rowsOf w x = rowsOf w0 x" "tpresent ts (itSourcePath x) = tpresent ts0 (itSourcePath x)"
        "tcontent ts (itSourcePath x) = tcontent ts0 (itSourcePath x)" "scontent ss (itSourcePath x) = scontent ss0 (itSourcePath x)"
        by (simp_all add: itemState_def Let_def)
      have e': "i' = x\<lparr>itStatus := st, itErrorMessage := err, itMigratedAt := (if st = ''migrated'' then Some t else None)\<rparr>"
        using e True \<open>i = x\<close> by simp
      have fr: "itemFrame i' = itemFrame x" "itSourcePath i' = itSourcePath x" "itStatus i' = st" using e' by (simp_all add: itemFrame_def)
      have rows: "rowsOf ?w i' = (if isl r then rowsOf w0 x else map (\<lambda>_. backend) (rowsOf w0 x))"
        using w1 pend(1) rowsOf_frame[OF fr(1)] rowsOf_moveRef[OF k k] by simp
      have r0: "rowsOf w0 i' = rowsOf w0 x" by (rule rowsOf_frame[OF fr(1)])
      show ?thesis
        using fr rows r0 M pend by (cases "isl r") (auto simp: itemState_def Let_def st_def delivered_def)
    next
      case False
      then have "artifactKey i \<noteq> artifactKey x" and p: "itSourcePath i \<notin> sclob (itSourcePath x)" "itSourcePath i \<notin> tclob (itSourcePath x)"
        using ind iw x(1) unfolding independent_def by metis+
      then have "rowsOf ?w i = rowsOf w i" using w1 rowsOf_moveRef[OF ik k] by simp
      moreover have "tpresent ts1 (itSourcePath i) = tpresent ts (itSourcePath i)" "tcontent ts1 (itSourcePath i) = tcontent ts (itSourcePath i)"
        "scontent ss1 (itSourcePath i) = scontent ss (itSourcePath i)" using M p by blast+
      ultimately show ?thesis using st_i e False by (auto simp: itemState_def Let_def delivered_def split: if_splits)
    qed
  qed
  show "migInv mid backend w0 ss0 ts0 ((?w, ss1, ts1), if isl r then a else Suc a, if isl r then Suc b else b)"
    using inv frames cnt[of "''migrated''"] cnt[of "''failed''"] IS W w1
    by (auto simp: migInv_def st_def migRow_def)
qed

lemma itemState_world: "rowsOf w' = rowsOf w \<Longrightarrow> itemState backend w0 ss0 ts0 w' ss ts i = itemState backend w0 ss0 ts0 w ss ts i"
  by (simp add: itemState_def)

lemma migInv_progress:
  assumes "migInv mid backend w0 ss0 ts0 r"
  shows "migInv mid backend w0 ss0 ts0 (updateProgress mid r)"
proof -
  obtain w ss ts a b where r: "r = ((w, ss, ts), a, b)" by (metis surj_pair)
  have "map_option mgErrorMessage (migRow mid (updateMigration mid f w)) = map_option mgErrorMessage (migRow mid w)"
    if "\<And>m. mgErrorMessage (f m) = mgErrorMessage m \<and> mgID (f m) = mgID m" for f
    using that by (simp add: migRow_update option.map_comp comp_def)
  moreover have "rowsOf (updateMigration mid f w) = rowsOf w" "wItems (updateMigration mid f w) = wItems w"
    "wFaults (updateMigration mid f w) = wFaults w" for f by (simp_all add: updateMigration_def)
  ultimately show ?thesis using assms r
    by (simp add: migInv_def updateProgress_def UpdateMigrationProgress_def withStatus_def itemsOf_def cong: itemState_world)
qed

lemma progress_fields:
  assumes "updateProgress mid r = ((w', ss', ts'), a', b')" "r = ((w, ss, ts), a, b)" "wFaults w = []"
  shows "wItems w' = wItems w" "wDone w' = wDone w" "a' = a" "b' = b"
  using assms by (auto simp: updateProgress_def UpdateMigrationProgress_def updateMigration_def)

lemma migInv_workItem:
  assumes inv: "migInv mid backend w0 ss0 ts0 ((w, ss, ts), a, b)" and ind: "independent sclob tclob mid w"
    and x: "x \<in> set (itemsOf mid w)" "itStatus x = ''pending''"
  shows "\<exists>w' ss' ts' a' b' st err. workItem S T mid backend x ((w, ss, ts), a, b) = ((w', ss', ts'), a', b') \<and>
    migInv mid backend w0 ss0 ts0 ((w', ss', ts'), a', b') \<and> wDone w' = wDone w \<and>
    st \<noteq> ''pending'' \<and> wItems w' = setItem (itID x) st err (wNow w) (wItems w)"
proof -
  obtain r w1 ss1 ts1 where m: "migrateItem S T x backend (w, ss, ts) = (r, w1, ss1, ts1)" by (metis surj_pair)
  define st where "st = (if isl r then ''failed'' else ''migrated'')"
  define err where "err = (case r of Inl e \<Rightarrow> Some e | Inr _ \<Rightarrow> None)"
  note I = migInv_setItem[OF inv ind x m, folded st_def]
  let ?w = "w1\<lparr>wItems := setItem (itID x) st err (wNow w1) (wItems w1)\<rparr>"
  let ?a = "if isl r then a else Suc a" and ?b = "if isl r then Suc b else b"
  have i1: "migInv mid backend w0 ss0 ts0 ((?w, ss1, ts1), ?a, ?b)" by (rule I(1))
  then have f: "wFaults w1 = []" "wFaults ?w = []" by (simp_all add: migInv_def)
  have wk: "workItem S T mid backend x ((w, ss, ts), a, b) =
      (if (?a + ?b) mod 10 = 0 then updateProgress mid ((?w, ss1, ts1), ?a, ?b) else ((?w, ss1, ts1), ?a, ?b))"
    using m f(1) by (cases r) (auto simp: workItem_def UpdateItemStatus_ok st_def err_def)
  have it: "wItems ?w = setItem (itID x) st err (wNow w) (wItems w)" "wDone ?w = wDone w" using I by (simp_all add: setItem_setItem)
  have st: "st \<noteq> ''pending''" by (simp add: st_def)
  obtain w2 ss2 ts2 a2 b2 where p: "updateProgress mid ((?w, ss1, ts1), ?a, ?b) = ((w2, ss2, ts2), a2, b2)" by (metis surj_pair)
  show ?thesis
  proof (cases "(?a + ?b) mod 10 = 0")
    case True
    with wk p it st migInv_progress[OF i1] progress_fields[OF p refl f(2)] show ?thesis by metis
  next
    case False
    with wk it st i1 show ?thesis by metis
  qed
qed

text \<open>A batch of distinct pending items: all are settled, the other items stay as they are.\<close>

lemma migInv_batch:
  assumes "migInv mid backend w0 ss0 ts0 ((w, ss, ts), a, b)" "independent sclob tclob mid w"
    "set xs \<subseteq> set (itemsOf mid w)" "\<forall>x \<in> set xs. itStatus x = ''pending''" "distinct (map itID xs)"
  shows "\<exists>w' ss' ts' a' b'. fold (workItem S T mid backend) xs ((w, ss, ts), a, b) = ((w', ss', ts'), a', b') \<and>
    migInv mid backend w0 ss0 ts0 ((w', ss', ts'), a', b') \<and> independent sclob tclob mid w' \<and> wDone w' = wDone w \<and>
    filter (\<lambda>i. itMigrationID i = mid \<and> itStatus i = ''pending'') (wItems w') =
    filter (\<lambda>i. (itMigrationID i = mid \<and> itStatus i = ''pending'') \<and> itID i \<notin> itID ` set xs) (wItems w)"
  using assms
proof (induction xs arbitrary: w ss ts a b)
  case (Cons x xs)
  obtain w1 ss1 ts1 a1 b1 st err where k: "workItem S T mid backend x ((w, ss, ts), a, b) = ((w1, ss1, ts1), a1, b1)"
    and i1: "migInv mid backend w0 ss0 ts0 ((w1, ss1, ts1), a1, b1)" and d1: "wDone w1 = wDone w" and st: "st \<noteq> ''pending''"
    and it: "wItems w1 = setItem (itID x) st err (wNow w) (wItems w)"
    using migInv_workItem[OF Cons.prems(1,2), of x] Cons.prems(3,4) by auto
  have ind1: "independent sclob tclob mid w1"
    using independent_frames[OF _ Cons.prems(2)] it frames_setItem by metis
  have sub: "set xs \<subseteq> set (itemsOf mid w1)"
  proof
    fix y assume y: "y \<in> set xs"
    then have "itID y \<noteq> itID x" using Cons.prems(5) by (auto simp: image_iff)
    moreover have "y \<in> set (wItems w)" "itMigrationID y = mid" using y Cons.prems(3) by (auto simp: itemsOf_def)
    ultimately show "y \<in> set (itemsOf mid w1)" unfolding itemsOf_def it set_filter mem_Collect_eq setItem_member by force
  qed
  from Cons.IH[OF i1 ind1 sub] Cons.prems(4,5) obtain w' ss' ts' a' b' where
    F: "fold (workItem S T mid backend) xs ((w1, ss1, ts1), a1, b1) = ((w', ss', ts'), a', b')"
    and R: "migInv mid backend w0 ss0 ts0 ((w', ss', ts'), a', b')" "independent sclob tclob mid w'" "wDone w' = wDone w1"
    and P: "filter (\<lambda>i. itMigrationID i = mid \<and> itStatus i = ''pending'') (wItems w') =
      filter (\<lambda>i. (itMigrationID i = mid \<and> itStatus i = ''pending'') \<and> itID i \<notin> itID ` set xs) (wItems w1)" by auto
  have "filter (\<lambda>i. (itMigrationID i = mid \<and> itStatus i = ''pending'') \<and> itID i \<notin> itID ` set xs) (wItems w1) =
      filter (\<lambda>i. itID i \<notin> itID ` set xs) (filter (\<lambda>i. itMigrationID i = mid \<and> itStatus i = ''pending'') (wItems w1))" by (simp add: conj_commute)
  also have "\<dots> = filter (\<lambda>i. (itMigrationID i = mid \<and> itStatus i = ''pending'') \<and> itID i \<notin> itID ` set (x # xs)) (wItems w)"
    unfolding it pending_setItem[OF st] by (auto intro!: filter_cong)
  finally show ?case using F R P k d1 by auto
qed auto

lemma spawn_spec:
  "spawn is w = ((started, c), w') \<Longrightarrow> (\<exists>rest. is = started @ rest \<and> (\<not> c \<longrightarrow> rest = [])) \<and>
     w' = w\<lparr>wDone := wDone w'\<rparr> \<and> (wDone w = [] \<longrightarrow> \<not> c \<and> wDone w' = [])"
proof (induction "is" arbitrary: w started c w')
  case (Cons i "is")
  obtain d w1 where d: "ctxDone w = (d, w1)" by (metis surj_pair)
  then have w1: "w1 = w\<lparr>wDone := wDone w1\<rparr>" "wDone w = [] \<longrightarrow> \<not> d \<and> wDone w1 = []" by (auto simp: ctxDone_def split: list.splits)
  obtain st2 c2 w2 where n: "spawn is w1 = ((st2, c2), w2)" by (metis surj_pair)
  show ?case
  proof (cases d)
    case True
    with Cons.prems d w1 show ?thesis by auto
  next
    case False
    with Cons.prems d n have e: "started = i # st2" "c = c2" "w' = w2" by auto
    from Cons.IH[OF n] obtain rest where r: "is = st2 @ rest" "\<not> c2 \<longrightarrow> rest = []" "w2 = w1\<lparr>wDone := wDone w2\<rparr>"
      "wDone w1 = [] \<longrightarrow> \<not> c2 \<and> wDone w2 = []" by blast
    have "w2 = w\<lparr>wDone := wDone w2\<rparr>" by (subst r(3), subst w1(1)) simp
    with r w1(2) e show ?thesis by auto
  qed
qed simp

lemma migInv_done: "migInv mid backend w0 ss0 ts0 ((w\<lparr>wDone := x\<rparr>, ss, ts), a, b) = migInv mid backend w0 ss0 ts0 ((w, ss, ts), a, b)"
  by (simp add: migInv_def withStatus_def itemsOf_def migRow_def cong: itemState_world)

lemma independent_done: "independent sc tc mid (w\<lparr>wDone := x\<rparr>) = independent sc tc mid w"
  by (simp add: independent_def itemsOf_def)

text \<open>
  The loop ends: every round settles at least one pending item or stops. When it runs to its end,
  no item is pending, and without a cancellation it does run to its end.
\<close>

lemma migInv_loop:
  assumes perm: "\<And>xs. mset (order xs) = mset xs" "\<And>xs. mset (orderById xs) = mset xs"
  shows "migInv mid backend w0 ss0 ts0 ((w, ss, ts), a, b) \<Longrightarrow> independent sclob tclob mid w \<Longrightarrow> withStatus mid ''pending'' w < fuel \<Longrightarrow>
    \<exists>ended w' ss' ts' a' b'. migrateLoop S T orderById order mid backend fuel ((w, ss, ts), a, b) = Some (ended, (w', ss', ts'), a', b') \<and>
      migInv mid backend w0 ss0 ts0 ((w', ss', ts'), a', b') \<and> (ended \<longrightarrow> withStatus mid ''pending'' w' = 0) \<and> (wDone w = [] \<longrightarrow> ended)"
proof (induction fuel arbitrary: w ss ts a b)
  case (Suc n)
  obtain d w1 where d: "ctxDone w = (d, w1)" by (metis surj_pair)
  then have w1: "w1 = w\<lparr>wDone := wDone w1\<rparr>" "wDone w = [] \<longrightarrow> \<not> d \<and> wDone w1 = []" by (auto simp: ctxDone_def split: list.splits)
  have i1: "migInv mid backend w0 ss0 ts0 ((w1, ss, ts), a, b)" and n1: "independent sclob tclob mid w1" and it1: "wItems w1 = wItems w"
    using Suc.prems(1,2) by (subst w1(1), simp add: migInv_done independent_done)+
  have f1: "wFaults w1 = []" using i1 by (simp add: migInv_def)
  let ?pend = "\<lambda>i. itMigrationID i = mid \<and> itStatus i = ''pending''"
  define items where "items = take fetchBatch (orderById (filter ?pend (wItems w1)))"
  have q: "GetPendingItems orderById mid fetchBatch w1 = (Inr items, w1)" using f1 by (simp add: GetPendingItems_def items_def)
  show ?case
  proof (cases d)
    case True
    obtain w2 ss2 ts2 a2 b2 where p: "updateProgress mid ((w1, ss, ts), a, b) = ((w2, ss2, ts2), a2, b2)" by (metis surj_pair)
    with True d w1(2) migInv_progress[OF i1] show ?thesis by auto
  next
    case nd: False
    show ?thesis
    proof (cases "items = []")
      case True
      have "length (orderById (filter ?pend (wItems w1))) = 0" using True by (simp add: items_def fetchBatch_def)
      then have "withStatus mid ''pending'' w1 = 0" using arg_cong[OF perm(2)[of "filter ?pend (wItems w1)"], of size] by (simp add: withStatus_def)
      with True nd d q i1 show ?thesis by auto
    next
      case ne: False
      obtain started c w2 where sp: "spawn items w1 = ((started, c), w2)" by (metis surj_pair)
      from spawn_spec[OF sp] obtain rest where r: "items = started @ rest" "\<not> c \<longrightarrow> rest = []" "w2 = w1\<lparr>wDone := wDone w2\<rparr>"
        "wDone w1 = [] \<longrightarrow> \<not> c \<and> wDone w2 = []" by blast
      have i2: "migInv mid backend w0 ss0 ts0 ((w2, ss, ts), a, b)" and n2: "independent sclob tclob mid w2" and it2: "wItems w2 = wItems w1"
        using i1 n1 by (subst r(3), simp add: migInv_done independent_done)+
      let ?xs = "order started"
      have tk: "mset (take k zs) \<subseteq># mset zs" for k and zs :: "StorageMigrationItem list"
        using mset_append[of "take k zs" "drop k zs"] by simp
      have ms: "mset items \<subseteq># mset (filter ?pend (wItems w1))"
        unfolding items_def perm(2)[symmetric, of "filter ?pend (wItems w1)"]
        by (rule tk)
      then have sub: "set started \<subseteq> set (filter ?pend (wItems w1))" using set_mset_mono[OF ms] r(1) by auto
      have sx: "set ?xs = set started" using arg_cong[OF perm(1)[of started], of set_mset] by simp
      have di: "distinct (map itID ?xs)"
      proof -
        have "distinct (map itID (filter ?pend (wItems w1)))" using n1 by (simp add: independent_def distinct_map_filter)
        moreover have "mset (map itID (orderById (filter ?pend (wItems w1)))) = mset (map itID (filter ?pend (wItems w1)))"
          unfolding mset_map perm(2) ..
        ultimately have "distinct (map itID (orderById (filter ?pend (wItems w1))))" using mset_eq_imp_distinct_iff by blast
        then have "distinct (map itID items)" by (simp add: items_def take_map[symmetric])
        then have "distinct (map itID started)" using r(1) by simp
        moreover have "mset (map itID ?xs) = mset (map itID started)" unfolding mset_map perm(1) ..
        ultimately show ?thesis using mset_eq_imp_distinct_iff by blast
      qed
      have xs1: "set ?xs \<subseteq> set (itemsOf mid w2)" and xs2: "\<forall>x \<in> set ?xs. itStatus x = ''pending''"
        using sub sx it2 by (auto simp: itemsOf_def)
      obtain w3 ss3 ts3 a3 b3 where F: "fold (workItem S T mid backend) ?xs ((w2, ss, ts), a, b) = ((w3, ss3, ts3), a3, b3)"
        and i3: "migInv mid backend w0 ss0 ts0 ((w3, ss3, ts3), a3, b3)" and n3: "independent sclob tclob mid w3" and d3: "wDone w3 = wDone w2"
        and P: "filter ?pend (wItems w3) = filter (\<lambda>i. ?pend i \<and> itID i \<notin> itID ` set ?xs) (wItems w2)"
        using migInv_batch[OF i2 n2 xs1 xs2 di] by blast
      obtain w4 ss4 ts4 a4 b4 where p: "updateProgress mid ((w3, ss3, ts3), a3, b3) = ((w4, ss4, ts4), a4, b4)" by (metis surj_pair)
      have i4: "migInv mid backend w0 ss0 ts0 ((w4, ss4, ts4), a4, b4)" using migInv_progress[OF i3] p by simp
      show ?thesis
      proof (cases c)
        case True
        with nd d q ne sp F p i4 r(4) w1(2) show ?thesis by auto
      next
        case False
        have "wFaults w3 = []" using i3 by (simp add: migInv_def)
        note pf = progress_fields[OF p refl this]
        obtain x where x: "x \<in> set ?xs" using sx r(1,2) False ne by (cases started) auto
        have "length (filter ?pend (wItems w4)) < length (filter ?pend (wItems w2))"
        proof -
          have "x \<in> set (filter ?pend (wItems w2))" using x sx sub it2 by auto
          then have "length (filter (\<lambda>i. itID i \<notin> itID ` set ?xs) (filter ?pend (wItems w2))) < length (filter ?pend (wItems w2))"
            using x by (intro length_filter_less) auto
          then show ?thesis unfolding pf(1) P by (simp add: conj_commute)
        qed
        then have "withStatus mid ''pending'' w4 < n" using Suc.prems(3) it1 it2 by (simp add: withStatus_def)
        moreover have "independent sclob tclob mid w4" using independent_frames[OF _ n3] pf(1) by simp
        ultimately obtain ended w' ss' ts' a' b' where
          "migrateLoop S T orderById order mid backend n ((w4, ss4, ts4), a4, b4) = Some (ended, (w', ss', ts'), a', b')"
          "migInv mid backend w0 ss0 ts0 ((w', ss', ts'), a', b')" "ended \<longrightarrow> withStatus mid ''pending'' w' = 0" "wDone w4 = [] \<longrightarrow> ended"
          using Suc.IH[OF i4] by blast
        with False nd d q ne sp F p pf d3 r(4) w1(2) show ?thesis by auto
      qed
    qed
  qed
qed simp

lemma executeMigration_ok:
  assumes perm: "\<And>xs. mset (order xs) = mset xs" "\<And>xs. mset (orderById xs) = mset xs"
    and sched: "wFaults w = []" "wDone w = []" and row: "migRow mid w = Some m"
    and cfg: "uuidParse (mgSourceConfigID m) = Some sid" "find (\<lambda>c. scID c = sid) (wConfigs w) = Some sc"
      "uuidParse (mgTargetConfigID m) = Some tid" "find (\<lambda>c. scID c = tid) (wConfigs w) = Some tc" "build sc = Inr ()" "build tc = Inr ()"
    and items: "\<forall>i \<in> set (itemsOf mid w). itStatus i = ''pending''" "independent sclob tclob mid w"
    and fuel: "length (itemsOf mid w) < fuel"
  shows "\<exists>w' ss' ts' m'. executeMigration S T build uuidParse orderById order mid fuel (w, ss, ts) = Some (w', ss', ts') \<and>
    map itemFrame (wItems w') = map itemFrame (wItems w) \<and> migRow mid w' = Some m' \<and> mgStatus m' = ''completed'' \<and>
    mgMigratedArtifacts m' = withStatus mid ''migrated'' w' \<and> mgFailedArtifacts m' = withStatus mid ''failed'' w' \<and>
    mgErrorMessage m' = (if withStatus mid ''failed'' w' = 0 then mgErrorMessage m
       else Some (natDigits (withStatus mid ''failed'' w') @ '' artifacts failed to migrate'')) \<and>
    (\<forall>i \<in> set (itemsOf mid w').
       itStatus i = ''failed'' \<and> rowsOf w' i = rowsOf w i \<or>
       itStatus i = ''migrated'' \<and> rowsOf w' i = map (\<lambda>_. scBackendType tc) (rowsOf w i) \<and> delivered ss ts ts' (itSourcePath i))"
proof -
  let ?started = "updateMigration mid (\<lambda>m. m\<lparr>mgStatus := ''running'', mgStartedAt := Some (wNow w)\<rparr>) w"
  let ?B = "scBackendType tc"
  have u: "wItems (updateMigration mid f v) = wItems v" "wFaults (updateMigration mid f v) = wFaults v" "rowsOf (updateMigration mid f v) = rowsOf v"
    "wDone (updateMigration mid f v) = wDone v" "wConfigs (updateMigration mid f v) = wConfigs v" for f v
    by (simp_all add: updateMigration_def)
  have row1: "migRow mid ?started = Some (m\<lparr>mgStatus := ''running'', mgStartedAt := Some (wNow w)\<rparr>)"
    using row by (simp add: migRow_update)
  have z: "withStatus mid st w = 0" if "st \<noteq> ''pending''" for st
    using items(1) that by (auto simp: withStatus_def itemsOf_def filter_empty_conv)
  have "migInv mid ?B w ss ts ((?started, ss, ts), 0, 0)"
    using sched(1) items(1) row row1 z[of "''migrated''"] z[of "''failed''"] u
    by (simp add: migInv_def itemState_def Let_def withStatus_def itemsOf_def)
  moreover have "independent sclob tclob mid ?started" by (rule independent_frames[OF _ items(2)]) (simp add: u)
  moreover have "withStatus mid ''pending'' ?started < fuel"
    using fuel le_less_trans[OF length_filter_le] by (simp add: withStatus_def itemsOf_def u flip: filter_filter)
  ultimately obtain w1 ss1 ts1 a b where
    L: "migrateLoop S T orderById order mid ?B fuel ((?started, ss, ts), 0, 0) = Some (True, (w1, ss1, ts1), a, b)"
    and i1: "migInv mid ?B w ss ts ((w1, ss1, ts1), a, b)" and p0: "withStatus mid ''pending'' w1 = 0"
    using migInv_loop[OF perm, of mid ?B w ss ts ?started ss ts 0 0 fuel] sched(2) u(4) by auto
  have f1: "wFaults w1 = []" and a: "a = withStatus mid ''migrated'' w1" "b = withStatus mid ''failed'' w1"
    and fr: "map itemFrame (wItems w1) = map itemFrame (wItems w)"
    and st: "\<forall>i \<in> set (itemsOf mid w1). itemState ?B w ss ts w1 ss1 ts1 i"
    using i1 by (simp_all add: migInv_def)
  obtain m1 where m1: "migRow mid w1 = Some m1" "mgErrorMessage m1 = mgErrorMessage m" using i1 row by (auto simp: migInv_def)
  let ?prog = "\<lambda>m. m\<lparr>mgMigratedArtifacts := a, mgFailedArtifacts := b, mgSkippedArtifacts := 0\<rparr>"
  let ?msg = "Some (natDigits b @ '' artifacts failed to migrate'')"
  let ?done = "\<lambda>m. m\<lparr>mgStatus := ''completed'', mgCompletedAt := Some (wNow w1)\<rparr>"
  define w3 where "w3 = updateMigration mid ?done (if b > 0 then updateMigration mid (\<lambda>m. m\<lparr>mgStatus := ''completed'', mgErrorMessage := ?msg\<rparr>)
      (updateMigration mid ?prog w1) else updateMigration mid ?prog w1)"
  have now: "wNow (updateMigration mid f v) = wNow v" for f v by (simp add: updateMigration_def)
  have fin: "finishMigration mid (updateProgress mid ((w1, ss1, ts1), a, b)) = (w3, ss1, ts1)"
    using f1 by (simp add: finishMigration_def updateProgress_def UpdateMigrationProgress_def UpdateMigrationStatus_def
        SetMigrationCompleted_def u now w3_def)
  have w3: "wItems w3 = wItems w1" "rowsOf w3 = rowsOf w1" by (simp_all add: w3_def u)
  have ex: "executeMigration S T build uuidParse orderById order mid fuel (w, ss, ts) = Some (w3, ss1, ts1)"
    using sched(1) row1 cfg L fin u
    by (simp add: executeMigration_def SetMigrationStarted_def GetMigration_def GetStorageConfig_def migRow_def)
  obtain m' where m': "migRow mid w3 = Some m'" "mgStatus m' = ''completed''" "mgMigratedArtifacts m' = a" "mgFailedArtifacts m' = b"
      "mgErrorMessage m' = (if b = 0 then mgErrorMessage m else ?msg)"
  proof -
    have "migRow mid w3 = Some (?done (if b > 0 then (?prog m1)\<lparr>mgStatus := ''completed'', mgErrorMessage := ?msg\<rparr> else ?prog m1))"
      using m1 by (simp add: w3_def migRow_update)
    then show ?thesis by (rule that) (use m1 in auto)
  qed
  have it: "itStatus i = ''failed'' \<and> rowsOf w3 i = rowsOf w i \<or>
       itStatus i = ''migrated'' \<and> rowsOf w3 i = map (\<lambda>_. ?B) (rowsOf w i) \<and> delivered ss ts ts1 (itSourcePath i)"
    if "i \<in> set (itemsOf mid w3)" for i
  proof -
    have i: "i \<in> set (itemsOf mid w1)" using that w3(1) by (simp add: itemsOf_def)
    then have "itStatus i \<noteq> ''pending''" using p0 by (auto simp: withStatus_def itemsOf_def filter_empty_conv)
    with st i w3(2) show ?thesis by (auto simp: itemState_def Let_def split: if_splits)
  qed
  have ws: "withStatus mid s w3 = withStatus mid s w1" for s by (simp add: withStatus_def w3)
  show ?thesis
    by (rule exI[of _ w3], rule exI[of _ ss1], rule exI[of _ ts1], rule exI[of _ m'])
      (use ex m' it fr a in \<open>simp add: ws w3(1)\<close>)
qed

end

section \<open>The local backend is such a store\<close>

definition localDownload :: "LocalStorage \<Rightarrow> string \<Rightarrow> fs \<Rightarrow> (string + reader) \<times> fs" where
  "localDownload L p s =
     (case Download L p s of
        (Inl e, s1) \<Rightarrow> (Inl e, s1)
      | (Inr n, s1) \<Rightarrow> (case readAll n s1 of (Inl _, s2) \<Rightarrow> (Inr ([], True), s2) | (Inr d, s2) \<Rightarrow> (Inr (d, False), s2)))"

definition localOps :: "(string \<Rightarrow> string) \<Rightarrow> LocalStorage \<Rightarrow> fs store_ops" where
  "localOps sha L = \<lparr>stExists = Exists L, stDownload = localDownload L,
     stSize = (\<lambda>p s. apfst (map_sum id fmSize) (GetMetadata sha L p s)),
     stUpload = (\<lambda>p rd n s. apfst (map_sum id (\<lambda>_. ())) (Upload sha L p rd s))\<rparr>"

definition localPresent :: "LocalStorage \<Rightarrow> fs \<Rightarrow> string \<Rightarrow> bool" where
  "localPresent L s p = (case safeJoin L p of Inl _ \<Rightarrow> False | Inr full \<Rightarrow> node s full \<noteq> None)"

definition localContent :: "LocalStorage \<Rightarrow> fs \<Rightarrow> string \<Rightarrow> string option" where
  "localContent L s p = (case safeJoin L p of Inl _ \<Rightarrow> None
     | Inr full \<Rightarrow> (case node s full of Some (FFile d _) \<Rightarrow> Some d | _ \<Rightarrow> None))"

definition localClob :: "LocalStorage \<Rightarrow> string \<Rightarrow> string set" where
  "localClob L p = {q. case (safeJoin L p, safeJoin L q) of
     (Inr fp, Inr fq) \<Rightarrow> fq = fp \<or> fq = fp @ ''.sha256'' \<or> fq \<in> set (ancestors (Dir fp)) | _ \<Rightarrow> False}"

lemma makeDirs_keeps: "makeDirs ps s = (r, s') \<Longrightarrow> q \<notin> set ps \<Longrightarrow> node s' q = node s q"
  by (induction ps arbitrary: s) (auto split: option.splits fnode.splits)

lemma osMkdirAll_keeps: "osMkdirAll p s = (r, s') \<Longrightarrow> q \<notin> set (ancestors p) \<Longrightarrow> node s' q = node s q"
  by (auto simp: osMkdirAll_def dest!: osCall_eq split: prod.splits if_splits) (metis makeDirs_keeps)

lemma Upload_frame:
  assumes "Upload sha L p rd s = (r, s')" "safeJoin L p = Inr full" "q \<noteq> full" "q \<noteq> full @ ''.sha256''" "q \<notin> set (ancestors (Dir full))"
  shows "node s' q = node s q"
proof -
  obtain r1 s1 where m: "osMkdirAll (Dir full) s = (r1, s1)" by (metis surj_pair)
  obtain r2 s2 where c: "osCreate full s1 = (r2, s2)" by (metis surj_pair)
  obtain r3 s3 where y: "copyTo full rd s2 = (r3, s3)" by (metis surj_pair)
  have "node s1 q = node s q" "node s2 q = node s1 q" "node s3 q = node s2 q"
    using osMkdirAll_keeps[OF m assms(5)] osCreate_keeps[OF c assms(3)] copyTo_keeps[OF y assms(3)] by simp_all
  with assms(1,2) m c y osRemove_keeps[OF assms(3)] osWriteFile_keeps[OF assms(4)] show ?thesis
    by (auto simp: Upload_def split: sum.splits)
qed

lemma Exists_keeps: "Exists L p s = (r, s') \<Longrightarrow> node s' = node s"
  by (auto simp: Exists_def osStat_def dest!: osCall_eq split: sum.splits prod.splits if_splits option.splits fnode.splits oserr.splits)

lemma osOpen_keeps: "osOpen p s = (r, s') \<Longrightarrow> node s' = node s"
  by (auto simp: osOpen_def dest!: osCall_eq split: prod.splits if_splits option.splits)

lemma osStat_keeps: "osStat p s = (r, s') \<Longrightarrow> node s' = node s"
  by (auto simp: osStat_def dest!: osCall_eq split: prod.splits if_splits option.splits fnode.splits)

lemma readAll_keeps: "readAll n s = (r, s') \<Longrightarrow> node s' = node s"
  by (auto simp: readAll_def dest!: osCall_eq split: prod.splits if_splits fnode.splits)

lemma Download_keeps: "Download L p s = (r, s') \<Longrightarrow> node s' = node s"
  by (auto simp: Download_def dest: osOpen_keeps split: sum.splits prod.splits oserr.splits)

lemma localDownload_keeps: "localDownload L p s = (r, s') \<Longrightarrow> node s' = node s"
  by (auto simp: localDownload_def dest!: Download_keeps readAll_keeps split: sum.splits prod.splits)

lemma GetMetadata_frame:
  "GetMetadata sha L p s = (r, s') \<Longrightarrow> safeJoin L p = Inr full \<Longrightarrow> q \<noteq> full @ ''.sha256'' \<Longrightarrow> node s' q = node s q"
  by (auto simp: GetMetadata_def osWriteFile_keeps dest!: osStat_keeps osOpen_keeps readAll_keeps split: sum.splits prod.splits oserr.splits fnode.splits)

lemma local_read_cong:
  "node s' = node s \<Longrightarrow> localPresent L s' q = localPresent L s q \<and> localContent L s' q = localContent L s q"
  by (cases "safeJoin L q") (simp_all add: localPresent_def localContent_def)

interpretation local_store: object_store "localOps sha L" "localPresent L" "localContent L" "localClob L" for sha L
proof unfold_locales
  fix p q s and s' :: fs
  { fix r assume "stExists (localOps sha L) p s = (r, s')"
    then have "node s' = node s" by (auto simp: localOps_def dest: Exists_keeps)
    then show "localPresent L s' q = localPresent L s q \<and> localContent L s' q = localContent L s q"
      by (rule local_read_cong) }
  { fix x assume "stExists (localOps sha L) p s = (Inr x, s')"
    then show "x \<longleftrightarrow> localPresent L s p"
      by (auto simp: localOps_def Exists_def osStat_def localPresent_def dest!: osCall_eq
          split: sum.splits prod.splits if_splits option.splits fnode.splits oserr.splits) }
  { fix r assume "stDownload (localOps sha L) p s = (r, s')"
    then have "node s' = node s" by (auto simp: localOps_def dest: localDownload_keeps)
    then show "localPresent L s' q = localPresent L s q \<and> localContent L s' q = localContent L s q"
      by (rule local_read_cong) }
  { fix d assume "stDownload (localOps sha L) p s = (Inr (d, False), s')"
    then show "localContent L s p = Some d"
      by (auto simp: localOps_def localDownload_def Download_def osOpen_def readAll_def localContent_def dest!: osCall_eq
          split: sum.splits prod.splits if_splits option.splits fnode.splits oserr.splits) }
  { fix r assume a: "stSize (localOps sha L) p s = (r, s')" and q: "q \<notin> localClob L p"
    obtain r1 where g: "GetMetadata sha L p s = (r1, s')" using a by (cases "GetMetadata sha L p s") (auto simp: localOps_def)
    show "localPresent L s' q = localPresent L s q \<and> localContent L s' q = localContent L s q"
    proof (cases "safeJoin L p")
      case (Inl e)
      with g have "s' = s" by (simp add: GetMetadata_def)
      then show ?thesis by simp
    next
      case (Inr full)
      with q GetMetadata_frame[OF g Inr] show ?thesis
        by (cases "safeJoin L q") (auto simp: localPresent_def localContent_def localClob_def)
    qed }
  { fix rd n r assume a: "stUpload (localOps sha L) p rd n s = (r, s')" and q: "q \<notin> localClob L p"
    obtain r1 where g: "Upload sha L p rd s = (r1, s')" using a by (cases "Upload sha L p rd s") (auto simp: localOps_def)
    show "localPresent L s' q = localPresent L s q \<and> localContent L s' q = localContent L s q"
    proof (cases "safeJoin L p")
      case (Inl e)
      with g have "s' = s" by (simp add: Upload_def)
      then show ?thesis by simp
    next
      case (Inr full)
      with q Upload_frame[OF g Inr] show ?thesis
        by (cases "safeJoin L q") (auto simp: localPresent_def localContent_def localClob_def)
    qed }
  { fix d n u assume a: "stUpload (localOps sha L) p (d, False) n s = (Inr u, s')"
    then obtain res where "Upload sha L p (d, False) s = (Inr res, s')"
      by (cases "Upload sha L p (d, False) s"; cases "fst (Upload sha L p (d, False) s)") (auto simp: localOps_def)
    from Upload_Inr[OF this] show "localContent L s' p = Some d \<and> localPresent L s' p"
      by (auto simp: localContent_def localPresent_def) }
qed

section \<open>Properties\<close>

text \<open>
  Claim C11. A migration ends and is complete: when the database answers and nobody cancels, the run ends,
  for any two backends that keep the storage contract and whatever their calls return, within one
  round per item; it is recorded as completed with the true counts and an error message exactly if items failed.
  Every item is then either failed, its artifact still referring to where it was, or migrated, and
  then every row of its artifact refers to the target, which holds the file, with the content the source
  had or, if it held one at the start, as it was.
\<close>

theorem migration_correct:
  assumes "object_store S spresent scontent sclob" "object_store T tpresent tcontent tclob"
    and "\<And>xs. mset (order xs) = mset xs" "\<And>xs. mset (orderById xs) = mset xs"
    and "wFaults w = []" "wDone w = []" "migRow mid w = Some m"
    and "uuidParse (mgSourceConfigID m) = Some sid" "find (\<lambda>c. scID c = sid) (wConfigs w) = Some sc"
      "uuidParse (mgTargetConfigID m) = Some tid" "find (\<lambda>c. scID c = tid) (wConfigs w) = Some tc" "build sc = Inr ()" "build tc = Inr ()"
    and "\<forall>i \<in> set (itemsOf mid w). itStatus i = ''pending''" "independent sclob tclob mid w"
    and "length (itemsOf mid w) < fuel"
  shows "\<exists>w' ss' ts' m'. executeMigration S T build uuidParse orderById order mid fuel (w, ss, ts) = Some (w', ss', ts') \<and>
    map itemFrame (wItems w') = map itemFrame (wItems w) \<and> migRow mid w' = Some m' \<and> mgStatus m' = ''completed'' \<and>
    mgMigratedArtifacts m' = withStatus mid ''migrated'' w' \<and> mgFailedArtifacts m' = withStatus mid ''failed'' w' \<and>
    mgErrorMessage m' = (if withStatus mid ''failed'' w' = 0 then mgErrorMessage m
       else Some (natDigits (withStatus mid ''failed'' w') @ '' artifacts failed to migrate'')) \<and>
    (\<forall>i \<in> set (itemsOf mid w').
       itStatus i = ''failed'' \<and> rowsOf w' i = rowsOf w i \<or>
       itStatus i = ''migrated'' \<and> rowsOf w' i = map (\<lambda>_. scBackendType tc) (rowsOf w i) \<and>
         tpresent ts' (itSourcePath i) \<and>
         (tpresent ts (itSourcePath i) \<and> tcontent ts' (itSourcePath i) = tcontent ts (itSourcePath i) \<or>
          (\<exists>d. scontent ss (itSourcePath i) = Some d \<and> tcontent ts' (itSourcePath i) = Some d)))"
proof -
  have "migration_stores S spresent scontent sclob T tpresent tcontent tclob" using assms(1,2) by (rule migration_stores.intro)
  from migration_stores.executeMigration_ok[OF this assms(3-16)] migration_stores.delivered_def[OF this] show ?thesis by simp
qed

definition exItem :: StorageMigrationItem where
  "exItem = newItem ''i1'' ''m1'' ''module'' \<lparr>arID = ''a1'', arStoragePath = ''old'', arStorageBackend = ''local''\<rparr>"

definition exMigration :: StorageMigration where
  "exMigration = \<lparr>mgID = ''m1'', mgSourceConfigID = ''s'', mgTargetConfigID = ''t'', mgStatus = ''pending'', mgTotalArtifacts = 1,
     mgMigratedArtifacts = 0, mgFailedArtifacts = 0, mgSkippedArtifacts = 0, mgErrorMessage = None, mgStartedAt = None,
     mgCompletedAt = None, mgCreatedAt = 0, mgCreatedBy = None\<rparr>"

definition exWorld :: smworld where
  "exWorld = \<lparr>wMigrations = [exMigration], wItems = [exItem], wModuleVersions = [\<lparr>arID = ''a1'', arStoragePath = ''old'', arStorageBackend = ''local''\<rparr>],
     wProviderPlatforms = [], wConfigs = [\<lparr>scID = ''s'', scBackendType = ''local''\<rparr>, \<lparr>scID = ''t'', scBackendType = ''nfs''\<rparr>],
     wNow = 7, wFaults = [], wDone = []\<rparr>"

theorem migration_correct_witness:
  "\<exists>w' ss' ts'. executeMigration (localOps (\<lambda>d. d) exLocal) (localOps (\<lambda>d. d) exLocal) (\<lambda>_. Inr ()) Some (\<lambda>xs. xs) rev ''m1'' 2
       (exWorld, exFs, exFs\<lparr>fsNodes := []\<rparr>) = Some (w', ss', ts') \<and>
     (\<exists>m'. migRow ''m1'' w' = Some m' \<and> mgStatus m' = ''completed'')"
proof -
  have a: "wFaults exWorld = []" "wDone exWorld = []" "migRow ''m1'' exWorld = Some exMigration"
    "Some (mgSourceConfigID exMigration) = Some ''s''" "find (\<lambda>c. scID c = ''s'') (wConfigs exWorld) = Some \<lparr>scID = ''s'', scBackendType = ''local''\<rparr>"
    "Some (mgTargetConfigID exMigration) = Some ''t''" "find (\<lambda>c. scID c = ''t'') (wConfigs exWorld) = Some \<lparr>scID = ''t'', scBackendType = ''nfs''\<rparr>"
    "\<forall>i \<in> set (itemsOf ''m1'' exWorld). itStatus i = ''pending''" "independent (localClob exLocal) (localClob exLocal) ''m1'' exWorld"
    "length (itemsOf ''m1'' exWorld) < 2"
    by (simp_all add: exWorld_def migRow_def exMigration_def itemsOf_def exItem_def newItem_def independent_def knownType_def)
  from migration_correct[OF local_store.object_store_axioms local_store.object_store_axioms _ _ a(1-7) _ _ a(8-10),
      of rev "\<lambda>xs. xs" "\<lambda>_. Inr ()" "\<lambda>d. d" "\<lambda>d. d" exFs "exFs\<lparr>fsNodes := []\<rparr>"]
  show ?thesis by auto
qed

lemma insertBatches_ok:
  "wFaults w = [] \<Longrightarrow> insertBatches items w = (Inr (), w\<lparr>wItems := wItems w @ items\<rparr>)"
proof (induction items w rule: insertBatches.induct)
  case (1 items w)
  show ?case
  proof (cases "items = []")
    case False
    let ?w = "w\<lparr>wItems := wItems w @ take 500 items\<rparr>"
    have c: "CreateMigrationItems (take 500 items) w = (Inr (), ?w)" using False 1 by (simp add: CreateMigrationItems_def)
    have "insertBatches items w = insertBatches (drop 500 items) ?w"
      by (subst insertBatches.simps) (simp add: False c)
    also have "\<dots> = (Inr (), w\<lparr>wItems := wItems w @ items\<rparr>)"
      using 1(1)[OF False c[symmetric] refl] 1(2) by simp
    finally show ?thesis .
  qed (simp add: insertBatches.simps)
qed

text \<open>
  Starting a migration lists exactly the artifacts of the source backend: the new items, all
  pending and of the new migration, name each module version and then each provider platform stored
  there once, with its path; the recorded total is their number, the one the plan announced; nothing else changes
  but the new migration row.
\<close>

theorem StartMigration_plan:
  assumes "wFaults w = []" "StartMigration uuidParse newID src tgt user w = (Inr m, w')"
  shows "\<exists>sid sc items p. uuidParse src = Some sid \<and> find (\<lambda>c. scID c = sid) (wConfigs w) = Some sc \<and>
    w' = w\<lparr>wMigrations := wMigrations w @ [m], wItems := wItems w @ items\<rparr> \<and>
    map (\<lambda>i. (itArtifactType i, itArtifactID i, itSourcePath i)) items =
      map (\<lambda>a. (''module'', arID a, arStoragePath a)) (filter (\<lambda>a. arStorageBackend a = scBackendType sc) (wModuleVersions w)) @
      map (\<lambda>a. (''provider'', arID a, arStoragePath a)) (filter (\<lambda>a. arStorageBackend a = scBackendType sc) (wProviderPlatforms w)) \<and>
    (\<forall>i \<in> set items. itStatus i = ''pending'' \<and> itMigrationID i = mgID m) \<and>
    mgTotalArtifacts m = length items \<and> mgStatus m = ''pending'' \<and>
    PlanMigration uuidParse src tgt w = (Inr p, w) \<and> mpTotalArtifacts p = length items"
proof -
  from assms obtain sid tid where u: "uuidParse src = Some sid" "uuidParse tgt = Some tid"
    by (auto simp: StartMigration_def split: option.splits)
  with assms obtain sc tc where c: "find (\<lambda>c. scID c = sid) (wConfigs w) = Some sc" "find (\<lambda>c. scID c = tid) (wConfigs w) = Some tc"
    by (auto simp: StartMigration_def GetStorageConfig_def split: option.splits)
  let ?ms = "filter (\<lambda>a. arStorageBackend a = scBackendType sc) (wModuleVersions w)"
  let ?ps = "filter (\<lambda>a. arStorageBackend a = scBackendType sc) (wProviderPlatforms w)"
  let ?items = "map (\<lambda>(k, a). newItem (newID (Suc k)) (newID 0) ''module'' a) (zip [0..<length ?ms] ?ms) @
      map (\<lambda>(k, a). newItem (newID (Suc k)) (newID 0) ''provider'' a) (zip [length ?ms..<length ?ms + length ?ps] ?ps)"
  have z: "map (\<lambda>i. (itArtifactType i, itArtifactID i, itSourcePath i)) (map (\<lambda>(k, a). newItem (newID (Suc k)) (newID 0) t a) (zip ks as)) =
      map (\<lambda>a. (t, arID a, arStoragePath a)) as" if "length ks = length as" for t ks as
    using that by (induction ks as rule: list_induct2) (auto simp: newItem_def)
  have w': "w' = w\<lparr>wMigrations := wMigrations w @ [m], wItems := wItems w @ ?items\<rparr>" "mgID m = newID 0"
    "mgTotalArtifacts m = length ?ms + length ?ps" "mgStatus m = ''pending''"
    using assms u c by (auto simp: StartMigration_def GetStorageConfig_def GetModuleArtifacts_def GetProviderArtifacts_def
        CreateMigration_def insertBatches_ok Let_def)
  have p: "PlanMigration uuidParse src tgt w = (Inr \<lparr>mpSourceConfigID = src, mpTargetConfigID = tgt, mpModuleCount = length ?ms,
      mpProviderCount = length ?ps, mpTotalArtifacts = length ?ms + length ?ps\<rparr>, w)"
    using assms(1) u c by (simp add: PlanMigration_def GetStorageConfig_def GetModuleArtifacts_def GetProviderArtifacts_def)
  let ?plan = "\<lparr>mpSourceConfigID = src, mpTargetConfigID = tgt, mpModuleCount = length ?ms,
      mpProviderCount = length ?ps, mpTotalArtifacts = length ?ms + length ?ps\<rparr>"
  have st: "\<forall>i \<in> set ?items. itStatus i = ''pending'' \<and> itMigrationID i = newID 0" by (auto simp: newItem_def)
  have fr: "map (\<lambda>i. (itArtifactType i, itArtifactID i, itSourcePath i)) ?items =
      map (\<lambda>a. (''module'', arID a, arStoragePath a)) ?ms @ map (\<lambda>a. (''provider'', arID a, arStoragePath a)) ?ps"
    unfolding map_append by (intro arg_cong2[where f = append] z) simp_all
  have ln: "length ?items = length ?ms + length ?ps" by simp
  show ?thesis
    by (rule exI[of _ sid], rule exI[of _ sc], rule exI[of _ ?items], rule exI[of _ ?plan]) (use u c w' p st fr ln in simp)
qed

theorem StartMigration_plan_witness:
  "\<exists>m w'. StartMigration Some (\<lambda>k. natDigits k) ''s'' ''t'' [] (exWorld\<lparr>wItems := []\<rparr>) = (Inr m, w') \<and> mgTotalArtifacts m = length (wItems w')"
proof -
  let ?r = "StartMigration Some (\<lambda>k. natDigits k) ''s'' ''t'' [] (exWorld\<lparr>wItems := []\<rparr>)"
  obtain m w' where r: "?r = (Inr m, w')"
    by (auto simp: StartMigration_def GetStorageConfig_def GetModuleArtifacts_def GetProviderArtifacts_def
        CreateMigration_def insertBatches_ok Let_def exWorld_def)
  have f: "wFaults (exWorld\<lparr>wItems := []\<rparr>) = []" by (simp add: exWorld_def)
  from StartMigration_plan[OF f r] obtain items where "w' = exWorld\<lparr>wMigrations := wMigrations exWorld @ [m], wItems := items\<rparr>" "mgTotalArtifacts m = length items" by auto
  with r show ?thesis by auto
qed

end
