(* ===== verification/ApiKeys.thy ===== *)
theory ApiKeys
  imports Scopes Authn
begin

text \<open>
  Self-service administration of API keys (\<^verbatim>\<open>internal/api/admin/apikeys.go\<close>): listing, creating,
  reading, deleting, updating and rotating keys.

  The key repository and the key generator belong to the external identity module. The repository
  is the record \<open>keyrepo\<close> of operations on a state of any type; \<open>keyrepo_contract\<close> says what
  its operations do to the table, read through \<open>rows\<close>: a call that fails changes nothing, a
  successful one has the effect its name documents. The decoded request body is an argument
  (\<open>None\<close> when binding fails), as are the clock, \<^verbatim>\<open>time.Parse\<close> and \<^verbatim>\<open>time.Format\<close> for RFC 3339.
\<close>

section \<open>The key repository, a parameter\<close>

record APIKey = api_key +
  akName :: string
  akDescription :: "string option"
  akKeyPrefix :: string
  akCreatedAt :: int
  akLastUsedAt :: "int option"
  akExpiryNotificationSentAt :: "int option"
  akUserName :: "string option"

record 'd keyrepo =
  krCreate :: "APIKey \<Rightarrow> 'd \<Rightarrow> (string + APIKey) \<times> 'd"
  krGetByID :: "string \<Rightarrow> 'd \<Rightarrow> string + APIKey option"
  krUpdate :: "APIKey \<Rightarrow> 'd \<Rightarrow> (string + unit) \<times> 'd"
  krDelete :: "string \<Rightarrow> 'd \<Rightarrow> (string + unit) \<times> 'd"
  krListByOrganization :: "string \<Rightarrow> 'd \<Rightarrow> string + APIKey list"
  krListByUserAndOrganization :: "string \<Rightarrow> string \<Rightarrow> 'd \<Rightarrow> string + APIKey list"
  krListAll :: "'d \<Rightarrow> string + APIKey list"
  krListByUser :: "string \<Rightarrow> 'd \<Rightarrow> string + APIKey list"

definition keyrepo_contract :: "'d keyrepo \<Rightarrow> ('d \<Rightarrow> string \<rightharpoonup> APIKey) \<Rightarrow> bool" where
  "keyrepo_contract R rows \<longleftrightarrow>
     (\<forall>d i k. rows d i = Some k \<longrightarrow> keyID k = i) \<and>
     (\<forall>d i r. krGetByID R i d = Inr r \<longrightarrow> r = rows d i) \<and>
     (\<forall>d d' k e. krCreate R k d = (Inl e, d') \<longrightarrow> rows d' = rows d) \<and>
     (\<forall>d d' k k'. krCreate R k d = (Inr k', d') \<longrightarrow>
        (\<exists>i. rows d i = None \<and> k' = k\<lparr>keyID := i\<rparr> \<and> rows d' = (rows d)(i \<mapsto> k'))) \<and>
     (\<forall>d d' k e. krUpdate R k d = (Inl e, d') \<longrightarrow> rows d' = rows d) \<and>
     (\<forall>d d' old n s x. rows d (keyID old) = Some old \<longrightarrow>
        krUpdate R (old\<lparr>keyScopes := s, keyExpiresAt := x, akName := n\<rparr>) d = (Inr (), d') \<longrightarrow>
        rows d' = (rows d)(keyID old \<mapsto> old\<lparr>keyScopes := s, keyExpiresAt := x, akName := n\<rparr>)) \<and>
     (\<forall>d d' i e. krDelete R i d = (Inl e, d') \<longrightarrow> rows d' = rows d) \<and>
     (\<forall>d d' i. krDelete R i d = (Inr (), d') \<longrightarrow> rows d' = (rows d)(i := None)) \<and>
     (\<forall>d org ks. krListByOrganization R org d = Inr ks \<longrightarrow> set ks = {k \<in> ran (rows d). keyOrganizationID k = org}) \<and>
     (\<forall>d u org ks. krListByUserAndOrganization R u org d = Inr ks \<longrightarrow>
        set ks = {k \<in> ran (rows d). keyUserID k = Some u \<and> keyOrganizationID k = org}) \<and>
     (\<forall>d ks. krListAll R d = Inr ks \<longrightarrow> set ks = ran (rows d)) \<and>
     (\<forall>d u ks. krListByUser R u d = Inr ks \<longrightarrow> set ks = {k \<in> ran (rows d). keyUserID k = Some u})"

section \<open>Requests and responses\<close>

record CreateAPIKeyRequest =
  crName :: string
  crOrganizationID :: string
  crDescription :: "string option"
  crScopes :: "string list"
  crExpiresAt :: "string option"

record CreateAPIKeyResponse =
  rsID :: string
  rsName :: string
  rsDescription :: "string option"
  rsKey :: string
  rsKeyPrefix :: string
  rsScopes :: "string list"
  rsExpiresAt :: "int option"
  rsCreatedAt :: int

record update_request =
  urName :: "string option"
  urScopes :: "string list option"
  urExpiresAt :: "string option"

record RotateAPIKeyRequest =
  GracePeriodHours :: int

record key_view =
  kvID :: string
  kvUserID :: "string option"
  kvUserName :: "string option"
  kvName :: string
  kvDescription :: string
  kvKeyPrefix :: string
  kvScopes :: "string list"
  kvExpiresAt :: "string option"
  kvLastUsedAt :: "string option"
  kvExpiryNotificationSentAt :: "string option"
  kvCreatedAt :: string

text \<open>
  What a handler writes: an error with its status, the 403 that names the scope in excess, or the
  body of a success. \<open>KPanic\<close> is the nil dereference of the role name in that 403.
\<close>

datatype key_response =
    KError nat string
  | KScopeDenied string "string list" string
  | KPanic
  | KList "key_view list"
  | KCreated CreateAPIKeyResponse
  | KKey APIKey
  | KMessage string
  | KRotated CreateAPIKeyResponse string "int option"

fun keyStatus :: "key_response \<Rightarrow> nat" where
  "keyStatus (KError st e) = st"
| "keyStatus (KScopeDenied s a r) = 403"
| "keyStatus KPanic = 500"
| "keyStatus (KCreated r) = 201"
| "keyStatus (KList ks) = 200"
| "keyStatus (KKey k) = 200"
| "keyStatus (KMessage s) = 200"
| "keyStatus (KRotated r s x) = 200"

abbreviation StatusNotFound :: nat where "StatusNotFound \<equiv> 404"

section \<open>The handlers\<close>

definition keyView :: "(int \<Rightarrow> string) \<Rightarrow> APIKey \<Rightarrow> key_view" where
  "keyView fmt k =
     \<lparr>kvID = keyID k, kvUserID = keyUserID k, kvUserName = akUserName k, kvName = akName k,
      kvDescription = (case akDescription k of None \<Rightarrow> '''' | Some s \<Rightarrow> s),
      kvKeyPrefix = akKeyPrefix k, kvScopes = keyScopes k,
      kvExpiresAt = map_option fmt (keyExpiresAt k), kvLastUsedAt = map_option fmt (akLastUsedAt k),
      kvExpiryNotificationSentAt = map_option fmt (akExpiryNotificationSentAt k),
      kvCreatedAt = fmt (akCreatedAt k)\<rparr>"

definition ListAPIKeysHandler ::
  "identity \<Rightarrow> 'd keyrepo \<Rightarrow> (int \<Rightarrow> string) \<Rightarrow> string \<Rightarrow> gin \<Rightarrow> 'd \<Rightarrow> key_response" where
  "ListAPIKeysHandler I R fmt orgID c d =
     (case cGet c ''user_id'' of
        None \<Rightarrow> KError StatusUnauthorized ''User not authenticated''
      | Some (GStr userID) \<Rightarrow>
          let scopes = ctxStrings c ''scopes'';
              canManageAll = HasScope I scopes (idScopeAPIKeysManage I) \<or> HasScope I scopes (idScopeAdmin I);
              keys = (if orgID \<noteq> [] then
                        (if canManageAll then krListByOrganization R orgID d
                         else krListByUserAndOrganization R userID orgID d)
                      else if canManageAll then krListAll R d
                      else krListByUser R userID d)
          in (case keys of
                Inl e \<Rightarrow> KError StatusInternalServerError ''Failed to list API keys''
              | Inr ks \<Rightarrow> KList (map (keyView fmt) ks))
      | Some _ \<Rightarrow> KError StatusInternalServerError ''Invalid user ID format'')"

text \<open>The scope ceiling of a membership: the first requested scope the role does not list, if any.\<close>

definition exceedingScope :: "member_with_role \<Rightarrow> string list \<Rightarrow> string option" where
  "exceedingScope m requested =
     (if list_ex (\<lambda>s. s = ''admin'') (memberRoleTemplateScopes m) then None
      else find (\<lambda>s. \<not> List.member (memberRoleTemplateScopes m) s) requested)"

definition scopeDenied :: "member_with_role \<Rightarrow> string \<Rightarrow> key_response" where
  "scopeDenied m s =
     (case memberRoleTemplateName m of
        None \<Rightarrow> KPanic
      | Some n \<Rightarrow> KScopeDenied (''Scope '' @ [CHR 39] @ s @ [CHR 39] @ '' exceeds your role permissions for this organization'')
                    (memberRoleTemplateScopes m) n)"

definition createdResponse :: "string \<Rightarrow> string \<Rightarrow> APIKey \<Rightarrow> CreateAPIKeyResponse" where
  "createdResponse fullKey displayPrefix k =
     \<lparr>rsID = keyID k, rsName = akName k, rsDescription = None, rsKey = fullKey, rsKeyPrefix = displayPrefix,
      rsScopes = keyScopes k, rsExpiresAt = keyExpiresAt k, rsCreatedAt = akCreatedAt k\<rparr>"

text \<open>\<open>None\<close> for the expiry of the request is no expiry; \<open>gen\<close> is \<^verbatim>\<open>auth.GenerateAPIKey\<close>: key, hash, prefix.\<close>

definition CreateAPIKeyHandler ::
  "identity \<Rightarrow> orgstore \<Rightarrow> (string + string option) \<Rightarrow> 'd keyrepo \<Rightarrow> (string \<Rightarrow> int option) \<Rightarrow>
   (string + string \<times> string \<times> string) \<Rightarrow> int \<Rightarrow> CreateAPIKeyRequest option \<Rightarrow> gin \<Rightarrow> 'd \<Rightarrow> key_response \<times> 'd" where
  "CreateAPIKeyHandler I os defaultOrg R parseTime gen now req c d =
     (case req of
        None \<Rightarrow> (KError StatusBadRequest ''Invalid request'', d)
      | Some r \<Rightarrow>
     (case cGet c ''user_id'' of
        None \<Rightarrow> (KError StatusUnauthorized ''User not authenticated'', d)
      | Some (GStr userID) \<Rightarrow>
     (case ValidateScopes I (crScopes r) of
        Inl e \<Rightarrow> (KError StatusBadRequest (''Invalid scopes: '' @ e), d)
      | Inr _ \<Rightarrow>
     (case (if crOrganizationID r = ''default'' \<or> crOrganizationID r = [] then
              (case defaultOrg of
                 Inl e \<Rightarrow> Inl ''Failed to get default organization''
               | Inr None \<Rightarrow> Inl ''Default organization not found''
               | Inr (Some o1) \<Rightarrow> Inr o1)
            else Inr (crOrganizationID r)) of
        Inl e \<Rightarrow> (KError StatusInternalServerError e, d)
      | Inr orgID \<Rightarrow>
     (case osGetMemberWithRole os orgID userID of
        Inl e \<Rightarrow> (KError StatusInternalServerError ''Failed to get user role information'', d)
      | Inr None \<Rightarrow> (KError StatusForbidden ''You are not a member of this organization'', d)
      | Inr (Some m) \<Rightarrow>
          if memberRoleTemplateID m = None then
            (KError StatusForbidden ''No role template assigned for this organization. Contact an administrator to assign a role.'', d)
          else
     (case exceedingScope m (crScopes r) of
        Some s \<Rightarrow> (scopeDenied m s, d)
      | None \<Rightarrow>
     (case (case crExpiresAt r of None \<Rightarrow> Some None | Some s \<Rightarrow> map_option Some (parseTime s)) of
        None \<Rightarrow> (KError StatusBadRequest ''Invalid expires_at format. Use RFC3339'', d)
      | Some expiresAt \<Rightarrow>
     (case gen of
        Inl e \<Rightarrow> (KError StatusInternalServerError ''Failed to generate API key'', d)
      | Inr (fullKey, hash, displayPrefix) \<Rightarrow>
          let apiKey = \<lparr>keyID = [], keyHash = hash, keyOrganizationID = orgID, keyUserID = Some userID,
                 keyScopes = crScopes r, keyExpiresAt = expiresAt, akName = crName r,
                 akDescription = crDescription r, akKeyPrefix = displayPrefix, akCreatedAt = now,
                 akLastUsedAt = None, akExpiryNotificationSentAt = None, akUserName = None\<rparr>
          in (case krCreate R apiKey d of
                (Inl e, d1) \<Rightarrow> (KError StatusInternalServerError ''Failed to create API key'', d1)
              | (Inr k, d1) \<Rightarrow> (KCreated (createdResponse fullKey displayPrefix k), d1))))))))
      | Some _ \<Rightarrow> (KError StatusInternalServerError ''Invalid user ID format'', d)))"

text \<open>The authorization block of the handlers below: the owner, or a caller with the admin scope.\<close>

definition mayAccessKey :: "identity \<Rightarrow> gin \<Rightarrow> APIKey \<Rightarrow> bool" where
  "mayAccessKey I c k \<longleftrightarrow>
     keyUserID k = Some (cGetString c ''user_id'') \<or> HasScope I (ctxStrings c ''scopes'') (idScopeAdmin I)"

text \<open>Loading the key named in the path and the authorization block, as the four handlers below begin.\<close>

definition loadKey :: "identity \<Rightarrow> 'd keyrepo \<Rightarrow> gin \<Rightarrow> 'd \<Rightarrow> key_response + APIKey" where
  "loadKey I R c d =
     (case krGetByID R (reqParam (ginReq c) ''id'') d of
        Inl e \<Rightarrow> Inl (KError StatusInternalServerError ''Failed to retrieve API key'')
      | Inr None \<Rightarrow> Inl (KError StatusNotFound ''API key not found'')
      | Inr (Some k) \<Rightarrow>
          if \<not> mayAccessKey I c k then Inl (KError StatusForbidden ''Access denied'') else Inr k)"

definition GetAPIKeyHandler :: "identity \<Rightarrow> 'd keyrepo \<Rightarrow> gin \<Rightarrow> 'd \<Rightarrow> key_response" where
  "GetAPIKeyHandler I R c d = (case loadKey I R c d of Inl e \<Rightarrow> e | Inr k \<Rightarrow> KKey k)"

definition DeleteAPIKeyHandler :: "identity \<Rightarrow> 'd keyrepo \<Rightarrow> gin \<Rightarrow> 'd \<Rightarrow> key_response \<times> 'd" where
  "DeleteAPIKeyHandler I R c d =
     (case loadKey I R c d of
        Inl e \<Rightarrow> (e, d)
      | Inr k \<Rightarrow>
          (case krDelete R (reqParam (ginReq c) ''id'') d of
             (Inl e, d1) \<Rightarrow> (KError StatusInternalServerError ''Failed to delete API key'', d1)
           | (Inr _, d1) \<Rightarrow> (KMessage ''API key deleted successfully'', d1)))"

text \<open>The scope part of an update: the response that ends the request, or the key's new scopes.\<close>

definition updateScopes ::
  "identity \<Rightarrow> orgstore \<Rightarrow> gin \<Rightarrow> APIKey \<Rightarrow> string list option \<Rightarrow> key_response + string list" where
  "updateScopes I os c k requested =
     (case requested of
        None \<Rightarrow> Inr (keyScopes k)
      | Some ss \<Rightarrow>
     (case ValidateScopes I ss of
        Inl e \<Rightarrow> Inl (KError StatusBadRequest (''Invalid scopes: '' @ e))
      | Inr _ \<Rightarrow>
     (case osGetMemberWithRole os (keyOrganizationID k) (cGetString c ''user_id'') of
        Inl e \<Rightarrow> Inl (KError StatusInternalServerError ''Failed to get user role information'')
      | Inr None \<Rightarrow> Inr ss
      | Inr (Some m) \<Rightarrow>
          if memberRoleTemplateID m = None then Inr ss
          else (case exceedingScope m ss of Some s \<Rightarrow> Inl (scopeDenied m s) | None \<Rightarrow> Inr ss))))"

definition UpdateAPIKeyHandler ::
  "identity \<Rightarrow> orgstore \<Rightarrow> 'd keyrepo \<Rightarrow> (string \<Rightarrow> int option) \<Rightarrow> update_request option \<Rightarrow> gin \<Rightarrow> 'd \<Rightarrow>
   key_response \<times> 'd" where
  "UpdateAPIKeyHandler I os R parseTime req c d =
     (case req of
        None \<Rightarrow> (KError StatusBadRequest ''Invalid request'', d)
      | Some r \<Rightarrow>
     (case loadKey I R c d of
        Inl e \<Rightarrow> (e, d)
      | Inr k \<Rightarrow>
     (case updateScopes I os c k (urScopes r) of
        Inl e \<Rightarrow> (e, d)
      | Inr ss \<Rightarrow>
     (case (case urExpiresAt r of None \<Rightarrow> Some (keyExpiresAt k) | Some s \<Rightarrow> map_option Some (parseTime s)) of
        None \<Rightarrow> (KError StatusBadRequest ''Invalid expires_at format. Use RFC3339'', d)
      | Some x \<Rightarrow>
          let k1 = k\<lparr>keyScopes := ss, keyExpiresAt := x,
                     akName := (case urName r of None \<Rightarrow> akName k | Some n \<Rightarrow> n)\<rparr>
          in (case krUpdate R k1 d of
                (Inl e, d1) \<Rightarrow> (KError StatusInternalServerError ''Failed to update API key'', d1)
              | (Inr _, d1) \<Rightarrow> (KKey k1, d1))))))"

definition Hour :: int where "Hour = 3600 * 10 ^ 9"

text \<open>What becomes of the old key: its reported status and expiry. \<open>now\<close> is the second reading of the clock.\<close>

definition retireOldKey ::
  "'d keyrepo \<Rightarrow> int \<Rightarrow> int \<Rightarrow> APIKey \<Rightarrow> 'd \<Rightarrow> (string \<times> int option) \<times> 'd" where
  "retireOldKey R now hours old d =
     (if hours = 0 then
        (case krDelete R (keyID old) d of
           (Inl e, d1) \<Rightarrow> ((''revocation_failed'', None), d1)
         | (Inr _, d1) \<Rightarrow> ((''revoked'', None), d1))
      else
        let gracePeriodEnd = now + hours * Hour in
        (case krUpdate R (old\<lparr>keyExpiresAt := Some gracePeriodEnd\<rparr>) d of
           (Inl e, d1) \<Rightarrow> ((''grace_period_update_failed'', None), d1)
         | (Inr _, d1) \<Rightarrow> ((''expires_at'', Some gracePeriodEnd), d1)))"

definition RotateAPIKeyHandler ::
  "identity \<Rightarrow> 'd keyrepo \<Rightarrow> (string + string \<times> string \<times> string) \<Rightarrow> int \<Rightarrow> int \<Rightarrow>
   RotateAPIKeyRequest option \<Rightarrow> gin \<Rightarrow> 'd \<Rightarrow> key_response \<times> 'd" where
  "RotateAPIKeyHandler I R gen now1 now2 req c d =
     (let hours = (case req of None \<Rightarrow> 0 | Some r \<Rightarrow> GracePeriodHours r) in
      if hours < 0 \<or> hours > 72 then
        (KError StatusBadRequest ''grace_period_hours must be between 0 and 72'', d)
      else
     (case loadKey I R c d of
        Inl e \<Rightarrow> (e, d)
      | Inr old \<Rightarrow>
     (case gen of
        Inl e \<Rightarrow> (KError StatusInternalServerError ''Failed to generate new API key'', d)
      | Inr (fullKey, hash, displayPrefix) \<Rightarrow>
          let newKey = \<lparr>keyID = [], keyHash = hash, keyOrganizationID = keyOrganizationID old,
                 keyUserID = keyUserID old, keyScopes = keyScopes old, keyExpiresAt = keyExpiresAt old,
                 akName = akName old @ '' (rotated)'', akDescription = akDescription old,
                 akKeyPrefix = displayPrefix, akCreatedAt = now1, akLastUsedAt = None,
                 akExpiryNotificationSentAt = None, akUserName = None\<rparr>
          in (case krCreate R newKey d of
                (Inl e, d1) \<Rightarrow> (KError StatusInternalServerError ''Failed to create new API key'', d1)
              | (Inr k, d1) \<Rightarrow>
                  (case retireOldKey R now2 hours old d1 of
                     ((st, x), d2) \<Rightarrow> (KRotated (createdResponse fullKey displayPrefix k) st x, d2))))))"

section \<open>Lemmas\<close>

lemmas contract_laws = keyrepo_contract_def[THEN iffD1]
lemmas contract_ID = contract_laws[THEN conjunct1, rule_format]
lemmas contract_Get = contract_laws[THEN conjunct2, THEN conjunct1, rule_format]
lemmas contract_Create_Inl = contract_laws[THEN conjunct2, THEN conjunct2, THEN conjunct1, rule_format]
lemmas contract_Create_Inr = contract_laws[THEN conjunct2, THEN conjunct2, THEN conjunct2, THEN conjunct1, rule_format]
lemmas contract_Update_Inl = contract_laws[THEN conjunct2, THEN conjunct2, THEN conjunct2, THEN conjunct2, THEN conjunct1, rule_format]
lemmas contract_Update_Inr = contract_laws[THEN conjunct2, THEN conjunct2, THEN conjunct2, THEN conjunct2, THEN conjunct2, THEN conjunct1, rule_format]
lemmas contract_Delete_Inl = contract_laws[THEN conjunct2, THEN conjunct2, THEN conjunct2, THEN conjunct2, THEN conjunct2, THEN conjunct2, THEN conjunct1, rule_format]
lemmas contract_Delete_Inr = contract_laws[THEN conjunct2, THEN conjunct2, THEN conjunct2, THEN conjunct2, THEN conjunct2, THEN conjunct2, THEN conjunct2, THEN conjunct1, rule_format]

lemma contract_Delete:
  assumes "keyrepo_contract R rows" "krDelete R i d = (r, d')"
  shows "rows d' = (case r of Inl e \<Rightarrow> rows d | Inr _ \<Rightarrow> (rows d)(i := None))"
  using assms contract_Delete_Inl[OF assms(1), of i d _ d'] contract_Delete_Inr[OF assms(1), of i d d'] by (cases r) auto

lemma contract_Update:
  assumes "keyrepo_contract R rows" "rows d (keyID old) = Some old"
    "krUpdate R (old\<lparr>keyScopes := s, keyExpiresAt := x, akName := n\<rparr>) d = (r, d')"
  shows "rows d' = (case r of Inl e \<Rightarrow> rows d
    | Inr _ \<Rightarrow> (rows d)(keyID old \<mapsto> old\<lparr>keyScopes := s, keyExpiresAt := x, akName := n\<rparr>))"
  using assms(3) contract_Update_Inl[OF assms(1), of _ d _ d'] contract_Update_Inr[OF assms(1,2)] by (cases r) auto

lemma loadKey_Inr:
  assumes "keyrepo_contract R rows" "loadKey I R c d = Inr k"
  shows "rows d (reqParam (ginReq c) ''id'') = Some k \<and> keyID k = reqParam (ginReq c) ''id'' \<and> mayAccessKey I c k"
proof -
  from assms(2) have g: "krGetByID R (reqParam (ginReq c) ''id'') d = Inr (Some k)" and m: "mayAccessKey I c k"
    by (auto simp: loadKey_def split: sum.splits option.splits if_splits)
  from contract_Get[OF assms(1) g] m show ?thesis using contract_ID[OF assms(1)] by auto
qed

lemma exceedingScope_None:
  "exceedingScope m ss = None \<longleftrightarrow> ''admin'' \<in> set (memberRoleTemplateScopes m) \<or> set ss \<subseteq> set (memberRoleTemplateScopes m)"
  by (auto simp: exceedingScope_def list_ex_iff find_None_iff)

lemma ValidateScopes_Inr: "ValidateScopes I ss = Inr u \<Longrightarrow> set ss \<subseteq> set (AllScopes I)"
  using ValidateScopesLoop_ok[of "ValidScopes I" ss] by (auto simp: ValidateScopes_def ValidScopes_iff)

lemma map_option_Some_eq: "map_option Some y = Some x \<longleftrightarrow> y \<noteq> None \<and> x = y"
  by (cases y; cases x) auto

text \<open>A key as the create handler hands it to the repository.\<close>

definition draftKey :: "CreateAPIKeyRequest \<Rightarrow> string \<Rightarrow> string \<Rightarrow> string \<Rightarrow> string \<Rightarrow> int option \<Rightarrow> int \<Rightarrow> APIKey" where
  "draftKey r userID orgID hash pre x now =
     \<lparr>keyID = [], keyHash = hash, keyOrganizationID = orgID, keyUserID = Some userID,
                 keyScopes = crScopes r, keyExpiresAt = x, akName = crName r,
                 akDescription = crDescription r, akKeyPrefix = pre, akCreatedAt = now,
                 akLastUsedAt = None, akExpiryNotificationSentAt = None, akUserName = None\<rparr>"

definition createAllowed where
  "createAllowed I os defaultOrg parseTime c r userID orgID m x \<longleftrightarrow>
       cGet c ''user_id'' = Some (GStr userID) \<and> set (crScopes r) \<subseteq> set (AllScopes I) \<and>
       (if crOrganizationID r = ''default'' \<or> crOrganizationID r = [] then defaultOrg = Inr (Some orgID)
        else orgID = crOrganizationID r) \<and>
       osGetMemberWithRole os orgID userID = Inr (Some m) \<and> memberRoleTemplateID m \<noteq> None \<and>
       (''admin'' \<in> set (memberRoleTemplateScopes m) \<or> set (crScopes r) \<subseteq> set (memberRoleTemplateScopes m)) \<and>
       (case crExpiresAt r of None \<Rightarrow> x = None | Some s \<Rightarrow> parseTime s \<noteq> None \<and> x = parseTime s)"

lemma scopeDenied_status [simp]: "keyStatus (scopeDenied m s) \<noteq> 201"
  by (simp add: scopeDenied_def split: option.splits)

lemma CreateAPIKeyHandler_cases:
  assumes "CreateAPIKeyHandler I os defaultOrg R parseTime gen now req c d = (resp, d')"
  shows "(keyStatus resp \<noteq> 201 \<and> d' = d) \<or>
    (\<exists>r userID orgID m x fullKey hash pre.
       req = Some r \<and> createAllowed I os defaultOrg parseTime c r userID orgID m x \<and> gen = Inr (fullKey, hash, pre) \<and>
       (case krCreate R (draftKey r userID orgID hash pre x now) d of
          (Inl e, d1) \<Rightarrow> keyStatus resp = 500 \<and> d' = d1
        | (Inr k, d1) \<Rightarrow> resp = KCreated (createdResponse fullKey pre k) \<and> d' = d1))"
proof (cases "keyStatus resp \<noteq> 201 \<and> d' = d")
  case False
  note a = assms[unfolded CreateAPIKeyHandler_def]
  from a False obtain r where r: "req = Some r" by (cases req) auto
  from a False r obtain u where u: "cGet c ''user_id'' = Some (GStr u)" 
    by (auto split: option.splits gval.splits)
  note a = a[unfolded r u option.case gval.case]
  from a False obtain w where v: "ValidateScopes I (crScopes r) = Inr w" by (cases "ValidateScopes I (crScopes r)") auto
  note a = a[unfolded v sum.case]
  from a False obtain orgID where o: "(if crOrganizationID r = ''default'' \<or> crOrganizationID r = [] then
              (case defaultOrg of
                 Inl e \<Rightarrow> Inl ''Failed to get default organization''
               | Inr None \<Rightarrow> Inl ''Default organization not found''
               | Inr (Some o1) \<Rightarrow> Inr o1)
            else Inr (crOrganizationID r)) = Inr orgID" by (fastforce split: sum.splits)
  note a = a[unfolded o sum.case]
  from a False obtain m where m: "osGetMemberWithRole os orgID u = Inr (Some m)" "memberRoleTemplateID m \<noteq> None"
    by (auto split: sum.splits option.splits if_splits)
  note a = a[unfolded m sum.case option.case if_not_P[OF m(2)]]
  from a False have e: "exceedingScope m (crScopes r) = None" by (cases "exceedingScope m (crScopes r)") auto
  note a = a[unfolded e option.case]
  from a False obtain x where x: "(case crExpiresAt r of None \<Rightarrow> Some None | Some s \<Rightarrow> map_option Some (parseTime s)) = Some x"
    by (fastforce split: option.splits)
  note a = a[unfolded x option.case]
  from a False obtain fk h p where g: "gen = Inr (fk, h, p)" by (cases gen) auto
  note a = a[unfolded g sum.case prod.case Let_def, folded draftKey_def]
  have "createAllowed I os defaultOrg parseTime c r u orgID m x"
    unfolding createAllowed_def using u ValidateScopes_Inr[OF v] o m e x
    by (auto simp: exceedingScope_None map_option_Some_eq simp del: map_option_eq_Some split: option.splits sum.splits if_splits)
  moreover have "(case krCreate R (draftKey r u orgID h p x now) d of
          (Inl e, d1) \<Rightarrow> keyStatus resp = 500 \<and> d' = d1
        | (Inr k, d1) \<Rightarrow> resp = KCreated (createdResponse fk p k) \<and> d' = d1)"
    using a by (auto split: prod.splits sum.splits)
  ultimately show ?thesis using r g by (intro disjI2 exI conjI)
qed simp

lemma CreateAPIKeyHandler_rows:
  assumes R: "keyrepo_contract R rows"
    and h: "CreateAPIKeyHandler I os defaultOrg R parseTime gen now req c d = (resp, d')"
  shows "(keyStatus resp \<noteq> 201 \<and> rows d' = rows d) \<or>
    (\<exists>r userID orgID m x fullKey hash pre i.
       req = Some r \<and> createAllowed I os defaultOrg parseTime c r userID orgID m x \<and> gen = Inr (fullKey, hash, pre) \<and>
       resp = KCreated (createdResponse fullKey pre ((draftKey r userID orgID hash pre x now)\<lparr>keyID := i\<rparr>)) \<and>
       rows d i = None \<and> rows d' = (rows d)(i \<mapsto> (draftKey r userID orgID hash pre x now)\<lparr>keyID := i\<rparr>))"
  using CreateAPIKeyHandler_cases[OF h]
proof (elim disjE exE conjE)
  fix r userID orgID m x fullKey hash pre
  let ?k = "draftKey r userID orgID hash pre x now"
  assume 1: "req = Some r" "createAllowed I os defaultOrg parseTime c r userID orgID m x" "gen = Inr (fullKey, hash, pre)"
    and 2: "case krCreate R ?k d of (Inl e, d1) \<Rightarrow> keyStatus resp = 500 \<and> d' = d1
        | (Inr k, d1) \<Rightarrow> resp = KCreated (createdResponse fullKey pre k) \<and> d' = d1"
  obtain q d1 where q: "krCreate R ?k d = (q, d1)" by (cases "krCreate R ?k d")
  show ?thesis
  proof (cases q)
    case (Inl e)
    with q 2 contract_Create_Inl[OF R, of ?k d e d1] show ?thesis by simp
  next
    case (Inr k)
    with q contract_Create_Inr[OF R, of ?k d k d1] obtain i where
      "rows d i = None" "k = ?k\<lparr>keyID := i\<rparr>" "rows d1 = (rows d)(i \<mapsto> k)" by auto
    moreover from this(2) 2 q Inr have "resp = KCreated (createdResponse fullKey pre (?k\<lparr>keyID := i\<rparr>))" "d' = d1" by auto
    ultimately show ?thesis using 1 by blast
  qed
qed simp

lemma DeleteAPIKeyHandler_rows:
  assumes R: "keyrepo_contract R rows" and h: "DeleteAPIKeyHandler I R c d = (resp, d')"
  shows "(keyStatus resp \<noteq> 200 \<and> rows d' = rows d) \<or>
    (\<exists>k. rows d (reqParam (ginReq c) ''id'') = Some k \<and> mayAccessKey I c k \<and>
         rows d' = (rows d)(reqParam (ginReq c) ''id'' := None))"
proof (cases "loadKey I R c d")
  case (Inl e)
  then have "keyStatus e \<noteq> 200" by (auto simp: loadKey_def split: sum.splits option.splits if_splits)
  with h Inl show ?thesis by (simp add: DeleteAPIKeyHandler_def)
next
  case (Inr k)
  obtain q d1 where q: "krDelete R (reqParam (ginReq c) ''id'') d = (q, d1)" by fastforce
  with h Inr contract_Delete[OF R q] loadKey_Inr[OF R Inr] show ?thesis
    by (auto simp: DeleteAPIKeyHandler_def split: sum.splits)
qed

lemma updateScopes_error: "updateScopes I os c k rq = Inl e \<Longrightarrow> keyStatus e \<noteq> 200"
  by (auto simp: updateScopes_def scopeDenied_def split: option.splits sum.splits if_splits)

lemma loadKey_error: "loadKey I R c d = Inl e \<Longrightarrow> keyStatus e \<noteq> 200"
  by (auto simp: loadKey_def split: sum.splits option.splits if_splits)

lemma UpdateAPIKeyHandler_rows:
  assumes R: "keyrepo_contract R rows" and h: "UpdateAPIKeyHandler I os R parseTime req c d = (resp, d')"
  shows "(keyStatus resp \<noteq> 200 \<and> rows d' = rows d) \<or>
    (\<exists>r k ss x. req = Some r \<and> rows d (reqParam (ginReq c) ''id'') = Some k \<and> mayAccessKey I c k \<and>
       updateScopes I os c k (urScopes r) = Inr ss \<and>
       (case urExpiresAt r of None \<Rightarrow> x = keyExpiresAt k | Some s \<Rightarrow> parseTime s \<noteq> None \<and> x = parseTime s) \<and>
       rows d' = (rows d)(reqParam (ginReq c) ''id'' \<mapsto> k\<lparr>keyScopes := ss, keyExpiresAt := x,
                     akName := (case urName r of None \<Rightarrow> akName k | Some n \<Rightarrow> n)\<rparr>))"
proof (cases "keyStatus resp \<noteq> 200 \<and> rows d' = rows d")
  case False
  note a = h[unfolded UpdateAPIKeyHandler_def]
  from a False obtain r where r: "req = Some r" by (cases req) auto
  note a = a[unfolded r option.case]
  from a False obtain k where k: "loadKey I R c d = Inr k" by (cases "loadKey I R c d") (auto dest: loadKey_error)
  note a = a[unfolded k sum.case]
  from a False obtain ss where s: "updateScopes I os c k (urScopes r) = Inr ss"
    by (cases "updateScopes I os c k (urScopes r)") (auto dest: updateScopes_error)
  note a = a[unfolded s sum.case]
  from a False obtain x where x: "(case urExpiresAt r of None \<Rightarrow> Some (keyExpiresAt k) | Some s \<Rightarrow> map_option Some (parseTime s)) = Some x"
    by (fastforce split: option.splits)
  note a = a[unfolded x option.case Let_def]
  note l = loadKey_Inr[OF R k]
  let ?k1 = "k\<lparr>keyScopes := ss, keyExpiresAt := x, akName := (case urName r of None \<Rightarrow> akName k | Some n \<Rightarrow> n)\<rparr>"
  obtain q d1 where q: "krUpdate R ?k1 d = (q, d1)" by (cases "krUpdate R ?k1 d")
  from l have "rows d (keyID k) = Some k" by simp
  from contract_Update[OF R this q] a q l False have "rows d' = (rows d)(reqParam (ginReq c) ''id'' \<mapsto> ?k1)"
    by (auto split: sum.splits)
  moreover from x have "case urExpiresAt r of None \<Rightarrow> x = keyExpiresAt k | Some s \<Rightarrow> parseTime s \<noteq> None \<and> x = parseTime s"
    by (simp add: map_option_Some_eq del: map_option_eq_Some split: option.splits)
  ultimately show ?thesis using r s l by blast
qed simp

text \<open>The key that rotation creates.\<close>

definition rotatedKey :: "APIKey \<Rightarrow> string \<Rightarrow> string \<Rightarrow> int \<Rightarrow> APIKey" where
  "rotatedKey old hash pre now =
     \<lparr>keyID = [], keyHash = hash, keyOrganizationID = keyOrganizationID old,
                 keyUserID = keyUserID old, keyScopes = keyScopes old, keyExpiresAt = keyExpiresAt old,
                 akName = akName old @ '' (rotated)'', akDescription = akDescription old,
                 akKeyPrefix = pre, akCreatedAt = now, akLastUsedAt = None,
                 akExpiryNotificationSentAt = None, akUserName = None\<rparr>"

lemma retireOldKey_rows:
  assumes R: "keyrepo_contract R rows" and o: "rows d (keyID old) = Some old"
    and h: "retireOldKey R now hours old d = ((st, x), d')"
  shows "st = ''revoked'' \<and> hours = 0 \<and> rows d' = (rows d)(keyID old := None) \<or>
    st = ''expires_at'' \<and> rows d' = (rows d)(keyID old \<mapsto> old\<lparr>keyExpiresAt := Some (now + hours * Hour)\<rparr>) \<or>
    st \<noteq> ''revoked'' \<and> st \<noteq> ''expires_at'' \<and> rows d' = rows d"
proof (cases "hours = 0")
  case True
  obtain q d1 where q: "krDelete R (keyID old) d = (q, d1)" by fastforce
  with h True contract_Delete[OF R q] show ?thesis by (auto simp: retireOldKey_def split: sum.splits)
next
  case False
  let ?k = "old\<lparr>keyExpiresAt := Some (now + hours * Hour)\<rparr>"
  have k: "?k = old\<lparr>keyScopes := keyScopes old, keyExpiresAt := Some (now + hours * Hour), akName := akName old\<rparr>" by simp
  obtain q d1 where q: "krUpdate R ?k d = (q, d1)" by fastforce
  from h False q contract_Update[OF R o q[unfolded k]] show ?thesis
    by (auto simp: retireOldKey_def Let_def split: sum.splits)
qed

lemma RotateAPIKeyHandler_rows:
  assumes R: "keyrepo_contract R rows" and h: "RotateAPIKeyHandler I R gen now1 now2 req c d = (resp, d')"
  shows "(keyStatus resp \<noteq> 200 \<and> rows d' = rows d) \<or>
    (\<exists>old fullKey hash pre i st x hours. gen = Inr (fullKey, hash, pre) \<and> 0 \<le> hours \<and> hours \<le> 72 \<and>
       hours = (case req of None \<Rightarrow> 0 | Some r \<Rightarrow> GracePeriodHours r) \<and>
       rows d (reqParam (ginReq c) ''id'') = Some old \<and> keyID old = reqParam (ginReq c) ''id'' \<and> mayAccessKey I c old \<and> rows d i = None \<and>
       resp = KRotated (createdResponse fullKey pre ((rotatedKey old hash pre now1)\<lparr>keyID := i\<rparr>)) st x \<and>
       (let t = (rows d)(i \<mapsto> (rotatedKey old hash pre now1)\<lparr>keyID := i\<rparr>) in
        st = ''revoked'' \<and> hours = 0 \<and> rows d' = t(keyID old := None) \<or>
        st = ''expires_at'' \<and> rows d' = t(keyID old \<mapsto> old\<lparr>keyExpiresAt := Some (now2 + hours * Hour)\<rparr>) \<or>
        st \<noteq> ''revoked'' \<and> st \<noteq> ''expires_at'' \<and> rows d' = t))"
proof (cases "keyStatus resp \<noteq> 200 \<and> rows d' = rows d")
  case False
  let ?hours = "case req of None \<Rightarrow> 0 | Some r \<Rightarrow> GracePeriodHours r"
  note a = h[unfolded RotateAPIKeyHandler_def Let_def]
  from a False have hr: "\<not> (?hours < 0 \<or> ?hours > 72)" by (auto split: if_splits)
  note a = a[unfolded if_not_P[OF hr]]
  from a False obtain k where k: "loadKey I R c d = Inr k" by (cases "loadKey I R c d") (auto dest: loadKey_error)
  note a = a[unfolded k sum.case]
  note l = loadKey_Inr[OF R k]
  from a False obtain fk hs p where g: "gen = Inr (fk, hs, p)" by (cases gen) auto
  note a = a[unfolded g sum.case prod.case, folded rotatedKey_def]
  let ?n = "rotatedKey k hs p now1"
  obtain q d1 where q: "krCreate R ?n d = (q, d1)" by (cases "krCreate R ?n d")
  note a = a[unfolded q prod.case]
  from a False obtain n where n: "q = Inr n" 
    using contract_Create_Inl[OF R, of ?n d _ d1] q by (cases q) auto
  from contract_Create_Inr[OF R q[unfolded n]] obtain i where
    i: "rows d i = None" "n = ?n\<lparr>keyID := i\<rparr>" "rows d1 = (rows d)(i \<mapsto> n)" by blast
  obtain st x d2 where r: "retireOldKey R now2 ?hours k d1 = ((st, x), d2)" by (metis prod.exhaust)
  from i l have o: "rows d1 (keyID k) = Some k" by auto
  have
    "let t = (rows d)(i \<mapsto> n) in
        st = ''revoked'' \<and> ?hours = 0 \<and> rows d2 = t(keyID k := None) \<or>
        st = ''expires_at'' \<and> rows d2 = t(keyID k \<mapsto> k\<lparr>keyExpiresAt := Some (now2 + ?hours * Hour)\<rparr>) \<or>
        st \<noteq> ''revoked'' \<and> st \<noteq> ''expires_at'' \<and> rows d2 = t"
    unfolding Let_def i(3)[symmetric] by (rule retireOldKey_rows[OF R o r])
  note s = this[unfolded i(2)]
  from a[unfolded n sum.case r prod.case] have "resp = KRotated (createdResponse fk p (?n\<lparr>keyID := i\<rparr>)) st x" "d' = d2"
    using i(2) by auto
  moreover have "0 \<le> ?hours" "?hours \<le> 72" "?hours = ?hours" using hr by auto
  ultimately show ?thesis using s g l[THEN conjunct1] l[THEN conjunct2, THEN conjunct1] l[THEN conjunct2, THEN conjunct2] i(1)
    unfolding \<open>d' = d2\<close> by (intro disjI2 exI conjI refl)
qed simp

section \<open>Properties\<close>

text \<open>
  Claim C10. A created key has no more power than its creator's role: it belongs to the caller and to an
  organization of which the caller is a member with a role, carries only known scopes, and each of
  them is listed by that role unless the role has admin; it is new in the table and the table is otherwise unchanged. Any
  answer other than 201 leaves the table as it was.
\<close>

theorem created_key_within_role:
  assumes "keyrepo_contract R rows"
    "CreateAPIKeyHandler I os defaultOrg R parseTime gen now req c d = (resp, d')"
  shows "if keyStatus resp = 201
    then \<exists>k u m. cGet c ''user_id'' = Some (GStr u) \<and> keyUserID k = Some u \<and>
      osGetMemberWithRole os (keyOrganizationID k) u = Inr (Some m) \<and> memberRoleTemplateID m \<noteq> None \<and>
      set (keyScopes k) \<subseteq> set (AllScopes I) \<and>
      (''admin'' \<in> set (memberRoleTemplateScopes m) \<or> set (keyScopes k) \<subseteq> set (memberRoleTemplateScopes m)) \<and>
      rows d (keyID k) = None \<and> rows d' = (rows d)(keyID k \<mapsto> k)
    else rows d' = rows d"
  using CreateAPIKeyHandler_rows[OF assms]
proof (elim disjE exE conjE)
  fix r u orgID m x fullKey hash pre i
  let ?k = "(draftKey r u orgID hash pre x now)\<lparr>keyID := i\<rparr>"
  assume a: "createAllowed I os defaultOrg parseTime c r u orgID m x" "rows d i = None" "rows d' = (rows d)(i \<mapsto> ?k)"
    and r: "resp = KCreated (createdResponse fullKey pre ?k)"
  have 1: "keyStatus resp = 201" using r by simp
  have "cGet c ''user_id'' = Some (GStr u) \<and> keyUserID ?k = Some u \<and>
      osGetMemberWithRole os (keyOrganizationID ?k) u = Inr (Some m) \<and> memberRoleTemplateID m \<noteq> None \<and>
      set (keyScopes ?k) \<subseteq> set (AllScopes I) \<and>
      (''admin'' \<in> set (memberRoleTemplateScopes m) \<or> set (keyScopes ?k) \<subseteq> set (memberRoleTemplateScopes m)) \<and>
      rows d (keyID ?k) = None \<and> rows d' = (rows d)(keyID ?k \<mapsto> ?k)"
    using a by (simp add: createAllowed_def draftKey_def)
  then show ?thesis unfolding if_P[OF 1] by (intro exI)
qed simp

text \<open>One request of somebody else: a caller who is not \<open>u\<close> and has no admin scope calls one of the handlers.\<close>

definition otherCaller :: "identity \<Rightarrow> string \<Rightarrow> gin \<Rightarrow> bool" where
  "otherCaller I u c \<longleftrightarrow> cGetString c ''user_id'' \<noteq> u \<and> \<not> HasScope I (ctxStrings c ''scopes'') (idScopeAdmin I)"

inductive key_request :: "identity \<Rightarrow> 'd keyrepo \<Rightarrow> string \<Rightarrow> 'd \<Rightarrow> 'd \<Rightarrow> bool" for I R u where
  create: "otherCaller I u c \<Longrightarrow> CreateAPIKeyHandler I os dorg R parseTime gen now req c d = (resp, d') \<Longrightarrow> key_request I R u d d'"
| delete: "otherCaller I u c \<Longrightarrow> DeleteAPIKeyHandler I R c d = (resp, d') \<Longrightarrow> key_request I R u d d'"
| update: "otherCaller I u c \<Longrightarrow> UpdateAPIKeyHandler I os R parseTime ureq c d = (resp, d') \<Longrightarrow> key_request I R u d d'"
| rotate: "otherCaller I u c \<Longrightarrow> RotateAPIKeyHandler I R gen now1 now2 rreq c d = (resp, d') \<Longrightarrow> key_request I R u d d'"

definition keysOf :: "string \<Rightarrow> (string \<rightharpoonup> APIKey) \<Rightarrow> string \<rightharpoonup> APIKey" where
  "keysOf u t = (\<lambda>i. case t i of Some k \<Rightarrow> if keyUserID k = Some u then Some k else None | None \<Rightarrow> None)"

lemma keysOf_upd_other:
  "(case t i of Some k \<Rightarrow> keyUserID k \<noteq> Some u | None \<Rightarrow> True) \<Longrightarrow> keyUserID k \<noteq> Some u \<Longrightarrow> keysOf u (t(i \<mapsto> k)) = keysOf u t"
  "(case t i of Some k \<Rightarrow> keyUserID k \<noteq> Some u | None \<Rightarrow> True) \<Longrightarrow> keysOf u (t(i := None)) = keysOf u t"
  by (auto simp: keysOf_def fun_eq_iff split: option.splits)

lemma otherCaller_access: "otherCaller I u c \<Longrightarrow> mayAccessKey I c k \<Longrightarrow> keyUserID k \<noteq> Some u"
  by (auto simp: otherCaller_def mayAccessKey_def)

lemma key_request_keeps:
  assumes R: "keyrepo_contract R rows" and "key_request I R u d d'"
  shows "keysOf u (rows d') = keysOf u (rows d)"
  using assms(2)
proof cases
  case (create c os dorg parseTime gen now req resp)
  from create(1) have "cGet c ''user_id'' = Some (GStr v) \<Longrightarrow> v \<noteq> u" for v
    by (auto simp: otherCaller_def cGetString_def cGet_def)
  with CreateAPIKeyHandler_rows[OF R create(2)] show ?thesis
    by (auto simp: createAllowed_def draftKey_def intro!: keysOf_upd_other)
next
  case (delete c resp)
  with DeleteAPIKeyHandler_rows[OF R delete(2)] show ?thesis
    by (auto intro!: keysOf_upd_other simp: otherCaller_def mayAccessKey_def)
next
  case (update c os parseTime ureq resp)
  from UpdateAPIKeyHandler_rows[OF R update(2)] show ?thesis
    by (elim disjE exE conjE) (auto intro!: keysOf_upd_other dest: otherCaller_access[OF update(1)])
next
  case (rotate c gen now1 now2 rreq resp)
  from RotateAPIKeyHandler_rows[OF R rotate(2)] show ?thesis
  proof (elim disjE exE conjE)
    fix old fk hash pre i st x hours
    let ?n = "(rotatedKey old hash pre now1)\<lparr>keyID := i\<rparr>"
    assume o: "rows d (reqParam (ginReq c) ''id'') = Some old" "keyID old = reqParam (ginReq c) ''id''" "mayAccessKey I c old" "rows d i = None"
      and t: "let t = (rows d)(i \<mapsto> ?n) in
        st = ''revoked'' \<and> hours = 0 \<and> rows d' = t(keyID old := None) \<or>
        st = ''expires_at'' \<and> rows d' = t(keyID old \<mapsto> old\<lparr>keyExpiresAt := Some (now2 + hours * Hour)\<rparr>) \<or>
        st \<noteq> ''revoked'' \<and> st \<noteq> ''expires_at'' \<and> rows d' = t"
    from otherCaller_access[OF rotate(1) o(3)] have n: "keyUserID old \<noteq> Some u" "keyUserID ?n \<noteq> Some u" by (simp_all add: rotatedKey_def)
    have 1: "keysOf u ((rows d)(i \<mapsto> ?n)) = keysOf u (rows d)" using o n by (intro keysOf_upd_other) auto
    from o have "i \<noteq> keyID old" by auto
    then have "case ((rows d)(i \<mapsto> ?n)) (keyID old) of Some k \<Rightarrow> keyUserID k \<noteq> Some u | None \<Rightarrow> True" using o n by simp
    note 2 = keysOf_upd_other[where t = "(rows d)(i \<mapsto> ?n)" and i = "keyID old" and u = u, OF this]
    from t[unfolded Let_def] 2(2) 2(1)[of "old\<lparr>keyExpiresAt := Some (now2 + hours * Hour)\<rparr>"] n 1 show ?thesis
      by (elim disjE conjE) simp_all
  qed simp
qed

text \<open>
  Claim C16. Nobody but an administrator reaches another user's keys: after any sequence of requests to
  create, delete, update and rotate keys by callers who are not \<open>u\<close> and have no admin scope,
  whatever the requests contain and whatever calls fail, the keys of \<open>u\<close> are exactly those before, each unchanged.
\<close>

theorem keys_of_others_untouched:
  assumes "keyrepo_contract R rows" "(key_request I R u)\<^sup>*\<^sup>* d d'"
  shows "keysOf u (rows d') = keysOf u (rows d)"
  using assms(2) by (induction rule: rtranclp_induct) (auto dest: key_request_keeps[OF assms(1)])

text \<open>The authentication middleware reads the same table: the keys found under a prefix are rows of it.\<close>

definition reads_table :: "authenv \<Rightarrow> (string \<rightharpoonup> APIKey) \<Rightarrow> bool" where
  "reads_table A t \<longleftrightarrow> (\<forall>p ks k. aeGetAPIKeysByPrefix A p = Inr ks \<longrightarrow> k \<in> set ks \<longrightarrow>
     (\<exists>i a. t i = Some a \<and> k = api_key.truncate a))"

text \<open>A secret that belongs to one key only: no other row's hash validates it.\<close>

definition secret_of :: "authenv \<Rightarrow> (string \<rightharpoonup> APIKey) \<Rightarrow> string \<Rightarrow> string \<Rightarrow> bool" where
  "secret_of A t secret i \<longleftrightarrow> (\<forall>j k. t j = Some k \<longrightarrow> aeValidateAPIKey A secret (keyHash k) \<longrightarrow> j = i)"

lemma unlisted_key_refused:
  assumes "reads_table A t" "secret_of A t (fst (presented c)) i"
    "case t i of None \<Rightarrow> True | Some k \<Rightarrow> \<exists>x. keyExpiresAt k = Some x \<and> x < aeNow A"
    "\<not> snd (presented c)" "fst (presented c) \<noteq> []" "aeValidateJWT A (fst (presented c)) = Inl e"
  shows "\<not> passes (AuthMiddleware A c)"
proof
  assume "passes (AuthMiddleware A c)"
  then obtain c' where "AuthMiddleware A c = Next c'" by (auto simp: passes_iff)
  from AuthMiddleware_Next[OF this] assms(5,6) have "authAPIKey A (fst (presented c)) c = Next c'" by auto
  from authAPIKey_Next[OF this] obtain k ks where
    k: "aeGetAPIKeysByPrefix A (keyPrefixOf (fst (presented c))) = Inr ks" "k \<in> set ks"
      "aeValidateAPIKey A (fst (presented c)) (keyHash k)" "\<And>x. keyExpiresAt k = Some x \<Longrightarrow> aeNow A \<le> x" by blast
  from assms(1) k(1,2) obtain j a where a: "t j = Some a" "k = api_key.truncate a" unfolding reads_table_def by blast
  have "keyHash k = keyHash a" "keyExpiresAt k = keyExpiresAt a" using a(2) by (simp_all add: api_key.truncate_def)
  with assms(2) k(3) a(1) have "j = i" unfolding secret_of_def by auto
  with a(1) assms(3) k(4) \<open>keyExpiresAt k = keyExpiresAt a\<close> show False by auto
qed


text \<open>
  Claim C40. Leaving an organization does not end the power over its keys: a user who is no longer a
  member keeps the key made there and may give it any known scopes, admin included, because the scope
  ceiling of the update handler is only applied when a membership with a role is found.
\<close>

theorem left_member_raises_key:
  assumes R: "keyrepo_contract R rows" and k: "rows d (reqParam (ginReq c) ''id'') = Some k"
    "keyUserID k = Some (cGetString c ''user_id'')" "krGetByID R (reqParam (ginReq c) ''id'') d = Inr (Some k)"
    and left: "osGetMemberWithRole os (keyOrganizationID k) (cGetString c ''user_id'') = Inr None"
    and up: "krUpdate R (k\<lparr>keyScopes := [idScopeAdmin I]\<rparr>) d = (Inr (), d')"
  shows "UpdateAPIKeyHandler I os R parseTime (Some \<lparr>urName = None, urScopes = Some [idScopeAdmin I], urExpiresAt = None\<rparr>) c d =
      (KKey (k\<lparr>keyScopes := [idScopeAdmin I]\<rparr>), d') \<and>
    rows d' = (rows d)(reqParam (ginReq c) ''id'' \<mapsto> k\<lparr>keyScopes := [idScopeAdmin I]\<rparr>)"
proof -
  have "loadKey I R c d = Inr k" using k by (simp add: loadKey_def mayAccessKey_def)
  moreover have "idScopeAdmin I \<in> set (AllScopes I)" by (simp add: AllScopes_def)
  then have "ValidateScopes I [idScopeAdmin I] = Inr ()"
    by (simp add: ValidateScopes_def ValidScopes_iff)
  then have "updateScopes I os c k (Some [idScopeAdmin I]) = Inr [idScopeAdmin I]"
    using left by (simp add: updateScopes_def)
  moreover have up': "krUpdate R (k\<lparr>keyScopes := [idScopeAdmin I], keyExpiresAt := keyExpiresAt k, akName := akName k\<rparr>) d = (Inr (), d')"
    using up by simp
  moreover have id: "keyID k = reqParam (ginReq c) ''id''" using contract_ID[OF R k(1)] by simp
  with k(1) have "rows d (keyID k) = Some k" by simp
  from contract_Update[OF R this up'] id have
    "rows d' = (rows d)(reqParam (ginReq c) ''id'' \<mapsto> k\<lparr>keyScopes := [idScopeAdmin I]\<rparr>)" by simp
  ultimately show ?thesis using up by (simp add: UpdateAPIKeyHandler_def Let_def)
qed

section \<open>A repository for concrete runs\<close>

definition listRows :: "APIKey list \<Rightarrow> string \<rightharpoonup> APIKey" where
  "listRows d i = find (\<lambda>k. keyID k = i) d"

definition freshID :: "APIKey list \<Rightarrow> string" where
  "freshID d = CHR ''n'' # concat (map keyID d)"

definition visible :: "APIKey list \<Rightarrow> (APIKey \<Rightarrow> bool) \<Rightarrow> APIKey list" where
  "visible d P = filter (\<lambda>k. listRows d (keyID k) = Some k \<and> P k) d"

definition listRepo :: "APIKey list keyrepo" where
  "listRepo =
     \<lparr>krCreate = (\<lambda>k d. let k' = k\<lparr>keyID := freshID d\<rparr> in (Inr k', d @ [k'])),
      krGetByID = (\<lambda>i d. Inr (listRows d i)),
      krUpdate = (\<lambda>k d. (Inr (), map (\<lambda>a. if keyID a = keyID k then k else a) d)),
      krDelete = (\<lambda>i d. (Inr (), filter (\<lambda>a. keyID a \<noteq> i) d)),
      krListByOrganization = (\<lambda>org d. Inr (visible d (\<lambda>k. keyOrganizationID k = org))),
      krListByUserAndOrganization = (\<lambda>u org d. Inr (visible d (\<lambda>k. keyUserID k = Some u \<and> keyOrganizationID k = org))),
      krListAll = (\<lambda>d. Inr (visible d (\<lambda>k. True))),
      krListByUser = (\<lambda>u d. Inr (visible d (\<lambda>k. keyUserID k = Some u)))\<rparr>"

lemma length_keyID: "k \<in> set d \<Longrightarrow> length (keyID k) \<le> length (concat (map keyID d))"
  by (induction d) auto

lemma freshID_fresh: "k \<in> set d \<Longrightarrow> keyID k \<noteq> freshID d"
  using length_keyID[of k d] by (auto simp: freshID_def)

lemma listRows_None: "listRows d i = None \<longleftrightarrow> (\<forall>k \<in> set d. keyID k \<noteq> i)"
  by (auto simp: listRows_def find_None_iff)

lemma listRows_ID: "listRows d i = Some k \<Longrightarrow> keyID k = i \<and> k \<in> set d"
  by (auto simp: listRows_def find_Some_iff)

lemma listRows_Cons: "listRows (k # d) i = (if keyID k = i then Some k else listRows d i)"
  by (simp add: listRows_def)

lemma listRows_create: "listRows (d @ [k\<lparr>keyID := freshID d\<rparr>]) = (listRows d)(freshID d \<mapsto> k\<lparr>keyID := freshID d\<rparr>)"
proof -
  have "listRows (d @ [a]) i = (case listRows d i of Some k \<Rightarrow> Some k | None \<Rightarrow> if keyID a = i then Some a else None)" for a i
    by (induction d) (simp_all add: listRows_Cons listRows_def)
  moreover have "listRows d (freshID d) = None" using freshID_fresh by (auto simp: listRows_None)
  ultimately show ?thesis by (auto simp: fun_eq_iff split: option.splits)
qed

lemma listRows_update:
  "listRows (map (\<lambda>a. if keyID a = keyID k then k else a) d) i =
   (if i = keyID k \<and> listRows d i \<noteq> None then Some k else listRows d i)"
  by (induction d) (auto simp: listRows_Cons listRows_def)

lemma listRows_delete: "listRows (filter (\<lambda>a. keyID a \<noteq> i) d) = (listRows d)(i := None)"
  by (induction d) (auto simp: listRows_Cons listRows_def fun_eq_iff)

lemma set_visible: "set (visible d P) = {k \<in> ran (listRows d). P k}"
  by (auto simp: visible_def ran_def dest: listRows_ID)

lemma listRepo_simps [simp]:
  "krCreate listRepo k d = (Inr (k\<lparr>keyID := freshID d\<rparr>), d @ [k\<lparr>keyID := freshID d\<rparr>])"
  "krGetByID listRepo i d = Inr (listRows d i)"
  "krUpdate listRepo k d = (Inr (), map (\<lambda>a. if keyID a = keyID k then k else a) d)"
  "krDelete listRepo i d = (Inr (), filter (\<lambda>a. keyID a \<noteq> i) d)"
  by (simp_all add: listRepo_def Let_def)

lemma listRepo_contract: "keyrepo_contract listRepo listRows"
  unfolding keyrepo_contract_def
proof (intro conjI allI impI, goal_cases)
  case (4 d d' k k')
  then have "k' = k\<lparr>keyID := freshID d\<rparr>" "d' = d @ [k']" by auto
  moreover have "listRows d (freshID d) = None" using freshID_fresh by (auto simp: listRows_None)
  ultimately show ?case using listRows_create[of d k] by auto
next
  case (6 d d' old n s x)
  then show ?case using listRows_update[of "old\<lparr>keyScopes := s, keyExpiresAt := x, akName := n\<rparr>" d] by (auto simp: fun_eq_iff)
next
  case (8 d d' i)
  then show ?case using listRows_delete[of i d] by auto
qed (simp_all add: listRows_ID, simp_all add: listRepo_def set_visible)

definition exAPIKey :: APIKey where
  "exAPIKey = \<lparr>keyID = ''k1'', keyHash = ''hash'', keyOrganizationID = ''o1'', keyUserID = Some ''u1'',
     keyScopes = [''modules:read''], keyExpiresAt = None, akName = ''ci'', akDescription = None, akKeyPrefix = ''tfr_1'',
     akCreatedAt = 0, akLastUsedAt = None, akExpiryNotificationSentAt = None, akUserName = None\<rparr>"

definition keyCall :: "string \<Rightarrow> gin" where
  "keyCall u = \<lparr>ginReq = \<lparr>reqMethod = ''POST'', reqHeader = (\<lambda>h. []), reqCookie = (\<lambda>n. None),
       reqParam = (\<lambda>p. if p = ''id'' then ''k1'' else []), reqFullPath = [], reqClientIP = [], reqRemoteAddr = []\<rparr>,
     ginKeys = [''user_id'' \<mapsto> GStr u, ''scopes'' \<mapsto> GStrs [''modules:read'']], ginHeaders = []\<rparr>"

lemma keyCall_simps [simp]:
  "cGet (keyCall u) ''user_id'' = Some (GStr u)" "cGetString (keyCall u) ''user_id'' = u"
  "ctxStrings (keyCall u) ''scopes'' = [''modules:read'']" "reqParam (ginReq (keyCall u)) ''id'' = ''k1''"
  by (simp_all add: keyCall_def cGet_def cGetString_def ctxStrings_def)

definition exOrgs :: orgstore where
  "exOrgs = \<lparr>osGetMember = (\<lambda>_ _. Inr None),
     osGetMemberWithRole = (\<lambda>org u. Inr (if org = ''o1'' \<and> u = ''u1'' then
        Some \<lparr>memberRoleTemplateID = Some ''rt'', memberRoleTemplateName = Some ''reader'', memberRoleTemplateScopes = [''modules:read'']\<rparr> else None)),
     osGetUserScopesForOrg = (\<lambda>_ _. Inr []), osGetUserMemberships = (\<lambda>_. Inr [])\<rparr>"

definition createReq :: "string list \<Rightarrow> CreateAPIKeyRequest" where
  "createReq ss = \<lparr>crName = ''ci2'', crOrganizationID = ''o1'', crDescription = None, crScopes = ss, crExpiresAt = None\<rparr>"

lemma valid_modules_read: "ValidateScopes docIdentity [''modules:read''] = Inr ()"
  by (simp add: ValidateScopes_def ValidScopes_iff AllScopes_def)

theorem created_key_within_role_witness:
  "\<exists>d' resp. CreateAPIKeyHandler docIdentity exOrgs (Inr None) listRepo (\<lambda>_. None) (Inr (''full'', ''h2'', ''tfr_2'')) 7
      (Some (createReq [''modules:read''])) (keyCall ''u1'') [exAPIKey] = (resp, d') \<and> keyStatus resp = 201 \<and>
     (\<exists>k. listRows d' = (listRows [exAPIKey])(keyID k \<mapsto> k) \<and> set (keyScopes k) \<subseteq> {''modules:read''} \<and> keyUserID k = Some ''u1'')"
proof -
  let ?k = "(draftKey (createReq [''modules:read'']) ''u1'' ''o1'' ''h2'' ''tfr_2'' None 7)\<lparr>keyID := freshID [exAPIKey]\<rparr>"
  have r: "CreateAPIKeyHandler docIdentity exOrgs (Inr None) listRepo (\<lambda>_. None) (Inr (''full'', ''h2'', ''tfr_2'')) 7
      (Some (createReq [''modules:read''])) (keyCall ''u1'') [exAPIKey] = (KCreated (createdResponse ''full'' ''tfr_2'' ?k), [exAPIKey, ?k])"
    by (simp add: CreateAPIKeyHandler_def createReq_def valid_modules_read exOrgs_def exceedingScope_def draftKey_def)
  from created_key_within_role[OF listRepo_contract r] obtain k m where
    k: "keyUserID k = Some ''u1''" "listRows [exAPIKey, ?k] = (listRows [exAPIKey])(keyID k \<mapsto> k)"
      "osGetMemberWithRole exOrgs (keyOrganizationID k) ''u1'' = Inr (Some m)"
      "''admin'' \<in> set (memberRoleTemplateScopes m) \<or> set (keyScopes k) \<subseteq> set (memberRoleTemplateScopes m)" by auto
  from k(3) have "memberRoleTemplateScopes m = [''modules:read'']" by (auto simp: exOrgs_def split: if_splits)
  with k(4) have "set (keyScopes k) \<subseteq> {''modules:read''}" by simp
  with r k(1,2) show ?thesis by (intro exI conjI) auto
qed

theorem keys_of_others_untouched_witness:
  "\<exists>d'. DeleteAPIKeyHandler docIdentity listRepo (keyCall ''u2'') [exAPIKey] = (KError 403 ''Access denied'', d') \<and>
     keysOf ''u1'' (listRows d') ''k1'' = Some exAPIKey"
proof -
  have o: "otherCaller docIdentity ''u1'' (keyCall ''u2'')"
    using HasScope_admin_iff[OF docIdentity_contract] by (simp add: otherCaller_def docIdentity_def)
  have r: "listRows [exAPIKey] ''k1'' = Some exAPIKey" by (simp add: listRows_def exAPIKey_def)
  have m: "\<not> mayAccessKey docIdentity (keyCall ''u2'') exAPIKey"
    using HasScope_admin_iff[OF docIdentity_contract] by (simp add: mayAccessKey_def exAPIKey_def docIdentity_def)
  have d: "DeleteAPIKeyHandler docIdentity listRepo (keyCall ''u2'') [exAPIKey] = (KError 403 ''Access denied'', [exAPIKey])"
    using r m by (simp add: DeleteAPIKeyHandler_def loadKey_def)
  have "(key_request docIdentity listRepo ''u1'')\<^sup>*\<^sup>* [exAPIKey] [exAPIKey]" using delete[OF o d] by (rule r_into_rtranclp)
  from keys_of_others_untouched[OF listRepo_contract this] d r show ?thesis by (auto simp: keysOf_def exAPIKey_def)
qed

definition tableEnv :: "APIKey list \<Rightarrow> authenv" where
  "tableEnv d = (exEnv None None 50)\<lparr>aeGetAPIKeysByPrefix := (\<lambda>p. Inr (map api_key.truncate (visible d (\<lambda>k. True))))\<rparr>"

lemma reads_tableEnv: "reads_table (tableEnv d) (listRows d)"
  using set_visible[of d "\<lambda>_. True"] by (fastforce simp: reads_table_def tableEnv_def ran_def)


theorem left_member_raises_key_witness:
  "\<exists>d'. UpdateAPIKeyHandler docIdentity (exOrgs\<lparr>osGetMemberWithRole := \<lambda>_ _. Inr None\<rparr>) listRepo (\<lambda>_. None)
       (Some \<lparr>urName = None, urScopes = Some [''admin''], urExpiresAt = None\<rparr>) (keyCall ''u1'') [exAPIKey] =
     (KKey (exAPIKey\<lparr>keyScopes := [''admin'']\<rparr>), d') \<and> listRows d' ''k1'' = Some (exAPIKey\<lparr>keyScopes := [''admin'']\<rparr>)"
proof -
  have k: "listRows [exAPIKey] (reqParam (ginReq (keyCall ''u1'')) ''id'') = Some exAPIKey"
    "keyUserID exAPIKey = Some (cGetString (keyCall ''u1'') ''user_id'')"
    "krGetByID listRepo (reqParam (ginReq (keyCall ''u1'')) ''id'') [exAPIKey] = Inr (Some exAPIKey)"
    by (simp_all add: listRows_def exAPIKey_def)
  have a: "idScopeAdmin docIdentity = ''admin''" by (simp add: docIdentity_def)
  let ?o = "exOrgs\<lparr>osGetMemberWithRole := \<lambda>_ _. Inr None\<rparr>"
  have l: "osGetMemberWithRole ?o (keyOrganizationID exAPIKey) (cGetString (keyCall ''u1'') ''user_id'') = Inr None" by simp
  have u: "krUpdate listRepo (exAPIKey\<lparr>keyScopes := [idScopeAdmin docIdentity]\<rparr>) [exAPIKey] = (Inr (), [exAPIKey\<lparr>keyScopes := [''admin'']\<rparr>])"
    by (simp add: a exAPIKey_def)
  show ?thesis using left_member_raises_key[OF listRepo_contract k l u] unfolding a by auto
qed

end
