(* ===== verification/Webhooks.thy ===== *)
theory Webhooks
  imports Prelude
begin

text \<open>
  The intake of SCM webhooks (\<^verbatim>\<open>internal/api/webhooks/scm_webhook.go\<close>), the connector settings and
  signature checks of \<^verbatim>\<open>internal/scm\<close>, and the event table with its processing and retry columns
  (\<^verbatim>\<open>internal/db/repositories/scm_repository.go\<close>).

  The tables are lists of rows in \<open>scmdb\<close>; each statement consumes one entry of \<open>dbFaults\<close> and
  fails, without effect, when the entry is \<open>True\<close> (an exhausted list means success). Foreign keys
  the code can violate are checked. The keyed hash, the cipher of stored secrets, the vendors' payload
  parsers and what a vendor's constructor rejects are parameters (\<open>hookenv\<close>).
\<close>

section \<open>Rows\<close>

record WebhookEvent =
  hkID :: string
  hkType :: string
  hkRef :: string
  hkCommitSHA :: string
  hkTagName :: string
  hkPayload :: string

definition IsTagEvent :: "WebhookEvent \<Rightarrow> bool" where
  "IsTagEvent e \<longleftrightarrow> hkType e = ''tag'' \<or> (hkType e = ''push'' \<and> length (hkTagName e) > 0)"

record SCMProvider =
  spID :: string
  spProviderType :: string
  spBaseURL :: "string option"
  spClientID :: string
  spClientSecretEncrypted :: string
  spWebhookSecret :: string
  spAuthMode :: string

record ModuleSCMRepo =
  srID :: string
  srModuleID :: string
  srSCMProviderID :: string
  srRepositoryOwner :: string
  srRepositoryName :: string
  srModulePath :: string
  srTagPattern :: string
  srAutoPublish :: bool
  srWebhookURL :: "string option"

record SCMWebhookEvent =
  evID :: string
  evModuleSCMRepoID :: string
  evEventID :: "string option"
  evEventType :: string
  evRef :: "string option"
  evCommitSHA :: "string option"
  evTagName :: "string option"
  evPayload :: string
  evHeaders :: "(string \<times> string) list"
  evSignature :: "string option"
  evSignatureValid :: "bool option"
  evProcessed :: bool
  evProcessingStartedAt :: "int option"
  evProcessedAt :: "int option"
  evResultVersionID :: "string option"
  evError :: "string option"
  evRetryCount :: int
  evMaxRetries :: int
  evNextRetryAt :: "int option"
  evLastError :: "string option"
  evCreatedAt :: int

record Module =
  mdID :: string
  mdNamespace :: string
  mdName :: string
  mdSystem :: string
  mdCreatedBy :: "string option"

record ModuleVersion =
  mvID :: string
  mvModuleID :: string
  mvVersion :: string
  mvStoragePath :: string
  mvStorageBackend :: string
  mvSizeBytes :: nat
  mvChecksum :: string
  mvReadme :: "string option"
  mvCommitSHA :: "string option"
  mvTagName :: "string option"
  mvSCMRepoID :: "string option"
  mvCreatedAt :: int

record scmdb =
  dbEvents :: "SCMWebhookEvent list"
  dbRepos :: "ModuleSCMRepo list"
  dbProviders :: "SCMProvider list"
  dbUserTokens :: "((string \<times> string) \<times> string) list"
  dbModules :: "Module list"
  dbVersions :: "ModuleVersion list"
  dbScans :: "string list"
  dbDocs :: "(string \<times> string) list"
  dbFaults :: "bool list"

definition scmCall :: "scmdb \<Rightarrow> bool \<times> scmdb" where
  "scmCall db = (case dbFaults db of [] \<Rightarrow> (False, db) | f # fs \<Rightarrow> (f, db\<lparr>dbFaults := fs\<rparr>))"

definition scmQuery :: "(scmdb \<Rightarrow> 'a) \<Rightarrow> scmdb \<Rightarrow> (string + 'a) \<times> scmdb" where
  "scmQuery q db = (case scmCall db of (f, db1) \<Rightarrow> if f then (Inl ''db'', db1) else (Inr (q db1), db1))"

definition scmExec :: "(scmdb \<Rightarrow> bool) \<Rightarrow> (scmdb \<Rightarrow> scmdb) \<Rightarrow> scmdb \<Rightarrow> (string + unit) \<times> scmdb" where
  "scmExec ok upd db =
     (case scmCall db of (f, db1) \<Rightarrow>
      if f then (Inl ''db'', db1) else if \<not> ok db1 then (Inl ''constraint'', db1) else (Inr (), upd db1))"

section \<open>scm\_repository.go\<close>

definition GetModuleSourceRepoByID :: "string \<Rightarrow> scmdb \<Rightarrow> (string + ModuleSCMRepo option) \<times> scmdb" where
  "GetModuleSourceRepoByID i = scmQuery (\<lambda>db. find (\<lambda>r. srID r = i) (dbRepos db))"

definition GetProvider :: "string \<Rightarrow> scmdb \<Rightarrow> (string + SCMProvider option) \<times> scmdb" where
  "GetProvider i = scmQuery (\<lambda>db. find (\<lambda>p. spID p = i) (dbProviders db))"

definition GetUserToken :: "string \<Rightarrow> string \<Rightarrow> scmdb \<Rightarrow> (string + string option) \<times> scmdb" where
  "GetUserToken user provider = scmQuery (\<lambda>db. map_of (dbUserTokens db) (user, provider))"

text \<open>
  The insert names no retry columns; they take their defaults. \<^verbatim>\<open>processed\<close> is always written as
  false. The event belongs to an existing repository link.
\<close>

definition CreateWebhookLog :: "SCMWebhookEvent \<Rightarrow> scmdb \<Rightarrow> (string + unit) \<times> scmdb" where
  "CreateWebhookLog e =
     scmExec (\<lambda>db. \<not> list_ex (\<lambda>x. evID x = evID e) (dbEvents db) \<and>
                   list_ex (\<lambda>r. srID r = evModuleSCMRepoID e) (dbRepos db))
       (\<lambda>db. db\<lparr>dbEvents := dbEvents db @
          [e\<lparr>evProcessed := False, evRetryCount := 0, evMaxRetries := 3, evNextRetryAt := None, evLastError := None\<rparr>]\<rparr>)"

definition updateEvent :: "string \<Rightarrow> (SCMWebhookEvent \<Rightarrow> SCMWebhookEvent) \<Rightarrow> scmdb \<Rightarrow> scmdb" where
  "updateEvent i f db = db\<lparr>dbEvents := map (\<lambda>e. if evID e = i then f e else e) (dbEvents db)\<rparr>"

text \<open>A terminal state that names a version violates the foreign key when no such version exists.\<close>

definition UpdateWebhookLogState ::
  "string \<Rightarrow> string \<Rightarrow> string option \<Rightarrow> string option \<Rightarrow> int \<Rightarrow> scmdb \<Rightarrow> (string + unit) \<times> scmdb" where
  "UpdateWebhookLogState i state errorMsg versionID now =
     (if state = ''processing'' then
        scmExec (\<lambda>_. True) (updateEvent i (\<lambda>e. e\<lparr>evProcessingStartedAt := Some now\<rparr>))
      else
        scmExec (\<lambda>db. case versionID of
                  None \<Rightarrow> True
                | Some v \<Rightarrow> list_ex (\<lambda>e. evID e = i) (dbEvents db) \<longrightarrow> list_ex (\<lambda>x. mvID x = v) (dbVersions db))
          (updateEvent i (\<lambda>e. e\<lparr>evProcessed := True, evProcessedAt := Some now,
             evError := errorMsg, evResultVersionID := versionID\<rparr>)))"

definition MarkWebhookForRetry :: "string \<Rightarrow> int \<Rightarrow> scmdb \<Rightarrow> (string + unit) \<times> scmdb" where
  "MarkWebhookForRetry i nextRetryAt =
     scmExec (\<lambda>_. True) (updateEvent i (\<lambda>e. e\<lparr>evProcessed := False, evNextRetryAt := Some nextRetryAt\<rparr>))"

definition SetWebhookRetryState :: "string \<Rightarrow> int \<Rightarrow> string \<Rightarrow> int \<Rightarrow> scmdb \<Rightarrow> (string + unit) \<times> scmdb" where
  "SetWebhookRetryState i retryCount lastError nextRetryAt =
     scmExec (\<lambda>_. True) (updateEvent i (\<lambda>e. e\<lparr>evRetryCount := retryCount, evLastError := Some lastError,
        evNextRetryAt := Some nextRetryAt\<rparr>))"

text \<open>
  Reading an event scans its row into the struct; \<open>scan\<close>, a parameter, is the error of that scan, if any.
  \<^verbatim>\<open>GetWebhookLog\<close> returns a struct also with an error; the fields read afterwards are then empty (\<open>blankEvent\<close>).
\<close>

type_synonym row_scan = "SCMWebhookEvent \<Rightarrow> string option"

definition blankEvent :: SCMWebhookEvent where
  "blankEvent = \<lparr>evID = [], evModuleSCMRepoID = [], evEventID = None, evEventType = [], evRef = None, evCommitSHA = None,
     evTagName = None, evPayload = [], evHeaders = [], evSignature = None, evSignatureValid = None, evProcessed = False,
     evProcessingStartedAt = None, evProcessedAt = None, evResultVersionID = None, evError = None, evRetryCount = 0,
     evMaxRetries = 0, evNextRetryAt = None, evLastError = None, evCreatedAt = 0\<rparr>"

definition GetWebhookLog :: "row_scan \<Rightarrow> string \<Rightarrow> scmdb \<Rightarrow> (SCMWebhookEvent option \<times> string option) \<times> scmdb" where
  "GetWebhookLog scan i db =
     (case scmQuery (\<lambda>db. find (\<lambda>e. evID e = i) (dbEvents db)) db of
        (Inl e, db1) \<Rightarrow> ((Some blankEvent, Some e), db1)
      | (Inr None, db1) \<Rightarrow> ((None, None), db1)
      | (Inr (Some ev), db1) \<Rightarrow>
          (case scan ev of None \<Rightarrow> ((Some ev, None), db1) | Some e \<Rightarrow> ((Some blankEvent, Some e), db1)))"

definition retryable :: "int \<Rightarrow> SCMWebhookEvent \<Rightarrow> bool" where
  "retryable now e \<longleftrightarrow> \<not> evProcessed e \<and> (case evNextRetryAt e of None \<Rightarrow> False | Some t \<Rightarrow> t \<le> now) \<and>
     evRetryCount e < evMaxRetries e"

text \<open>\<open>sortNext\<close> is the order by \<^verbatim>\<open>next_retry_at\<close>, with whatever order the database picks among equals.\<close>

definition GetRetryableWebhookEvents ::
  "row_scan \<Rightarrow> (SCMWebhookEvent list \<Rightarrow> SCMWebhookEvent list) \<Rightarrow> nat \<Rightarrow> int \<Rightarrow> scmdb \<Rightarrow> (string + SCMWebhookEvent list) \<times> scmdb" where
  "GetRetryableWebhookEvents scan sortNext limit now db =
     (case scmQuery (\<lambda>db. take limit (sortNext (filter (retryable now) (dbEvents db)))) db of
        (Inl e, db1) \<Rightarrow> (Inl e, db1)
      | (Inr es, db1) \<Rightarrow>
          (case find (\<lambda>x. scan x \<noteq> None) es of
             None \<Rightarrow> (Inr es, db1)
           | Some bad \<Rightarrow> (Inl (case scan bad of None \<Rightarrow> [] | Some e \<Rightarrow> e), db1)))"

section \<open>Connectors\<close>

record ConnectorSettings =
  csKind :: string
  csInstanceBaseURL :: string
  csClientID :: string
  csClientSecret :: string
  csCallbackURL :: string

definition ProviderValid :: "string \<Rightarrow> bool" where
  "ProviderValid p = List.member [''github'', ''azuredevops'', ''gitlab'', ''bitbucket_dc''] p"

definition IsPATBased :: "string \<Rightarrow> bool" where
  "IsPATBased p \<longleftrightarrow> p = ''bitbucket_dc''"

datatype connector_error =
    ErrUnknownProviderKind | ErrClientIDRequired | ErrClientSecretRequired | ErrCallbackURLRequired
  | ErrConnectorUnavailable | ErrBuilder string

definition settingsValidate :: "ConnectorSettings \<Rightarrow> connector_error option" where
  "settingsValidate s =
     (if \<not> ProviderValid (csKind s) then Some ErrUnknownProviderKind
      else if IsPATBased (csKind s) then None
      else if csClientID s = [] then Some ErrClientIDRequired
      else if csClientSecret s = [] then Some ErrClientSecretRequired
      else if csCallbackURL s = [] then Some ErrCallbackURLRequired
      else None)"

text \<open>The global registry: each connector package registers its kind; \<open>builder\<close> is what its constructor rejects.\<close>

definition registeredKinds :: "string list" where
  "registeredKinds = [''azuredevops'', ''gitlab'', ''github'', ''bitbucket_dc'']"

definition BuildConnector :: "(ConnectorSettings \<Rightarrow> string option) \<Rightarrow> ConnectorSettings \<Rightarrow> connector_error + string" where
  "BuildConnector builder s =
     (case settingsValidate s of
        Some e \<Rightarrow> Inl e
      | None \<Rightarrow>
          if \<not> List.member registeredKinds (csKind s) then Inl ErrConnectorUnavailable
          else (case builder s of Some e \<Rightarrow> Inl (ErrBuilder e) | None \<Rightarrow> Inr (csKind s)))"

text \<open>\<^verbatim>\<open>hex.DecodeString\<close>: pairs of hexadecimal digits, an odd length being an error.\<close>

fun hexDecode :: "string \<Rightarrow> string option" where
  "hexDecode [] = Some []"
| "hexDecode [c] = None"
| "hexDecode (a # b # s) =
     (case (hexVal a, hexVal b, hexDecode s) of
        (Some x, Some y, Some r) \<Rightarrow> Some (char_of (16 * x + y) # r)
      | _ \<Rightarrow> None)"

definition githubVerify :: "(string \<Rightarrow> string \<Rightarrow> string) \<Rightarrow> string \<Rightarrow> string \<Rightarrow> string \<Rightarrow> bool" where
  "githubVerify hmac payload sig secret =
     (if secret = [] then True
      else if \<not> hasPrefix sig ''sha256='' then False
      else (case hexDecode (trimPrefix sig ''sha256='') of None \<Rightarrow> False | Some got \<Rightarrow> got = hmac secret payload))"

definition gitlabVerify :: "string \<Rightarrow> string \<Rightarrow> bool" where
  "gitlabVerify sig secret = (if secret = [] then True else sig = secret)"

definition bitbucketVerify :: "(string \<Rightarrow> string \<Rightarrow> string) \<Rightarrow> string \<Rightarrow> string \<Rightarrow> string \<Rightarrow> bool" where
  "bitbucketVerify hmac payload sig secret =
     (if sig = [] \<or> secret = [] then False
      else (case hexDecode (trimPrefix sig ''sha256='') of None \<Rightarrow> False | Some got \<Rightarrow> got = hmac secret payload))"

definition azureVerify :: "string \<Rightarrow> string \<Rightarrow> string \<Rightarrow> bool" where
  "azureVerify payload sig secret = True"

definition VerifyDeliverySignature ::
  "(string \<Rightarrow> string \<Rightarrow> string) \<Rightarrow> string \<Rightarrow> string \<Rightarrow> string \<Rightarrow> string \<Rightarrow> bool" where
  "VerifyDeliverySignature hmac kind payload sig secret =
     (if kind = ''github'' then githubVerify hmac payload sig secret
      else if kind = ''gitlab'' then gitlabVerify sig secret
      else if kind = ''bitbucket_dc'' then bitbucketVerify hmac payload sig secret
      else azureVerify payload sig secret)"

section \<open>scm\_webhook.go\<close>

record hookenv =
  heUuidParse :: "string \<Rightarrow> string option"
  heOpen :: "string \<Rightarrow> string + string"
  heBuilder :: "ConnectorSettings \<Rightarrow> string option"
  heHmac :: "string \<Rightarrow> string \<Rightarrow> string"
  heParse :: "string \<Rightarrow> string \<Rightarrow> (string \<times> string) list \<Rightarrow> string + WebhookEvent"

text \<open>\<^verbatim>\<open>path.Base\<close>.\<close>

definition pathBase :: "string \<Rightarrow> string" where
  "pathBase p =
     (if p = [] then ''.''
      else let q = rev (dropWhile (\<lambda>c. c = CHR ''/'') (rev p));
               b = rev (takeWhile (\<lambda>c. c \<noteq> CHR ''/'') (rev q))
           in if b = [] then ''/'' else b)"

definition getSignatureHeader :: "request \<Rightarrow> string \<Rightarrow> string" where
  "getSignatureHeader r kind =
     (if kind = ''github'' then reqHeader r ''X-Hub-Signature-256''
      else if kind = ''gitlab'' then reqHeader r ''X-Gitlab-Token''
      else if kind = ''azuredevops'' then reqHeader r ''X-Vss-Signature''
      else if kind = ''bitbucket_dc'' then reqHeader r ''X-Hub-Signature''
      else [])"

datatype hook_response = HookError nat string | HookReceived string

text \<open>A job handed to the publisher: the id of the event row, the repository link and the hook.\<close>

type_synonym publish_job = "string \<times> ModuleSCMRepo \<times> WebhookEvent"

definition hookSettings :: "SCMProvider \<Rightarrow> string \<Rightarrow> ConnectorSettings" where
  "hookSettings p clientSecret =
     \<lparr>csKind = spProviderType p, csInstanceBaseURL = (case spBaseURL p of None \<Rightarrow> [] | Some u \<Rightarrow> u),
      csClientID = spClientID p, csClientSecret = clientSecret, csCallbackURL = []\<rparr>"

definition logRecord ::
  "string \<Rightarrow> string \<Rightarrow> WebhookEvent \<Rightarrow> (string \<times> string) list \<Rightarrow> string \<Rightarrow> int \<Rightarrow> SCMWebhookEvent" where
  "logRecord logID repoID hook hdrs sig now =
     blankEvent\<lparr>evID := logID, evModuleSCMRepoID := repoID, evEventID := Some (hkID hook), evEventType := hkType hook,
       evRef := Some (hkRef hook), evCommitSHA := Some (hkCommitSHA hook), evTagName := Some (hkTagName hook),
       evPayload := hkPayload hook, evHeaders := hdrs, evSignature := Some sig, evSignatureValid := Some True,
       evProcessed := False, evCreatedAt := now\<rparr>"

text \<open>
  The handler: \<open>body\<close> is the payload read (\<open>None\<close> on a read error), \<open>hdrs\<close> the first values of
  the headers, \<open>logID\<close> the fresh id. Besides the response and the database it returns the job it hands to
  the publisher, if any.
\<close>

definition HandleWebhook ::
  "hookenv \<Rightarrow> string \<Rightarrow> int \<Rightarrow> string option \<Rightarrow> (string \<times> string) list \<Rightarrow> gin \<Rightarrow> scmdb \<Rightarrow>
   (hook_response \<times> publish_job option) \<times> scmdb" where
  "HandleWebhook E logID now body hdrs c db =
     (case heUuidParse E (reqParam (ginReq c) ''module_source_repo_id'') of
        None \<Rightarrow> ((HookError 400 ''invalid repository ID'', None), db)
      | Some repoID \<Rightarrow>
     (case body of
        None \<Rightarrow> ((HookError 400 ''failed to read payload'', None), db)
      | Some payload \<Rightarrow>
     (case GetModuleSourceRepoByID repoID db of
        (Inl e, db1) \<Rightarrow> ((HookError 500 ''failed to get repository link'', None), db1)
      | (Inr None, db1) \<Rightarrow> ((HookError 404 ''repository link not found'', None), db1)
      | (Inr (Some repo), db1) \<Rightarrow>
     (case srWebhookURL repo of
        None \<Rightarrow> ((HookError 500 ''webhook URL not configured'', None), db1)
      | Some url \<Rightarrow>
     if pathBase url \<noteq> reqParam (ginReq c) ''secret'' then ((HookError 401 ''invalid webhook secret'', None), db1)
     else
     (case GetProvider (srSCMProviderID repo) db1 of
        (Inl e, db2) \<Rightarrow> ((HookError 500 ''failed to get SCM provider'', None), db2)
      | (Inr None, db2) \<Rightarrow> ((HookError 404 ''SCM provider not found'', None), db2)
      | (Inr (Some provider), db2) \<Rightarrow>
     (case heOpen E (spClientSecretEncrypted provider) of
        Inl e \<Rightarrow> ((HookError 500 ''failed to decrypt client secret'', None), db2)
      | Inr clientSecret \<Rightarrow>
     (case BuildConnector (heBuilder E) (hookSettings provider clientSecret) of
        Inl e \<Rightarrow> ((HookError 500 ''failed to create connector'', None), db2)
      | Inr kind \<Rightarrow>
     let sig = getSignatureHeader (ginReq c) (spProviderType provider) in
     if \<not> VerifyDeliverySignature (heHmac E) kind payload sig (spWebhookSecret provider) then
       ((HookError 401 ''invalid webhook signature'', None), db2)
     else
     (case heParse E kind payload hdrs of
        Inl e \<Rightarrow> ((HookError 400 ''failed to parse webhook'', None), db2)
      | Inr hook \<Rightarrow>
     (case CreateWebhookLog (logRecord logID repoID hook hdrs sig now) db2 of
        (Inl e, db3) \<Rightarrow> ((HookError 500 ''failed to log webhook'', None), db3)
      | (Inr _, db3) \<Rightarrow>
          ((HookReceived logID, if IsTagEvent hook \<and> srAutoPublish repo then Some (logID, repo, hook) else None),
           db3))))))))))"

section \<open>Lemmas\<close>

lemma scmCall_frame: "scmCall db = (f, db1) \<Longrightarrow> \<exists>fs. db1 = db\<lparr>dbFaults := fs\<rparr>"
  by (cases "dbFaults db") (auto simp: scmCall_def intro: exI[of _ "[]"])

lemma scmQuery_frame: "scmQuery q db = (r, db1) \<Longrightarrow> \<exists>fs. db1 = db\<lparr>dbFaults := fs\<rparr>"
  by (auto simp: scmQuery_def split: prod.splits if_splits dest: scmCall_frame)

lemma scmQuery_Inr: "scmQuery q db = (Inr x, db1) \<Longrightarrow> x = q db1"
  by (auto simp: scmQuery_def split: prod.splits if_splits)

lemma scmExec_cases:
  assumes "scmExec ok upd db = (r, db1)"
  shows "\<exists>fs. (r = Inr () \<and> ok (db\<lparr>dbFaults := fs\<rparr>) \<and> db1 = upd (db\<lparr>dbFaults := fs\<rparr>)) \<or>
    (\<exists>e. r = Inl e) \<and> db1 = db\<lparr>dbFaults := fs\<rparr>"
  using assms scmCall_frame[of db] by (fastforce simp: scmExec_def split: prod.splits if_splits)

lemma BuildConnector_hook:
  "BuildConnector b (hookSettings p s) = Inr k \<Longrightarrow> k = ''bitbucket_dc'' \<and> spProviderType p = ''bitbucket_dc''"
  by (auto simp: BuildConnector_def settingsValidate_def hookSettings_def IsPATBased_def split: option.splits if_splits)

lemma HandleWebhook_cases:
  assumes h: "HandleWebhook E logID now body hdrs c db = ((resp, job), db')"
  shows "\<exists>fs. ((\<exists>st msg. resp = HookError st msg) \<and> job = None \<and> db' = db\<lparr>dbFaults := fs\<rparr>) \<or>
    (\<exists>repoID payload repo url provider hook sig.
       heUuidParse E (reqParam (ginReq c) ''module_source_repo_id'') = Some repoID \<and> body = Some payload \<and>
       find (\<lambda>r. srID r = repoID) (dbRepos db) = Some repo \<and>
       srWebhookURL repo = Some url \<and> pathBase url = reqParam (ginReq c) ''secret'' \<and>
       find (\<lambda>p. spID p = srSCMProviderID repo) (dbProviders db) = Some provider \<and>
       spProviderType provider = ''bitbucket_dc'' \<and> sig = reqHeader (ginReq c) ''X-Hub-Signature'' \<and>
       bitbucketVerify (heHmac E) payload sig (spWebhookSecret provider) \<and>
       heParse E ''bitbucket_dc'' payload hdrs = Inr hook \<and> resp = HookReceived logID \<and>
       job = (if IsTagEvent hook \<and> srAutoPublish repo then Some (logID, repo, hook) else None) \<and>
       logID \<notin> evID ` set (dbEvents db) \<and>
       db' = db\<lparr>dbFaults := fs, dbEvents := dbEvents db @
         [(logRecord logID repoID hook hdrs sig now)\<lparr>evProcessed := False, evRetryCount := 0, evMaxRetries := 3,
            evNextRetryAt := None, evLastError := None\<rparr>]\<rparr>)"
    (is "\<exists>fs. ?err fs \<or> ?ok fs")
proof (cases "\<exists>fs. ?err fs")
  case False
  have base: "\<exists>fs. db = db\<lparr>dbFaults := fs\<rparr>" by (rule exI[of _ "dbFaults db"]) simp
  note a = h[unfolded HandleWebhook_def]
  from a False base obtain repoID where r: "heUuidParse E (reqParam (ginReq c) ''module_source_repo_id'') = Some repoID"
    by (cases "heUuidParse E (reqParam (ginReq c) ''module_source_repo_id'')") auto
  note a = a[unfolded r option.case]
  from a False base obtain payload where p: "body = Some payload" by (cases body) auto
  note a = a[unfolded p option.case]
  obtain q1 db1 where q1: "GetModuleSourceRepoByID repoID db = (q1, db1)" by fastforce
  from scmQuery_frame[OF q1[unfolded GetModuleSourceRepoByID_def]] obtain fs1 where f1: "db1 = db\<lparr>dbFaults := fs1\<rparr>" by blast
  note a = a[unfolded q1 prod.case]
  from a False f1 obtain repo where q1': "q1 = Inr (Some repo)" by (cases q1; cases "projr q1") auto
  from scmQuery_Inr[OF q1[unfolded q1' GetModuleSourceRepoByID_def]] f1 have
    repo: "find (\<lambda>r. srID r = repoID) (dbRepos db) = Some repo" by simp
  note a = a[unfolded q1' sum.case option.case]
  from a False f1 obtain url where u: "srWebhookURL repo = Some url" by (cases "srWebhookURL repo") auto
  note a = a[unfolded u option.case]
  from a False f1 have s: "\<not> (pathBase url \<noteq> reqParam (ginReq c) ''secret'')" by (auto split: if_splits)
  note a = a[unfolded if_not_P[OF s]]
  obtain q2 db2 where q2: "GetProvider (srSCMProviderID repo) db1 = (q2, db2)" by fastforce
  from scmQuery_frame[OF q2[unfolded GetProvider_def]] f1 obtain fs2 where f2: "db2 = db\<lparr>dbFaults := fs2\<rparr>" by auto
  note a = a[unfolded q2 prod.case]
  from a False f2 obtain prov where q2': "q2 = Inr (Some prov)" by (cases q2; cases "projr q2") auto
  from scmQuery_Inr[OF q2[unfolded q2' GetProvider_def]] f2 have
    prov: "find (\<lambda>p. spID p = srSCMProviderID repo) (dbProviders db) = Some prov" by simp
  note a = a[unfolded q2' sum.case option.case]
  from a False f2 obtain cs where cs: "heOpen E (spClientSecretEncrypted prov) = Inr cs"
    by (cases "heOpen E (spClientSecretEncrypted prov)") auto
  note a = a[unfolded cs sum.case]
  from a False f2 obtain kind where k: "BuildConnector (heBuilder E) (hookSettings prov cs) = Inr kind"
    by (cases "BuildConnector (heBuilder E) (hookSettings prov cs)") auto
  note a = a[unfolded k sum.case]
  from BuildConnector_hook[OF k] have kd: "kind = ''bitbucket_dc''" "spProviderType prov = ''bitbucket_dc''" by simp_all
  have sg: "getSignatureHeader (ginReq c) (spProviderType prov) = reqHeader (ginReq c) ''X-Hub-Signature''"
    by (simp add: getSignatureHeader_def kd)
  let ?sig = "reqHeader (ginReq c) ''X-Hub-Signature''"
  note a = a[unfolded sg Let_def kd(1)]
  from a False f2 have v: "\<not> \<not> VerifyDeliverySignature (heHmac E) ''bitbucket_dc'' payload ?sig (spWebhookSecret prov)"
    by (auto split: if_splits)
  note a = a[unfolded if_not_P[OF v]]
  from a False f2 obtain hook where hk: "heParse E ''bitbucket_dc'' payload hdrs = Inr hook"
    by (cases "heParse E ''bitbucket_dc'' payload hdrs") auto
  note a = a[unfolded hk sum.case]
  let ?log = "logRecord logID repoID hook hdrs ?sig now"
  obtain q3 db3 where q3: "CreateWebhookLog ?log db2 = (q3, db3)" by (cases "CreateWebhookLog ?log db2")
  note a = a[unfolded q3 prod.case]
  from scmExec_cases[OF q3[unfolded CreateWebhookLog_def]] f2 obtain fs3 where
    f3: "q3 = Inr () \<and> logID \<notin> evID ` set (dbEvents db) \<and> db3 = db\<lparr>dbFaults := fs3, dbEvents := dbEvents db @
         [?log\<lparr>evProcessed := False, evRetryCount := 0, evMaxRetries := 3, evNextRetryAt := None, evLastError := None\<rparr>]\<rparr> \<or>
         (\<exists>e. q3 = Inl e) \<and> db3 = db\<lparr>dbFaults := fs3\<rparr>"
    by (auto simp: list_ex_iff logRecord_def)
  from a False f3 have q3': "q3 = Inr ()" by (cases q3) auto
  with f3 have f3': "logID \<notin> evID ` set (dbEvents db)" "db3 = db\<lparr>dbFaults := fs3, dbEvents := dbEvents db @
         [?log\<lparr>evProcessed := False, evRetryCount := 0, evMaxRetries := 3, evNextRetryAt := None, evLastError := None\<rparr>]\<rparr>" by auto
  from a[unfolded q3' sum.case] have j: "resp = HookReceived logID"
    "job = (if IsTagEvent hook \<and> srAutoPublish repo then Some (logID, repo, hook) else None)" "db' = db3" by auto
  have v': "bitbucketVerify (heHmac E) payload ?sig (spWebhookSecret prov)" using v by (simp add: VerifyDeliverySignature_def)
  have "?ok fs3" using r p repo u s prov kd(2) refl[of ?sig] v' hk j(1,2) f3' unfolding j(3) not_not by (intro exI conjI)
  then show ?thesis by blast
qed blast

section \<open>Properties\<close>

text \<open>
  Claim C20. Only deliveries that prove both secrets are accepted: a webhook answered with success named the last path
  segment of the callback URL of an existing link, and its signature header is the keyed hash of exactly the
  received payload under the non-empty secret of that link's provider. It then adds one event, marked as verified, with the commit and tag of the
  parsed payload, and is handed to the publisher exactly if it is a tag event of a link with auto-publish. Any other answer adds no event
  and starts no publication.
\<close>

theorem webhook_verified:
  assumes "HandleWebhook E logID now body hdrs c db = ((resp, job), db')"
  shows "case resp of
      HookError st msg \<Rightarrow> job = None \<and> dbEvents db' = dbEvents db \<and> dbVersions db' = dbVersions db
    | HookReceived l \<Rightarrow> \<exists>repo url provider payload digest hook e.
        heUuidParse E (reqParam (ginReq c) ''module_source_repo_id'') = Some (srID repo) \<and> repo \<in> set (dbRepos db) \<and>
        srWebhookURL repo = Some url \<and> pathBase url = reqParam (ginReq c) ''secret'' \<and>
        provider \<in> set (dbProviders db) \<and> spID provider = srSCMProviderID repo \<and> spWebhookSecret provider \<noteq> [] \<and>
        body = Some payload \<and> hexDecode (trimPrefix (reqHeader (ginReq c) ''X-Hub-Signature'') ''sha256='') = Some digest \<and>
        digest = heHmac E (spWebhookSecret provider) payload \<and>
        heParse E (spProviderType provider) payload hdrs = Inr hook \<and>
        dbEvents db' = dbEvents db @ [e] \<and> evID e = l \<and> evModuleSCMRepoID e = srID repo \<and> evSignatureValid e = Some True \<and>
        evCommitSHA e = Some (hkCommitSHA hook) \<and> evTagName e = Some (hkTagName hook) \<and> \<not> evProcessed e \<and>
        dbVersions db' = dbVersions db \<and>
        job = (if IsTagEvent hook \<and> srAutoPublish repo then Some (l, repo, hook) else None)"
  using HandleWebhook_cases[OF assms]
proof (elim disjE exE conjE, goal_cases)
  case 1
  then show ?case by simp
next
  case (2 fs repoID payload repo url provider hook sig)
  from find_Some_member[OF 2(3)] find_Some_member[OF 2(6)] have
    m: "repo \<in> set (dbRepos db)" "srID repo = repoID" "provider \<in> set (dbProviders db)" "spID provider = srSCMProviderID repo" by simp_all
  let ?e = "(logRecord logID repoID hook hdrs sig now)\<lparr>evProcessed := False, evRetryCount := 0, evMaxRetries := 3,
            evNextRetryAt := None, evLastError := None\<rparr>"
  from 2(9) obtain g where g: "spWebhookSecret provider \<noteq> []" "hexDecode (trimPrefix sig ''sha256='') = Some g"
    "g = heHmac E (spWebhookSecret provider) payload"
    by (auto simp: bitbucketVerify_def split: if_splits option.splits)
  with 2 m show ?case unfolding 2(11) hook_response.case
    by (intro exI[of _ repo] exI[of _ url] exI[of _ provider] exI[of _ payload] exI[of _ g] exI[of _ hook] exI[of _ ?e] conjI)
      (simp_all add: logRecord_def)
qed


definition exRepo :: ModuleSCMRepo where
  "exRepo = \<lparr>srID = ''r1'', srModuleID = ''m1'', srSCMProviderID = ''p1'', srRepositoryOwner = ''acme'', srRepositoryName = ''net'',
     srModulePath = [], srTagPattern = ''v*'', srAutoPublish = True, srWebhookURL = Some ''https://reg/webhooks/scm/r1/s3cret''\<rparr>"

definition exProvider :: "string \<Rightarrow> SCMProvider" where
  "exProvider kind = \<lparr>spID = ''p1'', spProviderType = kind, spBaseURL = None, spClientID = ''cid'', spClientSecretEncrypted = ''enc'',
     spWebhookSecret = ''wh'', spAuthMode = ''oauth_user''\<rparr>"

definition exDB :: "string \<Rightarrow> scmdb" where
  "exDB kind = \<lparr>dbEvents = [], dbRepos = [exRepo], dbProviders = [exProvider kind], dbUserTokens = [],
     dbModules = [\<lparr>mdID = ''m1'', mdNamespace = ''acme'', mdName = ''net'', mdSystem = ''aws'', mdCreatedBy = None\<rparr>],
     dbVersions = [], dbScans = [], dbDocs = [], dbFaults = []\<rparr>"

definition exHook :: WebhookEvent where
  "exHook = \<lparr>hkID = ''d1'', hkType = ''tag'', hkRef = ''refs/tags/v1.0.0'', hkCommitSHA = ''abc'', hkTagName = ''v1.0.0'', hkPayload = ''{}''\<rparr>"

text \<open>A keyed hash for concrete runs: one byte.\<close>

definition exHookEnv :: hookenv where
  "exHookEnv = \<lparr>heUuidParse = Some, heOpen = Inr, heBuilder = (\<lambda>_. None), heHmac = (\<lambda>k p. [CHR ''J'']),
     heParse = (\<lambda>k p h. Inr exHook)\<rparr>"

definition delivery :: "string \<Rightarrow> gin" where
  "delivery sig = \<lparr>ginReq = \<lparr>reqMethod = ''POST'', reqHeader = (\<lambda>h. if h = ''X-Hub-Signature'' then sig else []), reqCookie = (\<lambda>n. None),
       reqParam = (\<lambda>p. if p = ''secret'' then ''s3cret'' else if p = ''module_source_repo_id'' then ''r1'' else []),
       reqFullPath = [], reqClientIP = [], reqRemoteAddr = []\<rparr>, ginKeys = Map.empty, ginHeaders = []\<rparr>"

lemma delivery_run:
  "HandleWebhook exHookEnv ''e1'' 5 (Some ''{}'') [] (delivery ''sha256=4A'') (exDB ''bitbucket_dc'') =
   ((HookReceived ''e1'', Some (''e1'', exRepo, exHook)),
    (exDB ''bitbucket_dc'')\<lparr>dbEvents := [(logRecord ''e1'' ''r1'' exHook [] ''sha256=4A'' 5)\<lparr>evMaxRetries := 3\<rparr>]\<rparr>)"
proof -
  have b: "pathBase ''https://reg/webhooks/scm/r1/s3cret'' = ''s3cret''" by code_simp
  have v: "bitbucketVerify (\<lambda>k p. [CHR ''J'']) ''{}'' ''sha256=4A'' ''wh''" by code_simp
  show ?thesis
    by (simp add: HandleWebhook_def exHookEnv_def delivery_def exDB_def GetModuleSourceRepoByID_def GetProvider_def scmQuery_def scmCall_def
        exRepo_def exProvider_def b hookSettings_def BuildConnector_def settingsValidate_def ProviderValid_def IsPATBased_def registeredKinds_def
        getSignatureHeader_def VerifyDeliverySignature_def v CreateWebhookLog_def scmExec_def logRecord_def blankEvent_def IsTagEvent_def exHook_def)
qed

theorem webhook_verified_witness:
  "\<exists>e db'. HandleWebhook exHookEnv ''e1'' 5 (Some ''{}'') [] (delivery ''sha256=4A'') (exDB ''bitbucket_dc'') =
     ((HookReceived ''e1'', Some (''e1'', exRepo, exHook)), db') \<and> dbEvents db' = [e] \<and> evSignatureValid e = Some True"
  using webhook_verified[OF delivery_run] delivery_run by (auto simp: exDB_def)


end
