(* ===== verification/Publisher.thy ===== *)
theory Publisher
  imports Webhooks StorageMigration
begin

text \<open>
  Publication of module versions from SCM tags (\<^verbatim>\<open>internal/services/scm_publisher.go\<close>) and the job that
  retries failed webhook events (\<^verbatim>\<open>internal/jobs/webhook_retry_job.go\<close>), over the tables of \<open>Webhooks\<close>
  and any storage backend (\<open>store_ops\<close>).

  Parameters (\<open>pubenv\<close>): downloading and repackaging the source of a commit, the temporary file it is read back from,
  README extraction and documentation analysis, the shared credential minter and the cipher of stored tokens. The readings of the clock
  within one handler are one argument, as are the fresh ids: the one the publisher draws and the one
  the database assigns.
\<close>

section \<open>Versions in tags\<close>

definition isDigit :: "char \<Rightarrow> bool" where
  "isDigit c \<longleftrightarrow> digitVal c \<noteq> None"

definition isLabelChar :: "char \<Rightarrow> bool" where
  "isLabelChar c \<longleftrightarrow> (let n = (of_char c :: nat) in
     (48 \<le> n \<and> n \<le> 57) \<or> (65 \<le> n \<and> n \<le> 90) \<or> (97 \<le> n \<and> n \<le> 122) \<or> n = 45)"

text \<open>A non-empty run of characters of a class, and what follows it.\<close>

definition run1 :: "(char \<Rightarrow> bool) \<Rightarrow> string \<Rightarrow> (string \<times> string) option" where
  "run1 P s = (let w = takeWhile P s in if w = [] then None else Some (w, drop (length w) s))"

definition lit :: "char \<Rightarrow> string \<Rightarrow> string option" where
  "lit c s = (case s of [] \<Rightarrow> None | a # r \<Rightarrow> if a = c then Some r else None)"

text \<open>An optional label introduced by a character: absent labels leave the text as it is.\<close>

definition optLabel :: "char \<Rightarrow> string \<Rightarrow> string option" where
  "optLabel c s =
     (case lit c s of None \<Rightarrow> Some s | Some r \<Rightarrow> map_option snd (run1 isLabelChar r))"

text \<open>
  The regular expression \<^verbatim>\<open>semverPattern\<close>. Its runs are delimited by characters outside their class, so
  matching needs no backtracking.
\<close>

definition semverPattern :: "string \<Rightarrow> bool" where
  "semverPattern s =
     (case run1 isDigit s of None \<Rightarrow> False | Some (_, s1) \<Rightarrow>
     (case lit (CHR ''.'') s1 of None \<Rightarrow> False | Some s2 \<Rightarrow>
     (case run1 isDigit s2 of None \<Rightarrow> False | Some (_, s3) \<Rightarrow>
     (case lit (CHR ''.'') s3 of None \<Rightarrow> False | Some s4 \<Rightarrow>
     (case run1 isDigit s4 of None \<Rightarrow> False | Some (_, s5) \<Rightarrow>
     (case optLabel (CHR ''-'') s5 of None \<Rightarrow> False | Some s6 \<Rightarrow>
     (case optLabel (CHR ''+'') s6 of None \<Rightarrow> False | Some s7 \<Rightarrow> s7 = [])))))))"

text \<open>
  The glob with its wildcards as capture groups. \<open>globRest\<close> matches the literal parts after a wildcard to the end of the
  tag; a wildcard does not match a line break. The first group is greedy: it takes the longest text that
  leaves a match.
\<close>

fun globRest :: "string list \<Rightarrow> string \<Rightarrow> bool" where
  "globRest [] s = False"
| "globRest [p] s = (s = p)"
| "globRest (p # q # ps) s =
     (hasPrefix s p \<and>
      (let r = drop (length p) s in
       list_ex (\<lambda>k. CHR 0x0A \<notin> set (take k r) \<and> globRest (q # ps) (drop k r)) [0..<Suc (length r)]))"

definition firstGroup :: "string list \<Rightarrow> string \<Rightarrow> string option" where
  "firstGroup parts tag =
     (case parts of
        p # q # ps \<Rightarrow>
          if \<not> hasPrefix tag p then None
          else let r = drop (length p) tag in
               map_option (\<lambda>k. take k r)
                 (find (\<lambda>k. CHR 0x0A \<notin> set (take k r) \<and> globRest (q # ps) (drop k r)) (rev [0..<Suc (length r)]))
      | _ \<Rightarrow> None)"

definition extractVersionFromTag :: "string \<Rightarrow> string \<Rightarrow> string" where
  "extractVersionFromTag tag glob =
     (if \<not> contains glob ''*'' then
        (if tag \<noteq> glob then []
         else let version = trimPrefix tag ''v'' in if \<not> semverPattern version then [] else version)
      else
        (case firstGroup (splitOn (CHR ''*'') glob) tag of
           None \<Rightarrow> []
         | Some m \<Rightarrow> let version = trimPrefix m ''v'' in if \<not> semverPattern version then [] else version))"

section \<open>Module repository operations the publisher uses\<close>

definition GetModuleByID :: "string \<Rightarrow> scmdb \<Rightarrow> (string + Module option) \<times> scmdb" where
  "GetModuleByID i = scmQuery (\<lambda>db. find (\<lambda>m. mdID m = i) (dbModules db))"

definition GetVersion :: "string \<Rightarrow> string \<Rightarrow> scmdb \<Rightarrow> (string + ModuleVersion option) \<times> scmdb" where
  "GetVersion moduleID version =
     scmQuery (\<lambda>db. find (\<lambda>v. mvModuleID v = moduleID \<and> mvVersion v = version) (dbVersions db))"

text \<open>
  The insert leaves \<^verbatim>\<open>id\<close> to the database, which returns it into the struct; \<open>dbID\<close> is that id. The table is unique in
  module and version and refers to existing modules and links. \<open>Inr\<close> is the struct after the call.
\<close>

definition CreateVersion :: "string \<Rightarrow> int \<Rightarrow> ModuleVersion \<Rightarrow> scmdb \<Rightarrow> (string + ModuleVersion) \<times> scmdb" where
  "CreateVersion dbID now v db =
     (let v' = v\<lparr>mvID := dbID, mvCreatedAt := now\<rparr> in
      case scmExec
        (\<lambda>db. \<not> list_ex (\<lambda>x. mvModuleID x = mvModuleID v \<and> mvVersion x = mvVersion v) (dbVersions db) \<and>
              \<not> list_ex (\<lambda>x. mvID x = dbID) (dbVersions db) \<and>
              list_ex (\<lambda>m. mdID m = mvModuleID v) (dbModules db) \<and>
              (case mvSCMRepoID v of None \<Rightarrow> True | Some r \<Rightarrow> list_ex (\<lambda>x. srID x = r) (dbRepos db)))
        (\<lambda>db. db\<lparr>dbVersions := dbVersions db @ [v']\<rparr>) db of
        (Inl e, db1) \<Rightarrow> (Inl (''failed to create module version: '' @ e), db1)
      | (Inr _, db1) \<Rightarrow> (Inr v', db1))"

definition CreatePendingScan :: "string \<Rightarrow> scmdb \<Rightarrow> (string + unit) \<times> scmdb" where
  "CreatePendingScan i =
     scmExec (\<lambda>_. True) (\<lambda>db. if List.member (dbScans db) i then db else db\<lparr>dbScans := dbScans db @ [i]\<rparr>)"

definition UpsertModuleDocs :: "string \<Rightarrow> string \<Rightarrow> scmdb \<Rightarrow> (string + unit) \<times> scmdb" where
  "UpsertModuleDocs i doc =
     scmExec (\<lambda>_. True) (\<lambda>db. db\<lparr>dbDocs := filter (\<lambda>d. fst d \<noteq> i) (dbDocs db) @ [(i, doc)]\<rparr>)"

section \<open>scm\_publisher.go\<close>

record 's pubenv =
  puUuidParse :: "string \<Rightarrow> string option"
  puMinter :: "(SCMProvider \<Rightarrow> string + string) option"
  puOpenToken :: "string \<Rightarrow> string + string"
  puPackage :: "string option \<Rightarrow> string \<Rightarrow> string \<Rightarrow> string \<Rightarrow> string \<Rightarrow> string + string \<times> string"
  puOpenArchive :: "string + unit"
  puStatArchive :: "string + unit"
  puReadme :: "string \<Rightarrow> string option"
  puAnalyze :: "string \<Rightarrow> string + string option"
  puStore :: "'s store_ops"
  puScanning :: bool
  puDocs :: bool

definition creatorToken :: "'s pubenv \<Rightarrow> string option \<Rightarrow> string \<Rightarrow> scmdb \<Rightarrow> string option \<times> scmdb" where
  "creatorToken E createdBy providerID db =
     (case createdBy of
        None \<Rightarrow> (None, db)
      | Some u \<Rightarrow>
     (case puUuidParse E u of
        None \<Rightarrow> (None, db)
      | Some uid \<Rightarrow>
     (case GetUserToken uid providerID db of
        (Inr (Some enc), db1) \<Rightarrow> (case puOpenToken E enc of Inl e \<Rightarrow> (None, db1) | Inr t \<Rightarrow> (Some t, db1))
      | (_, db1) \<Rightarrow> (None, db1))))"

definition resolveSourceToken :: "'s pubenv \<Rightarrow> string option \<Rightarrow> string \<Rightarrow> scmdb \<Rightarrow> string option \<times> scmdb" where
  "resolveSourceToken E createdBy providerID db =
     (case puMinter E of
        None \<Rightarrow> creatorToken E createdBy providerID db
      | Some mint \<Rightarrow>
          (case GetProvider providerID db of
             (Inr (Some p), db1) \<Rightarrow>
               if spAuthMode p = ''entra_app'' \<or> spAuthMode p = ''github_app'' then
                 (case mint p of Inr t \<Rightarrow> (Some t, db1) | Inl e \<Rightarrow> (None, db1))
               else creatorToken E createdBy providerID db1
           | (_, db1) \<Rightarrow> creatorToken E createdBy providerID db1))"

definition versionPath :: "Module \<Rightarrow> string \<Rightarrow> string" where
  "versionPath m version =
     ''modules/'' @ mdNamespace m @ ''/'' @ mdName m @ ''/'' @ mdSystem m @ ''/'' @ mdName m @ ''-'' @ version @ ''.tar.gz''"

text \<open>The first half of \<^verbatim>\<open>publishModuleVersion\<close>: the archive is packaged and uploaded. \<open>Inr\<close> gives path, content and checksum.\<close>

definition stageArchive ::
  "'s pubenv \<Rightarrow> string option \<Rightarrow> ModuleSCMRepo \<Rightarrow> WebhookEvent \<Rightarrow> string \<Rightarrow> scmdb \<times> 's \<Rightarrow>
   (string + string \<times> string \<times> string) \<times> scmdb \<times> 's" where
  "stageArchive E token repo hook version st =
     (case st of (db, s) \<Rightarrow>
      case GetModuleByID (srModuleID repo) db of
        (Inl e, db1) \<Rightarrow> (Inl (''look up module: '' @ e), db1, s)
      | (Inr None, db1) \<Rightarrow> (Inl (''module '' @ srModuleID repo @ '' not found''), db1, s)
      | (Inr (Some m), db1) \<Rightarrow>
     (case puPackage E token (srRepositoryOwner repo) (srRepositoryName repo) (hkCommitSHA hook) (srModulePath repo) of
        Inl e \<Rightarrow> (Inl (''download source: '' @ e), db1, s)
      | Inr (content, checksum) \<Rightarrow>
     (case puOpenArchive E of
        Inl e \<Rightarrow> (Inl (''open archive: '' @ e), db1, s)
      | Inr _ \<Rightarrow>
     (case puStatArchive E of
        Inl e \<Rightarrow> (Inl (''stat temp file: '' @ e), db1, s)
      | Inr _ \<Rightarrow>
     (case stUpload (puStore E) (versionPath m version) (content, False) (length content) s of
        (Inl e, s1) \<Rightarrow> (Inl (''upload to storage: '' @ e), db1, s1)
      | (Inr _, s1) \<Rightarrow> (Inr (versionPath m version, content, checksum), db1, s1))))))"

text \<open>
  The second half: the version row, then the scan and the documentation, whose errors are only logged. The id returned is
  \<open>localID\<close>, the one the publisher drew, not the one of the row.
\<close>

definition recordVersion ::
  "'s pubenv \<Rightarrow> string \<Rightarrow> string \<Rightarrow> int \<Rightarrow> ModuleSCMRepo \<Rightarrow> WebhookEvent \<Rightarrow> string \<Rightarrow> string \<times> string \<times> string \<Rightarrow> scmdb \<Rightarrow>
   (string + string) \<times> scmdb" where
  "recordVersion E localID dbID now repo hook version archive db =
     (case archive of (path, content, checksum) \<Rightarrow>
      let moduleVersion = \<lparr>mvID = localID, mvModuleID = srModuleID repo, mvVersion = version, mvStoragePath = path,
            mvStorageBackend = ''default'', mvSizeBytes = length content, mvChecksum = checksum,
            mvReadme = puReadme E content, mvCommitSHA = Some (hkCommitSHA hook), mvTagName = Some (hkTagName hook),
            mvSCMRepoID = Some (srID repo), mvCreatedAt = now\<rparr> in
      case CreateVersion dbID now moduleVersion db of
        (Inl e, db1) \<Rightarrow> (Inl (''create version: '' @ e), db1)
      | (Inr mv, db1) \<Rightarrow>
          let db2 = (if puScanning E then snd (CreatePendingScan (mvID mv) db1) else db1);
              db3 = (if puDocs E then
                       (case puAnalyze E content of
                          Inr (Some doc) \<Rightarrow> snd (UpsertModuleDocs (mvID mv) doc db2)
                        | _ \<Rightarrow> db2)
                     else db2)
          in (Inr localID, db3))"

definition publishModuleVersion ::
  "'s pubenv \<Rightarrow> string \<Rightarrow> string \<Rightarrow> int \<Rightarrow> string option \<Rightarrow> ModuleSCMRepo \<Rightarrow> WebhookEvent \<Rightarrow> string \<Rightarrow> scmdb \<times> 's \<Rightarrow>
   (string + string) \<times> scmdb \<times> 's" where
  "publishModuleVersion E localID dbID now token repo hook version st =
     (case stageArchive E token repo hook version st of
        (Inl e, st1) \<Rightarrow> (Inl e, st1)
      | (Inr archive, db1, s1) \<Rightarrow>
          (case recordVersion E localID dbID now repo hook version archive db1 of (r, db2) \<Rightarrow> (r, db2, s1)))"

definition nsPerMinute :: int where "nsPerMinute = 60 * 10 ^ 9"

definition failPush :: "string \<Rightarrow> string \<Rightarrow> int \<Rightarrow> scmdb \<Rightarrow> scmdb" where
  "failPush logID msg now db =
     snd (MarkWebhookForRetry logID (now + nsPerMinute)
       (snd (UpdateWebhookLogState logID ''failed'' (Some msg) None now db)))"

definition nilUUID :: string where "nilUUID = ''00000000-0000-0000-0000-000000000000''"

definition ProcessTagPush ::
  "'s pubenv \<Rightarrow> string \<Rightarrow> string \<Rightarrow> int \<Rightarrow> string \<Rightarrow> ModuleSCMRepo \<Rightarrow> WebhookEvent \<Rightarrow> scmdb \<times> 's \<Rightarrow> scmdb \<times> 's" where
  "ProcessTagPush E localID dbID now logID repo hook st =
     (case st of (db, s) \<Rightarrow>
      case UpdateWebhookLogState logID ''processing'' None None now db of
        (Inl e, db1) \<Rightarrow> (db1, s)
      | (Inr _, db1) \<Rightarrow>
     let version = extractVersionFromTag (hkTagName hook) (srTagPattern repo) in
     if version = [] then (failPush logID ''could not extract version from tag'' now db1, s)
     else
     (case GetVersion (srModuleID repo) version db1 of
        (Inl e, db2) \<Rightarrow> (failPush logID (''failed to check for existing version: '' @ e) now db2, s)
      | (Inr (Some _), db2) \<Rightarrow>
          (snd (UpdateWebhookLogState logID ''skipped'' (Some (''version '' @ version @ '' already exists, skipping'')) None now db2), s)
      | (Inr None, db2) \<Rightarrow>
     (case GetModuleByID (srModuleID repo) db2 of
        (Inl e, db3) \<Rightarrow> (failPush logID (''failed to look up module: '' @ e) now db3, s)
      | (Inr None, db3) \<Rightarrow> (failPush logID ''module not found'' now db3, s)
      | (Inr (Some m), db3) \<Rightarrow>
     (case resolveSourceToken E (mdCreatedBy m) (srSCMProviderID repo) db3 of
        (token, db4) \<Rightarrow>
     (case publishModuleVersion E localID dbID now token repo hook version (db4, s) of
        (Inl e, db5, s5) \<Rightarrow> (failPush logID (''failed to publish version: '' @ e) now db5, s5)
      | (Inr versionID, db5, s5) \<Rightarrow>
          (snd (UpdateWebhookLogState logID ''completed'' None
             (Some (case puUuidParse E versionID of Some u \<Rightarrow> u | None \<Rightarrow> nilUUID)) now db5), s5))))))"

section \<open>webhook\_retry\_job.go\<close>

text \<open>The duration is computed in 64 bits: the shift and the product wrap.\<close>

definition wrapInt64 :: "int \<Rightarrow> int" where
  "wrapInt64 x = (x + 2 ^ 63) mod 2 ^ 64 - 2 ^ 63"

definition calculateBackoff :: "int \<Rightarrow> int" where
  "calculateBackoff retryCount =
     (let n = nat (retryCount mod 2 ^ 64) in
      wrapInt64 (nsPerMinute * wrapInt64 (if n < 64 then 2 ^ n else 0)))"

text \<open>The two ends of a failed attempt; \<open>maxRetries\<close> is the configured limit.\<close>

definition scheduleRetry :: "int \<Rightarrow> SCMWebhookEvent \<Rightarrow> string \<Rightarrow> int \<Rightarrow> scmdb \<Rightarrow> scmdb" where
  "scheduleRetry maxRetries event errMsg now db =
     (let newRetryCount = evRetryCount event + 1 in
      if newRetryCount \<ge> maxRetries then snd (SetWebhookRetryState (evID event) newRetryCount errMsg now db)
      else snd (SetWebhookRetryState (evID event) newRetryCount errMsg (now + calculateBackoff newRetryCount) db))"

definition failRetry :: "int \<Rightarrow> SCMWebhookEvent \<Rightarrow> string \<Rightarrow> int \<Rightarrow> scmdb \<Rightarrow> scmdb" where
  "failRetry maxRetries event errMsg now db = scheduleRetry maxRetries event errMsg now db"

definition storedHook :: "SCMWebhookEvent \<Rightarrow> WebhookEvent" where
  "storedHook e =
     \<lparr>hkID = (case evEventID e of None \<Rightarrow> [] | Some x \<Rightarrow> x), hkType = evEventType e,
      hkRef = (case evRef e of None \<Rightarrow> [] | Some x \<Rightarrow> x), hkCommitSHA = (case evCommitSHA e of None \<Rightarrow> [] | Some x \<Rightarrow> x),
      hkTagName = (case evTagName e of None \<Rightarrow> [] | Some x \<Rightarrow> x), hkPayload = evPayload e\<rparr>"

text \<open>After the attempt the event is read again: done if it is processed without error, else it is scheduled anew.\<close>

definition afterRetry :: "row_scan \<Rightarrow> int \<Rightarrow> SCMWebhookEvent \<Rightarrow> int \<Rightarrow> scmdb \<Rightarrow> scmdb" where
  "afterRetry scan maxRetries event now db =
     (case GetWebhookLog scan (evID event) db of
        ((updated, err), db1) \<Rightarrow>
          if err = None \<and> (case updated of None \<Rightarrow> False | Some u \<Rightarrow> evProcessed u \<and> evError u = None) then db1
          else
            let lastErr = (case updated of
                  None \<Rightarrow> ''unknown error''
                | Some u \<Rightarrow> (case evLastError u of Some e \<Rightarrow> e
                             | None \<Rightarrow> (case evError u of Some e \<Rightarrow> e | None \<Rightarrow> ''unknown error'')))
            in scheduleRetry maxRetries event lastErr now db1)"

text \<open>The error texts of the three loading steps do not spell out the error value.\<close>

definition retryOne ::
  "'s pubenv \<Rightarrow> hookenv \<Rightarrow> row_scan \<Rightarrow> int \<Rightarrow> string \<Rightarrow> string \<Rightarrow> int \<Rightarrow> SCMWebhookEvent \<Rightarrow> scmdb \<times> 's \<Rightarrow> scmdb \<times> 's" where
  "retryOne E H scan maxRetries localID dbID now event st =
     (case st of (db, s) \<Rightarrow>
      case GetModuleSourceRepoByID (evModuleSCMRepoID event) db of
        (Inr (Some repo), db1) \<Rightarrow>
     (case GetProvider (srSCMProviderID repo) db1 of
        (Inr (Some provider), db2) \<Rightarrow>
     (case heOpen H (spClientSecretEncrypted provider) of
        Inl e \<Rightarrow> (failRetry maxRetries event ''failed to decrypt client secret'' now db2, s)
      | Inr clientSecret \<Rightarrow>
     (case BuildConnector (heBuilder H) (hookSettings provider clientSecret) of
        Inl e \<Rightarrow> (failRetry maxRetries event ''failed to build connector'' now db2, s)
      | Inr _ \<Rightarrow>
     (case ProcessTagPush E localID dbID now (evID event) repo (storedHook event) (db2, s) of
        (db3, s3) \<Rightarrow> (afterRetry scan maxRetries event now db3, s3))))
      | (_, db2) \<Rightarrow> (failRetry maxRetries event ''failed to load SCM provider'' now db2, s))
      | (_, db1) \<Rightarrow> (failRetry maxRetries event ''failed to load module SCM repo'' now db1, s))"

text \<open>One cycle: \<open>ids\<close> gives the fresh ids for each event.\<close>

definition runRetryCycle ::
  "'s pubenv \<Rightarrow> hookenv \<Rightarrow> row_scan \<Rightarrow> (SCMWebhookEvent list \<Rightarrow> SCMWebhookEvent list) \<Rightarrow> int \<Rightarrow> (string \<Rightarrow> string \<times> string) \<Rightarrow> int \<Rightarrow>
   scmdb \<times> 's \<Rightarrow> scmdb \<times> 's" where
  "runRetryCycle E H scan sortNext maxRetries ids now st =
     (case st of (db, s) \<Rightarrow>
      case GetRetryableWebhookEvents scan sortNext 10 now db of
        (Inl e, db1) \<Rightarrow> (db1, s)
      | (Inr events, db1) \<Rightarrow>
          fold (\<lambda>e. retryOne E H scan maxRetries (fst (ids (evID e))) (snd (ids (evID e))) now e) events (db1, s))"

section \<open>What the operations keep\<close>

text \<open>The columns of an event that are written once, at its intake.\<close>

definition evCore :: "SCMWebhookEvent \<Rightarrow> string \<times> string \<times> string option \<times> string option \<times> bool option" where
  "evCore e = (evID e, evModuleSCMRepoID e, evCommitSHA e, evTagName e, evSignatureValid e)"

definition keeps :: "scmdb \<Rightarrow> scmdb \<Rightarrow> bool" where
  "keeps db db' \<longleftrightarrow> dbRepos db' = dbRepos db \<and> dbProviders db' = dbProviders db \<and> dbModules db' = dbModules db \<and>
     dbVersions db' = dbVersions db \<and> map evCore (dbEvents db') = map evCore (dbEvents db)"

named_theorems scm_keeps \<open>operations that keep the tables but for the state columns of events\<close>

lemma keeps_refl [simp]: "keeps db db" by (simp add: keeps_def)

lemma keeps_trans [trans]: "keeps a b \<Longrightarrow> keeps b c \<Longrightarrow> keeps a c" by (simp add: keeps_def)

lemma keeps_query: "scmQuery q db = (r, db1) \<Longrightarrow> keeps db db1"
  by (auto dest: scmQuery_frame simp: keeps_def)

lemma keeps_exec: "(\<And>d. keeps d (upd d)) \<Longrightarrow> scmExec ok upd db = (r, db1) \<Longrightarrow> keeps db db1"
  using scmExec_cases[of ok upd db r db1] by (fastforce simp: keeps_def)

lemma keeps_updateEvent: "(\<And>e. evCore (f e) = evCore e) \<Longrightarrow> keeps d (updateEvent i f d)"
  by (simp add: keeps_def updateEvent_def)

lemma keeps_UpdateWebhookLogState [scm_keeps]: "UpdateWebhookLogState i st e v now db = (r, db1) \<Longrightarrow> keeps db db1"
  unfolding UpdateWebhookLogState_def
  by (cases "st = ''processing''") (auto elim!: keeps_exec[rotated] intro!: keeps_updateEvent simp: evCore_def)

lemma keeps_MarkWebhookForRetry [scm_keeps]: "MarkWebhookForRetry i t db = (r, db1) \<Longrightarrow> keeps db db1"
  unfolding MarkWebhookForRetry_def by (auto elim!: keeps_exec[rotated] intro!: keeps_updateEvent simp: evCore_def)

lemma keeps_SetWebhookRetryState [scm_keeps]: "SetWebhookRetryState i n e t db = (r, db1) \<Longrightarrow> keeps db db1"
  unfolding SetWebhookRetryState_def by (auto elim!: keeps_exec[rotated] intro!: keeps_updateEvent simp: evCore_def)

lemma keeps_reads [scm_keeps]:
  "GetModuleSourceRepoByID i db = (r1, db1) \<Longrightarrow> keeps db db1" "GetProvider i db = (r2, db1) \<Longrightarrow> keeps db db1"
  "GetUserToken u p db = (r3, db1) \<Longrightarrow> keeps db db1" "GetModuleByID i db = (r4, db1) \<Longrightarrow> keeps db db1"
  "GetVersion i v db = (r5, db1) \<Longrightarrow> keeps db db1"
  by (auto simp: GetModuleSourceRepoByID_def GetProvider_def GetUserToken_def GetModuleByID_def GetVersion_def elim: keeps_query)

lemma keeps_GetWebhookLog [scm_keeps]: "GetWebhookLog scan i db = (r, db1) \<Longrightarrow> keeps db db1"
  unfolding GetWebhookLog_def by (auto split: prod.splits sum.splits option.splits dest: keeps_query)

lemma keeps_scan_docs [scm_keeps]:
  "CreatePendingScan i db = (r, db1) \<Longrightarrow> keeps db db1" "UpsertModuleDocs i d db = (r, db1) \<Longrightarrow> keeps db db1"
  unfolding CreatePendingScan_def UpsertModuleDocs_def by (erule keeps_exec[rotated], simp add: keeps_def)+

lemma keeps_snd:
  "keeps db (snd (UpdateWebhookLogState i st e v now db))" "keeps db (snd (MarkWebhookForRetry i t db))"
  "keeps db (snd (SetWebhookRetryState i n e2 t db))" "keeps db (snd (CreatePendingScan i db))" "keeps db (snd (UpsertModuleDocs i d db))"
  by (metis prod.collapse scm_keeps)+

lemma keeps_failPush: "keeps db (failPush logID msg now db)"
  unfolding failPush_def using keeps_snd(1,2) by (rule keeps_trans)

lemma keeps_schedule: "keeps db (scheduleRetry m ev e now db)" "keeps db (failRetry m ev e now db)"
  by (simp_all add: scheduleRetry_def failRetry_def Let_def keeps_snd)

lemma keeps_creatorToken: "creatorToken E cb p db = (t, db1) \<Longrightarrow> keeps db db1"
  unfolding creatorToken_def by (auto split: option.splits prod.splits sum.splits dest: scm_keeps)

lemma keeps_resolveSourceToken: "resolveSourceToken E cb p db = (t, db1) \<Longrightarrow> keeps db db1"
  unfolding resolveSourceToken_def
  by (auto split: option.splits prod.splits sum.splits if_splits dest: scm_keeps keeps_creatorToken intro: keeps_trans)

text \<open>A version published for a tag of a linked repository.\<close>

definition publishedFrom :: "ModuleSCMRepo \<Rightarrow> WebhookEvent \<Rightarrow> ModuleVersion \<Rightarrow> bool" where
  "publishedFrom repo hook v \<longleftrightarrow> mvModuleID v = srModuleID repo \<and> mvSCMRepoID v = Some (srID repo) \<and>
     mvCommitSHA v = Some (hkCommitSHA hook) \<and> mvTagName v = Some (hkTagName hook) \<and>
     mvVersion v = extractVersionFromTag (hkTagName hook) (srTagPattern repo) \<and> mvVersion v \<noteq> []"

definition newVersion :: "ModuleSCMRepo \<Rightarrow> WebhookEvent \<Rightarrow> scmdb \<Rightarrow> scmdb \<Rightarrow> bool" where
  "newVersion repo hook db db' \<longleftrightarrow> (\<exists>v. publishedFrom repo hook v \<and>
     (mvModuleID v, mvVersion v) \<notin> (\<lambda>x. (mvModuleID x, mvVersion x)) ` set (dbVersions db) \<and>
     mvID v \<notin> mvID ` set (dbVersions db) \<and>
     keeps (db\<lparr>dbVersions := dbVersions db @ [v]\<rparr>) db')"

lemma keeps_tables: "keeps db db1 \<Longrightarrow> dbVersions db1 = dbVersions db" by (simp add: keeps_def)

lemma keeps_add: "keeps a b \<Longrightarrow> keeps (a\<lparr>dbVersions := dbVersions a @ [v]\<rparr>) (b\<lparr>dbVersions := dbVersions b @ [v]\<rparr>)"
  by (simp add: keeps_def)

lemma newVersion_left:
  assumes "keeps a b" "newVersion r h b c"
  shows "newVersion r h a c"
proof -
  from assms(2) obtain v where v: "publishedFrom r h v" "(mvModuleID v, mvVersion v) \<notin> (\<lambda>x. (mvModuleID x, mvVersion x)) ` set (dbVersions b)"
    "mvID v \<notin> mvID ` set (dbVersions b)" "keeps (b\<lparr>dbVersions := dbVersions b @ [v]\<rparr>) c"
    unfolding newVersion_def by blast
  from keeps_trans[OF keeps_add[OF assms(1)] v(4)] v(1-3) show ?thesis
    unfolding newVersion_def keeps_tables[OF assms(1)] by blast
qed

lemma newVersion_right: "newVersion r h a b \<Longrightarrow> keeps b c \<Longrightarrow> newVersion r h a c"
  unfolding newVersion_def by (blast intro: keeps_trans)

lemma CreateVersion_Inr:
  assumes "CreateVersion dbID now v db = (Inr mv, db1)"
  shows "mv = v\<lparr>mvID := dbID, mvCreatedAt := now\<rparr> \<and>
    (mvModuleID mv, mvVersion mv) \<notin> (\<lambda>x. (mvModuleID x, mvVersion x)) ` set (dbVersions db) \<and>
    mvID mv \<notin> mvID ` set (dbVersions db) \<and> keeps (db\<lparr>dbVersions := dbVersions db @ [mv]\<rparr>) db1"
  using assms unfolding CreateVersion_def Let_def
  by (auto split: prod.splits sum.splits dest!: scmExec_cases simp: list_ex_iff keeps_def)

lemma CreateVersion_Inl: "CreateVersion dbID now v db = (Inl e, db1) \<Longrightarrow> keeps db db1"
  unfolding CreateVersion_def Let_def by (auto split: prod.splits sum.splits dest!: scmExec_cases simp: keeps_def)

lemma stageArchive_keeps: "stageArchive E t repo hook v (db, s) = (r, db1, s1) \<Longrightarrow> keeps db db1"
  unfolding stageArchive_def by (auto split: prod.splits sum.splits option.splits dest: scm_keeps)

lemma recordVersion_frame:
  assumes "recordVersion E l i now repo hook v a db = (r, db1)" "v = extractVersionFromTag (hkTagName hook) (srTagPattern repo)" "v \<noteq> []"
  shows "(\<exists>e. r = Inl e) \<and> keeps db db1 \<or> r = Inr l \<and> newVersion repo hook db db1"
proof -
  obtain path content checksum where a: "a = (path, content, checksum)" by (metis prod.exhaust)
  let ?mv = "\<lparr>mvID = l, mvModuleID = srModuleID repo, mvVersion = v, mvStoragePath = path,
            mvStorageBackend = ''default'', mvSizeBytes = length content, mvChecksum = checksum,
            mvReadme = puReadme E content, mvCommitSHA = Some (hkCommitSHA hook), mvTagName = Some (hkTagName hook),
            mvSCMRepoID = Some (srID repo), mvCreatedAt = now\<rparr>"
  obtain q db2 where q: "CreateVersion i now ?mv db = (q, db2)" by fastforce
  show ?thesis
  proof (cases q)
    case (Inl e)
    with assms(1) a q CreateVersion_Inl[of i now ?mv db e db2] show ?thesis by (auto simp: recordVersion_def)
  next
    case (Inr mv)
    note c = CreateVersion_Inr[OF q[unfolded Inr]]
    let ?d3 = "if puScanning E then snd (CreatePendingScan (mvID mv) db2) else db2"
    let ?d4 = "if puDocs E then (case puAnalyze E content of Inr (Some doc) \<Rightarrow> snd (UpsertModuleDocs (mvID mv) doc ?d3) | _ \<Rightarrow> ?d3) else ?d3"
    have "keeps db2 ?d3" by (simp add: keeps_snd)
    also have "keeps ?d3 ?d4" by (auto simp: keeps_snd split: sum.splits option.splits)
    finally have k: "keeps db2 ?d4" .
    have "publishedFrom repo hook mv" using c assms(2,3) by (simp add: publishedFrom_def)
    with c have "newVersion repo hook db db2" unfolding newVersion_def by blast
    from newVersion_right[OF this k] assms(1) a q Inr show ?thesis by (simp add: recordVersion_def Let_def)
  qed
qed

lemma publishModuleVersion_frame:
  assumes "publishModuleVersion E l i now t repo hook v (db, s) = (r, db1, s1)"
    "v = extractVersionFromTag (hkTagName hook) (srTagPattern repo)" "v \<noteq> []"
  shows "(\<exists>e. r = Inl e) \<and> keeps db db1 \<or> r = Inr l \<and> newVersion repo hook db db1"
proof -
  obtain q db2 s2 where q: "stageArchive E t repo hook v (db, s) = (q, db2, s2)" by (metis prod.exhaust)
  note k = stageArchive_keeps[OF q]
  show ?thesis
  proof (cases q)
    case (Inl e)
    with assms(1) q k show ?thesis by (auto simp: publishModuleVersion_def)
  next
    case (Inr a)
    obtain r2 db3 where r: "recordVersion E l i now repo hook v a db2 = (r2, db3)" by fastforce
    from recordVersion_frame[OF r assms(2,3)] k have "(\<exists>e. r2 = Inl e) \<and> keeps db db3 \<or> r2 = Inr l \<and> newVersion repo hook db db3"
      by (auto intro: keeps_trans newVersion_left)
    with assms(1) q Inr r show ?thesis by (auto simp: publishModuleVersion_def)
  qed
qed

lemma ProcessTagPush_frame:
  assumes "ProcessTagPush E l i now logID repo hook (db, s) = (db', s')"
  shows "keeps db db' \<or> newVersion repo hook db db'"
proof -
  let ?v = "extractVersionFromTag (hkTagName hook) (srTagPattern repo)"
  note a = assms[unfolded ProcessTagPush_def prod.case Let_def]
  obtain q1 db1 where q1: "UpdateWebhookLogState logID ''processing'' None None now db = (q1, db1)" by fastforce
  note k1 = keeps_UpdateWebhookLogState[OF q1]
  obtain q2 db2 where q2: "GetVersion (srModuleID repo) ?v db1 = (q2, db2)" by fastforce
  have k2: "keeps db db2" using k1 keeps_reads(5)[OF q2] by (rule keeps_trans)
  obtain q3 db3 where q3: "GetModuleByID (srModuleID repo) db2 = (q3, db3)" by fastforce
  have k3: "keeps db db3" using k2 keeps_reads(4)[OF q3] by (rule keeps_trans)
  note a = a[unfolded q1 prod.case q2 q3]
  show ?thesis
  proof (cases "(\<exists>u. q1 = Inr u) \<and> ?v \<noteq> [] \<and> q2 = Inr None \<and> (\<exists>m. q3 = Inr (Some m))")
    case False
    have "db' = db1 \<or> (\<exists>m. db' = failPush logID m now db1) \<or> (\<exists>m. db' = failPush logID m now db2) \<or>
      (\<exists>m. db' = snd (UpdateWebhookLogState logID ''skipped'' (Some m) None now db2)) \<or> (\<exists>m. db' = failPush logID m now db3)"
      using a False by (auto split: sum.splits option.splits if_splits)
    with k1 k2 k3 have "keeps db db'" by (auto intro: keeps_trans keeps_failPush keeps_snd(1))
    then show ?thesis ..
  next
    case True
    then obtain u m where t: "q1 = Inr u" "?v \<noteq> []" "q2 = Inr None" "q3 = Inr (Some m)" by blast
    note a = a[unfolded t(1,3,4) sum.case option.case if_not_P[OF t(2)]]
    obtain tok db4 where q4: "resolveSourceToken E (mdCreatedBy m) (srSCMProviderID repo) db3 = (tok, db4)" by fastforce
    have k4: "keeps db db4" using k3 keeps_resolveSourceToken[OF q4] by (rule keeps_trans)
    obtain q5 db5 s5 where q5: "publishModuleVersion E l i now tok repo hook ?v (db4, s) = (q5, db5, s5)" by (metis prod.exhaust)
    note a = a[unfolded q4 prod.case q5]
    from publishModuleVersion_frame[OF q5 refl t(2)] k4 have
      5: "(\<exists>e. q5 = Inl e) \<and> keeps db db5 \<or> q5 = Inr l \<and> newVersion repo hook db db5" by (auto intro: keeps_trans newVersion_left)
    from a have "keeps db5 db'" by (auto split: sum.splits simp: keeps_failPush keeps_snd)
    with 5 show ?thesis by (auto intro: keeps_trans newVersion_right)
  qed
qed

lemma keeps_afterRetry: "keeps db (afterRetry scan m ev now db)"
proof -
  obtain u err db1 where g: "GetWebhookLog scan (evID ev) db = ((u, err), db1)" by (metis prod.exhaust)
  show ?thesis using keeps_GetWebhookLog[OF g] keeps_schedule(1) by (auto simp: afterRetry_def g Let_def intro: keeps_trans)
qed

lemma retryOne_frame:
  assumes "retryOne E H scan mx l i now ev (db, s) = (db', s')"
  shows "keeps db db' \<or> (\<exists>repo \<in> set (dbRepos db). srID repo = evModuleSCMRepoID ev \<and> newVersion repo (storedHook ev) db db')"
proof -
  note a = assms[unfolded retryOne_def prod.case]
  obtain q1 db1 where q1: "GetModuleSourceRepoByID (evModuleSCMRepoID ev) db = (q1, db1)" by fastforce
  note k1 = keeps_reads(1)[OF q1]
  show ?thesis
  proof (cases "\<exists>repo. q1 = Inr (Some repo)")
    case False
    with a q1 k1 show ?thesis by (auto split: sum.splits option.splits intro: keeps_trans keeps_schedule)
  next
    case True
    then obtain repo where r: "q1 = Inr (Some repo)" by blast
    from scmQuery_Inr[OF q1[unfolded r GetModuleSourceRepoByID_def]] k1 have
      repo: "repo \<in> set (dbRepos db)" "srID repo = evModuleSCMRepoID ev"
      by (auto simp: keeps_def dest: find_Some_member[OF sym])
    obtain q2 db2 where q2: "GetProvider (srSCMProviderID repo) db1 = (q2, db2)" by fastforce
    have k2: "keeps db db2" using k1 keeps_reads(2)[OF q2] by (rule keeps_trans)
    obtain db3 s3 where p: "ProcessTagPush E l i now (evID ev) repo (storedHook ev) (db2, s) = (db3, s3)" by fastforce
    have "(\<exists>m. db' = failRetry mx ev m now db2) \<or> db' = afterRetry scan mx ev now db3"
      using a[unfolded q1 r prod.case sum.case option.case q2] p
      by (auto split: sum.splits option.splits prod.splits)
    moreover have "keeps db2 db3 \<or> newVersion repo (storedHook ev) db2 db3" using ProcessTagPush_frame[OF p] .
    moreover have "keeps db3 (afterRetry scan mx ev now db3)" by (rule keeps_afterRetry)
    ultimately have "keeps db2 db' \<or> newVersion repo (storedHook ev) db2 db'"
      by (elim disjE exE) (auto intro: keeps_trans newVersion_right keeps_schedule)
    then show ?thesis using k2 repo by (auto intro: keeps_trans newVersion_left)
  qed
qed

section \<open>Deliveries, publications and retries in any order\<close>

definition cores :: "scmdb \<Rightarrow> (string \<times> string \<times> string option \<times> string option \<times> bool option) set" where
  "cores db = evCore ` set (dbEvents db)"

inductive hook_step :: "scmdb \<times> 's \<times> publish_job list \<Rightarrow> scmdb \<times> 's \<times> publish_job list \<Rightarrow> bool" where
  deliver: "HandleWebhook H logID now body hdrs c db = ((resp, job), db') \<Longrightarrow>
     hook_step (db, s, jobs) (db', s, jobs @ (case job of None \<Rightarrow> [] | Some j \<Rightarrow> [j]))"
| run: "ProcessTagPush E l i now logID repo hook (db, s) = (db', s') \<Longrightarrow>
     hook_step (db, s, pre @ (logID, repo, hook) # post) (db', s', pre @ post)"
| retry: "runRetryCycle E H scan sortNext mx ids now (db, s) = (db', s') \<Longrightarrow> (\<And>es. set (sortNext es) = set es) \<Longrightarrow>
     hook_step (db, s, jobs) (db', s', jobs)"

definition provenance :: "scmdb \<Rightarrow> ModuleVersion \<Rightarrow> bool" where
  "provenance db v \<longleftrightarrow> (\<exists>repo \<in> set (dbRepos db). \<exists>hook. publishedFrom repo hook v \<and>
     (\<exists>l. (l, srID repo, Some (hkCommitSHA hook), Some (hkTagName hook), Some True) \<in> cores db))"

definition hookInv :: "scmdb \<Rightarrow> scmdb \<times> 's \<times> publish_job list \<Rightarrow> bool" where
  "hookInv db0 st \<longleftrightarrow> (case st of (db, s, jobs) \<Rightarrow>
     dbRepos db = dbRepos db0 \<and>
     (\<exists>new. dbVersions db = dbVersions db0 @ new \<and> (\<forall>v \<in> set new. provenance db v)) \<and>
     distinct (map (\<lambda>v. (mvModuleID v, mvVersion v)) (dbVersions db)) \<and>
     (\<forall>x \<in> cores db. \<exists>l r c t. x = (l, r, Some c, Some t, Some True)) \<and>
     (\<forall>(l, repo, hook) \<in> set jobs. repo \<in> set (dbRepos db) \<and>
        (l, srID repo, Some (hkCommitSHA hook), Some (hkTagName hook), Some True) \<in> cores db))"

lemma cores_keeps: "keeps db db' \<Longrightarrow> cores db' = cores db"
  unfolding keeps_def cores_def by (metis list.set_map)

lemma provenance_mono: "provenance db v \<Longrightarrow> dbRepos db' = dbRepos db \<Longrightarrow> cores db \<subseteq> cores db' \<Longrightarrow> provenance db' v"
  unfolding provenance_def by auto

lemma hookInv_keeps:
  assumes "hookInv db0 (db, s, jobs)" "keeps db db'" "set jobs' \<subseteq> set jobs"
  shows "hookInv db0 (db', s', jobs')"
proof -
  have "provenance db v \<Longrightarrow> provenance db' v" for v
    using assms(2) cores_keeps[OF assms(2)] by (auto intro: provenance_mono simp: keeps_def)
  then show ?thesis using assms cores_keeps[OF assms(2)] unfolding hookInv_def prod.case keeps_def by fastforce
qed

lemma hookInv_new:
  assumes I: "hookInv db0 (db, s, jobs)" and n: "newVersion repo hook db db'" and "set jobs' \<subseteq> set jobs"
    and r: "repo \<in> set (dbRepos db)" "(l, srID repo, Some (hkCommitSHA hook), Some (hkTagName hook), Some True) \<in> cores db"
  shows "hookInv db0 (db', s', jobs')"
proof -
  from n obtain v where v: "publishedFrom repo hook v"
    "(mvModuleID v, mvVersion v) \<notin> (\<lambda>x. (mvModuleID x, mvVersion x)) ` set (dbVersions db)"
    "keeps (db\<lparr>dbVersions := dbVersions db @ [v]\<rparr>) db'" unfolding newVersion_def by blast
  let ?d = "db\<lparr>dbVersions := dbVersions db @ [v]\<rparr>"
  have c: "cores ?d = cores db" by (simp add: cores_def)
  have p: "provenance db w \<Longrightarrow> provenance ?d w" for w by (rule provenance_mono) (auto simp: c)
  have pv: "provenance db v" using v(1) r unfolding provenance_def by blast
  from I obtain new where new: "dbVersions db = dbVersions db0 @ new" "\<forall>w \<in> set new. provenance db w" unfolding hookInv_def by auto
  have "dbVersions ?d = dbVersions db0 @ (new @ [v])" "\<forall>w \<in> set (new @ [v]). provenance ?d w" using new p pv by auto
  then have "\<exists>new. dbVersions ?d = dbVersions db0 @ new \<and> (\<forall>w \<in> set new. provenance ?d w)" by blast
  moreover have "distinct (map (\<lambda>v. (mvModuleID v, mvVersion v)) (dbVersions ?d))" using I v(2) unfolding hookInv_def by auto
  moreover from I have i: "dbRepos db = dbRepos db0" "\<forall>x \<in> cores db. \<exists>l r c t. x = (l, r, Some c, Some t, Some True)"
    "\<forall>(l, repo, hook) \<in> set jobs. repo \<in> set (dbRepos db) \<and>
        (l, srID repo, Some (hkCommitSHA hook), Some (hkTagName hook), Some True) \<in> cores db"
    unfolding hookInv_def prod.case by blast+
  have "dbRepos ?d = dbRepos db" by simp
  ultimately have "hookInv db0 (?d, s, jobs)" using i(1,2) i(3) unfolding hookInv_def prod.case c \<open>dbRepos ?d = dbRepos db\<close> by blast
  from hookInv_keeps[OF this v(3) assms(3)] show ?thesis .
qed

lemma hookInv_retry:
  assumes "hookInv db0 (db, s, jobs)" "\<forall>e \<in> set es. evCore e \<in> cores db" "fold (\<lambda>e. retryOne E H scan mx (f e) (g e) now e) es (db, s) = (db', s')"
  shows "hookInv db0 (db', s', jobs)"
  using assms
proof (induction es arbitrary: db s)
  case (Cons e es)
  obtain db1 s1 where r: "retryOne E H scan mx (f e) (g e) now e (db, s) = (db1, s1)" by fastforce
  have e: "evCore e \<in> cores db" using Cons.prems(2) by simp
  with Cons.prems(1) obtain l r0 c t where ce: "evCore e = (l, r0, Some c, Some t, Some True)" unfolding hookInv_def by fastforce
  have core: "(l, evModuleSCMRepoID e, Some (hkCommitSHA (storedHook e)), Some (hkTagName (storedHook e)), Some True) \<in> cores db"
    using e ce by (auto simp: evCore_def storedHook_def)
  have "hookInv db0 (db1, s1, jobs) \<and> cores db1 = cores db"
    using retryOne_frame[OF r]
  proof (elim disjE bexE conjE)
    assume k: "keeps db db1"
    show ?thesis using hookInv_keeps[OF Cons.prems(1) k subset_refl, of s1] cores_keeps[OF k] by simp
  next
    fix repo assume p: "repo \<in> set (dbRepos db)" "srID repo = evModuleSCMRepoID e" "newVersion repo (storedHook e) db db1"
    from p(3) obtain v where k: "keeps (db\<lparr>dbVersions := dbVersions db @ [v]\<rparr>) db1" unfolding newVersion_def by blast
    have "cores db1 = cores db" using cores_keeps[OF k] by (simp add: cores_def)
    with hookInv_new[OF Cons.prems(1) p(3) subset_refl p(1) core[folded p(2)], of s1] show ?thesis by simp
  qed
  with Cons.IH[of db1 s1] Cons.prems(2,3) r show ?case by simp
qed simp

lemma hookInv_deliver:
  assumes I: "hookInv db0 (db, s, jobs)" and h: "HandleWebhook H logID now body hdrs c db = ((resp, job), db')"
  shows "hookInv db0 (db', s, jobs @ (case job of None \<Rightarrow> [] | Some j \<Rightarrow> [j]))"
  using HandleWebhook_cases[OF h]
proof (elim disjE exE conjE, goal_cases)
  case (1 fs st msg)
  have "keeps db db'" using 1 by (simp add: keeps_def)
  from hookInv_keeps[OF I this subset_refl, of s] 1 show ?case by simp
next
  case (2 fs repoID payload repo url provider hook sig)
  from find_Some_member[OF 2(3)] have m: "repo \<in> set (dbRepos db)" "srID repo = repoID" by simp_all
  have c: "cores db' = insert (logID, srID repo, Some (hkCommitSHA hook), Some (hkTagName hook), Some True) (cores db)"
    using m(2) unfolding 2(14) by (simp add: cores_def evCore_def logRecord_def)
  have t: "dbRepos db' = dbRepos db" "dbVersions db' = dbVersions db" by (simp_all add: 2(14))
  have "cores db \<subseteq> cores db'" using c by auto
  then have "provenance db v \<Longrightarrow> provenance db' v" for v using t(1) by (blast intro: provenance_mono)
  with I m c show ?case unfolding hookInv_def prod.case 2(12) t by (auto split: if_splits)
qed

interpretation hooks: inductive_invariant
  "\<lambda>st. fst st = db0 \<and> snd (snd st) = [] \<and> dbEvents db0 = [] \<and> distinct (map (\<lambda>v. (mvModuleID v, mvVersion v)) (dbVersions db0))"
  hook_step "hookInv db0" for db0
proof
  fix st :: "scmdb \<times> 's \<times> publish_job list"
  assume "fst st = db0 \<and> snd (snd st) = [] \<and> dbEvents db0 = [] \<and> distinct (map (\<lambda>v. (mvModuleID v, mvVersion v)) (dbVersions db0))"
  then show "hookInv db0 st" by (cases st) (auto simp: hookInv_def cores_def)
next
  fix st t :: "scmdb \<times> 's \<times> publish_job list"
  assume I: "hookInv db0 st" and "hook_step st t"
  from this(2) show "hookInv db0 t"
  proof cases
    case (deliver H logID now body hdrs c db resp job db' s jobs)
    with hookInv_deliver[of db0 db s jobs] I show ?thesis by simp
  next
    case (run E l i now logID repo hook db s db' s' pre post)
    have j: "set (pre @ post) \<subseteq> set (pre @ (logID, repo, hook) # post)" by auto
    from I run(1) have r: "repo \<in> set (dbRepos db)"
      "(logID, srID repo, Some (hkCommitSHA hook), Some (hkTagName hook), Some True) \<in> cores db" by (auto simp: hookInv_def)
    show ?thesis unfolding run(2)
      using ProcessTagPush_frame[OF run(3)] hookInv_keeps[OF I[unfolded run(1)] _ j, of db' s'] hookInv_new[OF I[unfolded run(1)] _ j r, of db' s'] by blast
  next
    case (retry E H scan sortNext mx ids now db s db' s' jobs)
    obtain q db1 where q: "GetRetryableWebhookEvents scan sortNext 10 now db = (q, db1)" by fastforce
    obtain q0 db2 where q0: "scmQuery (\<lambda>db. take 10 (sortNext (filter (retryable now) (dbEvents db)))) db = (q0, db2)" by fastforce
    from keeps_query[OF q0] q q0 have k: "keeps db db1"
      by (auto simp: GetRetryableWebhookEvents_def split: sum.splits option.splits)
    note I1 = hookInv_keeps[OF I[unfolded retry(1)] k subset_refl]
    show ?thesis
    proof (cases q)
      case (Inl e)
      with retry q I1 show ?thesis by (auto simp: runRetryCycle_def)
    next
      case (Inr es)
      with q q0 have "q0 = Inr es" "db2 = db1" by (auto simp: GetRetryableWebhookEvents_def split: sum.splits option.splits)
      with scmQuery_Inr[of _ db es db1] q0 have "es = take 10 (sortNext (filter (retryable now) (dbEvents db1)))" by blast
      then have "\<forall>e \<in> set es. evCore e \<in> cores db1" using retry(4) by (auto simp: cores_def dest!: in_set_takeD)
      from hookInv_retry[OF I1 this] retry(2,3) q Inr show ?thesis by (auto simp: runRetryCycle_def)
    qed
  qed
qed

section \<open>Properties\<close>


definition exStore :: "unit store_ops" where
  "exStore = \<lparr>stExists = (\<lambda>p s. (Inr False, s)), stDownload = (\<lambda>p s. (Inl ''none'', s)), stSize = (\<lambda>p s. (Inl ''none'', s)),
     stUpload = (\<lambda>p r n s. (Inr (), s))\<rparr>"

definition exPub :: "unit pubenv" where
  "exPub = \<lparr>puUuidParse = Some, puMinter = None, puOpenToken = Inr, puPackage = (\<lambda>t o1 r sha p. Inr (''archive'', ''sum'')),
     puOpenArchive = Inr (), puStatArchive = Inr (), puReadme = (\<lambda>_. None), puAnalyze = (\<lambda>_. Inr None), puStore = exStore,
     puScanning = False, puDocs = False\<rparr>"

definition exVersion :: ModuleVersion where
  "exVersion = \<lparr>mvID = ''v1'', mvModuleID = ''m1'', mvVersion = ''1.0.0'', mvStoragePath = ''modules/acme/net/aws/net-1.0.0.tar.gz'',
     mvStorageBackend = ''default'', mvSizeBytes = 7, mvChecksum = ''sum'', mvReadme = None, mvCommitSHA = Some ''abc'', mvTagName = Some ''v1.0.0'',
     mvSCMRepoID = Some ''r1'', mvCreatedAt = 6\<rparr>"

definition exEvent :: SCMWebhookEvent where
  "exEvent = (logRecord ''e1'' ''r1'' exHook [] ''sha256=4A'' 5)\<lparr>evMaxRetries := 3\<rparr>"

definition exLogged :: scmdb where
  "exLogged = (exDB ''bitbucket_dc'')\<lparr>dbEvents := [exEvent]\<rparr>"

lemma extract_ex: "extractVersionFromTag ''v1.0.0'' ''v*'' = ''1.0.0''"
  by code_simp

lemma exPublish:
  "ProcessTagPush exPub ''local'' ''v1'' 6 ''e1'' exRepo exHook (exLogged, ()) =
   (exLogged\<lparr>dbEvents := [exEvent\<lparr>evProcessingStartedAt := Some 6\<rparr>], dbVersions := [exVersion]\<rparr>, ())"
proof -
  let ?d1 = "exLogged\<lparr>dbEvents := [exEvent\<lparr>evProcessingStartedAt := Some 6\<rparr>]\<rparr>" and ?p = "''modules/acme/net/aws/net-1.0.0.tar.gz''"
  have x: "extractVersionFromTag (hkTagName exHook) (srTagPattern exRepo) = ''1.0.0''" by (simp add: exHook_def exRepo_def extract_ex)
  have id: "evID exEvent = ''e1''" by (simp add: exEvent_def logRecord_def)
  have u: "UpdateWebhookLogState ''e1'' ''processing'' None None 6 exLogged = (Inr (), ?d1)"
    by (simp add: UpdateWebhookLogState_def scmExec_def scmCall_def updateEvent_def exLogged_def exDB_def id)
  let ?m = "\<lparr>mdID = ''m1'', mdNamespace = ''acme'', mdName = ''net'', mdSystem = ''aws'', mdCreatedBy = None\<rparr>"
  have gv: "GetVersion (srModuleID exRepo) ''1.0.0'' ?d1 = (Inr None, ?d1)"
    and gm: "GetModuleByID (srModuleID exRepo) ?d1 = (Inr (Some ?m), ?d1)"
    and rt: "resolveSourceToken exPub None (srSCMProviderID exRepo) ?d1 = (None, ?d1)"
    by (simp_all add: GetVersion_def GetModuleByID_def scmQuery_def scmCall_def exLogged_def exDB_def exRepo_def resolveSourceToken_def
        creatorToken_def exPub_def)
  have st: "stageArchive exPub None exRepo exHook ''1.0.0'' (?d1, ()) = (Inr (?p, ''archive'', ''sum''), ?d1, ())"
    by (simp add: stageArchive_def gm) (simp add: exPub_def exStore_def versionPath_def)
  have rv: "recordVersion exPub ''local'' ''v1'' 6 exRepo exHook ''1.0.0'' (?p, ''archive'', ''sum'') ?d1 =
      (Inr ''local'', ?d1\<lparr>dbVersions := [exVersion]\<rparr>)"
    by (simp add: recordVersion_def Let_def CreateVersion_def scmExec_def scmCall_def exLogged_def exDB_def exPub_def exRepo_def exHook_def exVersion_def)
  have fk: "UpdateWebhookLogState ''e1'' ''completed'' None (Some ''local'') 6 (?d1\<lparr>dbVersions := [exVersion]\<rparr>) =
      (Inl ''constraint'', ?d1\<lparr>dbVersions := [exVersion]\<rparr>)"
    by (simp add: UpdateWebhookLogState_def scmExec_def scmCall_def exLogged_def exDB_def id exVersion_def)
  show ?thesis
    unfolding ProcessTagPush_def prod.case u sum.case x Let_def gv gm option.case publishModuleVersion_def
    using rt st rv fk by (simp add: exPub_def)
qed


section \<open>Runs without database faults\<close>

lemma scmCall_ok: "dbFaults db = [] \<Longrightarrow> scmCall db = (False, db)" by (simp add: scmCall_def)

lemma scmQuery_ok: "dbFaults db = [] \<Longrightarrow> scmQuery q db = (Inr (q db), db)" by (simp add: scmQuery_def scmCall_ok)

lemma scmExec_ok: "dbFaults db = [] \<Longrightarrow> scmExec ok upd db = (if ok db then (Inr (), upd db) else (Inl ''constraint'', db))"
  by (simp add: scmExec_def scmCall_ok)

lemma dbFaults_updateEvent [simp]: "dbFaults (updateEvent i f db) = dbFaults db" by (simp add: updateEvent_def)

lemmas scm_ok = scmQuery_ok scmExec_ok GetModuleSourceRepoByID_def GetProvider_def GetUserToken_def GetModuleByID_def GetVersion_def

lemma resolveSourceToken_ok: "dbFaults db = [] \<Longrightarrow> snd (resolveSourceToken E cb p db) = db"
  unfolding resolveSourceToken_def creatorToken_def
  by (auto simp: scm_ok split: option.splits sum.splits prod.splits)

lemma stageArchive_ok: "dbFaults db = [] \<Longrightarrow> stageArchive E t repo hook v (db, s) = (r, db1, s1) \<Longrightarrow> db1 = db"
  unfolding stageArchive_def by (auto simp: scm_ok split: option.splits sum.splits prod.splits)

lemma CreateVersion_ok:
  "dbFaults db = [] \<Longrightarrow> CreateVersion i now v db = (q, db2) \<Longrightarrow>
   (\<exists>e. q = Inl e) \<and> db2 = db \<or>
   q = Inr (v\<lparr>mvID := i, mvCreatedAt := now\<rparr>) \<and> db2 = db\<lparr>dbVersions := dbVersions db @ [v\<lparr>mvID := i, mvCreatedAt := now\<rparr>]\<rparr>"
  by (auto simp: CreateVersion_def scmExec_ok Let_def split: if_splits prod.splits)

lemma scan_docs_ok:
  assumes "dbFaults db = []"
  shows "dbFaults (snd (CreatePendingScan j db)) = [] \<and> dbEvents (snd (CreatePendingScan j db)) = dbEvents db \<and>
      dbVersions (snd (CreatePendingScan j db)) = dbVersions db"
    "dbFaults (snd (UpsertModuleDocs j d db)) = [] \<and> dbEvents (snd (UpsertModuleDocs j d db)) = dbEvents db \<and>
      dbVersions (snd (UpsertModuleDocs j d db)) = dbVersions db"
  using assms by (simp_all add: CreatePendingScan_def UpsertModuleDocs_def scmExec_ok)

lemma recordVersion_ok:
  assumes f: "dbFaults db = []" and h: "recordVersion E l i now repo hook v a db = (r, db1)"
  shows "dbFaults db1 = [] \<and> dbEvents db1 = dbEvents db \<and>
    ((\<exists>e. r = Inl e) \<and> db1 = db \<or> r = Inr l \<and> (\<exists>mv. mvID mv = i \<and> dbVersions db1 = dbVersions db @ [mv]))"
proof -
  obtain path content checksum where a: "a = (path, content, checksum)" by (metis prod.exhaust)
  let ?mv = "\<lparr>mvID = l, mvModuleID = srModuleID repo, mvVersion = v, mvStoragePath = path,
            mvStorageBackend = ''default'', mvSizeBytes = length content, mvChecksum = checksum,
            mvReadme = puReadme E content, mvCommitSHA = Some (hkCommitSHA hook), mvTagName = Some (hkTagName hook),
            mvSCMRepoID = Some (srID repo), mvCreatedAt = now\<rparr>"
  let ?mv1 = "?mv\<lparr>mvID := i, mvCreatedAt := now\<rparr>"
  obtain q db2 where q: "CreateVersion i now ?mv db = (q, db2)" by fastforce
  from CreateVersion_ok[OF f q] show ?thesis
  proof (elim disjE conjE exE)
    fix e assume "q = Inl e" "db2 = db"
    then show ?thesis using h a q f by (auto simp: recordVersion_def)
  next
    assume c: "q = Inr ?mv1" "db2 = db\<lparr>dbVersions := dbVersions db @ [?mv1]\<rparr>"
    let ?d3 = "if puScanning E then snd (CreatePendingScan i db2) else db2"
    let ?d4 = "if puDocs E then (case puAnalyze E content of Inr (Some doc) \<Rightarrow> snd (UpsertModuleDocs i doc ?d3) | _ \<Rightarrow> ?d3) else ?d3"
    have 3: "dbFaults ?d3 = [] \<and> dbEvents ?d3 = dbEvents db \<and> dbVersions ?d3 = dbVersions db @ [?mv1]"
      using scan_docs_ok(1)[of db2 i] c(2) f by simp
    have "dbFaults ?d4 = [] \<and> dbEvents ?d4 = dbEvents ?d3 \<and> dbVersions ?d4 = dbVersions ?d3"
      using scan_docs_ok(2)[OF conjunct1[OF 3], of i] 3 by (auto split: sum.splits option.splits)
    moreover have "(Inr l, ?d4) = (r, db1)"
      using h[unfolded a recordVersion_def Let_def prod.case q c(1) sum.case]
      by (simp only: ModuleVersion.select_convs ModuleVersion.update_convs)
    then have "r = Inr l" "db1 = ?d4" by auto
    ultimately show ?thesis using 3 by (intro conjI disjI2 exI[of _ ?mv1]) simp_all
  qed
qed

text \<open>The four ways an attempt ends, in a database that answers.\<close>

definition startedEvents :: "string \<Rightarrow> int \<Rightarrow> scmdb \<Rightarrow> scmdb" where
  "startedEvents logID now db = updateEvent logID (\<lambda>e. e\<lparr>evProcessingStartedAt := Some now\<rparr>) db"

lemma ProcessTagPush_ok:
  assumes f: "dbFaults db = []" and h: "ProcessTagPush E l i now logID repo hook (db, s) = (db', s')"
  shows "(\<exists>msg db1. db' = failPush logID msg now db1 \<and> dbFaults db1 = [] \<and> dbVersions db1 = dbVersions db \<and>
            dbEvents db1 = dbEvents (startedEvents logID now db)) \<or>
    (\<exists>msg. db' = snd (UpdateWebhookLogState logID ''skipped'' (Some msg) None now (startedEvents logID now db))) \<or>
    (\<exists>mv db1. db' = snd (UpdateWebhookLogState logID ''completed'' None
          (Some (case puUuidParse E l of Some u \<Rightarrow> u | None \<Rightarrow> nilUUID)) now db1) \<and> dbFaults db1 = [] \<and>
        mvID mv = i \<and> dbVersions db1 = dbVersions db @ [mv] \<and> dbEvents db1 = dbEvents (startedEvents logID now db))"
proof -
  let ?v = "extractVersionFromTag (hkTagName hook) (srTagPattern repo)" and ?d = "startedEvents logID now db"
  have fd: "dbFaults ?d = []" and vd: "dbVersions ?d = dbVersions db" using f by (simp_all add: startedEvents_def updateEvent_def)
  have u: "UpdateWebhookLogState logID ''processing'' None None now db = (Inr (), ?d)"
    using f by (simp add: UpdateWebhookLogState_def scmExec_ok startedEvents_def)
  have gv: "GetVersion (srModuleID repo) ?v ?d = (Inr (find (\<lambda>x. mvModuleID x = srModuleID repo \<and> mvVersion x = ?v) (dbVersions ?d)), ?d)"
    and gm: "GetModuleByID (srModuleID repo) ?d = (Inr (find (\<lambda>m. mdID m = srModuleID repo) (dbModules ?d)), ?d)" using fd by (simp_all add: scm_ok)
  note a = h[unfolded ProcessTagPush_def prod.case u sum.case Let_def gv gm]
  show ?thesis
  proof (cases "?v \<noteq> [] \<and> find (\<lambda>x. mvModuleID x = srModuleID repo \<and> mvVersion x = ?v) (dbVersions ?d) = None \<and>
      (\<exists>m. find (\<lambda>m. mdID m = srModuleID repo) (dbModules ?d) = Some m)")
    case False
    then show ?thesis using a fd vd by (auto split: if_splits option.splits)
  next
    case True
    then obtain m where t: "?v \<noteq> []" "find (\<lambda>x. mvModuleID x = srModuleID repo \<and> mvVersion x = ?v) (dbVersions ?d) = None"
      "find (\<lambda>m. mdID m = srModuleID repo) (dbModules ?d) = Some m" by blast
    obtain tok where tk: "resolveSourceToken E (mdCreatedBy m) (srSCMProviderID repo) ?d = (tok, ?d)"
      using resolveSourceToken_ok[OF fd] by (metis prod.collapse)
    note a = a[unfolded t(2,3) option.case if_not_P[OF t(1)] tk prod.case publishModuleVersion_def]
    obtain q db2 s2 where q: "stageArchive E tok repo hook ?v (?d, s) = (q, db2, s2)" by (metis prod.exhaust)
    note q2 = stageArchive_ok[OF fd q]
    note a = a[unfolded q prod.case]
    show ?thesis
    proof (cases q)
      case (Inl e)
      then show ?thesis using a q2 fd vd by auto
    next
      case (Inr ar)
      obtain r db3 where r: "recordVersion E l i now repo hook ?v ar ?d = (r, db3)" by fastforce
      note a = a[unfolded Inr sum.case q2 r prod.case]
      from recordVersion_ok[OF fd r] show ?thesis
      proof (elim conjE disjE exE)
        fix e assume "r = Inl e" "db3 = ?d"
        then show ?thesis using a fd vd by auto
      next
        fix mv assume "r = Inr l" "mvID mv = i" "dbVersions db3 = dbVersions ?d @ [mv]" "dbFaults db3 = []" "dbEvents db3 = dbEvents ?d"
        then show ?thesis using a vd by auto
      qed
    qed
  qed
qed

text \<open>
  Claim C39. A successful publication is never recorded as such: the id written to the event is the one the publisher drew,
  while the row got its own from the database, so the update violates the reference to the versions table and its error
  is dropped. After an attempt that added the version the event is still unprocessed, without result or error, and only its start time is set.
\<close>

theorem completion_not_recorded:
  assumes "dbFaults db = []" "ProcessTagPush E localID dbID now logID repo hook (db, s) = (db', s')" "dbVersions db' \<noteq> dbVersions db"
    "puUuidParse E localID = Some localID" "localID \<notin> mvID ` set (dbVersions db)" "localID \<noteq> dbID" "logID \<in> evID ` set (dbEvents db)"
  shows "dbEvents db' = map (\<lambda>e. if evID e = logID then e\<lparr>evProcessingStartedAt := Some now\<rparr> else e) (dbEvents db)"
  using ProcessTagPush_ok[OF assms(1,2)]
proof (elim disjE exE conjE)
  fix mv db1
  assume h: "db' = snd (UpdateWebhookLogState logID ''completed'' None
      (Some (case puUuidParse E localID of Some u \<Rightarrow> u | None \<Rightarrow> nilUUID)) now db1)" "dbFaults db1 = []" "mvID mv = dbID"
    "dbVersions db1 = dbVersions db @ [mv]" "dbEvents db1 = dbEvents (startedEvents logID now db)"
  have "\<not> list_ex (\<lambda>x. mvID x = localID) (dbVersions db1)" using assms(5,6) h(3,4) by (auto simp: list_ex_iff)
  moreover have "map evID (dbEvents db1) = map evID (dbEvents db)" using h(5) by (auto simp: startedEvents_def updateEvent_def)
  then have "list_ex (\<lambda>e. evID e = logID) (dbEvents db1)" using assms(7) unfolding list_ex_iff by (metis image_iff list.set_map)
  ultimately have "db' = db1" using h(1,2) assms(4) by (simp add: UpdateWebhookLogState_def scmExec_ok)
  then show ?thesis using h(5) by (simp add: startedEvents_def updateEvent_def)
next
  fix msg db1 assume "db' = failPush logID msg now db1" "dbVersions db1 = dbVersions db"
  then show ?thesis using assms(3) keeps_failPush[of db1 logID msg now] by (simp add: keeps_def)
next
  fix msg assume "db' = snd (UpdateWebhookLogState logID ''skipped'' (Some msg) None now (startedEvents logID now db))"
  then have "dbVersions db' = dbVersions (startedEvents logID now db)" using keeps_snd(1) by (simp add: keeps_def)
  then show ?thesis using assms(3) by (simp add: startedEvents_def updateEvent_def)
qed

theorem completion_not_recorded_witness:
  "\<exists>db' s'. ProcessTagPush exPub ''local'' ''v1'' 6 ''e1'' exRepo exHook (exLogged, ()) = (db', s') \<and> dbVersions db' = [exVersion] \<and>
     dbEvents db' = [exEvent\<lparr>evProcessingStartedAt := Some 6\<rparr>] \<and> \<not> evProcessed exEvent"
proof -
  have "dbFaults exLogged = []" "dbVersions exLogged = []" "''e1'' \<in> evID ` set (dbEvents exLogged)" "evID exEvent = ''e1''" "dbEvents exLogged = [exEvent]"
    by (simp_all add: exLogged_def exDB_def exEvent_def logRecord_def)
  then show ?thesis using completion_not_recorded[OF _ exPublish] exPublish
    by (simp add: exPub_def exEvent_def logRecord_def)
qed

text \<open>
  The configured retry limit does not stop retries: when a failed attempt reaches the configured limit but not the limit stored
  with the event, the job reports the event as exhausted and yet leaves it due at once, without any delay, instead of taking it out.
\<close>

theorem exhausted_event_due_at_once:
  assumes "dbFaults db = []" "e \<in> set (dbEvents db)" "distinct (map evID (dbEvents db))" "\<not> evProcessed e"
    "maxRetries \<le> evRetryCount e + 1" "evRetryCount e + 1 < evMaxRetries e"
  shows "\<exists>e' \<in> set (dbEvents (scheduleRetry maxRetries e errMsg now db)). evID e' = evID e \<and> retryable now e'"
proof -
  let ?e = "e\<lparr>evRetryCount := evRetryCount e + 1, evLastError := Some errMsg, evNextRetryAt := Some now\<rparr>"
  have "?e \<in> set (dbEvents (scheduleRetry maxRetries e errMsg now db))"
    using assms(1,2,5) by (auto simp: scheduleRetry_def SetWebhookRetryState_def scmExec_ok updateEvent_def)
  moreover have "retryable now ?e" using assms(4,6) by (simp add: retryable_def)
  ultimately show ?thesis by (intro bexI[of _ ?e]) simp_all
qed

theorem exhausted_event_due_at_once_witness:
  "\<exists>e' \<in> set (dbEvents (scheduleRetry 1 exEvent ''boom'' 60 exLogged)). evID e' = ''e1'' \<and> retryable 60 e'"
  using exhausted_event_due_at_once[of exLogged exEvent 1 "''boom''" 60]
  by (simp add: exLogged_def exDB_def exEvent_def logRecord_def blankEvent_def)

text \<open>
  No event is ever retried if rows cannot be read: when the scan of an event row into its struct fails, as it does for
  a JSON column scanned into a Go map, a retry cycle changes neither the tables nor the storage.
\<close>

theorem unreadable_rows_stop_retries:
  assumes "\<And>e. scan e \<noteq> None" "runRetryCycle E H scan sortNext maxRetries ids now (db, s) = (db', s')"
  shows "s' = s \<and> (\<exists>fs. db' = db\<lparr>dbFaults := fs\<rparr>)"
proof -
  obtain q db1 where q: "scmQuery (\<lambda>db. take 10 (sortNext (filter (retryable now) (dbEvents db)))) db = (q, db1)" by fastforce
  note f = scmQuery_frame[OF q]
  show ?thesis
  proof (cases "q = Inr []")
    case True
    with q f assms(2) show ?thesis by (auto simp: runRetryCycle_def GetRetryableWebhookEvents_def)
  next
    case False
    then have "\<exists>m. GetRetryableWebhookEvents scan sortNext 10 now db = (Inl m, db1)"
      using q assms(1) unfolding GetRetryableWebhookEvents_def
      by (auto split: sum.splits option.splits list.splits simp: find_None_iff)
    with f assms(2) show ?thesis by (auto simp: runRetryCycle_def)
  qed
qed

definition exDue :: scmdb where
  "exDue = exLogged\<lparr>dbEvents := [exEvent\<lparr>evNextRetryAt := Some 9\<rparr>]\<rparr>"

theorem unreadable_rows_stop_retries_witness:
  "retryable 10 (exEvent\<lparr>evNextRetryAt := Some 9\<rparr>) \<and>
   dbEvents (fst (runRetryCycle exPub exHookEnv (\<lambda>_. Some ''unsupported Scan'') (\<lambda>es. es) 3 (\<lambda>_. (''l'', ''d'')) 10 (exDue, ()))) =
     [exEvent\<lparr>evNextRetryAt := Some 9\<rparr>]"
proof
  show "retryable 10 (exEvent\<lparr>evNextRetryAt := Some 9\<rparr>)"
    by (simp add: retryable_def exEvent_def logRecord_def blankEvent_def)
  obtain db' s' where r: "runRetryCycle exPub exHookEnv (\<lambda>_. Some ''unsupported Scan'') (\<lambda>es. es) 3 (\<lambda>_. (''l'', ''d'')) 10 (exDue, ()) = (db', s')"
    by (metis prod.exhaust)
  from unreadable_rows_stop_retries[OF _ r] have "\<exists>fs. db' = exDue\<lparr>dbFaults := fs\<rparr>" by simp
  then show "dbEvents (fst (runRetryCycle exPub exHookEnv (\<lambda>_. Some ''unsupported Scan'') (\<lambda>es. es) 3 (\<lambda>_. (''l'', ''d'')) 10 (exDue, ()))) =
     [exEvent\<lparr>evNextRetryAt := Some 9\<rparr>]" unfolding r by (auto simp: exDue_def)
qed

section \<open>How often events are retried\<close>

text \<open>The attempts an event may still get.\<close>

definition evBudget :: "SCMWebhookEvent \<Rightarrow> nat" where
  "evBudget e = (if evProcessed e then 0 else nat (evMaxRetries e - evRetryCount e))"

definition budget :: "scmdb \<Rightarrow> nat" where
  "budget db = sum_list (map evBudget (dbEvents db))"

definition retryKey :: "SCMWebhookEvent \<Rightarrow> string \<times> int \<times> int" where
  "retryKey e = (evID e, evRetryCount e, evMaxRetries e)"

text \<open>In a database that answers, only the rows with one id change.\<close>

definition rowUpd :: "string \<Rightarrow> (SCMWebhookEvent \<Rightarrow> SCMWebhookEvent) \<Rightarrow> scmdb \<Rightarrow> scmdb \<Rightarrow> bool" where
  "rowUpd i f db db' \<longleftrightarrow> dbFaults db' = [] \<and> dbEvents db' = map (\<lambda>x. if evID x = i then f x else x) (dbEvents db)"

lemma rowUpd_trans:
  assumes "rowUpd i f a b" "rowUpd i g b c" "\<And>x. evID (f x) = evID x"
  shows "rowUpd i (\<lambda>x. g (f x)) a c"
  using assms by (auto simp: rowUpd_def)

lemma rowUpd_id: "dbFaults db = [] \<Longrightarrow> rowUpd i (\<lambda>x. x) db db"
  by (simp add: rowUpd_def)

lemma rowUpd_events: "rowUpd i f a b \<Longrightarrow> dbEvents a' = dbEvents a \<Longrightarrow> rowUpd i f a' b"
  by (simp add: rowUpd_def)

lemma UpdateWebhookLogState_row:
  assumes "dbFaults db = []"
  shows "\<exists>f. (\<forall>x. retryKey (f x) = retryKey x) \<and> rowUpd i f db (snd (UpdateWebhookLogState i st e v now db))"
proof (cases "st = ''processing''")
  case True
  with assms show ?thesis
    by (intro exI[of _ "\<lambda>x. x\<lparr>evProcessingStartedAt := Some now\<rparr>"]) (simp add: UpdateWebhookLogState_def scmExec_ok rowUpd_def updateEvent_def retryKey_def)
next
  case False
  show ?thesis
  proof (cases "case v of None \<Rightarrow> True | Some v \<Rightarrow> list_ex (\<lambda>e. evID e = i) (dbEvents db) \<longrightarrow> list_ex (\<lambda>x. mvID x = v) (dbVersions db)")
    case True
    with False assms show ?thesis
      by (intro exI[of _ "\<lambda>x. x\<lparr>evProcessed := True, evProcessedAt := Some now, evError := e, evResultVersionID := v\<rparr>"])
        (simp add: UpdateWebhookLogState_def scmExec_ok rowUpd_def updateEvent_def retryKey_def)
  next
    case f: False
    with False assms rowUpd_id[OF assms, of i] show ?thesis
      by (intro exI[of _ "\<lambda>x. x"]) (simp add: UpdateWebhookLogState_def scmExec_ok)
  qed
qed

lemma retryKey_ID: "retryKey (f x) = retryKey x \<Longrightarrow> evID (f x) = evID x" by (simp add: retryKey_def)

lemma failPush_row:
  assumes "dbFaults db = []"
  shows "\<exists>f. (\<forall>x. retryKey (f x) = retryKey x) \<and> rowUpd logID f db (failPush logID msg now db)"
proof -
  obtain f where f: "\<forall>x. retryKey (f x) = retryKey x" "rowUpd logID f db (snd (UpdateWebhookLogState logID ''failed'' (Some msg) None now db))"
    using UpdateWebhookLogState_row[OF assms] by blast
  let ?g = "\<lambda>x. x\<lparr>evProcessed := False, evNextRetryAt := Some (now + nsPerMinute)\<rparr>"
  have "rowUpd logID ?g (snd (UpdateWebhookLogState logID ''failed'' (Some msg) None now db)) (failPush logID msg now db)"
    using f(2) by (simp add: failPush_def MarkWebhookForRetry_def scmExec_ok rowUpd_def updateEvent_def)
  from rowUpd_trans[OF f(2) this] f(1) show ?thesis
    by (intro exI[of _ "\<lambda>x. ?g (f x)"]) (auto simp: retryKey_def)
qed

lemma ProcessTagPush_row:
  assumes f: "dbFaults db = []" and h: "ProcessTagPush E l i now logID repo hook (db, s) = (db', s')"
  shows "\<exists>f. (\<forall>x. retryKey (f x) = retryKey x) \<and> rowUpd logID f db db'"
proof -
  let ?s = "startedEvents logID now db" and ?p = "\<lambda>x. x\<lparr>evProcessingStartedAt := Some now\<rparr>"
  have s: "rowUpd logID ?p db ?s" using f by (simp add: rowUpd_def startedEvents_def updateEvent_def)
  have c: "\<exists>f. (\<forall>x. retryKey (f x) = retryKey x) \<and> rowUpd logID f db db2"
    if "dbEvents d1 = dbEvents ?s" "\<exists>g. (\<forall>x. retryKey (g x) = retryKey x) \<and> rowUpd logID g d1 db2" for d1 db2
  proof -
    from that obtain g where g: "\<forall>x. retryKey (g x) = retryKey x" "rowUpd logID g ?s db2" by (metis rowUpd_events)
    from rowUpd_trans[OF s g(2)] g(1) show ?thesis by (intro exI[of _ "\<lambda>x. g (?p x)"]) (auto simp: retryKey_def)
  qed
  have "dbFaults ?s = []" using s by (simp add: rowUpd_def)
  with ProcessTagPush_ok[OF f h] show ?thesis
    by (elim disjE exE conjE) (auto intro: c[OF _ failPush_row] c[OF _ UpdateWebhookLogState_row])
qed

lemma scheduleRetry_row:
  assumes "dbFaults db = []"
  shows "\<exists>f. (\<forall>x. evID (f x) = evID x \<and> evProcessed (f x) = evProcessed x \<and> evMaxRetries (f x) = evMaxRetries x \<and>
      evRetryCount (f x) = evRetryCount ev + 1) \<and> rowUpd (evID ev) f db (scheduleRetry mx ev msg now db)"
proof -
  let ?f = "\<lambda>t x. x\<lparr>evRetryCount := evRetryCount ev + 1, evLastError := Some msg, evNextRetryAt := Some t\<rparr>"
  have "rowUpd (evID ev) (?f t) db (snd (SetWebhookRetryState (evID ev) (evRetryCount ev + 1) msg t db))" for t
    using assms by (simp add: SetWebhookRetryState_def scmExec_ok rowUpd_def updateEvent_def)
  moreover obtain t where "scheduleRetry mx ev msg now db = snd (SetWebhookRetryState (evID ev) (evRetryCount ev + 1) msg t db)"
    by (cases "evRetryCount ev + 1 \<ge> mx") (auto simp: scheduleRetry_def Let_def)
  ultimately show ?thesis by (intro exI[of _ "?f t"]) simp
qed

lemma find_by_id:
  assumes "distinct (map evID es)" "e \<in> set es" "\<And>x. evID (f x) = evID x"
  shows "find (\<lambda>x. evID x = evID e) (map (\<lambda>x. if evID x = evID e then f x else x) es) = Some (f e)"
  using assms(1,2)
proof (induction es)
  case (Cons a es)
  show ?case
  proof (cases "evID a = evID e")
    case True
    with Cons.prems have "a = e" by (auto simp: image_iff dest: sym)
    then show ?thesis using assms(3) by simp
  qed (use Cons in auto)
qed simp

text \<open>One attempt changes only the event it is about, and uses up at least one unit of its budget.\<close>

lemma retryOne_row:
  assumes f: "dbFaults db = []" and d: "distinct (map evID (dbEvents db))" and e: "ev \<in> set (dbEvents db)" "\<not> evProcessed ev" "evRetryCount ev < evMaxRetries ev"
    and s: "\<And>x. scan x = None" and h: "retryOne E H scan mx l i now ev (db, st) = (db', st')"
  shows "\<exists>f. (\<forall>x. evID (f x) = evID x) \<and> rowUpd (evID ev) f db db' \<and> evBudget (f ev) < evBudget ev"
proof -
  have sched: "\<exists>f. (\<forall>x. evID (f x) = evID x) \<and> rowUpd (evID ev) f db (scheduleRetry mx ev msg now db2) \<and> evBudget (f ev) < evBudget ev"
    if g: "\<forall>x. retryKey (g x) = retryKey x" "rowUpd (evID ev) g db db2" for g db2 msg
  proof -
    from g(2) have "dbFaults db2 = []" by (simp add: rowUpd_def)
    from scheduleRetry_row[OF this] obtain k where
      k: "\<forall>x. evID (k x) = evID x \<and> evProcessed (k x) = evProcessed x \<and> evMaxRetries (k x) = evMaxRetries x \<and> evRetryCount (k x) = evRetryCount ev + 1"
        "rowUpd (evID ev) k db2 (scheduleRetry mx ev msg now db2)" by blast
    have r: "rowUpd (evID ev) (\<lambda>x. k (g x)) db (scheduleRetry mx ev msg now db2)"
      by (rule rowUpd_trans[OF g(2) k(2)]) (use g(1) in \<open>simp add: retryKey_def\<close>)
    have "evBudget (k (g ev)) < evBudget ev" using k(1) g(1) e(2,3) by (simp add: evBudget_def retryKey_def)
    with r k(1) g(1) show ?thesis by (intro exI[of _ "\<lambda>x. k (g x)"]) (simp add: retryKey_def)
  qed
  note a = h[unfolded retryOne_def prod.case GetModuleSourceRepoByID_def GetProvider_def scmQuery_ok[OF f]]
  have id: "rowUpd (evID ev) (\<lambda>x. x) db db" using f by (rule rowUpd_id)
  show ?thesis
  proof (cases "\<exists>msg. db' = failRetry mx ev msg now db")
    case True
    then show ?thesis using sched[OF _ id] by (auto simp: failRetry_def)
  next
    case False
    then obtain repo db3 s3 where p: "ProcessTagPush E l i now (evID ev) repo (storedHook ev) (db, st) = (db3, s3)" and
      q: "db' = afterRetry scan mx ev now db3"
      using a by (auto simp: scmQuery_ok[OF f] split: sum.splits option.splits prod.splits)
    from ProcessTagPush_row[OF f p] obtain g where g: "\<forall>x. retryKey (g x) = retryKey x" "rowUpd (evID ev) g db db3" by blast
    have "find (\<lambda>x. evID x = evID ev) (dbEvents db3) = Some (g ev)"
      using g find_by_id[OF d e(1), of g] by (simp add: rowUpd_def retryKey_def)
    then have w: "GetWebhookLog scan (evID ev) db3 = ((Some (g ev), None), db3)"
      using g(2) s by (simp add: GetWebhookLog_def rowUpd_def scmQuery_ok)
    show ?thesis
    proof (cases "evProcessed (g ev) \<and> evError (g ev) = None")
      case True
      then have "evBudget (g ev) < evBudget ev" using e(2,3) by (simp add: evBudget_def)
      moreover have "db' = db3" using True q w by (simp add: afterRetry_def)
      ultimately show ?thesis using g by (intro exI[of _ g]) (simp add: retryKey_def)
    next
      case False
      then obtain msg where "db' = scheduleRetry mx ev msg now db3" using q w by (auto simp: afterRetry_def Let_def)
      with sched[OF g] show ?thesis by simp
    qed
  qed
qed

lemma budget_update:
  assumes "distinct (map evID es)" "ev \<in> set es" "evBudget (f ev) < evBudget ev"
  shows "sum_list (map evBudget (map (\<lambda>x. if evID x = evID ev then f x else x) es)) < sum_list (map evBudget es)"
  using assms(1,2)
proof (induction es)
  case (Cons a es)
  show ?case
  proof (cases "evID a = evID ev")
    case True
    with Cons.prems have "a = ev" "evID ev \<notin> evID ` set es" by (auto simp: image_iff dest: sym)
    then have "x \<in> set es \<Longrightarrow> evID x \<noteq> evID ev" for x by (metis image_eqI)
    then have "map (\<lambda>x. if evID x = evID ev then f x else x) es = es" by (simp add: map_idI)
    with \<open>a = ev\<close> assms(3) show ?thesis by simp
  qed (use Cons in auto)
qed simp

lemma retry_fold:
  assumes "dbFaults db = []" "distinct (map evID (dbEvents db))" "distinct (map evID es)"
    "\<forall>e \<in> set es. e \<in> set (dbEvents db) \<and> \<not> evProcessed e \<and> evRetryCount e < evMaxRetries e" "\<And>x. scan x = None"
    "fold (\<lambda>e. retryOne E H scan mx (p e) (q e) now e) es (db, s) = (db', s')"
  shows "dbFaults db' = [] \<and> distinct (map evID (dbEvents db')) \<and> budget db' + length es \<le> budget db"
  using assms
proof (induction es arbitrary: db s)
  case (Cons e es)
  obtain db1 s1 where r: "retryOne E H scan mx (p e) (q e) now e (db, s) = (db1, s1)" by fastforce
  from retryOne_row[OF Cons.prems(1,2) _ _ _ Cons.prems(5) r] Cons.prems(4) obtain f where
    f: "\<forall>x. evID (f x) = evID x" "rowUpd (evID e) f db db1" "evBudget (f e) < evBudget e" by auto
  let ?u = "\<lambda>x. if evID x = evID e then f x else x"
  have ev: "dbEvents db1 = map ?u (dbEvents db)" and f1: "dbFaults db1 = []" using f(2) by (simp_all add: rowUpd_def)
  have "map evID (dbEvents db1) = map evID (dbEvents db)" using ev f(1) by simp
  with Cons.prems(2) have d1: "distinct (map evID (dbEvents db1))" by simp
  have "budget db1 < budget db" using budget_update[OF Cons.prems(2), of e f] Cons.prems(4) f(3) ev by (simp add: budget_def)
  moreover have "\<forall>x \<in> set es. x \<in> set (dbEvents db1) \<and> \<not> evProcessed x \<and> evRetryCount x < evMaxRetries x"
  proof
    fix x assume x: "x \<in> set es"
    from Cons.prems(3) have "evID e \<notin> evID ` set es" by simp
    with x have "evID x \<noteq> evID e" by (metis image_eqI)
    with x Cons.prems(4) show "x \<in> set (dbEvents db1) \<and> \<not> evProcessed x \<and> evRetryCount x < evMaxRetries x"
      unfolding ev by force
  qed
  ultimately show ?case using Cons.IH[OF f1 d1 _ _ Cons.prems(5)] Cons.prems(3,6) r by force
qed simp

text \<open>The events a cycle takes up, and the number taken up over a sequence of cycles.\<close>

definition due :: "(SCMWebhookEvent list \<Rightarrow> SCMWebhookEvent list) \<Rightarrow> int \<Rightarrow> scmdb \<Rightarrow> SCMWebhookEvent list" where
  "due sortNext now db = take 10 (sortNext (filter (retryable now) (dbEvents db)))"

fun attempts ::
  "'s pubenv \<Rightarrow> hookenv \<Rightarrow> row_scan \<Rightarrow> (SCMWebhookEvent list \<Rightarrow> SCMWebhookEvent list) \<Rightarrow> int \<Rightarrow> (string \<Rightarrow> string \<times> string) \<Rightarrow> int list \<Rightarrow>
   scmdb \<times> 's \<Rightarrow> nat" where
  "attempts E H scan sortNext mx ids [] st = 0"
| "attempts E H scan sortNext mx ids (now # nows) st =
     length (due sortNext now (fst st)) + attempts E H scan sortNext mx ids nows (runRetryCycle E H scan sortNext mx ids now st)"

lemma runRetryCycle_budget:
  assumes f: "dbFaults db = []" and d: "distinct (map evID (dbEvents db))" and s: "\<And>x. scan x = None" and m: "\<And>es. mset (sortNext es) = mset es"
    and h: "runRetryCycle E H scan sortNext mx ids now (db, st) = (db', st')"
  shows "dbFaults db' = [] \<and> distinct (map evID (dbEvents db')) \<and> budget db' + length (due sortNext now db) \<le> budget db"
proof -
  let ?es = "due sortNext now db"
  have g: "GetRetryableWebhookEvents scan sortNext 10 now db = (Inr ?es, db)"
    using f s by (auto simp: GetRetryableWebhookEvents_def scmQuery_ok due_def find_None_iff split: option.splits dest: find_Some_member)
  have ss: "set (sortNext es) = set es" for es using m[of es] by (metis set_mset_mset)
  have "distinct (map evID (filter (retryable now) (dbEvents db)))" using d by (rule distinct_map_filter)
  then have "distinct (map evID (sortNext (filter (retryable now) (dbEvents db))))"
    using m by (metis mset_map distinct_count_atmost_1 mset_eq_imp_distinct_iff)
  then have "distinct (map evID ?es)" unfolding due_def take_map[symmetric] by (rule distinct_take)
  moreover have "\<forall>e \<in> set ?es. e \<in> set (dbEvents db) \<and> \<not> evProcessed e \<and> evRetryCount e < evMaxRetries e"
    using ss by (auto simp: due_def retryable_def dest!: in_set_takeD)
  ultimately show ?thesis
    using retry_fold[where scan = scan and es = ?es and E = E and H = H and mx = mx and now = now and s = st and p = "\<lambda>e. fst (ids (evID e))" and q = "\<lambda>e. snd (ids (evID e))", OF f d _ _ s]
      h[unfolded runRetryCycle_def prod.case g sum.case] by blast
qed



section \<open>Two publications of one version\<close>

text \<open>
  Concurrent publications of one version can leave an archive that does not match its recorded checksum: when two attempts have both
  passed the existence check, and the second uploads after the first did and before or after the first records its
  row, the row keeps the checksum of the first archive while the storage holds the second.
\<close>

theorem concurrent_publish_mismatch:
  assumes S: "object_store (puStore E2) present cont clob"
    and a: "stageArchive E1 t1 repo hook1 version (db, s) = (Inr (path1, c1, sum1), db1, s1)"
    and b: "stageArchive E2 t2 repo hook2 version (db1, s1) = (Inr (path2, c2, sum2), db2, s2)"
    and r: "recordVersion E1 l1 i1 now repo hook1 version (path1, c1, sum1) db2 = (Inr l, db3)"
  shows "path1 = path2 \<and> cont s2 path1 = Some c2 \<and>
    (\<exists>v \<in> set (dbVersions db3). mvVersion v = version \<and> mvStoragePath v = path1 \<and> mvChecksum v = sum1)"
proof -
  have st: "\<exists>m n u. path = versionPath m version \<and> find (\<lambda>x. mdID x = srModuleID repo) (dbModules d) = Some m \<and>
      stUpload (puStore E) path (c, False) n x = (Inr u, x1)"
    if "stageArchive E t repo hook version (d, x) = (Inr (path, c, sm), d1, x1)" for E :: "'a pubenv" and t hook d x path c sm d1 x1
  proof -
    obtain q d2 where q: "GetModuleByID (srModuleID repo) d = (q, d2)" by fastforce
    with that obtain m where m: "q = Inr (Some m)" by (auto simp: stageArchive_def split: sum.splits option.splits)
    from scmQuery_Inr[OF q[unfolded m GetModuleByID_def]] keeps_reads(4)[OF q] have
      "find (\<lambda>x. mdID x = srModuleID repo) (dbModules d) = Some m" by (simp add: keeps_def)
    with that q m show ?thesis by (auto simp: stageArchive_def split: sum.splits prod.splits)
  qed
  from st[OF a] st[OF b] stageArchive_keeps[OF a] have p: "path1 = path2" by (auto simp: keeps_def)
  from st[OF b] obtain n u where "stUpload (puStore E2) path2 (c2, False) n s1 = (Inr u, s2)" by blast
  from object_store.upload_content[OF S this] p have c: "cont s2 path1 = Some c2" by simp
  let ?mv = "\<lparr>mvID = l1, mvModuleID = srModuleID repo, mvVersion = version, mvStoragePath = path1,
            mvStorageBackend = ''default'', mvSizeBytes = length c1, mvChecksum = sum1,
            mvReadme = puReadme E1 c1, mvCommitSHA = Some (hkCommitSHA hook1), mvTagName = Some (hkTagName hook1),
            mvSCMRepoID = Some (srID repo), mvCreatedAt = now\<rparr>"
  obtain q d4 where q: "CreateVersion i1 now ?mv db2 = (q, d4)" by fastforce
  with r obtain mv where mv: "q = Inr mv" by (auto simp: recordVersion_def split: sum.splits)
  note cv = CreateVersion_Inr[OF q[unfolded mv]]
  have "keeps d4 db3" using r[unfolded recordVersion_def prod.case Let_def q mv sum.case]
    by (auto split: if_splits sum.splits option.splits intro: keeps_trans keeps_snd)
  with cv have "mv \<in> set (dbVersions db3)" by (simp add: keeps_def)
  with p c cv show ?thesis by (intro conjI bexI[of _ mv]) simp_all
qed

definition mapStore :: "(string \<Rightarrow> string option) store_ops" where
  "mapStore = \<lparr>stExists = (\<lambda>p s. (Inr (s p \<noteq> None), s)),
     stDownload = (\<lambda>p s. (case s p of None \<Rightarrow> Inl ''missing'' | Some d \<Rightarrow> Inr (d, False), s)),
     stSize = (\<lambda>p s. (case s p of None \<Rightarrow> Inl ''missing'' | Some d \<Rightarrow> Inr (length d), s)),
     stUpload = (\<lambda>p r n s. if snd r then (Inl ''read'', s) else (Inr (), s(p \<mapsto> fst r)))\<rparr>"

lemma mapStore_contract: "object_store mapStore (\<lambda>s p. s p \<noteq> None) (\<lambda>s p. s p) (\<lambda>p. {p})"
  by unfold_locales (auto simp: mapStore_def split: option.splits if_splits)

definition exPubOf :: "string \<Rightarrow> (string \<Rightarrow> string option) pubenv" where
  "exPubOf content = \<lparr>puUuidParse = Some, puMinter = None, puOpenToken = Inr, puPackage = (\<lambda>t o1 r sha p. Inr (content, ''sum of '' @ content)),
     puOpenArchive = Inr (), puStatArchive = Inr (), puReadme = (\<lambda>_. None), puAnalyze = (\<lambda>_. Inr None), puStore = mapStore,
     puScanning = False, puDocs = False\<rparr>"

theorem concurrent_publish_mismatch_witness:
  "\<exists>(db3 :: scmdb) (s2 :: string \<Rightarrow> string option) path. s2 path = Some ''two'' \<and>
     (\<exists>v \<in> set (dbVersions db3). mvVersion v = ''1.0.0'' \<and> mvStoragePath v = path \<and> mvChecksum v = ''sum of one'')"
proof -
  let ?p = "''modules/acme/net/aws/net-1.0.0.tar.gz''" and ?e = "Map.empty :: string \<Rightarrow> string option"
  have gm: "GetModuleByID ''m1'' exLogged =
      (Inr (Some \<lparr>mdID = ''m1'', mdNamespace = ''acme'', mdName = ''net'', mdSystem = ''aws'', mdCreatedBy = None\<rparr>), exLogged)"
    by (simp add: GetModuleByID_def scmQuery_def scmCall_def exLogged_def exDB_def)
  have mr: "srModuleID exRepo = ''m1''" by (simp add: exRepo_def)
  have a: "stageArchive (exPubOf ''one'') None exRepo exHook ''1.0.0'' (exLogged, ?e) =
      (Inr (?p, ''one'', ''sum of one''), exLogged, ?e(?p \<mapsto> ''one''))"
    by (simp add: stageArchive_def gm mr exPubOf_def mapStore_def versionPath_def)
  have b: "stageArchive (exPubOf ''two'') None exRepo exHook ''1.0.0'' (exLogged, ?e(?p \<mapsto> ''one'')) =
      (Inr (?p, ''two'', ''sum of two''), exLogged, ?e(?p \<mapsto> ''two''))"
    by (simp add: stageArchive_def gm mr exPubOf_def mapStore_def versionPath_def)
  let ?db3 = "exLogged\<lparr>dbVersions := [exVersion\<lparr>mvChecksum := ''sum of one'', mvSizeBytes := 3\<rparr>]\<rparr>"
  have r: "recordVersion (exPubOf ''one'') ''local'' ''v1'' 6 exRepo exHook ''1.0.0'' (?p, ''one'', ''sum of one'') exLogged = (Inr ''local'', ?db3)"
    by (simp add: recordVersion_def Let_def CreateVersion_def scmExec_def scmCall_def exLogged_def exDB_def exPubOf_def exRepo_def exHook_def exVersion_def)
  have S: "object_store (puStore (exPubOf ''two'')) (\<lambda>s p. s p \<noteq> None) (\<lambda>s p. s p) (\<lambda>p. {p})"
    using mapStore_contract by (simp add: exPubOf_def)
  show ?thesis using concurrent_publish_mismatch[OF S a b r] by (intro exI[of _ ?db3] exI[of _ "?e(?p \<mapsto> ''two'')"] exI[of _ ?p]) simp
qed

section \<open>Tags and versions\<close>

lemma run1_Some: "run1 P s = Some (w, r) \<Longrightarrow> s = w @ r \<and> w \<noteq> [] \<and> (\<forall>c \<in> set w. P c)"
  by (auto simp: run1_def Let_def split: if_splits dest: set_takeWhileD) (metis append_take_drop_id takeWhile_eq_take)

lemma run1_append:
  assumes "w \<noteq> []" "\<forall>c \<in> set w. P c" "r = [] \<or> \<not> P (hd r)"
  shows "run1 P (w @ r) = Some (w, r)"
proof -
  have "takeWhile P (w @ r) = w" using assms(2,3) by (cases r) (simp_all add: takeWhile_append takeWhile_eq_all_conv)
  with assms(1) show ?thesis by (simp add: run1_def)
qed

lemma lit_Some [simp]: "lit c s = Some r \<longleftrightarrow> s = c # r"
  by (auto simp: lit_def split: list.splits)

lemma lit_Cons [simp]: "lit c (c # r) = Some r" by simp

text \<open>The language of the optional label: empty, or the mark and a non-empty label.\<close>

definition labelOf :: "char \<Rightarrow> string \<Rightarrow> bool" where
  "labelOf c s \<longleftrightarrow> s = [] \<or> (\<exists>w. s = c # w \<and> w \<noteq> [] \<and> (\<forall>x \<in> set w. isLabelChar x))"

lemma optLabel_Some: "optLabel c s = Some r \<Longrightarrow> \<exists>l. s = l @ r \<and> labelOf c l"
proof (cases "lit c s")
  case None
  then show "optLabel c s = Some r \<Longrightarrow> ?thesis" by (intro exI[of _ "[]"]) (simp add: optLabel_def labelOf_def)
next
  case (Some t)
  assume "optLabel c s = Some r"
  with Some obtain w where w: "run1 isLabelChar t = Some (w, r)" by (auto simp: optLabel_def)
  from run1_Some[OF w] Some show ?thesis by (intro exI[of _ "c # w"]) (simp add: labelOf_def)
qed

lemma optLabel_append:
  assumes "labelOf c l" "r = [] \<or> (\<not> isLabelChar (hd r) \<and> hd r \<noteq> c)"
  shows "optLabel c (l @ r) = Some r"
proof (cases "l = []")
  case True
  with assms(2) have "lit c r = None" by (cases r) (auto simp: lit_def)
  with True show ?thesis by (simp add: optLabel_def)
next
  case False
  with assms(1) obtain w where w: "l = c # w" "w \<noteq> []" "\<forall>x \<in> set w. isLabelChar x" by (auto simp: labelOf_def)
  with run1_append[of w isLabelChar r] assms(2) show ?thesis by (auto simp: optLabel_def)
qed

definition numeral1 :: "string \<Rightarrow> bool" where
  "numeral1 w \<longleftrightarrow> w \<noteq> [] \<and> (\<forall>c \<in> set w. isDigit c)"

lemma semverPattern_iff:
  "semverPattern s \<longleftrightarrow> (\<exists>a b c pre build. s = a @ ''.'' @ b @ ''.'' @ c @ pre @ build \<and> numeral1 a \<and> numeral1 b \<and> numeral1 c \<and>
     labelOf (CHR ''-'') pre \<and> labelOf (CHR ''+'') build)"
proof
  assume h: "semverPattern s"
  note h = h[unfolded semverPattern_def]
  from h obtain a s1 where a: "run1 isDigit s = Some (a, s1)" by (cases "run1 isDigit s") auto
  note h = h[unfolded a option.case prod.case]
  from h obtain s2 where s2: "lit (CHR ''.'') s1 = Some s2" by (cases "lit (CHR ''.'') s1") auto
  note h = h[unfolded s2 option.case]
  from h obtain b s3 where b: "run1 isDigit s2 = Some (b, s3)" by (cases "run1 isDigit s2") auto
  note h = h[unfolded b option.case prod.case]
  from h obtain s4 where s4: "lit (CHR ''.'') s3 = Some s4" by (cases "lit (CHR ''.'') s3") auto
  note h = h[unfolded s4 option.case]
  from h obtain c s5 where c: "run1 isDigit s4 = Some (c, s5)" by (cases "run1 isDigit s4") auto
  note h = h[unfolded c option.case prod.case]
  from h obtain s6 where s6: "optLabel (CHR ''-'') s5 = Some s6" by (cases "optLabel (CHR ''-'') s5") auto
  from h[unfolded s6 option.case] have "optLabel (CHR ''+'') s6 = Some []" by (cases "optLabel (CHR ''+'') s6") auto
  note 1 = a s2 b s4 c s6 this
  from optLabel_Some[OF 1(6)] optLabel_Some[OF 1(7)] obtain pre build where
    2: "s5 = pre @ s6" "labelOf (CHR ''-'') pre" "s6 = build" "labelOf (CHR ''+'') build" by auto
  from run1_Some[OF 1(1)] run1_Some[OF 1(3)] run1_Some[OF 1(5)] 1(2,4) 2 show
    "\<exists>a b c pre build. s = a @ ''.'' @ b @ ''.'' @ c @ pre @ build \<and> numeral1 a \<and> numeral1 b \<and> numeral1 c \<and>
     labelOf (CHR ''-'') pre \<and> labelOf (CHR ''+'') build"
    by (intro exI[of _ a] exI[of _ b] exI[of _ c] exI[of _ pre] exI[of _ build]) (simp add: numeral1_def)
next
  assume "\<exists>a b c pre build. s = a @ ''.'' @ b @ ''.'' @ c @ pre @ build \<and> numeral1 a \<and> numeral1 b \<and> numeral1 c \<and>
     labelOf (CHR ''-'') pre \<and> labelOf (CHR ''+'') build"
  then obtain a b c pre build where
    s: "s = a @ CHR ''.'' # b @ CHR ''.'' # c @ pre @ build" and n: "numeral1 a" "numeral1 b" "numeral1 c"
    and l: "labelOf (CHR ''-'') pre" "labelOf (CHR ''+'') build" by auto
  have d: "\<not> isDigit (CHR ''.'')" "\<not> isDigit (CHR ''-'')" "\<not> isDigit (CHR ''+'')" "\<not> isLabelChar (CHR ''+'')" by code_simp+
  have r: "run1 isDigit (a @ CHR ''.'' # t) = Some (a, CHR ''.'' # t)" "run1 isDigit (b @ CHR ''.'' # t) = Some (b, CHR ''.'' # t)" for t
    using n d by (auto intro!: run1_append simp: numeral1_def)
  have c: "run1 isDigit (c @ pre @ build) = Some (c, pre @ build)"
    using n(3) l d by (intro run1_append) (auto simp: numeral1_def labelOf_def)
  have p: "optLabel (CHR ''-'') (pre @ build) = Some build" using l d by (intro optLabel_append) (auto simp: labelOf_def)
  have q: "optLabel (CHR ''+'') build = Some []" using optLabel_append[OF l(2), of "[]"] by simp
  show "semverPattern s" unfolding s semverPattern_def by (simp add: r c p q)
qed

lemma semver_chars:
  assumes "semverPattern s" "x \<in> set s"
  shows "x \<noteq> CHR 0x0A"
proof -
  have "\<not> isDigit (CHR 0x0A)" "\<not> isLabelChar (CHR 0x0A)" by code_simp+
  with assms show ?thesis unfolding semverPattern_iff by (auto simp: numeral1_def labelOf_def)
qed

lemma semver_hd: "semverPattern s \<Longrightarrow> trimPrefix s ''v'' = s"
proof -
  assume "semverPattern s"
  then obtain a t where "s = a @ t" "numeral1 a" unfolding semverPattern_iff by auto
  moreover have "\<not> isDigit (CHR ''v'')" by code_simp
  ultimately show ?thesis by (cases a) (auto simp: trimPrefix_def hasPrefix_def numeral1_def)
qed

lemma find_rev_upt_last: "P n \<Longrightarrow> find P (rev [0..<Suc n]) = Some n"
  by simp

text \<open>
  Claim C29. The tag of a version publishes that version: under the default pattern a tag made of the letter v and a version, of three
  numbers with an optional pre-release label and an optional build label (of letters, digits and hyphens each), yields exactly that version,
  and nothing else yields a version.
\<close>

theorem tag_version_exact:
  "extractVersionFromTag tag ''v*'' = version \<and> version \<noteq> [] \<longleftrightarrow>
   (tag = ''v'' @ version \<or> tag = ''vv'' @ version) \<and>
   (\<exists>a b c pre build. version = a @ ''.'' @ b @ ''.'' @ c @ pre @ build \<and> numeral1 a \<and> numeral1 b \<and> numeral1 c \<and>
      labelOf (CHR ''-'') pre \<and> labelOf (CHR ''+'') build)"
proof -
  have g: "contains ''v*'' ''*''" "splitOn (CHR ''*'') ''v*'' = [''v'', '''']" by code_simp+
  have fg: "firstGroup [''v'', ''''] tag =
      (if hasPrefix tag ''v'' \<and> CHR 0x0A \<notin> set (drop 1 tag) then Some (drop 1 tag) else None)" for tag
  proof (cases "hasPrefix tag ''v'' \<and> CHR 0x0A \<notin> set (drop 1 tag)")
    case True
    then show ?thesis by (simp add: firstGroup_def Let_def)
  next
    case False
    have "find (\<lambda>k. CHR 0x0A \<notin> set (take k (drop 1 tag)) \<and> drop k (drop 1 tag) = []) (rev [0..<Suc (length (drop 1 tag))]) = None"
      if "hasPrefix tag ''v''"
    proof -
      have "\<not> (CHR 0x0A \<notin> set (take k (drop 1 tag)) \<and> drop k (drop 1 tag) = [])" for k using that False by auto
      then show ?thesis unfolding find_None_iff by blast
    qed
    with False show ?thesis unfolding firstGroup_def list.case Let_def by auto
  qed
  have ex: "extractVersionFromTag tag ''v*'' =
      (if hasPrefix tag ''v'' \<and> CHR 0x0A \<notin> set (drop 1 tag) \<and> semverPattern (trimPrefix (drop 1 tag) ''v'')
       then trimPrefix (drop 1 tag) ''v'' else [])"
    by (simp add: extractVersionFromTag_def g fg Let_def)
  show ?thesis unfolding ex semverPattern_iff[symmetric]
  proof
    assume "(if hasPrefix tag ''v'' \<and> CHR 0x0A \<notin> set (drop 1 tag) \<and> semverPattern (trimPrefix (drop 1 tag) ''v'')
       then trimPrefix (drop 1 tag) ''v'' else []) = version \<and> version \<noteq> []"
    then have h: "hasPrefix tag ''v''" "semverPattern version" "trimPrefix (drop 1 tag) ''v'' = version" by (auto split: if_splits)
    from hasPrefix_decompose[OF h(1)] h(1) have t: "tag = ''v'' @ drop 1 tag" by (simp add: trimPrefix_def)
    show "(tag = ''v'' @ version \<or> tag = ''vv'' @ version) \<and> semverPattern version"
      using t h(2,3) hasPrefix_decompose[of "drop 1 tag" "''v''"] by (cases "hasPrefix (drop 1 tag) ''v''") (auto simp: trimPrefix_def)
  next
    assume h: "(tag = ''v'' @ version \<or> tag = ''vv'' @ version) \<and> semverPattern version"
    then have "CHR 0x0A \<notin> set version" using semver_chars by blast
    moreover have "version \<noteq> []" using h by (auto simp: semverPattern_def run1_def)
    ultimately show "(if hasPrefix tag ''v'' \<and> CHR 0x0A \<notin> set (drop 1 tag) \<and> semverPattern (trimPrefix (drop 1 tag) ''v'')
       then trimPrefix (drop 1 tag) ''v'' else []) = version \<and> version \<noteq> []"
      using h semver_hd[of version] by (auto simp: hasPrefix_def trimPrefix_def)
  qed
qed

end
