(* ===== verification/Archive.thy ===== *)
theory Archive
  imports LocalStorage
begin

text \<open>
  Module archives: the validation of uploads (\<^verbatim>\<open>internal/validation/archive.go\<close>) and the extraction
  for scanning and documentation (\<^verbatim>\<open>internal/archiver/tarball.go\<close>), over the file-system calls of
  \<open>LocalStorage\<close>. The gzip and tar readers enter as one function from the compressed bytes to the
  sequence of entries \<^verbatim>\<open>tar.Reader.Next\<close> delivers; bodies are readers that may break off.
\<close>

section \<open>Tar streams and limited readers\<close>

record tar_header =
  hdrName :: string
  hdrTypeflag :: char

datatype tar_stream = TarEOF | TarError string | TarEntry tar_header reader tar_stream

abbreviation "TypeReg \<equiv> CHR ''0''"
abbreviation "TypeLink \<equiv> CHR ''1''"
abbreviation "TypeSymlink \<equiv> CHR ''2''"
abbreviation "TypeDir \<equiv> CHR ''5''"

text \<open>\<^verbatim>\<open>io.LimitReader\<close>: at most \<open>n\<close> bytes; a failure after them is not reached.\<close>

definition limitReader :: "int \<Rightarrow> reader \<Rightarrow> reader" where
  "limitReader n r = (take (nat n) (fst r), snd r \<and> int (length (fst r)) < n)"

lemma limitReader_code [code]:
  "limitReader n r =
     (if int (length (fst r)) < n then r else (take (nat n) (fst r), False))"
  by (cases r) (auto simp: limitReader_def)

type_synonym tar_open = "reader \<Rightarrow> string + tar_stream"

section \<open>Package path/filepath: IsAbs and Rel\<close>

definition IsAbs :: "string \<Rightarrow> bool" where
  "IsAbs p = hasPrefix p ''/''"

fun dropCommon :: "string list \<Rightarrow> string list \<Rightarrow> string list \<times> string list" where
  "dropCommon (b # bs) (t # ts) = (if b = t then dropCommon bs ts else (b # bs, t # ts))"
| "dropCommon bs ts = (bs, ts)"

text \<open>
  \<^verbatim>\<open>filepath.Rel\<close>: the elements both clean paths share are dropped; what is left of the base becomes
  parent references.
\<close>

definition relElems :: "string \<Rightarrow> string list" where
  "relElems p = (if Clean p = ''.'' then [''.''] else cleanElems p)"

definition Rel :: "string \<Rightarrow> string \<Rightarrow> string option" where
  "Rel base targ =
     (if Clean targ = Clean base then Some ''.''
      else if IsAbs (Clean base) \<noteq> IsAbs (Clean targ) then None
      else (case dropCommon (cleanElems base) (relElems targ) of (bs, ts) \<Rightarrow>
              if bs \<noteq> [] \<and> hd bs = ''..'' then None
              else Some (joinSlash (replicate (length bs) ''..'' @ ts))))"

section \<open>Validation of an upload\<close>

datatype archive_error =
    EmptyArchive | InvalidGzip string | InvalidTar string | EntryCount | AbsolutePath string | Traversal string
  | GitDirectory | LinkEntry string | ReadEntry | SizeExceeded

abbreviation MaxArchiveSize :: int where "MaxArchiveSize \<equiv> 100 * 1024 * 1024"
abbreviation MaxArchiveEntries :: int where "MaxArchiveEntries \<equiv> 100000"

definition validatePath :: "string \<Rightarrow> archive_error + unit" where
  "validatePath path0 =
     (let path = Clean path0 in
      if IsAbs path then Inl (AbsolutePath path)
      else if length path \<ge> 3 \<and> path ! 1 = CHR '':'' \<and> (path ! 2 = CHR 0x5C \<or> path ! 2 = CHR ''/'')
        then Inl (AbsolutePath path)
      else if contains path ''..'' then Inl (Traversal path)
      else if hasPrefix path ''.'' \<and> path \<noteq> ''.'' \<and> hasPrefix path ''.git'' then Inl GitDirectory
      else Inr ())"

text \<open>The loop of \<^verbatim>\<open>ValidateArchive\<close>; the size counted so far and the number of entries are its state.\<close>

fun validateEntries :: "int \<Rightarrow> int \<Rightarrow> int \<Rightarrow> tar_stream \<Rightarrow> archive_error + int" where
  "validateEntries maxSize totalSize fileCount TarEOF = Inr fileCount"
| "validateEntries maxSize totalSize fileCount (TarError e) = Inl (InvalidTar e)"
| "validateEntries maxSize totalSize fileCount (TarEntry h body rest) =
     (let fileCount1 = fileCount + 1 in
      if fileCount1 > MaxArchiveEntries then Inl EntryCount
      else (case validatePath (hdrName h) of
              Inl e \<Rightarrow> Inl e
            | Inr _ \<Rightarrow>
                if hdrTypeflag h = TypeSymlink \<or> hdrTypeflag h = TypeLink then Inl (LinkEntry (hdrName h))
                else
                  (let limited = limitReader (maxSize - totalSize + 1) body;
                       totalSize1 = totalSize + int (length (fst limited))
                   in if snd limited then Inl ReadEntry
                      else if totalSize1 > maxSize then Inl SizeExceeded
                      else validateEntries maxSize totalSize1 fileCount1 rest)))"

definition ValidateArchive :: "tar_open \<Rightarrow> reader \<Rightarrow> int \<Rightarrow> archive_error + unit" where
  "ValidateArchive opn rd maxSize0 =
     (let maxSize = (if maxSize0 \<le> 0 then MaxArchiveSize else maxSize0) in
      case opn (limitReader (maxSize + 1) rd) of
        Inl e \<Rightarrow> Inl (InvalidGzip e)
      | Inr tr \<Rightarrow>
          (case validateEntries maxSize 0 0 tr of
             Inl e \<Rightarrow> Inl e
           | Inr fileCount \<Rightarrow> if fileCount = 0 then Inl EmptyArchive else Inr ()))"

section \<open>Extraction\<close>

datatype extract_error =
    DestNotAbsolute string | OpenGzip string | ReadTar string | TooManyEntries | InvalidFilePath string
  | MkdirFailed string | MkdirParent | CreateFailed string | WriteFailed string | ExtractionSize

abbreviation maxExtractBytes :: int where "maxExtractBytes \<equiv> 100 * 1024 * 1024"
abbreviation maxExtractEntries :: int where "maxExtractEntries \<equiv> 100000"
abbreviation maxCompressedInputBytes :: int where "maxCompressedInputBytes \<equiv> 100 * 1024 * 1024"

text \<open>
  \<^verbatim>\<open>os.OpenFile\<close> with \<^verbatim>\<open>O_CREATE|O_RDWR\<close>: an existing file keeps its content. Writing
  starts at offset zero and leaves what lies beyond the bytes written.
\<close>

definition osOpenRW :: "string \<Rightarrow> fs \<Rightarrow> (oserr + unit) \<times> fs" where
  "osOpenRW p s =
     (case osCall s of (f, s1) \<Rightarrow>
        if f \<noteq> FOk \<or> isDir s1 p \<or> \<not> isDir s1 (Dir p) then (Inl OsError, s1)
        else (case node s1 p of
                Some _ \<Rightarrow> (Inr (), s1)
              | None \<Rightarrow> (Inr (), setNode p (FFile [] (fsNow s1)) s1)))"

definition overwrite :: "string \<Rightarrow> string \<Rightarrow> string" where
  "overwrite old d = d @ drop (length d) old"

definition content :: "fs \<Rightarrow> string \<Rightarrow> string" where
  "content s p = (case node s p of Some (FFile d _) \<Rightarrow> d | _ \<Rightarrow> [])"

definition writeOver :: "string \<Rightarrow> string \<Rightarrow> fs \<Rightarrow> fs" where
  "writeOver p d s = (if d = [] then s else setNode p (FFile (overwrite (content s p) d) (fsNow s)) s)"

text \<open>\<^verbatim>\<open>io.Copy\<close> into the open file; the number of bytes copied.\<close>

definition copyOver :: "string \<Rightarrow> reader \<Rightarrow> fs \<Rightarrow> (oserr + int) \<times> fs" where
  "copyOver p r s =
     (case osCall s of (f, s1) \<Rightarrow>
        (case f of
           FFail \<Rightarrow> (Inl OsError, s1)
         | FShort n \<Rightarrow> (Inl OsError, writeOver p (take n (fst r)) s1)
         | FOk \<Rightarrow>
             (if snd r then Inl OsError else Inr (int (length (fst r))), writeOver p (fst r) s1)))"

text \<open>The containment test on one entry name.\<close>

definition entryTarget :: "string \<Rightarrow> string \<Rightarrow> string option" where
  "entryTarget destDir name =
     (let cleanDest = Clean destDir; target = Join cleanDest name in
      case Rel cleanDest target of
        None \<Rightarrow> None
      | Some rel \<Rightarrow> if rel = ''..'' \<or> hasPrefix rel ''../'' \<or> IsAbs rel then None else Some target)"

fun extractEntries :: "string \<Rightarrow> int \<Rightarrow> int \<Rightarrow> tar_stream \<Rightarrow> fs \<Rightarrow> (extract_error + unit) \<times> fs" where
  "extractEntries destDir totalWritten entryCount TarEOF s = (Inr (), s)"
| "extractEntries destDir totalWritten entryCount (TarError e) s = (Inl (ReadTar e), s)"
| "extractEntries destDir totalWritten entryCount (TarEntry h body rest) s =
     (let entryCount1 = entryCount + 1 in
      if entryCount1 > maxExtractEntries then (Inl TooManyEntries, s)
      else (case entryTarget destDir (hdrName h) of
              None \<Rightarrow> (Inl (InvalidFilePath (hdrName h)), s)
            | Some target \<Rightarrow>
                if hdrTypeflag h = TypeDir then
                  (case osMkdirAll target s of
                     (Inl _, s1) \<Rightarrow> (Inl (MkdirFailed target), s1)
                   | (Inr _, s1) \<Rightarrow> extractEntries destDir totalWritten entryCount1 rest s1)
                else if hdrTypeflag h = TypeReg then
                  (case osMkdirAll (Dir target) s of
                     (Inl _, s1) \<Rightarrow> (Inl MkdirParent, s1)
                   | (Inr _, s1) \<Rightarrow>
                       (case osOpenRW target s1 of
                          (Inl _, s2) \<Rightarrow> (Inl (CreateFailed target), s2)
                        | (Inr _, s2) \<Rightarrow>
                            (case copyOver target (limitReader (maxExtractBytes - totalWritten + 1) body) s2 of
                               (Inl _, s3) \<Rightarrow> (Inl (WriteFailed target), s3)
                             | (Inr n, s3) \<Rightarrow>
                                 if totalWritten + n > maxExtractBytes then (Inl ExtractionSize, s3)
                                 else extractEntries destDir (totalWritten + n) entryCount1 rest s3)))
                else extractEntries destDir totalWritten entryCount1 rest s))"

definition ExtractTarGz :: "tar_open \<Rightarrow> reader \<Rightarrow> string \<Rightarrow> fs \<Rightarrow> (extract_error + unit) \<times> fs" where
  "ExtractTarGz opn rd destDir s =
     (if \<not> IsAbs destDir then (Inl (DestNotAbsolute destDir), s)
      else (case opn (limitReader (maxCompressedInputBytes + 1) rd) of
              Inl e \<Rightarrow> (Inl (OpenGzip e), s)
            | Inr tr \<Rightarrow> extractEntries destDir 0 0 tr s))"

section \<open>Absolute clean paths\<close>

definition absPath :: "string list \<Rightarrow> string" where
  "absPath es = ''/'' @ joinSlash es"

lemma normal_pieces: "list_all normal es \<Longrightarrow> \<forall>e\<in>set es. CHR ''/'' \<notin> set e"
  by (auto simp: list_all_iff normal_def)

lemma joinSlash_snoc: "joinSlash (es @ [e]) = (if es = [] then e else joinSlash es @ ''/'' @ e)"
  by (induction es rule: joinSlash.induct) auto

lemma joinSlash_Nil: "list_all normal es \<Longrightarrow> joinSlash es = [] \<longleftrightarrow> es = []"
  by (cases es rule: joinSlash.cases) auto

lemma splitOn_absPath: "list_all normal es \<Longrightarrow> splitOn (CHR ''/'') (absPath es) = (if es = [] then [[], []] else [] # es)"
  using normal_pieces[of es] by (auto simp: absPath_def splitOn_join)

lemma IsAbs_absPath [simp]: "IsAbs (absPath es)" "hasPrefix (absPath es) ''/''"
  by (simp_all add: IsAbs_def absPath_def hasPrefix_def)

lemma cleanElems_absPath: "list_all normal es \<Longrightarrow> cleanElems (absPath es) = es"
  by (simp add: cleanElems_def splitOn_absPath fold_clean_normal) (simp add: cleanStep_def fold_clean_normal)

lemma Clean_absPath: "list_all normal es \<Longrightarrow> Clean (absPath es) = absPath es"
  by (simp add: Clean_def cleanElems_absPath) (simp add: absPath_def)

lemma absPath_inj: "list_all normal es \<Longrightarrow> list_all normal fs \<Longrightarrow> absPath es = absPath fs \<longleftrightarrow> es = fs"
  by (metis cleanElems_absPath)

lemma IsAbs_elems: "IsAbs p \<Longrightarrow> list_all normal (cleanElems p) \<and> Clean p = absPath (cleanElems p)"
  using okElems_clean[of p] by (simp add: okElems_def IsAbs_def Clean_def absPath_def)

lemma dropWhile_to_sep: "d \<notin> set e \<Longrightarrow> dropWhile (\<lambda>c. c \<noteq> d) (rev (x @ d # e)) = d # rev x"
  by (induction e rule: rev_induct) auto

lemma Dir_absPath: "list_all normal es \<Longrightarrow> Dir (absPath es) = absPath (butlast es)"
proof (cases es rule: rev_cases)
  case (snoc fs e)
  assume n: "list_all normal es"
  with snoc have e: "CHR ''/'' \<notin> set e" and f: "list_all normal fs" by (auto simp: normal_def)
  show ?thesis
  proof (cases "fs = []")
    case True
    then have "absPath es = [] @ CHR ''/'' # e" using snoc by (simp add: absPath_def)
    then have d: "dropWhile (\<lambda>c. c \<noteq> CHR ''/'') (rev (absPath es)) = ''/''" using dropWhile_to_sep[OF e, of "[]"] by simp
    have "Clean ''/'' = ''/''" by code_simp
    with d True snoc show ?thesis by (simp add: Dir_def absPath_def)
  next
    case False
    then have "absPath es = absPath fs @ CHR ''/'' # e" using snoc by (simp add: absPath_def joinSlash_snoc)
    then have d: "Dir (absPath es) = Clean (absPath fs @ ''/'')" using dropWhile_to_sep[OF e, of "absPath fs"] by (simp add: Dir_def)
    have a: "hasPrefix (absPath fs @ ''/'') ''/''" by (simp add: absPath_def hasPrefix_def)
    have "cleanElems (absPath fs @ ''/'') = fs"
      using splitOn_append_sep[of "CHR ''/''" "absPath fs" "[]"] f False
      by (simp add: cleanElems_def a splitOn_absPath fold_clean_normal) (simp add: cleanStep_def fold_clean_normal)
    with d a snoc show ?thesis by (simp add: Clean_def absPath_def)
  qed
qed (simp add: absPath_def, code_simp)

lemma prefixesOf_abs:
  "list_all normal ds \<Longrightarrow> list_all normal es \<Longrightarrow>
   prefixesOf (absPath ds) es = map (\<lambda>k. absPath (ds @ take (Suc k) es)) [0..<length es]"
proof (induction es arbitrary: ds)
  case (Cons e es)
  have p: "(if absPath ds = [] \<or> absPath ds = ''/'' then absPath ds @ e else absPath ds @ ''/'' @ e) = absPath (ds @ [e])"
    using joinSlash_Nil[of ds] Cons.prems by (auto simp: absPath_def joinSlash_snoc)
  have "prefixesOf (absPath (ds @ [e])) es = map (\<lambda>k. absPath (ds @ [e] @ take (Suc k) es)) [0..<length es]"
    using Cons.IH[of "ds @ [e]"] Cons.prems by simp
  then show ?case using p by (simp add: upt_conv_Cons map_Suc_upt[symmetric] comp_def del: upt_Suc)
qed simp

lemma ancestors_abs:
  assumes "list_all normal es"
  shows "set (ancestors (absPath es)) = (\<lambda>k. absPath (take k es)) ` {1..length es}"
proof -
  have "ancestors (absPath es) = map (\<lambda>k. absPath (take (Suc k) es)) [0..<length es]"
    using prefixesOf_abs[of "[]" es] assms by (simp add: ancestors_def cleanElems_absPath) (simp add: absPath_def)
  moreover have "{1..length es} = Suc ` {0..<length es}" by (simp add: image_Suc_atLeastLessThan atLeastLessThanSuc_atLeastAtMost)
  ultimately show ?thesis by (simp only: list.set_map set_upt image_image)
qed

section \<open>The containment test\<close>

lemma dropCommon_split: "dropCommon bs ts = (bs', ts') \<Longrightarrow> \<exists>c. bs = c @ bs' \<and> ts = c @ ts'"
proof (induction bs ts rule: dropCommon.induct)
  case (1 b bs t ts)
  show ?case
  proof (cases "b = t")
    case True
    with 1 obtain c where "bs = c @ bs' \<and> ts = c @ ts'" by auto
    with True show ?thesis by (intro exI[of _ "b # c"]) simp
  qed (use 1 in auto)
qed auto

lemma dropCommon_prefix: "dropCommon c (c @ ts) = ([], ts)"
  by (induction c) (cases ts, auto)

lemma first_piece: "hasPrefix s (x @ [d]) \<Longrightarrow> d \<notin> set x \<Longrightarrow> hd (splitOn d s) = x"
  using hasPrefix_decompose[of s "x @ [d]"] splitOn_sep[of d x] by (metis append.assoc append_Cons append_Nil list.sel(1))

lemma up_prefix: "joinSlash (''..'' # es) = ''..'' \<or> hasPrefix (joinSlash (''..'' # es)) ''../''"
  by (cases es) (auto simp: hasPrefix_def)

lemma joinSlash_inside:
  assumes "list_all normal ts" "ts \<noteq> []"
  shows "joinSlash ts \<noteq> ''..'' \<and> \<not> hasPrefix (joinSlash ts) ''../'' \<and> \<not> IsAbs (joinSlash ts)"
proof -
  have s: "splitOn (CHR ''/'') (joinSlash ts) = ts" using assms normal_pieces splitOn_join by blast
  have n: "normal (hd ts)" using assms by (cases ts) auto
  have "joinSlash ts = ''..'' \<Longrightarrow> ts = [''..'']" using s splitOn_no_sep[of "CHR ''/''" "''..''"] by auto
  moreover have "hasPrefix (joinSlash ts) ''../'' \<Longrightarrow> hd ts = ''..''"
    using first_piece[of "joinSlash ts" "''..''" "CHR ''/''"] s by auto
  moreover have "IsAbs (joinSlash ts) \<Longrightarrow> hd ts = []"
    using first_piece[of "joinSlash ts" "[]" "CHR ''/''"] s by (auto simp: IsAbs_def)
  ultimately show ?thesis using n by auto
qed

lemma target_elems:
  assumes "IsAbs dest"
  shows "Join (Clean dest) name =
    absPath (rev (fold (cleanStep True) (splitOn (CHR ''/'') name) (rev (cleanElems dest))))"
proof -
  let ?D = "Clean dest" and ?B = "cleanElems dest"
  have D: "list_all normal ?B" "?D = absPath ?B" using IsAbs_elems[OF assms] by auto
  have j: "Join ?D name = Clean (?D @ ''/'' @ name)" using Clean_not_Nil[of dest] by (simp add: Join_def)
  have h: "hasPrefix (?D @ ''/'' @ name) ''/''" unfolding D(2) by (simp add: absPath_def hasPrefix_def)
  have "fold (cleanStep True) (splitOn (CHR ''/'') ?D) [] = rev ?B"
    unfolding D(2) using D(1) by (simp add: splitOn_absPath fold_clean_normal) (simp add: cleanStep_def fold_clean_normal)
  then have "cleanElems (?D @ ''/'' @ name) = rev (fold (cleanStep True) (splitOn (CHR ''/'') name) (rev ?B))"
    by (simp add: cleanElems_def h[simplified] splitOn_append_sep)
  then show ?thesis using j h by (simp add: Clean_def absPath_def)
qed

lemma target_normal:
  assumes "IsAbs dest"
  shows "\<exists>es. Join (Clean dest) name = absPath es \<and> list_all normal es"
proof -
  have "okElems True (rev (fold (cleanStep True) (splitOn (CHR ''/'') name) (rev (cleanElems dest))))"
    using okElems_fold[of True "rev (cleanElems dest)" "splitOn (CHR ''/'') name"] okElems_clean[of dest] splitOn_pieces[of _ "CHR ''/''" name] assms
    by (simp add: IsAbs_def)
  then show ?thesis using target_elems[OF assms] by (auto simp: okElems_def)
qed

lemma Rel_abs:
  assumes "list_all normal bs" "list_all normal ts"
  shows "Rel (absPath bs) (absPath ts) =
    (if bs = ts then Some ''.''
     else (case dropCommon bs ts of (b, t) \<Rightarrow> Some (joinSlash (replicate (length b) ''..'' @ t))))"
proof -
  have c: "absPath ts \<noteq> ''.''" by (simp add: absPath_def)
  obtain b t where d: "dropCommon bs ts = (b, t)" by fastforce
  then obtain c where "bs = c @ b" using dropCommon_split by blast
  then have "b \<noteq> [] \<Longrightarrow> hd b \<noteq> ''..''" using assms(1) by (cases b) auto
  then show ?thesis using assms c d
    by (auto simp: Rel_def Clean_absPath cleanElems_absPath relElems_def absPath_inj)
qed

lemma entryTarget_Some:
  assumes "IsAbs dest" "entryTarget dest name = Some t"
  shows "\<exists>ts. t = absPath (cleanElems dest @ ts) \<and> list_all normal ts"
proof -
  let ?B = "cleanElems dest"
  have B: "list_all normal ?B" "Clean dest = absPath ?B" using IsAbs_elems[OF assms(1)] by auto
  obtain es where e: "Join (Clean dest) name = absPath es" "list_all normal es" using target_normal[OF assms(1)] by blast
  obtain b u where d: "dropCommon ?B es = (b, u)" by fastforce
  then obtain c where c: "?B = c @ b" "es = c @ u" using dropCommon_split by blast
  have "t = absPath es" using assms(2) e by (auto simp: entryTarget_def Let_def split: option.splits if_splits)
  moreover have "es = ?B \<or> b = []"
  proof (rule ccontr)
    assume x: "\<not> (es = ?B \<or> b = [])"
    then have "Rel (Clean dest) (absPath es) = Some (joinSlash (''..'' # replicate (length b - 1) ''..'' @ u))"
      using Rel_abs[OF B(1) e(2)] B(2) d by (cases b) auto
    then show False using up_prefix[of "replicate (length b - 1) ''..'' @ u"] assms(2) e by (auto simp: entryTarget_def Let_def)
  qed
  ultimately show ?thesis using c e(2) by (metis append.right_neutral list.pred_inject(1) list_all_append)
qed

lemma entryTarget_inside:
  assumes "IsAbs dest" "Join (Clean dest) name = absPath (cleanElems dest @ ts)" "list_all normal ts"
  shows "entryTarget dest name = Some (absPath (cleanElems dest @ ts))"
proof -
  have B: "list_all normal (cleanElems dest)" "Clean dest = absPath (cleanElems dest)" using IsAbs_elems[OF assms(1)] by auto
  have "Rel (Clean dest) (absPath (cleanElems dest @ ts)) = Some (if ts = [] then ''.'' else joinSlash ts)"
    using Rel_abs[of "cleanElems dest" "cleanElems dest @ ts"] assms(3) B dropCommon_prefix[of "cleanElems dest" ts] by auto
  then show ?thesis using joinSlash_inside[OF assms(3)] assms(2)
    by (cases "ts = []") (simp_all add: entryTarget_def hasPrefix_def IsAbs_def)
qed

section \<open>What extraction touches\<close>

definition below :: "string \<Rightarrow> string \<Rightarrow> bool" where
  "below dest q = (\<exists>ts. ts \<noteq> [] \<and> list_all normal ts \<and> q = absPath (cleanElems dest @ ts))"

definition above :: "string \<Rightarrow> string \<Rightarrow> bool" where
  "above dest q = (\<exists>k\<ge>1. q = absPath (take k (cleanElems dest)))"

text \<open>Only paths below the destination change, and missing directories on the way to it appear.\<close>

definition confined :: "string \<Rightarrow> fs \<Rightarrow> fs \<Rightarrow> bool" where
  "confined dest s s' \<longleftrightarrow>
     (\<forall>q. node s' q = node s q \<or> below dest q \<or> above dest q \<and> node s q = None \<and> node s' q = Some FDir)"

lemma confined_refl: "node s' = node s \<Longrightarrow> confined dest s s'"
  by (simp add: confined_def)

lemma confined_trans: "confined dest s s1 \<Longrightarrow> confined dest s1 s2 \<Longrightarrow> confined dest s s2"
  unfolding confined_def by (metis option.distinct(1))

lemma makeDirs_frame:
  "makeDirs ps s = (r, s') \<Longrightarrow>
   node s' q = node s q \<or> q \<in> set ps \<and> node s q = None \<and> node s' q = Some FDir"
proof (induction ps arbitrary: s)
  case (Cons p ps)
  show ?case
  proof (cases "node s p")
    case None
    with Cons.prems have "makeDirs ps (setNode p FDir s) = (r, s')" by simp
    from Cons.IH[OF this] None show ?thesis by (auto split: if_splits)
  next
    case (Some n)
    with Cons.prems Cons.IH[of s] show ?thesis by (cases n) auto
  qed
qed simp

lemma take_split: "take k (xs @ ys) = (if k \<le> length xs then take k xs else xs @ take (k - length xs) ys)"
  by auto

lemma prefix_place:
  assumes "list_all normal ts" "1 \<le> k" "k \<le> length (cleanElems dest @ ts)"
  shows "above dest (absPath (take k (cleanElems dest @ ts))) \<or> below dest (absPath (take k (cleanElems dest @ ts)))"
proof (cases "k \<le> length (cleanElems dest)")
  case False
  let ?u = "take (k - length (cleanElems dest)) ts"
  have "?u \<noteq> []" using False assms(3) by auto
  moreover have "list_all normal ?u" using assms(1) by (auto simp: list_all_iff dest: in_set_takeD)
  ultimately have "below dest (absPath (cleanElems dest @ ?u))" unfolding below_def by blast
  with False show ?thesis by (simp add: take_split)
qed (use assms(2) in \<open>auto simp: above_def take_split\<close>)

lemma osMkdirAll_cases:
  assumes "osMkdirAll p s = (r, s')"
  shows "(\<exists>s1. node s1 = node s \<and> fsNodes s1 = fsNodes s \<and> makeDirs (ancestors p) s1 = (r, s')) \<or>
    fsNodes s' = fsNodes s \<and> node s' = node s \<and> r = Inl OsError"
proof -
  obtain f s1 where c: "osCall s = (f, s1)" by fastforce
  have "node s1 = node s" "fsNodes s1 = fsNodes s" using osCall_eq[OF c] c by (auto simp: osCall_def split: list.splits)
  with assms c show ?thesis by (cases "f = FOk") (auto simp: osMkdirAll_def)
qed

lemma osMkdirAll_confined:
  assumes "IsAbs dest" "list_all normal ts" "osMkdirAll (absPath es) s = (r, s')" "es = take k (cleanElems dest @ ts)"
  shows "confined dest s s'"
proof -
  let ?all = "cleanElems dest @ ts"
  have all: "list_all normal ?all" using IsAbs_elems[OF assms(1)] assms(2) by simp
  then have es: "list_all normal es" using assms(4) by (auto simp: list_all_iff dest: in_set_takeD)
  have "above dest q \<or> below dest q" if "q \<in> set (ancestors (absPath es))" for q
  proof -
    from that obtain j where j: "q = absPath (take j es)" "j \<le> length es" "1 \<le> j" using ancestors_abs[OF es] by auto
    then have "q = absPath (take (min j k) ?all)" using assms(4) by (simp only: take_take)
    moreover have "min j k \<le> length ?all" "1 \<le> min j k" using j(2,3) assms(4) by auto
    ultimately show ?thesis using prefix_place[OF assms(2)] by metis
  qed
  with osMkdirAll_cases[OF assms(3)] makeDirs_frame show ?thesis unfolding confined_def by metis
qed

lemma osOpenRW_keeps: "osOpenRW p s = (r, s') \<Longrightarrow> q \<noteq> p \<Longrightarrow> node s' q = node s q"
  by (auto simp: osOpenRW_def dest!: osCall_eq split: prod.splits if_splits option.splits)

lemma osOpenRW_Inr:
  assumes "osOpenRW p s = (Inr u, s')"
  shows "(\<exists>d t. node s' p = Some (FFile d t)) \<and> \<not> isDir s p \<and>
    (\<exists>s1. fsNodes s1 = fsNodes s \<and> fsNow s1 = fsNow s \<and>
       s' = (if node s p = None then setNode p (FFile [] (fsNow s)) s1 else s1))"
proof -
  obtain f s1 where c: "osCall s = (f, s1)" by fastforce
  have n: "node s1 = node s" "fsNodes s1 = fsNodes s" "fsNow s1 = fsNow s" using osCall_eq[OF c] c by (auto simp: osCall_def split: list.splits)
  have d: "\<not> isDir s1 p" and r: "s' = (if node s p = None then setNode p (FFile [] (fsNow s)) s1 else s1)"
    using assms c n by (auto simp: osOpenRW_def split: if_splits option.splits)
  have "\<not> isDir s p" using d n by (simp add: isDir_def)
  moreover have "\<exists>d t. node s' p = Some (FFile d t)"
    using r d n by (cases "node s p"; cases "the (node s p)") (auto simp: isDir_def)
  ultimately show ?thesis using r n by blast
qed

lemma osOpenRW_Inl: "osOpenRW p s = (Inl e, s') \<Longrightarrow> fsNodes s' = fsNodes s \<and> node s' = node s"
  by (auto simp: osOpenRW_def osCall_def split: prod.splits if_splits option.splits list.splits)

lemma writeOver_keeps: "q \<noteq> p \<Longrightarrow> node (writeOver p d s) q = node s q"
  by (simp add: writeOver_def)

lemma copyOver_cases:
  assumes "copyOver p r s = (x, s')"
  shows "\<exists>d s1. node s1 = node s \<and> fsNodes s1 = fsNodes s \<and> s' = writeOver p d s1 \<and> length d \<le> length (fst r) \<and>
    (\<forall>n. x = Inr n \<longrightarrow> n = int (length d) \<and> d = fst r \<and> \<not> snd r)"
proof -
  obtain f s1 where c: "osCall s = (f, s1)" by fastforce
  have n: "node s1 = node s" "fsNodes s1 = fsNodes s" using osCall_eq[OF c] c by (auto simp: osCall_def split: list.splits)
  show ?thesis
  proof (cases f)
    case FFail
    with assms c n show ?thesis by (intro exI[of _ "[]"] exI[of _ s1]) (auto simp: copyOver_def writeOver_def)
  next
    case (FShort k)
    with assms c n show ?thesis by (intro exI[of _ "take k (fst r)"] exI[of _ s1]) (auto simp: copyOver_def)
  next
    case FOk
    with assms c n show ?thesis by (intro exI[of _ "fst r"] exI[of _ s1]) (auto simp: copyOver_def split: if_splits)
  qed
qed


lemma confined_isDir:
  assumes "IsAbs dest" "confined dest s s'" "isDir s (Clean dest)"
  shows "isDir s' (Clean dest)"
proof -
  have d: "Clean dest = absPath (cleanElems dest)" "list_all normal (cleanElems dest)" using IsAbs_elems[OF assms(1)] by auto
  have "\<not> below dest (Clean dest)" using d by (auto simp: below_def absPath_inj)
  then have "node s' (Clean dest) = node s (Clean dest) \<or> node s (Clean dest) = None" 
    using assms(2)[unfolded confined_def, rule_format, of "Clean dest"] by auto
  with assms(3) show ?thesis by (auto simp: isDir_def)
qed

lemma regular_confined:
  assumes a: "IsAbs dest" "isDir s (Clean dest)" "list_all normal ts"
    and m: "osMkdirAll (Dir (absPath (cleanElems dest @ ts))) s = (r1, s1)"
    and o: "osOpenRW (absPath (cleanElems dest @ ts)) s1 = (r2, s2)"
  shows "confined dest s s1 \<and> confined dest s s2 \<and>
    (r2 = Inr u \<longrightarrow> copyOver (absPath (cleanElems dest @ ts)) r s2 = (x, s3) \<longrightarrow> confined dest s s3)"
proof -
  let ?p = "absPath (cleanElems dest @ ts)"
  have n: "list_all normal (cleanElems dest @ ts)" using IsAbs_elems[OF a(1)] a(3) by simp
  have 1: "confined dest s s1"
    using osMkdirAll_confined[OF a(1,3) m[unfolded Dir_absPath[OF n]], of "length (cleanElems dest @ ts) - 1"]
    by (simp only: butlast_conv_take)
  show ?thesis
  proof (cases r2)
    case (Inl e)
    then show ?thesis using 1 osOpenRW_Inl o confined_trans confined_refl by fastforce
  next
    case (Inr u')
    have "ts \<noteq> []" using osOpenRW_Inr[OF o[unfolded Inr]] confined_isDir[OF a(1) 1 a(2)] IsAbs_elems[OF a(1)] by auto
    with a(3) have b: "below dest ?p" unfolding below_def by blast
    have 2: "confined dest s1 s2" using b osOpenRW_keeps[OF o] unfolding confined_def by metis
    have "confined dest s2 s3" if "copyOver ?p r s2 = (x, s3)"
      using copyOver_cases[OF that] writeOver_keeps b unfolding confined_def by metis
    then show ?thesis using 1 2 confined_trans by blast
  qed
qed

lemma extractEntries_confined:
  assumes a: "IsAbs dest"
  shows "isDir s (Clean dest) \<Longrightarrow> extractEntries dest tot cnt tr s = (r, s') \<Longrightarrow> confined dest s s'"
proof (induction tr arbitrary: tot cnt s)
  case (TarEntry h body rest)
  note p = TarEntry.prems(2)[unfolded extractEntries.simps Let_def]
  have ih: "confined dest s s1 \<Longrightarrow> extractEntries dest t c rest s1 = (r, s') \<Longrightarrow> confined dest s s'" for s1 t c
    using TarEntry.IH confined_isDir[OF a _ TarEntry.prems(1)] confined_trans by blast
  show ?case
  proof (cases "cnt + 1 > maxExtractEntries \<or> entryTarget dest (hdrName h) = None")
    case True
    with p show ?thesis by (auto intro: confined_refl split: if_splits)
  next
    case False
    then obtain t where t: "entryTarget dest (hdrName h) = Some t" "\<not> cnt + 1 > maxExtractEntries" by auto
    from entryTarget_Some[OF a t(1)] obtain ts where ts: "t = absPath (cleanElems dest @ ts)" "list_all normal ts" by blast
    note p = p[unfolded t option.case if_not_P[OF t(2)]]
    show ?thesis
    proof (cases "hdrTypeflag h = TypeDir")
      case True
      obtain r1 s1 where m: "osMkdirAll t s = (r1, s1)" by fastforce
      have "confined dest s s1"
        using osMkdirAll_confined[OF a ts(2) m[unfolded ts(1)], of "length (cleanElems dest @ ts)"] by simp
      with p True m ih show ?thesis by (cases r1) auto
    next
      case nodir: False
      show ?thesis
      proof (cases "hdrTypeflag h = TypeReg")
        case True
        obtain r1 s1 where m: "osMkdirAll (Dir t) s = (r1, s1)" by fastforce
        obtain r2 s2 where o: "osOpenRW t s1 = (r2, s2)" by fastforce
        obtain r3 s3 where c: "copyOver t (limitReader (maxExtractBytes - tot + 1) body) s2 = (r3, s3)" by fastforce
        have f: "confined dest s s1" "confined dest s s2" "r2 = Inr () \<Longrightarrow> confined dest s s3"
          using regular_confined[OF a TarEntry.prems(1) ts(2) m[unfolded ts(1)] o[unfolded ts(1)]] c[unfolded ts(1)] by blast+
        show ?thesis using p True nodir m o c f ih[of s3] by (cases r1; cases r2; cases r3) (auto split: if_splits)
      qed (use p nodir ih[of s] confined_refl in auto)
    qed
  qed
qed (auto intro: confined_refl)

text \<open>
  Extraction stays in its directory: whatever the archive contains, and whether extraction
  succeeds or fails half way, only paths that lie below the (existing) destination by proper names are created or
  changed; elsewhere at most missing parent directories of the destination appear.
\<close>

theorem extraction_confined:
  assumes "isDir s (Clean dest)" "ExtractTarGz opn rd dest s = (r, s')" "node s' q \<noteq> node s q"
  shows "(\<exists>ts. ts \<noteq> [] \<and> q = absPath (cleanElems dest @ ts) \<and>
            list_all (\<lambda>e. e \<noteq> [] \<and> e \<noteq> ''.'' \<and> e \<noteq> ''..'' \<and> CHR ''/'' \<notin> set e) ts) \<or>
    (\<exists>k\<ge>1. q = absPath (take k (cleanElems dest))) \<and> node s q = None \<and> node s' q = Some FDir"
proof -
  have a: "IsAbs dest" using assms(2,3) by (auto simp: ExtractTarGz_def split: if_splits)
  obtain tr where "extractEntries dest 0 0 tr s = (r, s')"
    using assms(2,3) a by (auto simp: ExtractTarGz_def split: sum.splits)
  from extractEntries_confined[OF a assms(1) this] assms(3) show ?thesis
    by (auto simp: confined_def below_def above_def normal_def[abs_def])
qed

section \<open>What extraction uses of the disk\<close>

definition nodeSize :: "fnode \<Rightarrow> nat" where
  "nodeSize n = (case n of FFile d _ \<Rightarrow> length d | FDir \<Rightarrow> 0)"

definition isFile :: "fnode \<Rightarrow> bool" where
  "isFile n = (case n of FFile _ _ \<Rightarrow> True | FDir \<Rightarrow> False)"

definition diskUse :: "fs \<Rightarrow> nat" where
  "diskUse s = sum_list (map (nodeSize \<circ> snd) (fsNodes s))"

definition fileCount :: "fs \<Rightarrow> nat" where
  "fileCount s = length (filter (isFile \<circ> snd) (fsNodes s))"

lemma sum_filter_le: "sum_list (map f (filter P xs)) \<le> (sum_list (map f xs) :: nat)"
  by (induction xs) auto

lemma sum_remove_key: "map_of xs p = Some n \<Longrightarrow> sum_list (map f (filter (\<lambda>x. fst x \<noteq> p) xs)) + f (p, n) \<le> (sum_list (map f xs) :: nat)"
  by (induction xs) (auto intro: order_trans[OF sum_filter_le] split: if_splits)

lemma count_filter: "length (filter Q xs) = sum_list (map (\<lambda>x. if Q x then 1 else 0) xs)"
  by (induction xs) auto

lemma count_remove_key: "map_of xs p = Some n \<Longrightarrow> Q (p, n) \<Longrightarrow> length (filter Q (filter (\<lambda>x. fst x \<noteq> p) xs)) + 1 \<le> length (filter Q xs)"
  using sum_remove_key[of xs p n "\<lambda>x. if Q x then 1 else 0"] unfolding count_filter by simp

lemma setNode_use: "diskUse (setNode p n s) \<le> diskUse s + nodeSize n" "fileCount (setNode p n s) \<le> fileCount s + (if isFile n then 1 else 0)"
  using sum_filter_le[of "nodeSize \<circ> snd" "\<lambda>x. fst x \<noteq> p" "fsNodes s"]
    sum_filter_le[of "\<lambda>x. if (isFile \<circ> snd) x then 1 else 0" "\<lambda>x. fst x \<noteq> p" "fsNodes s"]
  unfolding diskUse_def fileCount_def count_filter by (simp_all add: setNode_def)

lemma same_nodes_use: "fsNodes s' = fsNodes s \<Longrightarrow> diskUse s' = diskUse s \<and> fileCount s' = fileCount s"
  by (simp add: diskUse_def fileCount_def)

lemma makeDirs_use: "makeDirs ps s = (r, s') \<Longrightarrow> diskUse s' \<le> diskUse s \<and> fileCount s' \<le> fileCount s"
proof (induction ps arbitrary: s)
  case (Cons p ps)
  have "diskUse (setNode p FDir s) \<le> diskUse s" "fileCount (setNode p FDir s) \<le> fileCount s"
    using setNode_use[of p FDir s] by (simp_all add: nodeSize_def isFile_def)
  with Cons.prems Cons.IH[of s] Cons.IH[of "setNode p FDir s"] show ?case by (auto split: option.splits fnode.splits)
qed simp

lemma osMkdirAll_use: "osMkdirAll p s = (r, s') \<Longrightarrow> diskUse s' \<le> diskUse s \<and> fileCount s' \<le> fileCount s"
  using osMkdirAll_cases[of p s r s'] makeDirs_use same_nodes_use by (metis le_refl)

lemma osOpenRW_use:
  assumes o: "osOpenRW p s = (r, s')"
  shows "diskUse s' \<le> diskUse s \<and> fileCount s' \<le> fileCount s + (case r of Inr _ \<Rightarrow> 1 | Inl _ \<Rightarrow> 0)"
proof (cases r)
  case (Inr u)
  from osOpenRW_Inr[OF o[unfolded Inr]] obtain s1 where s1: "fsNodes s1 = fsNodes s"
    "s' = (if node s p = None then setNode p (FFile [] (fsNow s)) s1 else s1)" by blast
  with setNode_use[of p "FFile [] (fsNow s)" s1] same_nodes_use[OF s1(1)] Inr show ?thesis by (simp add: nodeSize_def isFile_def)
next
  case (Inl e)
  with same_nodes_use[of s' s] osOpenRW_Inl[OF o[unfolded Inl]] show ?thesis by simp
qed

lemma writeOver_use:
  assumes "node s p = Some (FFile old t)"
  shows "diskUse (writeOver p d s) \<le> diskUse s + length d \<and> fileCount (writeOver p d s) \<le> fileCount s"
proof -
  have m: "map_of (fsNodes s) p = Some (FFile old t)" using assms by (simp add: node_def)
  have "sum_list (map (nodeSize \<circ> snd) (filter (\<lambda>x. fst x \<noteq> p) (fsNodes s))) + length old \<le> diskUse s"
    using sum_remove_key[OF m, of "nodeSize \<circ> snd"] by (simp add: diskUse_def nodeSize_def)
  moreover have "length (filter (isFile \<circ> snd) (filter (\<lambda>x. fst x \<noteq> p) (fsNodes s))) + 1 \<le> fileCount s"
    using count_remove_key[OF m, of "isFile \<circ> snd"] by (simp add: fileCount_def isFile_def)
  ultimately show ?thesis using assms
    by (auto simp: writeOver_def content_def overwrite_def diskUse_def fileCount_def setNode_def nodeSize_def isFile_def)
qed

lemma copyOver_use:
  assumes "copyOver p r s = (x, s')" "node s p = Some (FFile old t)"
  shows "diskUse s' \<le> diskUse s + length (fst r) \<and> fileCount s' \<le> fileCount s \<and>
    (\<forall>n. x = Inr n \<longrightarrow> n = int (length (fst r)))"
proof -
  from copyOver_cases[OF assms(1)] obtain d s1 where c: "node s1 = node s" "fsNodes s1 = fsNodes s" "s' = writeOver p d s1"
    "length d \<le> length (fst r)" "\<forall>n. x = Inr n \<longrightarrow> n = int (length d) \<and> d = fst r \<and> \<not> snd r" by blast
  have "node s1 p = Some (FFile old t)" using c(1) assms(2) by simp
  from writeOver_use[OF this, of d] same_nodes_use[OF c(2)] c(3-5) show ?thesis by auto
qed

lemma extractEntries_use:
  assumes "0 \<le> tot" "tot \<le> maxExtractBytes" "cnt \<le> maxExtractEntries" "extractEntries dest tot cnt tr s = (r, s')"
  shows "int (diskUse s') \<le> int (diskUse s) + (maxExtractBytes + 1 - tot) \<and>
    int (fileCount s') \<le> int (fileCount s) + (maxExtractEntries - cnt)"
  using assms
proof (induction tr arbitrary: tot cnt s)
  case (TarEntry h body rest)
  note p = TarEntry.prems(4)[unfolded extractEntries.simps Let_def]
  show ?case
  proof (cases "cnt + 1 > maxExtractEntries \<or> entryTarget dest (hdrName h) = None")
    case True
    with p TarEntry.prems show ?thesis by (auto split: if_splits)
  next
    case False
    then obtain t where t: "entryTarget dest (hdrName h) = Some t" "\<not> cnt + 1 > maxExtractEntries" by auto
    note p = p[unfolded t option.case if_not_P[OF t(2)]]
    have ih: "int (diskUse s') \<le> int (diskUse s1) + (maxExtractBytes + 1 - tot1) \<and>
        int (fileCount s') \<le> int (fileCount s1) + (maxExtractEntries - (cnt + 1))"
      if "extractEntries dest tot1 (cnt + 1) rest s1 = (r, s')" "0 \<le> tot1" "tot1 \<le> maxExtractBytes" for s1 tot1
      using TarEntry.IH[OF that(2,3) _ that(1)] t(2) by simp
    show ?thesis
    proof (cases "hdrTypeflag h = TypeDir")
      case True
      obtain r1 s1 where m: "osMkdirAll t s = (r1, s1)" by fastforce
      from osMkdirAll_use[OF m] p True m ih[of tot s1] TarEntry.prems(1-3) t(2) show ?thesis by (cases r1) auto
    next
      case nodir: False
      show ?thesis
      proof (cases "hdrTypeflag h = TypeReg")
        case True
        let ?lim = "limitReader (maxExtractBytes - tot + 1) body"
        obtain r1 s1 where m: "osMkdirAll (Dir t) s = (r1, s1)" by fastforce
        obtain r2 s2 where o: "osOpenRW t s1 = (r2, s2)" by fastforce
        obtain r3 s3 where c: "copyOver t ?lim s2 = (r3, s3)" by fastforce
        have len: "int (length (fst ?lim)) \<le> maxExtractBytes - tot + 1" using TarEntry.prems(2) by (simp add: limitReader_def)
        have u: "diskUse s2 \<le> diskUse s" "fileCount s2 \<le> fileCount s + (case r2 of Inr _ \<Rightarrow> 1 | Inl _ \<Rightarrow> 0)"
          using osMkdirAll_use[OF m] osOpenRW_use[OF o] by linarith+
        show ?thesis
        proof (cases r1)
          case (Inl e)
          with p True nodir m osMkdirAll_use[OF m] TarEntry.prems(1-3) t(2) show ?thesis by auto
        next
          case r1: (Inr v)
          show ?thesis
          proof (cases r2)
            case (Inl e)
            with p True nodir m o r1 u TarEntry.prems(1-3) t(2) show ?thesis by auto
          next
            case (Inr w)
            obtain old t0 where f: "node s2 t = Some (FFile old t0)" using osOpenRW_Inr o Inr by blast
            from copyOver_use[OF c f] have k: "diskUse s3 \<le> diskUse s2 + length (fst ?lim)" "fileCount s3 \<le> fileCount s2"
              "\<forall>n. r3 = Inr n \<longrightarrow> n = int (length (fst ?lim))" by auto
            show ?thesis
            proof (cases "\<exists>n. r3 = Inr n \<and> tot + n \<le> maxExtractBytes")
              case True
              then obtain n where n: "r3 = Inr n" "tot + n \<le> maxExtractBytes" by blast
              with k have n': "n = int (length (fst ?lim))" by simp
              from p \<open>hdrTypeflag h = TypeReg\<close> nodir m o c r1 Inr n have "extractEntries dest (tot + n) (cnt + 1) rest s3 = (r, s')" by simp
              from ih[OF this] n n' k u Inr TarEntry.prems(1) show ?thesis by simp
            next
              case False
              with p \<open>hdrTypeflag h = TypeReg\<close> nodir m o c r1 Inr have "s' = s3" by (cases r3) (auto split: if_splits)
              with k u Inr len t(2) show ?thesis by simp
            qed
          qed
        qed
      qed (use p nodir ih[of tot s] TarEntry.prems(1-3) t(2) in auto)
    qed
  qed
qed auto

text \<open>
  An archive cannot fill the disk: extracting any archive, however it ends, adds at most 100 MB
  and one byte of file content and at most 100000 files.
\<close>

theorem extraction_bounded:
  assumes "ExtractTarGz opn rd dest s = (r, s')"
  shows "diskUse s' \<le> diskUse s + 100 * 1024 * 1024 + 1 \<and> fileCount s' \<le> fileCount s + 100000"
proof -
  consider "s' = s" | tr where "extractEntries dest 0 0 tr s = (r, s')"
    using assms by (auto simp: ExtractTarGz_def split: if_splits sum.splits)
  then show ?thesis
  proof cases
    case 2
    from extractEntries_use[OF _ _ _ this] show ?thesis by simp
  qed simp
qed

definition exDisk :: fs where
  "exDisk = \<lparr>fsNodes = [(''/t'', FDir)], fsNow = 5, fsDirStat = (\<lambda>_. (0, 0)), fsFaults = []\<rparr>"

definition regEntry :: "string \<Rightarrow> string \<Rightarrow> tar_stream \<Rightarrow> tar_stream" where
  "regEntry n d rest = TarEntry \<lparr>hdrName = n, hdrTypeflag = TypeReg\<rparr> (d, False) rest"

definition exTar :: tar_stream where
  "exTar = regEntry ''./a/b.tf'' ''xyz'' (regEntry ''../../etc/passwd'' ''p'' TarEOF)"

theorem extraction_confined_witness:
  "\<exists>s'. ExtractTarGz (\<lambda>_. Inr exTar) ([], False) ''/t'' exDisk = (Inl (InvalidFilePath ''../../etc/passwd''), s') \<and>
     (\<exists>ts. ts \<noteq> [] \<and> ''/t/a/b.tf'' = absPath (cleanElems ''/t'' @ ts))"
proof -
  let ?x = "ExtractTarGz (\<lambda>_. Inr exTar) ([], False) ''/t'' exDisk"
  have x: "fst ?x = Inl (InvalidFilePath ''../../etc/passwd'')" "isDir exDisk (Clean ''/t'')"
    "node (snd ?x) ''/t/a/b.tf'' = Some (FFile ''xyz'' 5)" "node exDisk ''/t/a/b.tf'' = None" by code_simp+
  then have e: "?x = (Inl (InvalidFilePath ''../../etc/passwd''), snd ?x)" by (metis prod.collapse)
  from extraction_confined[OF x(2) e, of "''/t/a/b.tf''"] x(3,4) e show ?thesis by auto
qed

theorem extraction_bounded_witness:
  "diskUse (snd (ExtractTarGz (\<lambda>_. Inr exTar) ([], False) ''/t'' exDisk)) \<le> diskUse exDisk + 100 * 1024 * 1024 + 1"
  using extraction_bounded[OF prod.collapse[symmetric, of "ExtractTarGz (\<lambda>_. Inr exTar) ([], False) ''/t'' exDisk"]] by simp

section \<open>What validation accepts\<close>

fun streamEntries :: "tar_stream \<Rightarrow> (tar_header \<times> reader) list" where
  "streamEntries (TarEntry h body rest) = (h, body) # streamEntries rest"
| "streamEntries _ = []"

fun streamEnds :: "tar_stream \<Rightarrow> bool" where
  "streamEnds TarEOF = True"
| "streamEnds (TarError e) = False"
| "streamEnds (TarEntry h body rest) = streamEnds rest"

definition goodEntry :: "tar_header \<times> reader \<Rightarrow> bool" where
  "goodEntry x \<longleftrightarrow> validatePath (hdrName (fst x)) = Inr () \<and>
     hdrTypeflag (fst x) \<noteq> TypeSymlink \<and> hdrTypeflag (fst x) \<noteq> TypeLink \<and> \<not> snd (snd x)"

definition bodySizes :: "(tar_header \<times> reader) list \<Rightarrow> int" where
  "bodySizes es = (\<Sum>x\<leftarrow>es. int (length (fst (snd x))))"

lemma bodySizes_simps [simp]: "bodySizes [] = 0" "bodySizes (x # es) = int (length (fst (snd x))) + bodySizes es"
  by (simp_all add: bodySizes_def)

lemma bodySizes_nonneg: "0 \<le> bodySizes es"
  by (induction es) auto

lemma limitReader_ok:
  assumes "0 \<le> n"
  shows "\<not> snd (limitReader (n + 1) b) \<and> int (length (fst (limitReader (n + 1) b))) \<le> n \<longleftrightarrow>
    \<not> snd b \<and> int (length (fst b)) \<le> n"
    "int (length (fst b)) \<le> n \<Longrightarrow> fst (limitReader (n + 1) b) = fst b"
  using assms by (auto simp: limitReader_def min_def split: if_splits)

lemma validateEntries_iff:
  "0 \<le> tot \<Longrightarrow> tot \<le> maxSize \<Longrightarrow> cnt \<le> MaxArchiveEntries \<Longrightarrow>
   validateEntries maxSize tot cnt tr = Inr n \<longleftrightarrow>
     streamEnds tr \<and> n = cnt + int (length (streamEntries tr)) \<and> n \<le> MaxArchiveEntries \<and>
     list_all goodEntry (streamEntries tr) \<and> tot + bodySizes (streamEntries tr) \<le> maxSize"
proof (induction tr arbitrary: tot cnt)
  case (TarEntry h body rest)
  let ?lim = "limitReader (maxSize - tot + 1) body"
  have nn: "0 \<le> bodySizes (streamEntries rest)" by (rule bodySizes_nonneg)
  show ?case
  proof (cases "cnt + 1 \<le> MaxArchiveEntries \<and> goodEntry (h, body) \<and> tot + int (length (fst body)) \<le> maxSize")
    case True
    have f: "\<not> snd ?lim" "fst ?lim = fst body"
      using True limitReader_ok[of "maxSize - tot" body] TarEntry.prems by (auto simp: goodEntry_def)
    have "validateEntries maxSize tot cnt (TarEntry h body rest) = validateEntries maxSize (tot + int (length (fst body))) (cnt + 1) rest"
      using True f by (simp add: goodEntry_def Let_def)
    with TarEntry.IH[of "tot + int (length (fst body))" "cnt + 1"] True TarEntry.prems show ?thesis by auto
  next
    case False
    then have "cnt + 1 \<le> MaxArchiveEntries \<Longrightarrow> validatePath (hdrName h) = Inr () \<Longrightarrow> hdrTypeflag h \<noteq> TypeSymlink \<Longrightarrow>
        hdrTypeflag h \<noteq> TypeLink \<Longrightarrow> snd ?lim \<or> tot + int (length (fst ?lim)) > maxSize"
      using limitReader_ok(1)[of "maxSize - tot" body] TarEntry.prems by (auto simp: goodEntry_def)
    then have "validateEntries maxSize tot cnt (TarEntry h body rest) \<noteq> Inr n"
      by (auto simp: Let_def split: sum.splits)
    with False nn show ?thesis by auto
  qed
qed auto

lemma ValidateArchive_iff:
  "ValidateArchive opn rd maxSize = Inr () \<longleftrightarrow>
     (let lim = (if maxSize \<le> 0 then 104857600 else maxSize) in
      \<exists>tr. opn (limitReader (lim + 1) rd) = Inr tr \<and> streamEnds tr \<and>
        1 \<le> length (streamEntries tr) \<and> length (streamEntries tr) \<le> 100000 \<and>
        list_all goodEntry (streamEntries tr) \<and> bodySizes (streamEntries tr) \<le> lim)"
proof -
  let ?lim = "if maxSize \<le> 0 then 104857600 else maxSize"
  show ?thesis
  proof (cases "opn (limitReader (?lim + 1) rd)")
    case (Inr tr)
    have "ValidateArchive opn rd maxSize = Inr () \<longleftrightarrow> (\<exists>n. validateEntries ?lim 0 0 tr = Inr n \<and> n \<noteq> 0)"
      using Inr by (auto simp: ValidateArchive_def Let_def split: sum.splits)
    with Inr validateEntries_iff[of 0 ?lim 0 tr] show ?thesis by (auto simp: Let_def Suc_le_eq)
  qed (auto simp: ValidateArchive_def Let_def)
qed

text \<open>
  Validation accepts exactly the proper archives: an upload passes if and only if it
  decompresses to a complete tar stream of one to 100000 entries, every one with an acceptable name, none
  of them a link, none cut off, whose bodies together do not exceed the limit.
\<close>

theorem ValidateArchive_exact:
  "ValidateArchive opn rd maxSize = Inr () \<longleftrightarrow>
     (let lim = (if maxSize \<le> 0 then 104857600 else maxSize) in
      \<exists>tr. opn (limitReader (lim + 1) rd) = Inr tr \<and> streamEnds tr \<and>
        1 \<le> length (streamEntries tr) \<and> length (streamEntries tr) \<le> 100000 \<and>
        list_all goodEntry (streamEntries tr) \<and> bodySizes (streamEntries tr) \<le> lim)"
  by (rule ValidateArchive_iff)

section \<open>Names that validation accepts\<close>

lemma contains_prefix: "hasPrefix s p \<Longrightarrow> contains s p"
  by (cases s) (auto simp: hasPrefix_def)

lemma validatePath_ok:
  assumes "validatePath n = Inr ()"
  shows "\<not> hasPrefix n ''/'' \<and> list_all normal (cleanElems n)"
proof -
  have a: "\<not> hasPrefix n ''/''" "\<not> contains (Clean n) ''..''"
    using assms hasPrefix_Clean[of n] by (auto simp: validatePath_def Let_def IsAbs_def split: if_splits)
  have c: "canon (cleanElems n)" using okElems_clean[of n] by (simp add: okElems_def)
  have "list_all normal (cleanElems n)"
  proof (cases "cleanElems n")
    case (Cons e es)
    have "e \<noteq> ''..''"
    proof
      assume "e = ''..''"
      then have "hasPrefix (Clean n) ''..''" using a(1) Cons by (cases es) (simp_all add: Clean_def hasPrefix_def)
      with contains_prefix a(2) show False by blast
    qed
    with c Cons show ?thesis by auto
  qed simp
  with a(1) show ?thesis by simp
qed

lemma parent_stays: "''..'' \<in> set st \<Longrightarrow> ''..'' \<in> set (fold (cleanStep False) es st)"
proof (induction es arbitrary: st)
  case (Cons e es)
  have "''..'' \<in> set (cleanStep False e st)" using Cons.prems by (cases st) (auto simp: cleanStep_def)
  with Cons.IH show ?case by simp
qed simp

lemma fold_on_stack:
  "''..'' \<notin> set (fold (cleanStep False) es st) \<Longrightarrow>
   fold (cleanStep True) es (st @ S) = fold (cleanStep False) es st @ S"
proof (induction es arbitrary: st)
  case (Cons e es)
  have "''..'' \<notin> set (cleanStep False e st)" using Cons.prems parent_stays[of "cleanStep False e st" es] by auto
  then have "cleanStep True e (st @ S) = cleanStep False e st @ S" by (cases st) (auto simp: cleanStep_def split: if_splits)
  with Cons show ?case by simp
qed simp

lemma valid_target:
  assumes "IsAbs dest" "validatePath n = Inr ()"
  shows "entryTarget dest n = Some (absPath (cleanElems dest @ cleanElems n))"
proof (rule entryTarget_inside[OF assms(1)])
  have v: "\<not> hasPrefix n ''/''" "list_all normal (cleanElems n)" using validatePath_ok[OF assms(2)] by auto
  let ?f = "fold (cleanStep False) (splitOn (CHR ''/'') n) []"
  have "rev ?f = cleanElems n" using v(1) by (simp add: cleanElems_def)
  moreover from this have "''..'' \<notin> set ?f" using v(2) by (metis list_all_iff normal_not(3) set_rev)
  ultimately show "Join (Clean dest) n = absPath (cleanElems dest @ cleanElems n)"
    using target_elems[OF assms(1), of n] fold_on_stack[of "splitOn (CHR ''/'') n" "[]" "rev (cleanElems dest)"] by simp
  show "list_all normal (cleanElems n)" by (rule v(2))
qed

section \<open>Validated archives can be extracted\<close>

fun ioError :: "extract_error \<Rightarrow> bool" where
  "ioError (MkdirFailed _) = True"
| "ioError MkdirParent = True"
| "ioError (CreateFailed _) = True"
| "ioError (WriteFailed _) = True"
| "ioError _ = False"

lemma limitReader_whole: "int (length (fst b)) \<le> n \<Longrightarrow> \<not> snd b \<Longrightarrow> limitReader (n + 1) b = b"
  by (cases b) (auto simp: limitReader_def)

lemma valid_extract_errors:
  assumes "IsAbs dest"
  shows "streamEnds tr \<Longrightarrow> list_all goodEntry (streamEntries tr) \<Longrightarrow> cnt + int (length (streamEntries tr)) \<le> maxExtractEntries \<Longrightarrow>
    tot + bodySizes (streamEntries tr) \<le> maxExtractBytes \<Longrightarrow>
    extractEntries dest tot cnt tr s = (Inl e, s') \<Longrightarrow> ioError e"
proof (induction tr arbitrary: tot cnt s)
  case (TarEntry h body rest)
  let ?t = "absPath (cleanElems dest @ cleanElems (hdrName h))"
  have g: "validatePath (hdrName h) = Inr ()" "\<not> snd body" using TarEntry.prems by (auto simp: goodEntry_def)
  have c: "\<not> cnt + 1 > maxExtractEntries" and b: "tot + int (length (fst body)) \<le> maxExtractBytes"
    using TarEntry.prems bodySizes_nonneg[of "streamEntries rest"] by auto
  have l: "limitReader (maxExtractBytes - tot + 1) body = body" using limitReader_whole[of body "maxExtractBytes - tot"] b g(2) by simp
  note p = TarEntry.prems(5)[unfolded extractEntries.simps Let_def valid_target[OF assms g(1)] option.case if_not_P[OF c] l]
  have ih: "extractEntries dest t (cnt + 1) rest s1 = (Inl e, s') \<Longrightarrow> t \<le> tot + int (length (fst body)) \<Longrightarrow> ioError e" for t s1
    using TarEntry.IH[of "cnt + 1" t s1] TarEntry.prems by auto
  have n: "copyOver ?t body s2 = (Inr n, s3) \<Longrightarrow> n = int (length (fst body))" for s2 n s3
    using copyOver_cases[of ?t body s2 "Inr n" s3] by auto
  show ?case using p ih b n by (auto split: if_splits sum.splits prod.splits)
qed auto

text \<open>
  What was validated can be scanned: an archive accepted at upload is never rejected when it is
  extracted later into an absolute directory; only a failing file operation stops the extraction.
\<close>

theorem validated_archive_extracts:
  assumes "ValidateArchive opn rd 104857600 = Inr ()" "IsAbs dest" "ExtractTarGz opn rd dest s = (Inl e, s')"
  shows "ioError e"
proof -
  from assms(1) obtain tr where tr: "opn (limitReader 104857601 rd) = Inr tr" "streamEnds tr" "length (streamEntries tr) \<le> 100000"
    "list_all goodEntry (streamEntries tr)" "bodySizes (streamEntries tr) \<le> 104857600"
    using ValidateArchive_iff[of opn rd 104857600] by (auto simp: Let_def)
  with assms(2,3) have "extractEntries dest 0 0 tr s = (Inl e, s')" by (simp add: ExtractTarGz_def)
  with valid_extract_errors[OF assms(2) tr(2,4), of 0 0] tr(3,5) show ?thesis by simp
qed

section \<open>Extraction reproduces the archive\<close>

abbreviation "isReg x \<equiv> hdrTypeflag (fst x) = TypeReg"
abbreviation "isDirEntry x \<equiv> hdrTypeflag (fst x) = TypeDir"
abbreviation "elemsOf x \<equiv> cleanElems (hdrName (fst x))"

text \<open>
  No two entries collide: a regular file has a name, appears once, and is not at the same time a directory of
  another entry.
\<close>

definition collisionFree :: "(tar_header \<times> reader) list \<Rightarrow> bool" where
  "collisionFree es \<longleftrightarrow>
     distinct (map elemsOf (filter isReg es)) \<and>
     (\<forall>x\<in>set es. isReg x \<longrightarrow> elemsOf x \<noteq> [] \<and>
        (\<forall>y\<in>set es. (isReg y \<or> isDirEntry y) \<and> prefix (elemsOf x) (elemsOf y) \<longrightarrow> isReg y \<and> elemsOf y = elemsOf x))"

text \<open>The directory after the entries \<open>es\<close> were extracted into it.\<close>

definition extracted :: "string \<Rightarrow> (tar_header \<times> reader) list \<Rightarrow> fs \<Rightarrow> bool" where
  "extracted dest es s \<longleftrightarrow>
     fsFaults s = [] \<and> (\<forall>k. isDir s (absPath (take k (cleanElems dest)))) \<and>
     (\<forall>x\<in>set es. isReg x \<longrightarrow> (\<exists>t. node s (absPath (cleanElems dest @ elemsOf x)) = Some (FFile (fst (snd x)) t))) \<and>
     (\<forall>ts d t. list_all normal ts \<longrightarrow> ts \<noteq> [] \<longrightarrow> node s (absPath (cleanElems dest @ ts)) = Some (FFile d t) \<longrightarrow>
        (\<exists>x\<in>set es. isReg x \<and> elemsOf x = ts \<and> d = fst (snd x))) \<and>
     (\<forall>ts. list_all normal ts \<longrightarrow> ts \<noteq> [] \<longrightarrow> node s (absPath (cleanElems dest @ ts)) = Some FDir \<longrightarrow>
        (\<exists>y\<in>set es. prefix ts (elemsOf y) \<and> (isDirEntry y \<or> isReg y \<and> ts \<noteq> elemsOf y)))"

lemma makeDirs_ok:
  assumes "\<forall>p\<in>set ps. \<forall>d t. node s p \<noteq> Some (FFile d t)"
  shows "\<exists>s'. makeDirs ps s = (Inr (), s') \<and> fsFaults s' = fsFaults s \<and>
    (\<forall>q. node s' q = (if q \<in> set ps \<and> node s q = None then Some FDir else node s q))"
  using assms
proof (induction ps arbitrary: s)
  case (Cons p ps)
  let ?s = "if node s p = None then setNode p FDir s else s"
  have n: "node ?s q = (if q = p \<and> node s p = None then Some FDir else node s q)" for q by simp
  have "\<exists>s'. makeDirs ps ?s = (Inr (), s') \<and> fsFaults s' = fsFaults ?s \<and>
    (\<forall>q. node s' q = (if q \<in> set ps \<and> node ?s q = None then Some FDir else node ?s q))"
    by (rule Cons.IH) (use Cons.prems in \<open>auto simp: n\<close>)
  then obtain s' where s': "makeDirs ps ?s = (Inr (), s')" "fsFaults s' = fsFaults ?s"
    "\<forall>q. node s' q = (if q \<in> set ps \<and> node ?s q = None then Some FDir else node ?s q)" by blast
  have "makeDirs (p # ps) s = (Inr (), s')"
    using s'(1) Cons.prems by (auto split: option.splits fnode.splits if_splits)
  with s' show ?case by (auto simp: n)
qed simp

lemma normal_take: "list_all normal es \<Longrightarrow> list_all normal (take k es)"
  by (auto simp: list_all_iff dest: in_set_takeD)

lemma mkdir_below:
  assumes x: "extracted dest es s" "IsAbs dest" "list_all normal ts"
    and free: "\<And>x us. x \<in> set es \<Longrightarrow> isReg x \<Longrightarrow> prefix us ts \<Longrightarrow> elemsOf x \<noteq> us"
  shows "\<exists>s'. osMkdirAll (absPath (cleanElems dest @ ts)) s = (Inr (), s') \<and> fsFaults s' = [] \<and>
    (\<forall>q. node s' q = (if node s q = None \<and> (\<exists>us. us \<noteq> [] \<and> prefix us ts \<and> q = absPath (cleanElems dest @ us)) then Some FDir else node s q))"
proof -
  let ?D = "cleanElems dest" and ?A = "set (ancestors (absPath (cleanElems dest @ ts)))"
  have D: "list_all normal ?D" using IsAbs_elems[OF x(2)] by simp
  have A: "?A = (\<lambda>k. absPath (take k (?D @ ts))) ` {1..length (?D @ ts)}" by (rule ancestors_abs) (use D x(3) in simp)
  have m: "q \<in> ?A \<Longrightarrow> (\<exists>k\<ge>1. k \<le> length ?D \<and> q = absPath (take k ?D)) \<or> (\<exists>us. us \<noteq> [] \<and> prefix us ts \<and> q = absPath (?D @ us))" for q
  proof -
    assume "q \<in> ?A"
    then obtain k where k: "q = absPath (take k (?D @ ts))" "1 \<le> k" "k \<le> length (?D @ ts)" using A by auto
    show ?thesis
    proof (cases "k \<le> length ?D")
      case False
      then have "take (k - length ?D) ts \<noteq> []" "prefix (take (k - length ?D) ts) ts" using k(3) by (auto simp: take_is_prefix)
      moreover have "q = absPath (?D @ take (k - length ?D) ts)" using False k(1) by (simp add: take_split)
      ultimately show ?thesis by blast
    qed (use k in \<open>auto simp: take_split\<close>)
  qed
  have m2: "us \<noteq> [] \<Longrightarrow> prefix us ts \<Longrightarrow> absPath (?D @ us) \<in> ?A" for us
  proof -
    assume u: "us \<noteq> []" "prefix us ts"
    then have "absPath (?D @ us) = absPath (take (length (?D @ us)) (?D @ ts))" by (auto simp: prefix_def)
    moreover have "length (?D @ us) \<in> {1..length (?D @ ts)}" using u by (auto simp: prefix_length_le Suc_le_eq)
    ultimately show ?thesis unfolding A by blast
  qed
  have dirs: "isDir s (absPath (take k ?D))" for k using x(1) by (simp add: extracted_def)
  have nn: "1 \<le> k \<Longrightarrow> k \<le> length ?D \<Longrightarrow> node s (absPath (take k ?D)) = Some FDir" for k
  proof -
    assume k: "1 \<le> k" "k \<le> length ?D"
    then have "joinSlash (take k ?D) \<noteq> []" using joinSlash_Nil[OF normal_take[OF D], of k] by auto
    with dirs[of k] show ?thesis by (auto simp: isDir_def absPath_def)
  qed
  have nofile: "\<forall>p\<in>?A. \<forall>d t. node s p \<noteq> Some (FFile d t)"
  proof (intro ballI allI notI)
    fix p d t assume p: "p \<in> ?A" "node s p = Some (FFile d t)"
    from m[OF p(1)] nn p(2) obtain us where u: "us \<noteq> []" "prefix us ts" "p = absPath (?D @ us)" by fastforce
    have "list_all normal us" using u(2) x(3) by (auto simp: prefix_def)
    with x(1) u p(2) obtain y where "y \<in> set es" "isReg y" "elemsOf y = us" unfolding extracted_def by blast
    with free u(2) show False by blast
  qed
  have c: "osCall s = (FOk, s)" using x(1) by (intro osCall_nofault) (simp add: extracted_def)
  from makeDirs_ok[OF nofile] obtain s' where s': "makeDirs (ancestors (absPath (?D @ ts))) s = (Inr (), s')"
    "fsFaults s' = fsFaults s" "\<forall>q. node s' q = (if q \<in> ?A \<and> node s q = None then Some FDir else node s q)" by blast
  have "q \<in> ?A \<and> node s q = None \<longleftrightarrow> node s q = None \<and> (\<exists>us. us \<noteq> [] \<and> prefix us ts \<and> q = absPath (?D @ us))" for q
    using m[of q] m2 nn by fastforce
  with s' c x(1) show ?thesis by (intro exI[of _ s']) (simp add: osMkdirAll_def extracted_def)
qed


lemma collisionFree_distinct:
  assumes "collisionFree (es @ y # fs)" "x \<in> set es" "isReg x" "isReg y"
  shows "elemsOf x \<noteq> elemsOf y"
proof -
  have "distinct (map elemsOf (filter isReg es) @ elemsOf y # map elemsOf (filter isReg fs))"
    using assms(1,4) by (simp add: collisionFree_def)
  then have "elemsOf y \<notin> set (map elemsOf (filter isReg es))" by (simp only: distinct_append) auto
  moreover have "x \<in> set (filter isReg es)" using assms(2,3) by simp
  ultimately show ?thesis using imageI[of x "set (filter isReg es)" "\<lambda>z. elemsOf z"] by (metis list.set_map)
qed

lemma collisionFree_prefix:
  assumes "collisionFree (es @ y # fs)" "x \<in> set es" "isReg x" "isReg y \<or> isDirEntry y"
  shows "\<not> prefix (elemsOf x) (elemsOf y)"
proof
  assume "prefix (elemsOf x) (elemsOf y)"
  moreover have "x \<in> set (es @ y # fs)" "y \<in> set (es @ y # fs)" using assms(2) by auto
  ultimately have "isReg y \<and> elemsOf y = elemsOf x" using assms unfolding collisionFree_def by blast
  with collisionFree_distinct[OF assms(1-3)] show False by simp
qed

lemma collisionFree_reg:
  assumes "collisionFree (es @ y # fs)" "isReg y"
  shows "elemsOf y \<noteq> [] \<and> (\<forall>x\<in>set es. (isReg x \<or> isDirEntry x) \<longrightarrow> \<not> prefix (elemsOf y) (elemsOf x))"
proof -
  have y: "y \<in> set (es @ y # fs)" by simp
  have c: "elemsOf y \<noteq> [] \<and> (\<forall>x\<in>set (es @ y # fs). (isReg x \<or> isDirEntry x) \<and> prefix (elemsOf y) (elemsOf x) \<longrightarrow>
      isReg x \<and> elemsOf x = elemsOf y)"
    using assms(1)[unfolded collisionFree_def] y assms(2) by blast
  show ?thesis
  proof (intro conjI ballI impI notI)
    fix x assume x: "x \<in> set es" "isReg x \<or> isDirEntry x" "prefix (elemsOf y) (elemsOf x)"
    then have "isReg x \<and> elemsOf x = elemsOf y" using c by auto
    with collisionFree_distinct[OF assms(1) x(1)] assms(2) show False by simp
  qed (use c in blast)
qed

lemma extracted_dir:
  assumes x: "extracted dest es s" "IsAbs dest" "collisionFree (es @ y # fs)" "isDirEntry y" "list_all normal (elemsOf y)"
  shows "\<exists>s'. osMkdirAll (absPath (cleanElems dest @ elemsOf y)) s = (Inr (), s') \<and> extracted dest (es @ [y]) s'"
proof -
  let ?D = "cleanElems dest" and ?E = "elemsOf y"
  have "\<exists>s'. osMkdirAll (absPath (?D @ ?E)) s = (Inr (), s') \<and> fsFaults s' = [] \<and>
    (\<forall>q. node s' q = (if node s q = None \<and> (\<exists>us. us \<noteq> [] \<and> prefix us ?E \<and> q = absPath (?D @ us)) then Some FDir else node s q))"
    by (rule mkdir_below[OF x(1,2,5)]) (use collisionFree_prefix[OF x(3)] x(4) in blast)
  then obtain s' where s': "osMkdirAll (absPath (?D @ ?E)) s = (Inr (), s')" "fsFaults s' = []"
    "\<forall>q. node s' q = (if node s q = None \<and> (\<exists>us. us \<noteq> [] \<and> prefix us ?E \<and> q = absPath (?D @ us)) then Some FDir else node s q)" by blast
  have D: "list_all normal ?D" using IsAbs_elems[OF x(2)] by simp
  have fl: "node s' q = Some (FFile d t) \<longleftrightarrow> node s q = Some (FFile d t)" for q d t using s'(3) by auto
  have dir: "node s' q = Some FDir \<Longrightarrow> node s q \<noteq> Some FDir \<Longrightarrow> \<exists>us. us \<noteq> [] \<and> prefix us ?E \<and> q = absPath (?D @ us)" for q
    using s'(3) by (metis option.inject)
  have "extracted dest (es @ [y]) s'" unfolding extracted_def
  proof (intro conjI allI ballI impI)
    fix k show "isDir s' (absPath (take k ?D))" using x(1) s'(3) by (auto simp: extracted_def isDir_def)
  next
    fix x assume "x \<in> set (es @ [y])" "isReg x"
    with x(1,4) show "\<exists>t. node s' (absPath (?D @ elemsOf x)) = Some (FFile (fst (snd x)) t)"
      unfolding fl by (auto simp: extracted_def)
  next
    fix ts d t assume "list_all normal ts" "ts \<noteq> []" "node s' (absPath (?D @ ts)) = Some (FFile d t)"
    with x(1) show "\<exists>x\<in>set (es @ [y]). isReg x \<and> elemsOf x = ts \<and> d = fst (snd x)"
      unfolding fl by (fastforce simp: extracted_def)
  next
    fix ts assume t: "list_all normal ts" "ts \<noteq> []" "node s' (absPath (?D @ ts)) = Some FDir"
    show "\<exists>y'\<in>set (es @ [y]). prefix ts (elemsOf y') \<and> (isDirEntry y' \<or> isReg y' \<and> ts \<noteq> elemsOf y')"
    proof (cases "node s (absPath (?D @ ts)) = Some FDir")
      case True
      with x(1) t show ?thesis by (fastforce simp: extracted_def)
    next
      case False
      from dir[OF t(3) False] obtain us where us: "prefix us ?E" "absPath (?D @ ts) = absPath (?D @ us)" by blast
      moreover from us(1) x(5) have "list_all normal us" by (auto simp: prefix_def)
      ultimately have "ts = us" using absPath_inj[of "?D @ ts" "?D @ us"] D t(1) by simp
      with us(1) x(4) show ?thesis by auto
    qed
  qed (rule s'(2))
  with s'(1) show ?thesis by blast
qed

lemma extracted_reg:
  assumes x: "extracted dest es s" "IsAbs dest" "collisionFree (es @ y # fs)" "isReg y" "list_all normal (elemsOf y)" "\<not> snd (snd y)"
  shows "\<exists>s1 s2 s3. osMkdirAll (Dir (absPath (cleanElems dest @ elemsOf y))) s = (Inr (), s1) \<and>
    osOpenRW (absPath (cleanElems dest @ elemsOf y)) s1 = (Inr (), s2) \<and>
    copyOver (absPath (cleanElems dest @ elemsOf y)) (snd y) s2 = (Inr (int (length (fst (snd y)))), s3) \<and>
    extracted dest (es @ [y]) s3"
proof -
  let ?D = "cleanElems dest" and ?E = "elemsOf y" and ?B = "butlast (elemsOf y)" and ?t = "absPath (cleanElems dest @ elemsOf y)"
  have D: "list_all normal ?D" using IsAbs_elems[OF x(2)] by simp
  have E: "?E \<noteq> []" using collisionFree_reg[OF x(3,4)] by blast
  have B: "list_all normal ?B" using x(5) by (auto simp: list_all_iff dest: in_set_butlastD)
  have BE: "prefix us ?B \<Longrightarrow> prefix us ?E" for us using E by (metis append_butlast_last_id prefix_append)
  have dir: "Dir ?t = absPath (?D @ ?B)" using Dir_absPath[of "?D @ ?E"] D x(5) E by (simp add: butlast_append)
  have "\<exists>s'. osMkdirAll (absPath (?D @ ?B)) s = (Inr (), s') \<and> fsFaults s' = [] \<and>
    (\<forall>q. node s' q = (if node s q = None \<and> (\<exists>us. us \<noteq> [] \<and> prefix us ?B \<and> q = absPath (?D @ us)) then Some FDir else node s q))"
    by (rule mkdir_below[OF x(1,2) B]) (use collisionFree_prefix[OF x(3)] x(4) BE in blast)
  then obtain s1 where s1: "osMkdirAll (absPath (?D @ ?B)) s = (Inr (), s1)" "fsFaults s1 = []"
    "\<forall>q. node s1 q = (if node s q = None \<and> (\<exists>us. us \<noteq> [] \<and> prefix us ?B \<and> q = absPath (?D @ us)) then Some FDir else node s q)" by blast
  have inj: "list_all normal us \<Longrightarrow> list_all normal ts \<Longrightarrow> absPath (?D @ us) = absPath (?D @ ts) \<longleftrightarrow> us = ts" for us ts
    using absPath_inj[of "?D @ us" "?D @ ts"] D by simp
  have pn: "prefix us ?E \<Longrightarrow> list_all normal us" for us using x(5) by (auto simp: prefix_def)
  have tn: "node s ?t = None"
  proof (rule ccontr)
    assume "node s ?t \<noteq> None"
    then consider d t where "node s ?t = Some (FFile d t)" | "node s ?t = Some FDir" by (metis fnode.exhaust option.exhaust)
    then show False
    proof cases
      case 1
      with x(1,5) E obtain z where "z \<in> set es" "isReg z" "elemsOf z = ?E" unfolding extracted_def by blast
      with collisionFree_reg[OF x(3,4)] show False by (metis prefix_order.order_refl)
    next
      case 2
      with x(1,5) E obtain z where "z \<in> set es" "prefix ?E (elemsOf z)" "isReg z \<or> isDirEntry z" unfolding extracted_def by blast
      with collisionFree_reg[OF x(3,4)] show False by blast
    qed
  qed
  have nb: "\<not> prefix ?E ?B" using E by (metis append_butlast_last_id not_Cons_self2 prefix_def prefix_order.antisym append_self_conv)
  have t1: "node s1 ?t = None" using s1(3) tn nb inj[OF _ x(5)] pn BE by (metis (no_types, lifting))
  have td: "\<not> isDir s1 ?t" using t1 E joinSlash_Nil[of "?D @ ?E"] D x(5) by (auto simp: isDir_def absPath_def)
  have pd: "isDir s1 (absPath (?D @ ?B))"
  proof (cases "?B = []")
    case True
    have "isDir s (absPath ?D)" using x(1)[unfolded extracted_def] by (metis order_refl take_all)
    with True s1(3) show ?thesis by (auto simp: isDir_def)
  next
    case False
    have "node s (absPath (?D @ ?B)) \<noteq> Some (FFile d t)" for d t
    proof
      assume "node s (absPath (?D @ ?B)) = Some (FFile d t)"
      with x(1) B False obtain z where "z \<in> set es" "isReg z" "elemsOf z = ?B" unfolding extracted_def by blast
      with collisionFree_prefix[OF x(3)] x(4) BE[of ?B] show False by (metis prefix_order.order_refl)
    qed
    with False s1(3) show ?thesis unfolding isDir_def by (metis fnode.exhaust option.exhaust prefix_order.order_refl)
  qed
  let ?s2 = "setNode ?t (FFile [] (fsNow s1)) s1"
  have o: "osOpenRW ?t s1 = (Inr (), ?s2)" using td pd t1 s1(2) by (simp add: osOpenRW_def osCall_nofault dir)
  let ?s3 = "writeOver ?t (fst (snd y)) ?s2"
  have c: "copyOver ?t (snd y) ?s2 = (Inr (int (length (fst (snd y)))), ?s3)"
    using s1(2) x(6) by (simp add: copyOver_def osCall_nofault)
  have n3: "node ?s3 q = (if q = ?t then Some (FFile (fst (snd y)) (fsNow s1)) else node s1 q)" for q
    by (simp add: writeOver_def content_def overwrite_def)
  have kd: "absPath (take k ?D) \<noteq> ?t" for k
    using absPath_inj[of "take k ?D" "?D @ ?E"] normal_take[OF D, of k] D x(5) E
    by (metis append_eq_append_conv_if length_append less_add_same_cancel1 length_greater_0_conv length_take list_all_append min.cobounded1 not_le)
  have f1: "node s1 q = Some (FFile d t) \<longleftrightarrow> node s q = Some (FFile d t)" for q d t using s1(3) by auto
  have "extracted dest (es @ [y]) ?s3" unfolding extracted_def
  proof (intro conjI allI ballI impI)
    show "fsFaults ?s3 = []" using s1(2) by (simp add: writeOver_def)
  next
    fix k show "isDir ?s3 (absPath (take k ?D))" using x(1) s1(3) kd[of k] unfolding isDir_def n3 by (auto simp: extracted_def isDir_def)
  next
    fix z assume z: "z \<in> set (es @ [y])" "isReg z"
    show "\<exists>t. node ?s3 (absPath (?D @ elemsOf z)) = Some (FFile (fst (snd z)) t)"
    proof (cases "z = y")
      case False
      with z x(1) obtain t where t: "node s (absPath (?D @ elemsOf z)) = Some (FFile (fst (snd z)) t)" by (auto simp: extracted_def)
      with tn have "absPath (?D @ elemsOf z) \<noteq> ?t" by auto
      with t show ?thesis unfolding n3 by (simp add: f1)
    qed (simp add: n3)
  next
    fix ts d t assume t: "list_all normal ts" "ts \<noteq> []" "node ?s3 (absPath (?D @ ts)) = Some (FFile d t)"
    show "\<exists>z\<in>set (es @ [y]). isReg z \<and> elemsOf z = ts \<and> d = fst (snd z)"
    proof (cases "ts = ?E")
      case True
      with t(3) x(4) show ?thesis by (simp add: n3)
    next
      case False
      with t inj[OF t(1) x(5)] have "node s (absPath (?D @ ts)) = Some (FFile d t)" by (simp add: n3 f1)
      with x(1) t(1,2) show ?thesis by (fastforce simp: extracted_def)
    qed
  next
    fix ts assume t: "list_all normal ts" "ts \<noteq> []" "node ?s3 (absPath (?D @ ts)) = Some FDir"
    then have q: "node s1 (absPath (?D @ ts)) = Some FDir" by (auto simp: n3 split: if_splits)
    show "\<exists>z\<in>set (es @ [y]). prefix ts (elemsOf z) \<and> (isDirEntry z \<or> isReg z \<and> ts \<noteq> elemsOf z)"
    proof (cases "node s (absPath (?D @ ts)) = Some FDir")
      case True
      with x(1) t(1,2) show ?thesis by (fastforce simp: extracted_def)
    next
      case False
      with q s1(3) obtain us where us: "prefix us ?B" "absPath (?D @ ts) = absPath (?D @ us)" by (metis option.inject)
      then have "ts = us" using inj[OF t(1) pn[OF BE]] by blast
      with us(1) BE nb x(4) show ?thesis by auto
    qed
  qed
  with s1(1) o c show ?thesis unfolding dir by blast
qed


lemma extract_all:
  assumes a: "IsAbs dest"
  shows "extracted dest es s \<Longrightarrow> streamEnds tr \<Longrightarrow> collisionFree (es @ streamEntries tr) \<Longrightarrow> list_all goodEntry (streamEntries tr) \<Longrightarrow>
    cnt + int (length (streamEntries tr)) \<le> maxExtractEntries \<Longrightarrow> tot + bodySizes (streamEntries tr) \<le> maxExtractBytes \<Longrightarrow>
    \<exists>s'. extractEntries dest tot cnt tr s = (Inr (), s') \<and> extracted dest (es @ streamEntries tr) s'"
proof (induction tr arbitrary: es tot cnt s)
  case (TarEntry h body rest)
  let ?y = "(h, body)"
  have g: "validatePath (hdrName h) = Inr ()" "\<not> snd body" using TarEntry.prems by (auto simp: goodEntry_def)
  then have n: "list_all normal (elemsOf ?y)" using validatePath_ok by simp
  have c: "\<not> cnt + 1 > maxExtractEntries" and b: "tot + int (length (fst body)) \<le> maxExtractBytes"
    using TarEntry.prems bodySizes_nonneg[of "streamEntries rest"] by auto
  have l: "limitReader (maxExtractBytes - tot + 1) body = body" using limitReader_whole[of body "maxExtractBytes - tot"] b g(2) by simp
  note e = extractEntries.simps(3)[of dest tot cnt h body rest s, unfolded Let_def valid_target[OF a g(1)] option.case if_not_P[OF c] l]
  have cf: "collisionFree (es @ ?y # streamEntries rest)" using TarEntry.prems by simp
  have ih: "extracted dest (es @ [?y]) s1 \<Longrightarrow> t \<le> tot + int (length (fst body)) \<Longrightarrow>
      \<exists>s'. extractEntries dest t (cnt + 1) rest s1 = (Inr (), s') \<and> extracted dest (es @ streamEntries (TarEntry h body rest)) s'" for s1 t
    using TarEntry.IH[of "es @ [?y]" s1 "cnt + 1" t] TarEntry.prems by simp
  consider "isDirEntry ?y" | "isReg ?y" | "\<not> isDirEntry ?y" "\<not> isReg ?y" by blast
  then show ?case
  proof cases
    case 1
    from extracted_dir[OF TarEntry.prems(1) a cf 1 n] obtain s1 where
      "osMkdirAll (absPath (cleanElems dest @ elemsOf ?y)) s = (Inr (), s1)" "extracted dest (es @ [?y]) s1" by blast
    with ih[of s1 tot] 1 show ?thesis by (simp add: e del: extractEntries.simps)
  next
    case 2
    from extracted_reg[OF TarEntry.prems(1) a cf 2 n] g(2) obtain s1 s2 s3 where
      "osMkdirAll (Dir (absPath (cleanElems dest @ elemsOf ?y))) s = (Inr (), s1)"
      "osOpenRW (absPath (cleanElems dest @ elemsOf ?y)) s1 = (Inr (), s2)"
      "copyOver (absPath (cleanElems dest @ elemsOf ?y)) (snd ?y) s2 = (Inr (int (length (fst (snd ?y)))), s3)"
      "extracted dest (es @ [?y]) s3" by auto
    with ih[of s3 "tot + int (length (fst body))"] 2 b show ?thesis by (simp add: e del: extractEntries.simps)
  next
    case 3
    have "extracted dest (es @ [?y]) s" using TarEntry.prems(1) 3 unfolding extracted_def by fastforce
    with ih[of s tot] 3 show ?thesis by (simp add: e del: extractEntries.simps)
  qed
qed auto

lemma extract_validated:
  assumes v: "ValidateArchive opn rd 104857600 = Inr ()" and o: "opn (limitReader 104857601 rd) = Inr tr"
    and d: "IsAbs dest" "fsFaults s = []" "\<forall>k. isDir s (absPath (take k (cleanElems dest)))"
      "\<forall>ts. ts \<noteq> [] \<longrightarrow> node s (absPath (cleanElems dest @ ts)) = None"
    and c: "collisionFree (streamEntries tr)"
  shows "\<exists>s'. ExtractTarGz opn rd dest s = (Inr (), s') \<and> extracted dest (streamEntries tr) s' \<and>
    list_all goodEntry (streamEntries tr)"
proof -
  from v o have tr: "streamEnds tr" "length (streamEntries tr) \<le> 100000"
    "list_all goodEntry (streamEntries tr)" "bodySizes (streamEntries tr) \<le> 104857600"
    using ValidateArchive_iff[of opn rd 104857600] by (auto simp: Let_def)
  have "extracted dest [] s" using d by (simp add: extracted_def)
  from extract_all[OF d(1) this tr(1), of 0 0] c tr obtain s' where
    "extractEntries dest 0 0 tr s = (Inr (), s')" "extracted dest (streamEntries tr) s'" by auto
  with tr(3) d(1) o show ?thesis by (simp add: ExtractTarGz_def)
qed

text \<open>
  Extraction reproduces the archive: a validated archive without colliding names, extracted into
  an empty absolute directory on a working file system, is extracted completely; afterwards every regular
  entry is a file with exactly its body below the directory, and there is no other file.
\<close>

theorem extraction_faithful:
  assumes v: "ValidateArchive opn rd 104857600 = Inr ()" and o: "opn (limitReader 104857601 rd) = Inr tr"
    and d: "IsAbs dest" "fsFaults s = []" "\<forall>k. isDir s (absPath (take k (cleanElems dest)))"
      "\<forall>ts. ts \<noteq> [] \<longrightarrow> node s (absPath (cleanElems dest @ ts)) = None"
    and c: "collisionFree (streamEntries tr)"
  shows "\<exists>s'. ExtractTarGz opn rd dest s = (Inr (), s') \<and>
    (\<forall>(h, body)\<in>set (streamEntries tr). hdrTypeflag h = TypeReg \<longrightarrow>
       (\<exists>t. node s' (Join (Clean dest) (hdrName h)) = Some (FFile (fst body) t))) \<and>
    (\<forall>ts d t. list_all normal ts \<and> ts \<noteq> [] \<and> node s' (absPath (cleanElems dest @ ts)) = Some (FFile d t) \<longrightarrow>
       (\<exists>h body. (h, body) \<in> set (streamEntries tr) \<and> hdrTypeflag h = TypeReg \<and> cleanElems (hdrName h) = ts \<and> d = fst body))"
proof -
  from extract_validated[OF assms] obtain s' where s': "ExtractTarGz opn rd dest s = (Inr (), s')" "extracted dest (streamEntries tr) s'"
    "list_all goodEntry (streamEntries tr)" by blast
  have j: "Join (Clean dest) (hdrName h) = absPath (cleanElems dest @ cleanElems (hdrName h))" if "(h, body) \<in> set (streamEntries tr)" for h body
  proof -
    have "validatePath (hdrName h) = Inr ()" using that s'(3) by (auto simp: list_all_iff goodEntry_def)
    from valid_target[OF d(1) this] show ?thesis by (auto simp: entryTarget_def Let_def split: option.splits if_splits)
  qed
  from s'(1,2) j show ?thesis unfolding extracted_def by (intro exI[of _ s']) fastforce
qed

definition exModule :: tar_stream where
  "exModule = TarEntry \<lparr>hdrName = ''mod/'', hdrTypeflag = TypeDir\<rparr> ([], False)
     (regEntry ''mod/main.tf'' ''m'' (regEntry ''mod/a/b.tf'' ''bb'' TarEOF))"

lemma exModule_valid: "ValidateArchive (\<lambda>_. Inr exModule) ([], False) 104857600 = Inr ()"
  by code_simp

theorem validated_archive_extracts_witness:
  "\<exists>e s'. ExtractTarGz (\<lambda>_. Inr exModule) ([], False) ''/t'' (exDisk\<lparr>fsFaults := [FOk, FFail]\<rparr>) = (Inl e, s') \<and> ioError e"
proof -
  let ?x = "ExtractTarGz (\<lambda>_. Inr exModule) ([], False) ''/t'' (exDisk\<lparr>fsFaults := [FOk, FFail]\<rparr>)"
  have "fst ?x = Inl MkdirParent" "IsAbs ''/t''" by code_simp+
  then have e: "?x = (Inl MkdirParent, snd ?x)" "IsAbs ''/t''" by (metis prod.collapse)+
  from validated_archive_extracts[OF exModule_valid e(2,1)] e(1) show ?thesis by metis
qed

lemma exDisk_empty: "isDir exDisk (absPath (take k [''t'']))" "ts \<noteq> [] \<Longrightarrow> node exDisk (absPath (''t'' # ts)) = None"
proof -
  have "take k [''t''] = [] \<or> take k [''t''] = [''t'']" by (cases k) auto
  then show "isDir exDisk (absPath (take k [''t'']))" by (auto simp: isDir_def exDisk_def node_def absPath_def)
  show "ts \<noteq> [] \<Longrightarrow> node exDisk (absPath (''t'' # ts)) = None"
    by (cases ts) (auto simp: exDisk_def node_def absPath_def)
qed

theorem extraction_faithful_witness:
  "\<exists>s' t. ExtractTarGz (\<lambda>_. Inr exModule) ([], False) ''/t'' exDisk = (Inr (), s') \<and>
     node s' ''/t/mod/a/b.tf'' = Some (FFile ''bb'' t)"
proof -
  have c: "cleanElems ''/t'' = [''t'']" "IsAbs ''/t''" "collisionFree (streamEntries exModule)"
    "Join (Clean ''/t'') ''mod/a/b.tf'' = ''/t/mod/a/b.tf''" by code_simp+
  have m: "(\<lparr>hdrName = ''mod/a/b.tf'', hdrTypeflag = TypeReg\<rparr>, (''bb'', False)) \<in> set (streamEntries exModule)"
    by (simp add: exModule_def regEntry_def)
  have "\<exists>s'. ExtractTarGz (\<lambda>_. Inr exModule) ([], False) ''/t'' exDisk = (Inr (), s') \<and>
    (\<forall>(h, body)\<in>set (streamEntries exModule). hdrTypeflag h = TypeReg \<longrightarrow>
       (\<exists>t. node s' (Join (Clean ''/t'') (hdrName h)) = Some (FFile (fst body) t)))"
    using extraction_faithful[OF exModule_valid refl c(2) _ _ _ c(3), of exDisk] exDisk_empty c(1)
    by (simp add: exDisk_def) blast
  then obtain s' where s': "ExtractTarGz (\<lambda>_. Inr exModule) ([], False) ''/t'' exDisk = (Inr (), s')"
    "\<forall>(h, body)\<in>set (streamEntries exModule). hdrTypeflag h = TypeReg \<longrightarrow>
       (\<exists>t. node s' (Join (Clean ''/t'') (hdrName h)) = Some (FFile (fst body) t))" by blast
  from bspec[OF s'(2) m] c(4) s'(1) show ?thesis by auto
qed

text \<open>
  A name that occurs twice is scanned as a mixture: files are opened without truncation, so when a
  validated archive holds a name again with a shorter body, the extracted file is the second body followed
  by the rest of the first, a content that no entry of the archive has.
\<close>

theorem duplicate_entries_mix:
  "\<exists>tr s'. ValidateArchive (\<lambda>_. Inr tr) ([], False) 104857600 = Inr () \<and>
     ExtractTarGz (\<lambda>_. Inr tr) ([], False) ''/t'' exDisk = (Inr (), s') \<and>
     map (\<lambda>x. fst (snd x)) (streamEntries tr) = [''deny_all = 1'', ''allow''] \<and>
     node s' ''/t/main.tf'' = Some (FFile ''allowall = 1'' 5)"
proof -
  let ?tr = "regEntry ''main.tf'' ''deny_all = 1'' (regEntry ''main.tf'' ''allow'' TarEOF)"
  let ?x = "ExtractTarGz (\<lambda>_. Inr ?tr) ([], False) ''/t'' exDisk"
  have "ValidateArchive (\<lambda>_. Inr ?tr) ([], False) 104857600 = Inr ()" "fst ?x = Inr ()"
    "map (\<lambda>x. fst (snd x)) (streamEntries ?tr) = [''deny_all = 1'', ''allow'']"
    "node (snd ?x) ''/t/main.tf'' = Some (FFile ''allowall = 1'' 5)" by code_simp+
  then show ?thesis by (metis prod.collapse)
qed

text \<open>
  The rule against git directories looks at the start of the whole path: an ordinary \<^verbatim>\<open>.gitignore\<close> at the
  top is refused, a git directory anywhere below is not.
\<close>

theorem git_rule_misses:
  "validatePath ''.gitignore'' = Inl GitDirectory \<and> validatePath ''modules/.git/hooks/pre-commit'' = Inr ()"
  by code_simp

end
