(* ===== verification/ScanQueue.thy ===== *)
theory ScanQueue
  imports Archive
begin

text \<open>
  The queue of module security scans: the table \<^verbatim>\<open>module_version_scans\<close>
  (\<^verbatim>\<open>internal/db/repositories/module_scan_repository.go\<close>) and the job that works it off
  (\<^verbatim>\<open>internal/jobs/module_scanner_job.go\<close>), down to the extraction of the archive on disk. The scanner tool,
  the archive decoder and the storage download are parameters.
\<close>

section \<open>The table\<close>

record ModuleScan =
  msID :: string
  msModuleVersionID :: string
  msScanner :: string
  msScannerVersion :: "string option"
  msExpectedVersion :: "string option"
  msStatus :: string
  msScannedAt :: "int option"
  msCriticalCount :: int
  msHighCount :: int
  msMediumCount :: int
  msLowCount :: int
  msRawResults :: "string option"
  msErrorMessage :: "string option"
  msExecutionLog :: "string option"
  msCreatedAt :: int
  msUpdatedAt :: int

record ScanResult =
  srScannerVersion :: string
  srCriticalCount :: int
  srHighCount :: int
  srMediumCount :: int
  srLowCount :: int
  srHasFindings :: bool
  srRawJSON :: string
  srExecutionLog :: string

text \<open>
  A database call succeeds, fails without effect, or takes effect although its reply is lost. The
  world has the tables, the clock, the schedules of faults and of the context's cancellation, the
  storage backend and the disk.
\<close>

datatype dbfault = DOk | DFail | DLost

record 's scanworld =
  swScans :: "ModuleScan list"
  swVersions :: "(string \<times> string) list"
  swNow :: int
  swFaults :: "dbfault list"
  swDone :: "bool list"
  swStore :: 's
  swDisk :: fs

definition swCall :: "'s scanworld \<Rightarrow> dbfault \<times> 's scanworld" where
  "swCall w = (case swFaults w of [] \<Rightarrow> (DOk, w) | f # fl \<Rightarrow> (f, w\<lparr>swFaults := fl\<rparr>))"

definition swQuery :: "('s scanworld \<Rightarrow> 'a) \<Rightarrow> 's scanworld \<Rightarrow> (string + 'a) \<times> 's scanworld" where
  "swQuery q w = (case swCall w of (f, w1) \<Rightarrow> (if f = DOk then Inr (q w1) else Inl ''db'', w1))"

definition swUpdate :: "(ModuleScan list \<Rightarrow> ModuleScan list \<times> 'a) \<Rightarrow> 's scanworld \<Rightarrow> (string + 'a) \<times> 's scanworld" where
  "swUpdate u w =
     (case swCall w of (f, w1) \<Rightarrow>
      if f = DFail then (Inl ''db'', w1)
      else (if f = DOk then Inr (snd (u (swScans w1))) else Inl ''db'', w1\<lparr>swScans := fst (u (swScans w1))\<rparr>))"

section \<open>module\_scan\_repository.go\<close>

definition newScan :: "string \<Rightarrow> string \<Rightarrow> int \<Rightarrow> ModuleScan" where
  "newScan i mv now =
     \<lparr>msID = i, msModuleVersionID = mv, msScanner = ''pending'', msScannerVersion = None, msExpectedVersion = None,
      msStatus = ''pending'', msScannedAt = None, msCriticalCount = 0, msHighCount = 0, msMediumCount = 0, msLowCount = 0,
      msRawResults = None, msErrorMessage = None, msExecutionLog = None, msCreatedAt = now, msUpdatedAt = now\<rparr>"

text \<open>The effects of the statements on the rows; \<open>i\<close> is the id the database generates.\<close>

definition createRow :: "string \<Rightarrow> string \<Rightarrow> int \<Rightarrow> ModuleScan list \<Rightarrow> ModuleScan list" where
  "createRow i mv now rows =
     (if list_ex (\<lambda>s. msModuleVersionID s = mv) rows then rows else rows @ [newScan i mv now])"

definition upsertRow :: "string \<Rightarrow> string \<Rightarrow> int \<Rightarrow> ModuleScan list \<Rightarrow> ModuleScan list" where
  "upsertRow i mv now rows =
     (if list_ex (\<lambda>s. msModuleVersionID s = mv) rows
      then map (\<lambda>s. if msModuleVersionID s = mv \<and> msStatus s \<noteq> ''pending'' \<and> msStatus s \<noteq> ''scanning''
                    then s\<lparr>msStatus := ''pending'', msErrorMessage := None, msUpdatedAt := now\<rparr> else s) rows
      else rows @ [newScan i mv now])"

text \<open>Pending rows by creation time; \<open>tie\<close> is the order the database picks among equals.\<close>

definition pendingRows :: "(ModuleScan \<Rightarrow> int) \<Rightarrow> ModuleScan list \<Rightarrow> ModuleScan list" where
  "pendingRows tie rows = sort_key msCreatedAt (sort_key tie (filter (\<lambda>s. msStatus s = ''pending'') rows))"

text \<open>\<open>locked\<close> are the rows other transactions hold, which the subselect skips.\<close>

definition claimIDs :: "(ModuleScan \<Rightarrow> int) \<Rightarrow> (string \<Rightarrow> bool) \<Rightarrow> int \<Rightarrow> ModuleScan list \<Rightarrow> string list" where
  "claimIDs tie locked limit rows =
     map msID (take (nat limit) (filter (\<lambda>s. \<not> locked (msID s)) (pendingRows tie rows)))"

definition setScanning :: "int \<Rightarrow> ModuleScan \<Rightarrow> ModuleScan" where
  "setScanning now s = s\<lparr>msStatus := ''scanning'', msUpdatedAt := now\<rparr>"

definition claimRows ::
  "(ModuleScan \<Rightarrow> int) \<Rightarrow> (string \<Rightarrow> bool) \<Rightarrow> int \<Rightarrow> int \<Rightarrow> ModuleScan list \<Rightarrow> ModuleScan list \<times> ModuleScan list" where
  "claimRows tie locked limit now rows =
     (let ids = claimIDs tie locked limit rows in
      (map (\<lambda>s. if List.member ids (msID s) then setScanning now s else s) rows,
       map (setScanning now) (filter (\<lambda>s. List.member ids (msID s)) rows)))"

definition resetRows :: "int \<Rightarrow> int \<Rightarrow> ModuleScan list \<Rightarrow> ModuleScan list" where
  "resetRows olderThan now rows =
     map (\<lambda>s. if msStatus s = ''scanning'' \<and> msUpdatedAt s < now - olderThan
              then s\<lparr>msStatus := ''pending'', msUpdatedAt := now\<rparr> else s) rows"

definition updateRow :: "string \<Rightarrow> (ModuleScan \<Rightarrow> ModuleScan) \<Rightarrow> ModuleScan list \<Rightarrow> ModuleScan list" where
  "updateRow i f rows = map (\<lambda>s. if msID s = i then f s else s) rows"

definition CreatePendingScan :: "string \<Rightarrow> string \<Rightarrow> 's scanworld \<Rightarrow> (string + unit) \<times> 's scanworld" where
  "CreatePendingScan i mv w = swUpdate (\<lambda>rows. (createRow i mv (swNow w) rows, ())) w"

definition UpsertPendingScan :: "string \<Rightarrow> string \<Rightarrow> 's scanworld \<Rightarrow> (string + unit) \<times> 's scanworld" where
  "UpsertPendingScan i mv w = swUpdate (\<lambda>rows. (upsertRow i mv (swNow w) rows, ())) w"

definition ListPendingScans :: "(ModuleScan \<Rightarrow> int) \<Rightarrow> int \<Rightarrow> 's scanworld \<Rightarrow> (string + ModuleScan list) \<times> 's scanworld" where
  "ListPendingScans tie limit = swQuery (\<lambda>w. take (nat limit) (pendingRows tie (swScans w)))"

definition ClaimPendingScans ::
  "(ModuleScan \<Rightarrow> int) \<Rightarrow> (string \<Rightarrow> bool) \<Rightarrow> int \<Rightarrow> 's scanworld \<Rightarrow> (string + ModuleScan list) \<times> 's scanworld" where
  "ClaimPendingScans tie locked limit w = swUpdate (claimRows tie locked limit (swNow w)) w"

definition MarkScanning :: "string \<Rightarrow> 's scanworld \<Rightarrow> (string + unit) \<times> 's scanworld" where
  "MarkScanning i w =
     (case swUpdate (\<lambda>rows.
        (map (\<lambda>s. if msID s = i \<and> msStatus s = ''pending'' then setScanning (swNow w) s else s) rows,
         length (filter (\<lambda>s. msID s = i \<and> msStatus s = ''pending'') rows))) w of
        (Inl e, w1) \<Rightarrow> (Inl (''mark scanning: '' @ e), w1)
      | (Inr n, w1) \<Rightarrow> if n = 0 then (Inl ''scan already claimed by another worker'', w1) else (Inr (), w1))"

definition completeScan :: "string \<Rightarrow> ScanResult \<Rightarrow> string \<Rightarrow> int \<Rightarrow> ModuleScan \<Rightarrow> ModuleScan" where
  "completeScan name r expected now s =
     s\<lparr>msScanner := name, msStatus := (if srHasFindings r then ''findings'' else ''clean''), msScannedAt := Some now,
       msScannerVersion := Some (srScannerVersion r), msExpectedVersion := (if expected \<noteq> [] then Some expected else None),
       msCriticalCount := srCriticalCount r, msHighCount := srHighCount r, msMediumCount := srMediumCount r,
       msLowCount := srLowCount r, msRawResults := Some (if srRawJSON r = [] then ''{}'' else srRawJSON r),
       msExecutionLog := (if srExecutionLog r \<noteq> [] then Some (srExecutionLog r) else None), msUpdatedAt := now\<rparr>"

definition MarkComplete :: "string \<Rightarrow> string \<Rightarrow> ScanResult \<Rightarrow> string \<Rightarrow> 's scanworld \<Rightarrow> (string + unit) \<times> 's scanworld" where
  "MarkComplete i name r expected w =
     swUpdate (\<lambda>rows. (updateRow i (completeScan name r expected (swNow w)) rows, ())) w"

definition failScan :: "string \<Rightarrow> int \<Rightarrow> ModuleScan \<Rightarrow> ModuleScan" where
  "failScan msg now s = s\<lparr>msStatus := ''error'', msErrorMessage := Some msg, msUpdatedAt := now\<rparr>"

definition MarkError :: "string \<Rightarrow> string \<Rightarrow> 's scanworld \<Rightarrow> (string + unit) \<times> 's scanworld" where
  "MarkError i msg w = swUpdate (\<lambda>rows. (updateRow i (failScan msg (swNow w)) rows, ())) w"

definition GetLatestScan :: "(ModuleScan \<Rightarrow> int) \<Rightarrow> string \<Rightarrow> 's scanworld \<Rightarrow> (string + ModuleScan option) \<times> 's scanworld" where
  "GetLatestScan tie mv =
     swQuery (\<lambda>w. case rev (sort_key msCreatedAt (sort_key tie (filter (\<lambda>s. msModuleVersionID s = mv) (swScans w)))) of
                    [] \<Rightarrow> None | s # _ \<Rightarrow> Some s)"

definition GetScanByID :: "string \<Rightarrow> 's scanworld \<Rightarrow> (string + ModuleScan option) \<times> 's scanworld" where
  "GetScanByID i = swQuery (\<lambda>w. find (\<lambda>s. msID s = i) (swScans w))"

definition ResetStaleScanningRecords :: "int \<Rightarrow> 's scanworld \<Rightarrow> (string + unit) \<times> 's scanworld" where
  "ResetStaleScanningRecords olderThan w = swUpdate (\<lambda>rows. (resetRows olderThan (swNow w) rows, ())) w"

text \<open>Of \<^verbatim>\<open>module_repository.go\<close>, the lookup of a version, as far as the job reads it: its storage path.\<close>

definition GetVersionByID :: "string \<Rightarrow> 's scanworld \<Rightarrow> (string + string option) \<times> 's scanworld" where
  "GetVersionByID i = swQuery (\<lambda>w. map_of (swVersions w) i)"

section \<open>module\_scanner\_job.go\<close>

record ScanningConfig =
  cfgEnabled :: bool
  cfgEmbeddedWorker :: bool
  cfgBinaryPath :: string
  cfgExpectedVersion :: string
  cfgScanIntervalMins :: int
  cfgWorkerCount :: int

record 's scanenv =
  seDownload :: "string \<Rightarrow> 's \<Rightarrow> (string + reader) \<times> 's"
  seOpen :: tar_open
  seTmp :: "fs \<Rightarrow> string"
  seScan :: "fs \<Rightarrow> string \<Rightarrow> string + ScanResult"
  seName :: string
  seErrText :: "extract_error \<Rightarrow> string"
  seOsErrText :: "oserr \<Rightarrow> string"

text \<open>\<^verbatim>\<open>os.MkdirTemp\<close> makes a directory of a fresh name; \<^verbatim>\<open>os.RemoveAll\<close> removes it with all below it.\<close>

definition osMkdirTemp :: "string \<Rightarrow> fs \<Rightarrow> (oserr + unit) \<times> fs" where
  "osMkdirTemp p s =
     (case osCall s of (f, s1) \<Rightarrow> if f \<noteq> FOk then (Inl OsError, s1) else (Inr (), setNode p FDir s1))"

definition osRemoveAll :: "string \<Rightarrow> fs \<Rightarrow> fs" where
  "osRemoveAll p s =
     (case osCall s of (f, s1) \<Rightarrow>
      if f \<noteq> FOk then s1
      else s1\<lparr>fsNodes := filter (\<lambda>x. fst x \<noteq> p \<and> \<not> hasPrefix (fst x) (p @ ''/'')) (fsNodes s1)\<rparr>)"

text \<open>The part of a scan between the creation and the removal of the temporary directory.\<close>

definition scanIn ::
  "'s scanenv \<Rightarrow> ScanningConfig \<Rightarrow> string \<Rightarrow> string \<Rightarrow> string \<Rightarrow> string \<Rightarrow> 's scanworld \<Rightarrow> 's scanworld" where
  "scanIn E cfg scanID path actualVersion tmpDir w =
     (case seDownload E path (swStore w) of
        (Inl e, st) \<Rightarrow> snd (MarkError scanID (''download: '' @ e) (w\<lparr>swStore := st\<rparr>))
      | (Inr rd, st) \<Rightarrow>
          (case ExtractTarGz (seOpen E) rd tmpDir (swDisk w) of
             (Inl e, d) \<Rightarrow> snd (MarkError scanID (''extract: '' @ seErrText E e) (w\<lparr>swStore := st, swDisk := d\<rparr>))
           | (Inr _, d) \<Rightarrow>
               let w1 = w\<lparr>swStore := st, swDisk := d\<rparr> in
               (case seScan E d tmpDir of
                  Inl e \<Rightarrow> snd (MarkError scanID e w1)
                | Inr r \<Rightarrow>
                    snd (MarkComplete scanID (seName E) (r\<lparr>srScannerVersion := actualVersion\<rparr>) (cfgExpectedVersion cfg) w1))))"

definition scanOne ::
  "'s scanenv \<Rightarrow> ScanningConfig \<Rightarrow> string \<Rightarrow> string \<Rightarrow> string \<Rightarrow> 's scanworld \<Rightarrow> 's scanworld" where
  "scanOne E cfg scanID moduleVersionID actualVersion w =
     (case GetVersionByID moduleVersionID w of
        (Inl e, w1) \<Rightarrow> snd (MarkError scanID ''module version not found'' w1)
      | (Inr None, w1) \<Rightarrow> snd (MarkError scanID ''module version not found'' w1)
      | (Inr (Some path), w1) \<Rightarrow>
          let tmpDir = seTmp E (swDisk w1) in
          (case osMkdirTemp tmpDir (swDisk w1) of
             (Inl e, d) \<Rightarrow> snd (MarkError scanID (''mkdirtemp: '' @ seOsErrText E e) (w1\<lparr>swDisk := d\<rparr>))
           | (Inr _, d) \<Rightarrow>
               let w2 = scanIn E cfg scanID path actualVersion tmpDir (w1\<lparr>swDisk := d\<rparr>) in
               w2\<lparr>swDisk := osRemoveAll tmpDir (swDisk w2)\<rparr>))"

text \<open>A batch; the workers of the pool are taken one after the other, each scan touching only its own row.\<close>

definition scanBatch :: "'s scanenv \<Rightarrow> ScanningConfig \<Rightarrow> string \<Rightarrow> ModuleScan list \<Rightarrow> 's scanworld \<Rightarrow> 's scanworld" where
  "scanBatch E cfg version claimed w =
     fold (\<lambda>s. scanOne E cfg (msID s) (msModuleVersionID s) version) claimed w"

definition batchLimit :: "ScanningConfig \<Rightarrow> int" where
  "batchLimit cfg = (if cfgWorkerCount cfg \<le> 0 then 2 else cfgWorkerCount cfg) * 2"

definition ctxErr :: "'s scanworld \<Rightarrow> bool \<times> 's scanworld" where
  "ctxErr w = (case swDone w of [] \<Rightarrow> (False, w) | b # bs \<Rightarrow> (b, w\<lparr>swDone := bs\<rparr>))"

subsection \<open>The cycle ends\<close>

definition pendingCount :: "ModuleScan list \<Rightarrow> nat" where
  "pendingCount rows = length (filter (\<lambda>s. msStatus s = ''pending'') rows)"

lemma pendingCount_map_le:
  "(\<And>s. s \<in> set rows \<Longrightarrow> msStatus (f s) = ''pending'' \<Longrightarrow> msStatus s = ''pending'') \<Longrightarrow>
   pendingCount (map f rows) \<le> pendingCount rows"
  unfolding pendingCount_def by (induction rows) auto

lemma pendingCount_map_less:
  "(\<And>s. s \<in> set rows \<Longrightarrow> msStatus (f s) = ''pending'' \<Longrightarrow> msStatus s = ''pending'') \<Longrightarrow>
   s \<in> set rows \<Longrightarrow> msStatus s = ''pending'' \<Longrightarrow> msStatus (f s) \<noteq> ''pending'' \<Longrightarrow>
   pendingCount (map f rows) < pendingCount rows"
proof (induction rows)
  case (Cons r rows)
  have le: "pendingCount (map f rows) \<le> pendingCount rows" by (rule pendingCount_map_le) (use Cons.prems(1) in auto)
  show ?case
  proof (cases "s = r")
    case True
    with le Cons.prems show ?thesis by (simp add: pendingCount_def)
  next
    case False
    with Cons have "pendingCount (map f rows) < pendingCount rows" by auto
    with Cons.prems(1)[of r] show ?thesis by (auto simp: pendingCount_def)
  qed
qed simp

lemma set_pendingRows: "set (pendingRows tie rows) = {s \<in> set rows. msStatus s = ''pending''}"
  by (simp add: pendingRows_def)

lemma claimIDs_pending:
  "i \<in> set (claimIDs tie locked limit rows) \<Longrightarrow> \<exists>s\<in>set rows. msID s = i \<and> msStatus s = ''pending'' \<and> \<not> locked i"
  using set_pendingRows[of tie rows] by (auto simp: claimIDs_def dest!: in_set_takeD)

lemma claimRows_fst:
  "fst (claimRows tie locked limit now rows) =
     map (\<lambda>s. if msID s \<in> set (claimIDs tie locked limit rows) then setScanning now s else s) rows"
  by (simp add: claimRows_def Let_def)

lemma claimRows_snd:
  "snd (claimRows tie locked limit now rows) =
     map (setScanning now) (filter (\<lambda>s. msID s \<in> set (claimIDs tie locked limit rows)) rows)"
  by (simp add: claimRows_def Let_def)

lemma setScanning_simps [simp]: "msID (setScanning now s) = msID s" "msStatus (setScanning now s) = ''scanning''"
  "msUpdatedAt (setScanning now s) = now" "msModuleVersionID (setScanning now s) = msModuleVersionID s"
  "msCreatedAt (setScanning now s) = msCreatedAt s"
  by (simp_all add: setScanning_def)

lemma claimRows_decrease:
  assumes "snd (claimRows tie locked limit now rows) \<noteq> []"
  shows "pendingCount (fst (claimRows tie locked limit now rows)) < pendingCount rows"
proof -
  from assms obtain i where "i \<in> set (claimIDs tie locked limit rows)" unfolding claimRows_snd by (auto simp: filter_empty_conv)
  with claimIDs_pending obtain s where "s \<in> set rows" "msStatus s = ''pending''" "msID s = i" by metis
  with \<open>i \<in> _\<close> show ?thesis unfolding claimRows_fst by (intro pendingCount_map_less) (auto split: if_splits)
qed

text \<open>What a database update leaves: the rows as they were, or updated.\<close>

lemma swUpdate_cases:
  assumes "swUpdate u w = (r, w')"
  shows "swScans w' = swScans w \<and> (\<exists>e. r = Inl e) \<or>
    swScans w' = fst (u (swScans w)) \<and> (r = Inr (snd (u (swScans w))) \<or> (\<exists>e. r = Inl e))"
  using assms by (auto simp: swUpdate_def swCall_def split: list.splits if_splits)

lemma swUpdate_frame:
  "swUpdate u w = (r, w') \<Longrightarrow> swDisk w' = swDisk w \<and> swStore w' = swStore w \<and> swNow w' = swNow w \<and> swDone w' = swDone w \<and>
   swVersions w' = swVersions w \<and> (swFaults w = [] \<longrightarrow> swFaults w' = [])"
  by (auto simp: swUpdate_def swCall_def split: list.splits if_splits)

lemma swUpdate_nofault:
  "swFaults w = [] \<Longrightarrow> swUpdate u w = (Inr (snd (u (swScans w))), w\<lparr>swScans := fst (u (swScans w))\<rparr>)"
  by (simp add: swUpdate_def swCall_def)

lemma swQuery_frame: "swQuery q w = (r, w') \<Longrightarrow> \<exists>fl. w' = w\<lparr>swFaults := fl\<rparr> \<and> (swFaults w = [] \<longrightarrow> fl = [])"
  by (cases "swFaults w") (auto simp: swQuery_def swCall_def intro: exI[of _ "[]"] split: if_splits)

text \<open>A scan leaves its row as it was, failed or completed, and the other rows alone.\<close>

definition marked :: "string \<Rightarrow> ModuleScan list \<Rightarrow> ModuleScan list \<Rightarrow> bool" where
  "marked i rows rows' \<longleftrightarrow>
     rows' = rows \<or> (\<exists>m now. rows' = updateRow i (failScan m now) rows) \<or>
     (\<exists>n r e now. rows' = updateRow i (completeScan n r e now) rows)"

lemma MarkError_marked: "marked i (swScans w) (swScans (snd (MarkError i m w)))"
proof -
  obtain r w' where u: "swUpdate (\<lambda>rows. (updateRow i (failScan m (swNow w)) rows, ())) w = (r, w')" by fastforce
  from swUpdate_cases[OF u] u show ?thesis by (auto simp: marked_def MarkError_def)
qed

lemma MarkComplete_marked: "marked i (swScans w) (swScans (snd (MarkComplete i n res e w)))"
proof -
  obtain r w' where u: "swUpdate (\<lambda>rows. (updateRow i (completeScan n res e (swNow w)) rows, ())) w = (r, w')" by fastforce
  from swUpdate_cases[OF u] have "swScans w' = swScans w \<or> swScans w' = updateRow i (completeScan n res e (swNow w)) (swScans w)" by auto
  with u show ?thesis unfolding marked_def MarkComplete_def by (metis snd_conv)
qed

lemma scanIn_marked: "marked i (swScans w) (swScans (scanIn E cfg i path v tmp w))"
  using MarkError_marked[of i "w\<lparr>swStore := a\<rparr>" for a] MarkError_marked[of i "w\<lparr>swStore := a, swDisk := b\<rparr>" for a b]
    MarkComplete_marked[of i "w\<lparr>swStore := a, swDisk := b\<rparr>" for a b]
  by (auto simp: scanIn_def Let_def split: sum.splits prod.splits)

lemma scanOne_marked: "marked i (swScans w) (swScans (scanOne E cfg i mv v w))"
proof -
  obtain r w1 where g: "GetVersionByID mv w = (r, w1)" by fastforce
  with swQuery_frame have s: "swScans w1 = swScans w" unfolding GetVersionByID_def by fastforce
  have e: "marked i (swScans w) (swScans (snd (MarkError i m w1)))" for m using MarkError_marked[of i w1] s by simp
  have d: "marked i (swScans w) (swScans (snd (MarkError i m (w1\<lparr>swDisk := b\<rparr>))))" for m b
    using MarkError_marked[of i "w1\<lparr>swDisk := b\<rparr>"] s by simp
  have c: "marked i (swScans w) (swScans (scanIn E cfg i path v tmp (w1\<lparr>swDisk := b\<rparr>)))" for path tmp b
    using scanIn_marked[of i "w1\<lparr>swDisk := b\<rparr>"] s by simp
  show ?thesis using e d c by (auto simp: scanOne_def g Let_def split: sum.splits prod.splits option.splits)
qed

lemma marked_pending: "marked i rows rows' \<Longrightarrow> pendingCount rows' \<le> pendingCount rows"
  unfolding marked_def updateRow_def
  by (elim disjE exE) (auto intro!: pendingCount_map_le simp: failScan_def completeScan_def split: if_splits)

lemma scanBatch_pending: "pendingCount (swScans (scanBatch E cfg v claimed w)) \<le> pendingCount (swScans w)"
  unfolding scanBatch_def by (induction claimed arbitrary: w) (auto intro: order_trans[OF _ marked_pending[OF scanOne_marked]])

lemma ctxErr_scans: "ctxErr w = (d, w') \<Longrightarrow> swScans w' = swScans w"
  by (auto simp: ctxErr_def split: list.splits)

lemma claim_decreases:
  assumes "ctxErr w = (d, w1)" "ClaimPendingScans tie locked limit w1 = (Inr claimed, w2)" "claimed \<noteq> []"
  shows "pendingCount (swScans (scanBatch E cfg version claimed w2)) < pendingCount (swScans w)"
proof -
  have c: "swUpdate (claimRows tie locked limit (swNow w1)) w1 = (Inr claimed, w2)" "swScans w1 = swScans w"
    using assms by (simp_all add: ClaimPendingScans_def ctxErr_scans)
  from swUpdate_cases[OF c(1)] have "claimed = snd (claimRows tie locked limit (swNow w1) (swScans w))"
    "swScans w2 = fst (claimRows tie locked limit (swNow w1) (swScans w))" using c(2) by auto
  with claimRows_decrease assms(3) have "pendingCount (swScans w2) < pendingCount (swScans w)" by metis
  with scanBatch_pending show ?thesis by (rule le_less_trans)
qed

function runScanCycle ::
  "'s scanenv \<Rightarrow> ScanningConfig \<Rightarrow> (ModuleScan \<Rightarrow> int) \<Rightarrow> (string \<Rightarrow> bool) \<Rightarrow> string \<Rightarrow> 's scanworld \<Rightarrow> 's scanworld" where
  "runScanCycle E cfg tie locked version w =
     (case ctxErr w of (d, w1) \<Rightarrow>
      if d then w1
      else (case ClaimPendingScans tie locked (batchLimit cfg) w1 of
              (Inl e, w2) \<Rightarrow> w2
            | (Inr claimed, w2) \<Rightarrow>
                if claimed = [] then w2
                else runScanCycle E cfg tie locked version (scanBatch E cfg version claimed w2)))"
  by pat_completeness auto
termination
  by (relation "measure (\<lambda>(E, cfg, tie, locked, version, w). pendingCount (swScans w))")
    (auto intro: claim_decreases[OF sym sym])

declare runScanCycle.simps [simp del]

text \<open>
  \<^verbatim>\<open>Start\<close> up to its first cycle. \<open>newScanner\<close> tells whether the scanner could be constructed and \<open>binVersion\<close> is the
  version its binary reports. A negative interval makes \<^verbatim>\<open>time.NewTicker\<close> panic.
\<close>

datatype start_outcome =
    ScanDisabled | ScanElsewhere | NoBinaryPath | AlreadyRunning | NewFailed | VersionUnknown | VersionMismatch
  | TickerPanic | Running

definition staleAfter :: int where "staleAfter = 30 * 60 * 10 ^ 9"

definition scanInterval :: "ScanningConfig \<Rightarrow> int" where
  "scanInterval cfg =
     (let interval = (cfgScanIntervalMins cfg * (60 * 10 ^ 9) + 2 ^ 63) mod 2 ^ 64 - 2 ^ 63 in
      if interval = 0 then 5 * 60 * 10 ^ 9 else interval)"

definition StartJob ::
  "ScanningConfig \<Rightarrow> (ModuleScan \<Rightarrow> int) \<Rightarrow> (string \<Rightarrow> bool) \<Rightarrow> bool \<Rightarrow> 's scanenv option \<Rightarrow> string option \<Rightarrow> 's scanworld \<Rightarrow>
   start_outcome \<times> bool \<times> 's scanworld" where
  "StartJob cfg tie locked started newScanner binVersion w =
     (if \<not> cfgEnabled cfg then (ScanDisabled, started, w)
      else if \<not> cfgEmbeddedWorker cfg then (ScanElsewhere, started, w)
      else if cfgBinaryPath cfg = [] then (NoBinaryPath, started, w)
      else if started then (AlreadyRunning, started, w)
      else (case newScanner of
              None \<Rightarrow> (NewFailed, False, w)
            | Some E \<Rightarrow>
                (case binVersion of
                   None \<Rightarrow> (VersionUnknown, False, w)
                 | Some actualVersion \<Rightarrow>
                     if cfgExpectedVersion cfg \<noteq> [] \<and> actualVersion \<noteq> cfgExpectedVersion cfg
                     then (VersionMismatch, False, w)
                     else
                       let w1 = snd (ResetStaleScanningRecords staleAfter w) in
                       if scanInterval cfg < 0 then (TickerPanic, True, w1)
                       else (Running, True, runScanCycle E cfg tie locked actualVersion w1))))"

section \<open>The queue is worked off\<close>

definition scanned :: "ModuleScan \<Rightarrow> bool" where
  "scanned s \<longleftrightarrow> msStatus s = ''clean'' \<or> msStatus s = ''findings'' \<or> msStatus s = ''error''"

text \<open>With a working database every scan ends in one of the three final states, keeping the identity of its row.\<close>

definition finished :: "string \<Rightarrow> ModuleScan list \<Rightarrow> ModuleScan list \<Rightarrow> bool" where
  "finished i rows rows' \<longleftrightarrow>
     (\<exists>f. rows' = updateRow i f rows \<and> (\<forall>s. scanned (f s) \<and> msID (f s) = msID s \<and> msModuleVersionID (f s) = msModuleVersionID s))"

lemma MarkError_finished:
  assumes "swFaults w = []"
  shows "finished i (swScans w) (swScans (snd (MarkError i m w))) \<and> swFaults (snd (MarkError i m w)) = []"
  using assms swUpdate_nofault[OF assms, of "\<lambda>rows. (updateRow i (failScan m (swNow w)) rows, ())"]
  by (auto simp: finished_def MarkError_def failScan_def scanned_def)

lemma MarkComplete_finished:
  assumes "swFaults w = []"
  shows "finished i (swScans w) (swScans (snd (MarkComplete i n r e w))) \<and> swFaults (snd (MarkComplete i n r e w)) = []"
  using assms swUpdate_nofault[OF assms, of "\<lambda>rows. (updateRow i (completeScan n r e (swNow w)) rows, ())"]
  by (auto simp: finished_def MarkComplete_def scanned_def completeScan_def split: if_splits intro!: exI[of _ "completeScan n r e (swNow w)"])

lemma scanIn_finished:
  assumes "swFaults w = []"
  shows "finished i (swScans w) (swScans (scanIn E cfg i path v tmp w)) \<and> swFaults (scanIn E cfg i path v tmp w) = []"
  using MarkError_finished[of "w\<lparr>swStore := a\<rparr>" i for a] MarkError_finished[of "w\<lparr>swStore := a, swDisk := b\<rparr>" i for a b]
    MarkComplete_finished[of "w\<lparr>swStore := a, swDisk := b\<rparr>" i for a b] assms
  by (auto simp: scanIn_def Let_def split: sum.splits prod.splits)

lemma Mark_done: "swDone (snd (MarkError i m w)) = swDone w" "swDone (snd (MarkComplete i n r e w)) = swDone w"
  using swUpdate_frame[of _ w] unfolding MarkError_def MarkComplete_def by (metis prod.collapse)+

lemma scanIn_done: "swDone (scanIn E cfg i path v tmp w) = swDone w"
  by (auto simp: scanIn_def Let_def Mark_done split: sum.splits prod.splits)

lemma scanOne_finished:
  assumes "swFaults w = []"
  shows "finished i (swScans w) (swScans (scanOne E cfg i mv v w)) \<and> swFaults (scanOne E cfg i mv v w) = [] \<and>
    swDone (scanOne E cfg i mv v w) = swDone w"
proof -
  obtain r w1 where g: "GetVersionByID mv w = (r, w1)" by fastforce
  with swQuery_frame assms have s: "swScans w1 = swScans w" "swFaults w1 = []" "swDone w1 = swDone w" unfolding GetVersionByID_def by fastforce+
  show ?thesis
    using MarkError_finished[of w1 i] MarkError_finished[of "w1\<lparr>swDisk := b\<rparr>" i for b] scanIn_finished[of "w1\<lparr>swDisk := b\<rparr>" i for b] s
    by (auto simp: scanOne_def g Let_def Mark_done scanIn_done split: sum.splits prod.splits option.splits)
qed

text \<open>A batch finishes exactly the rows it was given.\<close>

definition settled :: "string set \<Rightarrow> ModuleScan \<Rightarrow> ModuleScan \<Rightarrow> bool" where
  "settled S s s' =
     (if msID s \<in> S then scanned s' \<and> msID s' = msID s \<and> msModuleVersionID s' = msModuleVersionID s else s' = s)"

lemma settled_trans: "settled S s a \<Longrightarrow> settled T a b \<Longrightarrow> settled (S \<union> T) s b"
  by (auto simp: settled_def split: if_splits)

lemma finished_rel: "finished i rows rows' \<Longrightarrow> list_all2 (settled {i}) rows rows'"
  by (auto simp: finished_def updateRow_def list_all2_conv_all_nth settled_def)

lemma scanBatch_finished:
  assumes "swFaults w = []"
  shows "list_all2 (settled (msID ` set claimed)) (swScans w) (swScans (scanBatch E cfg v claimed w)) \<and>
    swFaults (scanBatch E cfg v claimed w) = [] \<and> swDone (scanBatch E cfg v claimed w) = swDone w"
  using assms
proof (induction claimed arbitrary: w)
  case Nil
  then show ?case by (simp add: scanBatch_def list_all2_refl settled_def)
next
  case (Cons c cs)
  let ?w = "scanOne E cfg (msID c) (msModuleVersionID c) v w"
  have 1: "list_all2 (settled {msID c}) (swScans w) (swScans ?w)" "swFaults ?w = []" "swDone ?w = swDone w"
    using scanOne_finished[OF Cons.prems, of "msID c"] finished_rel by blast+
  have b: "scanBatch E cfg v (c # cs) w = scanBatch E cfg v cs ?w" by (simp add: scanBatch_def)
  have u: "{msID c} \<union> msID ` set cs = msID ` set (c # cs)" by simp
  from Cons.IH[OF 1(2)] 1 list_all2_trans[of "settled {msID c}" "settled (msID ` set cs)" "settled (msID ` set (c # cs))", OF _ 1(1)]
  show ?case unfolding b by (metis settled_trans u)
qed

lemma claim_settles:
  "list_all2 (\<lambda>s s'. if msID s \<in> set (claimIDs tie locked limit rows) then s' = setScanning now s else s' = s)
     rows (fst (claimRows tie locked limit now rows))"
  by (simp add: claimRows_fst list_all2_conv_all_nth)

text \<open>
  Pending rows are settled, the others stay. With unique ids a claimed row was pending.
\<close>

definition drained :: "ModuleScan \<Rightarrow> ModuleScan \<Rightarrow> bool" where
  "drained s s' =
     (if msStatus s = ''pending'' \<and> msStatus s' \<noteq> ''pending''
      then scanned s' \<and> msID s' = msID s \<and> msModuleVersionID s' = msModuleVersionID s else s' = s)"

lemma scanned_status: "scanned s \<Longrightarrow> msStatus s \<noteq> ''pending'' \<and> msStatus s \<noteq> ''scanning''"
  by (auto simp: scanned_def)

lemma drained_trans: "drained s a \<Longrightarrow> drained a b \<Longrightarrow> drained s b"
  using scanned_status[of a] scanned_status[of b] by (auto simp: drained_def split: if_splits)

lemma drained_ids: "list_all2 drained rows rows' \<Longrightarrow> map msID rows' = map msID rows"
  by (induction rule: list_all2_induct) (auto simp: drained_def split: if_splits)

lemma claimed_pending:
  assumes "distinct (map msID rows)" "s \<in> set rows" "msID s \<in> set (claimIDs tie locked limit rows)"
  shows "msStatus s = ''pending'' \<and> \<not> locked (msID s)"
  using claimIDs_pending[OF assms(3)] assms(1,2) by (metis (no_types, lifting) distinct_map inj_onD)

lemma round_drains:
  assumes d: "distinct (map msID (swScans w))" and f: "swFaults w = []"
    and c: "ClaimPendingScans tie locked limit w = (Inr claimed, w2)"
  shows "list_all2 drained (swScans w) (swScans (scanBatch E cfg v claimed w2)) \<and>
    swFaults (scanBatch E cfg v claimed w2) = [] \<and> swDone (scanBatch E cfg v claimed w2) = swDone w"
proof -
  let ?rows = "swScans w" and ?now = "swNow w"
  have e: "claimed = snd (claimRows tie locked limit ?now ?rows)" "w2 = w\<lparr>swScans := fst (claimRows tie locked limit ?now ?rows)\<rparr>"
    using c swUpdate_nofault[OF f, of "claimRows tie locked limit ?now"] by (auto simp: ClaimPendingScans_def)
  have ids: "msID ` set claimed = msID ` {s \<in> set ?rows. msID s \<in> set (claimIDs tie locked limit ?rows)}"
    unfolding e(1) claimRows_snd by (auto simp: image_iff)
  have b: "list_all2 (settled (msID ` set claimed)) (swScans w2) (swScans (scanBatch E cfg v claimed w2))"
    "swFaults (scanBatch E cfg v claimed w2) = []" "swDone (scanBatch E cfg v claimed w2) = swDone w"
    using scanBatch_finished[of w2 claimed] f e(2) by auto
  have "list_all2 drained ?rows (swScans (scanBatch E cfg v claimed w2))"
  proof (rule list_all2_all_nthI)
    have l: "length (swScans w2) = length ?rows" using e(2) by (simp add: claimRows_fst)
    then show "length ?rows = length (swScans (scanBatch E cfg v claimed w2))" using list_all2_lengthD[OF b(1)] by simp
    fix n assume n: "n < length ?rows"
    let ?s = "?rows ! n" and ?s' = "swScans (scanBatch E cfg v claimed w2) ! n"
    have w2: "swScans w2 ! n = (if msID ?s \<in> set (claimIDs tie locked limit ?rows) then setScanning ?now ?s else ?s)"
      using e(2) n by (simp add: claimRows_fst)
    have st: "settled (msID ` set claimed) (swScans w2 ! n) ?s'" using list_all2_nthD[OF b(1)] n l by simp
    have m: "msID ?s \<in> msID ` set claimed \<longleftrightarrow> msID ?s \<in> set (claimIDs tie locked limit ?rows)"
      unfolding ids using nth_mem[OF n] imageI[of ?s "{s \<in> set ?rows. msID s \<in> set (claimIDs tie locked limit ?rows)}" msID] by auto
    show "drained ?s ?s'"
    proof (cases "msID ?s \<in> set (claimIDs tie locked limit ?rows)")
      case True
      with claimed_pending[OF d _ True] n have "msStatus ?s = ''pending''" by simp
      with st w2 m True scanned_status[of ?s'] show ?thesis by (auto simp: settled_def drained_def)
    next
      case False
      with st w2 m show ?thesis by (auto simp: settled_def drained_def)
    qed
  qed
  with b show ?thesis by blast
qed


lemma batchLimit_pos: "0 < batchLimit cfg"
  by (simp add: batchLimit_def)

lemma claim_empty:
  assumes "snd (claimRows tie locked limit now rows) = []" "0 < limit" "s \<in> set rows" "msStatus s = ''pending''"
  shows "locked (msID s)"
proof -
  have "claimIDs tie locked limit rows = []"
  proof (rule ccontr)
    assume "claimIDs tie locked limit rows \<noteq> []"
    then obtain i where "i \<in> set (claimIDs tie locked limit rows)" by (cases "claimIDs tie locked limit rows") auto
    with claimIDs_pending assms(1) show False unfolding claimRows_snd by (fastforce simp: filter_empty_conv)
  qed
  with assms(2) have "filter (\<lambda>s. \<not> locked (msID s)) (pendingRows tie rows) = []" by (simp add: claimIDs_def)
  with assms(3,4) set_pendingRows[of tie rows] show ?thesis by (auto simp: filter_empty_conv)
qed

lemma cycle_drains:
  "distinct (map msID (swScans w)) \<Longrightarrow> swFaults w = [] \<Longrightarrow> swDone w = [] \<Longrightarrow>
   list_all2 drained (swScans w) (swScans (runScanCycle E cfg tie locked v w)) \<and>
   (\<forall>s\<in>set (swScans (runScanCycle E cfg tie locked v w)). msStatus s = ''pending'' \<longrightarrow> locked (msID s))"
proof (induction E cfg tie locked v w rule: runScanCycle.induct)
  case (1 E cfg tie locked v w)
  have x: "ctxErr w = (False, w)" using "1.prems"(3) by (simp add: ctxErr_def)
  obtain claimed w2 where c: "ClaimPendingScans tie locked (batchLimit cfg) w = (Inr claimed, w2)"
    and e: "claimed = snd (claimRows tie locked (batchLimit cfg) (swNow w) (swScans w))"
    using swUpdate_nofault[OF "1.prems"(2), of "claimRows tie locked (batchLimit cfg) (swNow w)"] by (simp add: ClaimPendingScans_def)
  let ?w = "scanBatch E cfg v claimed w2"
  have r: "list_all2 drained (swScans w) (swScans ?w)" "swFaults ?w = []" "swDone ?w = []"
    using round_drains[OF "1.prems"(1,2) c] "1.prems"(3) by auto
  show ?case
  proof (cases "claimed = []")
    case True
    then have s: "runScanCycle E cfg tie locked v w = w2" by (simp add: runScanCycle.simps[of _ _ _ _ _ w] x c)
    have "swScans ?w = swScans w2" using True by (simp add: scanBatch_def)
    moreover have "\<forall>s\<in>set (swScans w). msStatus s = ''pending'' \<longrightarrow> locked (msID s)"
      using claim_empty[OF _ batchLimit_pos] True e by metis
    moreover have "swScans w2 = swScans w"
      using True e c swUpdate_nofault[OF "1.prems"(2), of "claimRows tie locked (batchLimit cfg) (swNow w)"]
      by (auto simp: ClaimPendingScans_def claimRows_fst claimRows_snd filter_empty_conv map_idI)
    ultimately show ?thesis using r(1) s by simp
  next
    case False
    have s: "runScanCycle E cfg tie locked v w = runScanCycle E cfg tie locked v ?w"
      using False by (simp add: runScanCycle.simps[of _ _ _ _ _ w] x c)
    have d: "distinct (map msID (swScans ?w))" using drained_ids[OF r(1)] "1.prems"(1) by simp
    have ih: "list_all2 drained (swScans ?w) (swScans (runScanCycle E cfg tie locked v ?w)) \<and>
       (\<forall>s\<in>set (swScans (runScanCycle E cfg tie locked v ?w)). msStatus s = ''pending'' \<longrightarrow> locked (msID s))"
      by (rule "1.IH"[OF x[symmetric] _ c[symmetric] _ False d r(2,3)]) simp_all
    then have "list_all2 drained (swScans w) (swScans (runScanCycle E cfg tie locked v ?w))"
      by (intro list_all2_trans[of drained drained drained, OF drained_trans r(1)]) auto
    with ih show ?thesis unfolding s by blast
  qed
qed

text \<open>
  The scan queue is worked off: with a working database and a context that lives, a cycle ends, and
  every scan that was pending and not held by another worker's transaction has reached a verdict (clean, findings or error), one
  row per scan, whatever download, archive, disk and scanner do; every other row is untouched.
\<close>

theorem scan_queue_drains:
  assumes "distinct (map msID (swScans w))" "swFaults w = []" "swDone w = []"
  shows "list_all2 (\<lambda>s s'. if msStatus s = ''pending'' \<and> \<not> locked (msID s)
       then msStatus s' \<in> {''clean'', ''findings'', ''error''} \<and> msID s' = msID s \<and> msModuleVersionID s' = msModuleVersionID s
       else s' = s \<or> locked (msID s))
     (swScans w) (swScans (runScanCycle E cfg tie locked v w))"
proof -
  let ?r = "swScans (runScanCycle E cfg tie locked v w)"
  have d: "list_all2 drained (swScans w) ?r" "\<forall>s\<in>set ?r. msStatus s = ''pending'' \<longrightarrow> locked (msID s)"
    using cycle_drains[OF assms, of E cfg tie locked v] by auto
  show ?thesis
  proof (rule list_all2_all_nthI)
    fix n assume n: "n < length (swScans w)"
    let ?s = "swScans w ! n" and ?s' = "?r ! n"
    have "drained ?s ?s'" "?s' \<in> set ?r" using list_all2_nthD[OF d(1) n] n list_all2_lengthD[OF d(1)] by auto
    with d(2) show "if msStatus ?s = ''pending'' \<and> \<not> locked (msID ?s)
       then msStatus ?s' \<in> {''clean'', ''findings'', ''error''} \<and> msID ?s' = msID ?s \<and> msModuleVersionID ?s' = msModuleVersionID ?s
       else ?s' = ?s \<or> locked (msID ?s)"
      by (auto simp: drained_def scanned_def split: if_splits)
  qed (use list_all2_lengthD[OF d(1)] in simp)
qed

section \<open>What a scan sees and leaves\<close>

text \<open>\<^verbatim>\<open>os.MkdirTemp\<close>: the new directory has a fresh absolute path in an existing directory, and nothing is below it.\<close>

definition tmp_contract :: "('s, 'a) scanenv_scheme \<Rightarrow> bool" where
  "tmp_contract E \<longleftrightarrow>
     (\<forall>s. IsAbs (seTmp E s) \<and> Clean (seTmp E s) = seTmp E s \<and> cleanElems (seTmp E s) \<noteq> [] \<and> node s (seTmp E s) = None \<and>
        (\<forall>k < length (cleanElems (seTmp E s)). isDir s (absPath (take k (cleanElems (seTmp E s))))) \<and>
        (\<forall>q. hasPrefix q (seTmp E s @ ''/'') \<longrightarrow> node s q = None))"

lemma nofault_ops:
  assumes "fsFaults s = []"
  shows "fsFaults (snd (osMkdirAll p s)) = []" "fsFaults (snd (osOpenRW p s)) = []" "fsFaults (snd (copyOver p r s)) = []"
proof -
  have m: "fsFaults (snd (makeDirs ps s)) = fsFaults s" for ps s
    by (induction ps arbitrary: s) (auto split: option.splits fnode.splits)
  show "fsFaults (snd (osMkdirAll p s)) = []" "fsFaults (snd (osOpenRW p s)) = []" "fsFaults (snd (copyOver p r s)) = []"
    using assms m[of _ s] by (auto simp: osMkdirAll_def osOpenRW_def copyOver_def osCall_nofault writeOver_def split: option.splits)
qed

lemma extractEntries_nofault: "fsFaults s = [] \<Longrightarrow> fsFaults (snd (extractEntries dest tot cnt tr s)) = []"
proof (induction tr arbitrary: tot cnt s)
  case (TarEntry h body rest)
  have n: "fsFaults s1 = []" if "osMkdirAll p s = (r, s1)" for p r s1 using nofault_ops(1)[OF TarEntry.prems, of p] that by simp
  have o: "fsFaults s2 = []" if "osOpenRW p s1 = (r, s2)" "fsFaults s1 = []" for p r s1 s2 using nofault_ops(2)[of s1 p] that by simp
  have c: "fsFaults s3 = []" if "copyOver p b s2 = (r, s3)" "fsFaults s2 = []" for p b r s2 s3 using nofault_ops(3)[of s2 p b] that by simp
  have o': "fsFaults s2 = []" if "osOpenRW p s1 = (r, s2)" "osMkdirAll p' s = (r', s1)" for p r s1 s2 p' r' using o n that by blast
  have c': "fsFaults s3 = []" if "copyOver p b s2 = (r, s3)" "osOpenRW p'' s1 = (r'', s2)" "osMkdirAll p' s = (r', s1)" for p b r s2 s3 p'' r'' s1 p' r'
    using c o' that by blast
  show ?case using TarEntry.prems by (auto simp: Let_def intro!: TarEntry.IH intro: n o' c' split: option.splits prod.splits sum.splits)
qed simp_all

lemma ExtractTarGz_nofault: "fsFaults s = [] \<Longrightarrow> fsFaults (snd (ExtractTarGz opn rd dest s)) = []"
  by (simp add: ExtractTarGz_def extractEntries_nofault split: sum.splits)

lemma ExtractTarGz_confined:
  "IsAbs dest \<Longrightarrow> isDir s (Clean dest) \<Longrightarrow> ExtractTarGz opn rd dest s = (r, s') \<Longrightarrow> confined dest s s'"
  by (auto simp: ExtractTarGz_def confined_refl split: sum.splits intro: extractEntries_confined)

lemma node_osRemoveAll:
  "fsFaults s = [] \<Longrightarrow> node (osRemoveAll p s) q = (if q = p \<or> hasPrefix q (p @ ''/'') then None else node s q)"
proof -
  have f: "map_of (filter (\<lambda>x. P (fst x)) xs) q = (if P q then map_of xs q else None)" for P and xs :: "(string \<times> fnode) list"
    by (induction xs) auto
  show "fsFaults s = [] \<Longrightarrow> ?thesis"
    using f[of "\<lambda>x. x \<noteq> p \<and> \<not> hasPrefix x (p @ ''/'')"] by (auto simp: osRemoveAll_def osCall_nofault node_def)
qed

lemma absPath_append: "es \<noteq> [] \<Longrightarrow> ts \<noteq> [] \<Longrightarrow> absPath (es @ ts) = absPath es @ ''/'' @ joinSlash ts"
proof -
  have "es \<noteq> [] \<Longrightarrow> ts \<noteq> [] \<Longrightarrow> joinSlash (es @ ts) = joinSlash es @ ''/'' @ joinSlash ts"
    by (induction es rule: joinSlash.induct) (auto simp: neq_Nil_conv)
  then show "es \<noteq> [] \<Longrightarrow> ts \<noteq> [] \<Longrightarrow> ?thesis" by (simp add: absPath_def)
qed

lemma below_prefix:
  assumes "IsAbs p" "Clean p = p" "cleanElems p \<noteq> []" "ts \<noteq> []"
  shows "hasPrefix (absPath (cleanElems p @ ts)) (p @ ''/'')"
proof -
  have "absPath (cleanElems p) = p" using IsAbs_elems[OF assms(1)] assms(2) by simp
  then have "absPath (cleanElems p @ ts) = (p @ ''/'') @ joinSlash ts" using absPath_append[OF assms(3,4)] by simp
  then show ?thesis by (simp only: hasPrefix_append)
qed

text \<open>Creation, confined use and removal of the temporary directory leave the disk as it was.\<close>

lemma tmp_no_trace:
  assumes t: "tmp_contract E" "tmp = seTmp E s"
    and c: "confined tmp (setNode tmp FDir s) s'" "fsFaults s' = []"
  shows "node (osRemoveAll tmp s') = node s"
proof
  fix q
  let ?s = "setNode tmp FDir s" and ?D = "cleanElems tmp"
  have x: "IsAbs tmp" "Clean tmp = tmp" "?D \<noteq> []" "node s tmp = None" "\<forall>k < length ?D. isDir s (absPath (take k ?D))"
    "hasPrefix q (tmp @ ''/'') \<Longrightarrow> node s q = None"
    using t(1)[unfolded tmp_contract_def, THEN spec, of s] unfolding t(2)[symmetric] by blast+
  have p: "tmp = absPath ?D" "list_all normal ?D" using IsAbs_elems[OF x(1)] x(2) by auto
  have no: "above tmp q \<Longrightarrow> node ?s q \<noteq> None"
  proof -
    assume "above tmp q"
    then obtain k where k: "1 \<le> k" "q = absPath (take k ?D)" by (auto simp: above_def)
    show ?thesis
    proof (cases "k < length ?D")
      case True
      have "joinSlash (take k ?D) \<noteq> []" using joinSlash_Nil[OF normal_take[OF p(2)], of k] k(1) x(3) by auto
      with x(5) True k(2) show ?thesis by (auto simp: isDir_def absPath_def)
    qed (use k p(1) in simp)
  qed
  have "node s' q = node ?s q" if "\<not> hasPrefix q (tmp @ ''/'')"
    using c(1)[unfolded confined_def, THEN spec, of q] no below_prefix[OF x(1-3)] that by (auto simp: below_def)
  then show "node (osRemoveAll tmp s') q = node s q"
    using node_osRemoveAll[OF c(2)] x(4,6) by auto
qed

lemma Mark_frame:
  "swDisk (snd (MarkError i m w)) = swDisk w" "swDisk (snd (MarkComplete i n r e w)) = swDisk w"
  using swUpdate_frame[of _ w] unfolding MarkError_def MarkComplete_def by (metis prod.collapse)+

lemma scanIn_disk:
  "swDisk (scanIn E cfg i path v tmp w) = swDisk w \<or>
   (\<exists>rd. swDisk (scanIn E cfg i path v tmp w) = snd (ExtractTarGz (seOpen E) rd tmp (swDisk w)))"
  by (auto simp: scanIn_def Let_def Mark_frame split: sum.splits prod.splits) (metis snd_conv)+

text \<open>
  A scan leaves no trace on the disk: on a working file system, whatever the archive contains and however
  the scan ends, the files and directories afterwards are those before.
\<close>

theorem scan_leaves_no_trace:
  assumes "tmp_contract E" "fsFaults (swDisk w) = []"
  shows "node (swDisk (scanOne E cfg i mv v w)) = node (swDisk w)"
proof -
  obtain r w1 where g: "GetVersionByID mv w = (r, w1)" by fastforce
  have d: "swDisk w1 = swDisk w" using g swQuery_frame unfolding GetVersionByID_def by fastforce
  show ?thesis
  proof (cases "\<exists>path. r = Inr (Some path)")
    case True
    then obtain path where r: "r = Inr (Some path)" by blast
    let ?t = "seTmp E (swDisk w)" and ?s = "setNode (seTmp E (swDisk w)) FDir (swDisk w)"
    let ?w = "w1\<lparr>swDisk := ?s\<rparr>"
    have m: "osMkdirTemp ?t (swDisk w1) = (Inr (), ?s)" using assms(2) d by (simp add: osMkdirTemp_def osCall_nofault)
    have o: "scanOne E cfg i mv v w =
       (let w2 = scanIn E cfg i path v ?t ?w in w2\<lparr>swDisk := osRemoveAll ?t (swDisk w2)\<rparr>)"
      using m d by (simp add: scanOne_def g r Let_def)
    have t: "IsAbs ?t" "isDir ?s (Clean ?t)" using assms(1) by (auto simp: tmp_contract_def isDir_def)
    have f: "fsFaults ?s = []" using assms(2) by simp
    have x: "confined ?t ?s (snd (ExtractTarGz (seOpen E) rd ?t ?s))" for rd
      using ExtractTarGz_confined[OF t] by (metis prod.collapse)
    have "confined ?t ?s (swDisk (scanIn E cfg i path v ?t ?w)) \<and> fsFaults (swDisk (scanIn E cfg i path v ?t ?w)) = []"
      using scanIn_disk[of E cfg i path v ?t ?w] x ExtractTarGz_nofault[OF f] f confined_refl[of ?s ?s]
      by (elim disjE exE) simp_all
    with tmp_no_trace[OF assms(1) refl] o show ?thesis by (simp add: Let_def)
  qed (use d in \<open>auto simp: scanOne_def g Mark_frame split: sum.splits option.splits\<close>)
qed

definition freshTmp :: "fs \<Rightarrow> string" where
  "freshTmp s = ''/'' @ replicate (1 + sum_list (map (length \<circ> fst) (fsNodes s))) (CHR ''x'')"

lemma node_length: "node s q \<noteq> None \<Longrightarrow> length q \<le> sum_list (map (length \<circ> fst) (fsNodes s))"
proof -
  assume "node s q \<noteq> None"
  then obtain n where "(q, n) \<in> set (fsNodes s)" unfolding node_def by (metis map_of_SomeD not_None_eq)
  then show ?thesis using member_le_sum_list[of "length q" "map (length \<circ> fst) (fsNodes s)"] by force
qed

lemma freshTmp_elems: "cleanElems (freshTmp s) = [replicate (1 + sum_list (map (length \<circ> fst) (fsNodes s))) (CHR ''x'')]"
  "freshTmp s = absPath (cleanElems (freshTmp s))"
proof -
  let ?n = "replicate (1 + sum_list (map (length \<circ> fst) (fsNodes s))) (CHR ''x'')"
  have n: "list_all normal [?n]" by (simp add: normal_def)
  have f: "freshTmp s = absPath [?n]" by (simp add: freshTmp_def absPath_def)
  show "cleanElems (freshTmp s) = [?n]" unfolding f by (rule cleanElems_absPath[OF n])
  then show "freshTmp s = absPath (cleanElems (freshTmp s))" using f by simp
qed

lemma freshTmp_contract: "seTmp E = freshTmp \<Longrightarrow> tmp_contract E"
  unfolding tmp_contract_def
proof (intro allI conjI impI)
  fix s :: fs
  assume e: "seTmp E = freshTmp"
  let ?n = "replicate (1 + sum_list (map (length \<circ> fst) (fsNodes s))) (CHR ''x'')"
  show "IsAbs (seTmp E s)" by (simp add: e freshTmp_def IsAbs_def hasPrefix_def)
  then show "Clean (seTmp E s) = seTmp E s" using IsAbs_elems[of "seTmp E s"] freshTmp_elems(2)[of s] e by simp
  show "cleanElems (seTmp E s) \<noteq> []" by (simp add: e freshTmp_elems(1))
  have l: "\<not> length (freshTmp s) \<le> sum_list (map (length \<circ> fst) (fsNodes s))" by (simp add: freshTmp_def)
  then show "node s (seTmp E s) = None" using node_length[of s "freshTmp s"] unfolding e by blast
  show "isDir s (absPath (take k (cleanElems (seTmp E s))))" if "k < length (cleanElems (seTmp E s))" for k
    using that by (simp add: e freshTmp_elems(1) isDir_def absPath_def)
  show "node s q = None" if "hasPrefix q (seTmp E s @ ''/'')" for q
  proof -
    have "length (freshTmp s) \<le> length q" using that unfolding e hasPrefix_def by (metis append_take_drop_id length_append le_add1 le_trans)
    with l node_length[of s q] show ?thesis by fastforce
  qed
qed

definition exScanEnv :: "unit scanenv" where
  "exScanEnv = \<lparr>seDownload = (\<lambda>_ st. (Inr ([], False), st)), seOpen = (\<lambda>_. Inr exModule), seTmp = freshTmp,
     seScan = (\<lambda>s t. Inr \<lparr>srScannerVersion = [], srCriticalCount = 0, srHighCount = 0, srMediumCount = 0, srLowCount = 0,
       srHasFindings = (content s (t @ ''/mod/main.tf'') = ''bad''), srRawJSON = [], srExecutionLog = []\<rparr>),
     seName = ''trivy'', seErrText = (\<lambda>_. []), seOsErrText = (\<lambda>_. [])\<rparr>"

definition exScanWorld :: "unit scanworld" where
  "exScanWorld = \<lparr>swScans = [newScan ''s1'' ''v1'' 5, newScan ''s2'' ''v2'' 3], swVersions = [(''v1'', ''p1'')], swNow = 9,
     swFaults = [], swDone = [], swStore = (), swDisk = exDisk\<rparr>"

definition exScanCfg :: ScanningConfig where
  "exScanCfg = \<lparr>cfgEnabled = True, cfgEmbeddedWorker = True, cfgBinaryPath = ''/bin/trivy'', cfgExpectedVersion = [],
     cfgScanIntervalMins = 5, cfgWorkerCount = 1\<rparr>"

theorem scan_queue_drains_witness:
  "msStatus (hd (swScans (runScanCycle exScanEnv exScanCfg (\<lambda>_. 0) (\<lambda>_. False) ''1'' exScanWorld))) \<in> {''clean'', ''findings'', ''error''}"
proof -
  let ?r = "swScans (runScanCycle exScanEnv exScanCfg (\<lambda>_. 0) (\<lambda>_. False) ''1'' exScanWorld)"
  have h: "distinct (map msID (swScans exScanWorld))" "swFaults exScanWorld = []" "swDone exScanWorld = []"
    "msStatus (swScans exScanWorld ! 0) = ''pending''" "0 < length (swScans exScanWorld)" by code_simp+
  note d = scan_queue_drains[OF h(1-3), of "\<lambda>_. False" exScanEnv exScanCfg "\<lambda>_. 0" "''1''"]
  have "?r \<noteq> []" using list_all2_lengthD[OF d] h(5) by auto
  with list_all2_nthD[OF d h(5)] h(4) show ?thesis by (simp add: hd_conv_nth)
qed

theorem scan_leaves_no_trace_witness:
  "tmp_contract exScanEnv \<and> node (swDisk (scanOne exScanEnv exScanCfg ''s1'' ''v1'' ''1'' exScanWorld)) = node (swDisk exScanWorld)"
proof -
  have "tmp_contract exScanEnv" by (rule freshTmp_contract) (simp add: exScanEnv_def)
  moreover have "fsFaults (swDisk exScanWorld) = []" by (simp add: exScanWorld_def exDisk_def)
  ultimately show ?thesis using scan_leaves_no_trace by blast
qed

lemma updateRow_status [simp]:
  "msStatus (failScan m now s) = ''error''" "msID (failScan m now s) = msID s"
  "msStatus (completeScan n r e now s) = (if srHasFindings r then ''findings'' else ''clean'')" "msID (completeScan n r e now s) = msID s"
  by (simp_all add: failScan_def completeScan_def)

lemma updateRow_all: "(\<And>s. msID s = i \<Longrightarrow> P (f s)) \<Longrightarrow> \<forall>s\<in>set (updateRow i f rows). msID s = i \<longrightarrow> P s"
  by (auto simp: updateRow_def)

text \<open>
  The verdict is about what was published: when the archive of a version was validated and has no
  colliding names, and database, download and disk work, the scanner runs on a directory that holds exactly the
  regular files of the archive with their contents, and the row of the scan then has the verdict the scanner gave on it.
\<close>

theorem scan_verdict_on_content:
  assumes t: "tmp_contract E" and f: "fsFaults (swDisk w) = []" "swFaults w = []"
    and p: "map_of (swVersions w) mv = Some path" "fst (seDownload E path (swStore w)) = Inr rd"
    and v: "ValidateArchive (seOpen E) rd 104857600 = Inr ()" "seOpen E (limitReader 104857601 rd) = Inr tr"
      "collisionFree (streamEntries tr)"
  shows "\<exists>d tmp. tmp = seTmp E (swDisk w) \<and>
    (\<forall>(h, body)\<in>set (streamEntries tr). hdrTypeflag h = TypeReg \<longrightarrow>
       (\<exists>m. node d (absPath (cleanElems tmp @ cleanElems (hdrName h))) = Some (FFile (fst body) m))) \<and>
    (\<forall>ts c m. list_all normal ts \<and> ts \<noteq> [] \<and> node d (absPath (cleanElems tmp @ ts)) = Some (FFile c m) \<longrightarrow>
       (\<exists>h body. (h, body) \<in> set (streamEntries tr) \<and> hdrTypeflag h = TypeReg \<and> cleanElems (hdrName h) = ts \<and> c = fst body)) \<and>
    (\<forall>s\<in>set (swScans (scanOne E cfg i mv ver w)). msID s = i \<longrightarrow>
       msStatus s = (case seScan E d tmp of Inl _ \<Rightarrow> ''error'' | Inr r \<Rightarrow> if srHasFindings r then ''findings'' else ''clean''))"
proof -
  let ?t = "seTmp E (swDisk w)" and ?s = "setNode (seTmp E (swDisk w)) FDir (swDisk w)" and ?D = "cleanElems (seTmp E (swDisk w))"
  let ?w = "w\<lparr>swDisk := ?s\<rparr>"
  have x: "IsAbs ?t" "Clean ?t = ?t" "?D \<noteq> []" "\<forall>k < length ?D. isDir (swDisk w) (absPath (take k ?D))"
    "\<forall>q. hasPrefix q (?t @ ''/'') \<longrightarrow> node (swDisk w) q = None"
    using t[unfolded tmp_contract_def, THEN spec, of "swDisk w"] by blast+
  have pt: "?t = absPath ?D" "list_all normal ?D" using IsAbs_elems[OF x(1)] x(2) by auto
  have dirs: "\<forall>k. isDir ?s (absPath (take k ?D))"
  proof
    fix k show "isDir ?s (absPath (take k ?D))"
      using x(4) pt(1) by (cases "k < length ?D") (auto simp: isDir_def)
  qed
  have none: "\<forall>ts. ts \<noteq> [] \<longrightarrow> node ?s (absPath (?D @ ts)) = None"
  proof (intro allI impI)
    fix ts :: "string list" assume ts: "ts \<noteq> []"
    have "hasPrefix (absPath (?D @ ts)) (?t @ ''/'')" by (rule below_prefix[OF x(1-3) ts])
    moreover have "absPath (?D @ ts) \<noteq> ?t" using absPath_append[OF x(3) ts] pt(1) by (metis append_self_conv append_Cons not_Cons_self2 append_Nil list.distinct(1))
    ultimately show "node ?s (absPath (?D @ ts)) = None" using x(5) by simp
  qed
  from extract_validated[OF v(1,2) x(1) _ dirs none v(3)] f obtain d where
    d: "ExtractTarGz (seOpen E) rd ?t ?s = (Inr (), d)" "extracted ?t (streamEntries tr) d" by auto
  have m: "osMkdirTemp ?t (swDisk w) = (Inr (), ?s)" using f(1) by (simp add: osMkdirTemp_def osCall_nofault)
  have g: "GetVersionByID mv w = (Inr (Some path), w)" using f(2) p(1) by (simp add: GetVersionByID_def swQuery_def swCall_def)
  obtain st where dl: "seDownload E path (swStore w) = (Inr rd, st)" using p(2) by (metis prod.collapse)
  let ?w1 = "w\<lparr>swStore := st, swDisk := d\<rparr>"
  have sc: "swScans (scanOne E cfg i mv ver w) =
      (case seScan E d ?t of Inl e \<Rightarrow> updateRow i (failScan e (swNow w)) (swScans w)
       | Inr r \<Rightarrow> updateRow i (completeScan (seName E) (r\<lparr>srScannerVersion := ver\<rparr>) (cfgExpectedVersion cfg) (swNow w)) (swScans w))"
    using d(1) f(2)
    by (simp add: scanOne_def g m dl scanIn_def Let_def MarkError_def MarkComplete_def swUpdate_nofault split: sum.splits)
  have row: "\<forall>s\<in>set (swScans (scanOne E cfg i mv ver w)). msID s = i \<longrightarrow>
       msStatus s = (case seScan E d ?t of Inl _ \<Rightarrow> ''error'' | Inr r \<Rightarrow> if srHasFindings r then ''findings'' else ''clean'')"
  proof (cases "seScan E d ?t")
    case (Inl e)
    show ?thesis unfolding sc Inl sum.case by (rule updateRow_all) simp
  next
    case (Inr r)
    show ?thesis unfolding sc Inr sum.case by (rule updateRow_all) simp
  qed
  have e1: "\<forall>x\<in>set (streamEntries tr). isReg x \<longrightarrow> (\<exists>m. node d (absPath (?D @ elemsOf x)) = Some (FFile (fst (snd x)) m))"
    and e2: "\<forall>ts c m. list_all normal ts \<longrightarrow> ts \<noteq> [] \<longrightarrow> node d (absPath (?D @ ts)) = Some (FFile c m) \<longrightarrow>
        (\<exists>x\<in>set (streamEntries tr). isReg x \<and> elemsOf x = ts \<and> c = fst (snd x))"
    using d(2) unfolding extracted_def by blast+
  show ?thesis
  proof (intro exI[of _ d] exI[of _ ?t] conjI refl row)
    show "\<forall>(h, body)\<in>set (streamEntries tr). hdrTypeflag h = TypeReg \<longrightarrow>
       (\<exists>m. node d (absPath (?D @ cleanElems (hdrName h))) = Some (FFile (fst body) m))" using e1 by force
    show "\<forall>ts c m. list_all normal ts \<and> ts \<noteq> [] \<and> node d (absPath (?D @ ts)) = Some (FFile c m) \<longrightarrow>
       (\<exists>h body. (h, body) \<in> set (streamEntries tr) \<and> hdrTypeflag h = TypeReg \<and> cleanElems (hdrName h) = ts \<and> c = fst body)"
      using e2 by (metis prod.collapse)
  qed
qed

theorem scan_verdict_on_content_witness:
  "\<exists>d m s. node d (absPath (cleanElems (freshTmp exDisk) @ cleanElems ''mod/main.tf'')) = Some (FFile ''m'' m) \<and>
     s \<in> set (swScans (scanOne exScanEnv exScanCfg ''s1'' ''v1'' ''1'' exScanWorld)) \<and> msID s = ''s1'' \<and>
     msStatus s = (case seScan exScanEnv d (freshTmp exDisk) of Inl _ \<Rightarrow> ''error''
                   | Inr r \<Rightarrow> if srHasFindings r then ''findings'' else ''clean'')"
proof -
  have t: "tmp_contract exScanEnv" by (rule freshTmp_contract) (simp add: exScanEnv_def)
  have f: "fsFaults (swDisk exScanWorld) = []" "swFaults exScanWorld = []" "map_of (swVersions exScanWorld) ''v1'' = Some ''p1''"
    "fst (seDownload exScanEnv ''p1'' (swStore exScanWorld)) = Inr ([], False)"
    "seOpen exScanEnv (limitReader 104857601 ([], False)) = Inr exModule" "seTmp exScanEnv (swDisk exScanWorld) = freshTmp exDisk"
    by (simp_all add: exScanWorld_def exScanEnv_def exDisk_def)
  have v: "ValidateArchive (seOpen exScanEnv) ([], False) 104857600 = Inr ()" using exModule_valid by (simp add: exScanEnv_def)
  have c: "collisionFree (streamEntries exModule)" by code_simp
  have m: "(\<lparr>hdrName = ''mod/main.tf'', hdrTypeflag = TypeReg\<rparr>, (''m'', False)) \<in> set (streamEntries exModule)"
    by (simp add: exModule_def regEntry_def)
  from scan_verdict_on_content[OF t f(1-4) v f(5) c, of exScanCfg "''s1''" "''1''"]
  obtain d tmp where tmp: "tmp = seTmp exScanEnv (swDisk exScanWorld)"
    and d: "\<forall>(h, body)\<in>set (streamEntries exModule). hdrTypeflag h = TypeReg \<longrightarrow>
       (\<exists>m. node d (absPath (cleanElems tmp @ cleanElems (hdrName h))) = Some (FFile (fst body) m))"
    "\<forall>s\<in>set (swScans (scanOne exScanEnv exScanCfg ''s1'' ''v1'' ''1'' exScanWorld)). msID s = ''s1'' \<longrightarrow>
       msStatus s = (case seScan exScanEnv d tmp of Inl _ \<Rightarrow> ''error''
                     | Inr r \<Rightarrow> if srHasFindings r then ''findings'' else ''clean'')" by (elim exE conjE) (rule that)
  note d = d[unfolded tmp f(6)]
  have "''s1'' \<in> set (map msID (swScans (scanOne exScanEnv exScanCfg ''s1'' ''v1'' ''1'' exScanWorld)))" by code_simp
  then obtain s where "s \<in> set (swScans (scanOne exScanEnv exScanCfg ''s1'' ''v1'' ''1'' exScanWorld))" "msID s = ''s1''" by auto
  with bspec[OF d(1) m] d(2) show ?thesis by auto
qed

section \<open>Several workers\<close>

text \<open>
  Workers on the one table, each statement a step: claims, verdicts, scans that are given up (a crash, or a verdict that could
  not be written), enqueued versions, the passing of time, and the reset of stale rows, which
  a starting worker runs. The state has the rows and the scans in progress with their workers. \<open>ResetTimely\<close> are runs in which a worker only starts
  while no scan in progress is older than the limit, \<open>ResetNever\<close> those in which none starts.
\<close>

datatype reset_policy = ResetAnyTime | ResetTimely | ResetNever

type_synonym workers = "ModuleScan list \<times> (nat \<times> string) list \<times> int"

definition timely :: "workers \<Rightarrow> bool" where
  "timely st = (case st of (rows, fl, now) \<Rightarrow> \<forall>s\<in>set rows. msID s \<in> snd ` set fl \<longrightarrow> now - staleAfter \<le> msUpdatedAt s)"

inductive worker_step :: "reset_policy \<Rightarrow> workers \<Rightarrow> workers \<Rightarrow> bool" for pol where
  claim: "claimRows tie locked limit now rows = (rows', claimed) \<Longrightarrow>
    worker_step pol (rows, fl, now) (rows', fl @ map (\<lambda>s. (n, msID s)) claimed, now)"
| complete: "(n, i) \<in> set fl \<Longrightarrow>
    worker_step pol (rows, fl, now) (updateRow i (completeScan nm r e now) rows, remove1 (n, i) fl, now)"
| fail: "(n, i) \<in> set fl \<Longrightarrow>
    worker_step pol (rows, fl, now) (updateRow i (failScan m now) rows, remove1 (n, i) fl, now)"
| giveup: "worker_step pol (rows, fl, now) (rows, remove1 x fl, now)"
| reset: "pol = ResetAnyTime \<or> pol = ResetTimely \<and> timely (rows, fl, now) \<Longrightarrow>
    worker_step pol (rows, fl, now) (resetRows staleAfter now rows, fl, now)"
| create: "i \<notin> msID ` set rows \<Longrightarrow> worker_step pol (rows, fl, now) (createRow i mv now rows, fl, now)"
| upsert: "i \<notin> msID ` set rows \<Longrightarrow> worker_step pol (rows, fl, now) (upsertRow i mv now rows, fl, now)"
| tick: "now \<le> now' \<Longrightarrow> worker_step pol (rows, fl, now) (rows, fl, now')"

definition scanningRow :: "string \<Rightarrow> ModuleScan list \<Rightarrow> bool" where
  "scanningRow i rows \<longleftrightarrow> (\<exists>s\<in>set rows. msID s = i \<and> msStatus s = ''scanning'')"

definition exclusive :: "workers \<Rightarrow> bool" where
  "exclusive st = (case st of (rows, fl, now) \<Rightarrow>
     distinct (map msID rows) \<and> distinct (map snd fl) \<and> (\<forall>i\<in>snd ` set fl. scanningRow i rows))"

lemma map_ids: "(\<And>s. msID (f s) = msID s) \<Longrightarrow> map msID (map f rows) = map msID rows"
  by simp

lemma updateRow_ids: "(\<And>s. msID (f s) = msID s) \<Longrightarrow> map msID (updateRow i f rows) = map msID rows"
  by (simp add: updateRow_def)

lemma scanningRow_map:
  assumes "scanningRow i rows" "\<And>s. s \<in> set rows \<Longrightarrow> msID s = i \<Longrightarrow> msStatus s = ''scanning'' \<Longrightarrow> f s = s"
  shows "scanningRow i (map f rows)"
  using assms unfolding scanningRow_def by (metis (no_types, lifting) image_eqI list.set_map)

lemma distinct_remove1_snd:
  "distinct (map snd fl) \<Longrightarrow> distinct (map snd (remove1 x fl)) \<and> snd ` set (remove1 x fl) \<subseteq> snd ` set fl \<and>
   (x \<in> set fl \<longrightarrow> snd x \<notin> snd ` set (remove1 x fl))"
  by (induction fl) (auto simp: image_iff dest: in_set_remove1[THEN iffD1] notin_set_remove1)

lemma finish_exclusive:
  assumes "exclusive (rows, fl, now)" "(n, i) \<in> set fl" "\<And>s. msID (f s) = msID s"
  shows "exclusive (updateRow i f rows, remove1 (n, i) fl, now)"
proof -
  have d: "distinct (map msID rows)" "distinct (map snd fl)" "\<forall>i\<in>snd ` set fl. scanningRow i rows"
    using assms(1) by (auto simp: exclusive_def)
  have r: "distinct (map snd (remove1 (n, i) fl))" "snd ` set (remove1 (n, i) fl) \<subseteq> snd ` set fl" "i \<notin> snd ` set (remove1 (n, i) fl)"
    using distinct_remove1_snd[OF d(2), of "(n, i)"] assms(2) by auto
  have "scanningRow j (updateRow i f rows)" if "j \<in> snd ` set (remove1 (n, i) fl)" for j
  proof -
    have "j \<noteq> i" "scanningRow j rows" using that r d(3) by auto
    then show ?thesis unfolding updateRow_def by (intro scanningRow_map) auto
  qed
  with r(1) d(1) updateRow_ids[OF assms(3)] show ?thesis by (simp add: exclusive_def)
qed

lemma claim_exclusive:
  assumes "exclusive (rows, fl, now)" "claimRows tie locked limit now rows = (rows', claimed)"
  shows "exclusive (rows', fl @ map (\<lambda>s. (n, msID s)) claimed, now)"
proof -
  let ?ids = "set (claimIDs tie locked limit rows)"
  have d: "distinct (map msID rows)" "distinct (map snd fl)" "\<forall>i\<in>snd ` set fl. scanningRow i rows"
    using assms(1) by (auto simp: exclusive_def)
  have r: "rows' = map (\<lambda>s. if msID s \<in> ?ids then setScanning now s else s) rows"
    and c: "claimed = map (setScanning now) (filter (\<lambda>s. msID s \<in> ?ids) rows)"
    using assms(2) claimRows_fst[of tie locked limit now rows] claimRows_snd[of tie locked limit now rows] by auto
  have old: "i \<notin> ?ids" if "i \<in> snd ` set fl" for i
  proof
    assume i: "i \<in> ?ids"
    from d(3) that obtain s where s: "s \<in> set rows" "msID s = i" "msStatus s = ''scanning''" by (auto simp: scanningRow_def)
    from claimed_pending[OF d(1) s(1)] s i show False by auto
  qed
  then have old': "(a, i) \<in> set fl \<Longrightarrow> i \<notin> ?ids" for a i by force
  have m: "map snd (map (\<lambda>s. (n, msID s)) claimed) = map msID (filter (\<lambda>s. msID s \<in> ?ids) rows)" by (simp add: c comp_def)
  have "distinct (map snd (fl @ map (\<lambda>s. (n, msID s)) claimed))"
    using d(1,2) old' unfolding map_append m by (auto simp: distinct_map_filter)
  moreover have "scanningRow i rows'" if i: "i \<in> snd ` set (fl @ map (\<lambda>s. (n, msID s)) claimed)" for i
  proof (cases "i \<in> snd ` set fl")
    case True
    with d(3) old show ?thesis unfolding r by (intro scanningRow_map) auto
  next
    case False
    with i c obtain s where "s \<in> set rows" "msID s = i" "i \<in> ?ids" by auto
    then show ?thesis unfolding r scanningRow_def by (intro bexI[of _ "setScanning now s"]) (auto simp: image_iff)
  qed
  moreover have "map msID rows' = map msID rows" unfolding r by (rule map_ids) simp
  ultimately show ?thesis using d(1) by (simp add: exclusive_def)
qed


lemma exclusive_map:
  assumes "exclusive (rows, fl, now)" "\<And>s. msID (f s) = msID s"
    "\<And>s. s \<in> set rows \<Longrightarrow> msID s \<in> snd ` set fl \<Longrightarrow> msStatus s = ''scanning'' \<Longrightarrow> f s = s"
  shows "exclusive (map f rows, fl, now)"
proof -
  have d: "distinct (map msID rows)" "distinct (map snd fl)" "\<forall>i\<in>snd ` set fl. scanningRow i rows"
    using assms(1) by (auto simp: exclusive_def)
  have "scanningRow i (map f rows)" if "i \<in> snd ` set fl" for i
    using d(3) that assms(3) by (intro scanningRow_map) auto
  moreover have "distinct (map msID (map f rows))" unfolding map_ids[of f rows, OF assms(2)] by (rule d(1))
  ultimately show ?thesis using d(2) by (simp add: exclusive_def)
qed

lemma create_exclusive:
  assumes "exclusive (rows, fl, now)" "i \<notin> msID ` set rows"
  shows "exclusive (createRow i mv now rows, fl, now)" "exclusive (upsertRow i mv now rows, fl, now)"
proof -
  have app: "exclusive (rows @ [newScan i mv now], fl, now)"
    using assms by (auto simp: exclusive_def scanningRow_def newScan_def)
  then show "exclusive (createRow i mv now rows, fl, now)" using assms(1) by (simp add: createRow_def)
  show "exclusive (upsertRow i mv now rows, fl, now)"
    unfolding upsertRow_def by (cases "list_ex (\<lambda>s. msModuleVersionID s = mv) rows") (auto simp: app intro!: exclusive_map[OF assms(1)])
qed

lemma reset_exclusive:
  assumes "exclusive (rows, fl, now)" "timely (rows, fl, now)"
  shows "exclusive (resetRows staleAfter now rows, fl, now)"
  unfolding resetRows_def by (rule exclusive_map[OF assms(1)]) (use assms(2) in \<open>auto simp: timely_def\<close>)

lemma worker_step_exclusive:
  assumes "exclusive st" "worker_step ResetTimely st st'"
  shows "exclusive st'"
  using assms(2,1)
proof (induction rule: worker_step.induct)
  case (giveup rows fl now x)
  then show ?case using distinct_remove1_snd[of fl x] by (auto simp: exclusive_def)
next
  case (tick now now' rows fl)
  then show ?case by (simp add: exclusive_def)
qed (auto intro: claim_exclusive finish_exclusive create_exclusive reset_exclusive)

interpretation scan_workers: inductive_invariant
  "\<lambda>(rows, fl, now). distinct (map msID rows) \<and> fl = []" "worker_step ResetTimely" exclusive
proof (unfold_locales, goal_cases)
  case (1 st)
  then show ?case by (auto simp: exclusive_def)
next
  case (2 st st')
  then show ?case by (rule worker_step_exclusive)
qed

text \<open>
  No scan is done twice at a time: over any interleaving of any number of workers on the table, with crashes,
  lost verdicts and new versions, every scan is in progress at one worker at most, provided
  that no worker starts (and resets stale rows) while a scan in progress is older than half an hour.
\<close>

theorem scans_exclusive:
  assumes "distinct (map msID rows0)" "(worker_step ResetTimely)\<^sup>*\<^sup>* (rows0, [], t0) (rows, fl, t)" "(n, i) \<in> set fl" "(m, i) \<in> set fl"
  shows "n = m"
proof -
  have "exclusive (rows, fl, t)" using scan_workers.reachable_inv[OF _ assms(2)] assms(1) by simp
  then have "inj_on snd (set fl)" by (auto simp: exclusive_def distinct_map)
  from inj_onD[OF this _ assms(3,4)] show ?thesis by simp
qed

lemma remove1_ids: "k \<notin> snd ` set fl \<Longrightarrow> k \<notin> snd ` set (remove1 x fl)"
  using set_remove1_subset[of x fl] by blast

lemma finish_keeps:
  assumes "(n, i) \<in> set fl" "s \<in> set rows" "msID s \<notin> snd ` set fl" "distinct (map msID rows)" "\<And>s. msID (f s) = msID s"
  shows "s \<in> set (updateRow i f rows) \<and> msID s \<notin> snd ` set (remove1 (n, i) fl) \<and> distinct (map msID (updateRow i f rows))"
proof -
  have "msID s \<noteq> i" using assms(1,3) by force
  then have "s \<in> set (updateRow i f rows)" using assms(2) by (force simp: updateRow_def)
  then show ?thesis using remove1_ids[OF assms(3)] updateRow_ids[OF assms(5)] assms(4) by simp
qed

text \<open>
  A scan interrupted by a crash can be lost for good: the recovery runs only when a worker starts and
  passes over rows younger than half an hour, so after a crash and a prompt restart the interrupted scan
  stays in progress; no later cycle, verdict, new version or rescan request touches it, until some worker is started again.
\<close>

theorem crashed_scan_stuck:
  assumes s: "s \<in> set rows" "msStatus s = ''scanning''" "t - staleAfter \<le> msUpdatedAt s" "distinct (map msID rows)"
    and c: "msID s \<notin> snd ` set fl"
    and r: "(worker_step ResetNever)\<^sup>*\<^sup>* (resetRows staleAfter t rows, fl, t) (rows', fl', t')"
  shows "s \<in> set rows' \<and> msID s \<notin> snd ` set fl'"
proof -
  let ?P = "\<lambda>(rows, fl, now). s \<in> set rows \<and> msID s \<notin> snd ` set fl \<and> distinct (map msID rows)"
  have step: "?P st'" if "worker_step ResetNever st st'" "?P st" for st st'
    using that
  proof (induction rule: worker_step.induct)
    case (claim tie locked limit now rows rows' claimed fl n)
    then have p: "s \<in> set rows" "distinct (map msID rows)" "msID s \<notin> snd ` set fl" by auto
    have n: "msID s \<notin> set (claimIDs tie locked limit rows)" using claimed_pending[OF p(2,1)] s(2) by fastforce
    have r: "rows' = map (\<lambda>s. if msID s \<in> set (claimIDs tie locked limit rows) then setScanning now s else s) rows"
      "claimed = map (setScanning now) (filter (\<lambda>s. msID s \<in> set (claimIDs tie locked limit rows)) rows)"
      using claim(1) claimRows_fst[of tie locked limit now rows] claimRows_snd[of tie locked limit now rows] by auto
    have "map msID rows' = map msID rows" unfolding r by (rule map_ids) simp
    moreover have "s \<in> set rows'" unfolding r using n p(1) by force
    moreover have "msID s \<notin> snd ` set (fl @ map (\<lambda>s. (n, msID s)) claimed)" using n p(3) r(2) by force
    ultimately show ?case using p(2) by simp
  next
    case (complete n i fl rows now nm r e)
    then show ?case using finish_keeps[of n i fl s rows "completeScan nm r e now"] by simp
  next
    case (fail n i fl rows now m)
    then show ?case using finish_keeps[of n i fl s rows "failScan m now"] by simp
  next
    case (giveup rows fl now x)
    then show ?case using remove1_ids[of "msID s" fl x] by simp
  next
    case (create i rows fl now mv)
    then show ?case by (auto simp: createRow_def newScan_def)
  next
    case (upsert i rows fl now mv)
    then have p: "s \<in> set rows" "distinct (map msID rows)" "msID s \<notin> snd ` set fl" "i \<notin> msID ` set rows" by auto
    let ?f = "\<lambda>s. if msModuleVersionID s = mv \<and> msStatus s \<noteq> ''pending'' \<and> msStatus s \<noteq> ''scanning''
                    then s\<lparr>msStatus := ''pending'', msErrorMessage := None, msUpdatedAt := now\<rparr> else s"
    have "map msID (map ?f rows) = map msID rows" by (rule map_ids) simp
    then have "distinct (map msID (map ?f rows))" using p(2) by (simp only:)
    moreover have "?f s = s" using s(2) by simp
    then have "s \<in> set (map ?f rows)" using p(1) imageI[of s "set rows" ?f] by simp
    moreover have "distinct (map msID (rows @ [newScan i mv now]))" "s \<in> set (rows @ [newScan i mv now])"
      using p by (auto simp: newScan_def)
    ultimately show ?case using p(3) unfolding upsertRow_def by (simp del: map_map)
  qed auto
  have "s \<in> set (resetRows staleAfter t rows)" using s by (force simp: resetRows_def)
  moreover have "map msID (resetRows staleAfter t rows) = map msID rows" unfolding resetRows_def by (rule map_ids) simp
  ultimately have "?P (resetRows staleAfter t rows, fl, t)" using c s(4) by simp
  with r have "?P (rows', fl', t')" by (induction rule: rtranclp_induct) (auto dest: step)
  then show ?thesis by simp
qed

definition exQueue :: "ModuleScan list" where
  "exQueue = [newScan ''s1'' ''v1'' 5]"

definition claimed1 :: "int \<Rightarrow> ModuleScan list \<Rightarrow> ModuleScan list" where
  "claimed1 now rows = fst (claimRows (\<lambda>_. 0) (\<lambda>_. False) 2 now rows)"

lemma claim1:
  "worker_step pol (rows, fl, now)
     (claimed1 now rows, fl @ map (\<lambda>s. (n, msID s)) (snd (claimRows (\<lambda>_. 0) (\<lambda>_. False) 2 now rows)), now)"
  unfolding claimed1_def by (rule worker_step.claim[OF prod.collapse[symmetric]])

theorem scans_exclusive_witness:
  "\<exists>rows fl. (worker_step ResetTimely)\<^sup>*\<^sup>* (exQueue, [], 5) (rows, fl, 5) \<and> (7, ''s1'') \<in> set fl \<and> (8, ''s1'') \<notin> set fl"
proof -
  let ?fl = "[] @ map (\<lambda>s. (7::nat, msID s)) (snd (claimRows (\<lambda>_. 0) (\<lambda>_. False) 2 5 exQueue))"
  have r: "(worker_step ResetTimely)\<^sup>*\<^sup>* (exQueue, [], 5) (claimed1 5 exQueue, ?fl, 5)" using claim1 by blast
  have d: "distinct (map msID exQueue)" "(7, ''s1'') \<in> set ?fl" by code_simp+
  have "(8, ''s1'') \<notin> set ?fl" using scans_exclusive[OF d(1) r d(2), of 8] by auto
  with r d(2) show ?thesis by blast
qed

theorem crashed_scan_stuck_witness:
  "\<exists>rows'. (worker_step ResetNever)\<^sup>*\<^sup>* (resetRows staleAfter 200 (claimed1 100 exQueue), [], 200) (rows', [], 200) \<and>
     rows' = upsertRow ''s2'' ''v1'' 200 (resetRows staleAfter 200 (claimed1 100 exQueue)) \<and>
     setScanning 100 (newScan ''s1'' ''v1'' 5) \<in> set rows'"
proof -
  let ?s = "setScanning 100 (newScan ''s1'' ''v1'' 5)" and ?rows = "claimed1 100 exQueue"
  have s: "?s \<in> set ?rows" "msStatus ?s = ''scanning''" "200 - staleAfter \<le> msUpdatedAt ?s" "distinct (map msID ?rows)"
    "msID ?s \<notin> snd ` set ([] :: (nat \<times> string) list)" "''s2'' \<notin> msID ` set (resetRows staleAfter 200 ?rows)" by code_simp+
  have r: "(worker_step ResetNever)\<^sup>*\<^sup>* (resetRows staleAfter 200 ?rows, [], 200)
      (upsertRow ''s2'' ''v1'' 200 (resetRows staleAfter 200 ?rows), [], 200)"
    using worker_step.upsert[OF s(6)] by blast
  from crashed_scan_stuck[OF s(1-5) r] r show ?thesis by blast
qed

text \<open>
  A scan that takes longer than half an hour is done twice: any worker that starts meanwhile resets its row and claims it
  again, while the first worker still scans; the verdict written last wins.
\<close>

theorem slow_scan_claimed_twice:
  "\<exists>rows fl t. (worker_step ResetAnyTime)\<^sup>*\<^sup>* (exQueue, [], 5) (rows, fl, t) \<and> (1, ''s1'') \<in> set fl \<and> (2, ''s1'') \<in> set fl"
proof -
  let ?c = "\<lambda>n now rows. map (\<lambda>s. (n::nat, msID s)) (snd (claimRows (\<lambda>_. 0) (\<lambda>_. False) 2 now rows))"
  let ?t = "6 + staleAfter"
  let ?r1 = "claimed1 5 exQueue" and ?f1 = "[] @ ?c 1 5 exQueue"
  let ?r2 = "resetRows staleAfter ?t ?r1"
  let ?f2 = "?f1 @ ?c 2 ?t ?r2"
  have "worker_step ResetAnyTime (exQueue, [], 5) (?r1, ?f1, 5)" by (rule claim1)
  moreover have "worker_step ResetAnyTime (?r1, ?f1, 5) (?r1, ?f1, ?t)" by (rule worker_step.tick) (simp add: staleAfter_def)
  moreover have "worker_step ResetAnyTime (?r1, ?f1, ?t) (?r2, ?f1, ?t)" by (rule worker_step.reset) simp
  moreover have "worker_step ResetAnyTime (?r2, ?f1, ?t) (claimed1 ?t ?r2, ?f2, ?t)" by (rule claim1)
  ultimately have "(worker_step ResetAnyTime)\<^sup>*\<^sup>* (exQueue, [], 5) (claimed1 ?t ?r2, ?f2, ?t)"
    by (meson converse_rtranclp_into_rtranclp rtranclp.rtrancl_refl)
  moreover have "(1, ''s1'') \<in> set ?f2" "(2, ''s1'') \<in> set ?f2" by code_simp+
  ultimately show ?thesis by blast
qed

text \<open>
  A scanner whose version is not the pinned one is never run: the job then leaves the table alone.
\<close>

theorem scanner_version_pinned:
  assumes "StartJob cfg tie locked started newScanner binVersion w = (out, started', w')"
    "cfgExpectedVersion cfg \<noteq> []" "binVersion \<noteq> Some (cfgExpectedVersion cfg)"
  shows "w' = w \<and> started' = started"
  using assms by (auto simp: StartJob_def split: if_splits option.splits)

end
