(* ===== verification/RegistryDb.thy ===== *)
theory RegistryDb
  imports ScanQueue VersionFilter
begin

text \<open>
  The tables of the registry and their repositories: providers, provider versions, platforms, the tracking rows of
  mirrored versions and the upstream checksums (\<^verbatim>\<open>internal/db/repositories/provider_repository.go\<close>), modules
  and module versions (\<^verbatim>\<open>internal/db/repositories/module_repository.go\<close>), and the storage interface
  (\<^verbatim>\<open>internal/storage/storage.go\<close>) with the local backend as its instance.

  A table is the list of its rows. A query that leaves the order open returns them in the order of the list, and
  every theorem is about all lists.
\<close>

section \<open>Rows\<close>

record Provider =
  pID :: string
  pOrganizationID :: "string option"
  pNamespace :: string
  pType :: string
  pDescription :: "string option"
  pSource :: "string option"
  pCreatedBy :: "string option"
  pCreatedAt :: int
  pUpdatedAt :: int

record ProviderVersion =
  vID :: string
  vProviderID :: string
  vVersion :: string
  vProtocols :: "string list"
  vGPGPublicKey :: string
  vShasumURL :: string
  vShasumSignatureURL :: string
  vShasumStorageKey :: "string option"
  vShasumSignatureStorageKey :: "string option"
  vPublishedBy :: "string option"
  vDeprecated :: bool
  vDeprecatedAt :: "int option"
  vDeprecationMessage :: "string option"
  vCreatedAt :: int

record ProviderPlatform =
  plID :: string
  plProviderVersionID :: string
  plOS :: string
  plArch :: string
  plFilename :: string
  plStoragePath :: string
  plStorageBackend :: string
  plSizeBytes :: int
  plShasum :: string
  plH1Hash :: "string option"
  plDownloadCount :: int

record MirroredProviderVersion =
  mpvProviderVersionID :: string
  mpvApprovalStatus :: "string option"

record ProviderVersionShasum =
  shProviderVersionID :: string
  shFilename :: string
  shSHA256Hex :: string

record Module =
  moID :: string
  moOrganizationID :: string
  moNamespace :: string
  moName :: string
  moSystem :: string
  moDescription :: "string option"
  moSource :: "string option"
  moCreatedBy :: "string option"
  moCreatedAt :: int
  moUpdatedAt :: int
  moDeprecated :: bool
  moDeprecatedAt :: "int option"
  moDeprecationMessage :: "string option"
  moSuccessorModuleID :: "string option"

record ModuleVersion =
  mvID :: string
  mvModuleID :: string
  mvVersion :: string
  mvStoragePath :: string
  mvStorageBackend :: string
  mvSizeBytes :: int
  mvChecksum :: string
  mvReadme :: "string option"
  mvPublishedBy :: "string option"
  mvDownloadCount :: int
  mvDeprecated :: bool
  mvDeprecatedAt :: "int option"
  mvDeprecationMessage :: "string option"
  mvReplacementSource :: "string option"
  mvCreatedAt :: int
  mvCommitSHA :: "string option"
  mvTagName :: "string option"
  mvSCMRepoID :: "string option"

record MirrorConfiguration =
  mcID :: string
  mcUpstreamRegistryURL :: string
  mcOrganizationID :: "string option"
  mcNamespaceFilter :: "string option"
  mcProviderFilter :: "string option"
  mcVersionFilter :: "string option"
  mcEnabled :: bool
  mcRequiresApproval :: bool
  mcPullThroughEnabled :: bool
  mcCreatedAt :: int

text \<open>
  The world of a request: the default organization, the tables, the clock, what the next database calls and the next
  operations on the temporary file do, and the state of the storage backend. \<open>True\<close> in \<open>rwIO\<close> is a failing operation.
\<close>

record 's regworld =
  rwOrg :: "string option"
  rwUsers :: "(string \<times> string) list"
  rwProviders :: "Provider list"
  rwVersions :: "ProviderVersion list"
  rwPlatforms :: "ProviderPlatform list"
  rwMirrored :: "MirroredProviderVersion list"
  rwShasums :: "ProviderVersionShasum list"
  rwMirrors :: "MirrorConfiguration list"
  rwModules :: "Module list"
  rwModuleVersions :: "ModuleVersion list"
  rwDocs :: "(string \<times> string) list"
  rwScans :: "ModuleScan list"
  rwNow :: int
  rwFaults :: "dbfault list"
  rwIO :: "bool list"
  rwStore :: 's

definition rwCall :: "'s regworld \<Rightarrow> dbfault \<times> 's regworld" where
  "rwCall w = (case rwFaults w of [] \<Rightarrow> (DOk, w) | f # fl \<Rightarrow> (f, w\<lparr>rwFaults := fl\<rparr>))"

definition rwQuery :: "('s regworld \<Rightarrow> 'a) \<Rightarrow> 's regworld \<Rightarrow> (string + 'a) \<times> 's regworld" where
  "rwQuery q w = (case rwCall w of (f, w1) \<Rightarrow> (if f = DOk then Inr (q w1) else Inl ''db'', w1))"

text \<open>A statement that the database refuses (a violated constraint) has no effect.\<close>

definition rwExec :: "('s regworld \<Rightarrow> (string + 'a \<times> 's regworld)) \<Rightarrow> 's regworld \<Rightarrow> (string + 'a) \<times> 's regworld" where
  "rwExec u w =
     (case rwCall w of (f, w1) \<Rightarrow>
      if f = DFail then (Inl ''db'', w1)
      else (case u w1 of
              Inl e \<Rightarrow> (Inl e, w1)
            | Inr (x, w2) \<Rightarrow> (if f = DOk then Inr x else Inl ''db'', w2)))"

definition ioFails :: "'s regworld \<Rightarrow> bool \<times> 's regworld" where
  "ioFails w = (case rwIO w of [] \<Rightarrow> (False, w) | b # bl \<Rightarrow> (b, w\<lparr>rwIO := bl\<rparr>))"

section \<open>Storage\<close>

record 's Storage =
  sbUpload :: "string \<Rightarrow> reader \<Rightarrow> nat \<Rightarrow> 's \<Rightarrow> (string + UploadResult) \<times> 's"
  sbDownload :: "string \<Rightarrow> 's \<Rightarrow> (string + reader) \<times> 's"
  sbDelete :: "string \<Rightarrow> 's \<Rightarrow> (string + unit) \<times> 's"
  sbGetURL :: "string \<Rightarrow> 's \<Rightarrow> (string + string) \<times> 's"
  sbExists :: "string \<Rightarrow> 's \<Rightarrow> (string + bool) \<times> 's"
  sbGetMetadata :: "string \<Rightarrow> 's \<Rightarrow> (string + FileMetadata) \<times> 's"

definition onStore :: "('s \<Rightarrow> 'r \<times> 's) \<Rightarrow> 's regworld \<Rightarrow> 'r \<times> 's regworld" where
  "onStore op w = (case op (rwStore w) of (r, s) \<Rightarrow> (r, w\<lparr>rwStore := s\<rparr>))"

text \<open>The local backend; the reader of an opened file fails when the file cannot be read.\<close>

definition localRead :: "LocalStorage \<Rightarrow> string \<Rightarrow> fs \<Rightarrow> (string + reader) \<times> fs" where
  "localRead L p s =
     (case Download L p s of
        (Inl e, s1) \<Rightarrow> (Inl e, s1)
      | (Inr n, s1) \<Rightarrow> (case readAll n s1 of (Inl _, s2) \<Rightarrow> (Inr ([], True), s2) | (Inr d, s2) \<Rightarrow> (Inr (d, False), s2)))"

definition localBackend :: "(string \<Rightarrow> string) \<Rightarrow> LocalStorage \<Rightarrow> fs Storage" where
  "localBackend sha L =
     \<lparr>sbUpload = (\<lambda>p rd n. Upload sha L p rd), sbDownload = localRead L, sbDelete = Delete L, sbGetURL = GetURL L,
      sbExists = Exists L, sbGetMetadata = GetMetadata sha L\<rparr>"

section \<open>provider\_repository.go\<close>

definition GetDefaultOrganization :: "'s regworld \<Rightarrow> (string + string option) \<times> 's regworld" where
  "GetDefaultOrganization = rwQuery rwOrg"

text \<open>\<open>newID\<close> is the generator of row ids, given the ids that are taken.\<close>

definition providerKey :: "Provider \<Rightarrow> string option \<times> string \<times> string" where
  "providerKey p = (pOrganizationID p, pNamespace p, pType p)"

definition CreateProvider ::
  "(string list \<Rightarrow> string) \<Rightarrow> Provider \<Rightarrow> 's regworld \<Rightarrow> (string + Provider) \<times> 's regworld" where
  "CreateProvider newID p =
     rwExec (\<lambda>w.
       if pOrganizationID p \<noteq> None \<and> list_ex (\<lambda>q. providerKey q = providerKey p) (rwProviders w) then Inl ''unique''
       else let p' = p\<lparr>pID := newID (map pID (rwProviders w)), pCreatedAt := rwNow w, pUpdatedAt := rwNow w\<rparr>
            in Inr (p', w\<lparr>rwProviders := rwProviders w @ [p']\<rparr>))"

definition GetProviderByID :: "string \<Rightarrow> 's regworld \<Rightarrow> (string + Provider option) \<times> 's regworld" where
  "GetProviderByID i = rwQuery (\<lambda>w. find (\<lambda>p. pID p = i) (rwProviders w))"

definition providerRows :: "string \<Rightarrow> string \<Rightarrow> string \<Rightarrow> 's regworld \<Rightarrow> Provider list" where
  "providerRows org ns ty w =
     (let rows = sort_key (\<lambda>p. - pCreatedAt p) (filter (\<lambda>p. pNamespace p = ns \<and> pType p = ty) (rwProviders w))
      in filter (\<lambda>p. pOrganizationID p = Some org) rows @ filter (\<lambda>p. pOrganizationID p = None) rows)"

definition firstRow :: "'a list \<Rightarrow> 'a option" where
  "firstRow xs = (case xs of [] \<Rightarrow> None | x # _ \<Rightarrow> Some x)"

text \<open>The empty string is no UUID, so the database refuses it as an organization.\<close>

definition GetProvider :: "string \<Rightarrow> string \<Rightarrow> string \<Rightarrow> 's regworld \<Rightarrow> (string + Provider option) \<times> 's regworld" where
  "GetProvider org ns ty w =
     (if org = '''' then (Inl ''invalid input syntax for type uuid'', snd (rwCall w))
      else rwQuery (\<lambda>w. firstRow (providerRows org ns ty w)) w)"

definition GetProviderByNamespaceType ::
  "string \<Rightarrow> string \<Rightarrow> string \<Rightarrow> 's regworld \<Rightarrow> (string + Provider option) \<times> 's regworld" where
  "GetProviderByNamespaceType org ns ty =
     rwQuery (\<lambda>w. if org \<noteq> '''' then find (\<lambda>p. pOrganizationID p = Some org \<and> pNamespace p = ns \<and> pType p = ty) (rwProviders w)
                   else find (\<lambda>p. pNamespace p = ns \<and> pType p = ty) (rwProviders w))"

text \<open>\<^verbatim>\<open>QueryRow\<close> of an update: no updated row is an error.\<close>

definition UpdateProvider :: "Provider \<Rightarrow> 's regworld \<Rightarrow> (string + unit) \<times> 's regworld" where
  "UpdateProvider p =
     rwExec (\<lambda>w.
       if \<not> list_ex (\<lambda>q. pID q = pID p) (rwProviders w) then Inl ''no rows''
       else Inr ((), w\<lparr>rwProviders := map (\<lambda>q. if pID q = pID p
                   then q\<lparr>pDescription := pDescription p, pSource := pSource p, pUpdatedAt := rwNow w\<rparr> else q) (rwProviders w)\<rparr>))"

definition CreateVersion ::
  "(string list \<Rightarrow> string) \<Rightarrow> ProviderVersion \<Rightarrow> 's regworld \<Rightarrow> (string + ProviderVersion) \<times> 's regworld" where
  "CreateVersion newID v =
     rwExec (\<lambda>w.
       if list_ex (\<lambda>u. vProviderID u = vProviderID v \<and> vVersion u = vVersion v) (rwVersions w) then Inl ''unique''
       else if \<not> list_ex (\<lambda>p. pID p = vProviderID v) (rwProviders w) then Inl ''foreign key''
       else let v' = v\<lparr>vID := newID (map vID (rwVersions w)), vDeprecated := False, vDeprecatedAt := None,
                       vDeprecationMessage := None, vCreatedAt := rwNow w\<rparr>
            in Inr (v', w\<lparr>rwVersions := rwVersions w @ [v']\<rparr>))"

definition GetVersion :: "string \<Rightarrow> string \<Rightarrow> 's regworld \<Rightarrow> (string + ProviderVersion option) \<times> 's regworld" where
  "GetVersion prov ver = rwQuery (\<lambda>w. find (\<lambda>v. vProviderID v = prov \<and> vVersion v = ver) (rwVersions w))"

definition GetVersionApprovalStatus :: "string \<Rightarrow> 's regworld \<Rightarrow> (string + string option) \<times> 's regworld" where
  "GetVersionApprovalStatus vid =
     rwQuery (\<lambda>w. case find (\<lambda>m. mpvProviderVersionID m = vid) (rwMirrored w) of
                     None \<Rightarrow> None | Some m \<Rightarrow> mpvApprovalStatus m)"

definition approvalExclusionClause :: "'s regworld \<Rightarrow> ProviderVersion \<Rightarrow> bool" where
  "approvalExclusionClause w pv =
     (\<not> list_ex (\<lambda>m. mpvProviderVersionID m = vID pv \<and>
                    (mpvApprovalStatus m = Some ''pending_approval'' \<or> mpvApprovalStatus m = Some ''rejected'')) (rwMirrored w))"

text \<open>\<open>srt\<close> is what \<^verbatim>\<open>sort.Slice\<close> makes of the rows.\<close>

definition listVersions ::
  "(ProviderVersion list \<Rightarrow> ProviderVersion list) \<Rightarrow> string \<Rightarrow> bool \<Rightarrow> 's regworld \<Rightarrow> (string + ProviderVersion list) \<times> 's regworld" where
  "listVersions srt prov onlyVisible =
     rwQuery (\<lambda>w. srt (filter (\<lambda>v. vProviderID v = prov \<and> (\<not> onlyVisible \<or> approvalExclusionClause w v)) (rwVersions w)))"

definition ListVersions ::
  "(ProviderVersion list \<Rightarrow> ProviderVersion list) \<Rightarrow> string \<Rightarrow> 's regworld \<Rightarrow> (string + ProviderVersion list) \<times> 's regworld" where
  "ListVersions srt prov = listVersions srt prov False"

definition ListVisibleVersions ::
  "(ProviderVersion list \<Rightarrow> ProviderVersion list) \<Rightarrow> string \<Rightarrow> 's regworld \<Rightarrow> (string + ProviderVersion list) \<times> 's regworld" where
  "ListVisibleVersions srt prov = listVersions srt prov True"

definition visibleVersions :: "string \<Rightarrow> 's regworld \<Rightarrow> ProviderVersion list" where
  "visibleVersions prov w = filter (\<lambda>v. vProviderID v = prov \<and> approvalExclusionClause w v) (rwVersions w)"

definition page :: "int \<Rightarrow> int \<Rightarrow> 'a list \<Rightarrow> 'a list" where
  "page limit offset xs = take (nat limit) (drop (nat offset) xs)"

definition ListVersionsPaginated ::
  "string \<Rightarrow> int \<Rightarrow> int \<Rightarrow> 's regworld \<Rightarrow> (string + ProviderVersion list \<times> nat) \<times> 's regworld" where
  "ListVersionsPaginated prov limit offset w =
     (case rwQuery (\<lambda>w. length (visibleVersions prov w)) w of
        (Inl e, w1) \<Rightarrow> (Inl e, w1)
      | (Inr n, w1) \<Rightarrow>
          (case rwQuery (\<lambda>w. page limit offset (sort_key (\<lambda>v. - vCreatedAt v) (visibleVersions prov w))) w1 of
             (Inl e, w2) \<Rightarrow> (Inl e, w2)
           | (Inr vs, w2) \<Rightarrow> (Inr (vs, n), w2)))"

definition onVersion ::
  "string \<Rightarrow> ('s regworld \<Rightarrow> ProviderVersion \<Rightarrow> ProviderVersion) \<Rightarrow> 's regworld \<Rightarrow> (string + nat) \<times> 's regworld" where
  "onVersion i f =
     rwExec (\<lambda>w. Inr (length (filter (\<lambda>v. vID v = i) (rwVersions w)),
                      w\<lparr>rwVersions := map (\<lambda>v. if vID v = i then f w v else v) (rwVersions w)\<rparr>))"

definition affectedOne :: "(string + nat) \<times> 's regworld \<Rightarrow> (string + unit) \<times> 's regworld" where
  "affectedOne r =
     (case r of (Inl e, w) \<Rightarrow> (Inl e, w) | (Inr n, w) \<Rightarrow> if n = 0 then (Inl ''not found'', w) else (Inr (), w))"

definition DeprecateVersion :: "string \<Rightarrow> string option \<Rightarrow> 's regworld \<Rightarrow> (string + unit) \<times> 's regworld" where
  "DeprecateVersion i msg w =
     affectedOne (onVersion i (\<lambda>w v. v\<lparr>vDeprecated := True, vDeprecatedAt := Some (rwNow w), vDeprecationMessage := msg\<rparr>) w)"

definition UndeprecateVersion :: "string \<Rightarrow> 's regworld \<Rightarrow> (string + unit) \<times> 's regworld" where
  "UndeprecateVersion i w =
     affectedOne (onVersion i (\<lambda>w v. v\<lparr>vDeprecated := False, vDeprecatedAt := None, vDeprecationMessage := None\<rparr>) w)"

definition coalesce :: "'a option \<Rightarrow> 'a option \<Rightarrow> 'a option" where
  "coalesce a b = (case a of Some x \<Rightarrow> Some x | None \<Rightarrow> b)"

definition UpdateVersionSignatureStorage ::
  "string \<Rightarrow> string option \<Rightarrow> string option \<Rightarrow> 's regworld \<Rightarrow> (string + unit) \<times> 's regworld" where
  "UpdateVersionSignatureStorage i sums sig w =
     apfst (map_sum id (\<lambda>_. ()))
       (onVersion i (\<lambda>w v. v\<lparr>vShasumStorageKey := coalesce sums (vShasumStorageKey v),
                             vShasumSignatureStorageKey := coalesce sig (vShasumSignatureStorageKey v)\<rparr>) w)"

definition UpdateVersionGPGKey :: "string \<Rightarrow> string \<Rightarrow> 's regworld \<Rightarrow> (string + unit) \<times> 's regworld" where
  "UpdateVersionGPGKey i key w =
     apfst (map_sum id (\<lambda>_. ())) (onVersion i (\<lambda>w v. v\<lparr>vGPGPublicKey := key\<rparr>) w)"

text \<open>Deleting a row deletes the rows that refer to it.\<close>

definition dropVersions :: "string list \<Rightarrow> 's regworld \<Rightarrow> 's regworld" where
  "dropVersions ids w =
     w\<lparr>rwVersions := filter (\<lambda>v. vID v \<notin> set ids) (rwVersions w),
       rwPlatforms := filter (\<lambda>p. plProviderVersionID p \<notin> set ids) (rwPlatforms w),
       rwMirrored := filter (\<lambda>m. mpvProviderVersionID m \<notin> set ids) (rwMirrored w),
       rwShasums := filter (\<lambda>s. shProviderVersionID s \<notin> set ids) (rwShasums w)\<rparr>"

definition DeleteVersion :: "string \<Rightarrow> 's regworld \<Rightarrow> (string + unit) \<times> 's regworld" where
  "DeleteVersion i w =
     affectedOne (rwExec (\<lambda>w. Inr (length (filter (\<lambda>v. vID v = i) (rwVersions w)), dropVersions [i] w)) w)"

definition DeleteProvider :: "string \<Rightarrow> 's regworld \<Rightarrow> (string + unit) \<times> 's regworld" where
  "DeleteProvider i w =
     affectedOne (rwExec (\<lambda>w.
       Inr (length (filter (\<lambda>p. pID p = i) (rwProviders w)),
            dropVersions (map vID (filter (\<lambda>v. vProviderID v = i) (rwVersions w)))
              (w\<lparr>rwProviders := filter (\<lambda>p. pID p \<noteq> i) (rwProviders w)\<rparr>))) w)"

definition CreatePlatform ::
  "(string list \<Rightarrow> string) \<Rightarrow> ProviderPlatform \<Rightarrow> 's regworld \<Rightarrow> (string + ProviderPlatform) \<times> 's regworld" where
  "CreatePlatform newID p =
     rwExec (\<lambda>w.
       if list_ex (\<lambda>q. plProviderVersionID q = plProviderVersionID p \<and> plOS q = plOS p \<and> plArch q = plArch p) (rwPlatforms w)
       then Inl ''unique''
       else if \<not> list_ex (\<lambda>v. vID v = plProviderVersionID p) (rwVersions w) then Inl ''foreign key''
       else let p' = p\<lparr>plID := newID (map plID (rwPlatforms w)), plDownloadCount := 0\<rparr>
            in Inr (p', w\<lparr>rwPlatforms := rwPlatforms w @ [p']\<rparr>))"

definition GetPlatform :: "string \<Rightarrow> string \<Rightarrow> string \<Rightarrow> 's regworld \<Rightarrow> (string + ProviderPlatform option) \<times> 's regworld" where
  "GetPlatform vid os arch =
     rwQuery (\<lambda>w. find (\<lambda>p. plProviderVersionID p = vid \<and> plOS p = os \<and> plArch p = arch) (rwPlatforms w))"

text \<open>The order by system and architecture is \<open>ord\<close>.\<close>

definition ListPlatforms ::
  "(ProviderPlatform list \<Rightarrow> ProviderPlatform list) \<Rightarrow> string \<Rightarrow> 's regworld \<Rightarrow> (string + ProviderPlatform list) \<times> 's regworld" where
  "ListPlatforms ord vid = rwQuery (\<lambda>w. ord (filter (\<lambda>p. plProviderVersionID p = vid) (rwPlatforms w)))"

definition IncrementDownloadCount :: "string \<Rightarrow> 's regworld \<Rightarrow> (string + unit) \<times> 's regworld" where
  "IncrementDownloadCount i =
     rwExec (\<lambda>w. Inr ((), w\<lparr>rwPlatforms := map (\<lambda>p. if plID p = i then p\<lparr>plDownloadCount := plDownloadCount p + 1\<rparr> else p)
                                        (rwPlatforms w)\<rparr>))"

definition DeletePlatform :: "string \<Rightarrow> 's regworld \<Rightarrow> (string + unit) \<times> 's regworld" where
  "DeletePlatform i w =
     affectedOne (rwExec (\<lambda>w. Inr (length (filter (\<lambda>p. plID p = i) (rwPlatforms w)),
                                   w\<lparr>rwPlatforms := filter (\<lambda>p. plID p \<noteq> i) (rwPlatforms w)\<rparr>)) w)"

definition setShasum :: "string \<Rightarrow> string \<times> string \<Rightarrow> ProviderVersionShasum list \<Rightarrow> ProviderVersionShasum list" where
  "setShasum vid e rows =
     (if list_ex (\<lambda>s. shProviderVersionID s = vid \<and> shFilename s = fst e) rows
      then map (\<lambda>s. if shProviderVersionID s = vid \<and> shFilename s = fst e then s\<lparr>shSHA256Hex := snd e\<rparr> else s) rows
      else rows @ [\<lparr>shProviderVersionID = vid, shFilename = fst e, shSHA256Hex = snd e\<rparr>])"

text \<open>One transaction: its effect is that of all statements or of none.\<close>

definition UpsertProviderVersionShasums :: "string \<Rightarrow> (string \<times> string) list \<Rightarrow> 's regworld \<Rightarrow> (string + unit) \<times> 's regworld" where
  "UpsertProviderVersionShasums vid sums w =
     (if sums = [] then (Inr (), w)
      else rwExec (\<lambda>w.
             if \<not> list_ex (\<lambda>v. vID v = vid) (rwVersions w) then Inl ''foreign key''
             else Inr ((), w\<lparr>rwShasums := fold (setShasum vid) sums (rwShasums w)\<rparr>)) w)"

definition ListProviderVersionShasums ::
  "(ProviderVersionShasum list \<Rightarrow> ProviderVersionShasum list) \<Rightarrow> string \<Rightarrow> 's regworld \<Rightarrow>
   (string + ProviderVersionShasum list) \<times> 's regworld" where
  "ListProviderVersionShasums ord vid = rwQuery (\<lambda>w. ord (filter (\<lambda>s. shProviderVersionID s = vid) (rwShasums w)))"

definition newProvider :: "string \<Rightarrow> string \<Rightarrow> string \<Rightarrow> Provider" where
  "newProvider org ns ty =
     \<lparr>pID = '''', pOrganizationID = (if org = '''' then None else Some org), pNamespace = ns, pType = ty,
      pDescription = None, pSource = None, pCreatedBy = None, pCreatedAt = 0, pUpdatedAt = 0\<rparr>"

definition newProviderVersion :: "string \<Rightarrow> string \<Rightarrow> string list \<Rightarrow> string \<Rightarrow> ProviderVersion" where
  "newProviderVersion prov ver protos key =
     \<lparr>vID = '''', vProviderID = prov, vVersion = ver, vProtocols = protos, vGPGPublicKey = key, vShasumURL = '''',
      vShasumSignatureURL = '''', vShasumStorageKey = None, vShasumSignatureStorageKey = None, vPublishedBy = None,
      vDeprecated = False, vDeprecatedAt = None, vDeprecationMessage = None, vCreatedAt = 0\<rparr>"

definition UpsertProvider ::
  "(string list \<Rightarrow> string) \<Rightarrow> string \<Rightarrow> string \<Rightarrow> string \<Rightarrow> 's regworld \<Rightarrow> (string + Provider) \<times> 's regworld" where
  "UpsertProvider newID org ns ty w =
     (case GetProvider org ns ty w of
        (Inl e, w1) \<Rightarrow> (Inl e, w1)
      | (Inr (Some p), w1) \<Rightarrow> (Inr p, w1)
      | (Inr None, w1) \<Rightarrow>
          CreateProvider newID ((newProvider org ns ty)\<lparr>pDescription := Some ''Pull-through cached provider''\<rparr>) w1)"

definition UpsertVersion ::
  "(string list \<Rightarrow> string) \<Rightarrow> string \<Rightarrow> string \<Rightarrow> string list \<Rightarrow> string \<Rightarrow> string \<Rightarrow> string \<Rightarrow> 's regworld \<Rightarrow>
   (string + ProviderVersion) \<times> 's regworld" where
  "UpsertVersion newID prov ver protos sumsURL sigURL key w =
     (case GetVersion prov ver w of
        (Inl e, w1) \<Rightarrow> (Inl e, w1)
      | (Inr (Some v), w1) \<Rightarrow> (Inr v, w1)
      | (Inr None, w1) \<Rightarrow>
          CreateVersion newID ((newProviderVersion prov ver protos key)\<lparr>vShasumURL := sumsURL, vShasumSignatureURL := sigURL\<rparr>) w1)"

section \<open>mirror\_repository.go: the configurations of the pull-through cache\<close>

text \<open>\<open>jsonStrings\<close> is \<^verbatim>\<open>json.Unmarshal\<close> into a slice of strings.\<close>

definition matchesJSONFilter :: "(string \<Rightarrow> string list option) \<Rightarrow> string option \<Rightarrow> string \<Rightarrow> bool" where
  "matchesJSONFilter jsonStrings flt v =
     (case flt of
        None \<Rightarrow> True
      | Some f \<Rightarrow>
          if f = '''' then True
          else if \<not> contains f v then False
          else (case jsonStrings f of None \<Rightarrow> True | Some vs \<Rightarrow> v \<in> set vs))"

definition specificity :: "MirrorConfiguration \<Rightarrow> int" where
  "specificity c =
     (if mcProviderFilter c \<noteq> None \<and> mcProviderFilter c \<noteq> Some '''' then 2 else 0) +
     (if mcNamespaceFilter c \<noteq> None \<and> mcNamespaceFilter c \<noteq> Some '''' then 1 else 0)"

text \<open>The insertion sort keeps the order among equals.\<close>

definition GetPullThroughConfigsForProvider ::
  "(string \<Rightarrow> string list option) \<Rightarrow> string \<Rightarrow> string \<Rightarrow> string \<Rightarrow> 's regworld \<Rightarrow> (string + MirrorConfiguration list) \<times> 's regworld" where
  "GetPullThroughConfigsForProvider jsonStrings org ns ty =
     rwQuery (\<lambda>w.
       sort_key (\<lambda>c. - specificity c)
         (filter (\<lambda>c. matchesJSONFilter jsonStrings (mcNamespaceFilter c) ns \<and> matchesJSONFilter jsonStrings (mcProviderFilter c) ty)
            (sort_key mcCreatedAt
               (filter (\<lambda>c. mcOrganizationID c = Some org \<and> mcEnabled c \<and> mcPullThroughEnabled c) (rwMirrors w)))))"

end
