(* ===== verification/ProviderRegistry.thy ===== *)
theory ProviderRegistry
  imports RegistryDb Validation "HOL-Library.AList"
begin

text \<open>
  The provider side of the registry: the upload handler with its signature files
  (\<^verbatim>\<open>internal/api/providers/upload.go\<close>), the listing and download endpoints of the provider protocol
  (\<^verbatim>\<open>versions.go\<close>, \<^verbatim>\<open>download.go\<close>), the network mirror protocol (\<^verbatim>\<open>internal/api/mirror\<close>) with the
  pull-through cache (\<^verbatim>\<open>internal/services/pull_through.go\<close>), direct file serving
  (\<^verbatim>\<open>internal/api/modules/serve.go\<close>) and the administration of providers
  (\<^verbatim>\<open>internal/api/admin/providers.go\<close>). OpenPGP, SHA-256, the zip reader, JSON decoding, the version parser of
  go-version, the upstream registry and the storage backend are parameters. The detached download counters run at once;
  audit records and metrics are left out.
\<close>

section \<open>The environment\<close>

record UpVersion =
  upVersion :: string
  upProtocols :: "string list"
  upPlatforms :: "(string \<times> string) list"

record UpPackage =
  upSHASumsURL :: string
  upSHASumsSignatureURL :: string
  upKeys :: "string list"

record upstream =
  upList :: "string \<Rightarrow> string \<Rightarrow> string \<Rightarrow> string + UpVersion list"
  upPackage :: "string \<Rightarrow> string \<Rightarrow> string \<Rightarrow> string \<Rightarrow> string \<Rightarrow> string \<Rightarrow> string + UpPackage"
  upFile :: "string \<Rightarrow> string \<Rightarrow> string + string"
  upSort :: "UpVersion list \<Rightarrow> UpVersion list"

record 's regenv =
  reNewID :: "string list \<Rightarrow> string"
  reSort :: "ProviderVersion list \<Rightarrow> ProviderVersion list"
  rePlatformOrd :: "ProviderPlatform list \<Rightarrow> ProviderPlatform list"
  reShasumOrd :: "ProviderVersionShasum list \<Rightarrow> ProviderVersionShasum list"
  reSemver :: "string \<Rightarrow> bool"
  reJSON :: "string \<Rightarrow> string list option"
  reSha :: "string \<Rightarrow> string"
  reHashZip :: "string \<Rightarrow> string option"
  reKeyRing :: "string \<Rightarrow> bool"
  reArmorDecode :: "string \<Rightarrow> reader option"
  reCheckDetached :: "string \<Rightarrow> string \<Rightarrow> string \<Rightarrow> bool"
  reResolveKey :: "string \<Rightarrow> string"
  reKeyID :: "string \<Rightarrow> string"
  reBackend :: "'s Storage"
  reStorageReady :: bool
  rePullThrough :: bool
  reUpstream :: upstream
  reDefaultBackend :: string
  reServeDirectly :: bool

record PlatformJSON =
  pjID :: string
  pjOS :: string
  pjArch :: string
  pjFilename :: string
  pjShasum :: string
  pjDownloadCount :: int

record VersionJSON =
  vjID :: string
  vjVersion :: string
  vjProtocols :: "string list"
  vjPlatforms :: "PlatformJSON list"
  vjPublishedAt :: int
  vjDeprecated :: bool
  vjDownloadCount :: int
  vjDeprecatedAt :: "int option"
  vjDeprecationMessage :: "string option"
  vjPublishedBy :: "string option"
  vjPublishedByName :: "string option"

record DownloadJSON =
  djProtocols :: "string list"
  djOS :: string
  djArch :: string
  djFilename :: string
  djDownloadURL :: string
  djShasumsURL :: string
  djShasumsSignatureURL :: string
  djShasum :: string
  djGPGPublicKeys :: "(string \<times> string) list"

datatype response =
    RError nat string
  | RVersions "VersionJSON list" nat int int
  | RDownload DownloadJSON
  | RIndex "string set"
  | RArchives "string \<rightharpoonup> string \<times> string list"
  | RFile string nat reader
  | RCreated Provider ProviderVersion ProviderPlatform
  | RProvider Provider "VersionJSON list"
  | RDone string

fun respStatus :: "response \<Rightarrow> nat" where
  "respStatus (RError n _) = n"
| "respStatus (RCreated _ _ _) = 201"
| "respStatus _ = 200"

section \<open>Listing versions\<close>

text \<open>\<^verbatim>\<open>strconv.Atoi\<close> of the query parameter or its default, its error dropped, then clamped.\<close>

definition clampLimit :: "string option \<Rightarrow> int" where
  "clampLimit q =
     (let l = fst (atoi (case q of None \<Rightarrow> ''100'' | Some s \<Rightarrow> s));
          l1 = (if l > 1000 then 1000 else l)
      in if l1 < 1 then 1 else l1)"

definition clampOffset :: "string option \<Rightarrow> int" where
  "clampOffset q = (let o1 = fst (atoi (case q of None \<Rightarrow> ''0'' | Some s \<Rightarrow> s)) in if o1 < 0 then 0 else o1)"

definition platformJSON :: "ProviderPlatform \<Rightarrow> PlatformJSON" where
  "platformJSON p =
     \<lparr>pjID = plID p, pjOS = plOS p, pjArch = plArch p, pjFilename = plFilename p, pjShasum = plShasum p,
      pjDownloadCount = plDownloadCount p\<rparr>"

definition versionJSON :: "(string \<times> string) list \<Rightarrow> ProviderVersion \<Rightarrow> ProviderPlatform list \<Rightarrow> VersionJSON" where
  "versionJSON users v ps =
     \<lparr>vjID = vID v, vjVersion = vVersion v, vjProtocols = vProtocols v, vjPlatforms = map platformJSON ps,
      vjPublishedAt = vCreatedAt v, vjDeprecated = vDeprecated v, vjDownloadCount = sum_list (map plDownloadCount ps),
      vjDeprecatedAt = vDeprecatedAt v, vjDeprecationMessage = vDeprecationMessage v, vjPublishedBy = vPublishedBy v,
      vjPublishedByName = (case vPublishedBy v of None \<Rightarrow> None | Some u \<Rightarrow> map_of users u)\<rparr>"

fun versionsJSON ::
  "'s regenv \<Rightarrow> ProviderVersion list \<Rightarrow> 's regworld \<Rightarrow> (string + VersionJSON list) \<times> 's regworld" where
  "versionsJSON E [] w = (Inr [], w)"
| "versionsJSON E (v # vs) w =
     (case ListPlatforms (rePlatformOrd E) (vID v) w of
        (Inl e, w1) \<Rightarrow> (Inl e, w1)
      | (Inr ps, w1) \<Rightarrow>
          (case versionsJSON E vs w1 of
             (Inl e, w2) \<Rightarrow> (Inl e, w2)
           | (Inr js, w2) \<Rightarrow> (Inr (versionJSON (rwUsers w1) v ps # js), w2)))"

text \<open>The lookups the endpoints share: the default organization, the provider, the version.\<close>

definition withOrg ::
  "(string \<Rightarrow> 's regworld \<Rightarrow> response \<times> 's regworld) \<Rightarrow> 's regworld \<Rightarrow> response \<times> 's regworld" where
  "withOrg k w =
     (case GetDefaultOrganization w of
        (Inl e, w1) \<Rightarrow> (RError 500 ''Failed to get organization context'', w1)
      | (Inr None, w1) \<Rightarrow> (RError 500 ''Default organization not found'', w1)
      | (Inr (Some org), w1) \<Rightarrow> k org w1)"

definition withProvider ::
  "string \<Rightarrow> string \<Rightarrow> string \<Rightarrow> (Provider option \<Rightarrow> 's regworld \<Rightarrow> response \<times> 's regworld) \<Rightarrow> 's regworld \<Rightarrow> response \<times> 's regworld" where
  "withProvider org ns ty k w =
     (case GetProvider org ns ty w of
        (Inl e, w1) \<Rightarrow> (RError 500 ''Failed to query provider'', w1)
      | (Inr p, w1) \<Rightarrow> k p w1)"

definition withVersion ::
  "string \<Rightarrow> string \<Rightarrow> (ProviderVersion option \<Rightarrow> 's regworld \<Rightarrow> response \<times> 's regworld) \<Rightarrow> 's regworld \<Rightarrow> response \<times> 's regworld" where
  "withVersion prov ver k w =
     (case GetVersion prov ver w of
        (Inl e, w1) \<Rightarrow> (RError 500 ''Failed to query provider version'', w1)
      | (Inr v, w1) \<Rightarrow> k v w1)"

definition listAnswer :: "'s regenv \<Rightarrow> int \<Rightarrow> int \<Rightarrow> Provider \<Rightarrow> 's regworld \<Rightarrow> response \<times> 's regworld" where
  "listAnswer E limit offset p w =
     (case ListVersionsPaginated (pID p) limit offset w of
        (Inl e, w1) \<Rightarrow> (RError 500 ''Failed to list provider versions'', w1)
      | (Inr (vs, n), w1) \<Rightarrow>
          (case versionsJSON E vs w1 of
             (Inl e, w2) \<Rightarrow> (RError 500 ''Failed to list provider platforms'', w2)
           | (Inr js, w2) \<Rightarrow> (RVersions js n limit offset, w2)))"

definition ListVersionsHandler ::
  "'s regenv \<Rightarrow> string \<Rightarrow> string \<Rightarrow> string option \<Rightarrow> string option \<Rightarrow> 's regworld \<Rightarrow> response \<times> 's regworld" where
  "ListVersionsHandler E ns ty limitQ offsetQ =
     withOrg (\<lambda>org. withProvider org ns ty (\<lambda>prov w.
       case prov of
         None \<Rightarrow> (RError 404 ''Provider not found'', w)
       | Some p \<Rightarrow> listAnswer E (clampLimit limitQ) (clampOffset offsetQ) p w))"

section \<open>Downloading\<close>

definition gateClosed :: "string option \<Rightarrow> bool" where
  "gateClosed status = (status \<noteq> None \<and> status \<noteq> Some ''approved'')"

definition sumsURL :: "'s regenv \<Rightarrow> string option \<Rightarrow> string \<Rightarrow> 's regworld \<Rightarrow> string \<times> 's regworld" where
  "sumsURL E key ext w =
     (case key of
        Some k \<Rightarrow>
          if k \<noteq> '''' then
            (case onStore (sbGetURL (reBackend E) k) w of (Inr url, w1) \<Rightarrow> (url, w1) | (Inl _, w1) \<Rightarrow> ('''', w1))
          else (ext, w)
      | None \<Rightarrow> (ext, w))"

definition gpgPublicKeys :: "'s regenv \<Rightarrow> string \<Rightarrow> (string \<times> string) list" where
  "gpgPublicKeys E key = (if key = '''' then [] else [(reKeyID E (reResolveKey E key), reResolveKey E key)])"

text \<open>From the gate on; the earlier checks follow.\<close>

definition downloadVersion ::
  "'s regenv \<Rightarrow> string \<Rightarrow> string \<Rightarrow> ProviderVersion \<Rightarrow> 's regworld \<Rightarrow> response \<times> 's regworld" where
  "downloadVersion E os arch v w =
     (case GetVersionApprovalStatus (vID v) w of
        (Inl e, w1) \<Rightarrow> (RError 500 ''Failed to query provider version'', w1)
      | (Inr status, w1) \<Rightarrow>
          if gateClosed status then (RError 404 ''Provider version not found'', w1)
          else
            (case GetPlatform (vID v) os arch w1 of
               (Inl e, w2) \<Rightarrow> (RError 500 ''Failed to query provider platform'', w2)
             | (Inr None, w2) \<Rightarrow> (RError 404 ''Provider platform not found'', w2)
             | (Inr (Some pl), w2) \<Rightarrow>
                 (case onStore (sbGetURL (reBackend E) (plStoragePath pl)) w2 of
                    (Inl e, w3) \<Rightarrow> (RError 500 ''Failed to generate download URL'', w3)
                  | (Inr url, w3) \<Rightarrow>
                      (case sumsURL E (vShasumStorageKey v) (vShasumURL v) w3 of (sums, w4) \<Rightarrow>
                       (case sumsURL E (vShasumSignatureStorageKey v) (vShasumSignatureURL v) w4 of (sig, w5) \<Rightarrow>
                        (RDownload \<lparr>djProtocols = vProtocols v, djOS = plOS pl, djArch = plArch pl,
                           djFilename = plFilename pl, djDownloadURL = url, djShasumsURL = sums,
                           djShasumsSignatureURL = sig, djShasum = plShasum pl,
                           djGPGPublicKeys = gpgPublicKeys E (vGPGPublicKey v)\<rparr>,
                         snd (IncrementDownloadCount (plID pl) w5)))))))"

definition DownloadHandler ::
  "'s regenv \<Rightarrow> string \<Rightarrow> string \<Rightarrow> string \<Rightarrow> string \<Rightarrow> string \<Rightarrow> 's regworld \<Rightarrow> response \<times> 's regworld" where
  "DownloadHandler E ns ty ver os arch w0 =
     (if \<not> reSemver E ver then (RError 400 ''Invalid version format'', w0)
      else (case ValidatePlatform os arch of
              Inl e \<Rightarrow> (RError 400 e, w0)
            | Inr _ \<Rightarrow>
                withOrg (\<lambda>org. withProvider org ns ty (\<lambda>prov w.
                  case prov of
                    None \<Rightarrow> (RError 404 ''Provider not found'', w)
                  | Some p \<Rightarrow>
                      withVersion (pID p) ver (\<lambda>version w.
                        case version of
                          None \<Rightarrow> (RError 404 ''Provider version not found'', w)
                        | Some v \<Rightarrow> downloadVersion E os arch v w) w)) w0))"

section \<open>The pull-through cache\<close>

text \<open>\<^verbatim>\<open>strings.SplitN(line, \"  \", 2)\<close>: the two sides of the first double space.\<close>

fun splitTwoSpaces :: "string \<Rightarrow> (string \<times> string) option" where
  "splitTwoSpaces (a # b # s) =
     (if a = CHR '' '' \<and> b = CHR '' '' then Some ([], s)
      else map_option (\<lambda>(x, y). (a # x, y)) (splitTwoSpaces (b # s)))"
| "splitTwoSpaces _ = None"

text \<open>The map as a list with one entry per file name, the last line of a name deciding.\<close>

definition parseSHASUMContent :: "string \<Rightarrow> (string \<times> string) list" where
  "parseSHASUMContent c =
     fold (\<lambda>line m.
       case splitTwoSpaces (trimSpace line) of None \<Rightarrow> m | Some (h, f) \<Rightarrow> AList.update f h m)
       (splitOn (CHR 0x0A) c) []"

definition fetchAndStoreShasums ::
  "'s regenv \<Rightarrow> string \<Rightarrow> string \<Rightarrow> string \<Rightarrow> 's regworld \<Rightarrow> (string + unit) \<times> 's regworld" where
  "fetchAndStoreShasums E base vid url w =
     (case upFile (reUpstream E) base url of
        Inl e \<Rightarrow> (Inl e, w)
      | Inr d \<Rightarrow>
          if parseSHASUMContent d = [] then (Inr (), w)
          else UpsertProviderVersionShasums vid (parseSHASUMContent d) w)"

fun pullVersions ::
  "'s regenv \<Rightarrow> string \<Rightarrow> string \<Rightarrow> string \<Rightarrow> Provider \<Rightarrow> UpVersion list \<Rightarrow> 's regworld \<Rightarrow> string list \<times> 's regworld" where
  "pullVersions E base ns ty p [] w = ([], w)"
| "pullVersions E base ns ty p (v # vs) w =
     (case upPlatforms v of
        [] \<Rightarrow> pullVersions E base ns ty p vs w
      | (os, arch) # _ \<Rightarrow>
          (case upPackage (reUpstream E) base ns ty (upVersion v) os arch of
             Inl e \<Rightarrow> pullVersions E base ns ty p vs w
           | Inr pkg \<Rightarrow>
               (case UpsertVersion (reNewID E) (pID p) (upVersion v) (upProtocols v) (upSHASumsURL pkg)
                       (upSHASumsSignatureURL pkg) (case upKeys pkg of [] \<Rightarrow> '''' | k # _ \<Rightarrow> k) w of
                  (Inl e, w1) \<Rightarrow> pullVersions E base ns ty p vs w1
                | (Inr pv, w1) \<Rightarrow>
                    let w2 = (if upSHASumsURL pkg \<noteq> ''''
                              then snd (fetchAndStoreShasums E base (vID pv) (upSHASumsURL pkg) w1) else w1)
                    in apfst (Cons (upVersion v)) (pullVersions E base ns ty p vs w2))))"

definition FetchProviderMetadata ::
  "'s regenv \<Rightarrow> MirrorConfiguration \<Rightarrow> string \<Rightarrow> string \<Rightarrow> string \<Rightarrow> 's regworld \<Rightarrow> (string + string list) \<times> 's regworld" where
  "FetchProviderMetadata E cfg org ns ty w =
     (case upList (reUpstream E) (mcUpstreamRegistryURL cfg) ns ty of
        Inl e \<Rightarrow> (Inl e, w)
      | Inr allVersions \<Rightarrow>
          if allVersions = [] then (Inr [], w)
          else let filtered = FilterVersions upVersion (upSort (reUpstream E)) allVersions (mcVersionFilter cfg) in
            if filtered = [] then (Inr [], w)
            else (case UpsertProvider (reNewID E) org ns ty w of
                    (Inl e, w1) \<Rightarrow> (Inl e, w1)
                  | (Inr p, w1) \<Rightarrow> apfst Inr (pullVersions E (mcUpstreamRegistryURL cfg) ns ty p filtered w1)))"

section \<open>The network mirror protocol\<close>

definition pull ::
  "'s regenv \<Rightarrow> bool \<Rightarrow> string \<Rightarrow> string \<Rightarrow> string \<Rightarrow> string \<Rightarrow> ('s regworld \<Rightarrow> response \<times> 's regworld) \<Rightarrow> 's regworld \<Rightarrow> response \<times> 's regworld" where
  "pull E needVersions org ns ty missing k w =
     (if \<not> rePullThrough E then (RError 404 missing, w)
      else (case GetPullThroughConfigsForProvider (reJSON E) org ns ty w of
              (Inr (cfg # _), w1) \<Rightarrow>
                (case FetchProviderMetadata E cfg org ns ty w1 of
                   (Inl e, w2) \<Rightarrow> (RError 502 ''upstream fetch failed'', w2)
                 | (Inr vs, w2) \<Rightarrow>
                     if needVersions \<and> vs = [] then (RError 502 ''upstream fetch failed'', w2) else k w2)
            | (_, w1) \<Rightarrow> (RError 404 missing, w1)))"

definition pullProvider ::
  "'s regenv \<Rightarrow> bool \<Rightarrow> string \<Rightarrow> string \<Rightarrow> string \<Rightarrow> (Provider \<Rightarrow> 's regworld \<Rightarrow> response \<times> 's regworld) \<Rightarrow> 's regworld \<Rightarrow> response \<times> 's regworld" where
  "pullProvider E needVersions org ns ty k =
     pull E needVersions org ns ty ''provider not found'' (\<lambda>w.
       case GetProvider org ns ty w of
         (Inr (Some p), w1) \<Rightarrow> k p w1
       | (_, w1) \<Rightarrow> (RError 404 ''provider not found after pull-through'', w1))"

definition indexAnswer :: "'s regenv \<Rightarrow> Provider \<Rightarrow> 's regworld \<Rightarrow> response \<times> 's regworld" where
  "indexAnswer E p w =
     (case ListVisibleVersions (reSort E) (pID p) w of
        (Inl e, w1) \<Rightarrow> (RError 500 ''Failed to list provider versions'', w1)
      | (Inr vs, w1) \<Rightarrow> (RIndex (set (map vVersion vs)), w1))"

definition IndexHandler :: "'s regenv \<Rightarrow> string \<Rightarrow> string \<Rightarrow> 's regworld \<Rightarrow> response \<times> 's regworld" where
  "IndexHandler E ns ty =
     withOrg (\<lambda>org. withProvider org ns ty (\<lambda>prov w.
       case prov of Some p \<Rightarrow> indexAnswer E p w | None \<Rightarrow> pullProvider E True org ns ty (indexAnswer E) w))"

definition formatZhHash :: "string \<Rightarrow> string" where
  "formatZhHash h = (if h = '''' then '''' else ''zh:'' @ h)"

definition platformHashes :: "ProviderPlatform \<Rightarrow> string list" where
  "platformHashes p =
     (case plH1Hash p of None \<Rightarrow> [] | Some h \<Rightarrow> if h = '''' then [] else [h]) @ [formatZhHash (plShasum p)]"

fun localArchives ::
  "'s regenv \<Rightarrow> ProviderPlatform list \<Rightarrow> (string \<rightharpoonup> string \<times> string list) \<Rightarrow> 's regworld \<Rightarrow>
   (string + (string \<rightharpoonup> string \<times> string list)) \<times> 's regworld" where
  "localArchives E [] m w = (Inr m, w)"
| "localArchives E (p # ps) m w =
     (let key = plOS p @ ''_'' @ plArch p in
      case onStore (sbGetURL (reBackend E) (plStoragePath p)) w of
        (Inl e, w1) \<Rightarrow> (Inl key, w1)
      | (Inr url, w1) \<Rightarrow> localArchives E ps (m(key \<mapsto> (url, platformHashes p))) w1)"

definition upstreamKey :: "string \<Rightarrow> string option" where
  "upstreamKey fn =
     (if \<not> hasSuffix fn ''.zip'' then None
      else let parts = splitOn (CHR ''_'') (trimSuffix fn ''.zip'') in
        if length parts < 2 then None
        else Some (parts ! (length parts - 2) @ ''_'' @ parts ! (length parts - 1)))"

definition upstreamBase :: "string \<Rightarrow> string" where
  "upstreamBase url =
     (case indexByte (CHR ''/'') (rev url) of None \<Rightarrow> url | Some i \<Rightarrow> take (length url - Suc i) url)"

definition enrich ::
  "string \<Rightarrow> ProviderVersionShasum list \<Rightarrow> (string \<rightharpoonup> string \<times> string list) \<Rightarrow> (string \<rightharpoonup> string \<times> string list)" where
  "enrich base sums m =
     fold (\<lambda>s m. case upstreamKey (shFilename s) of
                   None \<Rightarrow> m
                 | Some key \<Rightarrow> if m key \<noteq> None then m
                               else m(key \<mapsto> (base @ ''/'' @ shFilename s, [formatZhHash (shSHA256Hex s)]))) sums m"

text \<open>\<open>client\<close> is the platform found in the user agent, if any.\<close>

definition countMirrorDownload ::
  "'s regenv \<Rightarrow> (string \<times> string) option \<Rightarrow> ProviderPlatform list \<Rightarrow> 's regworld \<Rightarrow> 's regworld" where
  "countMirrorDownload E client ps w =
     (if reDefaultBackend E \<noteq> ''local'' \<or> \<not> reServeDirectly E then
        (case client of
           None \<Rightarrow> w
         | Some (os, arch) \<Rightarrow>
             (case find (\<lambda>p. plOS p = os \<and> plArch p = arch) ps of
                None \<Rightarrow> w | Some p \<Rightarrow> snd (IncrementDownloadCount (plID p) w)))
      else w)"

definition platformIndex ::
  "'s regenv \<Rightarrow> (string \<times> string) option \<Rightarrow> ProviderVersion \<Rightarrow> 's regworld \<Rightarrow> response \<times> 's regworld" where
  "platformIndex E client v w =
     (case GetVersionApprovalStatus (vID v) w of
        (Inl e, w1) \<Rightarrow> (RError 500 ''Failed to query provider version'', w1)
      | (Inr status, w1) \<Rightarrow>
          if gateClosed status then (RError 404 ''provider version not found'', w1)
          else
            (case ListPlatforms (rePlatformOrd E) (vID v) w1 of
               (Inl e, w2) \<Rightarrow> (RError 500 ''Failed to list provider platforms'', w2)
             | (Inr ps, w2) \<Rightarrow>
                 if \<not> reStorageReady E then (RError 500 ''Failed to initialize storage backend'', w2)
                 else
                   (case localArchives E ps Map.empty w2 of
                      (Inl key, w3) \<Rightarrow> (RError 500 (''Failed to generate download URL for '' @ key), w3)
                    | (Inr m, w3) \<Rightarrow>
                        (case (if vShasumURL v = '''' then (m, w3)
                               else (case ListProviderVersionShasums (reShasumOrd E) (vID v) w3 of
                                       (Inl e, w4) \<Rightarrow> (m, w4)
                                     | (Inr sums, w4) \<Rightarrow> (enrich (upstreamBase (vShasumURL v)) sums m, w4))) of
                           (m', w4) \<Rightarrow> (RArchives m', countMirrorDownload E client ps w4)))))"

definition platformIndexVersion ::
  "'s regenv \<Rightarrow> (string \<times> string) option \<Rightarrow> string \<Rightarrow> string \<Rightarrow> string \<Rightarrow> string \<Rightarrow> Provider \<Rightarrow> ProviderVersion option \<Rightarrow>
   's regworld \<Rightarrow> response \<times> 's regworld" where
  "platformIndexVersion E client org ns ty ver p version w =
     (case version of
        Some v \<Rightarrow> platformIndex E client v w
      | None \<Rightarrow>
          pull E False org ns ty ''provider version not found'' (\<lambda>w.
            case GetVersion (pID p) ver w of
              (Inr (Some v), w1) \<Rightarrow> platformIndex E client v w1
            | (_, w1) \<Rightarrow> (RError 404 ''provider version not found after pull-through'', w1)) w)"

definition PlatformIndexHandler ::
  "'s regenv \<Rightarrow> (string \<times> string) option \<Rightarrow> string \<Rightarrow> string \<Rightarrow> string \<Rightarrow> 's regworld \<Rightarrow> response \<times> 's regworld" where
  "PlatformIndexHandler E client ns ty versionfile w0 =
     (let ver = (if length versionfile > 5 then trimSuffix versionfile ''.json'' else versionfile) in
      if \<not> reSemver E ver then (RError 400 ''Invalid version format'', w0)
      else withOrg (\<lambda>org. withProvider org ns ty (\<lambda>prov w.
        case prov of
          Some p \<Rightarrow> withVersion (pID p) ver (platformIndexVersion E client org ns ty ver p) w
        | None \<Rightarrow>
            pullProvider E False org ns ty
              (\<lambda>p. withVersion (pID p) ver (platformIndexVersion E client org ns ty ver p)) w)) w0)"

section \<open>Serving files from local storage\<close>

definition parseProviderFilePath :: "string \<Rightarrow> (string \<times> string \<times> string \<times> string \<times> string) option" where
  "parseProviderFilePath path =
     (let parts = splitOn (CHR ''/'') path in
      if length parts < 7 \<or> parts ! 0 \<noteq> ''providers'' then None
      else Some (parts ! 1, parts ! 2, parts ! 3, parts ! 4, parts ! 5))"

text \<open>The gate in front of the file: only a version found closed stops the request; failing lookups let it pass.\<close>

definition serveGate :: "string \<Rightarrow> 's regworld \<Rightarrow> bool \<times> 's regworld" where
  "serveGate path w =
     (case parseProviderFilePath path of
        None \<Rightarrow> (False, w)
      | Some (ns, ty, ver, _, _) \<Rightarrow>
          (case GetDefaultOrganization w of
             (Inr (Some org), w1) \<Rightarrow>
               (case GetProvider org ns ty w1 of
                  (Inr (Some p), w2) \<Rightarrow>
                    (case GetVersion (pID p) ver w2 of
                       (Inr (Some v), w3) \<Rightarrow>
                         (case GetVersionApprovalStatus (vID v) w3 of
                            (Inr status, w4) \<Rightarrow> (gateClosed status, w4)
                          | (Inl _, w4) \<Rightarrow> (False, w4))
                     | (_, w3) \<Rightarrow> (False, w3))
                | (_, w2) \<Rightarrow> (False, w2))
           | (_, w1) \<Rightarrow> (False, w1)))"

definition trackProviderDownload :: "'s regenv \<Rightarrow> string \<times> string \<times> string \<times> string \<times> string \<Rightarrow> 's regworld \<Rightarrow> 's regworld" where
  "trackProviderDownload E q w =
     (case q of (ns, ty, ver, os, arch) \<Rightarrow>
       (case GetDefaultOrganization w of
          (Inr (Some org), w1) \<Rightarrow>
            (case GetProvider org ns ty w1 of
               (Inr (Some p), w2) \<Rightarrow>
                 (case GetVersion (pID p) ver w2 of
                    (Inr (Some v), w3) \<Rightarrow>
                      (case ListPlatforms (rePlatformOrd E) (vID v) w3 of
                         (Inr ps, w4) \<Rightarrow>
                           (case find (\<lambda>pl. plOS pl = os \<and> plArch pl = arch) ps of
                              None \<Rightarrow> w4 | Some pl \<Rightarrow> snd (IncrementDownloadCount (plID pl) w4))
                       | (_, w4) \<Rightarrow> w4)
                  | (_, w3) \<Rightarrow> w3)
             | (_, w2) \<Rightarrow> w2)
        | (_, w1) \<Rightarrow> w1))"

definition ServeFileHandler :: "'s regenv \<Rightarrow> string \<Rightarrow> 's regworld \<Rightarrow> response \<times> 's regworld" where
  "ServeFileHandler E param w =
     (let path = trimPrefix param ''/'' in
      if param = '''' then (RError 400 ''File path is required'', w)
      else if contains path ''..'' \<or> contains path ''//'' then (RError 400 ''Invalid file path'', w)
      else
        (case serveGate path w of (closed, w1) \<Rightarrow>
         if closed then (RError 404 ''File not found'', w1)
         else
           (case onStore (sbExists (reBackend E) path) w1 of
              (Inl e, w2) \<Rightarrow> (RError 500 ''Failed to check file existence'', w2)
            | (Inr ex, w2) \<Rightarrow>
                if \<not> ex then (RError 404 ''File not found'', w2)
                else
                  (case onStore (sbGetMetadata (reBackend E) path) w2 of
                     (Inl e, w3) \<Rightarrow> (RError 500 ''Failed to get file metadata'', w3)
                   | (Inr md, w3) \<Rightarrow>
                       (case onStore (sbDownload (reBackend E) path) w3 of
                          (Inl e, w4) \<Rightarrow> (RError 500 ''Failed to read file'', w4)
                        | (Inr rd, w4) \<Rightarrow>
                            (RFile (fmChecksum md) (fmSize md) rd,
                             (case parseProviderFilePath path of
                                None \<Rightarrow> w4 | Some q \<Rightarrow> trackProviderDownload E q w4)))))))"

section \<open>Uploading\<close>

datatype form_file = FMissing | FInvalid | FPart nat reader

record upload_form =
  ufParsed :: bool
  ufNamespace :: string
  ufType :: string
  ufVersion :: string
  ufOS :: string
  ufArch :: string
  ufProtocols :: string
  ufGPGPublicKey :: string
  ufDescription :: string
  ufSource :: string
  ufFile :: "(string \<times> reader) option"
  ufSums :: form_file
  ufSig :: form_file
  ufUser :: "string option"

definition MaxProviderBinarySize :: int where "MaxProviderBinarySize = 500 * 2 ^ 20"

definition MaxSignatureFileSize :: int where "MaxSignatureFileSize = 64 * 2 ^ 10"

definition beginMarker :: string where "beginMarker = ''-----BEGIN PGP PUBLIC KEY BLOCK-----''"

definition endMarker :: string where "endMarker = ''-----END PGP PUBLIC KEY BLOCK-----''"

definition ParseGPGPublicKey :: "'s regenv \<Rightarrow> string \<Rightarrow> bool" where
  "ParseGPGPublicKey E key = (key \<noteq> '''' \<and> contains key beginMarker \<and> contains key endMarker \<and> reKeyRing E key)"

fun replaceCRLF :: "string \<Rightarrow> string" where
  "replaceCRLF (a # b # s) =
     (if a = CHR 0x0D \<and> b = CHR 0x0A then CHR 0x0A # replaceCRLF s else a # replaceCRLF (b # s))"
| "replaceCRLF s = s"

definition NormalizeGPGKey :: "string \<Rightarrow> string" where
  "NormalizeGPGKey key =
     (let k = trimSpace (replaceCRLF key) in if hasSuffix k [CHR 0x0A] then k else k @ [CHR 0x0A])"

definition VerifySignature :: "'s regenv \<Rightarrow> string \<Rightarrow> string \<Rightarrow> string \<Rightarrow> bool" where
  "VerifySignature E key d sig =
     (if key = '''' \<or> d = '''' \<or> sig = '''' \<or> \<not> reKeyRing E key then False
      else (case reArmorDecode E sig of
              None \<Rightarrow> reCheckDetached E key d sig
            | Some (body, fails) \<Rightarrow> \<not> fails \<and> reCheckDetached E key d body))"

text \<open>The checks of the form fields; the order of the two segments is that of a Go map, hence one message.\<close>

definition validateUpload :: "'s regenv \<Rightarrow> upload_form \<Rightarrow> response + string list \<times> string" where
  "validateUpload E f =
     (if \<not> ufParsed f then Inl (RError 400 ''Failed to parse multipart form'')
      else if ufNamespace f = '''' \<or> ufType f = '''' \<or> ufVersion f = '''' \<or> ufOS f = '''' \<or> ufArch f = ''''
      then Inl (RError 400 ''Missing required fields'')
      else if ValidateRegistrySegment (ufNamespace f) \<noteq> Inr () \<or> ValidateRegistrySegment (ufType f) \<noteq> Inr ()
      then Inl (RError 400 ''Invalid segment'')
      else if \<not> reSemver E (ufVersion f) then Inl (RError 400 ''Invalid version format'')
      else if ValidatePlatform (ufOS f) (ufArch f) \<noteq> Inr () then Inl (RError 400 ''Invalid platform'')
      else (case (if ufProtocols f = '''' then Some [''5.0''] else reJSON E (ufProtocols f)) of
              None \<Rightarrow> Inl (RError 400 ''Invalid protocols format'')
            | Some protos \<Rightarrow>
                if ufGPGPublicKey f = '''' then Inr (protos, '''')
                else if \<not> ParseGPGPublicKey E (ufGPGPublicKey f) then Inl (RError 400 ''Invalid GPG public key'')
                else Inr (protos, NormalizeGPGKey (ufGPGPublicKey f))))"

definition ioGuard :: "nat \<Rightarrow> string \<Rightarrow> 's regworld \<Rightarrow> (response + unit) \<times> 's regworld" where
  "ioGuard n msg w = (case ioFails w of (b, w1) \<Rightarrow> (if b then Inl (RError n msg) else Inr (), w1))"

definition zipMagic :: "string \<Rightarrow> bool" where
  "zipMagic d = (take 4 d = [CHR ''P'', CHR ''K'', CHR 0x03, CHR 0x04] \<or> take 4 d = [CHR ''P'', CHR ''K'', CHR 0x05, CHR 0x06])"

definition bindR ::
  "('e + 'a) \<times> 's regworld \<Rightarrow> ('a \<Rightarrow> 's regworld \<Rightarrow> ('e + 'b) \<times> 's regworld) \<Rightarrow> ('e + 'b) \<times> 's regworld" where
  "bindR m k = (case m of (Inl r, w) \<Rightarrow> (Inl r, w) | (Inr x, w) \<Rightarrow> k x w)"

text \<open>The upload in the temporary file: its bytes, checked for size and magic.\<close>

definition spoolUpload :: "upload_form \<Rightarrow> 's regworld \<Rightarrow> (response + string \<times> string) \<times> 's regworld" where
  "spoolUpload f w =
     (case ufFile f of
        None \<Rightarrow> (Inl (RError 400 ''Missing or invalid file upload''), w)
      | Some (fname, d, broken) \<Rightarrow>
          bindR (ioGuard 500 ''Failed to create temporary file'' w) (\<lambda>_ w.
          bindR (ioGuard 500 ''Failed to read uploaded file'' w) (\<lambda>_ w.
          if broken then (Inl (RError 500 ''Failed to read uploaded file''), w)
          else if d = [] then (Inl (RError 400 ''provider binary cannot be empty''), w)
          else if int (length d) > MaxProviderBinarySize then (Inl (RError 400 ''provider binary too large''), w)
          else
          bindR (ioGuard 500 ''Failed to process uploaded file'' w) (\<lambda>_ w.
          bindR (ioGuard 400 ''provider binary too small to be a valid ZIP file'' w) (\<lambda>_ w.
          if length d < 4 then (Inl (RError 400 ''provider binary too small to be a valid ZIP file''), w)
          else if \<not> zipMagic d then (Inl (RError 400 ''provider binary is not a valid ZIP file''), w)
          else
          bindR (ioGuard 500 ''Failed to process uploaded file'' w) (\<lambda>_ w.
          bindR (ioGuard 500 ''Failed to calculate checksum'' w) (\<lambda>_ w.
          (Inr (fname, d), w))))))))"

definition nonEmpty :: "string \<Rightarrow> string option" where
  "nonEmpty s = (if s = '''' then None else Some s)"

definition orResp :: "nat \<Rightarrow> string \<Rightarrow> (string + 'a) \<times> 's regworld \<Rightarrow> (response + 'a) \<times> 's regworld" where
  "orResp n msg r = (case r of (Inl _, w) \<Rightarrow> (Inl (RError n msg), w) | (Inr x, w) \<Rightarrow> (Inr x, w))"

definition registerProvider :: "'s regenv \<Rightarrow> upload_form \<Rightarrow> 's regworld \<Rightarrow> (response + Provider) \<times> 's regworld" where
  "registerProvider E f w =
     bindR (orResp 500 ''Failed to get organization context'' (GetDefaultOrganization w)) (\<lambda>org w.
       case org of
         None \<Rightarrow> (Inl (RError 500 ''Default organization not found''), w)
       | Some org \<Rightarrow>
           bindR (orResp 500 ''Failed to query provider'' (GetProvider org (ufNamespace f) (ufType f) w)) (\<lambda>prov w.
             case prov of
               None \<Rightarrow>
                 orResp 500 ''Failed to create provider''
                   (CreateProvider (reNewID E)
                     ((newProvider org (ufNamespace f) (ufType f))
                       \<lparr>pDescription := nonEmpty (ufDescription f), pSource := nonEmpty (ufSource f), pCreatedBy := ufUser f\<rparr>) w)
             | Some p \<Rightarrow>
                 let p' = p\<lparr>pDescription := coalesce (nonEmpty (ufDescription f)) (pDescription p),
                            pSource := coalesce (nonEmpty (ufSource f)) (pSource p)\<rparr>
                 in bindR (orResp 500 ''Failed to update provider'' (UpdateProvider p' w)) (\<lambda>_ w. (Inr p', w))))"

definition registerVersion ::
  "'s regenv \<Rightarrow> upload_form \<Rightarrow> string list \<Rightarrow> string \<Rightarrow> Provider \<Rightarrow> 's regworld \<Rightarrow> (response + ProviderVersion) \<times> 's regworld" where
  "registerVersion E f protos key p w =
     bindR (orResp 500 ''Failed to query provider version'' (GetVersion (pID p) (ufVersion f) w)) (\<lambda>version w.
       case version of
         Some v \<Rightarrow> (Inr v, w)
       | None \<Rightarrow>
           orResp 500 ''Failed to create provider version''
             (CreateVersion (reNewID E)
               ((newProviderVersion (pID p) (ufVersion f) protos key)\<lparr>vPublishedBy := ufUser f\<rparr>) w))"

definition readOptionalMultipartFile :: "form_file \<Rightarrow> string + string option" where
  "readOptionalMultipartFile p =
     (case p of
        FMissing \<Rightarrow> Inr None
      | FInvalid \<Rightarrow> Inl ''invalid field''
      | FPart sz rd \<Rightarrow>
          if int sz > MaxSignatureFileSize then Inl ''exceeds limit''
          else (case limitReader (MaxSignatureFileSize + 1) rd of (d, fails) \<Rightarrow>
                  if fails then Inl ''failed to read''
                  else if int (length d) > MaxSignatureFileSize then Inl ''exceeds limit''
                  else Inr (Some d)))"

definition versionDir :: "upload_form \<Rightarrow> string" where
  "versionDir f = ''providers/'' @ ufNamespace f @ ''/'' @ ufType f @ ''/'' @ ufVersion f @ ''/''"

definition putFile :: "'s regenv \<Rightarrow> string \<Rightarrow> string \<Rightarrow> string \<Rightarrow> 's regworld \<Rightarrow> (response + unit) \<times> 's regworld" where
  "putFile E path d msg w =
     bindR (orResp 500 msg (onStore (sbUpload (reBackend E) path (d, False) (length d)) w)) (\<lambda>_ w. (Inr (), w))"

definition keepSignatureFiles ::
  "'s regenv \<Rightarrow> upload_form \<Rightarrow> ProviderVersion \<Rightarrow> string \<Rightarrow> string option \<Rightarrow> 's regworld \<Rightarrow> (response + unit) \<times> 's regworld" where
  "keepSignatureFiles E f v sums sig w =
     bindR (putFile E (versionDir f @ ''SHA256SUMS'') sums ''Failed to upload SHA256SUMS'' w) (\<lambda>_ w.
     bindR (case sig of
              None \<Rightarrow> (Inr (), w)
            | Some s \<Rightarrow> putFile E (versionDir f @ ''SHA256SUMS.sig'') s ''Failed to upload SHA256SUMS signature'' w) (\<lambda>_ w.
     orResp 500 ''Failed to persist signature storage keys''
       (UpdateVersionSignatureStorage (vID v) (Some (versionDir f @ ''SHA256SUMS''))
          (map_option (\<lambda>_. versionDir f @ ''SHA256SUMS.sig'') sig) w)))"

definition storeUploadedSignatureFiles ::
  "'s regenv \<Rightarrow> upload_form \<Rightarrow> string \<Rightarrow> ProviderVersion \<Rightarrow> 's regworld \<Rightarrow> (response + unit) \<times> 's regworld" where
  "storeUploadedSignatureFiles E f key v w =
     (case (readOptionalMultipartFile (ufSums f), readOptionalMultipartFile (ufSig f)) of
        (Inl e, _) \<Rightarrow> (Inl (RError 400 e), w)
      | (Inr _, Inl e) \<Rightarrow> (Inl (RError 400 e), w)
      | (Inr None, Inr None) \<Rightarrow> (Inr (), w)
      | (Inr None, Inr (Some _)) \<Rightarrow> (Inl (RError 400 ''shasums_signature_file requires shasums_file''), w)
      | (Inr (Some sums), Inr sig) \<Rightarrow>
          if sig \<noteq> None \<and> key = '''' then (Inl (RError 400 ''shasums_signature_file requires gpg_public_key''), w)
          else if sig \<noteq> None \<and> \<not> VerifySignature E key sums (the sig)
          then (Inl (RError 400 ''shasums signature failed GPG verification''), w)
          else keepSignatureFiles E f v sums sig w)"

text \<open>Everything up to the check for an existing platform.\<close>

definition prepareUpload ::
  "'s regenv \<Rightarrow> upload_form \<Rightarrow> 's regworld \<Rightarrow> (response + Provider \<times> ProviderVersion \<times> string \<times> string) \<times> 's regworld" where
  "prepareUpload E f w =
     (case validateUpload E f of
        Inl r \<Rightarrow> (Inl r, w)
      | Inr (protos, key) \<Rightarrow>
          bindR (spoolUpload f w) (\<lambda>(fname, d) w.
          bindR (registerProvider E f w) (\<lambda>p w.
          bindR (registerVersion E f protos key p w) (\<lambda>v w.
          bindR (storeUploadedSignatureFiles E f key v w) (\<lambda>_ w.
          bindR (orResp 500 ''Failed to check for existing platform'' (GetPlatform (vID v) (ufOS f) (ufArch f) w)) (\<lambda>pl w.
          if pl \<noteq> None then (Inl (RError 409 ''Platform already exists''), w)
          else (Inr (p, v, fname, d), w)))))))"

definition uploadPath :: "upload_form \<Rightarrow> string" where
  "uploadPath f = versionDir f @ ufOS f @ ''_'' @ ufArch f @ ''.zip''"

text \<open>The rest: the bytes, the row, and the removal of the bytes when the row cannot be written.\<close>

definition storePlatform ::
  "'s regenv \<Rightarrow> upload_form \<Rightarrow> Provider \<times> ProviderVersion \<times> string \<times> string \<Rightarrow> 's regworld \<Rightarrow> response \<times> 's regworld" where
  "storePlatform E f q w0 =
     (case q of (p, v, fname, d) \<Rightarrow>
       (case ioFails w0 of (seekFails, w) \<Rightarrow>
        if seekFails then (RError 500 ''Failed to process uploaded file'', w)
        else
        (case onStore (sbUpload (reBackend E) (uploadPath f) (d, False) (length d)) w of
           (Inl e, w1) \<Rightarrow> (RError 500 ''Failed to upload file'', w1)
         | (Inr res, w1) \<Rightarrow>
             (case CreatePlatform (reNewID E)
                     \<lparr>plID = '''', plProviderVersionID = vID v, plOS = ufOS f, plArch = ufArch f, plFilename = fname,
                      plStoragePath = urPath res, plStorageBackend = reDefaultBackend E, plSizeBytes = int (urSize res),
                      plShasum = reSha E d, plH1Hash = reHashZip E d, plDownloadCount = 0\<rparr> w1 of
                (Inl e, w2) \<Rightarrow>
                  (RError 500 ''Failed to create platform record'', snd (onStore (sbDelete (reBackend E) (urPath res)) w2))
              | (Inr pl, w2) \<Rightarrow> (RCreated p v pl, w2)))))"

definition UploadHandler :: "'s regenv \<Rightarrow> upload_form \<Rightarrow> 's regworld \<Rightarrow> response \<times> 's regworld" where
  "UploadHandler E f w =
     (case prepareUpload E f w of (Inl r, w1) \<Rightarrow> (r, w1) | (Inr q, w1) \<Rightarrow> storePlatform E f q w1)"

section \<open>Administration\<close>

text \<open>Without a default organization the lookup runs with an empty id.\<close>

definition withAdminProvider ::
  "string \<Rightarrow> string \<Rightarrow> (Provider \<Rightarrow> 's regworld \<Rightarrow> response \<times> 's regworld) \<Rightarrow> 's regworld \<Rightarrow> response \<times> 's regworld" where
  "withAdminProvider ns ty k w =
     (case GetDefaultOrganization w of
        (Inl e, w1) \<Rightarrow> (RError 500 ''Failed to get organization context'', w1)
      | (Inr org, w1) \<Rightarrow>
          (case GetProvider (case org of None \<Rightarrow> '''' | Some i \<Rightarrow> i) ns ty w1 of
             (Inl e, w2) \<Rightarrow> (RError 500 ''Failed to get provider'', w2)
           | (Inr None, w2) \<Rightarrow> (RError 404 ''Provider not found'', w2)
           | (Inr (Some p), w2) \<Rightarrow> k p w2))"

definition withAdminVersion ::
  "string \<Rightarrow> string \<Rightarrow> string \<Rightarrow> (ProviderVersion \<Rightarrow> 's regworld \<Rightarrow> response \<times> 's regworld) \<Rightarrow> 's regworld \<Rightarrow> response \<times> 's regworld" where
  "withAdminVersion ns ty ver k =
     withAdminProvider ns ty (\<lambda>p w.
       case GetVersion (pID p) ver w of
         (Inl e, w1) \<Rightarrow> (RError 500 ''Failed to get version'', w1)
       | (Inr None, w1) \<Rightarrow> (RError 404 ''Version not found'', w1)
       | (Inr (Some v), w1) \<Rightarrow> k v w1)"

text \<open>The platforms of a version whose listing fails count as none.\<close>

definition platformsOrNone :: "'s regenv \<Rightarrow> string \<Rightarrow> 's regworld \<Rightarrow> ProviderPlatform list \<times> 's regworld" where
  "platformsOrNone E vid w =
     (case ListPlatforms (rePlatformOrd E) vid w of (Inl _, w1) \<Rightarrow> ([], w1) | (Inr ps, w1) \<Rightarrow> (ps, w1))"

text \<open>The detail view has fewer fields than the listing.\<close>

definition detailJSON :: "ProviderVersion \<Rightarrow> ProviderPlatform list \<Rightarrow> VersionJSON" where
  "detailJSON v ps =
     (versionJSON [] v ps)\<lparr>vjPlatforms := map (\<lambda>p. (platformJSON p)\<lparr>pjID := ''''\<rparr>) ps, vjDownloadCount := 0,
        vjPublishedBy := None, vjPublishedByName := None\<rparr>"

fun detailVersions :: "'s regenv \<Rightarrow> ProviderVersion list \<Rightarrow> 's regworld \<Rightarrow> VersionJSON list \<times> 's regworld" where
  "detailVersions E [] w = ([], w)"
| "detailVersions E (v # vs) w =
     (case platformsOrNone E (vID v) w of (ps, w1) \<Rightarrow>
        apfst (Cons (detailJSON v ps)) (detailVersions E vs w1))"

definition GetProviderHandler :: "'s regenv \<Rightarrow> string \<Rightarrow> string \<Rightarrow> 's regworld \<Rightarrow> response \<times> 's regworld" where
  "GetProviderHandler E ns ty =
     withAdminProvider ns ty (\<lambda>p w.
       case ListVersions (reSort E) (pID p) w of
         (Inl e, w1) \<Rightarrow> (RError 500 ''Failed to list provider versions'', w1)
       | (Inr vs, w1) \<Rightarrow> (case detailVersions E vs w1 of (js, w2) \<Rightarrow> (RProvider p js, w2)))"

definition deleteFiles :: "'s regenv \<Rightarrow> ProviderPlatform list \<Rightarrow> 's regworld \<Rightarrow> 's regworld" where
  "deleteFiles E ps w =
     fold (\<lambda>p w. if plStoragePath p \<noteq> '''' then snd (onStore (sbDelete (reBackend E) (plStoragePath p)) w) else w) ps w"

fun deleteVersionFiles :: "'s regenv \<Rightarrow> ProviderVersion list \<Rightarrow> 's regworld \<Rightarrow> 's regworld" where
  "deleteVersionFiles E [] w = w"
| "deleteVersionFiles E (v # vs) w =
     (case platformsOrNone E (vID v) w of (ps, w1) \<Rightarrow> deleteVersionFiles E vs (deleteFiles E ps w1))"

definition DeleteProviderHandler :: "'s regenv \<Rightarrow> string \<Rightarrow> string \<Rightarrow> 's regworld \<Rightarrow> response \<times> 's regworld" where
  "DeleteProviderHandler E ns ty =
     withAdminProvider ns ty (\<lambda>p w.
       case ListVersions (reSort E) (pID p) w of
         (Inl e, w1) \<Rightarrow> (RError 500 ''Failed to list provider versions'', w1)
       | (Inr vs, w1) \<Rightarrow>
           (case DeleteProvider (pID p) (deleteVersionFiles E vs w1) of
              (Inl e, w2) \<Rightarrow> (RError 500 (''Failed to delete provider: '' @ e), w2)
            | (Inr _, w2) \<Rightarrow> (RDone ''Provider deleted successfully'', w2)))"

definition DeleteVersionHandler :: "'s regenv \<Rightarrow> string \<Rightarrow> string \<Rightarrow> string \<Rightarrow> 's regworld \<Rightarrow> response \<times> 's regworld" where
  "DeleteVersionHandler E ns ty ver =
     withAdminVersion ns ty ver (\<lambda>v w.
       case platformsOrNone E (vID v) w of (ps, w1) \<Rightarrow>
         (case DeleteVersion (vID v) (deleteFiles E ps w1) of
            (Inl e, w2) \<Rightarrow> (RError 500 (''Failed to delete version: '' @ e), w2)
          | (Inr _, w2) \<Rightarrow> (RDone ''Version deleted successfully'', w2)))"

definition DeprecateVersionHandler :: "string \<Rightarrow> string \<Rightarrow> string \<Rightarrow> string option \<Rightarrow> 's regworld \<Rightarrow> response \<times> 's regworld" where
  "DeprecateVersionHandler ns ty ver body =
     withAdminVersion ns ty ver (\<lambda>v w.
       case DeprecateVersion (vID v) (case body of None \<Rightarrow> None | Some m \<Rightarrow> nonEmpty m) w of
         (Inl e, w1) \<Rightarrow> (RError 500 (''Failed to deprecate version: '' @ e), w1)
       | (Inr _, w1) \<Rightarrow> (RDone ''Version deprecated successfully'', w1))"

definition UndeprecateVersionHandler :: "string \<Rightarrow> string \<Rightarrow> string \<Rightarrow> 's regworld \<Rightarrow> response \<times> 's regworld" where
  "UndeprecateVersionHandler ns ty ver =
     withAdminVersion ns ty ver (\<lambda>v w.
       case UndeprecateVersion (vID v) w of
         (Inl e, w1) \<Rightarrow> (RError 500 (''Failed to undeprecate version: '' @ e), w1)
       | (Inr _, w1) \<Rightarrow> (RDone ''Version deprecation removed successfully'', w1))"

section \<open>Runs without database faults\<close>

lemma rwQuery_ok: "rwFaults w = [] \<Longrightarrow> rwQuery q w = (Inr (q w), w)"
  by (simp add: rwQuery_def rwCall_def)

lemma GetProvider_ok:
  "rwFaults w = [] \<Longrightarrow> GetProvider org ns ty w =
     (if org = '''' then Inl ''invalid input syntax for type uuid'' else Inr (firstRow (providerRows org ns ty w)), w)"
  by (simp add: GetProvider_def rwQuery_ok rwCall_def)

lemma onStore_eq: "onStore op w = (fst (op (rwStore w)), w\<lparr>rwStore := snd (op (rwStore w))\<rparr>)"
  by (simp add: onStore_def split: prod.splits)

lemma versionsJSON_ok:
  "rwFaults w = [] \<Longrightarrow> versionsJSON E vs w =
     (Inr (map (\<lambda>v. versionJSON (rwUsers w) v (rePlatformOrd E (filter (\<lambda>p. plProviderVersionID p = vID v) (rwPlatforms w)))) vs), w)"
  by (induction vs) (simp_all add: ListPlatforms_def rwQuery_ok)

lemma localArchives_store:
  "\<exists>r s. \<forall>w. rwStore w = st \<longrightarrow> localArchives E ps m w = (r, w\<lparr>rwStore := s\<rparr>)"
proof (induction ps arbitrary: m st)
  case Nil
  show ?case by (rule exI[of _ "Inr m"], rule exI[of _ st]) auto
next
  case (Cons p ps)
  let ?o = "sbGetURL (reBackend E) (plStoragePath p) st"
  show ?case
  proof (cases "fst ?o")
    case (Inl e)
    then show ?thesis
      by (intro exI[of _ "Inl (plOS p @ ''_'' @ plArch p)"] exI[of _ "snd ?o"]) (simp add: onStore_eq)
  next
    case (Inr url)
    obtain r s where rs: "\<And>w. rwStore w = snd ?o \<Longrightarrow>
        localArchives E ps (m(plOS p @ ''_'' @ plArch p \<mapsto> (url, platformHashes p))) w = (r, w\<lparr>rwStore := s\<rparr>)"
      using Cons by blast
    have "localArchives E (p # ps) m w = (r, w\<lparr>rwStore := s\<rparr>)" if "rwStore w = st" for w
      using that Inr rs[of "w\<lparr>rwStore := snd ?o\<rparr>"] by (simp add: onStore_eq)
    then show ?thesis by blast
  qed
qed

lemma sumsURL_store: "\<exists>r s. \<forall>w. rwStore w = st \<longrightarrow> sumsURL E k ext w = (r, w\<lparr>rwStore := s\<rparr>)"
proof (cases "k = None \<or> k = Some ''''")
  case True
  then show ?thesis by (intro exI[of _ ext] exI[of _ st]) (auto simp: sumsURL_def)
next
  case False
  then obtain x where k: "k = Some x" "x \<noteq> ''''" by auto
  let ?o = "sbGetURL (reBackend E) x st"
  show ?thesis
    by (intro exI[of _ "case fst ?o of Inr url \<Rightarrow> url | Inl _ \<Rightarrow> ''''"] exI[of _ "snd ?o"])
      (simp add: sumsURL_def k onStore_eq split: sum.split)
qed

section \<open>The approval gate\<close>

definition hiddenIDs :: "'s regworld \<Rightarrow> string list" where
  "hiddenIDs w = map vID (filter (\<lambda>v. \<not> approvalExclusionClause w v) (rwVersions w))"

text \<open>The constraints of the schema that the gate relies on, and one tracking row per version.\<close>

definition gateTables :: "'s regworld \<Rightarrow> bool" where
  "gateTables w \<longleftrightarrow>
     distinct (map (\<lambda>v. (vProviderID v, vVersion v)) (rwVersions w)) \<and> distinct (map vID (rwVersions w)) \<and>
     distinct (map mpvProviderVersionID (rwMirrored w)) \<and>
     list_all (\<lambda>m. mpvApprovalStatus m \<in> {None, Some ''pending_approval'', Some ''approved'', Some ''rejected''}) (rwMirrored w)"

lemma gateTables_parts:
  assumes "gateTables w"
  shows "distinct (map (\<lambda>v. (vProviderID v, vVersion v)) (rwVersions w))" "distinct (map vID (rwVersions w))"
    "distinct (map mpvProviderVersionID (rwMirrored w))"
    "m \<in> set (rwMirrored w) \<Longrightarrow> mpvApprovalStatus m \<in> {None, Some ''pending_approval'', Some ''approved'', Some ''rejected''}"
  using assms by (auto simp: gateTables_def list_all_iff)

lemma hidden_iff:
  assumes "distinct (map vID (rwVersions w))" "v \<in> set (rwVersions w)"
  shows "vID v \<in> set (hiddenIDs w) \<longleftrightarrow> \<not> approvalExclusionClause w v"
  using assms by (auto simp: hiddenIDs_def distinct_map inj_on_def)

text \<open>The single row and the exclusion clause agree.\<close>

lemma gate_status:
  assumes "gateTables w"
  shows "gateClosed (case find (\<lambda>m. mpvProviderVersionID m = vID v) (rwMirrored w) of None \<Rightarrow> None | Some m \<Rightarrow> mpvApprovalStatus m) \<longleftrightarrow>
    \<not> approvalExclusionClause w v"
proof (cases "find (\<lambda>m. mpvProviderVersionID m = vID v) (rwMirrored w)")
  case None
  then have "\<forall>m \<in> set (rwMirrored w). mpvProviderVersionID m \<noteq> vID v" by (auto simp: find_None_iff)
  with None show ?thesis by (auto simp: gateClosed_def approvalExclusionClause_def list_ex_iff)
next
  case (Some m)
  then have m: "m \<in> set (rwMirrored w)" "mpvProviderVersionID m = vID v" by (auto simp: find_Some_iff)
  have u: "n = m" if "n \<in> set (rwMirrored w)" "mpvProviderVersionID n = vID v" for n
    using gateTables_parts(3)[OF assms] that m by (auto simp: distinct_map inj_on_def)
  have "approvalExclusionClause w v \<longleftrightarrow>
      \<not> (mpvApprovalStatus m = Some ''pending_approval'' \<or> mpvApprovalStatus m = Some ''rejected'')"
    using m u unfolding approvalExclusionClause_def list_ex_iff by metis
  moreover have "gateClosed (mpvApprovalStatus m) \<longleftrightarrow>
      mpvApprovalStatus m = Some ''pending_approval'' \<or> mpvApprovalStatus m = Some ''rejected''"
    using gateTables_parts(4)[OF assms m(1)] by (auto simp: gateClosed_def)
  ultimately show ?thesis using Some by simp
qed

lemma find_filter: "find P (filter Q xs) = find (\<lambda>x. Q x \<and> P x) xs"
  by (induction xs) auto

lemma find_unique_filter:
  assumes "distinct (map k xs)"
  shows "find (\<lambda>x. k x = y) (filter Q xs) = (case find (\<lambda>x. k x = y) xs of None \<Rightarrow> None | Some x \<Rightarrow> if Q x then Some x else None)"
proof (cases "find (\<lambda>x. k x = y) xs")
  case None
  then have "find (\<lambda>x. k x = y) (filter Q xs) = None" by (auto simp: find_None_iff)
  with None show ?thesis by simp
next
  case (Some x)
  then have x: "x \<in> set xs" "k x = y" by (auto simp: find_Some_iff)
  have u: "z = x" if "z \<in> set xs" "k z = y" for z using assms that x by (auto simp: distinct_map inj_on_def)
  show ?thesis
  proof (cases "find (\<lambda>x. k x = y) (filter Q xs)")
    case None
    with x Some show ?thesis by (auto simp: find_None_iff)
  next
    case (Some z)
    then have "z \<in> set xs" "k z = y" "Q z" by (auto simp: find_Some_iff dest: nth_mem)
    with u Some \<open>find (\<lambda>x. k x = y) xs = Some x\<close> show ?thesis by auto
  qed
qed

lemma filter_sub: "(\<And>x. P x \<Longrightarrow> Q x) \<Longrightarrow> filter P (filter Q xs) = filter P xs"
  by (induction xs) auto

lemma find_sub: "(\<And>x. P x \<Longrightarrow> Q x) \<Longrightarrow> find P (filter Q xs) = find P xs"
  by (induction xs) auto

lemma dropVersions_sel [simp]:
  "rwOrg (dropVersions ids w) = rwOrg w" "rwUsers (dropVersions ids w) = rwUsers w"
  "rwProviders (dropVersions ids w) = rwProviders w" "rwFaults (dropVersions ids w) = rwFaults w"
  "rwStore (dropVersions ids w) = rwStore w" "rwMirrors (dropVersions ids w) = rwMirrors w"
  "providerRows org ns ty (dropVersions ids w) = providerRows org ns ty w"
  by (simp_all add: dropVersions_def providerRows_def)

text \<open>What a version that stays sees of its own rows is unchanged.\<close>

lemma dropVersions_keeps:
  assumes "i \<notin> set ids"
  shows "find (\<lambda>m. mpvProviderVersionID m = i) (rwMirrored (dropVersions ids w)) = find (\<lambda>m. mpvProviderVersionID m = i) (rwMirrored w)"
    and "filter (\<lambda>p. plProviderVersionID p = i) (rwPlatforms (dropVersions ids w)) = filter (\<lambda>p. plProviderVersionID p = i) (rwPlatforms w)"
    and "find (\<lambda>p. plProviderVersionID p = i \<and> plOS p = os \<and> plArch p = arch) (rwPlatforms (dropVersions ids w)) =
      find (\<lambda>p. plProviderVersionID p = i \<and> plOS p = os \<and> plArch p = arch) (rwPlatforms w)"
    and "filter (\<lambda>s. shProviderVersionID s = i) (rwShasums (dropVersions ids w)) = filter (\<lambda>s. shProviderVersionID s = i) (rwShasums w)"
    and "vID v = i \<Longrightarrow> approvalExclusionClause (dropVersions ids w) v = approvalExclusionClause w v"
  using assms by (auto simp: dropVersions_def approvalExclusionClause_def list_ex_iff intro!: filter_sub find_sub filter_cong)

lemma visible_dropped:
  assumes "gateTables w"
  shows "filter (\<lambda>v. vProviderID v = prov \<and> approvalExclusionClause (dropVersions (hiddenIDs w) w) v) (rwVersions (dropVersions (hiddenIDs w) w)) =
    filter (\<lambda>v. vProviderID v = prov \<and> approvalExclusionClause w v) (rwVersions w)"
proof -
  have "vID v \<notin> set (hiddenIDs w) \<and> vProviderID v = prov \<and> approvalExclusionClause (dropVersions (hiddenIDs w) w) v \<longleftrightarrow>
      vProviderID v = prov \<and> approvalExclusionClause w v" if "v \<in> set (rwVersions w)" for v
    using hidden_iff[OF gateTables_parts(2)[OF assms] that] dropVersions_keeps(5)[of "vID v" "hiddenIDs w" v w] by auto
  then show ?thesis by (auto simp: dropVersions_def conj_ac intro!: filter_cong)
qed

lemma GetVersion_dropped:
  assumes "gateTables w"
  shows "find (\<lambda>v. vProviderID v = prov \<and> vVersion v = ver) (rwVersions (dropVersions (hiddenIDs w) w)) =
    (case find (\<lambda>v. vProviderID v = prov \<and> vVersion v = ver) (rwVersions w) of
       None \<Rightarrow> None | Some v \<Rightarrow> if approvalExclusionClause w v then Some v else None)"
proof -
  have "rwVersions (dropVersions (hiddenIDs w) w) = filter (approvalExclusionClause w) (rwVersions w)"
    using hidden_iff[OF gateTables_parts(2)[OF assms]] by (auto simp: dropVersions_def intro: filter_cong)
  then show ?thesis
    using find_unique_filter[OF gateTables_parts(1)[OF assms], of "(prov, ver)" "approvalExclusionClause w"] by simp
qed

lemma find_version: "find (\<lambda>v. vProviderID v = prov \<and> vVersion v = ver) vs = Some v \<Longrightarrow> v \<in> set vs"
  by (auto simp: find_Some_iff)

section \<open>Public requests\<close>

datatype pub_request =
    GetVersions string string "string option" "string option"
  | GetDownload string string string string string
  | GetIndex string string
  | GetPlatformIndex "(string \<times> string) option" string string string

fun handle :: "'s regenv \<Rightarrow> pub_request \<Rightarrow> 's regworld \<Rightarrow> response \<times> 's regworld" where
  "handle E (GetVersions ns ty l off) = ListVersionsHandler E ns ty l off"
| "handle E (GetDownload ns ty ver os arch) = DownloadHandler E ns ty ver os arch"
| "handle E (GetIndex ns ty) = IndexHandler E ns ty"
| "handle E (GetPlatformIndex client ns ty file) = PlatformIndexHandler E client ns ty file"

lemma withOrg_ok:
  "rwFaults w = [] \<Longrightarrow> withOrg k w =
     (case rwOrg w of None \<Rightarrow> (RError 500 ''Default organization not found'', w) | Some org \<Rightarrow> k org w)"
  by (simp add: withOrg_def GetDefaultOrganization_def rwQuery_ok split: option.split)

lemma withProvider_ok:
  "rwFaults w = [] \<Longrightarrow> withProvider org ns ty k w =
     (if org = '''' then (RError 500 ''Failed to query provider'', w) else k (firstRow (providerRows org ns ty w)) w)"
  by (simp add: withProvider_def GetProvider_ok)

lemma withVersion_ok:
  "rwFaults w = [] \<Longrightarrow> withVersion prov ver k w = k (find (\<lambda>v. vProviderID v = prov \<and> vVersion v = ver) (rwVersions w)) w"
  by (simp add: withVersion_def GetVersion_def rwQuery_ok)

lemma list_gate:
  assumes "gateTables w" "rwFaults w = []"
  shows "fst (ListVersionsHandler E ns ty l off (dropVersions (hiddenIDs w) w)) = fst (ListVersionsHandler E ns ty l off w)"
proof -
  let ?W = "dropVersions (hiddenIDs w) w"
  have vis: "visibleVersions prov ?W = visibleVersions prov w" for prov
    using visible_dropped[OF assms(1)] by (simp add: visibleVersions_def)
  have rows: "filter (\<lambda>p. plProviderVersionID p = vID v) (rwPlatforms ?W) = filter (\<lambda>p. plProviderVersionID p = vID v) (rwPlatforms w)"
    if "v \<in> set (page a b (sort_key (\<lambda>v. - vCreatedAt v) (visibleVersions prov w)))" for v a b prov
  proof -
    have "v \<in> set (visibleVersions prov w)" using that by (auto simp: page_def dest!: in_set_takeD in_set_dropD)
    then have "vID v \<notin> set (hiddenIDs w)"
      using hidden_iff[OF gateTables_parts(2)[OF assms(1)]] by (auto simp: visibleVersions_def)
    then show ?thesis by (rule dropVersions_keeps)
  qed
  show ?thesis
    using assms(2) rows
    by (auto simp: ListVersionsHandler_def listAnswer_def withOrg_ok withProvider_ok ListVersionsPaginated_def rwQuery_ok versionsJSON_ok vis
        split: option.split)
qed

lemma download_gate:
  assumes "gateTables w" "rwFaults w = []"
  shows "fst (DownloadHandler E ns ty ver os arch (dropVersions (hiddenIDs w) w)) = fst (DownloadHandler E ns ty ver os arch w)"
proof -
  let ?W = "dropVersions (hiddenIDs w) w"
  let ?rest = "\<lambda>url v pl w3. fst (case sumsURL E (vShasumStorageKey v) (vShasumURL v) w3 of (sums, w4) \<Rightarrow>
      (case sumsURL E (vShasumSignatureStorageKey v) (vShasumSignatureURL v) w4 of (sig, w5) \<Rightarrow>
       (RDownload \<lparr>djProtocols = vProtocols v, djOS = plOS pl, djArch = plArch pl, djFilename = plFilename pl, djDownloadURL = url,
          djShasumsURL = sums, djShasumsSignatureURL = sig, djShasum = plShasum pl,
          djGPGPublicKeys = gpgPublicKeys E (vGPGPublicKey v)\<rparr>, snd (IncrementDownloadCount (plID pl) w5))))"
  have rest: "?rest url v pl (?W\<lparr>rwStore := st\<rparr>) = ?rest url v pl (w\<lparr>rwStore := st\<rparr>)" for url v pl st
  proof -
    obtain r s where 1: "\<forall>w. rwStore w = st \<longrightarrow> sumsURL E (vShasumStorageKey v) (vShasumURL v) w = (r, w\<lparr>rwStore := s\<rparr>)"
      using sumsURL_store[of st E "vShasumStorageKey v" "vShasumURL v"] by (elim exE)
    obtain r' s' where 2: "\<forall>w. rwStore w = s \<longrightarrow> sumsURL E (vShasumSignatureStorageKey v) (vShasumSignatureURL v) w = (r', w\<lparr>rwStore := s'\<rparr>)"
      using sumsURL_store[of s E "vShasumSignatureStorageKey v" "vShasumSignatureURL v"] by (elim exE)
    note 1 = 1[THEN spec, THEN mp] and 2 = 2[THEN spec, THEN mp]
    show ?thesis by (simp add: 1 2)
  qed
  have hid: "vID v \<in> set (hiddenIDs w) \<longleftrightarrow> \<not> approvalExclusionClause w v"
    if "find (\<lambda>v. vProviderID v = prov \<and> vVersion v = ver) (rwVersions w) = Some v" for prov v
    using hidden_iff[OF gateTables_parts(2)[OF assms(1)] find_version[OF that]] .
  show ?thesis
  proof (cases "ValidatePlatform os arch")
    case Inr
    show ?thesis
    proof (cases "rwOrg w")
      case (Some org)
      show ?thesis
      proof (cases "firstRow (providerRows org ns ty w)")
        case p: (Some p)
        show ?thesis
        proof (cases "find (\<lambda>v. vProviderID v = pID p \<and> vVersion v = ver) (rwVersions w)")
          case None
          with Some p Inr assms show ?thesis
            by (simp add: DownloadHandler_def withOrg_ok withProvider_ok withVersion_ok GetVersion_dropped)
        next
          case v: (Some v)
          note gate = gate_status[OF assms(1), of v]
          show ?thesis
          proof (cases "approvalExclusionClause w v")
            case False
            with Some p v Inr assms gate show ?thesis
              by (simp add: DownloadHandler_def downloadVersion_def withOrg_ok withProvider_ok withVersion_ok GetVersion_dropped
                  GetVersionApprovalStatus_def rwQuery_ok)
          next
            case True
            with hid[OF v] have n: "vID v \<notin> set (hiddenIDs w)" by simp
            with Some p v Inr assms gate True show ?thesis
              by (auto simp: DownloadHandler_def downloadVersion_def withOrg_ok withProvider_ok withVersion_ok GetVersion_dropped GetPlatform_def
                  GetVersionApprovalStatus_def rwQuery_ok dropVersions_keeps onStore_eq rest split: option.split sum.split)
          qed
        qed
      qed (use Some Inr assms in \<open>simp add: DownloadHandler_def withOrg_ok withProvider_ok\<close>)
    qed (use Inr assms in \<open>simp add: DownloadHandler_def withOrg_ok\<close>)
  qed (simp add: DownloadHandler_def)
qed

lemma index_gate:
  assumes "gateTables w" "rwFaults w = []" "\<not> rePullThrough E"
  shows "fst (IndexHandler E ns ty (dropVersions (hiddenIDs w) w)) = fst (IndexHandler E ns ty w)"
  using assms(2,3) visible_dropped[OF assms(1)]
  by (auto simp: IndexHandler_def indexAnswer_def withOrg_ok withProvider_ok ListVisibleVersions_def listVersions_def rwQuery_ok
      pullProvider_def pull_def split: option.split)

lemma platformIndex_dropped:
  assumes "gateTables w" "rwFaults w = []" "v \<in> set (rwVersions w)" "approvalExclusionClause w v"
  shows "fst (platformIndex E client v (dropVersions (hiddenIDs w) w)) = fst (platformIndex E client v w)"
proof -
  have n: "vID v \<notin> set (hiddenIDs w)" using hidden_iff[OF gateTables_parts(2)[OF assms(1)] assms(3)] assms(4) by simp
  let ?ps = "rePlatformOrd E (filter (\<lambda>p. plProviderVersionID p = vID v) (rwPlatforms w))"
  obtain r s where a: "\<forall>u. rwStore u = rwStore w \<longrightarrow> localArchives E ?ps Map.empty u = (r, u\<lparr>rwStore := s\<rparr>)"
    using localArchives_store[of "rwStore w" E ?ps Map.empty] by (elim exE)
  note a = a[THEN spec, THEN mp]
  have "\<not> gateClosed (case find (\<lambda>m. mpvProviderVersionID m = vID v) (rwMirrored w) of None \<Rightarrow> None | Some m \<Rightarrow> mpvApprovalStatus m)"
    using gate_status[OF assms(1)] assms(4) by simp
  with assms(2) n show ?thesis
    by (auto simp: platformIndex_def GetVersionApprovalStatus_def ListPlatforms_def ListProviderVersionShasums_def rwQuery_ok
        dropVersions_keeps a split: sum.split)
qed

lemma platform_gate:
  assumes "gateTables w" "rwFaults w = []" "\<not> rePullThrough E"
  shows "fst (PlatformIndexHandler E client ns ty file (dropVersions (hiddenIDs w) w)) = fst (PlatformIndexHandler E client ns ty file w)"
proof -
  define ver where "ver = (if length file > 5 then trimSuffix file ''.json'' else file)"
  have closed: "fst (platformIndex E client v w) = RError 404 ''provider version not found''"
    if "\<not> approvalExclusionClause w v" for v
    using gate_status[OF assms(1), of v] that assms(2) by (simp add: platformIndex_def GetVersionApprovalStatus_def rwQuery_ok)
  have core: "fst (case find (\<lambda>v. vProviderID v = pID p \<and> vVersion v = ver) (rwVersions (dropVersions (hiddenIDs w) w)) of
          Some v \<Rightarrow> platformIndex E client v (dropVersions (hiddenIDs w) w)
        | None \<Rightarrow> (RError 404 ''provider version not found'', dropVersions (hiddenIDs w) w)) =
      fst (case find (\<lambda>v. vProviderID v = pID p \<and> vVersion v = ver) (rwVersions w) of
          Some v \<Rightarrow> platformIndex E client v w
        | None \<Rightarrow> (RError 404 ''provider version not found'', w))" for p
    using platformIndex_dropped[OF assms(1,2)] closed
    by (cases "find (\<lambda>v. vProviderID v = pID p \<and> vVersion v = ver) (rwVersions w)")
      (auto simp: GetVersion_dropped[OF assms(1)] dest: find_version)
  show ?thesis
  proof (cases "rwOrg w")
    case (Some org)
    then show ?thesis using assms(2,3)
      by (cases "firstRow (providerRows org ns ty w)")
        (auto simp: PlatformIndexHandler_def platformIndexVersion_def Let_def ver_def[symmetric] withOrg_ok withProvider_ok withVersion_ok pull_def pullProvider_def
          cong: option.case_cong intro: core)
  qed (use assms(2) in \<open>simp add: PlatformIndexHandler_def Let_def withOrg_ok\<close>)
qed

section \<open>Properties\<close>

text \<open>
  The approval gate leaks nothing: on a working database, for a registry without pull-through and with one
  tracking row per mirrored version, every answer of the listing, download, mirror index and mirror platform
  endpoints is the one they would give if the pending and rejected versions, their platforms and checksums were not in
  the database at all.
\<close>

theorem approval_gate_noninterference:
  assumes "gateTables w" "rwFaults w = []" "\<not> rePullThrough E"
  shows "fst (handle E req w) = fst (handle E req (dropVersions (hiddenIDs w) w))"
  using list_gate[OF assms(1,2)] download_gate[OF assms(1,2)] index_gate[OF assms] platform_gate[OF assms]
  by (cases req) simp_all

text \<open>A query sees the tables as they are and changes nothing but the schedule of faults.\<close>

definition sameTables :: "'s regworld \<Rightarrow> 's regworld \<Rightarrow> bool" where
  "sameTables w w' \<longleftrightarrow> (\<exists>fl. w' = w\<lparr>rwFaults := fl\<rparr>)"

lemma sameTables_sel:
  assumes "sameTables w w'"
  shows "rwOrg w' = rwOrg w" "rwVersions w' = rwVersions w" "rwMirrored w' = rwMirrored w" "rwStore w' = rwStore w"
    "rwPlatforms w' = rwPlatforms w" "rwProviders w' = rwProviders w"
    "providerRows org ns ty w' = providerRows org ns ty w" "approvalExclusionClause w' = approvalExclusionClause w"
  using assms by (auto simp: sameTables_def providerRows_def approvalExclusionClause_def)

lemma sameTables_trans: "sameTables w w1 \<Longrightarrow> sameTables w1 w2 \<Longrightarrow> sameTables w w2"
  by (auto simp: sameTables_def)

lemma rwQuery_tables: "rwQuery q w = (r, w') \<Longrightarrow> sameTables w w' \<and> (\<forall>x. r = Inr x \<longrightarrow> x = q w')"
  by (auto simp: rwQuery_def rwCall_def sameTables_def intro: exI[of _ "rwFaults w"] split: list.splits if_splits prod.splits)

lemma GetProvider_tables:
  assumes "GetProvider org ns ty w = (r, w')"
  shows "sameTables w w' \<and> (\<forall>x. r = Inr x \<longrightarrow> x = firstRow (providerRows org ns ty w))"
proof (cases "org = ''''")
  case True
  with assms show ?thesis by (auto simp: GetProvider_def rwCall_def sameTables_def intro: exI[of _ "rwFaults w"] split: list.splits)
next
  case False
  with assms have "rwQuery (\<lambda>w. firstRow (providerRows org ns ty w)) w = (r, w')" by (simp add: GetProvider_def)
  from rwQuery_tables[OF this] show ?thesis by (auto simp: sameTables_sel)
qed

lemma withOrg_cases:
  obtains n msg w1 where "withOrg k w = (RError n msg, w1)"
  | org w1 where "withOrg k w = k org w1" "sameTables w w1" "rwOrg w = Some org"
proof -
  obtain r w1 where q: "GetDefaultOrganization w = (r, w1)" by (cases "GetDefaultOrganization w")
  with rwQuery_tables[of rwOrg w r w1] have t: "sameTables w w1" "\<And>x. r = Inr x \<Longrightarrow> x = rwOrg w"
    by (auto simp: GetDefaultOrganization_def sameTables_sel)
  show thesis
  proof (cases r)
    case (Inl e)
    with q that(1) show thesis by (simp add: withOrg_def)
  next
    case (Inr x)
    with q t(1) t(2)[OF Inr] that show thesis by (cases "rwOrg w") (simp_all add: withOrg_def)
  qed
qed

lemma withProvider_cases:
  obtains n msg w1 where "withProvider org ns ty k w = (RError n msg, w1)"
  | w1 where "withProvider org ns ty k w = k (firstRow (providerRows org ns ty w)) w1" "sameTables w w1"
proof -
  obtain r w1 where q: "GetProvider org ns ty w = (r, w1)" by (cases "GetProvider org ns ty w")
  with GetProvider_tables[OF q] that show thesis by (cases r) (auto simp: withProvider_def)
qed

lemma withVersion_cases:
  obtains n msg w1 where "withVersion prov ver k w = (RError n msg, w1)"
  | w1 where "withVersion prov ver k w = k (find (\<lambda>v. vProviderID v = prov \<and> vVersion v = ver) (rwVersions w)) w1" "sameTables w w1"
proof -
  obtain r w1 where q: "GetVersion prov ver w = (r, w1)" by (cases "GetVersion prov ver w")
  with rwQuery_tables[OF q[unfolded GetVersion_def]] have "sameTables w w1"
    "\<And>x. r = Inr x \<Longrightarrow> x = find (\<lambda>v. vProviderID v = prov \<and> vVersion v = ver) (rwVersions w)"
    by (auto simp: sameTables_sel)
  with q that show thesis by (cases r) (auto simp: withVersion_def)
qed

lemma status_cases:
  assumes "GetVersionApprovalStatus i w = (r, w1)"
  shows "sameTables w w1 \<and> (\<forall>x. r = Inr x \<longrightarrow>
    x = (case find (\<lambda>m. mpvProviderVersionID m = i) (rwMirrored w) of None \<Rightarrow> None | Some m \<Rightarrow> mpvApprovalStatus m))"
  using rwQuery_tables[OF assms[unfolded GetVersionApprovalStatus_def]] by (auto simp: sameTables_sel)

lemma find_unique:
  assumes "distinct (map (\<lambda>v. (vProviderID v, vVersion v)) vs)" "v \<in> set vs"
  shows "find (\<lambda>u. vProviderID u = vProviderID v \<and> vVersion u = vVersion v) vs = Some v"
  using assms by (intro find_distinct_key[where f = "\<lambda>v. (vProviderID v, vVersion v)"]) simp_all

lemma status_closed:
  assumes "gateTables w" "\<not> approvalExclusionClause w v" "sameTables w w1" "GetVersionApprovalStatus (vID v) w1 = (Inr st, w2)"
  shows "gateClosed st"
  using status_cases[OF assms(4)] gate_status[OF assms(1), of v] assms(2,3) by (simp add: sameTables_sel)

lemma downloadVersion_closed:
  assumes "gateTables w" "\<not> approvalExclusionClause w v" "sameTables w w1"
  shows "\<exists>n msg. fst (downloadVersion E os arch v w1) = RError n msg"
  using status_closed[OF assms] by (cases "GetVersionApprovalStatus (vID v) w1"; cases "fst (GetVersionApprovalStatus (vID v) w1)")
    (auto simp: downloadVersion_def)

lemma platformIndex_closed:
  assumes "gateTables w" "\<not> approvalExclusionClause w v" "sameTables w w1"
  shows "\<exists>n msg. fst (platformIndex E client v w1) = RError n msg"
  using status_closed[OF assms] by (cases "GetVersionApprovalStatus (vID v) w1"; cases "fst (GetVersionApprovalStatus (vID v) w1)")
    (auto simp: platformIndex_def)

text \<open>The version that a request addresses, whatever the database does on the way.\<close>

lemma version_request:
  assumes "gateTables w" "v \<in> set (rwVersions w)" "rwOrg w = Some org" "firstRow (providerRows org ns ty w) = Some p" "vProviderID v = pID p"
  obtains n msg w1 where "withOrg (\<lambda>org. withProvider org ns ty (\<lambda>prov w. case prov of None \<Rightarrow> kn org w | Some p \<Rightarrow>
      withVersion (pID p) (vVersion v) (kv org p) w)) w = (RError n msg, w1)"
  | w1 where "withOrg (\<lambda>org. withProvider org ns ty (\<lambda>prov w. case prov of None \<Rightarrow> kn org w | Some p \<Rightarrow>
      withVersion (pID p) (vVersion v) (kv org p) w)) w = kv org p (Some v) w1" "sameTables w w1"
proof -
  let ?kp = "\<lambda>org prov w. case prov of None \<Rightarrow> kn org w | Some p \<Rightarrow> withVersion (pID p) (vVersion v) (kv org p) w"
  let ?ko = "\<lambda>org. withProvider org ns ty (?kp org)"
  have fv: "find (\<lambda>u. vProviderID u = pID p \<and> vVersion u = vVersion v) (rwVersions w) = Some v"
    using find_unique[OF gateTables_parts(1)[OF assms(1)] assms(2)] assms(5) by simp
  show thesis
  proof (cases rule: withOrg_cases[of ?ko w])
    case (1 n msg w1) then show thesis by (rule that(1))
  next
    case o: (2 org' w1)
    with assms(3) have "org' = org" by simp
    note o = o[unfolded this]
    show thesis
    proof (cases rule: withProvider_cases[of org ns ty "?kp org" w1])
      case (1 n msg w2) with o that(1) show thesis by simp
    next
      case q: (2 w2)
      from q o assms(4) have e: "withOrg ?ko w = withVersion (pID p) (vVersion v) (kv org p) w2"
        by (simp add: sameTables_sel)
      have t: "sameTables w w2" using sameTables_trans[OF o(2) q(2)] .
      show thesis
      proof (cases rule: withVersion_cases[of "pID p" "vVersion v" "kv org p" w2])
        case (1 n msg w3) with e that(1) show thesis by simp
      next
        case (2 w3)
        with e t fv that(2)[of w3] sameTables_trans[OF t 2(2)] show thesis by (simp add: sameTables_sel)
      qed
    qed
  qed
qed

lemma versionsJSON_ids: "versionsJSON E vs w = (Inr js, w') \<Longrightarrow> map vjID js = map vID vs"
  by (induction vs arbitrary: w js w') (auto simp: versionJSON_def split: sum.splits prod.splits)

lemma paginated_visible:
  assumes "ListVersionsPaginated prov l off w = (Inr (vs, n), w')" "v \<in> set vs"
  shows "v \<in> set (rwVersions w)" "approvalExclusionClause w v"
proof -
  obtain w1 where q: "rwQuery (\<lambda>w. length (visibleVersions prov w)) w = (Inr n, w1)"
    "rwQuery (\<lambda>w. page l off (sort_key (\<lambda>v. - vCreatedAt v) (visibleVersions prov w))) w1 = (Inr vs, w')"
    using assms(1) by (auto simp: ListVersionsPaginated_def split: sum.splits prod.splits)
  have t: "sameTables w w'" using rwQuery_tables[OF q(1)] rwQuery_tables[OF q(2)] sameTables_trans by blast
  have "vs = page l off (sort_key (\<lambda>v. - vCreatedAt v) (visibleVersions prov w'))" using rwQuery_tables[OF q(2)] by simp
  then have "v \<in> set (visibleVersions prov w')" using assms(2) by (auto simp: page_def dest!: in_set_takeD in_set_dropD)
  then show "v \<in> set (rwVersions w)" "approvalExclusionClause w v" by (auto simp: visibleVersions_def sameTables_sel[OF t])
qed

text \<open>The answer of a listing comes from the found provider.\<close>

lemma provider_request:
  assumes "fst (withOrg (\<lambda>org. withProvider org ns ty (kp org)) w) = r" "\<And>n msg. r \<noteq> RError n msg"
  obtains org w1 where "rwOrg w = Some org" "sameTables w w1" "fst (kp org (firstRow (providerRows org ns ty w)) w1) = r"
proof -
  from assms obtain org w1 where o: "fst (withProvider org ns ty (kp org) w1) = r" "sameTables w w1" "rwOrg w = Some org"
    by (cases rule: withOrg_cases[of "\<lambda>org. withProvider org ns ty (kp org)" w]) auto
  show thesis
  proof (cases rule: withProvider_cases[of org ns ty "kp org" w1])
    case (1 m msg w2)
    with o(1) assms(2)[of m msg] show thesis by simp
  next
    case (2 w2)
    with o(1) have "fst (kp org (firstRow (providerRows org ns ty w)) w2) = r" by (simp add: sameTables_sel[OF o(2)])
    then show thesis using that o(3) sameTables_trans[OF o(2) 2(2)] by blast
  qed
qed

lemma listing_closed:
  assumes "gateTables w" "v \<in> set (rwVersions w)" "\<not> approvalExclusionClause w v"
    "fst (ListVersionsHandler E ns ty l off w) = RVersions js n a b"
  shows "vID v \<notin> vjID ` set js"
proof
  assume v: "vID v \<in> vjID ` set js"
  obtain org w1 where o: "sameTables w w1"
    "fst (case firstRow (providerRows org ns ty w) of None \<Rightarrow> (RError 404 ''Provider not found'', w1)
          | Some p \<Rightarrow> listAnswer E (clampLimit l) (clampOffset off) p w1) = RVersions js n a b"
    using assms(4)[unfolded ListVersionsHandler_def] by (rule provider_request) auto
  then obtain p where "fst (listAnswer E (clampLimit l) (clampOffset off) p w1) = RVersions js n a b"
    by (cases "firstRow (providerRows org ns ty w)") simp_all
  then obtain vs n' w3 w4 where r: "ListVersionsPaginated (pID p) (clampLimit l) (clampOffset off) w1 = (Inr (vs, n'), w3)"
    "versionsJSON E vs w3 = (Inr js, w4)" by (auto simp: listAnswer_def split: sum.splits prod.splits)
  have "vjID ` set js = vID ` set vs" using versionsJSON_ids[OF r(2)] by (metis set_map)
  with v obtain u where u: "u \<in> set vs" "vID u = vID v" by auto
  have "u \<in> set (rwVersions w)" "approvalExclusionClause w u"
    using paginated_visible[OF r(1) u(1)] by (simp_all add: sameTables_sel[OF o(1)])
  with u(2) assms(2,3) gateTables_parts(2)[OF assms(1)] show False by (auto simp: distinct_map dest: inj_onD)
qed

lemma index_closed:
  assumes "gateTables w" "v \<in> set (rwVersions w)" "\<not> approvalExclusionClause w v" "\<And>xs. set (reSort E xs) \<subseteq> set xs"
    and p: "rwOrg w = Some org" "firstRow (providerRows org ns ty w) = Some p" "vProviderID v = pID p"
    and i: "fst (IndexHandler E ns ty w) = RIndex vs"
  shows "vVersion v \<notin> vs"
proof
  assume v: "vVersion v \<in> vs"
  obtain org' w1 where o: "rwOrg w = Some org'" "sameTables w w1"
    "fst (case firstRow (providerRows org' ns ty w) of Some p \<Rightarrow> indexAnswer E p w1
          | None \<Rightarrow> pullProvider E True org' ns ty (indexAnswer E) w1) = RIndex vs"
    using i[unfolded IndexHandler_def] by (rule provider_request) auto
  with p have "fst (indexAnswer E p w1) = RIndex vs" by simp
  then obtain us w3 where r: "ListVisibleVersions (reSort E) (pID p) w1 = (Inr us, w3)" "vs = vVersion ` set us"
    by (auto simp: indexAnswer_def split: sum.splits prod.splits)
  note q = rwQuery_tables[OF r(1)[unfolded ListVisibleVersions_def listVersions_def]]
  have t: "sameTables w w3" using q o(2) sameTables_trans by blast
  have us: "us = reSort E (filter (\<lambda>v. vProviderID v = pID p \<and> (\<not> True \<or> approvalExclusionClause w3 v)) (rwVersions w3))"
    using q by simp
  from v r(2) obtain u where u: "u \<in> set us" "vVersion u = vVersion v" by auto
  then have "u \<in> set (filter (\<lambda>v. vProviderID v = pID p \<and> (\<not> True \<or> approvalExclusionClause w3 v)) (rwVersions w3))"
    using assms(4) us by blast
  then have h: "u \<in> set (rwVersions w)" "vProviderID u = vProviderID v" "approvalExclusionClause w u"
    by (simp_all add: sameTables_sel[OF t] p(3))
  have "find (\<lambda>x. vProviderID x = vProviderID v \<and> vVersion x = vVersion v) (rwVersions w) = Some v"
    "find (\<lambda>x. vProviderID x = vProviderID v \<and> vVersion x = vVersion v) (rwVersions w) = Some u"
    using find_unique[OF gateTables_parts(1)[OF assms(1)]] assms(2) h u(2) by metis+
  with h(3) assms(3) show False by simp
qed

lemma trimSuffix_append [simp]: "trimSuffix (s @ p) p = s"
  by (simp add: trimSuffix_def hasSuffix_def)

text \<open>
  A pending or rejected version stays closed whatever the database does: for every schedule of failing
  calls, with or without pull-through, a request that names the version gets an error and no listing of its
  provider contains it.
\<close>

theorem hidden_version_fails_closed:
  assumes "gateTables w" "v \<in> set (rwVersions w)" "\<not> approvalExclusionClause w v" "\<forall>xs. set (reSort E xs) \<subseteq> set xs"
    and "rwOrg w = Some org" "firstRow (providerRows org ns ty w) = Some p" "vProviderID v = pID p" "vVersion v \<noteq> ''''"
  shows "(\<exists>n msg. fst (DownloadHandler E ns ty (vVersion v) os arch w) = RError n msg) \<and>
    (\<exists>n msg. fst (PlatformIndexHandler E client ns ty (vVersion v @ ''.json'') w) = RError n msg) \<and>
    (\<forall>js n a b. fst (ListVersionsHandler E ns ty l off w) = RVersions js n a b \<longrightarrow> vID v \<notin> vjID ` set js) \<and>
    (\<forall>vs. fst (IndexHandler E ns ty w) = RIndex vs \<longrightarrow> vVersion v \<notin> vs)"
proof (intro conjI allI impI)
  note req = version_request[OF assms(1,2,5,6,7)]
  show "\<exists>n msg. fst (DownloadHandler E ns ty (vVersion v) os arch w) = RError n msg"
  proof (cases "ValidatePlatform os arch")
    case Inr
    show ?thesis
    proof (rule req[of "\<lambda>org w. (RError 404 ''Provider not found'', w)"
          "\<lambda>org p version w. case version of None \<Rightarrow> (RError 404 ''Provider version not found'', w) | Some v \<Rightarrow> downloadVersion E os arch v w"])
    qed (use Inr downloadVersion_closed[OF assms(1,3), of _ E os arch] in \<open>simp_all add: DownloadHandler_def\<close>)
  qed (simp add: DownloadHandler_def)
  show "\<exists>n msg. fst (PlatformIndexHandler E client ns ty (vVersion v @ ''.json'') w) = RError n msg"
  proof (rule req[of "\<lambda>org w. pullProvider E False org ns ty
          (\<lambda>p. withVersion (pID p) (vVersion v) (platformIndexVersion E client org ns ty (vVersion v) p)) w"
        "\<lambda>org p. platformIndexVersion E client org ns ty (vVersion v) p"])
  qed (use assms(8) platformIndex_closed[OF assms(1,3), of _ E client] in \<open>simp_all add: PlatformIndexHandler_def platformIndexVersion_def Let_def\<close>)
  fix js n a b assume "fst (ListVersionsHandler E ns ty l off w) = RVersions js n a b"
  then show "vID v \<notin> vjID ` set js" by (rule listing_closed[OF assms(1,2,3)])
next
  fix vs assume "fst (IndexHandler E ns ty w) = RIndex vs"
  then show "vVersion v \<notin> vs" by (rule index_closed[OF assms(1,2,3) assms(4)[THEN spec] assms(5,6,7)])
qed


section \<open>Concrete registries\<close>

definition memBackend :: "(string \<times> string) list Storage" where
  "memBackend =
     \<lparr>sbUpload = (\<lambda>p rd n s. if snd rd then (Inl ''read'', s)
        else (Inr \<lparr>urPath = p, urSize = length (fst rd), urChecksum = fst rd\<rparr>, AList.update p (fst rd) s)),
      sbDownload = (\<lambda>p s. (case map_of s p of None \<Rightarrow> Inl ''missing'' | Some d \<Rightarrow> Inr (d, False), s)),
      sbDelete = (\<lambda>p s. (Inr (), AList.delete p s)),
      sbGetURL = (\<lambda>p s. (Inr (''https://s/'' @ p), s)),
      sbExists = (\<lambda>p s. (Inr (map_of s p \<noteq> None), s)),
      sbGetMetadata = (\<lambda>p s. (case map_of s p of None \<Rightarrow> Inl ''missing''
        | Some d \<Rightarrow> Inr \<lparr>fmPath = p, fmSize = length d, fmChecksum = d, fmLastModified = 0\<rparr>, s))\<rparr>"

definition longer :: "string list \<Rightarrow> string" where
  "longer xs = replicate (Suc (sum_list (map length xs))) CHR ''i''"

definition exUpstream :: upstream where
  "exUpstream =
     \<lparr>upList = (\<lambda>b ns ty. Inr [\<lparr>upVersion = ''2.0.0'', upProtocols = [''5.0''], upPlatforms = [(''linux'', ''amd64'')]\<rparr>]),
      upPackage = (\<lambda>b ns ty v os arch. Inr \<lparr>upSHASumsURL = ''https://up/S'', upSHASumsSignatureURL = '''', upKeys = []\<rparr>),
      upFile = (\<lambda>b u. Inr ''ab  p_2.0.0_linux_amd64.zip''), upSort = id\<rparr>"

definition exEnvOn :: "'s Storage \<Rightarrow> bool \<Rightarrow> 's regenv" where
  "exEnvOn B pt =
     \<lparr>reNewID = longer, reSort = id, rePlatformOrd = id, reShasumOrd = id, reSemver = (\<lambda>v. v \<noteq> '''' \<and> CHR ''/'' \<notin> set v \<and> \<not> contains v ''..'' \<and> last v \<noteq> CHR ''.''),
      reJSON = (\<lambda>s. None), reSha = id, reHashZip = (\<lambda>d. None), reKeyRing = (\<lambda>k. True), reArmorDecode = (\<lambda>s. None),
      reCheckDetached = (\<lambda>k d s. k = d @ s), reResolveKey = id, reKeyID = id, reBackend = B, reStorageReady = True,
      rePullThrough = pt, reUpstream = exUpstream, reDefaultBackend = ''local'', reServeDirectly = True\<rparr>"

definition exProvider :: Provider where
  "exProvider = (newProvider ''o'' ''acme'' ''dns'')\<lparr>pID := ''p1''\<rparr>"

definition exVersion :: "string \<Rightarrow> string \<Rightarrow> ProviderVersion" where
  "exVersion i ver = (newProviderVersion ''p1'' ver [''5.0''] '''')\<lparr>vID := i\<rparr>"

definition exPlatform :: "string \<Rightarrow> string \<Rightarrow> string \<Rightarrow> ProviderPlatform" where
  "exPlatform i vid path =
     \<lparr>plID = i, plProviderVersionID = vid, plOS = ''linux'', plArch = ''amd64'', plFilename = ''f.zip'', plStoragePath = path,
      plStorageBackend = ''local'', plSizeBytes = 4, plShasum = ''aa'', plH1Hash = None, plDownloadCount = 0\<rparr>"

definition exRegistry :: "'s \<Rightarrow> MirroredProviderVersion list \<Rightarrow> 's regworld" where
  "exRegistry s rows =
     \<lparr>rwOrg = Some ''o'', rwUsers = [], rwProviders = [exProvider], rwVersions = [exVersion ''v1'' ''1.0.0'', exVersion ''v2'' ''1.1.0''],
      rwPlatforms = [exPlatform ''f1'' ''v1'' ''x'', exPlatform ''f2'' ''v2'' ''providers/acme/dns/1.1.0/linux/amd64/f.zip''],
      rwMirrored = rows, rwShasums = [], rwMirrors = [], rwModules = [], rwModuleVersions = [], rwDocs = [], rwScans = [],
      rwNow = 0, rwFaults = [], rwIO = [], rwStore = s\<rparr>"

definition exPending :: "MirroredProviderVersion list" where
  "exPending = [\<lparr>mpvProviderVersionID = ''v2'', mpvApprovalStatus = Some ''pending_approval''\<rparr>]"

lemmas ex_defs = exRegistry_def exPending_def exVersion_def exProvider_def newProvider_def newProviderVersion_def exPlatform_def

definition exMem :: "(string \<times> string) list regworld" where
  "exMem = exRegistry [] exPending"

lemma exRegistry_tables: "gateTables (exRegistry s exPending)"
  by (simp add: gateTables_def ex_defs)

theorem approval_gate_noninterference_witness:
  "hiddenIDs exMem = [''v2''] \<and>
   fst (handle (exEnvOn memBackend False) (GetIndex ''acme'' ''dns'') exMem) =
   fst (handle (exEnvOn memBackend False) (GetIndex ''acme'' ''dns'') (dropVersions [''v2''] exMem))"
proof -
  have h: "hiddenIDs exMem = [''v2'']"
    by (simp add: exMem_def hiddenIDs_def approvalExclusionClause_def ex_defs)
  have "fst (handle (exEnvOn memBackend False) (GetIndex ''acme'' ''dns'') exMem) =
    fst (handle (exEnvOn memBackend False) (GetIndex ''acme'' ''dns'') (dropVersions (hiddenIDs exMem) exMem))"
    by (rule approval_gate_noninterference) (simp_all add: exRegistry_tables exMem_def, simp_all add: exEnvOn_def exRegistry_def)
  with h show ?thesis by simp
qed

theorem hidden_version_fails_closed_witness:
  "\<exists>n msg. fst (DownloadHandler (exEnvOn memBackend True) ''acme'' ''dns'' ''1.1.0'' ''linux'' ''amd64''
      (exMem\<lparr>rwFaults := [DOk, DOk, DOk, DFail]\<rparr>)) = RError n msg"
proof -
  let ?w = "exMem\<lparr>rwFaults := [DOk, DOk, DOk, DFail]\<rparr>" and ?v = "exVersion ''v2'' ''1.1.0''"
  have 1: "gateTables ?w" by (simp add: gateTables_def exMem_def ex_defs)
  have 2: "?v \<in> set (rwVersions ?w)" "\<not> approvalExclusionClause ?w ?v"
    by (simp_all add: approvalExclusionClause_def exMem_def ex_defs)
  have 3: "firstRow (providerRows ''o'' ''acme'' ''dns'' ?w) = Some exProvider"
    by (simp add: providerRows_def firstRow_def exMem_def ex_defs)
  have 4: "\<forall>xs. set (reSort (exEnvOn memBackend True) xs) \<subseteq> set xs" "rwOrg ?w = Some ''o''" by (simp_all add: exEnvOn_def exMem_def exRegistry_def)
  have 5: "vProviderID ?v = pID exProvider" "vVersion ?v \<noteq> ''''" "vVersion ?v = ''1.1.0''" by (simp_all add: exVersion_def exProvider_def newProviderVersion_def)
  show ?thesis using hidden_version_fails_closed[OF 1 2 4 3 5(1,2), THEN conjunct1, of "''linux''" "''amd64''"] unfolding 5(3) .
qed

section \<open>Where the gate is open\<close>

text \<open>
  The public detail endpoint is not gated: it lists a pending version with its platforms and
  checksums, which the protocol endpoints hide.
\<close>

theorem detail_reveals_hidden:
  "\<exists>js. fst (GetProviderHandler (exEnvOn memBackend False) ''acme'' ''dns'' exMem) = RProvider exProvider js \<and>
     map vjID js = [''v1'', ''v2''] \<and> map (\<lambda>j. map pjShasum (vjPlatforms j)) js = [[''aa''], [''aa'']] \<and> hiddenIDs exMem = [''v2'']"
  by (simp add: GetProviderHandler_def withAdminProvider_def GetDefaultOrganization_def GetProvider_def rwQuery_def rwCall_def
      exMem_def ex_defs providerRows_def firstRow_def ListVersions_def listVersions_def exEnvOn_def platformsOrNone_def
      ListPlatforms_def detailJSON_def versionJSON_def platformJSON_def hiddenIDs_def approvalExclusionClause_def)

text \<open>
  Two mirror configurations may track the same version with different decisions: the listing then hides it
  while the download, which looks at one row only, serves it.
\<close>

theorem conflicting_approvals_served:
  "let w = (exRegistry [] [\<lparr>mpvProviderVersionID = ''v2'', mpvApprovalStatus = Some ''approved''\<rparr>,
                           \<lparr>mpvProviderVersionID = ''v2'', mpvApprovalStatus = Some ''rejected''\<rparr>]) in
   fst (IndexHandler (exEnvOn memBackend False) ''acme'' ''dns'' w) = RIndex {''1.0.0''} \<and>
   respStatus (fst (DownloadHandler (exEnvOn memBackend False) ''acme'' ''dns'' ''1.1.0'' ''linux'' ''amd64'' w)) = 200"
  by (simp add: Let_def IndexHandler_def indexAnswer_def DownloadHandler_def downloadVersion_def withOrg_def withProvider_def withVersion_def
      GetDefaultOrganization_def GetProvider_def GetVersion_def GetVersionApprovalStatus_def GetPlatform_def rwQuery_def rwCall_def
      ex_defs providerRows_def firstRow_def ListVisibleVersions_def listVersions_def exEnvOn_def approvalExclusionClause_def
      ValidatePlatform_def isValidOS_def isValidArch_def SupportedOS_def SupportedArch_def validateOSArchCombination_def
      gateClosed_def onStore_def memBackend_def sumsURL_def hasPrefix_def)

text \<open>
  Pull-through ignores the approval requirement of its mirror: a version fetched from upstream gets no
  tracking row, so it is listed and served at once although the configuration requires approval.
\<close>

definition exGatedMirror :: MirrorConfiguration where
  "exGatedMirror = \<lparr>mcID = ''m'', mcUpstreamRegistryURL = ''https://up'', mcOrganizationID = Some ''o'', mcNamespaceFilter = None,
     mcProviderFilter = None, mcVersionFilter = None, mcEnabled = True, mcRequiresApproval = True, mcPullThroughEnabled = True, mcCreatedAt = 0\<rparr>"

theorem pull_through_ungated:
  "let w = (exRegistry [] [])\<lparr>rwProviders := [], rwVersions := [], rwPlatforms := [], rwMirrors := [exGatedMirror]\<rparr> in
   mcRequiresApproval exGatedMirror \<and>
   fst (IndexHandler (exEnvOn memBackend True) ''acme'' ''dns'' w) = RIndex {''2.0.0''}"
  by (simp add: Let_def IndexHandler_def indexAnswer_def withOrg_def withProvider_def pullProvider_def pull_def
      GetDefaultOrganization_def GetProvider_def GetVersion_def rwQuery_def rwExec_def rwCall_def exGatedMirror_def
      ex_defs providerRows_def firstRow_def ListVisibleVersions_def listVersions_def exEnvOn_def approvalExclusionClause_def
      GetPullThroughConfigsForProvider_def matchesJSONFilter_def FetchProviderMetadata_def exUpstream_def FilterVersions_def
      UpsertProvider_def CreateProvider_def UpsertVersion_def CreateVersion_def fetchAndStoreShasums_def UpsertProviderVersionShasums_def longer_def)


section \<open>The gate of direct file serving\<close>

lemma Clean_dot: "a \<noteq> [] \<Longrightarrow> Clean (a @ ''/./'' @ b) = Clean (a @ ''/'' @ b)"
proof -
  assume a: "a \<noteq> []"
  have "splitOn (CHR ''/'') (a @ ''/./'' @ b) = splitOn (CHR ''/'') a @ [''.''] @ splitOn (CHR ''/'') b"
    using splitOn_append_sep[of "CHR ''/''" a "''./'' @ b"] by simp
  moreover have "splitOn (CHR ''/'') (a @ ''/'' @ b) = splitOn (CHR ''/'') a @ splitOn (CHR ''/'') b"
    using splitOn_append_sep[of "CHR ''/''" a b] by simp
  moreover have "hasPrefix (a @ x) ''/'' = hasPrefix a ''/''" for x using a by (cases a) (auto simp: hasPrefix_def)
  ultimately have "cleanElems (a @ ''/./'' @ b) = cleanElems (a @ ''/'' @ b)" "hasPrefix (a @ ''/./'' @ b) ''/'' = hasPrefix (a @ ''/'' @ b) ''/''"
    by (simp_all add: cleanElems_def cleanStep_def)
  then show ?thesis by (simp add: Clean_def)
qed

lemma safeJoin_dot: "basePath L \<noteq> [] \<Longrightarrow> safeJoin L p = Inr full \<Longrightarrow> safeJoin L (''./'' @ p) = Inr full"
  using Clean_dot[of "basePath L" p] by (simp add: safeJoin_def Join_def Let_def split: if_splits)

lemma contains_dot: "contains (''./'' @ p) ''..'' = contains p ''..''" "contains (''./'' @ p) ''//'' = (hasPrefix p ''/'' \<or> contains p ''//'')"
  by (auto simp: hasPrefix_def)

lemma parse_dot: "parseProviderFilePath (''./'' @ p) = None"
  by (simp add: parseProviderFilePath_def Let_def split: list.splits)

lemma osWriteFile_nofault: "fsFaults s = [] \<Longrightarrow> fsFaults (snd (osWriteFile p d s)) = []"
  by (auto simp: osWriteFile_def osCall_nofault split: prod.splits option.splits fnode.splits if_splits)

lemma GetMetadata_nofault:
  assumes "fsFaults s = []" "safeJoin L p = Inr full" "node s full = Some (FFile d t)"
  obtains md s' where "GetMetadata sha L p s = (Inr md, s')" "node s' full = Some (FFile d t)" "fsFaults s' = []"
proof -
  have n: "full \<noteq> full @ ''.sha256''" by simp
  have r: "osStat full s = (Inr (length d, t), s)" "osOpen full s = (Inr (FFile d t), s)" "readAll (FFile d t) s = (Inr d, s)"
    using assms by (simp_all add: osStat_def osOpen_def readAll_def osCall_nofault)
  show thesis
  proof (cases "node s (full @ ''.sha256'')")
    case None
    then have "osOpen (full @ ''.sha256'') s = (Inl NotExist, s)" using assms(1) by (simp add: osOpen_def osCall_nofault)
    with assms r that osWriteFile_keeps[OF n] osWriteFile_nofault show thesis by (simp add: GetMetadata_def)
  next
    case (Some x)
    then have "osOpen (full @ ''.sha256'') s = (Inr x, s)" using assms(1) by (simp add: osOpen_def osCall_nofault)
    with assms r that osWriteFile_keeps[OF n] osWriteFile_nofault show thesis by (cases x) (simp_all add: GetMetadata_def)
  qed
qed

lemma serve_open:
  assumes b: "reBackend E = localBackend sha L" and f: "fsFaults (rwStore w1) = []" "safeJoin L path = Inr full"
    "node (rwStore w1) full = Some (FFile d t)"
    and g: "serveGate path w = (False, w1)" "\<not> contains path ''..''" "\<not> contains path ''//''"
  shows "\<exists>c n. fst (ServeFileHandler E (''/'' @ path) w) = RFile c n (d, False)"
proof -
  obtain md s' where m: "GetMetadata sha L path (rwStore w1) = (Inr md, s')" "node s' full = Some (FFile d t)" "fsFaults s' = []"
    using GetMetadata_nofault[OF f] .
  have "Exists L path (rwStore w1) = (Inr True, rwStore w1)"
    using f by (simp add: Exists_def osStat_def osCall_nofault)
  moreover have "localRead L path s' = (Inr (d, False), s')"
    using m f(2) by (simp add: localRead_def Download_def osOpen_def readAll_def osCall_nofault)
  moreover have "trimPrefix (CHR ''/'' # path) ''/'' = path" using trimPrefix_append[of "''/''" path] by simp
  ultimately show ?thesis using g m by (simp add: ServeFileHandler_def Let_def b localBackend_def onStore_def)
qed

text \<open>
  Direct file serving can be asked around the gate: for every file of a local store, whatever the approval
  state of its version, a request with \<^verbatim>\<open>./\<close> before its path is not recognised as a provider file,
  while the storage backend resolves it to the same file and delivers it.
\<close>

theorem serve_gate_bypass:
  assumes "reBackend E = localBackend sha L" "basePath L \<noteq> []" "fsFaults (rwStore w) = []" "safeJoin L path = Inr full"
    "node (rwStore w) full = Some (FFile d t)" "\<not> contains path ''..''" "\<not> contains path ''//''" "\<not> hasPrefix path ''/''"
  shows "\<exists>c n. fst (ServeFileHandler E (''/./'' @ path) w) = RFile c n (d, False)"
proof -
  have "serveGate (''./'' @ path) w = (False, w)" by (simp only: serveGate_def parse_dot option.simps)
  from serve_open[OF assms(1,3) safeJoin_dot[OF assms(2,4)] assms(5) this] assms(6-8) show ?thesis
    by (simp only: contains_dot) simp
qed

text \<open>
  On the canonical path the gate holds: with a working database the file of a version that is pending or
  rejected is answered like a missing file, before storage is touched.
\<close>

theorem serve_gate_closed:
  assumes "gateTables w" "rwFaults w = []" "v \<in> set (rwVersions w)" "\<not> approvalExclusionClause w v"
    and "rwOrg w = Some org" "org \<noteq> ''''" "firstRow (providerRows org ns ty w) = Some p" "vProviderID v = pID p"
    and path: "parseProviderFilePath path = Some (ns, ty, vVersion v, os, arch)" "\<not> contains path ''..''" "\<not> contains path ''//''"
  shows "ServeFileHandler E (''/'' @ path) w = (RError 404 ''File not found'', w)"
proof -
  have "find (\<lambda>u. vProviderID u = pID p \<and> vVersion u = vVersion v) (rwVersions w) = Some v"
    using find_unique[OF gateTables_parts(1)[OF assms(1)] assms(3)] assms(8) by simp
  moreover have "trimPrefix (CHR ''/'' # path) ''/'' = path" using trimPrefix_append[of "''/''" path] by simp
  ultimately show ?thesis using assms gate_status[OF assms(1), of v]
    by (simp add: ServeFileHandler_def Let_def serveGate_def GetDefaultOrganization_def GetProvider_def GetVersion_def
        GetVersionApprovalStatus_def rwQuery_ok)
qed

definition exGateFs :: fs where
  "exGateFs = \<lparr>fsNodes = [(''storage/providers/acme/dns/1.1.0/linux/amd64/f.zip'', FFile ''PK'' 1)], fsNow = 5,
     fsDirStat = (\<lambda>_. (0, 0)), fsFaults = []\<rparr>"

definition exGatePath :: string where "exGatePath = ''providers/acme/dns/1.1.0/linux/amd64/f.zip''"

lemma exGate_path:
  "safeJoin exLocal exGatePath = Inr ''storage/providers/acme/dns/1.1.0/linux/amd64/f.zip''"
  "\<not> contains exGatePath ''..''" "\<not> contains exGatePath ''//''" "\<not> hasPrefix exGatePath ''/''"
  "parseProviderFilePath exGatePath = Some (''acme'', ''dns'', ''1.1.0'', ''linux'', ''amd64'')"
  by code_simp+

theorem serve_gate_bypass_witness:
  "\<exists>c n. fst (ServeFileHandler (exEnvOn (localBackend (\<lambda>d. d) exLocal) False)
      (''/./providers/acme/dns/1.1.0/linux/amd64/f.zip'') (exRegistry exGateFs exPending)) = RFile c n (''PK'', False)"
proof -
  have "\<exists>c n. fst (ServeFileHandler (exEnvOn (localBackend (\<lambda>d. d) exLocal) False) (''/./'' @ exGatePath) (exRegistry exGateFs exPending)) =
      RFile c n (''PK'', False)"
    by (rule serve_gate_bypass[OF _ _ _ exGate_path(1) _ exGate_path(2-4)])
      (simp_all add: exEnvOn_def exRegistry_def exGateFs_def exLocal_def node_def)
  then show ?thesis by (simp add: exGatePath_def)
qed

theorem serve_gate_closed_witness:
  "ServeFileHandler (exEnvOn (localBackend (\<lambda>d. d) exLocal) False) (''/'' @ exGatePath) (exRegistry exGateFs exPending) =
   (RError 404 ''File not found'', exRegistry exGateFs exPending)"
proof (rule serve_gate_closed[OF exRegistry_tables, where v = "exVersion ''v2'' ''1.1.0''" and org = "''o''" and p = exProvider])
  show "parseProviderFilePath exGatePath = Some (''acme'', ''dns'', vVersion (exVersion ''v2'' ''1.1.0''), ''linux'', ''amd64'')"
    using exGate_path(5) by (simp add: ex_defs)
qed (simp_all add: exGate_path, simp_all add: ex_defs approvalExclusionClause_def providerRows_def firstRow_def)

text \<open>
  Direct file serving fails open: while the database fails, the file of a pending version is delivered also
  on its canonical path.
\<close>

theorem serve_fails_open:
  "\<exists>c n. fst (ServeFileHandler (exEnvOn (localBackend (\<lambda>d. d) exLocal) False) (''/'' @ exGatePath)
      ((exRegistry exGateFs exPending)\<lparr>rwFaults := [DFail]\<rparr>)) = RFile c n (''PK'', False)"
proof (rule serve_open[OF _ _ exGate_path(1) _ _ exGate_path(2,3), where ?w1.0 = "exRegistry exGateFs exPending"])
  show "serveGate exGatePath ((exRegistry exGateFs exPending)\<lparr>rwFaults := [DFail]\<rparr>) = (False, exRegistry exGateFs exPending)"
    by (simp add: serveGate_def exGate_path(5) GetDefaultOrganization_def rwQuery_def rwCall_def exRegistry_def)
qed (simp_all add: exEnvOn_def exRegistry_def exGateFs_def node_def)

section \<open>What an upload leaves behind\<close>

lemma bindR_Inr: "bindR m k = (Inr y, w') \<longleftrightarrow> (\<exists>x w1. m = (Inr x, w1) \<and> k x w1 = (Inr y, w'))"
  by (auto simp: bindR_def split: sum.splits prod.splits)

lemma orResp_Inr: "orResp n msg r = (Inr x, w') \<longleftrightarrow> r = (Inr x, w')"
  by (auto simp: orResp_def split: sum.splits prod.splits)

lemma ioGuard_tables: "ioGuard n msg w = (r, w') \<Longrightarrow> \<exists>io. w' = w\<lparr>rwIO := io\<rparr>"
  by (auto simp: ioGuard_def ioFails_def intro: exI[of _ "rwIO w"] split: list.splits prod.splits)

lemma sameTables_refl: "sameTables w w"
  by (auto simp: sameTables_def intro: exI[of _ "rwFaults w"])

lemma rwCall_tables: "sameTables w (snd (rwCall w))"
  by (cases "rwFaults w") (auto simp: rwCall_def sameTables_refl, auto simp: sameTables_def)

lemma rwExec_Inr: "rwExec u w = (Inr x, w') \<Longrightarrow> \<exists>w1. sameTables w w1 \<and> u w1 = Inr (x, w')"
  using rwCall_tables[of w]
  by (intro exI[of _ "snd (rwCall w)"]) (auto simp: rwExec_def split: if_splits sum.splits prod.splits)

lemma spoolUpload_Inr:
  assumes "spoolUpload f w = (Inr (fname, d), w')"
  shows "ufFile f = Some (fname, d, False)" "zipMagic d" "int (length d) \<le> MaxProviderBinarySize" "\<exists>io. w' = w\<lparr>rwIO := io\<rparr>"
  using assms
  by (auto simp: spoolUpload_def bindR_Inr dest!: ioGuard_tables split: option.splits if_splits prod.splits)

lemma sort_key_map:
  assumes "\<And>x. k (f x) = k x"
  shows "sort_key k (map f xs) = map f (sort_key k xs)"
proof -
  have "insort_key k (f x) (map f ys) = map f (insort_key k x ys)" for x ys using assms by (induction ys) simp_all
  then show ?thesis by (induction xs) simp_all
qed

lemma firstRow_map: "firstRow (map f xs) = map_option f (firstRow xs)"
  by (cases xs) (simp_all add: firstRow_def)

lemma providerRows_update:
  assumes "\<And>q. pNamespace (g q) = pNamespace q" "\<And>q. pType (g q) = pType q" "\<And>q. pCreatedAt (g q) = pCreatedAt q"
    "\<And>q. pOrganizationID (g q) = pOrganizationID q"
  shows "providerRows org ns ty (w\<lparr>rwProviders := map g (rwProviders w)\<rparr>) = map g (providerRows org ns ty w)"
  using assms by (simp add: providerRows_def Let_def filter_map comp_def sort_key_map)

lemma providerRows_insert:
  assumes "providerRows org ns ty w = []" "pNamespace p = ns" "pType p = ty" "pOrganizationID p = Some org"
  shows "providerRows org ns ty (w\<lparr>rwProviders := rwProviders w @ [p]\<rparr>) = [p]"
proof -
  have "filter (\<lambda>q. pOrganizationID q = Some org) (filter (\<lambda>q. pNamespace q = ns \<and> pType q = ty) (rwProviders w)) = []"
    "filter (\<lambda>q. pOrganizationID q = None) (filter (\<lambda>q. pNamespace q = ns \<and> pType q = ty) (rwProviders w)) = []"
    using assms(1) by (auto simp: providerRows_def Let_def filter_sort[symmetric] filter_empty_conv)
  then show ?thesis using assms(2-4) by (simp add: providerRows_def Let_def filter_sort)
qed

text \<open>The provider that the lookup of a namespace and type finds, by its id.\<close>

definition resolves :: "upload_form \<Rightarrow> Provider \<Rightarrow> 's regworld \<Rightarrow> bool" where
  "resolves f p w \<longleftrightarrow> (\<exists>org q. rwOrg w = Some org \<and> org \<noteq> '''' \<and>
     firstRow (providerRows org (ufNamespace f) (ufType f) w) = Some q \<and> pID q = pID p)"

lemma registerProvider_Inr:
  assumes "registerProvider E f w = (Inr p, w')"
  shows "resolves f p w'" "rwStore w' = rwStore w"
proof -
  obtain org w1 prov w2 where o: "GetDefaultOrganization w = (Inr (Some org), w1)"
    and g: "GetProvider org (ufNamespace f) (ufType f) w1 = (Inr prov, w2)"
    and r: "(case prov of
               None \<Rightarrow>
                 orResp 500 ''Failed to create provider''
                   (CreateProvider (reNewID E)
                     ((newProvider org (ufNamespace f) (ufType f))
                       \<lparr>pDescription := nonEmpty (ufDescription f), pSource := nonEmpty (ufSource f), pCreatedBy := ufUser f\<rparr>) w2)
             | Some p \<Rightarrow>
                 let p' = p\<lparr>pDescription := coalesce (nonEmpty (ufDescription f)) (pDescription p),
                            pSource := coalesce (nonEmpty (ufSource f)) (pSource p)\<rparr>
                 in bindR (orResp 500 ''Failed to update provider'' (UpdateProvider p' w2)) (\<lambda>_ w. (Inr p', w))) = (Inr p, w')"
    using assms by (auto simp: registerProvider_def bindR_Inr orResp_Inr split: option.splits)
  have t: "sameTables w w2" and prov: "prov = firstRow (providerRows org (ufNamespace f) (ufType f) w2)"
    and ow: "rwOrg w2 = Some org" and ne: "org \<noteq> ''''"
  proof -
    note q = rwQuery_tables[OF o[unfolded GetDefaultOrganization_def]] GetProvider_tables[OF g]
    show "sameTables w w2" using q sameTables_trans by blast
    show "prov = firstRow (providerRows org (ufNamespace f) (ufType f) w2)" "rwOrg w2 = Some org"
      using q by (auto simp: sameTables_sel)
    show "org \<noteq> ''''" using g by (auto simp: GetProvider_def)
  qed
  show "resolves f p w'" "rwStore w' = rwStore w"
  proof (atomize (full), cases prov)
    case None
    then have "CreateProvider (reNewID E) ((newProvider org (ufNamespace f) (ufType f))
        \<lparr>pDescription := nonEmpty (ufDescription f), pSource := nonEmpty (ufSource f), pCreatedBy := ufUser f\<rparr>) w2 = (Inr p, w')"
      using r by (simp add: orResp_Inr)
    then obtain w3 where w3: "sameTables w2 w3" and p: "w' = w3\<lparr>rwProviders := rwProviders w3 @ [p]\<rparr>"
      "pNamespace p = ufNamespace f" "pType p = ufType f" "pOrganizationID p = Some org"
      using ne by (auto simp: CreateProvider_def Let_def newProvider_def dest!: rwExec_Inr split: if_splits)
    have "providerRows org (ufNamespace f) (ufType f) w3 = []"
      using None prov by (simp add: sameTables_sel[OF w3] firstRow_def split: list.splits)
    from providerRows_insert[OF this p(2-4)] p(1) ow ne t w3 show "resolves f p w' \<and> rwStore w' = rwStore w"
      by (auto simp: resolves_def sameTables_sel firstRow_def)
  next
    case (Some q)
    define p' where "p' = q\<lparr>pDescription := coalesce (nonEmpty (ufDescription f)) (pDescription q),
                            pSource := coalesce (nonEmpty (ufSource f)) (pSource q)\<rparr>"
    have "UpdateProvider p' w2 = (Inr (), w')" "p = p'" using r Some by (auto simp: p'_def[symmetric] Let_def bindR_Inr orResp_Inr)
    then obtain w3 where w3: "sameTables w2 w3"
      "w' = w3\<lparr>rwProviders := map (\<lambda>r. if pID r = pID p'
                   then r\<lparr>pDescription := pDescription p', pSource := pSource p', pUpdatedAt := rwNow w3\<rparr> else r) (rwProviders w3)\<rparr>"
      by (auto simp: UpdateProvider_def dest!: rwExec_Inr split: if_splits)
    have "providerRows org (ufNamespace f) (ufType f) w' = map (\<lambda>r. if pID r = pID p'
                   then r\<lparr>pDescription := pDescription p', pSource := pSource p', pUpdatedAt := rwNow w3\<rparr> else r)
            (providerRows org (ufNamespace f) (ufType f) w3)"
      unfolding w3(2) by (rule providerRows_update) auto
    with Some prov ow ne t w3 \<open>p = p'\<close> show "resolves f p w' \<and> rwStore w' = rwStore w"
      by (auto simp: resolves_def sameTables_sel firstRow_map p'_def)
  qed
qed

definition hasVersion :: "upload_form \<Rightarrow> Provider \<Rightarrow> ProviderVersion \<Rightarrow> 's regworld \<Rightarrow> bool" where
  "hasVersion f p v w \<longleftrightarrow> (\<exists>u \<in> set (rwVersions w). vID u = vID v \<and> vProviderID u = pID p \<and> vVersion u = ufVersion f)"

lemma registerVersion_Inr:
  assumes "registerVersion E f protos key p w = (Inr v, w')" "resolves f p w"
  shows "hasVersion f p v w'" "resolves f p w'" "rwStore w' = rwStore w"
proof -
  obtain x w1 where g: "GetVersion (pID p) (ufVersion f) w = (Inr x, w1)"
    and r: "(case x of Some v \<Rightarrow> (Inr v, w1) | None \<Rightarrow>
           orResp 500 ''Failed to create provider version''
             (CreateVersion (reNewID E)
               ((newProviderVersion (pID p) (ufVersion f) protos key)\<lparr>vPublishedBy := ufUser f\<rparr>) w1)) = (Inr v, w')"
    using assms(1) by (auto simp: registerVersion_def bindR_Inr orResp_Inr)
  note q = rwQuery_tables[OF g[unfolded GetVersion_def]]
  have t: "sameTables w w1" using q by simp
  show "hasVersion f p v w'" "resolves f p w'" "rwStore w' = rwStore w"
  proof (atomize (full), cases x)
    case None
    then have "CreateVersion (reNewID E) ((newProviderVersion (pID p) (ufVersion f) protos key)\<lparr>vPublishedBy := ufUser f\<rparr>) w1 = (Inr v, w')"
      using r by (simp add: orResp_Inr)
    then obtain w2 where w2: "sameTables w1 w2" "w' = w2\<lparr>rwVersions := rwVersions w2 @ [v]\<rparr>" "vProviderID v = pID p" "vVersion v = ufVersion f"
      by (auto simp: CreateVersion_def Let_def newProviderVersion_def dest!: rwExec_Inr split: if_splits)
    have "providerRows org (ufNamespace f) (ufType f) w' = providerRows org (ufNamespace f) (ufType f) w" "rwOrg w' = rwOrg w" "rwStore w' = rwStore w" for org
      using sameTables_trans[OF t w2(1)] by (simp_all add: w2(2) sameTables_sel providerRows_def)
    then show "hasVersion f p v w' \<and> resolves f p w' \<and> rwStore w' = rwStore w"
      using assms(2) w2 by (simp add: resolves_def hasVersion_def)
  next
    case (Some u)
    have "find (\<lambda>v. vProviderID v = pID p \<and> vVersion v = ufVersion f) (rwVersions w1) = Some u" using q Some by simp
    with r Some have "w' = w1" "u = v" "u \<in> set (rwVersions w1)" "vProviderID u = pID p" "vVersion u = ufVersion f"
      by (auto simp: find_Some_iff)
    then show "hasVersion f p v w' \<and> resolves f p w' \<and> rwStore w' = rwStore w"
      using assms(2) by (auto simp: hasVersion_def resolves_def sameTables_sel[OF t])
  qed
qed


definition storeOnly :: "'s regworld \<Rightarrow> 's regworld \<Rightarrow> bool" where
  "storeOnly w w' \<longleftrightarrow> (\<exists>s. w' = w\<lparr>rwStore := s\<rparr>)"

lemma storeOnly_trans: "storeOnly w w1 \<Longrightarrow> storeOnly w1 w2 \<Longrightarrow> storeOnly w w2"
  by (auto simp: storeOnly_def)

lemma putFile_Inr: "putFile E path d msg w = (Inr u, w') \<Longrightarrow> storeOnly w w'"
  by (auto simp: putFile_def bindR_Inr orResp_Inr onStore_eq storeOnly_def)

lemma resolves_cong:
  "rwOrg w' = rwOrg w \<Longrightarrow> rwProviders w' = rwProviders w \<Longrightarrow> resolves f p w' = resolves f p w"
  by (simp add: resolves_def providerRows_def)

lemma apfst_map_sum_Inr: "apfst (map_sum id g) r = (Inr y, w) \<Longrightarrow> \<exists>n. r = (Inr n, w)"
  by (cases r; cases "fst r") auto

lemma keepSignature_Inr:
  assumes "keepSignatureFiles E f v sums sg w = (Inr u, w')" "hasVersion f p v w" "resolves f p w"
  shows "hasVersion f p v w' \<and> resolves f p w'"
proof -
  have keys: "hasVersion f p v w2 \<and> resolves f p w2"
    if "UpdateVersionSignatureStorage i a b (w\<lparr>rwStore := s\<rparr>) = (Inr x, w2)" for i a b s x w2
  proof -
    from that obtain n where "onVersion i (\<lambda>w v. v\<lparr>vShasumStorageKey := coalesce a (vShasumStorageKey v),
        vShasumSignatureStorageKey := coalesce b (vShasumSignatureStorageKey v)\<rparr>) (w\<lparr>rwStore := s\<rparr>) = (Inr n, w2)"
      unfolding UpdateVersionSignatureStorage_def by (auto dest: apfst_map_sum_Inr)
    then obtain w1 where w1: "sameTables (w\<lparr>rwStore := s\<rparr>) w1" "rwOrg w2 = rwOrg w1" "rwProviders w2 = rwProviders w1"
      "rwVersions w2 = map (\<lambda>v. if vID v = i then v\<lparr>vShasumStorageKey := coalesce a (vShasumStorageKey v),
        vShasumSignatureStorageKey := coalesce b (vShasumSignatureStorageKey v)\<rparr> else v) (rwVersions w1)"
      by (auto simp: onVersion_def dest!: rwExec_Inr)
    have "resolves f p w2" using assms(3) resolves_cong[of w2 w f p] w1(1-3) by (simp add: sameTables_sel)
    moreover have "hasVersion f p v w2"
    proof -
      from assms(2) obtain u where u: "u \<in> set (rwVersions w)" "vID u = vID v" "vProviderID u = pID p" "vVersion u = ufVersion f"
        by (auto simp: hasVersion_def)
      show ?thesis unfolding hasVersion_def
        by (rule bexI[of _ "if vID u = i then u\<lparr>vShasumStorageKey := coalesce a (vShasumStorageKey u),
              vShasumSignatureStorageKey := coalesce b (vShasumSignatureStorageKey u)\<rparr> else u"])
          (use u sameTables_sel(2)[OF w1(1)] in \<open>simp_all add: w1(4)\<close>)
    qed
    ultimately show ?thesis by simp
  qed
  obtain y w1 y' w2 where 1: "putFile E (versionDir f @ ''SHA256SUMS'') sums ''Failed to upload SHA256SUMS'' w = (Inr y, w1)"
    and 2: "(case sg of None \<Rightarrow> (Inr (), w1)
              | Some s \<Rightarrow> putFile E (versionDir f @ ''SHA256SUMS.sig'') s ''Failed to upload SHA256SUMS signature'' w1) = (Inr y', w2)"
    "UpdateVersionSignatureStorage (vID v) (Some (versionDir f @ ''SHA256SUMS''))
              (map_option (\<lambda>_. versionDir f @ ''SHA256SUMS.sig'') sg) w2 = (Inr u, w')"
    using assms(1) unfolding keepSignatureFiles_def bindR_Inr orResp_Inr by (elim exE conjE)
  have "storeOnly w w2"
  proof (cases sg)
    case None
    with 2(1) putFile_Inr[OF 1] show ?thesis by simp
  next
    case (Some s)
    with 2(1) have "storeOnly w1 w2" by (auto dest: putFile_Inr)
    with putFile_Inr[OF 1] show ?thesis by (rule storeOnly_trans)
  qed
  then obtain s where "w2 = w\<lparr>rwStore := s\<rparr>" by (auto simp: storeOnly_def)
  with keys[of "vID v" _ _ s u w'] 2(2) show ?thesis by blast
qed

lemma storeSignature_Inr:
  assumes "storeUploadedSignatureFiles E f key v w = (Inr u, w')" "hasVersion f p v w" "resolves f p w"
  shows "hasVersion f p v w' \<and> resolves f p w'"
proof -
  from assms(1) have "w' = w \<or> (\<exists>sums sg. keepSignatureFiles E f v sums sg w = (Inr u, w'))"
    by (auto simp: storeUploadedSignatureFiles_def split: sum.splits option.splits if_splits)
  then show ?thesis
  proof
    assume "\<exists>sums sg. keepSignatureFiles E f v sums sg w = (Inr u, w')"
    then show ?thesis by (elim exE) (rule keepSignature_Inr[OF _ assms(2,3)])
  qed (use assms(2,3) in simp)
qed

lemma resolves_io: "resolves f p (w\<lparr>rwIO := io\<rparr>) = resolves f p w"
  by (rule resolves_cong) simp_all

lemma validateUpload_Inr:
  assumes "validateUpload E f = Inr (protos, key)"
  shows "ValidateRegistrySegment (ufNamespace f) = Inr ()" "ValidateRegistrySegment (ufType f) = Inr ()"
    "reSemver E (ufVersion f)" "ValidatePlatform (ufOS f) (ufArch f) = Inr ()"
  using assms by (auto simp: validateUpload_def split: if_splits option.splits)

lemma prepareUpload_Inr:
  assumes "prepareUpload E f w = (Inr (p, v, fname, d), w')"
  shows "\<exists>pk. validateUpload E f = Inr pk" "ufFile f = Some (fname, d, False)" "zipMagic d" "int (length d) \<le> MaxProviderBinarySize"
    "hasVersion f p v w'" "resolves f p w'"
proof -
  obtain protos key where v: "validateUpload E f = Inr (protos, key)"
    using assms by (auto simp: prepareUpload_def split: sum.splits)
  obtain w1 where 1: "spoolUpload f w = (Inr (fname, d), w1)" and r1: "bindR (registerProvider E f w1) (\<lambda>p w.
          bindR (registerVersion E f protos key p w) (\<lambda>v w.
          bindR (storeUploadedSignatureFiles E f key v w) (\<lambda>_ w.
          bindR (orResp 500 ''Failed to check for existing platform'' (GetPlatform (vID v) (ufOS f) (ufArch f) w)) (\<lambda>pl w.
          if pl \<noteq> None then (Inl (RError 409 ''Platform already exists''), w)
          else (Inr (p, v, fname, d), w))))) = (Inr (p, v, fname, d), w')"
    using assms by (auto simp: prepareUpload_def v bindR_Inr split: if_splits)
  obtain p' v' w2 w3 u w4 pl where 2: "registerProvider E f w1 = (Inr p', w2)"
    and 3: "registerVersion E f protos key p' w2 = (Inr v', w3)"
    and 4: "storeUploadedSignatureFiles E f key v' w3 = (Inr u, w4)"
    and 5: "GetPlatform (vID v') (ufOS f) (ufArch f) w4 = (Inr pl, w')" and e: "p' = p" "v' = v"
    using r1 unfolding bindR_Inr orResp_Inr by (auto split: if_splits)
  note s = spoolUpload_Inr[OF 1]
  note p = registerProvider_Inr[OF 2]
  note q = registerVersion_Inr[OF 3 p(1)]
  note k = storeSignature_Inr[OF 4 q(1,2)]
  have t: "sameTables w4 w'" using rwQuery_tables[OF 5[unfolded GetPlatform_def]] by simp
  show "\<exists>pk. validateUpload E f = Inr pk" using v by simp
  show "ufFile f = Some (fname, d, False)" "zipMagic d" "int (length d) \<le> MaxProviderBinarySize" using s by simp_all
  show "hasVersion f p v w'" "resolves f p w'"
    using k e resolves_cong[of w' w4 f p] by (simp_all add: hasVersion_def sameTables_sel[OF t])
qed

lemma ioFails_io: "ioFails w = (b, w') \<Longrightarrow> \<exists>io. w' = w\<lparr>rwIO := io\<rparr>"
  by (auto simp: ioFails_def intro: exI[of _ "rwIO w"] split: list.splits)

lemma storePlatform_RCreated:
  assumes "storePlatform E f (p, v, fname, d) w = (RCreated p' v' pl, w')"
  obtains res s w1 where "sbUpload (reBackend E) (uploadPath f) (d, False) (length d) (rwStore w) = (Inr res, s)"
    "p' = p" "v' = v" "rwStore w' = s" "rwVersions w' = rwVersions w" "rwMirrored w' = rwMirrored w" "rwProviders w' = rwProviders w" "rwOrg w' = rwOrg w"
    "rwPlatforms w' = rwPlatforms w @ [pl]"
    "\<not> list_ex (\<lambda>q. plProviderVersionID q = vID v \<and> plOS q = ufOS f \<and> plArch q = ufArch f) (rwPlatforms w)"
    "plProviderVersionID pl = vID v" "plOS pl = ufOS f" "plArch pl = ufArch f" "plStoragePath pl = urPath res" "plShasum pl = reSha E d"
    "plSizeBytes pl = int (urSize res)" "plFilename pl = fname"
proof -
  obtain b w0 where io: "ioFails w = (b, w0)" by (cases "ioFails w")
  then have w0: "\<exists>io. w0 = w\<lparr>rwIO := io\<rparr>" by (rule ioFails_io)
  have "\<not> b" using assms io by (cases b) (simp_all add: storePlatform_def)
  with io have io: "ioFails w = (False, w0)" by simp
  obtain res s where up: "sbUpload (reBackend E) (uploadPath f) (d, False) (length d) (rwStore w) = (Inr res, s)"
    using assms io w0 by (auto simp: storePlatform_def onStore_def split: prod.splits sum.splits)
  let ?row = "\<lparr>plID = '''', plProviderVersionID = vID v, plOS = ufOS f, plArch = ufArch f, plFilename = fname,
                      plStoragePath = urPath res, plStorageBackend = reDefaultBackend E, plSizeBytes = int (urSize res),
                      plShasum = reSha E d, plH1Hash = reHashZip E d, plDownloadCount = 0\<rparr>"
  have "CreatePlatform (reNewID E) ?row (w0\<lparr>rwStore := s\<rparr>) = (Inr pl, w')" "p' = p" "v' = v"
    using assms io up w0 by (auto simp: storePlatform_def onStore_def split: prod.splits sum.splits)
  then obtain w1 where w1: "sameTables (w0\<lparr>rwStore := s\<rparr>) w1" "w' = w1\<lparr>rwPlatforms := rwPlatforms w1 @ [pl]\<rparr>"
    "pl = ?row\<lparr>plID := reNewID E (map plID (rwPlatforms w1))\<rparr>"
    "\<not> list_ex (\<lambda>q. plProviderVersionID q = vID v \<and> plOS q = ufOS f \<and> plArch q = ufArch f) (rwPlatforms w1)"
    by (auto simp: CreatePlatform_def Let_def dest!: rwExec_Inr split: if_splits)
  note t = sameTables_sel[OF w1(1)]
  show thesis
    by (rule that[OF up \<open>p' = p\<close> \<open>v' = v\<close>]) (use w1 w0 t in auto)
qed

lemma contains_dots_sep: "contains (x @ CHR ''/'' # y) ''..'' \<longleftrightarrow> contains x ''..'' \<or> contains y ''..''"
proof (induction x)
  case (Cons c x)
  have "hasPrefix (c # x @ CHR ''/'' # y) ''..'' = hasPrefix (c # x) ''..''" by (cases x) (auto simp: hasPrefix_def)
  with Cons show ?case by simp
qed (simp add: hasPrefix_def)

lemma contains_slashes_sep:
  "CHR ''/'' \<notin> set x \<Longrightarrow> contains (x @ CHR ''/'' # y) ''//'' \<longleftrightarrow> contains y ''//'' \<or> hasPrefix y ''/''"
proof (induction x)
  case (Cons c x)
  have "\<not> hasPrefix (c # x @ CHR ''/'' # y) ''//''" using Cons.prems by (auto simp: hasPrefix_def)
  with Cons show ?case by simp
qed (auto simp: hasPrefix_def)

lemma no_slash_start: "CHR ''/'' \<notin> set x \<Longrightarrow> x \<noteq> [] \<Longrightarrow> \<not> hasPrefix (x @ y) ''/''"
  by (cases x) (auto simp: hasPrefix_def)

lemma segment_plain: "ValidateRegistrySegment s = Inr () \<Longrightarrow> s \<noteq> [] \<and> CHR ''/'' \<notin> set s \<and> CHR ''.'' \<notin> set s"
  by (cases s) (auto simp: ValidateRegistrySegment_def segStart_def segChar_def list_all_iff Let_def split: if_splits)

lemma platform_plain:
  assumes "ValidatePlatform os arch = Inr ()"
  shows "\<not> contains (os @ ''_'' @ arch @ ''.zip'') ''..''" "CHR ''/'' \<notin> set (os @ ''_'' @ arch @ ''.zip'')" "os \<noteq> []"
proof -
  have "os \<in> set SupportedOS" "arch \<in> set SupportedArch"
    using assms by (auto simp: ValidatePlatform_def isValidOS_def isValidArch_def isListed_iff split: if_splits)
  then show "\<not> contains (os @ ''_'' @ arch @ ''.zip'') ''..''" "CHR ''/'' \<notin> set (os @ ''_'' @ arch @ ''.zip'')" "os \<noteq> []"
    by (auto simp: SupportedOS_def SupportedArch_def hasPrefix_def)
qed

text \<open>The path of an upload is one that file serving accepts and that its gate does not look at.\<close>

definition semver_contract :: "('s, 'a) regenv_scheme \<Rightarrow> bool" where
  "semver_contract E \<longleftrightarrow> (\<forall>ver. reSemver E ver \<longrightarrow> ver \<noteq> '''' \<and> CHR ''/'' \<notin> set ver \<and> \<not> contains ver ''..'' \<and> last ver \<noteq> CHR ''.'')"

lemma uploadPath_plain:
  assumes "validateUpload E f = Inr pk" "semver_contract E"
  shows "\<not> contains (uploadPath f) ''..''" "\<not> contains (uploadPath f) ''//''" "parseProviderFilePath (uploadPath f) = None"
proof -
  obtain protos key where "pk = (protos, key)" by (cases pk)
  note v = validateUpload_Inr[OF assms(1)[unfolded this]]
  note ns = segment_plain[OF v(1)] and ty = segment_plain[OF v(2)] and pl = platform_plain[OF v(4)]
  have ver: "ufVersion f \<noteq> ''''" "CHR ''/'' \<notin> set (ufVersion f)" "\<not> contains (ufVersion f) ''..''"
    using assms(2) v(3) by (auto simp: semver_contract_def)
  let ?last = "ufOS f @ ''_'' @ ufArch f @ ''.zip''"
  have e: "uploadPath f = ''providers'' @ CHR ''/'' # ufNamespace f @ CHR ''/'' # ufType f @ CHR ''/'' # ufVersion f @ CHR ''/'' # ?last"
    by (simp add: uploadPath_def versionDir_def)
  have nd: "\<not> contains x ''..''" if "CHR ''.'' \<notin> set x" for x using that by (induction x) (auto simp: hasPrefix_def)
  have nl: "\<not> contains x ''//''" if "CHR ''/'' \<notin> set x" for x using that by (induction x) (auto simp: hasPrefix_def)
  show "\<not> contains (uploadPath f) ''..''"
    unfolding e contains_dots_sep using ns ty ver pl nd[of "''providers''"] nd[of "ufNamespace f"] nd[of "ufType f"] by simp
  have p: "CHR ''/'' \<notin> set ''providers''" by simp
  let ?v = "ufVersion f @ CHR ''/'' # ?last" and ?t = "ufType f @ CHR ''/'' # ufVersion f @ CHR ''/'' # ?last"
  have "CHR ''/'' \<notin> set (ufOS f)" using pl(2) by simp
  then have "\<not> contains ?v ''//''"
    using contains_slashes_sep[OF ver(2), of ?last] nl[OF pl(2)] no_slash_start[of "ufOS f"] pl(3) by simp
  then have "\<not> contains ?t ''//''"
    using contains_slashes_sep[of "ufType f" ?v] no_slash_start[of "ufVersion f"] ver ty by simp
  then have "\<not> contains (ufNamespace f @ CHR ''/'' # ?t) ''//''"
    using contains_slashes_sep[of "ufNamespace f" ?t] no_slash_start[of "ufType f"] ns ty by simp
  then show "\<not> contains (uploadPath f) ''//''"
    using contains_slashes_sep[OF p, of "ufNamespace f @ CHR ''/'' # ?t"] no_slash_start[of "ufNamespace f"] ns e by simp
  have "splitOn (CHR ''/'') (uploadPath f) = [''providers'', ufNamespace f, ufType f, ufVersion f, ?last]"
    unfolding e using splitOn_sep[OF p] splitOn_sep[of "CHR ''/''" "ufNamespace f"] splitOn_sep[of "CHR ''/''" "ufType f"]
      splitOn_sep[of "CHR ''/''" "ufVersion f"] splitOn_no_sep[OF pl(2)] ns ty ver by simp
  then show "parseProviderFilePath (uploadPath f) = None" by (simp add: parseProviderFilePath_def)
qed

text \<open>The early returns of an upload are errors.\<close>

definition errOnly :: "(response + 'a) \<times> 's regworld \<Rightarrow> bool" where
  "errOnly m \<longleftrightarrow> (\<forall>r. fst m = Inl r \<longrightarrow> (\<exists>n msg. r = RError n msg))"

lemma errOnly_intros:
  "errOnly (Inr x, w)" "errOnly (Inl (RError n msg), w)" "errOnly (orResp n msg c)" "errOnly (ioGuard n msg w)"
  "errOnly m \<Longrightarrow> (\<And>x w. errOnly (k x w)) \<Longrightarrow> errOnly (bindR m k)"
  "errOnly (putFile E path d msg w)"
  by (auto simp: errOnly_def orResp_def ioGuard_def bindR_def putFile_def split: sum.splits prod.splits if_splits)

lemma prepareUpload_error: "errOnly (prepareUpload E f w)"
proof -
  have 1: "errOnly (spoolUpload f w)" for w
    by (auto simp: spoolUpload_def split: option.split intro!: errOnly_intros)
  have 2: "errOnly (registerProvider E f w)" "errOnly (registerVersion E f protos key p w)" for w protos key p
    by (auto simp: registerProvider_def registerVersion_def Let_def split: option.split intro!: errOnly_intros)
  have 3: "errOnly (storeUploadedSignatureFiles E f key v w)" for key v w
    by (auto simp: storeUploadedSignatureFiles_def keepSignatureFiles_def split: sum.split option.split intro!: errOnly_intros)
  have 4: "\<exists>n msg. r = RError n msg" if "validateUpload E f = Inl r" for r
    using that by (auto simp: validateUpload_def split: if_splits option.splits)
  show ?thesis
  proof (cases "validateUpload E f")
    case (Inl r)
    with 4 show ?thesis by (auto simp: prepareUpload_def errOnly_def)
  next
    case (Inr pk)
    then show ?thesis using 1 2 3 by (auto simp: prepareUpload_def split: prod.split intro!: errOnly_intros)
  qed
qed

lemma find_append_last:
  "\<not> list_ex P xs \<Longrightarrow> P x \<Longrightarrow> find P (xs @ [x]) = Some x"
  by (induction xs) auto

text \<open>
  What is uploaded is what is served: after an upload is answered with 201, whatever the database did on the
  way, the upload was a ZIP file within the size limit for a valid platform, and when the database works
  afterwards and the version is not hidden, the download endpoint answers with the SHA-256 of exactly the uploaded
  bytes and a URL under which the local store delivers those bytes.
\<close>

theorem provider_upload_roundtrip:
  assumes up: "UploadHandler E f w = (RCreated p v pl, w')"
    and b: "reBackend E = localBackend (reSha E) L" "serveDirectly L" "semver_contract E"
    and after: "gateTables w'" "approvalExclusionClause w' v" "rwFaults w' = []" "fsFaults (rwStore w') = []"
  shows "\<exists>fname d dj c n. ufFile f = Some (fname, d, False) \<and> zipMagic d \<and> int (length d) \<le> MaxProviderBinarySize \<and>
    fst (DownloadHandler E (ufNamespace f) (ufType f) (ufVersion f) (ufOS f) (ufArch f) w') = RDownload dj \<and>
    djShasum dj = reSha E d \<and> djDownloadURL dj = baseURL L @ ''/v1/files/'' @ uploadPath f \<and>
    fst (ServeFileHandler E (''/'' @ uploadPath f) w') = RFile c n (d, False)"
proof -
  obtain q w1 where q: "prepareUpload E f w = (Inr q, w1)" "storePlatform E f q w1 = (RCreated p v pl, w')"
    using up prepareUpload_error[of E f w] by (auto simp: UploadHandler_def errOnly_def split: prod.splits sum.splits)
  obtain p0 v0 fname d where q0: "q = (p0, v0, fname, d)" by (cases q)
  obtain res s w2 where st: "sbUpload (reBackend E) (uploadPath f) (d, False) (length d) (rwStore w1) = (Inr res, s)"
    "p = p0" "v = v0" "rwStore w' = s" "rwVersions w' = rwVersions w1" "rwMirrored w' = rwMirrored w1" "rwProviders w' = rwProviders w1" "rwOrg w' = rwOrg w1"
    "rwPlatforms w' = rwPlatforms w1 @ [pl]"
    "\<not> list_ex (\<lambda>q. plProviderVersionID q = vID v0 \<and> plOS q = ufOS f \<and> plArch q = ufArch f) (rwPlatforms w1)"
    "plProviderVersionID pl = vID v0" "plOS pl = ufOS f" "plArch pl = ufArch f" "plStoragePath pl = urPath res" "plShasum pl = reSha E d"
    using storePlatform_RCreated[OF q(2)[unfolded q0]] by metis
  note pr = prepareUpload_Inr[OF q(1)[unfolded q0]]
  obtain pk where pk: "validateUpload E f = Inr pk" using pr(1) by (elim exE)
  note path = uploadPath_plain[OF pk b(3)]
  obtain protos key where pk': "pk = (protos, key)" by (cases pk)
  note va = validateUpload_Inr[OF pk[unfolded pk']]
  have "Upload (reSha E) L (uploadPath f) (d, False) (rwStore w1) = (Inr res, s)"
    using st(1) by (simp add: b(1) localBackend_def)
  from Upload_Inr[OF this] obtain full t where full: "safeJoin L (uploadPath f) = Inr full" "urPath res = uploadPath f"
    "node (rwStore w') full = Some (FFile d t)" using st(4) by auto
  have url: "GetURL L (uploadPath f) (rwStore w') = (Inr (baseURL L @ ''/v1/files/'' @ uploadPath f), rwStore w')"
    using full after(4) b(2) by (simp add: GetURL_def Exists_def osStat_def osCall_nofault)
  obtain org r where r: "rwOrg w' = Some org" "org \<noteq> ''''" "firstRow (providerRows org (ufNamespace f) (ufType f) w') = Some r" "pID r = pID p0"
    using pr(6) resolves_cong[of w' w1 f p0] st(7,8) by (auto simp: resolves_def)
  obtain u where u: "u \<in> set (rwVersions w')" "vID u = vID v0" "vProviderID u = pID p0" "vVersion u = ufVersion f"
    using pr(5) st(5) by (auto simp: hasVersion_def)
  have fv: "find (\<lambda>x. vProviderID x = pID r \<and> vVersion x = ufVersion f) (rwVersions w') = Some u"
    using find_unique[OF gateTables_parts(1)[OF after(1)] u(1)] u r(4) by simp
  have vis: "approvalExclusionClause w' u" using after(2) st(3) u(2) by (simp add: approvalExclusionClause_def)
  have fp: "find (\<lambda>q. plProviderVersionID q = vID u \<and> plOS q = ufOS f \<and> plArch q = ufArch f) (rwPlatforms w') = Some pl"
    unfolding st(9) u(2) by (rule find_append_last[OF st(10)]) (simp add: st)
  have "\<exists>dj. fst (DownloadHandler E (ufNamespace f) (ufType f) (ufVersion f) (ufOS f) (ufArch f) w') = RDownload dj \<and>
      djShasum dj = reSha E d \<and> djDownloadURL dj = baseURL L @ ''/v1/files/'' @ uploadPath f"
    using va(3,4) r fv fp vis gate_status[OF after(1), of u] after(3) full(2) st(14,15) url
    by (simp add: DownloadHandler_def downloadVersion_def withOrg_ok withProvider_ok withVersion_ok GetVersionApprovalStatus_def
        GetPlatform_def rwQuery_ok onStore_def b(1) localBackend_def split: prod.split)
  moreover have "\<exists>c n. fst (ServeFileHandler E (''/'' @ uploadPath f) w') = RFile c n (d, False)"
    by (rule serve_open[OF b(1) after(4) full(1,3) _ path(1,2)]) (simp add: serveGate_def path(3))
  ultimately show ?thesis using pr(2-4) by blast
qed

definition exZip :: string where "exZip = [CHR ''P'', CHR ''K'', CHR 0x03, CHR 0x04, CHR ''z'']"

definition exForm :: "string \<Rightarrow> form_file \<Rightarrow> form_file \<Rightarrow> string \<Rightarrow> upload_form" where
  "exForm key sums sig ver =
     \<lparr>ufParsed = True, ufNamespace = ''acme'', ufType = ''dns'', ufVersion = ver, ufOS = ''linux'', ufArch = ''amd64'',
      ufProtocols = '''', ufGPGPublicKey = key, ufDescription = '''', ufSource = '''', ufFile = Some (''f.zip'', exZip, False),
      ufSums = sums, ufSig = sig, ufUser = None\<rparr>"

definition exLocalEnv :: "fs regenv" where
  "exLocalEnv = exEnvOn (localBackend (\<lambda>d. d) exLocal) False"

theorem provider_upload_roundtrip_witness:
  "\<exists>dj c n. let w' = snd (UploadHandler exLocalEnv (exForm '''' FMissing FMissing ''2.0.0'') (exRegistry exFs exPending)) in
     fst (DownloadHandler exLocalEnv ''acme'' ''dns'' ''2.0.0'' ''linux'' ''amd64'' w') = RDownload dj \<and> djShasum dj = exZip \<and>
     fst (ServeFileHandler exLocalEnv ''/providers/acme/dns/2.0.0/linux_amd64.zip'' w') = RFile c n (exZip, False)"
proof -
  let ?f = "exForm '''' FMissing FMissing ''2.0.0''"
  let ?u = "UploadHandler exLocalEnv ?f (exRegistry exFs exPending)"
  have e: "(case fst ?u of RCreated p v pl \<Rightarrow> approvalExclusionClause (snd ?u) v | _ \<Rightarrow> False)" by code_simp
  have g: "gateTables (snd ?u)" by code_simp
  have s: "rwFaults (snd ?u) = []" "fsFaults (rwStore (snd ?u)) = []" by code_simp+
  obtain r w where rw: "?u = (r, w)" by (cases ?u)
  with e obtain p v pl where "r = RCreated p v pl" "approvalExclusionClause w v" by (cases r) simp_all
  with rw have u: "?u = (RCreated p v pl, snd ?u)" "approvalExclusionClause (snd ?u) v" by simp_all
  have E: "reBackend exLocalEnv = localBackend (reSha exLocalEnv) exLocal" "serveDirectly exLocal" "semver_contract exLocalEnv"
    by (simp_all add: exLocalEnv_def exEnvOn_def exLocal_def semver_contract_def id_def)
  have f: "ufFile ?f = Some (''f.zip'', exZip, False)" "ufNamespace ?f = ''acme''" "ufType ?f = ''dns''" "ufVersion ?f = ''2.0.0''"
    "ufOS ?f = ''linux''" "ufArch ?f = ''amd64''" by (simp_all add: exForm_def)
  have "uploadPath ?f = ''providers/acme/dns/2.0.0/linux_amd64.zip''" by code_simp
  with provider_upload_roundtrip[OF u(1) E g u(2) s] f show ?thesis
    by (auto simp: Let_def exLocalEnv_def exEnvOn_def)
qed

text \<open>
  Of two uploads of one platform that both passed the duplicate check, the one that comes second fails
  and, cleaning up, deletes the file of the first: the platform row remains without its artifact.
\<close>

theorem lost_race_deletes_artifact:
  assumes "storePlatform E f (p, v, fname, d) w1 = (RCreated p v pl, w2)" "rwIO w2 = []" "rwFaults w2 = []"
    and "vID v2 = vID v" "ufOS f2 = ufOS f" "ufArch f2 = ufArch f"
    and "sbUpload (reBackend E) (uploadPath f2) (d2, False) (length d2) (rwStore w2) = (Inr res, s2)" "urPath res = plStoragePath pl"
    and "storePlatform E f2 (p2, v2, fname2, d2) w2 = (r, w3)"
  shows "r = RError 500 ''Failed to create platform record'' \<and> pl \<in> set (rwPlatforms w3) \<and>
    rwStore w3 = snd (sbDelete (reBackend E) (plStoragePath pl) s2)"
proof -
  obtain u s where "rwPlatforms w2 = rwPlatforms w1 @ [pl]" "plProviderVersionID pl = vID v" "plOS pl = ufOS f" "plArch pl = ufArch f"
    using storePlatform_RCreated[OF assms(1)] by metis
  with assms(2-) show ?thesis
    by (auto simp: storePlatform_def ioFails_def onStore_def CreatePlatform_def rwExec_def rwCall_def split: prod.splits)
qed

definition exBare :: "(string \<times> string) list regworld" where
  "exBare = exMem\<lparr>rwPlatforms := []\<rparr>"

definition exRaced :: "string \<Rightarrow> (string \<times> string) list regworld \<Rightarrow> response \<times> (string \<times> string) list regworld" where
  "exRaced d = storePlatform (exEnvOn memBackend False) (exForm '''' FMissing FMissing ''1.0.0'')
     (exProvider, exVersion ''v1'' ''1.0.0'', ''f.zip'', d)"

theorem lost_race_deletes_artifact_witness:
  "let w2 = snd (exRaced exZip exBare); w3 = snd (exRaced [] w2); path = ''providers/acme/dns/1.0.0/linux_amd64.zip'' in
   map_of (rwStore w2) path = Some exZip \<and> map_of (rwStore w3) path = None \<and> path \<in> plStoragePath ` set (rwPlatforms w3)"
proof -
  let ?E = "exEnvOn memBackend False" and ?f = "exForm '''' FMissing FMissing ''1.0.0''"
  let ?w2 = "snd (exRaced exZip exBare)" and ?path = "''providers/acme/dns/1.0.0/linux_amd64.zip''"
  let ?v = "exVersion ''v1'' ''1.0.0''"
  have c: "(case fst (exRaced exZip exBare) of RCreated p v pl \<Rightarrow> p = exProvider \<and> v = ?v \<and> plStoragePath pl = ?path | _ \<Rightarrow> False)"
    by code_simp
  have q: "rwIO ?w2 = []" "rwFaults ?w2 = []" "map_of (rwStore ?w2) ?path = Some exZip" by code_simp+
  have up: "uploadPath ?f = ?path" by code_simp
  obtain r w where rw: "exRaced exZip exBare = (r, w)" by (cases "exRaced exZip exBare")
  with c obtain pl where r: "r = RCreated exProvider ?v pl" and pl: "plStoragePath pl = ?path" by (cases r) simp_all
  obtain r3 w3 where rw3: "exRaced [] w = (r3, w3)" by (cases "exRaced [] w")
  have "r3 = RError 500 ''Failed to create platform record'' \<and> pl \<in> set (rwPlatforms w3) \<and>
    rwStore w3 = snd (sbDelete memBackend ?path (AList.update ?path [] (rwStore w)))"
    using lost_race_deletes_artifact[of ?E ?f exProvider ?v "''f.zip''" exZip exBare pl w ?v ?f "[]" _ _ exProvider "''f.zip''" r3 w3]
      rw rw3 r q up pl by (simp add: exRaced_def exEnvOn_def memBackend_def)
  with pl show ?thesis using rw rw3 q by (auto simp: memBackend_def Let_def delete_conv' image_iff intro!: bexI[of _ pl])
qed

definition exGpgKey :: "string \<Rightarrow> string" where "exGpgKey c = beginMarker @ c @ endMarker @ [CHR 0x0A]"

definition exSigned :: "string \<Rightarrow> upload_form" where
  "exSigned c = exForm (exGpgKey c) (FPart 1 (beginMarker @ c, False)) (FPart 1 (endMarker @ [CHR 0x0A], False)) ''3.0.0''"

text \<open>
  A version that exists keeps the key of its first upload: signing the checksums again with another key, as
  after a key rotation, stores the new files, even when the request is answered with a conflict, and the download
  then offers a signature with a key under which it does not verify.
\<close>

theorem resigned_checksums_unverifiable:
  "let E = exEnvOn memBackend False;
       w1 = snd (UploadHandler E (exSigned ''a'') exMem);
       r2 = UploadHandler E (exSigned ''b'') w1;
       stored = (\<lambda>k. the (map_of (rwStore (snd r2)) (''providers/acme/dns/3.0.0/'' @ k))) in
   respStatus (fst r2) = 409 \<and>
   (case fst (DownloadHandler E ''acme'' ''dns'' ''3.0.0'' ''linux'' ''amd64'' (snd r2)) of
      RDownload dj \<Rightarrow> map snd (djGPGPublicKeys dj) = [exGpgKey ''a''] \<and>
        djShasumsSignatureURL dj = ''https://s/providers/acme/dns/3.0.0/SHA256SUMS.sig''
    | _ \<Rightarrow> False) \<and>
   stored ''SHA256SUMS'' = beginMarker @ ''b'' \<and>
   \<not> VerifySignature E (exGpgKey ''a'') (stored ''SHA256SUMS'') (stored ''SHA256SUMS.sig'') \<and>
   VerifySignature E (exGpgKey ''b'') (stored ''SHA256SUMS'') (stored ''SHA256SUMS.sig'')"
  by code_simp

end
