(* ===== verification/ModuleRegistry.thy ===== *)
theory ModuleRegistry
  imports ProviderRegistry
begin

text \<open>
  The module registry: the repository of modules and their versions
  (\<^verbatim>\<open>internal/db/repositories/module_repository.go\<close>), the policy engine in front of an upload
  (\<^verbatim>\<open>internal/policy/engine.go\<close>), the README extraction (\<^verbatim>\<open>internal/validation/readme.go\<close>), the
  upload, download and listing endpoints (\<^verbatim>\<open>internal/api/modules\<close>) and the administration of modules
  (\<^verbatim>\<open>internal/api/admin/modules.go\<close>), over the tables and the storage of \<open>RegistryDb\<close>. An upload is validated
  by \<open>Archive\<close> and queued for \<open>ScanQueue\<close>. The gzip and tar readers, the compiled Rego queries, the analyzer of Terraform
  files and the order of \<^verbatim>\<open>sort.Slice\<close> are parameters.
\<close>

section \<open>module\_repository.go\<close>

definition moduleKey :: "Module \<Rightarrow> string \<times> string \<times> string \<times> string" where
  "moduleKey m = (moOrganizationID m, moNamespace m, moName m, moSystem m)"

definition CreateModule :: "(string list \<Rightarrow> string) \<Rightarrow> Module \<Rightarrow> 's regworld \<Rightarrow> (string + Module) \<times> 's regworld" where
  "CreateModule newID m =
     rwExec (\<lambda>w.
       if list_ex (\<lambda>n. moduleKey n = moduleKey m) (rwModules w) then Inl ''unique''
       else let m' = m\<lparr>moID := newID (map moID (rwModules w)), moCreatedAt := rwNow w, moUpdatedAt := rwNow w\<rparr>
            in Inr (m', w\<lparr>rwModules := rwModules w @ [m']\<rparr>))"

text \<open>
  On conflict the row keeps everything but \<^verbatim>\<open>updated_at\<close>; the caller's struct gets the id and times of the row and
  keeps its own description and source.
\<close>

definition UpsertModule :: "(string list \<Rightarrow> string) \<Rightarrow> Module \<Rightarrow> 's regworld \<Rightarrow> (string + Module) \<times> 's regworld" where
  "UpsertModule newID m =
     rwExec (\<lambda>w.
       case find (\<lambda>n. moduleKey n = moduleKey m) (rwModules w) of
         Some n \<Rightarrow>
           Inr (m\<lparr>moID := moID n, moCreatedAt := moCreatedAt n, moUpdatedAt := rwNow w\<rparr>,
                w\<lparr>rwModules := map (\<lambda>n. if moduleKey n = moduleKey m then n\<lparr>moUpdatedAt := rwNow w\<rparr> else n) (rwModules w)\<rparr>)
       | None \<Rightarrow>
           let m' = m\<lparr>moID := newID (map moID (rwModules w)), moCreatedAt := rwNow w, moUpdatedAt := rwNow w,
                      moDeprecated := False, moDeprecatedAt := None, moDeprecationMessage := None, moSuccessorModuleID := None\<rparr>
           in Inr (m', w\<lparr>rwModules := rwModules w @ [m']\<rparr>))"

definition GetModule :: "string \<Rightarrow> string \<Rightarrow> string \<Rightarrow> string \<Rightarrow> 's regworld \<Rightarrow> (string + Module option) \<times> 's regworld" where
  "GetModule org ns name sys w =
     (if org = '''' then (Inl ''invalid input syntax for type uuid'', snd (rwCall w))
      else rwQuery (\<lambda>w. find (\<lambda>m. moduleKey m = (org, ns, name, sys)) (rwModules w)) w)"

definition GetModuleByID :: "string \<Rightarrow> 's regworld \<Rightarrow> (string + Module option) \<times> 's regworld" where
  "GetModuleByID i = rwQuery (\<lambda>w. find (\<lambda>m. moID m = i) (rwModules w))"

definition UpdateModule :: "Module \<Rightarrow> 's regworld \<Rightarrow> (string + unit) \<times> 's regworld" where
  "UpdateModule m =
     rwExec (\<lambda>w.
       case find (\<lambda>n. moID n = moID m) (rwModules w) of
         None \<Rightarrow> Inl ''no rows''
       | Some old \<Rightarrow>
           if list_ex (\<lambda>n. moID n \<noteq> moID m \<and> moduleKey n = moduleKey (old\<lparr>moNamespace := moNamespace m\<rparr>)) (rwModules w)
           then Inl ''unique''
           else Inr ((), w\<lparr>rwModules := map (\<lambda>n. if moID n = moID m
                   then n\<lparr>moNamespace := moNamespace m, moDescription := moDescription m, moSource := moSource m,
                          moUpdatedAt := rwNow w\<rparr> else n) (rwModules w)\<rparr>))"

definition CreateModuleVersion ::
  "(string list \<Rightarrow> string) \<Rightarrow> ModuleVersion \<Rightarrow> 's regworld \<Rightarrow> (string + ModuleVersion) \<times> 's regworld" where
  "CreateModuleVersion newID v =
     rwExec (\<lambda>w.
       if list_ex (\<lambda>u. mvModuleID u = mvModuleID v \<and> mvVersion u = mvVersion v) (rwModuleVersions w) then Inl ''unique''
       else if \<not> list_ex (\<lambda>m. moID m = mvModuleID v) (rwModules w) then Inl ''foreign key''
       else let v' = v\<lparr>mvID := newID (map mvID (rwModuleVersions w)), mvDownloadCount := 0, mvDeprecated := False,
                       mvDeprecatedAt := None, mvDeprecationMessage := None, mvReplacementSource := None,
                       mvCreatedAt := rwNow w\<rparr>
            in Inr (v', w\<lparr>rwModuleVersions := rwModuleVersions w @ [v']\<rparr>))"

definition GetModuleVersion :: "string \<Rightarrow> string \<Rightarrow> 's regworld \<Rightarrow> (string + ModuleVersion option) \<times> 's regworld" where
  "GetModuleVersion mid ver = rwQuery (\<lambda>w. find (\<lambda>v. mvModuleID v = mid \<and> mvVersion v = ver) (rwModuleVersions w))"

definition ListModuleVersions ::
  "(ModuleVersion list \<Rightarrow> ModuleVersion list) \<Rightarrow> string \<Rightarrow> 's regworld \<Rightarrow> (string + ModuleVersion list) \<times> 's regworld" where
  "ListModuleVersions srt mid = rwQuery (\<lambda>w. srt (filter (\<lambda>v. mvModuleID v = mid) (rwModuleVersions w)))"

definition ListModuleVersionsPaginated ::
  "string \<Rightarrow> int \<Rightarrow> int \<Rightarrow> 's regworld \<Rightarrow> (string + ModuleVersion list \<times> nat) \<times> 's regworld" where
  "ListModuleVersionsPaginated mid limit offset w =
     (case rwQuery (\<lambda>w. length (filter (\<lambda>v. mvModuleID v = mid) (rwModuleVersions w))) w of
        (Inl e, w1) \<Rightarrow> (Inl e, w1)
      | (Inr n, w1) \<Rightarrow>
          (case rwQuery (\<lambda>w. page limit offset
                  (sort_key (\<lambda>v. - mvCreatedAt v) (filter (\<lambda>v. mvModuleID v = mid) (rwModuleVersions w)))) w1 of
             (Inl e, w2) \<Rightarrow> (Inl e, w2)
           | (Inr vs, w2) \<Rightarrow> (Inr (vs, n), w2)))"

definition onModuleVersion ::
  "string \<Rightarrow> ('s regworld \<Rightarrow> ModuleVersion \<Rightarrow> ModuleVersion) \<Rightarrow> 's regworld \<Rightarrow> (string + nat) \<times> 's regworld" where
  "onModuleVersion i f =
     rwExec (\<lambda>w. Inr (length (filter (\<lambda>v. mvID v = i) (rwModuleVersions w)),
                      w\<lparr>rwModuleVersions := map (\<lambda>v. if mvID v = i then f w v else v) (rwModuleVersions w)\<rparr>))"

definition IncrementModuleDownloadCount :: "string \<Rightarrow> 's regworld \<Rightarrow> (string + unit) \<times> 's regworld" where
  "IncrementModuleDownloadCount i w =
     apfst (map_sum id (\<lambda>_. ())) (onModuleVersion i (\<lambda>w v. v\<lparr>mvDownloadCount := mvDownloadCount v + 1\<rparr>) w)"

definition DeprecateModuleVersion ::
  "string \<Rightarrow> string option \<Rightarrow> string option \<Rightarrow> 's regworld \<Rightarrow> (string + unit) \<times> 's regworld" where
  "DeprecateModuleVersion i msg repl w =
     affectedOne (onModuleVersion i (\<lambda>w v. v\<lparr>mvDeprecated := True, mvDeprecatedAt := Some (rwNow w),
                                             mvDeprecationMessage := msg, mvReplacementSource := repl\<rparr>) w)"

definition UndeprecateModuleVersion :: "string \<Rightarrow> 's regworld \<Rightarrow> (string + unit) \<times> 's regworld" where
  "UndeprecateModuleVersion i w =
     affectedOne (onModuleVersion i (\<lambda>w v. v\<lparr>mvDeprecated := False, mvDeprecatedAt := None,
                                             mvDeprecationMessage := None, mvReplacementSource := None\<rparr>) w)"

text \<open>The rows of documentation and scans go with their version, versions with their module.\<close>

definition dropModuleVersions :: "string list \<Rightarrow> 's regworld \<Rightarrow> 's regworld" where
  "dropModuleVersions ids w =
     w\<lparr>rwModuleVersions := filter (\<lambda>v. mvID v \<notin> set ids) (rwModuleVersions w),
       rwDocs := filter (\<lambda>d. fst d \<notin> set ids) (rwDocs w),
       rwScans := filter (\<lambda>s. msModuleVersionID s \<notin> set ids) (rwScans w)\<rparr>"

definition DeleteModuleVersion :: "string \<Rightarrow> 's regworld \<Rightarrow> (string + unit) \<times> 's regworld" where
  "DeleteModuleVersion i w =
     affectedOne (rwExec (\<lambda>w. Inr (length (filter (\<lambda>v. mvID v = i) (rwModuleVersions w)), dropModuleVersions [i] w)) w)"

definition DeleteModule :: "string \<Rightarrow> 's regworld \<Rightarrow> (string + unit) \<times> 's regworld" where
  "DeleteModule i w =
     affectedOne (rwExec (\<lambda>w.
       Inr (length (filter (\<lambda>m. moID m = i) (rwModules w)),
            dropModuleVersions (map mvID (filter (\<lambda>v. mvModuleID v = i) (rwModuleVersions w)))
              (w\<lparr>rwModules := map (\<lambda>m. if moSuccessorModuleID m = Some i then m\<lparr>moSuccessorModuleID := None\<rparr> else m)
                                (filter (\<lambda>m. moID m \<noteq> i) (rwModules w))\<rparr>))) w)"

text \<open>A successor has to exist.\<close>

definition DeprecateModule ::
  "string \<Rightarrow> string option \<Rightarrow> string option \<Rightarrow> 's regworld \<Rightarrow> (string + unit) \<times> 's regworld" where
  "DeprecateModule i msg succ w =
     affectedOne (rwExec (\<lambda>w.
       if list_ex (\<lambda>m. moID m = i) (rwModules w) \<and> succ \<noteq> None \<and> \<not> list_ex (\<lambda>m. Some (moID m) = succ) (rwModules w)
       then Inl ''foreign key''
       else Inr (length (filter (\<lambda>m. moID m = i) (rwModules w)),
                 w\<lparr>rwModules := map (\<lambda>m. if moID m = i then m\<lparr>moDeprecated := True, moDeprecatedAt := Some (rwNow w),
                        moDeprecationMessage := msg, moSuccessorModuleID := succ\<rparr> else m) (rwModules w)\<rparr>)) w)"

definition UndeprecateModule :: "string \<Rightarrow> 's regworld \<Rightarrow> (string + unit) \<times> 's regworld" where
  "UndeprecateModule i w =
     affectedOne (rwExec (\<lambda>w.
       Inr (length (filter (\<lambda>m. moID m = i) (rwModules w)),
            w\<lparr>rwModules := map (\<lambda>m. if moID m = i then m\<lparr>moDeprecated := False, moDeprecatedAt := None,
                   moDeprecationMessage := None, moSuccessorModuleID := None\<rparr> else m) (rwModules w)\<rparr>)) w)"

definition GetModuleVersionByChecksum ::
  "string \<Rightarrow> string \<Rightarrow> 's regworld \<Rightarrow> (string + ModuleVersion option) \<times> 's regworld" where
  "GetModuleVersionByChecksum mid chk = rwQuery (\<lambda>w. find (\<lambda>v. mvModuleID v = mid \<and> mvChecksum v = chk) (rwModuleVersions w))"

text \<open>module\_docs\_repository.go and module\_scan\_repository.go, on the same tables.\<close>

definition UpsertModuleDocs :: "string \<Rightarrow> string \<Rightarrow> 's regworld \<Rightarrow> (string + unit) \<times> 's regworld" where
  "UpsertModuleDocs vid doc =
     rwExec (\<lambda>w. if \<not> list_ex (\<lambda>v. mvID v = vid) (rwModuleVersions w) then Inl ''foreign key''
                 else Inr ((), w\<lparr>rwDocs := AList.update vid doc (rwDocs w)\<rparr>))"

definition queueScan ::
  "(string \<Rightarrow> string \<Rightarrow> int \<Rightarrow> ModuleScan list \<Rightarrow> ModuleScan list) \<Rightarrow> (string list \<Rightarrow> string) \<Rightarrow> string \<Rightarrow> 's regworld \<Rightarrow>
   (string + unit) \<times> 's regworld" where
  "queueScan q newID vid =
     rwExec (\<lambda>w. if \<not> list_ex (\<lambda>v. mvID v = vid) (rwModuleVersions w) then Inl ''foreign key''
                 else Inr ((), w\<lparr>rwScans := q (newID (map msID (rwScans w))) vid (rwNow w) (rwScans w)\<rparr>))"

section \<open>policy/engine.go\<close>

text \<open>A compiled query gives the violations of an input, or fails.\<close>

record policy_input =
  piNamespace :: string
  piName :: string
  piSystem :: string
  piVersion :: string
  piSize :: int

record PolicyEngine =
  peEnabled :: bool
  peMode :: string
  peQueries :: "(policy_input \<Rightarrow> string + string list) list"

record PolicyResult =
  prAllowed :: bool
  prMode :: string
  prViolations :: "string list"

fun evaluateQueries :: "(policy_input \<Rightarrow> string + string list) list \<Rightarrow> policy_input \<Rightarrow> string + string list" where
  "evaluateQueries [] inp = Inr []"
| "evaluateQueries (q # qs) inp =
     (case q inp of
        Inl e \<Rightarrow> Inl e
      | Inr vs \<Rightarrow> (case evaluateQueries qs inp of Inl e \<Rightarrow> Inl e | Inr us \<Rightarrow> Inr (vs @ us)))"

definition Evaluate :: "PolicyEngine \<Rightarrow> policy_input \<Rightarrow> string + PolicyResult" where
  "Evaluate e inp =
     (if \<not> peEnabled e \<or> peQueries e = [] then Inr \<lparr>prAllowed = True, prMode = peMode e, prViolations = []\<rparr>
      else (case evaluateQueries (peQueries e) inp of
              Inl err \<Rightarrow> Inl err
            | Inr vs \<Rightarrow> Inr \<lparr>prAllowed = (vs = []), prMode = peMode e, prViolations = vs\<rparr>))"

section \<open>validation/readme.go\<close>

text \<open>\<^verbatim>\<open>strings.EqualFold\<close> against names without k and s, whose only other foldings are outside ASCII.\<close>

definition lowerASCII :: "char \<Rightarrow> char" where
  "lowerASCII c = (let n = (of_char c :: nat) in if 65 \<le> n \<and> n \<le> 90 then char_of (n + 32) else c)"

definition equalFold :: "string \<Rightarrow> string \<Rightarrow> bool" where
  "equalFold a b = (map lowerASCII a = map lowerASCII b)"

definition readmeNames :: "string list" where
  "readmeNames = [''README.md'', ''readme.md'', ''README.MD'', ''README'', ''readme'', ''README.txt'', ''readme.txt'']"

definition maxReadmeSize :: int where "maxReadmeSize = 1024 * 1024"

fun readmeCandidates :: "(nat \<times> string) list \<Rightarrow> tar_stream \<Rightarrow> string + (nat \<times> string) list" where
  "readmeCandidates cs TarEOF = Inr cs"
| "readmeCandidates cs (TarError e) = Inl e"
| "readmeCandidates cs (TarEntry h body rest) =
     (let name = trimPrefix (hdrName h) ''./'' in
      if hdrTypeflag h = TypeDir \<or> CHR ''/'' \<in> set name then readmeCandidates cs rest
      else (case find (\<lambda>i. equalFold name (readmeNames ! i)) [0..<length readmeNames] of
              None \<Rightarrow> readmeCandidates cs rest
            | Some i \<Rightarrow>
                if map_of cs i \<noteq> None then readmeCandidates cs rest
                else (case limitReader maxReadmeSize body of (d, fails) \<Rightarrow>
                        if fails then Inl ''failed to read README content'' else readmeCandidates ((i, d) # cs) rest)))"

definition ExtractReadme :: "tar_open \<Rightarrow> reader \<Rightarrow> string + string" where
  "ExtractReadme opn rd =
     (case opn rd of
        Inl e \<Rightarrow> Inl e
      | Inr tr \<Rightarrow>
          (case readmeCandidates [] tr of
             Inl e \<Rightarrow> Inl e
           | Inr cs \<Rightarrow>
               Inr (case List.find (\<lambda>i. map_of cs i \<noteq> None) [0..<length readmeNames] of
                      None \<Rightarrow> '''' | Some i \<Rightarrow> the (map_of cs i))))"

section \<open>api/modules: upload\<close>

text \<open>
  What the endpoints are given beyond the environment of the provider registry: the archive reader, the policy engine
  if there is one, the analyzer if documentation is kept, the order of versions, and whether uploads are scanned.
\<close>

record 's modenv =
  meReg :: "'s regenv"
  meTar :: tar_open
  mePolicy :: "PolicyEngine option"
  meAnalyze :: "(reader \<Rightarrow> string + string option) option"
  meSort :: "ModuleVersion list \<Rightarrow> ModuleVersion list"
  meScanning :: bool

record mod_form =
  mfParsed :: bool
  mfNamespace :: string
  mfName :: string
  mfSystem :: string
  mfVersion :: string
  mfDescription :: string
  mfSource :: string
  mfFile :: "(string \<times> reader) option"
  mfUser :: "string option"

record ModuleVersionJSON =
  mjVersion :: ModuleVersion
  mjHasDocs :: bool
  mjDeprecation :: "(string option \<times> string option) option"
  mjPublishedByName :: "string option"

datatype mresponse =
    MError nat string
  | MBlocked "string list"
  | MCreated Module ModuleVersion string
  | MGet string
  | MVersions "string option" "ModuleVersionJSON list" nat int int
  | MDetail Module int "ModuleVersion list"
  | MVersion ModuleVersion
  | MModule nat Module
  | MDone string
  | MReanalyzed string string

fun mrespStatus :: "mresponse \<Rightarrow> nat" where
  "mrespStatus (MError n _) = n"
| "mrespStatus (MBlocked _) = 422"
| "mrespStatus (MCreated _ _ _) = 201"
| "mrespStatus (MGet _) = 204"
| "mrespStatus (MModule n _) = n"
| "mrespStatus _ = 200"

definition orMResp :: "nat \<Rightarrow> string \<Rightarrow> (string + 'a) \<times> 's regworld \<Rightarrow> (mresponse + 'a) \<times> 's regworld" where
  "orMResp n msg r = (case r of (Inl _, w) \<Rightarrow> (Inl (MError n msg), w) | (Inr x, w) \<Rightarrow> (Inr x, w))"

definition ioMGuard :: "nat \<Rightarrow> string \<Rightarrow> 's regworld \<Rightarrow> (mresponse + unit) \<times> 's regworld" where
  "ioMGuard n msg w = (case ioFails w of (b, w1) \<Rightarrow> (if b then Inl (MError n msg) else Inr (), w1))"

definition validateForm :: "'s modenv \<Rightarrow> mod_form \<Rightarrow> mresponse + string \<times> reader" where
  "validateForm M f =
     (if \<not> mfParsed f then Inl (MError 400 ''Failed to parse multipart form'')
      else if mfNamespace f = '''' \<or> mfName f = '''' \<or> mfSystem f = '''' \<or> mfVersion f = ''''
      then Inl (MError 400 ''Missing required fields'')
      else if ValidateRegistrySegment (mfNamespace f) \<noteq> Inr () \<or> ValidateRegistrySegment (mfName f) \<noteq> Inr () \<or>
        ValidateRegistrySegment (mfSystem f) \<noteq> Inr ()
      then Inl (MError 400 ''Invalid segment'')
      else if \<not> reSemver (meReg M) (mfVersion f) then Inl (MError 400 ''Invalid version format'')
      else (case mfFile f of None \<Rightarrow> Inl (MError 400 ''Missing or invalid file upload'') | Some q \<Rightarrow> Inr q))"

text \<open>The temporary file and the validation of the archive in it.\<close>

definition spoolModule :: "'s modenv \<Rightarrow> reader \<Rightarrow> 's regworld \<Rightarrow> (mresponse + string) \<times> 's regworld" where
  "spoolModule M rd w =
     bindR (ioMGuard 500 ''Failed to create temporary file'' w) (\<lambda>_ w.
     bindR (ioMGuard 500 ''Failed to read uploaded file'' w) (\<lambda>_ w.
     if snd rd then (Inl (MError 500 ''Failed to read uploaded file''), w)
     else
     bindR (ioMGuard 500 ''Failed to process uploaded file'' w) (\<lambda>_ w.
     (case ioFails w of (b, w1) \<Rightarrow>
       (if isl (ValidateArchive (meTar M) (fst rd, b) MaxArchiveSize) then Inl (MError 400 ''Invalid archive'') else Inr (fst rd), w1)))))"

definition policyGate :: "'s modenv \<Rightarrow> mod_form \<Rightarrow> string \<Rightarrow> mresponse + unit" where
  "policyGate M f d =
     (case mePolicy M of
        None \<Rightarrow> Inr ()
      | Some e \<Rightarrow>
          if \<not> peEnabled e then Inr ()
          else (case Evaluate e \<lparr>piNamespace = mfNamespace f, piName = mfName f, piSystem = mfSystem f,
                                 piVersion = mfVersion f, piSize = int (length d)\<rparr> of
                  Inl _ \<Rightarrow> Inr ()
                | Inr r \<Rightarrow> if \<not> prAllowed r \<and> peMode e = ''block'' then Inl (MBlocked (prViolations r)) else Inr ()))"

definition formModule :: "mod_form \<Rightarrow> string \<Rightarrow> Module" where
  "formModule f org =
     \<lparr>moID = '''', moOrganizationID = org, moNamespace = mfNamespace f, moName = mfName f, moSystem = mfSystem f,
      moDescription = nonEmpty (mfDescription f), moSource = nonEmpty (mfSource f), moCreatedBy = mfUser f,
      moCreatedAt = 0, moUpdatedAt = 0, moDeprecated = False, moDeprecatedAt = None, moDeprecationMessage = None,
      moSuccessorModuleID = None\<rparr>"

definition registerModule :: "'s modenv \<Rightarrow> mod_form \<Rightarrow> 's regworld \<Rightarrow> (mresponse + Module) \<times> 's regworld" where
  "registerModule M f w =
     bindR (orMResp 500 ''Failed to get organization context'' (GetDefaultOrganization w)) (\<lambda>org w.
       case org of
         None \<Rightarrow> (Inl (MError 500 ''Default organization not found''), w)
       | Some org \<Rightarrow>
           bindR (orMResp 500 ''Failed to create/get module'' (UpsertModule (reNewID (meReg M)) (formModule f org) w)) (\<lambda>m w.
           if mfDescription f \<noteq> '''' \<or> mfSource f \<noteq> ''''
           then bindR (orMResp 500 ''Failed to update module'' (UpdateModule m w)) (\<lambda>_ w. (Inr m, w))
           else (Inr m, w)))"

definition modulePath :: "mod_form \<Rightarrow> string" where
  "modulePath f =
     ''modules/'' @ mfNamespace f @ ''/'' @ mfName f @ ''/'' @ mfSystem f @ ''/'' @ mfVersion f @ ''.tar.gz''"

text \<open>Everything before the bytes are stored.\<close>

definition prepareModule :: "'s modenv \<Rightarrow> mod_form \<Rightarrow> 's regworld \<Rightarrow> (mresponse + Module \<times> string \<times> string) \<times> 's regworld" where
  "prepareModule M f w =
     (case validateForm M f of
        Inl r \<Rightarrow> (Inl r, w)
      | Inr (fname, rd) \<Rightarrow>
          bindR (spoolModule M rd w) (\<lambda>d w.
          case policyGate M f d of
            Inl r \<Rightarrow> (Inl r, w)
          | Inr _ \<Rightarrow>
              bindR (registerModule M f w) (\<lambda>m w.
              bindR (orMResp 500 ''Failed to check for existing version'' (GetModuleVersion (moID m) (mfVersion f) w)) (\<lambda>ex w.
              if ex \<noteq> None then (Inl (MError 409 ''Version already exists''), w)
              else bindR (ioMGuard 500 ''Failed to process uploaded file'' w) (\<lambda>_ w. (Inr (m, fname, d), w))))))"

definition readmeOf :: "'s modenv \<Rightarrow> reader \<Rightarrow> string option" where
  "readmeOf M rd = (case ExtractReadme (meTar M) rd of Inl _ \<Rightarrow> None | Inr r \<Rightarrow> nonEmpty r)"

definition newModuleVersion :: "'s modenv \<Rightarrow> mod_form \<Rightarrow> Module \<Rightarrow> UploadResult \<Rightarrow> string option \<Rightarrow> ModuleVersion" where
  "newModuleVersion M f m res readme =
     \<lparr>mvID = '''', mvModuleID = moID m, mvVersion = mfVersion f, mvStoragePath = urPath res,
      mvStorageBackend = reDefaultBackend (meReg M), mvSizeBytes = int (urSize res), mvChecksum = urChecksum res,
      mvReadme = readme, mvPublishedBy = mfUser f, mvDownloadCount = 0, mvDeprecated = False, mvDeprecatedAt = None,
      mvDeprecationMessage = None, mvReplacementSource = None, mvCreatedAt = 0, mvCommitSHA = None, mvTagName = None,
      mvSCMRepoID = None\<rparr>"

text \<open>The steps after the row exists: neither changes the answer.\<close>

definition queueUploadScan :: "'s modenv \<Rightarrow> string \<Rightarrow> 's regworld \<Rightarrow> 's regworld" where
  "queueUploadScan M vid w = (if meScanning M then snd (queueScan createRow (reNewID (meReg M)) vid w) else w)"

definition analyzeUpload :: "'s modenv \<Rightarrow> string \<Rightarrow> string \<Rightarrow> 's regworld \<Rightarrow> 's regworld" where
  "analyzeUpload M vid d w =
     (case meAnalyze M of
        None \<Rightarrow> w
      | Some an \<Rightarrow>
          (case ioFails w of (seekFails, w1) \<Rightarrow>
           if seekFails then w1
           else (case ioFails w1 of (readFails, w2) \<Rightarrow>
                  (case an (d, readFails) of
                     Inr (Some doc) \<Rightarrow> snd (UpsertModuleDocs vid doc w2)
                   | _ \<Rightarrow> w2))))"

text \<open>
  A failed seek before the README is only logged: the reader is then at the end of the file and gives nothing.
\<close>

definition storeModule :: "'s modenv \<Rightarrow> mod_form \<Rightarrow> Module \<times> string \<times> string \<Rightarrow> 's regworld \<Rightarrow> mresponse \<times> 's regworld" where
  "storeModule M f q w =
     (case q of (m, fname, d) \<Rightarrow>
       (case onStore (sbUpload (reBackend (meReg M)) (modulePath f) (d, False) (length d)) w of
          (Inl e, w1) \<Rightarrow> (MError 500 ''Failed to upload file'', w1)
        | (Inr res, w1) \<Rightarrow>
            (case ioFails w1 of (seekFails, w2) \<Rightarrow>
            (case ioFails w2 of (readFails, w3) \<Rightarrow>
            (case CreateModuleVersion (reNewID (meReg M))
                    (newModuleVersion M f m res (readmeOf M (if seekFails then [] else d, readFails))) w3 of
               (Inl e, w4) \<Rightarrow>
                 (MError 500 ''Failed to create version record'', snd (onStore (sbDelete (reBackend (meReg M)) (urPath res)) w4))
             | (Inr v, w4) \<Rightarrow>
                 (MCreated m v fname, analyzeUpload M (mvID v) d (queueUploadScan M (mvID v) w4)))))))"

definition ModuleUploadHandler :: "'s modenv \<Rightarrow> mod_form \<Rightarrow> 's regworld \<Rightarrow> mresponse \<times> 's regworld" where
  "ModuleUploadHandler M f w =
     (case prepareModule M f w of (Inl r, w1) \<Rightarrow> (r, w1) | (Inr q, w1) \<Rightarrow> storeModule M f q w1)"

section \<open>api/modules: download and listing\<close>

definition withModOrg ::
  "(string \<Rightarrow> 's regworld \<Rightarrow> mresponse \<times> 's regworld) \<Rightarrow> 's regworld \<Rightarrow> mresponse \<times> 's regworld" where
  "withModOrg k w =
     (case GetDefaultOrganization w of
        (Inl e, w1) \<Rightarrow> (MError 500 ''Failed to get organization context'', w1)
      | (Inr None, w1) \<Rightarrow> (MError 500 ''Default organization not found'', w1)
      | (Inr (Some org), w1) \<Rightarrow> k org w1)"

definition withModule ::
  "string \<Rightarrow> string \<Rightarrow> string \<Rightarrow> string \<Rightarrow> (Module \<Rightarrow> 's regworld \<Rightarrow> mresponse \<times> 's regworld) \<Rightarrow> 's regworld \<Rightarrow> mresponse \<times> 's regworld" where
  "withModule org ns name sys k w =
     (case GetModule org ns name sys w of
        (Inl e, w1) \<Rightarrow> (MError 500 ''Failed to query module'', w1)
      | (Inr None, w1) \<Rightarrow> (MError 404 ''Module not found'', w1)
      | (Inr (Some m), w1) \<Rightarrow> k m w1)"

definition withModuleVersion ::
  "string \<Rightarrow> string \<Rightarrow> (ModuleVersion \<Rightarrow> 's regworld \<Rightarrow> mresponse \<times> 's regworld) \<Rightarrow> 's regworld \<Rightarrow> mresponse \<times> 's regworld" where
  "withModuleVersion mid ver k w =
     (case GetModuleVersion mid ver w of
        (Inl e, w1) \<Rightarrow> (MError 500 ''Failed to query module version'', w1)
      | (Inr None, w1) \<Rightarrow> (MError 404 ''Module version not found'', w1)
      | (Inr (Some v), w1) \<Rightarrow> k v w1)"

definition downloadModule :: "'s modenv \<Rightarrow> ModuleVersion \<Rightarrow> 's regworld \<Rightarrow> mresponse \<times> 's regworld" where
  "downloadModule M v w =
     (case onStore (sbGetURL (reBackend (meReg M)) (mvStoragePath v)) w of
        (Inl e, w1) \<Rightarrow> (MError 500 ''Failed to generate download URL'', w1)
      | (Inr url, w1) \<Rightarrow> (MGet url, snd (IncrementModuleDownloadCount (mvID v) w1)))"

definition ModuleDownloadHandler ::
  "'s modenv \<Rightarrow> string \<Rightarrow> string \<Rightarrow> string \<Rightarrow> string \<Rightarrow> 's regworld \<Rightarrow> mresponse \<times> 's regworld" where
  "ModuleDownloadHandler M ns name sys ver w =
     (if \<not> reSemver (meReg M) ver then (MError 400 ''Invalid version format'', w)
      else withModOrg (\<lambda>org. withModule org ns name sys (\<lambda>m. withModuleVersion (moID m) ver (downloadModule M))) w)"

text \<open>The protocol's deprecation block is there when it has a reason or a link.\<close>

definition moduleVersionJSON :: "'s regworld \<Rightarrow> ModuleVersion \<Rightarrow> ModuleVersionJSON" where
  "moduleVersionJSON w v =
     \<lparr>mjVersion = v, mjHasDocs = (map_of (rwDocs w) (mvID v) \<noteq> None),
      mjDeprecation = (if mvDeprecated v \<and> (mvDeprecationMessage v \<noteq> None \<or> mvReplacementSource v \<noteq> None)
                       then Some (mvDeprecationMessage v, mvReplacementSource v) else None),
      mjPublishedByName = (case mvPublishedBy v of None \<Rightarrow> None | Some u \<Rightarrow> map_of (rwUsers w) u)\<rparr>"

definition listModuleAnswer :: "int \<Rightarrow> int \<Rightarrow> Module \<Rightarrow> 's regworld \<Rightarrow> mresponse \<times> 's regworld" where
  "listModuleAnswer limit offset m w =
     (case ListModuleVersionsPaginated (moID m) limit offset w of
        (Inl e, w1) \<Rightarrow> (MError 500 ''Failed to list module versions'', w1)
      | (Inr (vs, n), w1) \<Rightarrow> (MVersions (moSource m) (map (moduleVersionJSON w1) vs) n limit offset, w1))"

definition ModuleListVersionsHandler ::
  "string \<Rightarrow> string \<Rightarrow> string \<Rightarrow> string option \<Rightarrow> string option \<Rightarrow> 's regworld \<Rightarrow> mresponse \<times> 's regworld" where
  "ModuleListVersionsHandler ns name sys limitQ offsetQ =
     withModOrg (\<lambda>org. withModule org ns name sys (listModuleAnswer (clampLimit limitQ) (clampOffset offsetQ)))"

section \<open>api/admin/modules.go\<close>

record create_module_request =
  cmNamespace :: string
  cmName :: string
  cmSystem :: string
  cmDescription :: string

definition CreateModuleRecord ::
  "'s modenv \<Rightarrow> create_module_request option \<Rightarrow> string option \<Rightarrow> 's regworld \<Rightarrow> mresponse \<times> 's regworld" where
  "CreateModuleRecord M body user w =
     (case body of
        None \<Rightarrow> (MError 400 ''invalid request'', w)
      | Some q \<Rightarrow>
          if cmNamespace q = '''' \<or> cmName q = '''' \<or> cmSystem q = '''' then (MError 400 ''invalid request'', w)
          else if ValidateRegistrySegment (cmNamespace q) \<noteq> Inr () \<or> ValidateRegistrySegment (cmName q) \<noteq> Inr () \<or>
            ValidateRegistrySegment (cmSystem q) \<noteq> Inr ()
          then (MError 400 ''Invalid segment'', w)
          else
            (case GetDefaultOrganization w of
               (Inr (Some org), w1) \<Rightarrow>
                 (case GetModule org (cmNamespace q) (cmName q) (cmSystem q) w1 of
                    (Inl e, w2) \<Rightarrow> (MError 500 ''failed to query module'', w2)
                  | (Inr (Some m), w2) \<Rightarrow> (MModule 200 m, w2)
                  | (Inr None, w2) \<Rightarrow>
                      (case CreateModule (reNewID (meReg M))
                              \<lparr>moID = '''', moOrganizationID = org, moNamespace = cmNamespace q, moName = cmName q,
                               moSystem = cmSystem q, moDescription = nonEmpty (cmDescription q), moSource = None,
                               moCreatedBy = user, moCreatedAt = 0, moUpdatedAt = 0, moDeprecated = False,
                               moDeprecatedAt = None, moDeprecationMessage = None, moSuccessorModuleID = None\<rparr> w2 of
                         (Inl e, w3) \<Rightarrow> (MError 500 ''failed to create module'', w3)
                       | (Inr m, w3) \<Rightarrow> (MModule 201 m, w3)))
             | (_, w1) \<Rightarrow> (MError 500 ''failed to get organization context'', w1)))"

definition withAdminModule ::
  "string \<Rightarrow> string \<Rightarrow> string \<Rightarrow> (Module \<Rightarrow> 's regworld \<Rightarrow> mresponse \<times> 's regworld) \<Rightarrow> 's regworld \<Rightarrow> mresponse \<times> 's regworld" where
  "withAdminModule ns name sys k w =
     (case GetDefaultOrganization w of
        (Inl e, w1) \<Rightarrow> (MError 500 ''Failed to get organization context'', w1)
      | (Inr org, w1) \<Rightarrow>
          (case GetModule (case org of None \<Rightarrow> '''' | Some i \<Rightarrow> i) ns name sys w1 of
             (Inl e, w2) \<Rightarrow> (MError 500 ''Failed to get module'', w2)
           | (Inr None, w2) \<Rightarrow> (MError 404 ''Module not found'', w2)
           | (Inr (Some m), w2) \<Rightarrow> k m w2))"

definition withAdminModuleVersion ::
  "string \<Rightarrow> string \<Rightarrow> string \<Rightarrow> string \<Rightarrow> (ModuleVersion \<Rightarrow> 's regworld \<Rightarrow> mresponse \<times> 's regworld) \<Rightarrow> 's regworld \<Rightarrow> mresponse \<times> 's regworld" where
  "withAdminModuleVersion ns name sys ver k =
     withAdminModule ns name sys (\<lambda>m w.
       case GetModuleVersion (moID m) ver w of
         (Inl e, w1) \<Rightarrow> (MError 500 ''Failed to get version'', w1)
       | (Inr None, w1) \<Rightarrow> (MError 404 ''Version not found'', w1)
       | (Inr (Some v), w1) \<Rightarrow> k v w1)"

definition GetModuleHandler :: "'s modenv \<Rightarrow> string \<Rightarrow> string \<Rightarrow> string \<Rightarrow> 's regworld \<Rightarrow> mresponse \<times> 's regworld" where
  "GetModuleHandler M ns name sys =
     withAdminModule ns name sys (\<lambda>m w.
       case ListModuleVersions (meSort M) (moID m) w of
         (Inl e, w1) \<Rightarrow> (MError 500 ''Failed to list module versions'', w1)
       | (Inr vs, w1) \<Rightarrow> (MDetail m (sum_list (map mvDownloadCount vs)) vs, w1))"

definition GetModuleVersionHandler :: "string \<Rightarrow> string \<Rightarrow> string \<Rightarrow> string \<Rightarrow> 's regworld \<Rightarrow> mresponse \<times> 's regworld" where
  "GetModuleVersionHandler ns name sys ver = withAdminModuleVersion ns name sys ver (\<lambda>v w. (MVersion v, w))"

definition deleteModuleFile :: "'s modenv \<Rightarrow> ModuleVersion \<Rightarrow> 's regworld \<Rightarrow> 's regworld" where
  "deleteModuleFile M v w =
     (if mvStoragePath v \<noteq> '''' then snd (onStore (sbDelete (reBackend (meReg M)) (mvStoragePath v)) w) else w)"

definition DeleteModuleHandler :: "'s modenv \<Rightarrow> string \<Rightarrow> string \<Rightarrow> string \<Rightarrow> 's regworld \<Rightarrow> mresponse \<times> 's regworld" where
  "DeleteModuleHandler M ns name sys =
     withAdminModule ns name sys (\<lambda>m w.
       case ListModuleVersions (meSort M) (moID m) w of
         (Inl e, w1) \<Rightarrow> (MError 500 ''Failed to list module versions'', w1)
       | (Inr vs, w1) \<Rightarrow>
           (case DeleteModule (moID m) (fold (deleteModuleFile M) vs w1) of
              (Inl e, w2) \<Rightarrow> (MError 500 (''Failed to delete module: '' @ e), w2)
            | (Inr _, w2) \<Rightarrow> (MDone ''Module deleted successfully'', w2)))"

definition DeleteModuleVersionHandler ::
  "'s modenv \<Rightarrow> string \<Rightarrow> string \<Rightarrow> string \<Rightarrow> string \<Rightarrow> 's regworld \<Rightarrow> mresponse \<times> 's regworld" where
  "DeleteModuleVersionHandler M ns name sys ver =
     withAdminModuleVersion ns name sys ver (\<lambda>v w.
       case DeleteModuleVersion (mvID v) (deleteModuleFile M v w) of
         (Inl e, w1) \<Rightarrow> (MError 500 (''Failed to delete version: '' @ e), w1)
       | (Inr _, w1) \<Rightarrow> (MDone ''Version deleted successfully'', w1))"

text \<open>A body that cannot be read counts as empty.\<close>

definition DeprecateModuleVersionHandler ::
  "string \<Rightarrow> string \<Rightarrow> string \<Rightarrow> string \<Rightarrow> (string \<times> string option) option \<Rightarrow> 's regworld \<Rightarrow> mresponse \<times> 's regworld" where
  "DeprecateModuleVersionHandler ns name sys ver body =
     withAdminModuleVersion ns name sys ver (\<lambda>v w.
       case (case body of None \<Rightarrow> DeprecateModuleVersion (mvID v) None None w
                        | Some (msg, repl) \<Rightarrow> DeprecateModuleVersion (mvID v) (nonEmpty msg) repl w) of
         (Inl e, w1) \<Rightarrow> (MError 500 (''Failed to deprecate version: '' @ e), w1)
       | (Inr _, w1) \<Rightarrow> (MDone ''Version deprecated successfully'', w1))"

definition UndeprecateModuleVersionHandler :: "string \<Rightarrow> string \<Rightarrow> string \<Rightarrow> string \<Rightarrow> 's regworld \<Rightarrow> mresponse \<times> 's regworld" where
  "UndeprecateModuleVersionHandler ns name sys ver =
     withAdminModuleVersion ns name sys ver (\<lambda>v w.
       case UndeprecateModuleVersion (mvID v) w of
         (Inl e, w1) \<Rightarrow> (MError 500 (''Failed to undeprecate version: '' @ e), w1)
       | (Inr _, w1) \<Rightarrow> (MDone ''Version deprecation removed successfully'', w1))"

record update_module_request =
  umNamespace :: "string option"
  umDescription :: "string option"
  umSource :: "string option"

text \<open>The namespace the module is to have: refused when empty, checked against the modules there when it changes.\<close>

definition targetNamespace :: "update_module_request \<Rightarrow> Module \<Rightarrow> 's regworld \<Rightarrow> (mresponse + string) \<times> 's regworld" where
  "targetNamespace q m w =
     (case umNamespace q of
        None \<Rightarrow> (Inr (moNamespace m), w)
      | Some ns \<Rightarrow>
          if ns = '''' then (Inl (MError 400 ''namespace must not be empty''), w)
          else if ns = moNamespace m then (Inr ns, w)
          else bindR (orMResp 500 ''failed to check namespace availability''
                        (GetModule (moOrganizationID m) ns (moName m) (moSystem m) w)) (\<lambda>ex w.
            if ex \<noteq> None then (Inl (MError 409 ''a module with the same name and system already exists''), w) else (Inr ns, w)))"

definition UpdateModuleRecord ::
  "string \<Rightarrow> update_module_request option \<Rightarrow> 's regworld \<Rightarrow> mresponse \<times> 's regworld" where
  "UpdateModuleRecord i body w =
     (case body of
        None \<Rightarrow> (MError 400 ''invalid request'', w)
      | Some q \<Rightarrow>
          (case GetModuleByID i w of
             (Inl e, w1) \<Rightarrow> (MError 500 ''failed to get module'', w1)
           | (Inr None, w1) \<Rightarrow> (MError 404 ''module not found'', w1)
           | (Inr (Some m), w1) \<Rightarrow>
               (case targetNamespace q m w1 of
                  (Inl r, w2) \<Rightarrow> (r, w2)
                | (Inr ns, w2) \<Rightarrow>
                    let m' = m\<lparr>moNamespace := ns, moDescription := coalesce (umDescription q) (moDescription m),
                               moSource := coalesce (umSource q) (moSource m)\<rparr>
                    in (case UpdateModule m' w2 of
                          (Inl e, w3) \<Rightarrow> (MError 500 ''failed to update module'', w3)
                        | (Inr _, w3) \<Rightarrow> (MModule 200 m', w3)))))"

definition GetModuleByIDRecord :: "string \<Rightarrow> 's regworld \<Rightarrow> mresponse \<times> 's regworld" where
  "GetModuleByIDRecord i w =
     (case GetModuleByID i w of
        (Inl e, w1) \<Rightarrow> (MError 500 ''failed to get module'', w1)
      | (Inr None, w1) \<Rightarrow> (MError 404 ''module not found'', w1)
      | (Inr (Some m), w1) \<Rightarrow> (MModule 200 m, w1))"

definition DeprecateModuleHandler ::
  "string \<Rightarrow> string \<Rightarrow> string \<Rightarrow> (string \<times> string option) option \<Rightarrow> 's regworld \<Rightarrow> mresponse \<times> 's regworld" where
  "DeprecateModuleHandler ns name sys body =
     withAdminModule ns name sys (\<lambda>m w.
       case (case body of None \<Rightarrow> DeprecateModule (moID m) None None w
                        | Some (msg, succ) \<Rightarrow> DeprecateModule (moID m) (nonEmpty msg) succ w) of
         (Inl e, w1) \<Rightarrow> (MError 500 (''Failed to deprecate module: '' @ e), w1)
       | (Inr _, w1) \<Rightarrow> (MDone ''Module deprecated successfully'', w1))"

definition UndeprecateModuleHandler :: "string \<Rightarrow> string \<Rightarrow> string \<Rightarrow> 's regworld \<Rightarrow> mresponse \<times> 's regworld" where
  "UndeprecateModuleHandler ns name sys =
     withAdminModule ns name sys (\<lambda>m w.
       case UndeprecateModule (moID m) w of
         (Inl e, w1) \<Rightarrow> (MError 500 (''Failed to undeprecate module: '' @ e), w1)
       | (Inr _, w1) \<Rightarrow> (MDone ''Module deprecation removed successfully'', w1))"

definition reanalyzeDocs :: "'s modenv \<Rightarrow> ModuleVersion \<Rightarrow> 's regworld \<Rightarrow> (mresponse + string) \<times> 's regworld" where
  "reanalyzeDocs M v w =
     (case meAnalyze M of
        None \<Rightarrow> (Inr ''skipped_no_docs_repo'', w)
      | Some an \<Rightarrow>
          bindR (orMResp 500 ''Failed to download archive from storage''
                   (onStore (sbDownload (reBackend (meReg M)) (mvStoragePath v)) w)) (\<lambda>rd w.
          if snd rd then (Inl (MError 500 ''Failed to read archive''), w)
          else (case an rd of
                  Inl _ \<Rightarrow> (Inr ''analysis_failed'', w)
                | Inr None \<Rightarrow> (Inr ''no_terraform_files'', w)
                | Inr (Some doc) \<Rightarrow>
                    (case UpsertModuleDocs (mvID v) doc w of
                       (Inl _, w1) \<Rightarrow> (Inr ''store_failed'', w1)
                     | (Inr _, w1) \<Rightarrow> (Inr ''updated'', w1)))))"

definition requeueScan :: "'s modenv \<Rightarrow> ModuleVersion \<Rightarrow> 's regworld \<Rightarrow> string \<times> 's regworld" where
  "requeueScan M v w =
     (if meScanning M then
        (case queueScan upsertRow (reNewID (meReg M)) (mvID v) w of
           (Inl _, w1) \<Rightarrow> (''queue_failed'', w1) | (Inr _, w1) \<Rightarrow> (''queued'', w1))
      else (''not_configured'', w))"

definition ReanalyzeVersion :: "'s modenv \<Rightarrow> string \<Rightarrow> string \<Rightarrow> string \<Rightarrow> string \<Rightarrow> 's regworld \<Rightarrow> mresponse \<times> 's regworld" where
  "ReanalyzeVersion M ns name sys ver =
     withAdminModuleVersion ns name sys ver (\<lambda>v w.
       if mvStoragePath v = '''' then (MError 400 ''Version has no stored archive'', w)
       else (case reanalyzeDocs M v w of
               (Inl r, w1) \<Rightarrow> (r, w1)
             | (Inr docs, w1) \<Rightarrow> (case requeueScan M v w1 of (scan, w2) \<Rightarrow> (MReanalyzed docs scan, w2))))"

section \<open>Which README is kept\<close>

text \<open>A file in the root of the archive with this name, whatever the case of its letters.\<close>

definition rootNamed :: "string \<Rightarrow> tar_header \<times> reader \<Rightarrow> bool" where
  "rootNamed nm x = (let name = trimPrefix (hdrName (fst x)) ''./'' in
     hdrTypeflag (fst x) \<noteq> TypeDir \<and> CHR ''/'' \<notin> set name \<and> equalFold name nm)"

definition firstNamed :: "string \<Rightarrow> tar_stream \<Rightarrow> string option" where
  "firstNamed nm tr = map_option (\<lambda>x. take (1024 * 1024) (fst (snd x))) (find (rootNamed nm) (streamEntries tr))"

lemma lower_names:
  "map lowerASCII ''README.md'' = ''readme.md''" "map lowerASCII ''readme.md'' = ''readme.md''" "map lowerASCII ''README.MD'' = ''readme.md''"
  "map lowerASCII ''README'' = ''readme''" "map lowerASCII ''readme'' = ''readme''"
  "map lowerASCII ''README.txt'' = ''readme.txt''" "map lowerASCII ''readme.txt'' = ''readme.txt''"
  by code_simp+

lemma readme_index:
  "find (\<lambda>i. equalFold name (readmeNames ! i)) [0..<length readmeNames] =
     (if equalFold name ''README.md'' then Some 0 else if equalFold name ''README'' then Some 3
      else if equalFold name ''README.txt'' then Some 5 else None)"
proof -
  have "[0..<length readmeNames] = [0, 1, 2, 3, 4, 5, 6]" by (simp add: readmeNames_def upt_rec)
  moreover have "equalFold name ''readme.md'' = equalFold name ''README.md''" "equalFold name ''README.MD'' = equalFold name ''README.md''"
    "equalFold name ''readme'' = equalFold name ''README''" "equalFold name ''readme.txt'' = equalFold name ''README.txt''"
    unfolding equalFold_def lower_names by (rule refl)+
  ultimately show ?thesis by (simp add: readmeNames_def)
qed

lemma names_apart:
  "equalFold name ''README.md'' \<Longrightarrow> \<not> equalFold name ''README''" "equalFold name ''README.md'' \<Longrightarrow> \<not> equalFold name ''README.txt''"
  "equalFold name ''README'' \<Longrightarrow> \<not> equalFold name ''README.txt''"
  unfolding equalFold_def lower_names by simp_all

lemma readmeCandidates_exact:
  assumes "streamEnds tr" "\<forall>x\<in>set (streamEntries tr). \<not> snd (snd x)"
  shows "\<exists>cs'. readmeCandidates cs tr = Inr cs' \<and>
    map_of cs' 0 = (case map_of cs 0 of None \<Rightarrow> firstNamed ''README.md'' tr | d \<Rightarrow> d) \<and>
    map_of cs' 3 = (case map_of cs 3 of None \<Rightarrow> firstNamed ''README'' tr | d \<Rightarrow> d) \<and>
    map_of cs' 5 = (case map_of cs 5 of None \<Rightarrow> firstNamed ''README.txt'' tr | d \<Rightarrow> d) \<and>
    (\<forall>i. i \<notin> {0, 3, 5} \<longrightarrow> map_of cs' i = map_of cs i)"
  using assms
proof (induction tr arbitrary: cs)
  case (TarEntry h body rest)
  let ?name = "trimPrefix (hdrName h) ''./''" and ?d = "take (1024 * 1024) (fst body)"
  have prems: "streamEnds rest" "\<forall>x\<in>set (streamEntries rest). \<not> snd (snd x)" "\<not> snd body" using TarEntry.prems by simp_all
  have body: "limitReader maxReadmeSize body = (?d, False)" using prems(3) by (simp add: limitReader_def maxReadmeSize_def)
  note IH = TarEntry.IH[OF prems(1,2)]
  show ?case
  proof (cases "hdrTypeflag h = TypeDir \<or> CHR ''/'' \<in> set ?name")
    case True
    then have "rootNamed nm (h, body) = False" for nm by (auto simp: rootNamed_def Let_def)
    then have f: "firstNamed nm (TarEntry h body rest) = firstNamed nm rest" for nm by (simp add: firstNamed_def)
    show ?thesis using IH[of cs] True unfolding f by simp
  next
    case False
    then have r: "rootNamed nm (h, body) = equalFold ?name nm" for nm by (simp add: rootNamed_def Let_def)
    then have f: "firstNamed nm (TarEntry h body rest) = (if equalFold ?name nm then Some ?d else firstNamed nm rest)" for nm
      by (simp add: firstNamed_def)
    have e: "readmeCandidates cs (TarEntry h body rest) =
        (case (if equalFold ?name ''README.md'' then Some 0 else if equalFold ?name ''README'' then Some 3
               else if equalFold ?name ''README.txt'' then Some 5 else None) of
           Some j \<Rightarrow> readmeCandidates (if map_of cs j = None then (j, ?d) # cs else cs) rest
         | None \<Rightarrow> readmeCandidates cs rest)"
      using False body by (auto simp: readme_index Let_def split: option.split)
    consider "equalFold ?name ''README.md''" | "equalFold ?name ''README''" | "equalFold ?name ''README.txt''"
      | "\<not> equalFold ?name ''README.md''" "\<not> equalFold ?name ''README''" "\<not> equalFold ?name ''README.txt''" by blast
    then show ?thesis
    proof cases
      case 1
      note n = names_apart(1,2)[OF 1]
      show ?thesis using IH[of cs] IH[of "(0, ?d) # cs"] 1 n unfolding e f by (cases "map_of cs 0") simp_all
    next
      case 2
      note n = names_apart(3)[OF 2]
      have "\<not> equalFold ?name ''README.md''" using names_apart(1) 2 by blast
      then show ?thesis using IH[of cs] IH[of "(3, ?d) # cs"] 2 n unfolding e f by (cases "map_of cs 3") simp_all
    next
      case 3
      have "\<not> equalFold ?name ''README.md''" "\<not> equalFold ?name ''README''" using names_apart(2,3) 3 by blast+
      then show ?thesis using IH[of cs] IH[of "(5, ?d) # cs"] 3 unfolding e f by (cases "map_of cs 5") simp_all
    next
      case 4
      then show ?thesis using IH[of cs] unfolding e f by simp
    qed
  qed
qed (simp_all add: firstNamed_def option.case_eq_if)

text \<open>
  Claim C0. The README that is kept: of an archive that can be read to its end, the first root file called README.md, else the first
  called README, else the first called README.txt, cut at one mebibyte, where the case of the letters never matters.
\<close>

theorem ExtractReadme_exact:
  assumes "opn rd = Inr tr" "streamEnds tr" "\<forall>x\<in>set (streamEntries tr). \<not> snd (snd x)"
  shows "ExtractReadme opn rd = Inr (case firstNamed ''README.md'' tr of Some d \<Rightarrow> d | None \<Rightarrow>
    (case firstNamed ''README'' tr of Some d \<Rightarrow> d | None \<Rightarrow>
    (case firstNamed ''README.txt'' tr of Some d \<Rightarrow> d | None \<Rightarrow> '''')))"
proof -
  obtain cs where cs: "readmeCandidates [] tr = Inr cs" "map_of cs 0 = firstNamed ''README.md'' tr" "map_of cs 3 = firstNamed ''README'' tr"
    "map_of cs 5 = firstNamed ''README.txt'' tr" "\<And>i. i \<notin> {0, 3, 5} \<Longrightarrow> map_of cs i = None"
    using readmeCandidates_exact[OF assms(2,3), of "[]"] by auto
  have "[0..<length readmeNames] = [0, 1, 2, 3, 4, 5, 6]" by (simp add: readmeNames_def upt_rec)
  moreover have "map_of cs 1 = None" "map_of cs 2 = None" "map_of cs 4 = None" "map_of cs 6 = None" using cs(5) by simp_all
  ultimately show ?thesis using assms(1) cs(1-4) by (simp add: ExtractReadme_def split: option.split)
qed

theorem ExtractReadme_exact_witness:
  "ExtractReadme (\<lambda>_. Inr (regEntry ''readme'' ''r'' (regEntry ''readme.md'' ''low'' (regEntry ''README.md'' ''UP'' TarEOF)))) ([], False) = Inr ''low''"
proof -
  let ?tr = "regEntry ''readme'' ''r'' (regEntry ''readme.md'' ''low'' (regEntry ''README.md'' ''UP'' TarEOF))"
  have p: "streamEnds ?tr" "\<forall>x\<in>set (streamEntries ?tr). \<not> snd (snd x)" by (simp_all add: regEntry_def)
  have "find (rootNamed ''README.md'') (streamEntries ?tr) = Some (\<lparr>hdrName = ''readme.md'', hdrTypeflag = TypeReg\<rparr>, (''low'', False))"
    by code_simp
  then have "firstNamed ''README.md'' ?tr = Some ''low''" by (simp add: firstNamed_def)
  then show ?thesis using ExtractReadme_exact[of "\<lambda>_. Inr ?tr", OF refl p] by simp
qed

end
