(* ===== verification/ModuleArtifacts.thy ===== *)
theory ModuleArtifacts
  imports ModuleRegistry StorageMigration
begin

text \<open>
  The artifacts of the module registry: every version has its archive in storage, under the path of its module
  and with the recorded checksum. The laws of the store are a locale, discharged for the local backend.
\<close>

section \<open>Plain paths in the local store\<close>

definition plainPath :: "string \<Rightarrow> bool" where
  "plainPath p = list_all normal (splitOn (CHR ''/'') p)"

lemma plain_joined:
  assumes "plainPath p" "safeJoin L p = Inr full"
  shows "full = Clean (basePath L @ ''/'' @ p)" "basePath L \<noteq> []"
    "cleanElems full = cleanElems (basePath L) @ splitOn (CHR ''/'') p" "hasPrefix full ''/'' = hasPrefix (basePath L) ''/''"
proof -
  show b: "basePath L \<noteq> []"
  proof
    assume b: "basePath L = []"
    obtain e es where e: "splitOn (CHR ''/'') p = e # es" "normal e" "list_all normal es"
      using assms(1) by (cases "splitOn (CHR ''/'') p") (auto simp: plainPath_def)
    have "p \<noteq> []" using e by auto
    have "hasPrefix p ''/'' = False"
    proof (rule ccontr)
      assume "hasPrefix p ''/'' \<noteq> False"
      then obtain r where "p = CHR ''/'' # r" by (cases p) (auto simp: hasPrefix_def)
      with e show False by auto
    qed
    then have c: "cleanElems p = e # es" using e fold_clean_normal[of "e # es" False "[]"] by (simp add: cleanElems_def)
    have h: "hasPrefix (Clean (Clean p) @ ''/'') (Clean [] @ ''/'')"
      using assms(2) b \<open>p \<noteq> []\<close> by (auto simp: safeJoin_def Join_def Let_def split: if_splits)
    have "Clean [] = ''.''" by (simp add: Clean_def cleanElems_def hasPrefix_def cleanStep_def)
    with h obtain t where t: "Clean p @ ''/'' = ''./'' @ t" using hasPrefix_decompose[of "Clean p @ ''/''" "''./''"] by auto
    have "splitOn (CHR ''/'') (Clean p @ ''/'') = (e # es) @ [[]]"
      using splitOn_append_sep[of "CHR ''/''" "Clean p" "[]"] splitOn_Clean[of p] c \<open>hasPrefix p ''/'' = False\<close> by simp
    moreover have "splitOn (CHR ''/'') (''./'' @ t) = ''.'' # splitOn (CHR ''/'') t"
      using splitOn_append_sep[of "CHR ''/''" "''.''" t] by simp
    ultimately show False using t e(2) by auto
  qed
  show f: "full = Clean (basePath L @ ''/'' @ p)" using assms(2) b by (auto simp: safeJoin_def Join_def Let_def split: if_splits)
  have r: "hasPrefix (basePath L @ ''/'' @ p) ''/'' = hasPrefix (basePath L) ''/''" using b by (cases "basePath L") (auto simp: hasPrefix_def)
  have "splitOn (CHR ''/'') (basePath L @ ''/'' @ p) = splitOn (CHR ''/'') (basePath L) @ splitOn (CHR ''/'') p"
    using splitOn_append_sep[of "CHR ''/''" "basePath L" p] by simp
  then have "cleanElems (basePath L @ ''/'' @ p) = cleanElems (basePath L) @ splitOn (CHR ''/'') p"
    using assms(1) unfolding cleanElems_def r by (simp add: plainPath_def fold_clean_normal)
  then show "cleanElems full = cleanElems (basePath L) @ splitOn (CHR ''/'') p" by (simp add: f cleanElems_Clean)
  show "hasPrefix full ''/'' = hasPrefix (basePath L) ''/''" unfolding f hasPrefix_Clean r ..
qed

lemma joinSlash_splitOn: "joinSlash (splitOn (CHR ''/'') p) = p"
proof (induction p)
  case (Cons c p)
  obtain e es where e: "splitOn (CHR ''/'') p = e # es" by (cases "splitOn (CHR ''/'') p") auto
  with Cons show ?case by (cases es) auto
qed simp

lemma splitOn_inj: "splitOn (CHR ''/'') x = splitOn (CHR ''/'') y \<Longrightarrow> x = y"
  by (metis joinSlash_splitOn)

lemma plain_inj:
  assumes "plainPath p" "plainPath q" "safeJoin L p = Inr full" "safeJoin L q = Inr full"
  shows "p = q"
  using plain_joined(3)[OF assms(1,3)] plain_joined(3)[OF assms(2,4)] splitOn_inj by simp

lemma length_cleaned: "length (fold (cleanStep r) es st) \<le> length st + length (filter (\<lambda>e. e \<noteq> []) es)"
proof (induction es arbitrary: st)
  case (Cons e es)
  have "length (cleanStep r e st) \<le> length st + (if e = [] then 0 else 1)" by (auto simp: cleanStep_def split: list.split)
  with Cons[of "cleanStep r e st"] show ?case by (auto split: if_splits)
qed simp

lemma Dir_elems:
  assumes "Clean p = p"
  shows "length (cleanElems (Dir p)) \<le> length (cleanElems p) - 1"
proof (cases "CHR ''/'' \<in> set p")
  case False
  then have d: "rev (dropWhile (\<lambda>c. c \<noteq> CHR ''/'') (rev p)) = []" by (auto simp: dropWhile_eq_Nil_conv)
  have "cleanElems (Dir p) = cleanElems []" unfolding Dir_def cleanElems_Clean d ..
  then have "cleanElems (Dir p) = []" by (simp add: cleanElems_def cleanStep_def)
  then show ?thesis by simp
next
  case True
  then obtain a b where p: "p = a @ CHR ''/'' # b" "CHR ''/'' \<notin> set b" by (metis split_list_last)
  have "\<And>c. c \<in> set (rev b) \<Longrightarrow> c \<noteq> CHR ''/''" using p(2) by auto
  then have x: "rev (dropWhile (\<lambda>c. c \<noteq> CHR ''/'') (rev p)) = a @ ''/''"
    using p(1) dropWhile_append2[of "rev b" "\<lambda>c. c \<noteq> CHR ''/''" "CHR ''/'' # rev a"] by simp
  let ?n = "\<lambda>es. length (filter (\<lambda>e. e \<noteq> []) es)"
  have "length (cleanElems (a @ ''/'')) \<le> ?n (splitOn (CHR ''/'') (a @ ''/''))"
    using length_cleaned[of _ "splitOn (CHR ''/'') (a @ ''/'')" "[]"] by (simp add: cleanElems_def)
  also have "\<dots> = ?n (splitOn (CHR ''/'') a)" using splitOn_append_sep[of "CHR ''/''" a "[]"] by simp
  finally have 1: "length (cleanElems (Dir p)) \<le> ?n (splitOn (CHR ''/'') a)" unfolding Dir_def x cleanElems_Clean .
  have s: "splitOn (CHR ''/'') p = splitOn (CHR ''/'') a @ [b]" using p splitOn_append_sep[of "CHR ''/''" a b] splitOn_no_sep[of "CHR ''/''" b] by simp
  have ne: "[] \<notin> set (cleanElems p)" using okElems_clean[of p] canon_pieces by (auto simp: okElems_def)
  then have f: "filter (\<lambda>e. e \<noteq> []) (cleanElems p) = cleanElems p" by (auto simp: filter_id_conv)
  have c: "splitOn (CHR ''/'') p = (if hasPrefix p ''/'' then (if cleanElems p = [] then [[], []] else [] # cleanElems p)
      else if cleanElems p = [] then [''.''] else cleanElems p)" using splitOn_Clean[of p] assms by simp
  have "?n (splitOn (CHR ''/'') a) \<le> length (cleanElems p) - 1"
  proof (cases "cleanElems p = []")
    case True
    obtain e es where "splitOn (CHR ''/'') a = e # es" by (cases "splitOn (CHR ''/'') a") auto
    with s c True have "splitOn (CHR ''/'') a = [[]]" by (cases es) (auto split: if_splits)
    then show ?thesis by simp
  next
    case False
    then have "?n (splitOn (CHR ''/'') p) = length (cleanElems p)" "b = last (cleanElems p)"
      using c f s by (auto split: if_splits) (metis last_snoc last_ConsR)+
    moreover have "b \<noteq> []" using False ne \<open>b = last (cleanElems p)\<close> by (metis last_in_set)
    ultimately show ?thesis using s by simp
  qed
  with 1 show ?thesis by simp
qed

lemma pruneDirs_keeps:
  assumes "Clean dir = dir" "length (cleanElems dir) < length (cleanElems q)"
  shows "node (pruneDirs base dir s) q = node s q"
  using assms
proof (induction base dir s rule: pruneDirs.induct)
  case (1 base dir s)
  have q: "q \<noteq> dir" using 1(3) by auto
  show ?case
  proof (cases "dir = base \<or> isl (fst (osRemove dir s))")
    case True
    then show ?thesis using osRemove_keeps[OF q, of s] by (cases "osRemove dir s") (auto simp: pruneDirs.simps[of base dir s] isl_def)
  next
    case False
    then obtain u s1 where r: "osRemove dir s = (Inr u, s1)" by (cases "osRemove dir s"; cases "fst (osRemove dir s)") auto
    have "node (pruneDirs base (Dir dir) s1) q = node s1 q"
      using 1(1)[OF _ r[symmetric] refl] False Dir_elems[OF 1(2)] 1(3) by (auto simp: Dir_def)
    then show ?thesis using r False osRemove_keeps[OF q, of s] by (simp add: pruneDirs.simps[of base dir s])
  qed
qed

lemma plain_full_clean: "plainPath p \<Longrightarrow> safeJoin L p = Inr full \<Longrightarrow> Clean full = full"
  using plain_joined(1) Clean_idem by metis

lemma DeleteFile_keeps:
  assumes "Delete L p s = (r, s')" "safeJoin L p = Inr full" "Clean full = full"
    and q: "q \<noteq> full" "q \<noteq> full @ ''.sha256''" "length (cleanElems full) \<le> length (cleanElems q)" "cleanElems full \<noteq> []"
  shows "node s' q = node s q"
proof -
  have k: "node (pruneDirs (basePath L) (Dir full) s2) q = node s2 q" for s2
  proof (rule pruneDirs_keeps)
    show "Clean (Dir full) = Dir full" by (simp add: Dir_def)
    show "length (cleanElems (Dir full)) < length (cleanElems q)" using Dir_elems[OF assms(3)] q(3,4) by (cases "cleanElems full") auto
  qed
  show ?thesis using assms(1,2) k osRemove_keeps[OF q(1), of s] osRemove_keeps[OF q(2)]
    by (auto simp: Delete_def Let_def split: prod.splits sum.splits oserr.splits)
qed

lemma GetMetadata_file:
  assumes "GetMetadata sha L p s = (r, s')" "node s q = Some (FFile d t)" "\<forall>full. safeJoin L p = Inr full \<longrightarrow> q \<noteq> full @ ''.sha256''"
  shows "node s' q = Some (FFile d t)"
  using assms osWriteFile_keeps[of q]
  by (auto simp: GetMetadata_def osStat_def osOpen_def readAll_def dest!: osCall_eq
      split: sum.splits prod.splits if_splits option.splits fnode.splits oserr.splits)

section \<open>What the registry relies on in a store\<close>

text \<open>
  A path is clear of another when it is neither that path, nor the checksum file beside it, nor shallower. Uploads and
  deletions keep what is clear of their path.
\<close>

definition clearOf :: "string \<Rightarrow> string \<Rightarrow> bool" where
  "clearOf p q \<longleftrightarrow> plainPath p \<and> plainPath q \<and> q \<noteq> p \<and> q \<noteq> p @ ''.sha256'' \<and>
     length (splitOn (CHR ''/'') p) \<le> length (splitOn (CHR ''/'') q)"

locale artifact_store =
  fixes B :: "'s Storage" and content :: "'s \<Rightarrow> string \<Rightarrow> string option" and sha :: "string \<Rightarrow> string"
  assumes upload_stores: "sbUpload B p (d, False) n s = (Inr u, s') \<Longrightarrow> content s' p = Some d \<and> urPath u = p \<and> urChecksum u = sha d"
    and upload_keeps: "sbUpload B p rd n s = (r1, s') \<Longrightarrow> clearOf p q \<Longrightarrow> content s q = Some d \<Longrightarrow> content s' q = Some d"
    and delete_keeps: "sbDelete B p s = (r2, s') \<Longrightarrow> clearOf p q \<Longrightarrow> content s q = Some d \<Longrightarrow> content s' q = Some d"
    and url_keeps: "sbGetURL B p s = (r3, s') \<Longrightarrow> content s' q = content s q"
    and download_keeps: "sbDownload B p s = (r4, s') \<Longrightarrow> content s' q = content s q"

lemma splitOn_append: "d \<notin> set y \<Longrightarrow> splitOn d (x @ y) = butlast (splitOn d x) @ [last (splitOn d x) @ y]"
proof (induction x)
  case (Cons c x)
  obtain e es where e: "splitOn d x = e # es" by (cases "splitOn d x") auto
  with Cons show ?case by (cases es) auto
qed (simp add: splitOn_no_sep)

lemma sidecar_inj:
  assumes "safeJoin L p = Inr full" "plainPath p" "plainPath q" "safeJoin L q = Inr (full @ ''.sha256'')"
  shows "q = p @ ''.sha256''"
proof -
  have cf: "Clean full = full" by (rule plain_full_clean[OF assms(2,1)])
  obtain es e where e: "splitOn (CHR ''/'') p = es @ [e]" by (cases "splitOn (CHR ''/'') p" rule: rev_cases) auto
  let ?E = "cleanElems (basePath L) @ es" and ?e = "e @ ''.sha256''"
  have E: "cleanElems full = ?E @ [e]" using plain_joined(3)[OF assms(2,1)] e by simp
  have n: "normal ?e" using assms(2) e by (auto simp: plainPath_def normal_def)
  have ok: "okElems (hasPrefix full ''/'') (?E @ [e])" using okElems_clean[of full] E by simp
  then have ok': "okElems (hasPrefix full ''/'') (?E @ [?e])" using n canon_butlast[of ?E e] canon_snoc[of ?E ?e] by (auto simp: okElems_def)
  have r: "hasPrefix (full @ ''.sha256'') ''/'' = hasPrefix full ''/''" using Clean_not_Nil[of full] cf by (cases full) (auto simp: hasPrefix_def)
  have "splitOn (CHR ''/'') full = (if hasPrefix full ''/'' then [] # ?E @ [e] else ?E @ [e])" using splitOn_Clean[of full] cf E by simp
  then have "splitOn (CHR ''/'') (full @ ''.sha256'') = (if hasPrefix full ''/'' then [] # ?E @ [?e] else ?E @ [?e])"
    using splitOn_append[of "CHR ''/''" "''.sha256''" full] by (auto simp: butlast_append)
  then have "cleanElems (full @ ''.sha256'') = ?E @ [?e]"
    using ok' fold_clean_normal[of "?E @ [?e]" True "[]"] fold_clean_canon[of "?E @ [?e]" "[]"]
    unfolding cleanElems_def r by (auto simp: okElems_def cleanStep_def)
  with plain_joined(3)[OF assms(3,4)] have "splitOn (CHR ''/'') q = es @ [?e]" by simp
  also have "\<dots> = splitOn (CHR ''/'') (p @ ''.sha256'')" using splitOn_append[of "CHR ''/''" "''.sha256''" p] e by simp
  finally show ?thesis by (rule splitOn_inj)
qed

lemma localContent_Some: "localContent L s q = Some d \<longleftrightarrow> (\<exists>full t. safeJoin L q = Inr full \<and> node s full = Some (FFile d t))"
  by (auto simp: localContent_def split: sum.splits option.splits fnode.splits)

lemma localContent_cong: "node s' = node s \<Longrightarrow> localContent L s' q = localContent L s q"
  by (simp only: localContent_def)

interpretation local_artifacts: artifact_store "localBackend sha L" "localContent L" sha for sha L
proof unfold_locales
  fix p q d n s and s' :: fs
  { fix u assume "sbUpload (localBackend sha L) p (d, False) n s = (Inr u, s')"
    then have "Upload sha L p (d, False) s = (Inr u, s')" by (simp add: localBackend_def)
    from Upload_Inr[OF this] show "localContent L s' p = Some d \<and> urPath u = p \<and> urChecksum u = sha d"
      by (auto simp: localContent_Some) }
  { fix r1 rd assume u: "sbUpload (localBackend sha L) p rd n s = (r1, s')" and c: "clearOf p q" and q: "localContent L s q = Some d"
    from q obtain full t where f: "safeJoin L q = Inr full" "node s full = Some (FFile d t)" by (auto simp: localContent_Some)
    have "node s' full = Some (FFile d t)"
    proof (rule Upload_keeps)
      show "Upload sha L p rd s = (r1, s')" using u by (simp add: localBackend_def)
      show "safeJoin L p \<noteq> Inr full" using plain_inj[of p q L full] c f(1) by (auto simp: clearOf_def)
      show "\<forall>fp. safeJoin L p = Inr fp \<longrightarrow> full \<noteq> fp @ ''.sha256''" using sidecar_inj[of L p _ q] c f(1) by (auto simp: clearOf_def)
    qed (rule f(2))
    with f(1) show "localContent L s' q = Some d" by (auto simp: localContent_Some) }
  { fix r2 assume u: "sbDelete (localBackend sha L) p s = (r2, s')" and c: "clearOf p q" and q: "localContent L s q = Some d"
    from q obtain full t where f: "safeJoin L q = Inr full" "node s full = Some (FFile d t)" by (auto simp: localContent_Some)
    have d: "Delete L p s = (r2, s')" using u by (simp add: localBackend_def)
    have "node s' full = node s full"
    proof (cases "safeJoin L p")
      case (Inl e)
      with d show ?thesis by (simp add: Delete_def)
    next
      case (Inr fp)
      note ep = plain_joined(3)[OF _ Inr] and eq = plain_joined(3)[OF _ f(1)]
      show ?thesis
      proof (rule DeleteFile_keeps[OF d Inr])
        show "full \<noteq> fp" using plain_inj[of p q L full] c f(1) Inr by (auto simp: clearOf_def)
        show "full \<noteq> fp @ ''.sha256''" using sidecar_inj[of L p fp q] c f(1) Inr by (auto simp: clearOf_def)
        show "Clean fp = fp" using c plain_full_clean[OF _ Inr] by (simp add: clearOf_def)
        show "length (cleanElems fp) \<le> length (cleanElems full)" "cleanElems fp \<noteq> []" using c ep eq by (auto simp: clearOf_def)
      qed
    qed
    with f show "localContent L s' q = Some d" by (auto simp: localContent_Some) }
  { fix r3 assume "sbGetURL (localBackend sha L) p s = (r3, s')"
    then have "node s' = node s"
      by (auto simp: localBackend_def GetURL_def split: prod.splits sum.splits if_splits dest: Exists_keeps)
    then show "localContent L s' q = localContent L s q" by (rule localContent_cong) }
  { fix r4 assume "sbDownload (localBackend sha L) p s = (r4, s')"
    then have "node s' = node s"
      by (auto simp: localBackend_def localRead_def Download_def osOpen_def readAll_def dest!: osCall_eq
          split: prod.splits sum.splits if_splits option.splits fnode.splits oserr.splits)
    then show "localContent L s' q = localContent L s q" by (rule localContent_cong) }
qed

section \<open>The invariant\<close>

text \<open>What the artifacts depend on in the tables, and the path of a version of a module.\<close>

definition mods :: "'s regworld \<Rightarrow> (string \<times> string \<times> string \<times> string \<times> string) list" where
  "mods w = map (\<lambda>m. (moID m, moduleKey m)) (rwModules w)"

definition rows :: "'s regworld \<Rightarrow> (string \<times> string \<times> string \<times> string \<times> string) list" where
  "rows w = map (\<lambda>v. (mvID v, mvModuleID v, mvVersion v, mvStoragePath v, mvChecksum v)) (rwModuleVersions w)"

fun keyPath :: "string \<times> string \<times> string \<times> string \<Rightarrow> string \<Rightarrow> string" where
  "keyPath (org, ns, name, sys) ver = ''modules/'' @ ns @ ''/'' @ name @ ''/'' @ sys @ ''/'' @ ver @ ''.tar.gz''"

fun keyOk :: "string option \<Rightarrow> string \<times> string \<times> string \<times> string \<Rightarrow> bool" where
  "keyOk org0 (org, ns, name, sys) \<longleftrightarrow> Some org = org0 \<and>
     (\<forall>s\<in>{ns, name, sys}. s \<noteq> [] \<and> CHR ''/'' \<notin> set s \<and> CHR ''.'' \<notin> set s)"

definition modTables :: "'s regworld \<Rightarrow> bool" where
  "modTables w \<longleftrightarrow> rwFaults w = [] \<and> distinct (map fst (mods w)) \<and> distinct (map snd (mods w)) \<and>
     (\<forall>e\<in>set (mods w). keyOk (rwOrg w) (snd e)) \<and>
     distinct (map fst (rows w)) \<and> distinct (map (\<lambda>(i, mid, ver, path, chk). (mid, ver)) (rows w)) \<and>
     (\<forall>(i, mid, ver, path, chk)\<in>set (rows w). CHR ''/'' \<notin> set ver \<and> (\<exists>k. (mid, k) \<in> set (mods w) \<and> path = keyPath k ver))"

definition intact :: "('s \<Rightarrow> string \<Rightarrow> string option) \<Rightarrow> (string \<Rightarrow> string) \<Rightarrow> 's regworld \<Rightarrow> bool" where
  "intact cont sha w \<longleftrightarrow> (\<forall>(i, mid, ver, path, chk)\<in>set (rows w). \<exists>d. cont (rwStore w) path = Some d \<and> chk = sha d)"

lemma rwExec_ok:
  "rwFaults w = [] \<Longrightarrow> rwExec u w = (case u w of Inl e \<Rightarrow> (Inl e, w) | Inr (x, w2) \<Rightarrow> (Inr x, w2))"
  by (simp add: rwExec_def rwCall_def split: sum.split prod.split)

lemma keyPath_split:
  assumes "keyOk org k" "CHR ''/'' \<notin> set ver"
  shows "splitOn (CHR ''/'') (keyPath k ver) = (case k of (_, ns, name, sys) \<Rightarrow> [''modules'', ns, name, sys, ver @ ''.tar.gz''])"
proof -
  obtain o1 ns name sys where k: "k = (o1, ns, name, sys)" by (cases k)
  have e: "keyPath k ver = ''modules'' @ CHR ''/'' # ns @ CHR ''/'' # name @ CHR ''/'' # sys @ CHR ''/'' # ver @ ''.tar.gz''" by (simp add: k)
  have "splitOn (CHR ''/'') (ver @ ''.tar.gz'') = [ver @ ''.tar.gz'']" using assms(2) by (intro splitOn_no_sep) auto
  then show ?thesis unfolding e using assms(1) splitOn_sep[of "CHR ''/''" "''modules''"] splitOn_sep[of "CHR ''/''" ns]
      splitOn_sep[of "CHR ''/''" name] splitOn_sep[of "CHR ''/''" sys] by (simp add: k)
qed

lemma keyPath_plain:
  assumes "keyOk org k" "CHR ''/'' \<notin> set ver"
  shows "plainPath (keyPath k ver)"
  using assms(1,2) keyPath_split[OF assms] by (cases k) (auto simp: plainPath_def normal_def)

lemma keyPath_inj:
  assumes "keyOk org k" "CHR ''/'' \<notin> set ver" "keyOk org k'" "CHR ''/'' \<notin> set ver'" "keyPath k ver = keyPath k' ver'"
  shows "k = k' \<and> ver = ver'"
proof -
  have "(case k of (_, ns, name, sys) \<Rightarrow> [''modules'', ns, name, sys, ver @ ''.tar.gz'']) =
      (case k' of (_, ns, name, sys) \<Rightarrow> [''modules'', ns, name, sys, ver' @ ''.tar.gz''])"
    using keyPath_split[OF assms(1,2)] keyPath_split[OF assms(3,4)] assms(5) by simp
  then show ?thesis using assms(1,3) by (cases k; cases k') auto
qed

lemma keyPath_clear:
  assumes "keyOk org k" "CHR ''/'' \<notin> set ver" "keyOk org k'" "CHR ''/'' \<notin> set ver'" "(k, ver) \<noteq> (k', ver')"
  shows "clearOf (keyPath k ver) (keyPath k' ver')"
proof -
  have l: "last (keyPath k x) = CHR ''z''" for k x by (cases k) simp
  have "keyPath k' ver' \<noteq> keyPath k ver @ ''.sha256''"
  proof
    assume "keyPath k' ver' = keyPath k ver @ ''.sha256''"
    then have "last (keyPath k' ver') = CHR ''6''" by simp
    with l show False by simp
  qed
  moreover have "length (splitOn (CHR ''/'') (keyPath k ver)) = length (splitOn (CHR ''/'') (keyPath k' ver'))"
    using keyPath_split[OF assms(1,2)] keyPath_split[OF assms(3,4)] by (cases k; cases k') simp
  ultimately show ?thesis using keyPath_plain[OF assms(1,2)] keyPath_plain[OF assms(3,4)] keyPath_inj[OF assms(1-4)] assms(5)
    by (auto simp: clearOf_def)
qed

lemma modTables_dest:
  assumes "modTables w"
  shows "rwFaults w = []" "e \<in> set (mods w) \<Longrightarrow> keyOk (rwOrg w) (snd e)"
    "(i, mid, ver, path, chk) \<in> set (rows w) \<Longrightarrow> CHR ''/'' \<notin> set ver \<and> (\<exists>k. (mid, k) \<in> set (mods w) \<and> path = keyPath k ver)"
proof -
  show "rwFaults w = []" using assms unfolding modTables_def by (elim conjE)
  show "e \<in> set (mods w) \<Longrightarrow> keyOk (rwOrg w) (snd e)" using assms unfolding modTables_def by (elim conjE) (rule bspec)
  assume r: "(i, mid, ver, path, chk) \<in> set (rows w)"
  have "\<forall>(i, mid, ver, path, chk)\<in>set (rows w). CHR ''/'' \<notin> set ver \<and> (\<exists>k. (mid, k) \<in> set (mods w) \<and> path = keyPath k ver)"
    using assms unfolding modTables_def by (elim conjE)
  from bspec[OF this r] show "CHR ''/'' \<notin> set ver \<and> (\<exists>k. (mid, k) \<in> set (mods w) \<and> path = keyPath k ver)"
    unfolding prod.case .
qed

lemma mods_inj: "modTables w \<Longrightarrow> (i, k) \<in> set (mods w) \<Longrightarrow> (j, k) \<in> set (mods w) \<Longrightarrow> i = j"
proof -
  assume w: "modTables w" "(i, k) \<in> set (mods w)" "(j, k) \<in> set (mods w)"
  then have "inj_on snd (set (mods w))" unfolding modTables_def distinct_map by (elim conjE)
  from inj_onD[OF this _ w(2,3)] show "i = j" by simp
qed

text \<open>A path that is not that of a row is clear of every row.\<close>

lemma rows_clear:
  assumes "modTables w" "keyOk (rwOrg w) k" "CHR ''/'' \<notin> set ver" "(mid, k) \<in> set (mods w)"
    and "r \<in> set (rows w)" "\<And>i p c. (i, mid, ver, p, c) \<noteq> r"
  shows "clearOf (keyPath k ver) (fst (snd (snd (snd r))))"
proof -
  obtain i mid' ver' path chk where r: "r = (i, mid', ver', path, chk)" by (cases r)
  obtain k' where k': "(mid', k') \<in> set (mods w)" "path = keyPath k' ver'" "CHR ''/'' \<notin> set ver'"
    using modTables_dest(3)[OF assms(1)] assms(5) r by blast
  have ok: "keyOk (rwOrg w) k'" using modTables_dest(2)[OF assms(1) k'(1)] by simp
  have "(k, ver) \<noteq> (k', ver')"
  proof
    assume e: "(k, ver) = (k', ver')"
    then have "mid = mid'" using mods_inj[OF assms(1)] assms(4) k'(1) by blast
    with e r assms(6) show False by auto
  qed
  then show ?thesis using keyPath_clear[OF assms(2,3) ok k'(3)] r k'(2) by simp
qed

section \<open>Requests that leave the artifacts alone\<close>

definition benign :: "('s \<Rightarrow> string \<Rightarrow> string option) \<Rightarrow> 's regworld \<Rightarrow> 's regworld \<Rightarrow> bool" where
  "benign cont w w' \<longleftrightarrow> mods w' = mods w \<and> rows w' = rows w \<and> rwOrg w' = rwOrg w \<and> rwFaults w' = rwFaults w \<and>
     (\<forall>q. cont (rwStore w') q = cont (rwStore w) q)"

lemma benign_refl [simp]: "benign cont w w"
  by (simp add: benign_def)

lemma benign_trans: "benign cont w w1 \<Longrightarrow> benign cont w1 w2 \<Longrightarrow> benign cont w w2"
  by (simp add: benign_def)

lemma benign_keeps:
  assumes "benign cont w w'"
  shows "modTables w \<Longrightarrow> modTables w'" "intact cont sha w \<Longrightarrow> intact cont sha w'" "rwFaults w = [] \<Longrightarrow> rwFaults w' = []"
  using assms by (auto simp: benign_def modTables_def intact_def)

lemma benign_side [simp]:
  "benign cont w (w\<lparr>rwIO := io\<rparr>)" "benign cont w (w\<lparr>rwDocs := ds\<rparr>)" "benign cont w (w\<lparr>rwScans := ss\<rparr>)"
  by (simp_all add: benign_def mods_def rows_def)

lemma benign_modules:
  assumes "\<And>m. moID (g m) = moID m" "\<And>m. moduleKey (g m) = moduleKey m"
  shows "benign cont w (w\<lparr>rwModules := map g (rwModules w)\<rparr>)"
  using assms by (simp add: benign_def mods_def rows_def comp_def)

lemma benign_versions:
  assumes "\<And>v. mvID (g v) = mvID v" "\<And>v. mvModuleID (g v) = mvModuleID v" "\<And>v. mvVersion (g v) = mvVersion v"
    "\<And>v. mvStoragePath (g v) = mvStoragePath v" "\<And>v. mvChecksum (g v) = mvChecksum v"
  shows "benign cont w (w\<lparr>rwModuleVersions := map g (rwModuleVersions w)\<rparr>)"
  using assms by (simp add: benign_def mods_def rows_def comp_def)

lemma affectedOne_snd [simp]: "snd (affectedOne r) = snd r"
  by (auto simp: affectedOne_def split: prod.splits sum.splits)

lemma onModuleVersion_benign:
  assumes "rwFaults w = []" "\<And>w v. mvID (f w v) = mvID v \<and> mvModuleID (f w v) = mvModuleID v \<and> mvVersion (f w v) = mvVersion v \<and>
    mvStoragePath (f w v) = mvStoragePath v \<and> mvChecksum (f w v) = mvChecksum v"
  shows "benign cont w (snd (onModuleVersion i f w))"
  using assms by (auto simp: onModuleVersion_def rwExec_ok intro!: benign_versions)

lemma version_marks_benign:
  assumes "rwFaults w = []"
  shows "benign cont w (snd (IncrementModuleDownloadCount i w))" "benign cont w (snd (DeprecateModuleVersion i msg repl w))"
    "benign cont w (snd (UndeprecateModuleVersion i w))"
  using assms by (auto simp: IncrementModuleDownloadCount_def DeprecateModuleVersion_def UndeprecateModuleVersion_def intro!: onModuleVersion_benign)

lemma module_marks_benign:
  assumes "rwFaults w = []"
  shows "benign cont w (snd (DeprecateModule i msg succ w))" "benign cont w (snd (UndeprecateModule i w))"
  using assms by (auto simp: DeprecateModule_def UndeprecateModule_def rwExec_ok moduleKey_def intro!: benign_modules)

lemma side_tables_benign:
  assumes "rwFaults w = []"
  shows "benign cont w (snd (UpsertModuleDocs i doc w))" "benign cont w (snd (queueScan q newID i w))"
  using assms by (simp_all add: UpsertModuleDocs_def queueScan_def rwExec_ok)

lemma ioFails_benign: "benign cont w (snd (ioFails w))"
  by (simp add: ioFails_def split: list.split)

lemma withModOrg_ok:
  "rwFaults w = [] \<Longrightarrow> withModOrg k w =
     (case rwOrg w of None \<Rightarrow> (MError 500 ''Default organization not found'', w) | Some org \<Rightarrow> k org w)"
  by (simp add: withModOrg_def GetDefaultOrganization_def rwQuery_ok split: option.split)

lemma GetModule_ok:
  "rwFaults w = [] \<Longrightarrow> GetModule org ns name sys w =
     (if org = '''' then Inl ''invalid input syntax for type uuid'' else Inr (find (\<lambda>m. moduleKey m = (org, ns, name, sys)) (rwModules w)), w)"
  by (simp add: GetModule_def rwQuery_ok rwCall_def)

lemma GetModuleVersion_ok:
  "rwFaults w = [] \<Longrightarrow> GetModuleVersion mid ver w = (Inr (find (\<lambda>v. mvModuleID v = mid \<and> mvVersion v = ver) (rwModuleVersions w)), w)"
  by (simp add: GetModuleVersion_def rwQuery_ok)

text \<open>The lookups in front of a handler change nothing: what it does is what its continuation does.\<close>

lemma lookups_benign:
  assumes "rwFaults w = []"
  shows "(\<And>org. benign cont w (snd (k1 org w))) \<Longrightarrow> benign cont w (snd (withModOrg k1 w))"
    "(\<And>m. benign cont w (snd (k2 m w))) \<Longrightarrow> benign cont w (snd (withModule org ns name sys k2 w))"
    "(\<And>v. benign cont w (snd (k3 v w))) \<Longrightarrow> benign cont w (snd (withModuleVersion mid ver k3 w))"
    "(\<And>m. benign cont w (snd (k4 m w))) \<Longrightarrow> benign cont w (snd (withAdminModule ns name sys k4 w))"
    "(\<And>v. benign cont w (snd (k5 v w))) \<Longrightarrow> benign cont w (snd (withAdminModuleVersion ns name sys ver k5 w))"
  using assms
  by (auto simp: withModOrg_ok withModule_def withModuleVersion_def withAdminModule_def withAdminModuleVersion_def
      GetDefaultOrganization_def GetModule_ok GetModuleVersion_ok rwQuery_ok split: option.splits)

lemma snd_answer: "snd (case r of (Inl e, w1) \<Rightarrow> (f e, w1) | (Inr x, w1) \<Rightarrow> (g x, w1)) = snd r"
  by (cases r; cases "fst r") auto

lemma marks_handlers_benign:
  assumes "rwFaults w = []"
  shows "benign cont w (snd (DeprecateModuleVersionHandler ns name sys ver body w))"
    "benign cont w (snd (UndeprecateModuleVersionHandler ns name sys ver w))"
    "benign cont w (snd (DeprecateModuleHandler ns name sys body2 w))"
    "benign cont w (snd (UndeprecateModuleHandler ns name sys w))"
    "benign cont w (snd (GetModuleHandler M ns name sys w))"
    "benign cont w (snd (GetModuleVersionHandler ns name sys ver w))"
    "benign cont w (snd (ModuleListVersionsHandler ns name sys l o1 w))"
    "benign cont w (snd (GetModuleByIDRecord i w))"
proof -
  show "benign cont w (snd (DeprecateModuleVersionHandler ns name sys ver body w))"
    unfolding DeprecateModuleVersionHandler_def
    by (rule lookups_benign(5)[OF assms]) (auto simp: snd_answer version_marks_benign[OF assms] split: prod.split option.split)
  show "benign cont w (snd (UndeprecateModuleVersionHandler ns name sys ver w))"
    unfolding UndeprecateModuleVersionHandler_def by (rule lookups_benign(5)[OF assms]) (simp add: snd_answer version_marks_benign[OF assms])
  show "benign cont w (snd (DeprecateModuleHandler ns name sys body2 w))"
    unfolding DeprecateModuleHandler_def
    by (rule lookups_benign(4)[OF assms]) (auto simp: snd_answer module_marks_benign[OF assms] split: prod.split option.split)
  show "benign cont w (snd (UndeprecateModuleHandler ns name sys w))"
    unfolding UndeprecateModuleHandler_def by (rule lookups_benign(4)[OF assms]) (simp add: snd_answer module_marks_benign[OF assms])
  show "benign cont w (snd (GetModuleHandler M ns name sys w))"
    unfolding GetModuleHandler_def by (rule lookups_benign(4)[OF assms]) (simp add: ListModuleVersions_def rwQuery_ok[OF assms])
  show "benign cont w (snd (GetModuleVersionHandler ns name sys ver w))"
    unfolding GetModuleVersionHandler_def by (rule lookups_benign(5)[OF assms]) simp
  show "benign cont w (snd (ModuleListVersionsHandler ns name sys l o1 w))"
    unfolding ModuleListVersionsHandler_def
    by (rule lookups_benign(1)[OF assms], rule lookups_benign(2)[OF assms])
      (simp add: listModuleAnswer_def ListModuleVersionsPaginated_def rwQuery_ok[OF assms])
  show "benign cont w (snd (GetModuleByIDRecord i w))"
    by (simp add: GetModuleByIDRecord_def GetModuleByID_def rwQuery_ok[OF assms] split: option.split)
qed

context artifact_store
begin

lemma download_benign:
  assumes "rwFaults w = []" "reBackend (meReg M) = B"
  shows "benign content w (snd (ModuleDownloadHandler M ns name sys ver w))"
proof -
  have "benign content w (snd (downloadModule M v w))" for v
  proof -
    obtain r s where u: "sbGetURL B (mvStoragePath v) (rwStore w) = (r, s)" by (metis surj_pair)
    have b: "benign content w (w\<lparr>rwStore := s\<rparr>)" using url_keeps[OF u] by (simp add: benign_def mods_def rows_def)
    show ?thesis
      using u b assms benign_trans[OF b version_marks_benign(1), of "mvID v"]
      by (auto simp: downloadModule_def onStore_def split: sum.split)
  qed
  then show ?thesis
    by (auto simp: ModuleDownloadHandler_def intro!: lookups_benign(1)[OF assms(1)] lookups_benign(2)[OF assms(1)] lookups_benign(3)[OF assms(1)])
qed

lemma reanalyze_benign:
  assumes "rwFaults w = []" "reBackend (meReg M) = B"
  shows "benign content w (snd (ReanalyzeVersion M ns name sys ver w))"
proof -
  have d: "benign content w (snd (reanalyzeDocs M v w))" for v
  proof -
    obtain r s where u: "sbDownload B (mvStoragePath v) (rwStore w) = (r, s)" by (metis surj_pair)
    have b: "benign content w (w\<lparr>rwStore := s\<rparr>)" using download_keeps[OF u] by (simp add: benign_def mods_def rows_def)
    have f: "rwFaults (w\<lparr>rwStore := s\<rparr>) = []" using assms(1) by simp
    show ?thesis
      using u b assms(2) benign_trans[OF b side_tables_benign(1)[OF f]]
      by (auto simp: reanalyzeDocs_def bindR_def orMResp_def onStore_def snd_answer split: sum.split option.split prod.split)
  qed
  have q: "rwFaults w1 = [] \<Longrightarrow> benign content w1 (snd (requeueScan M v w1))" for v w1
    using side_tables_benign(2)[of w1] by (auto simp: requeueScan_def snd_answer)
  have "benign content w (snd (case reanalyzeDocs M v w of (Inl r, w1) \<Rightarrow> (r, w1)
      | (Inr docs, w1) \<Rightarrow> (case requeueScan M v w1 of (scan, w2) \<Rightarrow> (MReanalyzed docs scan, w2))))" for v
  proof (cases "reanalyzeDocs M v w")
    case (Pair r w1)
    with d[of v] have b: "benign content w w1" by simp
    show ?thesis
    proof (cases r)
      case (Inr docs)
      with Pair q[OF benign_keeps(3)[OF b assms(1)], of v] benign_trans[OF b] show ?thesis by (simp add: split_beta)
    qed (simp add: Pair b)
  qed
  then show ?thesis unfolding ReanalyzeVersion_def by (intro lookups_benign(5)[OF assms(1)]) simp
qed

end

section \<open>New and changed modules\<close>

definition grown :: "('s \<Rightarrow> string \<Rightarrow> string option) \<Rightarrow> 's regworld \<Rightarrow> 's regworld \<Rightarrow> bool" where
  "grown cont w w' \<longleftrightarrow> modTables w' \<and> set (mods w) \<subseteq> set (mods w') \<and> rows w' = rows w \<and> rwOrg w' = rwOrg w \<and>
     (\<forall>q. cont (rwStore w') q = cont (rwStore w) q)"

lemma benign_grown: "modTables w \<Longrightarrow> benign cont w w' \<Longrightarrow> grown cont w w'"
  using benign_keeps(1)[of cont w w'] by (simp add: grown_def benign_def)

lemma grown_trans: "grown cont w w1 \<Longrightarrow> grown cont w1 w2 \<Longrightarrow> grown cont w w2"
  by (auto simp: grown_def)

lemma grown_intact: "grown cont w w' \<Longrightarrow> intact cont sha w \<Longrightarrow> intact cont sha w'"
  by (simp add: grown_def intact_def)

lemma insert_module:
  assumes w: "modTables w" and m: "moID m \<notin> moID ` set (rwModules w)" "moduleKey m \<notin> moduleKey ` set (rwModules w)" "keyOk (rwOrg w) (moduleKey m)"
  shows "grown cont w (w\<lparr>rwModules := rwModules w @ [m]\<rparr>)"
proof -
  let ?w = "w\<lparr>rwModules := rwModules w @ [m]\<rparr>"
  have e: "mods ?w = mods w @ [(moID m, moduleKey m)]" "rows ?w = rows w" by (simp_all add: mods_def rows_def)
  have d: "moID m \<notin> fst ` set (mods w)" "moduleKey m \<notin> snd ` set (mods w)" using m(1,2) by (auto simp: mods_def image_image)
  have r: "\<forall>(i, mid, ver, path, chk)\<in>set (rows w). CHR ''/'' \<notin> set ver \<and> (\<exists>k. (mid, k) \<in> set (mods ?w) \<and> path = keyPath k ver)"
    using modTables_dest(3)[OF w] unfolding e by fastforce
  have "modTables ?w" using w d m(3) r unfolding modTables_def e by (simp only: e set_append map_append) auto
  then show ?thesis by (auto simp: grown_def e)
qed

lemma mods_fun: "modTables w \<Longrightarrow> m \<in> set (rwModules w) \<Longrightarrow> n \<in> set (rwModules w) \<Longrightarrow> moID m = moID n \<Longrightarrow> m = n"
proof -
  assume "modTables w" and m: "m \<in> set (rwModules w)" "n \<in> set (rwModules w)" "moID m = moID n"
  then have "distinct (map moID (rwModules w))" by (simp add: modTables_def mods_def comp_def)
  with m show ?thesis by (simp add: distinct_map inj_on_def)
qed

lemma UpdateModule_benign:
  assumes "modTables w" "(moID m, moduleKey m) \<in> set (mods w)"
  shows "benign cont w (snd (UpdateModule m w))"
proof -
  obtain n where n: "n \<in> set (rwModules w)" "moID n = moID m" "moduleKey n = moduleKey m" using assms(2) by (auto simp: mods_def)
  let ?g = "\<lambda>n. if moID n = moID m then n\<lparr>moNamespace := moNamespace m, moDescription := moDescription m, moSource := moSource m,
      moUpdatedAt := rwNow w\<rparr> else n"
  have "moID (?g x) = moID x \<and> moduleKey (?g x) = moduleKey x" if "x \<in> set (rwModules w)" for x
    using mods_fun[OF assms(1) that n(1)] n by (auto simp: moduleKey_def)
  then have "map (\<lambda>m. (moID m, moduleKey m)) (map ?g (rwModules w)) = map (\<lambda>m. (moID m, moduleKey m)) (rwModules w)" by simp
  then have "benign cont w (w\<lparr>rwModules := map ?g (rwModules w)\<rparr>)" by (simp add: benign_def mods_def rows_def)
  then show ?thesis using modTables_dest(1)[OF assms(1)] by (auto simp: UpdateModule_def rwExec_ok split: option.split)
qed

lemma UpdateModuleRecord_benign:
  assumes "modTables w" "\<And>q. body = Some q \<Longrightarrow> umNamespace q = None"
  shows "benign cont w (snd (UpdateModuleRecord i body w))"
proof (cases "\<exists>q m. body = Some q \<and> find (\<lambda>m. moID m = i) (rwModules w) = Some m")
  case True
  then obtain q m where q: "body = Some q" "umNamespace q = None" "find (\<lambda>m. moID m = i) (rwModules w) = Some m" using assms(2) by auto
  let ?m = "m\<lparr>moNamespace := moNamespace m, moDescription := coalesce (umDescription q) (moDescription m), moSource := coalesce (umSource q) (moSource m)\<rparr>"
  have "m \<in> set (rwModules w)" using q(3) by (auto simp: find_Some_iff)
  then have "(moID ?m, moduleKey ?m) \<in> set (mods w)" by (auto simp: mods_def moduleKey_def)
  from UpdateModule_benign[OF assms(1) this] show ?thesis
    using q modTables_dest(1)[OF assms(1)]
    by (simp add: UpdateModuleRecord_def GetModuleByID_def rwQuery_ok targetNamespace_def Let_def snd_answer)
next
  case False
  then show ?thesis using modTables_dest(1)[OF assms(1)]
    by (auto simp: UpdateModuleRecord_def GetModuleByID_def rwQuery_ok split: option.split)
qed

definition freshIDs :: "'s modenv \<Rightarrow> bool" where
  "freshIDs M \<longleftrightarrow> (\<forall>xs. reNewID (meReg M) xs \<notin> set xs)"

lemma segments_keyOk:
  assumes "ValidateRegistrySegment ns = Inr ()" "ValidateRegistrySegment name = Inr ()" "ValidateRegistrySegment sys = Inr ()"
  shows "keyOk (Some org) (org, ns, name, sys)"
  using segment_plain[OF assms(1)] segment_plain[OF assms(2)] segment_plain[OF assms(3)] by simp

lemma CreateModule_grown:
  assumes "modTables w" "freshIDs M" "keyOk (rwOrg w) (moduleKey m)"
  shows "grown cont w (snd (CreateModule (reNewID (meReg M)) m w))"
proof (cases "list_ex (\<lambda>n. moduleKey n = moduleKey m) (rwModules w)")
  case True
  then show ?thesis using modTables_dest(1)[OF assms(1)] benign_grown[OF assms(1)] by (simp add: CreateModule_def rwExec_ok)
next
  case False
  let ?m = "m\<lparr>moID := reNewID (meReg M) (map moID (rwModules w)), moCreatedAt := rwNow w, moUpdatedAt := rwNow w\<rparr>"
  have k: "moduleKey ?m = moduleKey m" by (simp add: moduleKey_def)
  have "moID ?m \<notin> moID ` set (rwModules w)" using assms(2) by (simp add: freshIDs_def) (metis list.set_map)
  moreover have "moduleKey ?m \<notin> moduleKey ` set (rwModules w)" using False k by (auto simp: list_ex_iff)
  ultimately have "grown cont w (w\<lparr>rwModules := rwModules w @ [?m]\<rparr>)" using insert_module[OF assms(1)] assms(3) k by metis
  then show ?thesis using False modTables_dest(1)[OF assms(1)] by (simp add: CreateModule_def rwExec_ok Let_def)
qed

lemma CreateModuleRecord_grown:
  assumes "modTables w" "freshIDs M"
  shows "grown cont w (snd (CreateModuleRecord M body user w))"
proof -
  have r: "grown cont w w" using benign_grown[OF assms(1)] by simp
  show ?thesis
  proof (cases body)
    case (Some q)
    note bq = this
    show ?thesis
    proof (cases "ValidateRegistrySegment (cmNamespace q) = Inr () \<and> ValidateRegistrySegment (cmName q) = Inr () \<and> ValidateRegistrySegment (cmSystem q) = Inr ()")
      case True
      show ?thesis
      proof (cases "rwOrg w")
        case (Some org)
        let ?m = "\<lparr>moID = '''', moOrganizationID = org, moNamespace = cmNamespace q, moName = cmName q,
           moSystem = cmSystem q, moDescription = nonEmpty (cmDescription q), moSource = None,
           moCreatedBy = user, moCreatedAt = 0, moUpdatedAt = 0, moDeprecated = False,
           moDeprecatedAt = None, moDeprecationMessage = None, moSuccessorModuleID = None\<rparr>"
        have "keyOk (rwOrg w) (moduleKey ?m)" using segments_keyOk[of "cmNamespace q" "cmName q" "cmSystem q" org] True Some by (simp add: moduleKey_def)
        from CreateModule_grown[OF assms this, of cont] r Some bq modTables_dest(1)[OF assms(1)] show ?thesis
          by (auto simp: CreateModuleRecord_def GetDefaultOrganization_def rwQuery_ok GetModule_ok snd_answer split: option.split)
      qed (use r modTables_dest(1)[OF assms(1)] in \<open>auto simp: CreateModuleRecord_def GetDefaultOrganization_def rwQuery_ok split: option.split\<close>)
    qed (use Some r in \<open>auto simp: CreateModuleRecord_def\<close>)
  qed (simp add: CreateModuleRecord_def r)
qed


text \<open>The module an upload registers is there afterwards, with the key of the form.\<close>

lemma UpsertModule_grown:
  assumes "modTables w" "freshIDs M" "keyOk (rwOrg w) (moduleKey m)" "UpsertModule (reNewID (meReg M)) m w = (r, w')"
  shows "grown cont w w' \<and> (\<forall>m'. r = Inr m' \<longrightarrow> (moID m', moduleKey m') \<in> set (mods w') \<and> moduleKey m' = moduleKey m)"
proof (cases "find (\<lambda>n. moduleKey n = moduleKey m) (rwModules w)")
  case (Some n)
  let ?g = "\<lambda>n. if moduleKey n = moduleKey m then n\<lparr>moUpdatedAt := rwNow w\<rparr> else n"
  have b: "benign cont w (w\<lparr>rwModules := map ?g (rwModules w)\<rparr>)" by (rule benign_modules) (simp_all add: moduleKey_def)
  have n: "n \<in> set (rwModules w)" "moduleKey n = moduleKey m" using Some by (auto simp: find_Some_iff)
  have "w' = w\<lparr>rwModules := map ?g (rwModules w)\<rparr>" "r = Inr (m\<lparr>moID := moID n, moCreatedAt := moCreatedAt n, moUpdatedAt := rwNow w\<rparr>)"
    using assms(4) Some modTables_dest(1)[OF assms(1)] by (auto simp: UpsertModule_def rwExec_ok)
  moreover have "(moID n, moduleKey m) \<in> set (mods w)" using n by (auto simp: mods_def)
  ultimately show ?thesis using benign_grown[OF assms(1) b] b by (simp add: benign_def moduleKey_def)
next
  case None
  let ?m = "m\<lparr>moID := reNewID (meReg M) (map moID (rwModules w)), moCreatedAt := rwNow w, moUpdatedAt := rwNow w,
      moDeprecated := False, moDeprecatedAt := None, moDeprecationMessage := None, moSuccessorModuleID := None\<rparr>"
  have k: "moduleKey ?m = moduleKey m" by (simp add: moduleKey_def)
  have "moID ?m \<notin> moID ` set (rwModules w)" using assms(2) by (simp add: freshIDs_def) (metis list.set_map)
  moreover have "moduleKey ?m \<notin> moduleKey ` set (rwModules w)" using None k by (auto simp: find_None_iff)
  ultimately have "grown cont w (w\<lparr>rwModules := rwModules w @ [?m]\<rparr>)" using insert_module[OF assms(1)] assms(3) k by metis
  moreover have "w' = w\<lparr>rwModules := rwModules w @ [?m]\<rparr>" "r = Inr ?m"
    using assms(4) None modTables_dest(1)[OF assms(1)] by (auto simp: UpsertModule_def rwExec_ok Let_def)
  ultimately show ?thesis using k by (simp add: mods_def)
qed

lemma registerModule_grown:
  assumes "modTables w" "freshIDs M" "\<And>org. keyOk (Some org) (org, mfNamespace f, mfName f, mfSystem f)" "registerModule M f w = (r, w')"
  shows "grown cont w w' \<and> (\<forall>m. r = Inr m \<longrightarrow> (moID m, moduleKey m) \<in> set (mods w') \<and>
    moduleKey m = (the (rwOrg w), mfNamespace f, mfName f, mfSystem f))"
proof (cases "rwOrg w")
  case None
  then show ?thesis using assms(4) benign_grown[OF assms(1), of cont w] modTables_dest(1)[OF assms(1)]
    by (auto simp: registerModule_def GetDefaultOrganization_def rwQuery_ok bindR_def orMResp_def)
next
  case (Some org)
  obtain r1 w1 where u: "UpsertModule (reNewID (meReg M)) (formModule f org) w = (r1, w1)" by (metis surj_pair)
  have fk: "moduleKey (formModule f org) = (org, mfNamespace f, mfName f, mfSystem f)" by (simp add: formModule_def moduleKey_def)
  have k: "keyOk (rwOrg w) (moduleKey (formModule f org))" using assms(3)[of org] Some fk by simp
  note g = UpsertModule_grown[OF assms(1,2) k u, of cont]
  show ?thesis
  proof (cases r1)
    case (Inl e)
    then have "r = Inl (MError 500 ''Failed to create/get module'')" "w' = w1"
      using assms(4) Some u modTables_dest(1)[OF assms(1)]
      by (auto simp: registerModule_def GetDefaultOrganization_def rwQuery_ok bindR_def orMResp_def)
    with g show ?thesis by simp
  next
    case (Inr m)
    with g have m: "(moID m, moduleKey m) \<in> set (mods w1)" "moduleKey m = (org, mfNamespace f, mfName f, mfSystem f)" and t: "modTables w1"
      by (auto simp: fk grown_def)
    have b: "benign cont w1 (snd (UpdateModule m w1))" by (rule UpdateModule_benign[OF t m(1)])
    have "(w' = w1 \<or> w' = snd (UpdateModule m w1)) \<and> (\<forall>m'. r = Inr m' \<longrightarrow> m' = m)"
      using assms(4) Some u Inr modTables_dest(1)[OF assms(1)]
      by (auto simp: registerModule_def GetDefaultOrganization_def rwQuery_ok bindR_def orMResp_def split: if_splits prod.splits sum.splits)
    then have "benign cont w1 w' \<and> (\<forall>m'. r = Inr m' \<longrightarrow> m' = m)" using b by auto
    then show ?thesis using m g grown_trans[of cont w w1 w'] benign_grown[OF t, of cont w'] Some by (auto simp: benign_def)
  qed
qed

section \<open>Uploads\<close>

lemma ioFails_shape: "\<exists>io. snd (ioFails w) = w\<lparr>rwIO := io\<rparr>"
  by (cases "rwIO w") (auto simp: ioFails_def intro: exI[of _ "rwIO w"])

lemma ioMGuard_shape: "\<exists>io. snd (ioMGuard n msg w) = w\<lparr>rwIO := io\<rparr>"
  using ioFails_shape[of w] by (auto simp: ioMGuard_def split: prod.split)

lemma bindR_shape:
  assumes "\<exists>io. snd r = w\<lparr>rwIO := io\<rparr>" "\<And>x w1. \<exists>io. snd (k x w1) = w1\<lparr>rwIO := io\<rparr>"
  shows "\<exists>io. snd (bindR r k) = w\<lparr>rwIO := io\<rparr>"
proof -
  obtain x w1 io where r: "r = (x, w1)" "w1 = w\<lparr>rwIO := io\<rparr>" using assms(1) by (cases r) auto
  show ?thesis
  proof (cases x)
    case (Inr y)
    then show ?thesis using assms(2)[of y w1] r by (auto simp: bindR_def)
  qed (use r in \<open>auto simp: bindR_def\<close>)
qed

lemma spool_shape: "\<exists>io. snd (spoolModule M rd w) = w\<lparr>rwIO := io\<rparr>"
proof -
  have i: "\<exists>io. w1 = w1\<lparr>rwIO := io\<rparr>" for w1 :: "'a regworld" by (rule exI[of _ "rwIO w1"]) simp
  show ?thesis unfolding spoolModule_def
    by (intro bindR_shape ioMGuard_shape) (auto simp: split_beta intro: i ioFails_shape intro!: bindR_shape ioMGuard_shape)
qed

lemma validateForm_Inr:
  assumes "validateForm M f = Inr q"
  shows "ValidateRegistrySegment (mfNamespace f) = Inr ()" "ValidateRegistrySegment (mfName f) = Inr ()"
    "ValidateRegistrySegment (mfSystem f) = Inr ()" "reSemver (meReg M) (mfVersion f)" "mfFile f = Some q"
  using assms by (auto simp: validateForm_def split: if_splits option.splits)

definition prepared :: "('s \<Rightarrow> string \<Rightarrow> string option) \<Rightarrow> mod_form \<Rightarrow> 's regworld \<Rightarrow> (mresponse + Module \<times> string \<times> string) \<times> 's regworld \<Rightarrow> bool" where
  "prepared cont f w r \<longleftrightarrow> grown cont w (snd r) \<and> (\<forall>m fname d. fst r = Inr (m, fname, d) \<longrightarrow>
     (moID m, moduleKey m) \<in> set (mods (snd r)) \<and> moduleKey m = (the (rwOrg w), mfNamespace f, mfName f, mfSystem f) \<and>
     CHR ''/'' \<notin> set (mfVersion f) \<and> (\<forall>i p c. (i, moID m, mfVersion f, p, c) \<notin> set (rows (snd r))))"

lemma prepareModule_prepared:
  assumes w: "modTables w" and M: "freshIDs M" "semver_contract (meReg M)"
  shows "prepared cont f w (prepareModule M f w)"
proof (cases "validateForm M f")
  case (Inl r)
  then show ?thesis using benign_grown[OF w, of cont w] by (simp add: prepareModule_def prepared_def)
next
  case (Inr q)
  obtain fname rd where q: "q = (fname, rd)" by (cases q)
  note v = validateForm_Inr[OF Inr]
  obtain sp w1 where sp: "spoolModule M rd w = (sp, w1)" by (metis surj_pair)
  then have b1: "benign cont w w1" using spool_shape[of M rd w] by auto
  note g1 = benign_grown[OF w b1] and t1 = benign_keeps(1)[OF b1 w]
  have o1: "rwOrg w1 = rwOrg w" using b1 by (simp add: benign_def)
  show ?thesis
  proof (cases "\<exists>d. sp = Inr d \<and> policyGate M f d = Inr ()")
    case False
    then have "\<exists>r. prepareModule M f w = (Inl r, w1)"
      using Inr q sp by (auto simp: prepareModule_def bindR_def split: sum.split)
    then show ?thesis using g1 by (auto simp: prepared_def)
  next
    case True
    then obtain d where d: "sp = Inr d" "policyGate M f d = Inr ()" by auto
    obtain r2 w2 where reg: "registerModule M f w1 = (r2, w2)" by (metis surj_pair)
    have k: "\<And>org. keyOk (Some org) (org, mfNamespace f, mfName f, mfSystem f)" by (rule segments_keyOk[OF v(1-3)])
    note g2 = registerModule_grown[OF t1 M(1) k reg, of cont]
    have t2: "modTables w2" and g: "grown cont w w2" using g2 grown_trans[OF g1] by (auto simp: grown_def)
    show ?thesis
    proof (cases r2)
      case (Inl r)
      then show ?thesis using Inr q sp d reg g by (simp add: prepareModule_def bindR_def prepared_def)
    next
      case (Inr m)
      let ?ex = "find (\<lambda>v. mvModuleID v = moID m \<and> mvVersion v = mfVersion f) (rwModuleVersions w2)"
      obtain io where io: "snd (ioMGuard 500 ''Failed to process uploaded file'' w2) = w2\<lparr>rwIO := io\<rparr>" using ioMGuard_shape by blast
      have e: "prepareModule M f w = (if ?ex \<noteq> None then (Inl (MError 409 ''Version already exists''), w2)
          else (case fst (ioMGuard 500 ''Failed to process uploaded file'' w2) of Inl r \<Rightarrow> Inl r | Inr _ \<Rightarrow> Inr (m, fname, d), w2\<lparr>rwIO := io\<rparr>))"
        using \<open>validateForm M f = Inr q\<close> q sp d reg Inr io GetModuleVersion_ok[OF modTables_dest(1)[OF t2]]
        by (auto simp: prepareModule_def bindR_def orMResp_def split: prod.split sum.split)
      have b: "benign cont w2 (w2\<lparr>rwIO := io\<rparr>)" by simp
      have g': "grown cont w (w2\<lparr>rwIO := io\<rparr>)" by (rule grown_trans[OF g benign_grown[OF t2 b]])
      have ms: "(moID m, moduleKey m) \<in> set (mods (w2\<lparr>rwIO := io\<rparr>))" "moduleKey m = (the (rwOrg w), mfNamespace f, mfName f, mfSystem f)"
        using g2 Inr o1 by (auto simp: mods_def)
      have ver: "CHR ''/'' \<notin> set (mfVersion f)" using M(2) v(4) by (simp add: semver_contract_def)
      have "?ex = None \<Longrightarrow> (i, moID m, mfVersion f, p, c) \<notin> set (rows (w2\<lparr>rwIO := io\<rparr>))" for i p c
        by (auto simp: find_None_iff rows_def)
      then show ?thesis using e g g' ms ver by (auto simp: prepared_def split: if_splits sum.splits)
    qed
  qed
qed

lemma insert_version:
  assumes w: "modTables w" and v: "mvID v \<notin> mvID ` set (rwModuleVersions w)" "(mvModuleID v, k) \<in> set (mods w)"
    "mvStoragePath v = keyPath k (mvVersion v)" "CHR ''/'' \<notin> set (mvVersion v)"
    "\<And>i p c. (i, mvModuleID v, mvVersion v, p, c) \<notin> set (rows w)"
  shows "modTables (w\<lparr>rwModuleVersions := rwModuleVersions w @ [v]\<rparr>)"
proof -
  let ?w = "w\<lparr>rwModuleVersions := rwModuleVersions w @ [v]\<rparr>"
  have e: "mods ?w = mods w" "rows ?w = rows w @ [(mvID v, mvModuleID v, mvVersion v, mvStoragePath v, mvChecksum v)]"
    by (simp_all add: mods_def rows_def)
  have d: "mvID v \<notin> fst ` set (rows w)" using v(1) by (auto simp: rows_def image_image)
  have p: "(mvModuleID v, mvVersion v) \<notin> (\<lambda>(i, mid, ver, path, chk). (mid, ver)) ` set (rows w)"
  proof
    assume "(mvModuleID v, mvVersion v) \<in> (\<lambda>(i, mid, ver, path, chk). (mid, ver)) ` set (rows w)"
    then obtain r where "r \<in> set (rows w)" "(mvModuleID v, mvVersion v) = (case r of (i, mid, ver, path, chk) \<Rightarrow> (mid, ver))" by (elim imageE)
    with v(5) show False by (cases r) auto
  qed
  have x: "\<exists>k. (mvModuleID v, k) \<in> set (mods w) \<and> mvStoragePath v = keyPath k (mvVersion v)" using v(2,3) by blast
  have r: "\<forall>(i, mid, ver, path, chk)\<in>set (rows ?w). CHR ''/'' \<notin> set ver \<and> (\<exists>k. (mid, k) \<in> set (mods w) \<and> path = keyPath k ver)"
    using modTables_dest(3)[OF w] x v(4) unfolding e set_append by fastforce
  show ?thesis using w r d p unfolding modTables_def e by (simp add: e)
qed

lemma intact_insert:
  "intact cont sha w \<Longrightarrow> cont (rwStore w) (mvStoragePath v) = Some d \<Longrightarrow> mvChecksum v = sha d \<Longrightarrow>
   intact cont sha (w\<lparr>rwModuleVersions := rwModuleVersions w @ [v]\<rparr>)"
  by (simp add: intact_def rows_def)

lemma store_tables: "modTables (w\<lparr>rwStore := s\<rparr>) = modTables w"
  by (simp add: modTables_def mods_def rows_def)

text \<open>What the store keeps clear of all rows leaves them intact.\<close>

lemma intact_store:
  assumes "intact cont sha w" "\<And>r d. r \<in> set (rows w) \<Longrightarrow> cont (rwStore w) (fst (snd (snd (snd r)))) = Some d \<Longrightarrow> cont s (fst (snd (snd (snd r)))) = Some d"
  shows "intact cont sha (w\<lparr>rwStore := s\<rparr>)"
proof -
  have "\<exists>d. cont s path = Some d \<and> chk = sha d" if r: "(i, mid, ver, path, chk) \<in> set (rows w)" for i mid ver path chk
  proof -
    obtain d where "cont (rwStore w) path = Some d" "chk = sha d" using assms(1) r by (force simp: intact_def)
    with assms(2)[OF r, of d] show ?thesis by simp
  qed
  moreover have "rows (w\<lparr>rwStore := s\<rparr>) = rows w" by (simp add: rows_def)
  ultimately show ?thesis by (auto simp: intact_def)
qed

lemma afterUpload_benign:
  assumes "rwFaults w = []"
  shows "benign cont w (analyzeUpload M vid d (queueUploadScan M vid w))"
proof -
  have q: "benign cont w (queueUploadScan M vid w)" using side_tables_benign(2)[OF assms] by (auto simp: queueUploadScan_def)
  let ?w = "queueUploadScan M vid w"
  have f: "rwFaults ?w = []" by (rule benign_keeps(3)[OF q assms])
  have "benign cont ?w (analyzeUpload M vid d ?w)"
  proof (cases "meAnalyze M")
    case (Some an)
    obtain b1 w1 where 1: "ioFails ?w = (b1, w1)" by (metis surj_pair)
    obtain b2 w2 where 2: "ioFails w1 = (b2, w2)" by (metis surj_pair)
    have 3: "benign cont ?w w1" using ioFails_benign[of cont ?w] 1 by simp
    have 4: "benign cont ?w w2" using ioFails_benign[of cont w1] 2 benign_trans[OF 3] by simp
    show ?thesis using Some 1 2 3 4 benign_trans[OF 4 side_tables_benign(1)[OF benign_keeps(3)[OF 4 f]]]
      by (auto simp: analyzeUpload_def split: sum.split option.split)
  qed (simp add: analyzeUpload_def)
  then show ?thesis by (rule benign_trans[OF q])
qed

context artifact_store
begin

lemma storeModule_ok:
  assumes w: "modTables w" "intact content sha w" and M: "freshIDs M" "reBackend (meReg M) = B"
    and m: "(moID m, moduleKey m) \<in> set (mods w)" "moduleKey m = (org, mfNamespace f, mfName f, mfSystem f)"
    "CHR ''/'' \<notin> set (mfVersion f)" "\<And>i p c. (i, moID m, mfVersion f, p, c) \<notin> set (rows w)"
  shows "modTables (snd (storeModule M f (m, fname, d) w)) \<and> intact content sha (snd (storeModule M f (m, fname, d) w))"
proof -
  let ?p = "modulePath f"
  have p: "?p = keyPath (moduleKey m) (mfVersion f)" by (simp add: m(2) modulePath_def)
  have ok: "keyOk (rwOrg w) (moduleKey m)" using modTables_dest(2)[OF w(1) m(1)] by simp
  have clear: "clearOf ?p (fst (snd (snd (snd r))))" if "r \<in> set (rows w)" for r
    unfolding p using m(4) that by (intro rows_clear[OF w(1) ok m(3) m(1) that]) auto
  obtain u s1 where u: "sbUpload B ?p (d, False) (length d) (rwStore w) = (u, s1)" by (metis surj_pair)
  have i1: "intact content sha (w\<lparr>rwStore := s1\<rparr>)" by (rule intact_store[OF w(2)]) (rule upload_keeps[OF u clear])
  show ?thesis
  proof (cases u)
    case (Inl e)
    then show ?thesis using u M(2) i1 w(1) by (simp add: storeModule_def onStore_def store_tables)
  next
    case (Inr res)
    have st: "content s1 ?p = Some d" "urPath res = ?p" "urChecksum res = sha d" using upload_stores u Inr by blast+
    obtain b1 w1 where 1: "ioFails (w\<lparr>rwStore := s1\<rparr>) = (b1, w1)" by (metis surj_pair)
    obtain b2 w2 where 2: "ioFails w1 = (b2, w2)" by (metis surj_pair)
    have b: "benign content (w\<lparr>rwStore := s1\<rparr>) w2"
      using ioFails_benign[of content "w\<lparr>rwStore := s1\<rparr>"] ioFails_benign[of content w1] 1 2 benign_trans by (metis snd_conv)
    have t2: "modTables w2" and i2: "intact content sha w2" and f2: "rwFaults w2 = []"
      using benign_keeps(1,2)[OF b] i1 w(1) modTables_dest(1)[of w2] by (simp_all add: store_tables)
    have same: "mods w2 = mods w" "rows w2 = rows w" "content (rwStore w2) q = content s1 q" for q
      using b by (simp_all add: benign_def mods_def rows_def)
    let ?v = "newModuleVersion M f m res (readmeOf M (if b1 then [] else d, b2))"
    let ?v' = "?v\<lparr>mvID := reNewID (meReg M) (map mvID (rwModuleVersions w2)), mvDownloadCount := 0, mvDeprecated := False,
        mvDeprecatedAt := None, mvDeprecationMessage := None, mvReplacementSource := None, mvCreatedAt := rwNow w2\<rparr>"
    let ?w3 = "w2\<lparr>rwModuleVersions := rwModuleVersions w2 @ [?v']\<rparr>"
    have nv: "mvModuleID ?v' = moID m" "mvVersion ?v' = mfVersion f" "mvStoragePath ?v' = ?p" "mvChecksum ?v' = sha d"
      using st by (simp_all add: newModuleVersion_def)
    have id: "mvID ?v' \<notin> mvID ` set (rwModuleVersions w2)" using M(1) by (simp add: freshIDs_def) (metis list.set_map)
    have t3: "modTables ?w3"
      by (rule insert_version[OF t2 id, where k = "moduleKey m"]) (use nv m same p in \<open>simp_all\<close>)
    have i3: "intact content sha ?w3" by (rule intact_insert[OF i2, where d = d]) (simp_all add: nv same st(1))
    have c: "CreateModuleVersion (reNewID (meReg M)) ?v w2 = (Inr ?v', ?w3)"
    proof -
      have "\<not> list_ex (\<lambda>x. mvModuleID x = mvModuleID ?v \<and> mvVersion x = mvVersion ?v) (rwModuleVersions w2)"
      proof
        assume "list_ex (\<lambda>x. mvModuleID x = mvModuleID ?v \<and> mvVersion x = mvVersion ?v) (rwModuleVersions w2)"
        then obtain x where x: "x \<in> set (rwModuleVersions w2)" "mvModuleID x = moID m" "mvVersion x = mfVersion f"
          by (auto simp: list_ex_iff newModuleVersion_def)
        then have "(mvID x, moID m, mfVersion f, mvStoragePath x, mvChecksum x) \<in> set (rows w2)" by (force simp: rows_def)
        with m(4) same(2) show False by simp
      qed
      moreover have "(moID m, moduleKey m) \<in> set (mods w2)" using m(1) same(1) by simp
      then have "list_ex (\<lambda>x. moID x = mvModuleID ?v) (rwModules w2)" by (auto simp: list_ex_iff newModuleVersion_def mods_def)
      ultimately show ?thesis using f2 by (simp add: CreateModuleVersion_def rwExec_ok Let_def)
    qed
    have e: "snd (storeModule M f (m, fname, d) w) = analyzeUpload M (mvID ?v') d (queueUploadScan M (mvID ?v') ?w3)"
      using u Inr M(2) 1 2 c by (simp add: storeModule_def onStore_def)
    have bb: "benign content ?w3 (analyzeUpload M (mvID ?v') d (queueUploadScan M (mvID ?v') ?w3))"
      by (rule afterUpload_benign) (simp add: f2)
    show ?thesis unfolding e using benign_keeps(1)[OF bb t3] benign_keeps(2)[OF bb i3] by (rule conjI)
  qed
qed

lemma upload_ok:
  assumes w: "modTables w" "intact content sha w" and M: "freshIDs M" "semver_contract (meReg M)" "reBackend (meReg M) = B"
  shows "modTables (snd (ModuleUploadHandler M f w)) \<and> intact content sha (snd (ModuleUploadHandler M f w))"
proof -
  obtain r w1 where p: "prepareModule M f w = (r, w1)" by (metis surj_pair)
  have pr: "prepared content f w (r, w1)" using prepareModule_prepared[OF w(1) M(1,2), of content f] p by simp
  then have t: "modTables w1" "intact content sha w1" using grown_intact[OF _ w(2)] by (auto simp: prepared_def grown_def)
  show ?thesis
  proof (cases r)
    case (Inr q)
    obtain m fname d where q: "q = (m, fname, d)" by (cases q)
    have m: "(moID m, moduleKey m) \<in> set (mods w1)" "moduleKey m = (the (rwOrg w), mfNamespace f, mfName f, mfSystem f)"
      "CHR ''/'' \<notin> set (mfVersion f)" "\<And>i p c. (i, moID m, mfVersion f, p, c) \<notin> set (rows w1)"
      using pr Inr q by (auto simp: prepared_def)
    from storeModule_ok[OF t M(1,3) m] show ?thesis using p Inr q by (simp add: ModuleUploadHandler_def)
  qed (use p t in \<open>simp add: ModuleUploadHandler_def\<close>)
qed

end

section \<open>Deletions\<close>

text \<open>The rows that satisfy \<open>P\<close> are intact in the store \<open>s\<close>.\<close>

definition intactIn :: "('s \<Rightarrow> string \<Rightarrow> string option) \<Rightarrow> (string \<Rightarrow> string) \<Rightarrow> (string \<times> string \<times> string \<times> string \<times> string \<Rightarrow> bool) \<Rightarrow>
    's regworld \<Rightarrow> 's \<Rightarrow> bool" where
  "intactIn cont sha P w s \<longleftrightarrow> (\<forall>r\<in>set (rows w). P r \<longrightarrow> (\<exists>d. cont s (fst (snd (snd (snd r)))) = Some d \<and> snd (snd (snd (snd r))) = sha d))"

lemma intact_In: "intact cont sha w = intactIn cont sha (\<lambda>_. True) w (rwStore w)"
  by (auto simp: intact_def intactIn_def)

lemma rows_drop: "rows (dropModuleVersions ids w) = filter (\<lambda>r. fst r \<notin> set ids) (rows w)"
  by (simp add: rows_def dropModuleVersions_def filter_map comp_def)

lemma dropped_intact:
  assumes "intactIn cont sha (\<lambda>r. fst r \<notin> set ids) w (rwStore w)"
  shows "intact cont sha (dropModuleVersions ids w)"
  using assms unfolding intact_In intactIn_def rows_drop by (simp add: dropModuleVersions_def)

lemma filter_tables:
  assumes w: "modTables w" and e: "rwFaults w' = []" "rwOrg w' = rwOrg w" "mods w' = filter Q (mods w)" "rows w' = filter P (rows w)"
    "\<And>i mid ver p c k. (i, mid, ver, p, c) \<in> set (rows w') \<Longrightarrow> (mid, k) \<in> set (mods w) \<Longrightarrow> (mid, k) \<in> set (mods w')"
  shows "modTables w'"
proof -
  have d: "distinct (map fst (mods w'))" "distinct (map snd (mods w'))" "distinct (map fst (rows w'))"
    "distinct (map (\<lambda>(i, mid, ver, path, chk). (mid, ver)) (rows w'))"
    using w unfolding modTables_def e(3,4) by (simp_all add: distinct_map_filter)
  have k: "\<forall>x\<in>set (mods w'). keyOk (rwOrg w') (snd x)" using modTables_dest(2)[OF w] e(2,3) by simp
  have r: "CHR ''/'' \<notin> set ver \<and> (\<exists>k. (mid, k) \<in> set (mods w') \<and> path = keyPath k ver)"
    if x: "(i, mid, ver, path, chk) \<in> set (rows w')" for i mid ver path chk
  proof -
    have "(i, mid, ver, path, chk) \<in> set (rows w)" using x e(4) by simp
    from modTables_dest(3)[OF w this] e(5)[OF x] show ?thesis by blast
  qed
  then have "\<forall>(i, mid, ver, path, chk)\<in>set (rows w'). CHR ''/'' \<notin> set ver \<and> (\<exists>k. (mid, k) \<in> set (mods w') \<and> path = keyPath k ver)"
    by blast
  with d k e(1) show ?thesis unfolding modTables_def by (intro conjI)
qed

lemma dropped_tables:
  assumes "modTables w"
  shows "modTables (dropModuleVersions ids w)"
proof (rule filter_tables[OF assms, where Q = "\<lambda>_. True" and P = "\<lambda>r. fst r \<notin> set ids"])
  show "mods (dropModuleVersions ids w) = filter (\<lambda>_. True) (mods w)" by (simp add: dropModuleVersions_def mods_def)
  then show "(mid, k) \<in> set (mods w) \<Longrightarrow> (mid, k) \<in> set (mods (dropModuleVersions ids w))" for mid k by simp
qed (simp_all add: rows_drop, simp_all add: dropModuleVersions_def modTables_dest(1)[OF assms])

context artifact_store
begin

text \<open>Deleting the file of a version keeps the files of all other versions.\<close>

lemma delete_file_rows:
  assumes w: "modTables w" and v: "v \<in> set (rwModuleVersions w)" and b: "reBackend (meReg M) = B"
    and i: "intactIn content sha P w (rwStore w1)"
  shows "intactIn content sha (\<lambda>r. P r \<and> (fst (snd r), fst (snd (snd r))) \<noteq> (mvModuleID v, mvVersion v)) w (rwStore (deleteModuleFile M v w1))"
proof -
  have row: "(mvID v, mvModuleID v, mvVersion v, mvStoragePath v, mvChecksum v) \<in> set (rows w)" using v by (auto simp: rows_def)
  obtain k where k: "(mvModuleID v, k) \<in> set (mods w)" "mvStoragePath v = keyPath k (mvVersion v)" "CHR ''/'' \<notin> set (mvVersion v)"
    using modTables_dest(3)[OF w row] by blast
  have ok: "keyOk (rwOrg w) k" using modTables_dest(2)[OF w k(1)] by simp
  obtain r2 s where d: "sbDelete B (mvStoragePath v) (rwStore w1) = (r2, s)" by (metis surj_pair)
  have ne: "mvStoragePath v \<noteq> ''''" using k(2) by (cases k) simp
  have st: "rwStore (deleteModuleFile M v w1) = s" using d ne b by (simp add: deleteModuleFile_def onStore_def)
  show ?thesis unfolding intactIn_def st
  proof (intro ballI impI)
    fix r assume r: "r \<in> set (rows w)" "P r \<and> (fst (snd r), fst (snd (snd r))) \<noteq> (mvModuleID v, mvVersion v)"
    then obtain dd where dd: "content (rwStore w1) (fst (snd (snd (snd r)))) = Some dd" "snd (snd (snd (snd r))) = sha dd"
      using i by (auto simp: intactIn_def)
    have "clearOf (mvStoragePath v) (fst (snd (snd (snd r))))" unfolding k(2)
      using r by (intro rows_clear[OF w ok k(3) k(1) r(1)]) auto
    from delete_keeps[OF d this dd(1)] dd(2) show "\<exists>d. content s (fst (snd (snd (snd r)))) = Some d \<and> snd (snd (snd (snd r))) = sha d" by blast
  qed
qed

lemma deleteModuleFile_shape: "\<exists>s. deleteModuleFile M v w = w\<lparr>rwStore := s\<rparr>"
  by (auto simp: deleteModuleFile_def onStore_eq intro: exI[of _ "rwStore w"])

lemma deleteVersion_ok:
  assumes w: "modTables w" "intact content sha w" and b: "reBackend (meReg M) = B"
  shows "modTables (snd (DeleteModuleVersionHandler M ns name sys ver w)) \<and> intact content sha (snd (DeleteModuleVersionHandler M ns name sys ver w))"
proof -
  note f = modTables_dest(1)[OF w(1)]
  have step: "modTables (dropModuleVersions [mvID v] (deleteModuleFile M v w)) \<and> intact content sha (dropModuleVersions [mvID v] (deleteModuleFile M v w))"
    if v: "v \<in> set (rwModuleVersions w)" for v
  proof -
    obtain s where s: "deleteModuleFile M v w = w\<lparr>rwStore := s\<rparr>" using deleteModuleFile_shape[of M v w] by auto
    have t: "modTables (w\<lparr>rwStore := s\<rparr>)" using w(1) by (simp add: store_tables)
    have rw: "rows (w\<lparr>rwStore := s\<rparr>) = rows w" by (simp add: rows_def)
    have "intactIn content sha (\<lambda>r. (fst (snd r), fst (snd (snd r))) \<noteq> (mvModuleID v, mvVersion v)) w s"
      using delete_file_rows[OF w(1) v b, of "\<lambda>_. True" w] w(2) s by (simp add: intact_In)
    moreover have "(fst (snd r), fst (snd (snd r))) \<noteq> (mvModuleID v, mvVersion v)" if r: "r \<in> set (rows w)" "fst r \<noteq> mvID v" for r
    proof
      assume e: "(fst (snd r), fst (snd (snd r))) = (mvModuleID v, mvVersion v)"
      have row: "(mvID v, mvModuleID v, mvVersion v, mvStoragePath v, mvChecksum v) \<in> set (rows w)" using v by (auto simp: rows_def)
      have "inj_on (\<lambda>(i, mid, ver, path, chk). (mid, ver)) (set (rows w))" using w(1) unfolding modTables_def distinct_map by (elim conjE)
      from inj_onD[OF this _ r(1) row] e have "r = (mvID v, mvModuleID v, mvVersion v, mvStoragePath v, mvChecksum v)" by (cases r) simp
      with r(2) show False by simp
    qed
    ultimately have "intactIn content sha (\<lambda>r. fst r \<notin> set [mvID v]) (w\<lparr>rwStore := s\<rparr>) (rwStore (w\<lparr>rwStore := s\<rparr>))"
      unfolding intactIn_def rw by simp
    from dropped_intact[OF this] dropped_tables[OF t] show ?thesis unfolding s by simp
  qed
  have fd: "rwFaults (deleteModuleFile M v w) = []" for v using f deleteModuleFile_shape[of M v w] by auto
  show ?thesis
    using w f step fd
    by (auto simp: DeleteModuleVersionHandler_def withAdminModuleVersion_def withAdminModule_def GetDefaultOrganization_def rwQuery_ok GetModule_ok
        GetModuleVersion_ok DeleteModuleVersion_def rwExec_ok snd_answer find_Some_iff split: option.split)
qed

end

text \<open>The tables without a module.\<close>

definition removed :: "string \<Rightarrow> 's regworld \<Rightarrow> 's regworld" where
  "removed i w = dropModuleVersions (map mvID (filter (\<lambda>v. mvModuleID v = i) (rwModuleVersions w)))
     (w\<lparr>rwModules := map (\<lambda>m. if moSuccessorModuleID m = Some i then m\<lparr>moSuccessorModuleID := None\<rparr> else m)
                        (filter (\<lambda>m. moID m \<noteq> i) (rwModules w))\<rparr>)"

context artifact_store
begin

lemma delete_files_rows:
  assumes w: "modTables w" and b: "reBackend (meReg M) = B"
    and "\<forall>v\<in>set vs. v \<in> set (rwModuleVersions w) \<and> mvModuleID v = mid" "intactIn content sha (\<lambda>r. fst (snd r) \<noteq> mid) w (rwStore w1)"
  shows "intactIn content sha (\<lambda>r. fst (snd r) \<noteq> mid) w (rwStore (fold (deleteModuleFile M) vs w1)) \<and>
    (\<exists>s. fold (deleteModuleFile M) vs w1 = w1\<lparr>rwStore := s\<rparr>)"
  using assms(3,4)
proof (induction vs arbitrary: w1)
  case Nil
  then show ?case by (intro conjI exI[of _ "rwStore w1"]) simp_all
next
  case (Cons v vs)
  have "intactIn content sha (\<lambda>r. fst (snd r) \<noteq> mid \<and> (fst (snd r), fst (snd (snd r))) \<noteq> (mvModuleID v, mvVersion v)) w (rwStore (deleteModuleFile M v w1))"
    using Cons.prems by (intro delete_file_rows[OF w _ b]) auto
  then have "intactIn content sha (\<lambda>r. fst (snd r) \<noteq> mid) w (rwStore (deleteModuleFile M v w1))"
    using Cons.prems(1) by (auto simp: intactIn_def)
  from Cons.IH[OF _ this] Cons.prems(1) deleteModuleFile_shape[of M v w1] show ?case by auto
qed

lemma removed_ok:
  assumes w: "modTables w" and i: "intactIn content sha (\<lambda>r. fst (snd r) \<noteq> i) w s"
  shows "modTables (removed i (w\<lparr>rwStore := s\<rparr>)) \<and> intact content sha (removed i (w\<lparr>rwStore := s\<rparr>))"
proof -
  let ?ids = "map mvID (filter (\<lambda>v. mvModuleID v = i) (rwModuleVersions w))" and ?w = "removed i (w\<lparr>rwStore := s\<rparr>)"
  have r: "rows ?w = filter (\<lambda>r. fst r \<notin> set ?ids) (rows w)" by (simp add: removed_def rows_drop) (simp add: rows_def)
  have k: "(\<lambda>m. (moID m, moduleKey m)) \<circ> (\<lambda>m. if moSuccessorModuleID m = Some i then m\<lparr>moSuccessorModuleID := None\<rparr> else m) =
      (\<lambda>m. (moID m, moduleKey m))" by (auto simp: moduleKey_def)
  have m: "mods ?w = filter (\<lambda>e. fst e \<noteq> i) (mods w)"
    unfolding removed_def dropModuleVersions_def mods_def by (simp add: k filter_map comp_def del: comp_apply)
  have mid: "fst (snd x) \<noteq> i" if "x \<in> set (rows w)" "fst x \<notin> set ?ids" for x using that by (auto simp: rows_def)
  have "modTables ?w"
  proof (rule filter_tables[OF w _ _ m r])
    show "(mid, k) \<in> set (mods ?w)" if "(j, mid, ver, p, c) \<in> set (rows ?w)" "(mid, k) \<in> set (mods w)" for j mid ver p c k
      using that mid[of "(j, mid, ver, p, c)"] by (auto simp: r m)
  qed (simp_all add: removed_def dropModuleVersions_def modTables_dest(1)[OF w])
  moreover have "intact content sha ?w"
    using i mid unfolding intact_In intactIn_def r by (simp add: removed_def dropModuleVersions_def)
  ultimately show ?thesis ..
qed

lemma deleteModule_ok:
  assumes w: "modTables w" "intact content sha w" and b: "reBackend (meReg M) = B" and srt: "\<And>vs. set (meSort M vs) \<subseteq> set vs"
  shows "modTables (snd (DeleteModuleHandler M ns name sys w)) \<and> intact content sha (snd (DeleteModuleHandler M ns name sys w))"
proof -
  note f = modTables_dest(1)[OF w(1)]
  have step: "modTables (snd (DeleteModule (moID m) (fold (deleteModuleFile M) vs w))) \<and> intact content sha (snd (DeleteModule (moID m) (fold (deleteModuleFile M) vs w)))"
    if vs: "vs = meSort M (filter (\<lambda>v. mvModuleID v = moID m) (rwModuleVersions w))" for m vs
  proof -
    have "intactIn content sha (\<lambda>r. fst (snd r) \<noteq> moID m) w (rwStore w)" using w(2) by (simp add: intact_In intactIn_def)
    moreover have "\<forall>v\<in>set vs. v \<in> set (rwModuleVersions w) \<and> mvModuleID v = moID m"
      using srt[of "filter (\<lambda>v. mvModuleID v = moID m) (rwModuleVersions w)"] vs by auto
    ultimately obtain s where s: "fold (deleteModuleFile M) vs w = w\<lparr>rwStore := s\<rparr>" "intactIn content sha (\<lambda>r. fst (snd r) \<noteq> moID m) w s"
      using delete_files_rows[OF w(1) b, of vs "moID m" w] by auto
    have "snd (DeleteModule (moID m) (w\<lparr>rwStore := s\<rparr>)) = removed (moID m) (w\<lparr>rwStore := s\<rparr>)"
      using f by (simp add: DeleteModule_def rwExec_ok removed_def)
    with removed_ok[OF w(1) s(2)] s(1) show ?thesis by simp
  qed
  show ?thesis
    using w f step
    by (auto simp: DeleteModuleHandler_def withAdminModule_def GetDefaultOrganization_def rwQuery_ok GetModule_ok ListModuleVersions_def
        snd_answer split: option.split)
qed

end

section \<open>Runs of requests\<close>

datatype mod_request =
    PostModule mod_form
  | GetModuleDownload string string string string
  | GetModuleVersions string string string "string option" "string option"
  | PostModuleRecord "create_module_request option" "string option"
  | GetModuleDetail string string string
  | GetModuleVersionDetail string string string string
  | DeleteModuleReq string string string
  | DeleteVersionReq string string string string
  | DeprecateVersionReq string string string string "(string \<times> string option) option"
  | UndeprecateVersionReq string string string string
  | PutModuleRecord string "update_module_request option"
  | GetModuleRecord string
  | DeprecateModuleReq string string string "(string \<times> string option) option"
  | UndeprecateModuleReq string string string
  | PostReanalyze string string string string

fun mhandle :: "'s modenv \<Rightarrow> mod_request \<Rightarrow> 's regworld \<Rightarrow> mresponse \<times> 's regworld" where
  "mhandle M (PostModule f) = ModuleUploadHandler M f"
| "mhandle M (GetModuleDownload ns name sys ver) = ModuleDownloadHandler M ns name sys ver"
| "mhandle M (GetModuleVersions ns name sys l off) = ModuleListVersionsHandler ns name sys l off"
| "mhandle M (PostModuleRecord body user) = CreateModuleRecord M body user"
| "mhandle M (GetModuleDetail ns name sys) = GetModuleHandler M ns name sys"
| "mhandle M (GetModuleVersionDetail ns name sys ver) = GetModuleVersionHandler ns name sys ver"
| "mhandle M (DeleteModuleReq ns name sys) = DeleteModuleHandler M ns name sys"
| "mhandle M (DeleteVersionReq ns name sys ver) = DeleteModuleVersionHandler M ns name sys ver"
| "mhandle M (DeprecateVersionReq ns name sys ver body) = DeprecateModuleVersionHandler ns name sys ver body"
| "mhandle M (UndeprecateVersionReq ns name sys ver) = UndeprecateModuleVersionHandler ns name sys ver"
| "mhandle M (PutModuleRecord i body) = UpdateModuleRecord i body"
| "mhandle M (GetModuleRecord i) = GetModuleByIDRecord i"
| "mhandle M (DeprecateModuleReq ns name sys body) = DeprecateModuleHandler ns name sys body"
| "mhandle M (UndeprecateModuleReq ns name sys) = UndeprecateModuleHandler ns name sys"
| "mhandle M (PostReanalyze ns name sys ver) = ReanalyzeVersion M ns name sys ver"

fun moves :: "mod_request \<Rightarrow> bool" where
  "moves (PutModuleRecord i (Some q)) = (umNamespace q \<noteq> None)"
| "moves _ = False"

text \<open>
  Requests one after the other, in between time passes, other faults of the temporary files and of the store come up,
  and whatever leaves the stored contents alone may happen to the store.
\<close>

inductive served :: "'s modenv \<Rightarrow> ('s \<Rightarrow> string \<Rightarrow> string option) \<Rightarrow> 's regworld \<Rightarrow> 's regworld \<Rightarrow> bool" for M cont w where
  start: "served M cont w w"
| request: "served M cont w w1 \<Longrightarrow> \<not> moves q \<Longrightarrow> served M cont w (snd (mhandle M q w1))"
| outside: "served M cont w w1 \<Longrightarrow> (\<And>p. cont s p = cont (rwStore w1) p) \<Longrightarrow>
    served M cont w (w1\<lparr>rwStore := s, rwIO := io, rwNow := now\<rparr>)"

definition modEnvOk :: "'s modenv \<Rightarrow> bool" where
  "modEnvOk M \<longleftrightarrow> freshIDs M \<and> semver_contract (meReg M) \<and> (\<forall>vs. set (meSort M vs) \<subseteq> set vs)"

context artifact_store
begin

lemma mhandle_ok:
  assumes w: "modTables w" "intact content sha w" and M: "modEnvOk M" "reBackend (meReg M) = B" and q: "\<not> moves q"
  shows "modTables (snd (mhandle M q w)) \<and> intact content sha (snd (mhandle M q w))"
proof -
  note f = modTables_dest(1)[OF w(1)]
  have ok: ?thesis if "benign content w (snd (mhandle M q w))" using benign_keeps(1)[OF that w(1)] benign_keeps(2)[OF that w(2)] ..
  have e: "freshIDs M" "semver_contract (meReg M)" "\<And>vs. set (meSort M vs) \<subseteq> set vs" using M(1) by (auto simp: modEnvOk_def)
  show ?thesis
  proof (cases q)
    case (PostModule f)
    then show ?thesis using upload_ok[OF w e(1,2) M(2)] by simp
  next
    case (PostModuleRecord body user)
    then show ?thesis using CreateModuleRecord_grown[OF w(1) e(1), of content body user] grown_intact[OF _ w(2)] by (auto simp: grown_def)
  next
    case (DeleteModuleReq ns name sys)
    then show ?thesis using deleteModule_ok[OF w M(2) e(3)] by simp
  next
    case (DeleteVersionReq ns name sys ver)
    then show ?thesis using deleteVersion_ok[OF w M(2)] by simp
  next
    case (PutModuleRecord i body)
    have "benign content w (snd (UpdateModuleRecord i body w))"
      by (rule UpdateModuleRecord_benign[OF w(1)]) (use q PutModuleRecord in auto)
    then show ?thesis using PutModuleRecord ok by simp
  qed (rule ok; simp add: marks_handlers_benign[OF f] download_benign[OF f M(2)] reanalyze_benign[OF f M(2)])+
qed

lemma served_ok:
  assumes "served M content w w'" "modTables w" "intact content sha w" "modEnvOk M" "reBackend (meReg M) = B"
  shows "modTables w' \<and> intact content sha w'"
  using assms(1)
proof induction
  case (request w1 q)
  then show ?case using mhandle_ok[OF _ _ assms(4,5)] by simp
next
  case (outside w1 s now io)
  have "benign content w1 (w1\<lparr>rwStore := s, rwIO := io, rwNow := now\<rparr>)" using outside.hyps(2) by (simp add: benign_def mods_def rows_def)
  from benign_keeps(1)[OF this] benign_keeps(2)[OF this] outside.IH show ?case by blast
qed (use assms in simp)

lemma served_from_empty:
  assumes "served M content w w'" "modEnvOk M" "reBackend (meReg M) = B"
    and "rwModules w = []" "rwModuleVersions w = []" "rwFaults w = []" and v: "v \<in> set (rwModuleVersions w')"
  shows "\<exists>m d. m \<in> set (rwModules w') \<and> moID m = mvModuleID v \<and> mvStoragePath v = keyPath (moduleKey m) (mvVersion v) \<and>
    content (rwStore w') (mvStoragePath v) = Some d \<and> mvChecksum v = sha d"
proof -
  have "modTables w" "intact content sha w" using assms(4-6) by (simp_all add: modTables_def intact_def mods_def rows_def)
  from served_ok[OF assms(1) this assms(2,3)] have t: "modTables w'" "intact content sha w'" by simp_all
  have r: "(mvID v, mvModuleID v, mvVersion v, mvStoragePath v, mvChecksum v) \<in> set (rows w')" using v by (auto simp: rows_def)
  obtain k where "(mvModuleID v, k) \<in> set (mods w')" "mvStoragePath v = keyPath k (mvVersion v)" using modTables_dest(3)[OF t(1) r] by blast
  moreover obtain d where "content (rwStore w') (mvStoragePath v) = Some d" "mvChecksum v = sha d" using t(2) r by (force simp: intact_def)
  ultimately show ?thesis by (auto simp: mods_def)
qed

end

text \<open>
  Claim C0. The archive of every module version stays in place: after any sequence of requests to an empty registry that move no
  module to another namespace, over a working database and a local store that may fail at any call, each version row refers to a module
  of the table, its storage path is the one made of that module's coordinates and its version, and the file there has the recorded checksum.
\<close>

theorem module_artifacts_intact:
  assumes "served M (localContent L) w w'" "modEnvOk M" "reBackend (meReg M) = localBackend sha L"
    and "rwModules w = []" "rwModuleVersions w = []" "rwFaults w = []" and "v \<in> set (rwModuleVersions w')"
  shows "\<exists>m d. m \<in> set (rwModules w') \<and> moID m = mvModuleID v \<and> mvStoragePath v = keyPath (moduleKey m) (mvVersion v) \<and>
    localContent L (rwStore w') (mvStoragePath v) = Some d \<and> mvChecksum v = sha d"
  using assms by (rule local_artifacts.served_from_empty)

definition exMod :: "fs modenv" where
  "exMod = \<lparr>meReg = exLocalEnv, meTar = (\<lambda>_. Inr exModule), mePolicy = None, meAnalyze = None, meSort = id, meScanning = True\<rparr>"

definition exUpload :: "string \<Rightarrow> string \<Rightarrow> string \<Rightarrow> mod_form" where
  "exUpload ns desc d = \<lparr>mfParsed = True, mfNamespace = ns, mfName = ''vpc'', mfSystem = ''aws'', mfVersion = ''1.0.0'', mfDescription = desc,
     mfSource = '''', mfFile = Some (''m.tar.gz'', d, False), mfUser = None\<rparr>"

lemma exMod_ok: "modEnvOk exMod" "reBackend (meReg exMod) = localBackend (\<lambda>d. d) exLocal"
proof -
  have "longer xs \<notin> set xs" for xs
  proof
    assume "longer xs \<in> set xs"
    then have "length (longer xs) \<le> sum_list (map length xs)" by (intro member_le_sum_list) auto
    then show False by (simp add: longer_def)
  qed
  then show "modEnvOk exMod"
    by (auto simp: modEnvOk_def freshIDs_def exMod_def exLocalEnv_def exEnvOn_def semver_contract_def)
  show "reBackend (meReg exMod) = localBackend (\<lambda>d. d) exLocal" by (simp add: exMod_def exLocalEnv_def exEnvOn_def)
qed

theorem module_artifacts_intact_witness:
  "let w = snd (mhandle exMod (DeleteVersionReq ''b'' ''vpc'' ''aws'' ''1.0.0'')
             (snd (mhandle exMod (PostModule (exUpload ''b'' '''' ''B''))
               (snd (mhandle exMod (PostModule (exUpload ''a'' '''' ''A'')) (exRegistry exFs [])))))) in
   map mvStoragePath (rwModuleVersions w) = [''modules/a/vpc/aws/1.0.0.tar.gz''] \<and>
   (\<forall>v\<in>set (rwModuleVersions w). localContent exLocal (rwStore w) (mvStoragePath v) = Some (mvChecksum v))"
proof -
  let ?init = "exRegistry exFs []"
  let ?w = "snd (mhandle exMod (DeleteVersionReq ''b'' ''vpc'' ''aws'' ''1.0.0'')
             (snd (mhandle exMod (PostModule (exUpload ''b'' '''' ''B''))
               (snd (mhandle exMod (PostModule (exUpload ''a'' '''' ''A'')) ?init)))))"
  have s: "served exMod (localContent exLocal) ?init ?w" by (intro served.start served.request) simp_all
  have z: "rwModules ?init = []" "rwModuleVersions ?init = []" "rwFaults ?init = []" by (simp_all add: exRegistry_def)
  have "localContent exLocal (rwStore ?w) (mvStoragePath v) = Some (mvChecksum v)" if "v \<in> set (rwModuleVersions ?w)" for v
    using module_artifacts_intact[OF s exMod_ok z that] by auto
  moreover have "map mvStoragePath (rwModuleVersions ?w) = [''modules/a/vpc/aws/1.0.0.tar.gz'']" by code_simp
  ultimately show ?thesis by (simp add: Let_def)
qed

text \<open>
  Claim C0. Moving a module breaks it: its versions keep their old storage paths, so an upload of the same version to the
  coordinates that became free is accepted and overwrites the archive of the moved module, whose row keeps the old checksum.
\<close>

theorem moved_module_overwritten:
  "let w1 = snd (ModuleUploadHandler exMod (exUpload ''a'' '''' ''A'') (exRegistry exFs []));
       w2 = snd (UpdateModuleRecord (moID (hd (rwModules w1))) (Some \<lparr>umNamespace = Some ''b'', umDescription = None, umSource = None\<rparr>) w1);
       r = ModuleUploadHandler exMod (exUpload ''a'' '''' ''B'') w2; w3 = snd r; p = ''modules/a/vpc/aws/1.0.0.tar.gz'' in
   mrespStatus (fst r) = 201 \<and> map moNamespace (rwModules w3) = [''b'', ''a''] \<and>
   map mvStoragePath (rwModuleVersions w3) = [p, p] \<and> map mvChecksum (rwModuleVersions w3) = [''A'', ''B''] \<and>
   localContent exLocal (rwStore w3) p = Some ''B''"
  by code_simp

text \<open>
  Claim C0. An upload that gives a description and no source erases the source of the module.
\<close>

theorem upload_erases_source:
  "let w0 = exRegistry exFs [];
       w1 = snd (ModuleUploadHandler exMod ((exUpload ''a'' ''d'' ''A'')\<lparr>mfSource := ''https://git/a''\<rparr>) w0);
       r = ModuleUploadHandler exMod ((exUpload ''a'' ''new'' ''A'')\<lparr>mfVersion := ''1.1.0''\<rparr>) w1 in
   map moSource (rwModules w1) = [Some ''https://git/a''] \<and> mrespStatus (fst r) = 201 \<and> map moSource (rwModules (snd r)) = [None]"
  by code_simp

section \<open>Every version can be downloaded\<close>

lemma keyPath_servable:
  assumes "keyOk org k" "CHR ''/'' \<notin> set ver" "\<not> contains ver ''..''" "last ver \<noteq> CHR ''.''" "ver \<noteq> ''''"
  shows "\<not> contains (keyPath k ver) ''..''" "\<not> contains (keyPath k ver) ''//''" "parseProviderFilePath (keyPath k ver) = None"
proof -
  obtain o1 ns name sys where k: "k = (o1, ns, name, sys)" by (cases k)
  let ?last = "ver @ ''.tar.gz''"
  have e: "keyPath k ver = ''modules'' @ CHR ''/'' # ns @ CHR ''/'' # name @ CHR ''/'' # sys @ CHR ''/'' # ?last" by (simp add: k)
  have s: "s \<noteq> []" "CHR ''/'' \<notin> set s" "\<not> contains s ''..''" if "s \<in> {ns, name, sys}" for s
  proof -
    show "s \<noteq> []" "CHR ''/'' \<notin> set s" using that assms(1) k by auto
    have "CHR ''.'' \<notin> set s" using that assms(1) k by auto
    then show "\<not> contains s ''..''" by (induction s) (auto simp: hasPrefix_def)
  qed
  have l: "\<not> contains ?last ''..''"
    using assms(3-5)
  proof (induction ver)
    case (Cons c ver)
    then show ?case by (cases ver) (auto simp: hasPrefix_def)
  qed simp
  have n: "\<not> contains x ''//''" if "CHR ''/'' \<notin> set x" for x using that by (induction x) (auto simp: hasPrefix_def)
  have m: "\<not> contains ''modules'' ''..''" by (simp add: hasPrefix_def)
  show "\<not> contains (keyPath k ver) ''..''" unfolding e contains_dots_sep using s(3) l m by auto
  have "\<not> contains ?last ''//''" using assms(2) by (intro n) auto
  then have 1: "\<not> contains (sys @ CHR ''/'' # ?last) ''//''"
    using contains_slashes_sep[of sys ?last] s(2)[of sys] no_slash_start[OF assms(2,5)] by simp
  then have 2: "\<not> contains (name @ CHR ''/'' # sys @ CHR ''/'' # ?last) ''//''"
    using contains_slashes_sep[of name "sys @ CHR ''/'' # ?last"] s[of name] s[of sys] no_slash_start[of sys] by simp
  then have 3: "\<not> contains (ns @ CHR ''/'' # name @ CHR ''/'' # sys @ CHR ''/'' # ?last) ''//''"
    using contains_slashes_sep[of ns "name @ CHR ''/'' # sys @ CHR ''/'' # ?last"] s[of ns] s[of name] no_slash_start[of name] by simp
  then show "\<not> contains (keyPath k ver) ''//''" unfolding e
    using contains_slashes_sep[of "''modules''" "ns @ CHR ''/'' # name @ CHR ''/'' # sys @ CHR ''/'' # ?last"] s[of ns] no_slash_start[of ns]
    by simp
  show "parseProviderFilePath (keyPath k ver) = None"
    using keyPath_split[OF assms(1,2)] by (simp add: parseProviderFilePath_def k)
qed

lemma module_lookups:
  assumes t: "modTables w" and m: "m \<in> set (rwModules w)" and v: "v \<in> set (rwModuleVersions w)" "mvModuleID v = moID m"
    and o: "rwOrg w \<noteq> Some ''''"
  shows "GetDefaultOrganization w = (Inr (Some (moOrganizationID m)), w)"
    "GetModule (moOrganizationID m) (moNamespace m) (moName m) (moSystem m) w = (Inr (Some m), w)"
    "GetModuleVersion (moID m) (mvVersion v) w = (Inr (Some v), w)"
proof -
  have f: "rwFaults w = []" by (rule modTables_dest(1)[OF t])
  have "keyOk (rwOrg w) (moduleKey m)" using modTables_dest(2)[OF t, of "(moID m, moduleKey m)"] m by (auto simp: mods_def)
  then have org: "rwOrg w = Some (moOrganizationID m)" "moOrganizationID m \<noteq> ''''" using o by (auto simp: moduleKey_def)
  have "distinct (map snd (mods w))" using t unfolding modTables_def by (elim conjE)
  then have d: "distinct (map moduleKey (rwModules w))" by (simp add: mods_def comp_def)
  have "distinct (map (\<lambda>(i, mid, ver, path, chk). (mid, ver)) (rows w))" using t unfolding modTables_def by (elim conjE)
  then have dv: "distinct (map (\<lambda>v. (mvModuleID v, mvVersion v)) (rwModuleVersions w))" by (simp add: rows_def comp_def)
  have "find (\<lambda>n. moduleKey n = moduleKey m) (rwModules w) = Some m" by (rule find_distinct_key[OF m _ _ d]) simp_all
  moreover have "find (\<lambda>n. mvModuleID n = moID m \<and> mvVersion n = mvVersion v) (rwModuleVersions w) = Some v"
    by (rule find_distinct_key[OF v(1) _ _ dv]) (simp_all add: v(2))
  ultimately show "GetDefaultOrganization w = (Inr (Some (moOrganizationID m)), w)"
    "GetModule (moOrganizationID m) (moNamespace m) (moName m) (moSystem m) w = (Inr (Some m), w)"
    "GetModuleVersion (moID m) (mvVersion v) w = (Inr (Some v), w)"
    using f org by (simp_all add: GetDefaultOrganization_def GetModule_def GetModuleVersion_def rwQuery_def rwCall_def moduleKey_def)
qed


context artifact_store
begin

text \<open>What the invariant says of one row, with the module the row belongs to.\<close>

lemma served_row:
  assumes s: "served M content w w'" "modEnvOk M" "reBackend (meReg M) = B"
    and e: "rwModules w = []" "rwModuleVersions w = []" "rwFaults w = []"
    and v: "v \<in> set (rwModuleVersions w')" and m: "m \<in> set (rwModules w')" "moID m = mvModuleID v"
  shows "modTables w' \<and> keyOk (rwOrg w') (moduleKey m) \<and> mvStoragePath v = keyPath (moduleKey m) (mvVersion v) \<and>
    (\<exists>d. content (rwStore w') (mvStoragePath v) = Some d \<and> mvChecksum v = sha d)"
proof -
  have "modTables w" "intact content sha w" using e by (simp_all add: modTables_def intact_def mods_def rows_def)
  from served_ok[OF s(1) this s(2,3)] have t: "modTables w'" by simp
  obtain n d where n: "n \<in> set (rwModules w')" "moID n = mvModuleID v" "mvStoragePath v = keyPath (moduleKey n) (mvVersion v)"
    "content (rwStore w') (mvStoragePath v) = Some d" "mvChecksum v = sha d"
    using served_from_empty[OF s e v] by blast
  have "distinct (map fst (mods w'))" using t unfolding modTables_def by (elim conjE)
  then have "distinct (map moID (rwModules w'))" by (simp add: mods_def comp_def)
  then have "n = m" using n(1,2) m by (intro inj_onD[of moID "set (rwModules w')"]) (simp_all add: distinct_map)
  moreover have "keyOk (rwOrg w') (moduleKey m)" using modTables_dest(2)[OF t, of "(moID m, moduleKey m)"] m(1) by (auto simp: mods_def)
  ultimately show ?thesis using t n by blast
qed

end

text \<open>
  Claim C0. Every version of the registry can be downloaded, and what is delivered is what was uploaded: after any sequence of requests to
  an empty registry that move no module, for every version row of the table and its module, the download endpoint answers with the
  file URL of the row's path, and the file endpoint delivers there bytes whose SHA-256 is the checksum of the row.
\<close>

theorem module_download_served:
  assumes s: "served M (localContent L) w w'" "modEnvOk M" "reBackend (meReg M) = localBackend sha L" "serveDirectly L"
    and e: "rwModules w = []" "rwModuleVersions w = []" "rwFaults w = []"
    and v: "v \<in> set (rwModuleVersions w')" "reSemver (meReg M) (mvVersion v)" and m: "m \<in> set (rwModules w')" "moID m = mvModuleID v"
    and now: "rwOrg w' \<noteq> Some ''''" "fsFaults (rwStore w') = []"
  shows "\<exists>d c n.
    fst (ModuleDownloadHandler M (moNamespace m) (moName m) (moSystem m) (mvVersion v) w') = MGet (baseURL L @ ''/v1/files/'' @ mvStoragePath v) \<and>
    fst (ServeFileHandler (meReg M) (''/'' @ mvStoragePath v) w') = RFile c n (d, False) \<and> mvChecksum v = sha d"
proof -
  obtain d where t: "modTables w'" "keyOk (rwOrg w') (moduleKey m)" "mvStoragePath v = keyPath (moduleKey m) (mvVersion v)"
    "localContent L (rwStore w') (mvStoragePath v) = Some d" "mvChecksum v = sha d"
    using local_artifacts.served_row[OF s(1-3) e v(1) m] by blast
  have ver: "mvVersion v \<noteq> ''''" "CHR ''/'' \<notin> set (mvVersion v)" "\<not> contains (mvVersion v) ''..''" "last (mvVersion v) \<noteq> CHR ''.''"
    using s(2) v(2) by (auto simp: modEnvOk_def semver_contract_def)
  note plain = keyPath_servable[OF t(2) ver(2-4,1), folded t(3)]
  obtain full u where full: "safeJoin L (mvStoragePath v) = Inr full" "node (rwStore w') full = Some (FFile d u)"
    using t(4) by (auto simp: localContent_def split: sum.splits option.splits fnode.splits)
  have url: "GetURL L (mvStoragePath v) (rwStore w') = (Inr (baseURL L @ ''/v1/files/'' @ mvStoragePath v), rwStore w')"
    using full now(2) s(4) by (simp add: GetURL_def Exists_def osStat_def osCall_nofault)
  have "fst (ModuleDownloadHandler M (moNamespace m) (moName m) (moSystem m) (mvVersion v) w') = MGet (baseURL L @ ''/v1/files/'' @ mvStoragePath v)"
    using module_lookups[OF t(1) m(1) v(1) m(2)[symmetric] now(1)] url v(2) s(3)
    by (simp add: ModuleDownloadHandler_def withModOrg_def withModule_def withModuleVersion_def downloadModule_def onStore_def localBackend_def)
  moreover have "serveGate (mvStoragePath v) w' = (False, w')" by (simp add: serveGate_def plain(3))
  ultimately show ?thesis using serve_open[OF s(3) now(2) full] plain(1,2) t(5) by blast
qed

theorem module_download_served_witness:
  "let w = snd (mhandle exMod (PostModule (exUpload ''a'' '''' ''A'')) (exRegistry exFs [])) in
   fst (ModuleDownloadHandler exMod ''a'' ''vpc'' ''aws'' ''1.0.0'' w) = MGet (baseURL exLocal @ ''/v1/files/modules/a/vpc/aws/1.0.0.tar.gz'') \<and>
   (\<exists>c n. fst (ServeFileHandler (meReg exMod) ''/modules/a/vpc/aws/1.0.0.tar.gz'' w) = RFile c n (''A'', False))"
proof -
  let ?init = "exRegistry exFs []"
  let ?w = "snd (mhandle exMod (PostModule (exUpload ''a'' '''' ''A'')) ?init)"
  let ?v = "hd (rwModuleVersions ?w)" and ?m = "hd (rwModules ?w)"
  have s: "served exMod (localContent exLocal) ?init ?w" by (intro served.start served.request) simp
  have z: "rwModules ?init = []" "rwModuleVersions ?init = []" "rwFaults ?init = []" by (simp_all add: exRegistry_def)
  have n: "rwModuleVersions ?w \<noteq> []" "rwModules ?w \<noteq> []" by code_simp+
  have h: "reSemver (meReg exMod) (mvVersion ?v)" "moID ?m = mvModuleID ?v" "rwOrg ?w \<noteq> Some ''''" "fsFaults (rwStore ?w) = []"
    "mvStoragePath ?v = ''modules/a/vpc/aws/1.0.0.tar.gz''" "mvChecksum ?v = ''A''" "moNamespace ?m = ''a''" "moName ?m = ''vpc''"
    "moSystem ?m = ''aws''" "mvVersion ?v = ''1.0.0''" by code_simp+
  have d: "serveDirectly exLocal" by code_simp
  have "?v \<in> set (rwModuleVersions ?w)" "?m \<in> set (rwModules ?w)" using n by simp_all
  from module_download_served[OF s exMod_ok d z this(1) h(1) this(2) h(2-4)] show ?thesis
    unfolding h by (auto simp: Let_def)
qed

section \<open>The policy gate\<close>

lemma spool_result: "fst (spoolModule M rd w) = Inr d \<Longrightarrow> d = fst rd" "fst (spoolModule M rd w) = Inl r \<Longrightarrow> \<exists>n msg. r = MError n msg"
  by (auto simp: spoolModule_def bindR_def ioMGuard_def split: prod.splits sum.splits if_splits)

text \<open>
  Claim C0. A policy in block mode keeps an upload out: when the policies find a violation in the upload's coordinates and size, the upload is
  answered with those violations or with an earlier error, and tables and store stay as they are.
\<close>

theorem policy_block_stores_nothing:
  assumes "mePolicy M = Some e" "peEnabled e" "peMode e = ''block''" "mfFile f = Some (fname, d, b)"
    and "evaluateQueries (peQueries e) \<lparr>piNamespace = mfNamespace f, piName = mfName f, piSystem = mfSystem f,
           piVersion = mfVersion f, piSize = int (length d)\<rparr> = Inr vs" "vs \<noteq> []"
  shows "\<exists>r io. ModuleUploadHandler M f w = (r, w\<lparr>rwIO := io\<rparr>) \<and> (r = MBlocked vs \<or> (\<exists>n msg. r = MError n msg))"
proof (cases "validateForm M f")
  case (Inl r)
  then have "ModuleUploadHandler M f w = (r, w\<lparr>rwIO := rwIO w\<rparr>)" "\<exists>n msg. r = MError n msg"
    by (auto simp: ModuleUploadHandler_def prepareModule_def validateForm_def split: if_splits option.splits)
  then show ?thesis by blast
next
  case (Inr q)
  then have q: "q = (fname, d, b)" using validateForm_Inr(5)[OF Inr] assms(4) by simp
  have "peQueries e \<noteq> []" using assms(5,6) by auto
  then have g: "policyGate M f d = Inl (MBlocked vs)" using assms by (simp add: policyGate_def Evaluate_def)
  obtain s w1 where s: "spoolModule M (d, b) w = (s, w1)" by (metis surj_pair)
  obtain io where io: "w1 = w\<lparr>rwIO := io\<rparr>" using spool_shape[of M "(d, b)" w] s by auto
  have "s = Inr d \<or> (\<exists>n msg. s = Inl (MError n msg))" using spool_result[of M "(d, b)" w] s by (cases s) auto
  then show ?thesis using Inr q g s io by (auto simp: ModuleUploadHandler_def prepareModule_def bindR_def)
qed

definition exPolicy :: PolicyEngine where
  "exPolicy = \<lparr>peEnabled = True, peMode = ''block'',
     peQueries = [\<lambda>i. Inr (if piNamespace i = ''evil'' then [''namespace''] else []), \<lambda>i. Inr (if 100 < piSize i then [''size''] else [])]\<rparr>"

theorem policy_block_stores_nothing_witness:
  "\<exists>r io. ModuleUploadHandler (exMod\<lparr>mePolicy := Some exPolicy\<rparr>) (exUpload ''evil'' '''' ''A'') (exRegistry exFs []) =
     (r, (exRegistry exFs [])\<lparr>rwIO := io\<rparr>) \<and> (r = MBlocked [''namespace''] \<or> (\<exists>n msg. r = MError n msg))"
  by (rule policy_block_stores_nothing[where e = exPolicy and fname = "''m.tar.gz''" and d = "''A''" and b = False])
     (simp_all add: exPolicy_def exUpload_def)

end
