(* ===== verification/Spec2Isabelle.thy ===== *)
theory Spec2Isabelle
  imports Scopes RBAC Claims NamespaceAuthz Authn StateStore GroupSync Validation
    RateLimit Quota Setup Transport VersionFilter AutoApprove Approvals
    Egress LocalStorage StorageMigration ApiKeys Webhooks Publisher Archive ScanQueue ProviderRegistry ModuleArtifacts
begin

text \<open>
  A verification of the core of the Terraform registry backend
  (\<^verbatim>\<open>src/backend/internal\<close>, Go).

  \<^bold>\<open>The program.\<close> The backend is a multi-tenant private registry. A request passes a chain of
  Gin middlewares: client certificates, authentication (session token, cookie or API key), forgery
  protection, rate limits, then the scope and namespace guards of the route, then a handler over
  PostgreSQL repositories. Namespaces of modules and providers are owned by organizations, the
  first publisher claiming them; organizations have members with role templates, partly
  provisioned from identity-provider groups at login. Background jobs mirror upstream versions,
  filter them and pass them through an approval queue.

  \<^bold>\<open>Theories and what they model\<close> (paths below \<^verbatim>\<open>src/backend/internal\<close>).

  \<^item> \<open>Prelude\<close>: Go strings as byte lists, \<^verbatim>\<open>strings.*\<close> and \<^verbatim>\<open>strconv\<close> functions, the Gin
    context \<^typ>\<open>gin\<close> with its keys and response headers, the middleware result \<^typ>\<open>outcome\<close>, and two
    interfaces the components share: inductive invariants of step relations
    (\<open>inductive_invariant\<close>) and single-use resources over interleaved operations (\<open>single_use\<close>).
  \<^item> \<open>Scopes\<close>: \<^verbatim>\<open>auth/scopes.go\<close>, \<^verbatim>\<open>api/admin/role_ceiling.go\<close>, \<^verbatim>\<open>api/admin/group_mapping_guard.go\<close>.
    The scope preorder with the admin wildcard, validation, and the ceiling of role assignment.
  \<^item> \<open>RBAC\<close>: the guards of \<^verbatim>\<open>middleware/rbac.go\<close>, one definition each, with every error branch.
  \<^item> \<open>Claims\<close>: \<^verbatim>\<open>db/repositories/namespace_claim_repository.go\<close> and the rename cascade. The database
    \<^typ>\<open>regdb\<close> carries a schedule: the other sessions' statements that commit before each statement of
    ours, and the statements that fail. The race for a first claim is thereby explicit. The locale
    \<open>claim_store\<close> states what the guards rely on and is interpreted on the SQL statements.
  \<^item> \<open>NamespaceAuthz\<close>: all of \<^verbatim>\<open>middleware/namespace_authz.go\<close>. The per-organization check refines
    the abstract policy \<open>qualifies\<close>; the guards are shown safe for it.
  \<^item> \<open>Authn\<close>: \<^verbatim>\<open>middleware/auth.go\<close> and the revoke-all watermarks of
    \<^verbatim>\<open>db/repositories/user_token_revocation_repository.go\<close>.
  \<^item> \<open>StateStore\<close>: \<^verbatim>\<open>auth/statestore_memory.go\<close> and, of \<^verbatim>\<open>api/admin/auth.go\<close>, the state check of
    the OIDC callback and the SAML response handling up to the assertion's acceptance.
  \<^item> \<open>GroupSync\<close>: \<^verbatim>\<open>reconcileGroupMemberships\<close> of \<^verbatim>\<open>api/admin/auth.go\<close> and its two callers.
  \<^item> \<open>RateLimit\<close>: \<^verbatim>\<open>middleware/ratelimit.go\<close>, the token bucket and the three middlewares.
  \<^item> \<open>Setup\<close>: \<^verbatim>\<open>middleware/setup.go\<close> and the settings row of \<^verbatim>\<open>db/repositories/oidc_config_repository.go\<close>.
  \<^item> \<open>Transport\<close>: \<^verbatim>\<open>auth/mtls\<close>, \<^verbatim>\<open>middleware/binary_mirror_auth.go\<close>, \<^verbatim>\<open>middleware/csrf.go\<close>.
  \<^item> \<open>Quota\<close>: \<^verbatim>\<open>middleware/quota.go\<close>, \<^verbatim>\<open>db/models/org_quota.go\<close>, \<^verbatim>\<open>db/repositories/org_quota_repository.go\<close>.
  \<^item> \<open>Validation\<close>: \<^verbatim>\<open>validation/segment.go\<close>, \<^verbatim>\<open>filename.go\<close>, \<^verbatim>\<open>platform.go\<close>.
  \<^item> \<open>VersionFilter\<close>: \<^verbatim>\<open>mirror/filter.go\<close>, the filters of \<^verbatim>\<open>jobs/terraform_mirror_sync.go\<close> and the
    ordering of \<^verbatim>\<open>db/repositories/module_repository.go\<close>; the locale \<open>version_order\<close> gives what a
    comparison promises to a sort and is interpreted on both comparison functions.
  \<^item> \<open>AutoApprove\<close>: \<^verbatim>\<open>mirror/auto_approve.go\<close> and its three callers in \<^verbatim>\<open>jobs\<close>.
  \<^item> \<open>Approvals\<close>: \<^verbatim>\<open>db/repositories/version_approval_repository.go\<close>, the mirror policies
    (\<^verbatim>\<open>db/models/mirror_policy.go\<close>) and approval links of \<^verbatim>\<open>db/repositories/rbac_repository.go\<close>.
  \<^item> This theory: the authenticated route group of \<^verbatim>\<open>api/router_routes.go\<close> and the properties that
    span authentication, forgery protection and namespace ownership.

  \<^bold>\<open>How code becomes definitions.\<close> A handler or repository method is one top-level definition with
  the branches of the code in their order; a local block or SQL statement that the proofs need by
  name is a definition of its own, used by that method. Tables are records of lists in row order. A database
  call returns a sum, \<open>Inl\<close> for the error. Times are integers in nanoseconds, passed as arguments
  where the code calls \<^verbatim>\<open>time.Now\<close>. 64-bit results that can wrap are wrapped explicitly
  (\<open>AutoApprove.wrap64\<close>); floating-point arithmetic in the rate limiter is rational arithmetic
  followed by an arbitrary rounding with bounded relative error. No function needs fuel: loops are
  structural recursions or have a termination measure.

  \<^bold>\<open>Parameters.\<close> Code outside the repository enters as arguments: the shared identity module
  (\<^typ>\<open>identity\<close>, with \<open>identity_contract\<close> for its scope test; \<^typ>\<open>orgstore\<close> for its organization
  queries), signature checks and user and key queries (\<^typ>\<open>authenv\<close>), URL parsing, Unicode case
  mapping beyond ASCII, \<^verbatim>\<open>go-version\<close> constraints, \<^verbatim>\<open>path.Match\<close>, JSON decoding, \<^verbatim>\<open>sort.Slice\<close> and
  the row order PostgreSQL picks among equals. Hypotheses on them state documented behaviour and are
  satisfied by concrete functions in the witnesses.

  \<^bold>\<open>What the theorems show.\<close>
  Tenancy: a claimed namespace is mutated only by callers qualified in the owning organization, also
  from the API key presented to the row changed; one winner of concurrent first claims; scopes
  held elsewhere are of no use on another organization's routes; roles are only assigned below the
  assigner's own scopes there; group reconciliation yields exactly the mapped memberships.
  Credentials: authentication admits only valid, unrevoked credentials and installs the identity
  they belong to; revoke-all is effective; cookie sessions need the forgery token; login states,
  SAML assertions and approval links are single-use for their lifetime under interleaving; setup
  routes close and setup tokens cannot be brute-forced. Limits: buckets stay in bounds and the number
  of requests passed in any interval is bounded; quotas are exact. Mirrors: filters return what they
  say, automatic approval needs evidence, decisions are atomic and audited and keep the mark of the
  latest version. A few theorems record behaviour that differs from what comments say, each proved
  on the model (for instance the replay of a SAML response whose relay state names the replay
  marker, and the refusal of mutations by certificate-authenticated clients).

  \<^bold>\<open>Not modelled:\<close> storage backends, SCM vendors' clients, scanners, signature verification and
  cryptography, Rego, Redis scripts, configuration loading, metrics and logging (I/O or third-party
  code); most CRUD handlers and repositories behind the guards. Next in the plan: webhook delivery and its
  retries, persistence of CVE advisories, rotation of the signing secret, storage migration, the outbound
  request guard, audit retention under legal holds.
\<close>

section \<open>The authenticated route group\<close>

text \<open>
  The group installs authentication and then the forgery protection
  (\<^verbatim>\<open>internal/api/router_routes.go\<close>).
\<close>

definition authenticatedPipeline ::
  "authenv \<Rightarrow> (string \<Rightarrow> string) \<Rightarrow> url_parse \<Rightarrow> csrf_config option \<Rightarrow> gin \<Rightarrow> outcome" where
  "authenticatedPipeline A lower up cfg c =
     (case AuthMiddleware A c of
        Next c1 \<Rightarrow> CSRFMiddleware lower up cfg c1
      | Abort st b c1 \<Rightarrow> Abort st b c1)"

lemma pipeline_Next:
  "authenticatedPipeline A lower up cfg c = Next c2 \<Longrightarrow>
   \<exists>c1. AuthMiddleware A c = Next c1 \<and> CSRFMiddleware lower up cfg c1 = Next c2"
  by (auto simp: authenticatedPipeline_def split: outcome.splits)

text \<open>
  Claim C6. A browser session cannot be ridden: on authenticated routes, a mutating request whose
  credential is the session cookie reaches the handlers only if it repeats a non-empty forgery
  cookie in the \<^verbatim>\<open>X-CSRF-Token\<close> header, whatever its other headers are.
\<close>

theorem cookie_session_needs_token:
  assumes pass: "authenticatedPipeline A lower up cfg c = Next c2" and mut: "\<not> safeMethod c"
    and cookie: "snd (presented c)" "fst (presented c) \<noteq> []"
  shows "\<exists>tok. tok \<noteq> [] \<and> reqCookie (ginReq c) ''tfr_csrf'' = Some tok \<and> reqHeader (ginReq c) ''X-CSRF-Token'' = tok"
proof -
  from pipeline_Next[OF pass] obtain c1 where a: "AuthMiddleware A c = Next c1"
    and f: "CSRFMiddleware lower up cfg c1 = Next c2" by blast
  from AuthMiddleware_Next[OF a] cookie obtain cl where "authJWT A True cl c = Next c1" by auto
  from authJWT_request[OF this] have r: "ginReq c1 = ginReq c" "cGetString c1 ''auth_method'' = ''jwt_cookie''"
    by simp_all
  have "\<not> safeMethod c1" using mut r(1) by (simp add: safeMethod_def)
  with f r(2) have "passes (doubleSubmit c1)" by (simp add: CSRFMiddleware_def)
  with r(1) show ?thesis by (simp add: doubleSubmit_passes)
qed

definition browserPost :: "string \<Rightarrow> gin" where
  "browserPost tok = \<lparr>ginReq = \<lparr>reqMethod = ''POST'', reqHeader = (\<lambda>h. if h = ''X-CSRF-Token'' then tok else []),
       reqCookie = (\<lambda>n. if n = ''tfr_auth_token'' then Some ''jwt'' else if n = ''tfr_csrf'' then Some ''T'' else None),
       reqParam = (\<lambda>_. []), reqFullPath = [], reqClientIP = [], reqRemoteAddr = []\<rparr>,
     ginKeys = Map.empty, ginHeaders = []\<rparr>"

lemma presented_browserPost: "presented (browserPost tok) = (''jwt'', True)"
  by (simp add: presented_def browserPost_def cookieToken_def)

lemma safeMethod_browserPost: "\<not> safeMethod (browserPost tok)"
proof -
  have "toUpperASCII ''POST'' = ''POST''" by code_simp
  then show ?thesis by (simp add: safeMethod_def browserPost_def)
qed

theorem cookie_session_needs_token_witness:
  "\<exists>tok. tok \<noteq> [] \<and> reqCookie (ginReq (browserPost ''T'')) ''tfr_csrf'' = Some tok \<and>
     reqHeader (ginReq (browserPost ''T'')) ''X-CSRF-Token'' = tok"
proof -
  let ?A = "exEnv None None 0" and ?c = "browserPost ''T''"
  let ?c1 = "cSet (cSet (setJWTUser True ''u1'' ?c) ''jwt_claims'' (GClaims exClaims)) ''scopes'' (GStrs (jwtScopes exClaims))"
  have j: "aeValidateJWT ?A ''jwt'' = Inr exClaims" "jtiCheck ?A exClaims = (False, False)"
    "watermarkCheck ?A exClaims = (False, False)" "aeGetUserByID ?A (claimUserID exClaims) = Inr (Some ''u1'')"
    by (simp_all add: exEnv_def jtiCheck_def watermarkCheck_def exClaims_def)
  have h: "reqHeader (ginReq ?c) ''Authorization'' = []" by (simp add: browserPost_def)
  have ck: "cookieToken ?c [] = (''jwt'', True)" by (simp add: browserPost_def cookieToken_def)
  have a: "AuthMiddleware ?A ?c = Next ?c1"
    by (simp add: AuthMiddleware_def h ck j authJWT_def)
  have r1: "ginReq ?c1 = ginReq ?c" "cGetString ?c1 ''auth_method'' = ''jwt_cookie''"
    by (simp_all add: setJWTUser_def)
  have sm: "\<not> safeMethod ?c1" using safeMethod_browserPost[of "''T''"] r1(1) by (simp add: safeMethod_def)
  have rq: "reqCookie (ginReq ?c) ''tfr_csrf'' = Some ''T''" "reqHeader (ginReq ?c) ''X-CSRF-Token'' = ''T''"
    by (simp_all add: browserPost_def)
  have ds: "doubleSubmit ?c1 = Next ?c1"
    unfolding doubleSubmit_def r1(1) by (simp add: rq)
  have f: "CSRFMiddleware (\<lambda>s. s) (\<lambda>_. None) None ?c1 = Next ?c1"
    unfolding CSRFMiddleware_def r1(2) by (simp add: sm ds)
  have "authenticatedPipeline ?A (\<lambda>s. s) (\<lambda>_. None) None ?c = Next ?c1"
    unfolding authenticatedPipeline_def a by (simp add: f)
  from cookie_session_needs_token[OF this safeMethod_browserPost] show ?thesis
    by (simp add: presented_browserPost)
qed

text \<open>
  Machine clients that authenticate by certificate cannot change anything: a mutating
  request without bearer token, cookie or forgery token, authenticated by a verified certificate
  that maps to scopes, passes authentication but is answered 403 by the forgery protection,
  which takes it for a cookie session.
\<close>

theorem certificate_mutations_refused:
  assumes m: "mtlsAuthMiddleware lower prov tls c0 = Next c" "cGetString c ''auth_method'' = ''mtls''"
    and mut: "\<not> safeMethod c" and none: "fst (presented c) = []" "reqCookie (ginReq c) ''tfr_csrf'' = None"
    and hdr: "reqHeader (ginReq c) ''Authorization'' = []"
  shows "AuthMiddleware A c = Next c \<and> outStatus (authenticatedPipeline A lower up cfg c) = 403"
proof -
  have a: "AuthMiddleware A c = Next c"
    using none(1) hdr m(2) by (auto simp: AuthMiddleware_def presented_def split: prod.splits)
  have "CSRFMiddleware lower up cfg c = abortErr StatusForbidden ''CSRF cookie missing'' c"
    using mut m(2) none(2) by (simp add: CSRFMiddleware_def doubleSubmit_def)
  with a show ?thesis by (simp add: authenticatedPipeline_def)
qed

definition machinePost :: gin where
  "machinePost = \<lparr>ginReq = \<lparr>reqMethod = ''POST'', reqHeader = (\<lambda>h. []), reqCookie = (\<lambda>n. None),
       reqParam = (\<lambda>_. []), reqFullPath = [], reqClientIP = [], reqRemoteAddr = []\<rparr>,
     ginKeys = Map.empty, ginHeaders = []\<rparr>"

theorem certificate_mutations_refused_witness:
  "\<exists>c. mtlsAuthMiddleware (\<lambda>s. s) (Some [trimSpace ''CN=ci'' \<mapsto> [''modules:write'']])
     (Some [[\<lparr>certCommonName = ''ci'', certSubject = []\<rparr>]]) machinePost = Next c \<and>
     outStatus (authenticatedPipeline (exEnv None None 0) (\<lambda>s. s) (\<lambda>_. None) None c) = 403"
proof -
  let ?c = "cSet (cSet (cSet machinePost ''auth_method'' (GStr ''mtls'')) ''mtls_subject'' (GStr ''CN=ci''))
      ''scopes'' (GStrs [''modules:write''])"
  have m: "mtlsAuthMiddleware (\<lambda>s. s) (Some [trimSpace ''CN=ci'' \<mapsto> [''modules:write'']])
     (Some [[\<lparr>certCommonName = ''ci'', certSubject = []\<rparr>]]) machinePost = Next ?c"
    by (simp add: mtlsAuthMiddleware_def Authenticate_def normalizeSubject_def)
  have "toUpperASCII ''POST'' = ''POST''" by code_simp
  then have s: "\<not> safeMethod ?c" by (simp add: safeMethod_def machinePost_def)
  have p: "presented ?c = ([], False)" by (simp add: presented_def machinePost_def cookieToken_def)
  have q: "cGetString ?c ''auth_method'' = ''mtls''" "reqCookie (ginReq ?c) ''tfr_csrf'' = None"
    "reqHeader (ginReq ?c) ''Authorization'' = []"
    by (simp_all add: machinePost_def)
  from certificate_mutations_refused[OF m q(1) s _ q(2,3), of "exEnv None None 0" "\<lambda>_. None" None] p m show ?thesis by auto
qed

section \<open>API keys stay inside their organization\<close>


definition keyDb :: regdb where
  "keyDb = exDb\<lparr>dbClaims := [\<lparr>clNamespace = ''acme'', clOrganizationID = ''o1'', clClaimedBy = None, clCreatedAt = 0\<rparr>],
     dbSched := []\<rparr>"


end
